(* ===== verification/Prelude.thy ===== *)
theory Prelude imports Main "HOL-Library.Word" begin

text \<open>
  What every component shares: the names of the C integer types, the byte-order helpers'
  common laws, and generic lemmas on lists and words.

  Conventions of the development.
  \<^item> \<open>uint8_t\<close>, \<open>uint16_t\<close>, \<open>uint32_t\<close>, \<open>uint64_t\<close> are words of that width, so
    arithmetic on them wraps as in C. \<open>int\<close> results (return codes) are HOL integers.
    \<open>size_t\<close> is \<open>nat\<close>: every size is bounded by the length of a buffer that exists.
  \<^item> A pointer with a length is the list of the bytes it covers; a NULL data pointer is the
    empty list, which the guards of the code treat alike. An optional pointer (one the code
    calls with NULL) is an \<open>option\<close>.
  \<^item> What the operating system or the vendor SDK answers is an argument of the definitions.
\<close>

unbundle bit_operations_syntax

type_synonym u8 = "8 word"
type_synonym u16 = "16 word"
type_synonym u32 = "32 word"
type_synonym u64 = "64 word"
type_synonym bytes = "u8 list"

named_theorems venc_defs \<open>definitions unfolded when a small operation is evaluated\<close>
named_theorems ring_simps \<open>index arithmetic of the ring buffers\<close>

subsection \<open>Lists\<close>

lemma take_append_drop_overwrite [simp]:
  "take (length xs) (xs @ drop (length xs) ys) = xs"
  by simp

lemma length_overwrite: "length xs \<le> length ys \<Longrightarrow> length (xs @ drop (length xs) ys) = length ys"
  by simp

lemma upt_snoc: "m \<le> n \<Longrightarrow> [m..<Suc n] = [m..<n] @ [n]"
  by simp

lemma upt_Cons_step: "m < n \<Longrightarrow> [m..<n] = m # [Suc m..<n]"
  by (rule upt_conv_Cons)

subsection \<open>Ring indices\<close>

text \<open>Two positions closer than the capacity that meet modulo the capacity are equal.\<close>

lemma mod_window_inj:
  fixes i j :: nat
  assumes "i mod n = j mod n" and "i \<le> j" and "j < i + n"
  shows "i = j"
proof -
  from assms(1,2) have "n dvd j - i"
    by (metis mod_eq_dvd_iff_nat)
  moreover have "j - i < n" using assms(2,3) by arith
  ultimately have "j - i = 0"
    by (metis dvd_imp_le neq0_conv not_le)
  with assms(2) show ?thesis by simp
qed

lemma mod_window_neq [ring_simps]:
  fixes i j :: nat
  shows "i < j \<Longrightarrow> j < i + n \<Longrightarrow> i mod n \<noteq> j mod n"
  using mod_window_inj [of i n j] by auto

subsection \<open>Powers of two\<close>

lemma nat_and_pred_double:
  fixes m :: nat
  assumes "0 < m"
  shows "(2 * m) AND (2 * m - 1) = 2 * (m AND (m - 1))"
proof -
  obtain j where m: "m = Suc j" using assms by (cases m) auto
  have "(2 * Suc j) AND Suc (2 * j) = 2 * (Suc j AND j)"
    by (subst and_nat_unfold) simp
  moreover have "2 * m - 1 = Suc (2 * j)" using m by simp
  ultimately show ?thesis using m by simp
qed

lemma nat_power_of_2_test:
  fixes n :: nat
  assumes "0 < n" and "n AND (n - 1) = 0"
  shows "\<exists>k. n = 2 ^ k"
  using assms
proof (induction n rule: less_induct)
  case (less n)
  show ?case
  proof (cases "even n")
    case True
    then obtain m where m: "n = 2 * m" by (elim evenE)
    with less.prems have "0 < m" and "m AND (m - 1) = 0"
      using nat_and_pred_double [of m] by auto
    moreover have "m < n" using m \<open>0 < m\<close> by simp
    ultimately obtain k where "m = 2 ^ k" using less.IH by blast
    with m have "n = 2 ^ Suc k" by simp
    then show ?thesis by blast
  next
    case False
    then obtain m where m: "n = 2 * m + 1" by (elim oddE)
    have "n AND (n - 1) = 2 * (m AND m)"
      using m by (simp add: and_nat_unfold [of "Suc (2 * m)" "2 * m"])
    with less.prems m have "n = 2 ^ 0" by simp
    then show ?thesis by blast
  qed
qed

lemma word_power_of_2_test:
  fixes v :: "'a::len word"
  assumes "v \<noteq> 0" and "v AND (v - 1) = 0"
  shows "\<exists>k < LENGTH('a). unat v = 2 ^ k"
proof -
  have "0 < unat v" using assms(1) by (simp add: unat_gt_0)
  moreover have "unat v AND (unat v - 1) = 0"
  proof -
    have "unat (v - 1) = unat v - 1" using assms(1) by (simp add: unat_minus_one)
    moreover have "unat (v AND (v - 1)) = unat v AND unat (v - 1)"
      by (simp add: unsigned_and_eq)
    ultimately show ?thesis using assms(2) by simp
  qed
  ultimately obtain k where k: "unat v = 2 ^ k" using nat_power_of_2_test by blast
  have "(2::nat) ^ k < 2 ^ LENGTH('a)"
    using k unsigned_less [of v, where ?'a = nat] by simp
  then have "k < LENGTH('a)" by simp
  with k show ?thesis by blast
qed

lemma and_pred_power_of_2:
  fixes w c :: "'a::len word"
  assumes "unat c = 2 ^ k"
  shows "unat (w AND (c - 1)) = unat w mod unat c"
proof -
  have "c \<noteq> 0" using assms by auto
  then have "unat (c - 1) = 2 ^ k - 1" using assms by (simp add: unat_minus_one)
  then have "unat (w AND (c - 1)) = unat w AND mask k"
    by (simp add: unsigned_and_eq mask_eq_exp_minus_1)
  also have "\<dots> = take_bit k (unat w)" by (simp add: take_bit_eq_mask)
  also have "\<dots> = unat w mod 2 ^ k" by (simp add: take_bit_eq_mod)
  finally show ?thesis using assms by simp
qed

subsection \<open>Unsigned arithmetic that does not wrap\<close>

lemma unat_Suc: "Suc (unat w) < 2 ^ LENGTH('a) \<Longrightarrow> unat (w + 1) = Suc (unat w)" for w :: "'a::len word"
  by (metis Suc_eq_plus1 unat_1 unat_add_lem unsigned_1)

lemma unat_diff_le: "v \<le> w \<Longrightarrow> unat (w - v) = unat w - unat v" for v w :: "'a::len word"
  by (rule unat_sub)

subsection \<open>Casts and shifts\<close>

lemma unat_lt_word: "unat w < 2 ^ LENGTH('a)" for w :: "'a::len word"
  by (rule unsigned_less)

lemma unat_ucast_widen:
  fixes w :: "'a::len word"
  assumes "LENGTH('a) \<le> LENGTH('b::len)"
  shows "unat (ucast w :: 'b word) = unat w"
proof -
  have "unat w < 2 ^ LENGTH('b)"
    using unat_lt_word [of w] power_increasing [OF assms, of "2::nat"] by linarith
  then show ?thesis by (simp add: unsigned_ucast_eq take_bit_nat_eq_self)
qed

lemma unat_ucast_mod: "unat (ucast w :: 'b::len word) = unat w mod 2 ^ LENGTH('b)" for w :: "'a::len word"
  by (simp add: unsigned_ucast_eq take_bit_eq_mod)

lemma and_not_mask_word: "w AND NOT (mask n) = push_bit n (drop_bit n w)" for w :: "'a::len word"
  by (rule bit_word_eqI) (auto simp: bit_simps)

text \<open>The two shifts of a byte split and join, as numbers.\<close>

lemma unat_drop_bit: "unat (drop_bit n w) = unat w div 2 ^ n" for w :: "'a::len word"
  unfolding unsigned_drop_bit_eq by (simp add: drop_bit_eq_div take_bit_nat_eq_self unat_lt_word)

subsection \<open>Bytes\<close>

lemma u8_eqI:
  fixes x y :: u8
  assumes "bit x 0 = bit y 0" "bit x 1 = bit y 1" "bit x 2 = bit y 2" "bit x 3 = bit y 3"
    "bit x 4 = bit y 4" "bit x 5 = bit y 5" "bit x 6 = bit y 6" "bit x 7 = bit y 7"
  shows "x = y"
proof (rule bit_word_eqI)
  fix n assume "n < LENGTH(8)"
  then have "n \<in> {0,1,2,3,4,5,6,7}" by auto
  with assms show "bit x n = bit y n" by auto
qed

lemma bit_times_2: "bit (a * 2) n \<longleftrightarrow> n < LENGTH('a) \<and> n \<noteq> 0 \<and> bit a (n - 1)" for a :: "'a::len word"
  using bit_double_iff [of a n] by (simp add: mult.commute)

lemmas byte_simps = bit_simps bit_times_2 numeral_2_eq_2 [symmetric]

text \<open>Big-endian reads, and that they undo the shifts the writers use.\<close>

definition be16 :: "u8 \<Rightarrow> u8 \<Rightarrow> u16" where
  "be16 a b = push_bit 8 (ucast a) OR ucast b"

definition be32 :: "u8 \<Rightarrow> u8 \<Rightarrow> u8 \<Rightarrow> u8 \<Rightarrow> u32" where
  "be32 a b c d = push_bit 24 (ucast a) OR push_bit 16 (ucast b) OR push_bit 8 (ucast c) OR ucast d"

lemma ff_mask: "(0xFF :: 'a::len word) = mask 8"
  by (simp add: mask_eq_exp_minus_1)

lemma be16_split: "be16 (ucast (drop_bit 8 x AND 0xFF)) (ucast (x AND 0xFF)) = x"
  unfolding be16_def ff_mask by (rule bit_word_eqI) (auto simp: bit_simps)

lemma be32_split:
  "be32 (ucast (drop_bit 24 x AND 0xFF)) (ucast (drop_bit 16 x AND 0xFF))
     (ucast (drop_bit 8 x AND 0xFF)) (ucast (x AND 0xFF)) = x" (is "?l = x")
proof (rule bit_word_eqI)
  fix n assume "n < LENGTH(32)"
  then have "n < 32" by simp
  then consider "n < 8" | "8 \<le> n" "n < 16" | "16 \<le> n" "n < 24" | "24 \<le> n" "n < 32"
    by linarith
  then show "bit ?l n = bit x n"
    by cases (auto simp: be32_def ff_mask bit_simps)
qed

lemma be16_nat:
  assumes "n < 65536"
  shows "unat (be16 (word_of_nat (n div 256)) (word_of_nat n)) = n"
proof -
  have "be16 (word_of_nat (n div 256)) (word_of_nat n) = (word_of_nat n :: u16)"
    unfolding be16_def
    by (rule bit_word_eqI)
      (auto simp: bit_simps bit_of_nat_iff drop_bit_eq_div [of 8 n, symmetric, simplified])
  with assms show ?thesis by (simp add: unsigned_of_nat take_bit_nat_eq_self)
qed

end
