(* ===== verification/Queues.thy ===== *)
theory Queues imports Prelude "HOL-Library.Sublist" begin

text \<open>
  The contracts the ring buffers share, as locales. \<open>fifo_source\<close> is what a consumer relies on
  (pop takes the oldest element, or nothing when there is none); \<open>rejecting_queue\<close> adds a push
  that refuses when full (the packet ring), \<open>evicting_queue\<close> one that drops the oldest element
  (the audio ring). The lemmas proved here hold of every interpretation: what a run of pushes
  and pops hands out is, in order, a subsequence of what went in.

  The invariant carries a credit: \<open>invar n s\<close> says that \<open>s\<close> is well formed and good for \<open>n\<close>
  more pushes. The audio ring is good for any number; the packet ring counts its packets in 64
  bits and is well formed only until that counter would wrap.
\<close>

datatype 'x queue_op = Push 'x | Pop

text \<open>A run: the elements popped, and the final state.\<close>

fun run_ops :: "('x \<Rightarrow> 's \<Rightarrow> 's) \<Rightarrow> ('s \<Rightarrow> 'a option \<times> 's) \<Rightarrow> 'x queue_op list \<Rightarrow> 's \<Rightarrow> 'a list \<times> 's" where
  "run_ops push pop [] s = ([], s)"
| "run_ops push pop (Push x # ops) s = run_ops push pop ops (push x s)"
| "run_ops push pop (Pop # ops) s =
     (let (r, s') = pop s; (out, s'') = run_ops push pop ops s'
      in ((case r of None \<Rightarrow> out | Some x \<Rightarrow> x # out), s''))"

fun pushed :: "'x queue_op list \<Rightarrow> 'x list" where
  "pushed [] = []"
| "pushed (Push x # ops) = x # pushed ops"
| "pushed (Pop # ops) = pushed ops"

text \<open>Popping \<open>n\<close> times.\<close>

fun pops :: "('s \<Rightarrow> 'a option \<times> 's) \<Rightarrow> nat \<Rightarrow> 's \<Rightarrow> 'a list \<times> 's" where
  "pops pop 0 s = ([], s)"
| "pops pop (Suc n) s =
     (case pop s of (None, s') \<Rightarrow> ([], s')
      | (Some x, s') \<Rightarrow> (let (xs, s'') = pops pop n s' in (x # xs, s'')))"

locale fifo_source =
  fixes contents :: "'s \<Rightarrow> 'a list"
    and invar :: "nat \<Rightarrow> 's \<Rightarrow> bool"
    and pop :: "'s \<Rightarrow> 'a option \<times> 's"
  assumes pop_empty: "invar n s \<Longrightarrow> contents s = [] \<Longrightarrow> pop s = (None, s)"
    and pop_front: "invar n s \<Longrightarrow> contents s = x # xs \<Longrightarrow>
      \<exists>s'. pop s = (Some x, s') \<and> contents s' = xs \<and> invar n s'"
begin

lemma pop_cases:
  assumes "invar n s"
  obtains "contents s = []" "pop s = (None, s)"
  | x xs s' where "contents s = x # xs" "pop s = (Some x, s')" "contents s' = xs" "invar n s'"
proof (cases "contents s")
  case Nil
  with assms that(1) show thesis by (simp add: pop_empty)
next
  case (Cons x xs)
  with pop_front [OF assms Cons] that(2) show thesis by blast
qed

text \<open>Draining hands out the contents, oldest first.\<close>

lemma pops_take:
  assumes "invar n s"
  shows "fst (pops pop k s) = take k (contents s) \<and>
    contents (snd (pops pop k s)) = drop k (contents s) \<and> invar n (snd (pops pop k s))"
  using assms
proof (induction k arbitrary: s)
  case 0
  then show ?case by simp
next
  case (Suc k)
  from Suc.prems show ?case
  proof (cases rule: pop_cases)
    case 1
    with Suc.prems show ?thesis by simp
  next
    case (2 x xs s')
    with Suc.IH [of s'] show ?thesis by (cases "pops pop k s'") simp
  qed
qed

lemma pops_all: "invar n s \<Longrightarrow> length (contents s) \<le> k \<Longrightarrow> fst (pops pop k s) = contents s"
  using pops_take by simp

end

text \<open>
  Any push the components make keeps the order: it may drop old elements from the front and may
  refuse the new one. What is pushed is stored as its \<open>view\<close>; \<open>valid\<close> is what the caller owes.
\<close>

locale lossy_queue = fifo_source contents invar pop
  for contents :: "'s \<Rightarrow> 'a list" and invar and pop +
  fixes push :: "'x \<Rightarrow> 's \<Rightarrow> 's" and view :: "'x \<Rightarrow> 'a" and valid :: "'x \<Rightarrow> bool"
  assumes push_invar: "invar (Suc n) s \<Longrightarrow> valid x \<Longrightarrow> invar n (push x s)"
    and push_lossy: "invar (Suc n) s \<Longrightarrow> valid x \<Longrightarrow>
      \<exists>k l. contents (push x s) = drop k (contents s) @ l \<and> (l = [] \<or> l = [view x])"
begin

lemma run_subseq:
  assumes "invar (length (pushed ops)) s" and "run_ops push pop ops s = (out, s')"
    and "set (pushed ops) \<subseteq> Collect valid"
  shows "subseq (out @ contents s') (contents s @ map view (pushed ops)) \<and> invar 0 s'"
  using assms
proof (induction ops arbitrary: s out)
  case Nil
  then show ?case by simp
next
  case (Cons a ops)
  show ?case
  proof (cases a)
    case (Push x)
    with Cons.prems have run: "run_ops push pop ops (push x s) = (out, s')"
      and inv: "invar (Suc (length (pushed ops))) s" and v: "valid x" "set (pushed ops) \<subseteq> Collect valid" by simp_all
    obtain k l where kl: "contents (push x s) = drop k (contents s) @ l" and "l = [] \<or> l = [view x]"
      using push_lossy [OF inv v(1)] by blast
    then have "subseq l [view x]" by auto
    then have "subseq (contents (push x s)) (contents s @ [view x])"
      unfolding kl
      by (intro list_emb_append_mono suffix_imp_subseq [OF suffix_drop])
    then have "subseq (contents (push x s) @ map view (pushed ops)) ((contents s @ [view x]) @ map view (pushed ops))"
      by (rule list_emb_append_mono) simp
    then have "subseq (contents (push x s) @ map view (pushed ops)) (contents s @ map view (pushed (a # ops)))"
      using Push by simp
    with Cons.IH [OF push_invar [OF inv v(1)] run v(2)] show ?thesis
      using subseq_order.trans by blast
  next
    case Pop
    with Cons.prems(1) have inv: "invar (length (pushed ops)) s" by simp
    then show ?thesis
    proof (cases rule: pop_cases)
      case 1
      with Cons.prems Pop have "run_ops push pop ops s = (out, s')"
        by (auto split: prod.splits)
      with Cons.IH inv Pop Cons.prems(3) show ?thesis by simp
    next
      case (2 x xs t)
      with Cons.prems Pop obtain out' where out: "out = x # out'"
        and "run_ops push pop ops t = (out', s')"
        by (auto split: prod.splits)
      with Cons.IH [of t out'] Cons.prems(3) 2 Pop
      have "subseq (out' @ contents s') (xs @ map view (pushed ops))" and "invar 0 s'" by auto
      with 2 Pop out show ?thesis by simp
    qed
  qed
qed

end

text \<open>A push that refuses when the queue is full or the element too big.\<close>

locale rejecting_queue = fifo_source contents invar pop
  for contents :: "'s \<Rightarrow> 'a list" and invar and pop +
  fixes push :: "'a \<Rightarrow> 's \<Rightarrow> 's" and accepts :: "'a \<Rightarrow> 's \<Rightarrow> bool"
  assumes reject_invar: "invar (Suc n) s \<Longrightarrow> invar n (push x s)"
    and push_accept: "invar (Suc n) s \<Longrightarrow> accepts x s \<Longrightarrow> contents (push x s) = contents s @ [x]"
    and push_reject: "invar (Suc n) s \<Longrightarrow> \<not> accepts x s \<Longrightarrow> contents (push x s) = contents s"

text \<open>A push that always takes the element, at the price of the oldest one when full.\<close>

locale evicting_queue = fifo_source contents invar pop
  for contents :: "'s \<Rightarrow> 'a list" and invar and pop +
  fixes push :: "'x \<Rightarrow> 's \<Rightarrow> 's" and view :: "'x \<Rightarrow> 'a" and valid :: "'x \<Rightarrow> bool" and capacity :: nat
  assumes evict_invar: "invar (Suc n) s \<Longrightarrow> valid x \<Longrightarrow> invar n (push x s)"
    and push_room: "invar (Suc n) s \<Longrightarrow> valid x \<Longrightarrow> length (contents s) < capacity \<Longrightarrow>
      contents (push x s) = contents s @ [view x]"
    and push_full: "invar (Suc n) s \<Longrightarrow> valid x \<Longrightarrow> \<not> length (contents s) < capacity \<Longrightarrow>
      contents (push x s) = tl (contents s) @ [view x]"

sublocale rejecting_queue \<subseteq> lossy_queue contents invar pop push "\<lambda>x. x" "\<lambda>x. True"
proof unfold_locales
  fix n s x
  assume inv: "invar (Suc n) s"
  then show "invar n (push x s)" by (rule reject_invar)
  show "\<exists>k l. contents (push x s) = drop k (contents s) @ l \<and> (l = [] \<or> l = [x])"
  proof (cases "accepts x s")
    case True
    with push_accept [OF inv] show ?thesis by (intro exI [of _ 0] exI [of _ "[x]"]) simp
  next
    case False
    with push_reject [OF inv] show ?thesis by (intro exI [of _ 0] exI [of _ "[]"]) simp
  qed
qed

sublocale evicting_queue \<subseteq> lossy_queue contents invar pop push view valid
proof unfold_locales
  fix n s x
  assume inv: "invar (Suc n) s" "valid x"
  then show "invar n (push x s)" by (rule evict_invar)
  show "\<exists>k l. contents (push x s) = drop k (contents s) @ l \<and> (l = [] \<or> l = [view x])"
  proof (cases "length (contents s) < capacity")
    case True
    with push_room [OF inv] show ?thesis by (intro exI [of _ 0] exI [of _ "[view x]"]) simp
  next
    case False
    with push_full [OF inv] show ?thesis
      by (intro exI [of _ 1] exI [of _ "[view x]"]) (simp add: drop_Suc)
  qed
qed

context evicting_queue
begin

text \<open>Within the capacity nothing is lost: a batch is pushed whole.\<close>

lemma push_batch:
  assumes "invar (n + length xs) s" and "length (contents s) + length xs \<le> capacity" and "set xs \<subseteq> Collect valid"
  shows "contents (fold push xs s) = contents s @ map view xs \<and> invar n (fold push xs s)"
  using assms
proof (induction xs arbitrary: s)
  case Nil
  then show ?case by simp
next
  case (Cons x xs)
  from Cons.prems have inv: "invar (Suc (n + length xs)) s" by simp
  have "contents (push x s) = contents s @ [view x]"
    using Cons.prems by (intro push_room [OF inv]) simp_all
  with Cons.IH [of "push x s"] evict_invar [OF inv] Cons.prems show ?case by simp
qed

text \<open>And of a longer batch the newest elements stay.\<close>

lemma push_latest:
  assumes "invar (n + length xs) s" and "set xs \<subseteq> Collect valid" and "length (contents s) \<le> capacity" and "0 < capacity"
  shows "contents (fold push xs s) = drop (length (contents s) + length xs - capacity) (contents s @ map view xs)
    \<and> invar n (fold push xs s)"
  using assms(1-3)
proof (induction xs arbitrary: s)
  case Nil
  then show ?case by simp
next
  case (Cons x xs)
  from Cons.prems have inv: "invar (Suc (n + length xs)) s" and v: "valid x" by simp_all
  note IH = Cons.IH [of "push x s"]
  show ?case
  proof (cases "length (contents s) < capacity")
    case True
    with push_room [OF inv v] IH evict_invar [OF inv v] Cons.prems show ?thesis by simp
  next
    case False
    then obtain y ys where c: "contents s = y # ys" using assms(4) by (cases "contents s") auto
    with False push_full [OF inv v] IH evict_invar [OF inv v] Cons.prems show ?thesis by (simp add: Suc_diff_le)
  qed
qed

end

end
