(* ===== verification/VencRing.thy ===== *)
theory VencRing imports Queues begin

text \<open>
  The shared-memory packet ring (\<open>include/venc_ring.h\<close>, \<open>src/venc_ring.c\<close>): the header,
  the slot geometry, create / attach / destroy with the answers of the operating system as
  arguments, and the single-threaded reading of write and read. \<open>RingProtocol\<close> models the same
  write and read as interleaved steps of the two processes.

  The slot area is the list of the \<open>slot_count\<close> slots; \<open>slot_region\<close> and the geometry lemmas
  show that the byte ranges the code computes for them are disjoint and inside the mapping,
  which is what makes the list a faithful picture of the mapped bytes.
\<close>

subsection \<open>Data\<close>

definition VENC_RING_MAGIC :: u32 where "VENC_RING_MAGIC = 0x56454E43"
definition VENC_RING_VERSION :: u32 where "VENC_RING_VERSION = 2"

text \<open>\<open>sizeof(venc_ring_hdr_t)\<close>, pinned to 192 by the static assertion of the header.\<close>
definition sizeof_ring_hdr :: nat where "sizeof_ring_hdr = 192"

record ring_hdr =
  magic :: u32
  version :: u32
  slot_count :: u32
  slot_data_size :: u32
  total_size :: u32
  epoch :: u32
  init_complete :: u32
  write_idx :: u64
  futex_seq :: u32
  read_idx :: u64
  consumer_waiting :: u32

record ring_slot =
  slot_length :: u16
  slot_bytes :: bytes

record ring_shm =
  shm_hdr :: ring_hdr
  shm_slots :: "ring_slot list"

record ring_stats =
  st_writes :: u64
  st_reads :: u64
  st_full_drops :: u64
  st_oversize_drops :: u64
  st_bad_slot_drops :: u64

record ring_handle =
  h_slot_stride :: u32
  h_slot_data_size :: u32
  h_map_size :: u32
  h_is_owner :: bool
  h_name :: string
  h_stats :: ring_stats

definition zero_stats :: ring_stats where
  "zero_stats = \<lparr>st_writes = 0, st_reads = 0, st_full_drops = 0, st_oversize_drops = 0,
     st_bad_slot_drops = 0\<rparr>"

subsection \<open>Geometry\<close>

definition calc_slot_stride :: "u32 \<Rightarrow> u32" where
  "calc_slot_stride data_size = (2 + data_size + 7) AND NOT 7"

definition calc_total_size :: "u32 \<Rightarrow> u32 \<Rightarrow> u32" where
  "calc_total_size count data_size =
     (let stride = calc_slot_stride data_size;
          slots_area = (ucast count :: u64) * ucast stride;
          total = of_nat sizeof_ring_hdr + slots_area
      in if total > 0xFFFFFFFF then 0 else ucast total)"

definition is_power_of_2 :: "u32 \<Rightarrow> bool" where
  "is_power_of_2 v \<longleftrightarrow> v > 0 \<and> v AND (v - 1) = 0"

text \<open>Where \<open>venc_ring_slot_at\<close> puts slot \<open>idx\<close>: the bytes from the start of the mapping.\<close>

definition venc_ring_slot_at :: "ring_handle \<Rightarrow> u32 \<Rightarrow> nat" where
  "venc_ring_slot_at h idx =
     sizeof_ring_hdr + unat ((ucast idx :: u64) * ucast (h_slot_stride h))"

subsection \<open>Create, attach, destroy\<close>

text \<open>What the operating system is asked for, in order.\<close>

datatype os_op = ShmOpen string | Ftruncate u32 | CloseFd | Mmap u32 | Munmap u32 | ShmUnlink string

text \<open>The answers of one call of \<open>venc_ring_create\<close>, and the monotonic clock.\<close>

record create_env =
  ce_shm_open :: bool
  ce_ftruncate :: bool
  ce_mmap :: bool
  ce_calloc :: bool
  ce_tv_sec :: u32
  ce_tv_nsec :: u32

text \<open>\<open>snprintf(name, 256, ...)\<close> keeps at most 255 characters.\<close>

definition ring_shm_name :: "string \<Rightarrow> string" where
  "ring_shm_name s = take 255 (if hd s = CHR ''/'' then s else CHR ''/'' # s)"

definition new_handle :: "u32 \<Rightarrow> u32 \<Rightarrow> bool \<Rightarrow> string \<Rightarrow> ring_handle" where
  "new_handle data_size tot owner name =
     \<lparr>h_slot_stride = calc_slot_stride data_size, h_slot_data_size = data_size,
      h_map_size = tot, h_is_owner = owner, h_name = name, h_stats = zero_stats\<rparr>"

definition ring_epoch :: "create_env \<Rightarrow> u32" where
  "ring_epoch e =
     ucast ((ucast (ce_tv_sec e) :: u64) * 1000 + ucast (ce_tv_nsec e) div 1000000)"

text \<open>The header and slots after \<open>memset\<close> and the field stores of \<open>venc_ring_create\<close>.\<close>

definition fresh_hdr :: "u32 \<Rightarrow> u32 \<Rightarrow> u32 \<Rightarrow> u32 \<Rightarrow> ring_hdr" where
  "fresh_hdr count data_size tot ep =
     \<lparr>magic = VENC_RING_MAGIC, version = VENC_RING_VERSION, slot_count = count,
      slot_data_size = data_size, total_size = tot, epoch = ep, init_complete = 1,
      write_idx = 0, futex_seq = 0, read_idx = 0, consumer_waiting = 0\<rparr>"

definition fresh_slots :: "u32 \<Rightarrow> u32 \<Rightarrow> ring_slot list" where
  "fresh_slots count data_size =
     replicate (unat count)
       \<lparr>slot_length = 0, slot_bytes = replicate (unat (calc_slot_stride data_size) - 2) 0\<rparr>"

definition venc_ring_create ::
  "string \<Rightarrow> u32 \<Rightarrow> u32 \<Rightarrow> create_env \<Rightarrow> (ring_handle \<times> ring_shm) option \<times> os_op list" where
  "venc_ring_create shm_name count data_size e =
     (if shm_name = [] \<or> \<not> is_power_of_2 count \<or> data_size = 0 \<or> data_size > 65535 then (None, [])
      else let total = calc_total_size count data_size in
      if total = 0 then (None, [])
      else let name = ring_shm_name shm_name in
      if \<not> ce_shm_open e then (None, [ShmOpen name])
      else if \<not> ce_ftruncate e then
        (None, [ShmOpen name, Ftruncate total, CloseFd, ShmUnlink name])
      else if \<not> ce_mmap e then
        (None, [ShmOpen name, Ftruncate total, Mmap total, CloseFd, ShmUnlink name])
      else if \<not> ce_calloc e then
        (None, [ShmOpen name, Ftruncate total, Mmap total, CloseFd, Munmap total, ShmUnlink name])
      else (Some (new_handle data_size total True name,
                  \<lparr>shm_hdr = fresh_hdr count data_size total (ring_epoch e),
                   shm_slots = fresh_slots count data_size\<rparr>),
            [ShmOpen name, Ftruncate total, Mmap total, CloseFd]))"

text \<open>
  What attach finds: the header \<open>read\<close> returned (None when the open failed or the read was
  short), the size \<open>fstat\<close> reports, the header in the mapping, whether the allocation worked.
\<close>

record attach_env =
  ae_shm_open :: bool
  ae_read_hdr :: "ring_hdr option"
  ae_st_size :: "u64 option"
  ae_mapped_hdr :: "ring_hdr option"
  ae_calloc :: bool

definition attach_hdr_ok :: "ring_hdr \<Rightarrow> bool" where
  "attach_hdr_ok tmp \<longleftrightarrow>
     magic tmp = VENC_RING_MAGIC \<and> version tmp = VENC_RING_VERSION \<and>
     is_power_of_2 (slot_count tmp) \<and> slot_data_size tmp \<noteq> 0 \<and>
     \<not> slot_data_size tmp > 65535 \<and> init_complete tmp = 1"

definition attach_mapped_ok :: "ring_hdr \<Rightarrow> ring_hdr \<Rightarrow> u32 \<Rightarrow> bool" where
  "attach_mapped_ok tmp h expected \<longleftrightarrow>
     magic h = VENC_RING_MAGIC \<and> version h = VENC_RING_VERSION \<and>
     slot_count h = slot_count tmp \<and> slot_data_size h = slot_data_size tmp \<and>
     total_size h = expected \<and> init_complete h = 1"

definition venc_ring_attach :: "string \<Rightarrow> attach_env \<Rightarrow> ring_handle option \<times> os_op list" where
  "venc_ring_attach shm_name e =
     (if shm_name = [] then (None, [])
      else let name = ring_shm_name shm_name in
      if \<not> ae_shm_open e then (None, [ShmOpen name])
      else case ae_read_hdr e of None \<Rightarrow> (None, [ShmOpen name, CloseFd]) | Some tmp \<Rightarrow>
      if \<not> attach_hdr_ok tmp then (None, [ShmOpen name, CloseFd])
      else let expected = calc_total_size (slot_count tmp) (slot_data_size tmp) in
      if expected = 0 \<or> expected \<noteq> total_size tmp then (None, [ShmOpen name, CloseFd])
      else if ae_st_size e \<noteq> Some (ucast expected) then (None, [ShmOpen name, CloseFd])
      else case ae_mapped_hdr e of
        None \<Rightarrow> (None, [ShmOpen name, Mmap expected, CloseFd]) | Some h \<Rightarrow>
      if \<not> attach_mapped_ok tmp h expected \<or> \<not> ae_calloc e then
        (None, [ShmOpen name, Mmap expected, CloseFd, Munmap expected])
      else (Some (new_handle (slot_data_size h) expected False name),
            [ShmOpen name, Mmap expected, CloseFd]))"

text \<open>The shared header after the owner's destroy, and the calls it makes.\<close>

definition venc_ring_destroy :: "ring_handle \<Rightarrow> ring_hdr \<Rightarrow> ring_hdr \<times> os_op list" where
  "venc_ring_destroy r hdr =
     ((if h_is_owner r then hdr\<lparr>init_complete := 0\<rparr> else hdr),
      [Munmap (h_map_size r)] @
      (if h_is_owner r \<and> h_name r \<noteq> [] then [ShmUnlink (h_name r)] else []))"

subsection \<open>Write and read\<close>

text \<open>
  \<open>idx = (uint32_t)(w & (slot_count - 1))\<close>: the 32-bit mask is zero-extended to 64 bits.
\<close>

definition ring_index :: "ring_hdr \<Rightarrow> u64 \<Rightarrow> u32" where
  "ring_index hdr w = ucast (w AND ucast (slot_count hdr - 1))"

text \<open>\<open>slot->length = total\<close> and the two \<open>memcpy\<close> calls: the tail keeps its old bytes.\<close>

definition fill_slot :: "bytes \<Rightarrow> ring_slot \<Rightarrow> ring_slot" where
  "fill_slot data s =
     \<lparr>slot_length = of_nat (length data), slot_bytes = data @ drop (length data) (slot_bytes s)\<rparr>"

definition publish_write :: "ring_hdr \<Rightarrow> ring_hdr" where
  "publish_write hdr = hdr\<lparr>write_idx := write_idx hdr + 1, futex_seq := futex_seq hdr + 1\<rparr>"

definition venc_ring_write ::
  "bytes \<Rightarrow> bytes \<Rightarrow> ring_handle \<Rightarrow> ring_shm \<Rightarrow> int \<times> ring_handle \<times> ring_shm" where
  "venc_ring_write header payload r m =
     (let total = length header + length payload;
          hdr = shm_hdr m; st = h_stats r in
      if total > unat (h_slot_data_size r) then
        (-1, r\<lparr>h_stats := st\<lparr>st_oversize_drops := st_oversize_drops st + 1\<rparr>\<rparr>, m)
      else if write_idx hdr - read_idx hdr \<ge> ucast (slot_count hdr) then
        (-1, r\<lparr>h_stats := st\<lparr>st_full_drops := st_full_drops st + 1\<rparr>\<rparr>, m)
      else
        let idx = unat (ring_index hdr (write_idx hdr)) in
        (0, r\<lparr>h_stats := st\<lparr>st_writes := st_writes st + 1\<rparr>\<rparr>,
         m\<lparr>shm_hdr := publish_write hdr,
           shm_slots := (shm_slots m)[idx := fill_slot (header @ payload) (shm_slots m ! idx)]\<rparr>))"

text \<open>Read returns the code's result and, on success, the bytes copied to the caller.\<close>

definition venc_ring_read ::
  "u16 \<Rightarrow> ring_handle \<Rightarrow> ring_shm \<Rightarrow> int \<times> bytes \<times> ring_handle \<times> ring_shm" where
  "venc_ring_read buf_size r m =
     (let hdr = shm_hdr m; st = h_stats r in
      if read_idx hdr \<ge> write_idx hdr then (-1, [], r, m)
      else
        let s = shm_slots m ! unat (ring_index hdr (read_idx hdr));
            m' = m\<lparr>shm_hdr := hdr\<lparr>read_idx := read_idx hdr + 1\<rparr>\<rparr> in
        if ucast (slot_length s) > h_slot_data_size r then
          (-1, [], r\<lparr>h_stats := st\<lparr>st_bad_slot_drops := st_bad_slot_drops st + 1\<rparr>\<rparr>, m')
        else
          let len = min (slot_length s) buf_size in
          (0, take (unat len) (slot_bytes s),
           r\<lparr>h_stats := st\<lparr>st_reads := st_reads st + 1\<rparr>\<rparr>, m'))"

subsection \<open>Geometry: the slots are disjoint and inside the mapping\<close>

lemma calc_slot_stride_bounds:
  assumes "unat d \<le> 65535"
  shows "unat d + 2 \<le> unat (calc_slot_stride d)" and "unat (calc_slot_stride d) \<le> unat d + 9"
    and "unat (calc_slot_stride d) mod 8 = 0"
proof -
  have "2 + d + 7 = d + 9" by simp
  moreover have "unat (d + 9) = unat d + 9" using assms by (simp add: unat_word_ariths)
  ultimately have u: "unat (2 + d + 7) = unat d + 9" by (simp only:)
  have "(7 :: u32) = mask 3" by (simp add: mask_eq_exp_minus_1)
  then have "(2 + d + 7) AND NOT 7 = push_bit 3 (drop_bit 3 (2 + d + 7))"
    by (simp only: and_not_mask_word)
  then have "unat (calc_slot_stride d) = unat (push_bit 3 (drop_bit 3 (2 + d + 7)))"
    by (simp only: calc_slot_stride_def)
  also have "\<dots> = take_bit 32 (push_bit 3 (unat (drop_bit 3 (2 + d + 7))))"
    by (subst unsigned_push_bit_eq) (simp del: push_bit_numeral)
  also have "\<dots> = take_bit 32 ((unat d + 9) div 8 * 8)"
    by (simp only: unat_drop_bit u push_bit_eq_mult) simp
  also have "\<dots> = (unat d + 9) div 8 * 8"
    using assms by (intro take_bit_nat_eq_self) simp
  finally have e: "unat (calc_slot_stride d) = (unat d + 9) div 8 * 8" .
  show "unat d + 2 \<le> unat (calc_slot_stride d)" and "unat (calc_slot_stride d) \<le> unat d + 9"
    and "unat (calc_slot_stride d) mod 8 = 0"
    unfolding e by presburger+
qed

lemma calc_total_size_value:
  assumes "unat d \<le> 65535" and "calc_total_size c d \<noteq> 0"
  shows "unat (calc_total_size c d) = 192 + unat c * unat (calc_slot_stride d)"
proof -
  let ?p = "(ucast c :: u64) * ucast (calc_slot_stride d)"
  have c: "unat c < 2 ^ 32" using unsigned_less [of c, where ?'a = nat] by simp
  have st: "unat (calc_slot_stride d) \<le> 65544"
    using calc_slot_stride_bounds(2) [OF assms(1)] assms(1) by arith
  have le: "unat c * unat (calc_slot_stride d) \<le> 2 ^ 32 * 65544"
    using c st by (intro mult_mono) auto
  then have up: "unat ?p = unat c * unat (calc_slot_stride d)"
    by (simp add: unat_mult_lem [THEN iffD1] unat_ucast_widen)
  have ut: "unat (of_nat sizeof_ring_hdr + ?p) = 192 + unat c * unat (calc_slot_stride d)"
    using le by (simp add: unat_word_ariths(1) up sizeof_ring_hdr_def)
  show ?thesis
  proof (cases "of_nat sizeof_ring_hdr + ?p > 0xFFFFFFFF")
    case True
    with assms(2) show ?thesis by (simp add: calc_total_size_def Let_def)
  next
    case False
    then have "unat (of_nat sizeof_ring_hdr + ?p) \<le> 0xFFFFFFFF"
      by (simp add: word_less_nat_alt not_less)
    with False ut show ?thesis
      by (simp add: calc_total_size_def Let_def unsigned_ucast_eq take_bit_eq_mod)
  qed
qed

lemma slot_at_value:
  assumes "unat i < unat c" and "unat d \<le> 65535" and "calc_total_size c d \<noteq> 0"
    and "h_slot_stride r = calc_slot_stride d"
  shows "venc_ring_slot_at r i = 192 + unat i * unat (calc_slot_stride d)"
proof -
  have "unat i * unat (calc_slot_stride d) \<le> 2 ^ 32 * 65544"
    using calc_slot_stride_bounds(2) [OF assms(2)] assms(2) unsigned_less [of i, where ?'a = nat]
    by (intro mult_mono) auto
  then have "unat ((ucast i :: u64) * ucast (calc_slot_stride d)) = unat i * unat (calc_slot_stride d)"
    by (simp add: unat_mult_lem [THEN iffD1] unat_ucast_widen)
  then show ?thesis by (simp add: venc_ring_slot_at_def assms(4) sizeof_ring_hdr_def)
qed

subsection \<open>Invariant and abstraction\<close>

definition slot_data :: "ring_slot \<Rightarrow> bytes" where
  "slot_data s = take (unat (slot_length s)) (slot_bytes s)"

definition ring_slot_of :: "ring_shm \<Rightarrow> nat \<Rightarrow> ring_slot" where
  "ring_slot_of m i = shm_slots m ! (i mod length (shm_slots m))"

text \<open>The packets in the ring, oldest first.\<close>

definition ring_contents :: "ring_handle \<times> ring_shm \<Rightarrow> bytes list" where
  "ring_contents s =
     map (slot_data \<circ> ring_slot_of (snd s))
       [unat (read_idx (shm_hdr (snd s)))..<unat (write_idx (shm_hdr (snd s)))]"

definition ring_shape :: "ring_handle \<Rightarrow> ring_shm \<Rightarrow> bool" where
  "ring_shape r m \<longleftrightarrow>
     is_power_of_2 (slot_count (shm_hdr m)) \<and>
     length (shm_slots m) = unat (slot_count (shm_hdr m)) \<and>
     h_slot_data_size r \<le> 65535 \<and>
     (\<forall>s \<in> set (shm_slots m). unat (h_slot_data_size r) \<le> length (slot_bytes s))"

definition ring_wf :: "nat \<Rightarrow> ring_handle \<times> ring_shm \<Rightarrow> bool" where
  "ring_wf n s \<longleftrightarrow> ring_shape (fst s) (snd s) \<and>
     (let hdr = shm_hdr (snd s); R = unat (read_idx hdr); W = unat (write_idx hdr) in
       R \<le> W \<and> W - R \<le> length (shm_slots (snd s)) \<and> W + n < 2 ^ 64 \<and>
       (\<forall>i \<in> {R..<W}. unat (slot_length (ring_slot_of (snd s) i)) \<le> unat (h_slot_data_size (fst s))))"

lemma ring_index_mod:
  assumes "is_power_of_2 (slot_count h)"
  shows "unat (ring_index h w) = unat w mod unat (slot_count h)"
proof -
  from assms have "slot_count h \<noteq> 0" and "slot_count h AND (slot_count h - 1) = 0"
    by (auto simp: is_power_of_2_def)
  then have "\<exists>k < LENGTH(32). unat (slot_count h) = 2 ^ k" by (rule word_power_of_2_test)
  then obtain k where k: "k < 32" "unat (slot_count h) = 2 ^ k" by auto
  then have "slot_count h \<noteq> 0" by auto
  then have "unat (slot_count h - 1) = 2 ^ k - 1" using k(2) by (simp add: unat_minus_one)
  then have "unat (w AND ucast (slot_count h - 1)) = unat w AND mask k"
    by (simp add: unsigned_and_eq unat_ucast_widen mask_eq_exp_minus_1)
  also have "\<dots> = unat w mod 2 ^ k" by (simp add: take_bit_eq_mask [symmetric] take_bit_eq_mod)
  finally have e: "unat (w AND ucast (slot_count h - 1)) = unat w mod 2 ^ k" .
  have "(2::nat) ^ k \<le> 2 ^ 32" using k(1) by (intro power_increasing) simp_all
  moreover have "unat w mod 2 ^ k < 2 ^ k" by simp
  ultimately have "unat w mod 2 ^ k < 2 ^ 32" by linarith
  then show ?thesis
    by (simp add: ring_index_def unsigned_ucast_eq take_bit_eq_mod e k(2))
qed

lemma ring_index_slot:
  assumes "ring_shape r m"
  shows "shm_slots m ! unat (ring_index (shm_hdr m) w) = ring_slot_of m (unat w)"
    and "unat (ring_index (shm_hdr m) w) = unat w mod length (shm_slots m)"
    and "unat w mod length (shm_slots m) < length (shm_slots m)"
proof -
  from assms have "length (shm_slots m) > 0"
    by (auto simp: ring_shape_def is_power_of_2_def unat_gt_0 word_neq_0_conv)
  with assms show "shm_slots m ! unat (ring_index (shm_hdr m) w) = ring_slot_of m (unat w)"
    and "unat (ring_index (shm_hdr m) w) = unat w mod length (shm_slots m)"
    and "unat w mod length (shm_slots m) < length (shm_slots m)"
    by (simp_all add: ring_shape_def ring_index_mod ring_slot_of_def)
qed

subsection \<open>Write and read against the list of packets\<close>

lemma ring_slot_of_update_same:
  "i mod length (shm_slots m) < length (shm_slots m) \<Longrightarrow>
   ring_slot_of (m\<lparr>shm_hdr := h, shm_slots := (shm_slots m)[i mod length (shm_slots m) := x]\<rparr>) i = x"
  by (simp add: ring_slot_of_def)

lemma ring_slot_of_update_other:
  "i mod length (shm_slots m) \<noteq> j mod length (shm_slots m) \<Longrightarrow>
   ring_slot_of (m\<lparr>shm_hdr := h, shm_slots := (shm_slots m)[i mod length (shm_slots m) := x]\<rparr>) j =
   ring_slot_of m j"
  by (simp add: ring_slot_of_def)

lemma ring_slot_of_hdr [simp]: "ring_slot_of (m\<lparr>shm_hdr := h\<rparr>) i = ring_slot_of m i"
  by (simp add: ring_slot_of_def)

lemma slot_data_fill:
  assumes "length d \<le> 65535"
  shows "slot_data (fill_slot d s) = d" and "unat (slot_length (fill_slot d s)) = length d"
  using assms by (simp_all add: slot_data_def fill_slot_def unat_of_nat)

text \<open>The test for room, read as numbers.\<close>

lemma ring_room:
  assumes "ring_wf n (r, m)"
  shows "write_idx (shm_hdr m) - read_idx (shm_hdr m) \<ge> ucast (slot_count (shm_hdr m)) \<longleftrightarrow>
    length (ring_contents (r, m)) = length (shm_slots m)"
proof -
  let ?h = "shm_hdr m"
  from assms have le: "unat (read_idx ?h) \<le> unat (write_idx ?h)"
    and d: "unat (write_idx ?h) - unat (read_idx ?h) \<le> length (shm_slots m)"
    and c: "length (shm_slots m) = unat (slot_count ?h)"
    by (auto simp: ring_wf_def ring_shape_def Let_def)
  have "unat (write_idx ?h - read_idx ?h) = unat (write_idx ?h) - unat (read_idx ?h)"
    using le by (intro unat_diff_le) (simp add: word_le_nat_alt)
  moreover have "unat (ucast (slot_count ?h) :: u64) = unat (slot_count ?h)"
    by (rule unat_ucast_widen) simp
  ultimately show ?thesis using d c by (auto simp: word_le_nat_alt ring_contents_def)
qed

text \<open>What write does in each of its three branches.\<close>

lemma venc_ring_write_oversize:
  "length h + length p > unat (h_slot_data_size r) \<Longrightarrow>
   fst (venc_ring_write h p r m) = -1 \<and> snd (snd (venc_ring_write h p r m)) = m"
  by (simp add: venc_ring_write_def Let_def)

lemma venc_ring_write_full:
  "ring_wf n (r, m) \<Longrightarrow> length (ring_contents (r, m)) = length (shm_slots m) \<Longrightarrow>
   fst (venc_ring_write h p r m) = -1 \<and> snd (snd (venc_ring_write h p r m)) = m"
  using ring_room [of n r m] by (simp add: venc_ring_write_def Let_def)

lemma venc_ring_write_ok:
  assumes wf: "ring_wf (Suc n) (r, m)" and fit: "length h + length p \<le> unat (h_slot_data_size r)"
    and room: "length (ring_contents (r, m)) \<noteq> length (shm_slots m)"
    and w: "venc_ring_write h p r m = (rc, s')"
  shows "rc = 0" and "ring_contents s' = ring_contents (r, m) @ [h @ p]" and "ring_wf n s'"
proof -
  let ?h = "shm_hdr m" and ?N = "length (shm_slots m)"
  let ?W = "unat (write_idx ?h)" and ?R = "unat (read_idx ?h)"
  let ?x = "fill_slot (h @ p) (ring_slot_of m ?W)"
  let ?m = "m\<lparr>shm_hdr := publish_write ?h, shm_slots := (shm_slots m)[?W mod ?N := ?x]\<rparr>"
  from wf have shape: "ring_shape r m" and RW: "?R \<le> ?W" "?W - ?R \<le> ?N" "?W + Suc n < 2 ^ 64"
    and lens: "\<forall>i \<in> {?R..<?W}. unat (slot_length (ring_slot_of m i)) \<le> unat (h_slot_data_size r)"
    by (simp_all add: ring_wf_def Let_def)
  note ix = ring_index_slot [OF shape, of "write_idx ?h"]
  have small: "unat (h_slot_data_size r) \<le> 65535"
    using shape by (simp add: ring_shape_def word_le_nat_alt)
  have lt: "?W - ?R < ?N" using room RW(2) by (auto simp: ring_contents_def)
  from w room ring_room [OF wf] fit ix have rc: "rc = 0" and s': "snd s' = ?m"
    and hd': "h_slot_data_size (fst s') = h_slot_data_size r"
    by (auto simp: venc_ring_write_def Let_def not_le not_less)
  show "rc = 0" by (rule rc)
  have W': "unat (write_idx ?h + 1) = Suc ?W" using RW(3) by (intro unat_Suc) simp
  have old: "ring_slot_of ?m i = ring_slot_of m i" if "i \<in> {?R..<?W}" for i
  proof -
    have "i mod ?N \<noteq> ?W mod ?N" using that lt by (intro mod_window_neq) auto
    then show ?thesis by (intro ring_slot_of_update_other) simp
  qed
  have new: "ring_slot_of ?m ?W = ?x" using ix(3) by (intro ring_slot_of_update_same)
  have xd: "slot_data ?x = h @ p" "unat (slot_length ?x) = length h + length p"
    using slot_data_fill [of "h @ p"] fit small by simp_all
  have hdr: "unat (read_idx (shm_hdr ?m)) = ?R" "unat (write_idx (shm_hdr ?m)) = Suc ?W"
    using W' by (simp_all add: publish_write_def)
  have "map (slot_data \<circ> ring_slot_of ?m) [?R..<?W] = map (slot_data \<circ> ring_slot_of m) [?R..<?W]"
    using old by simp
  then show "ring_contents s' = ring_contents (r, m) @ [h @ p]"
    using RW(1) new xd by (simp only: ring_contents_def s' hdr snd_conv) simp
  have bytes: "\<forall>s \<in> set (shm_slots ?m). unat (h_slot_data_size r) \<le> length (slot_bytes s)"
  proof -
    have "ring_slot_of m ?W \<in> set (shm_slots m)"
      using ix(3) by (simp add: ring_slot_of_def)
    then have "unat (h_slot_data_size r) \<le> length (slot_bytes (ring_slot_of m ?W))"
      using shape by (simp add: ring_shape_def)
    then have "unat (h_slot_data_size r) \<le> length (slot_bytes ?x)"
      using fit by (simp add: fill_slot_def)
    then show ?thesis
      using shape by (auto simp: ring_shape_def dest!: set_update_subset_insert [THEN subsetD])
  qed
  have shape': "ring_shape (fst s') ?m"
    using shape bytes by (simp add: ring_shape_def publish_write_def hd')
  have len': "\<forall>i \<in> {?R..<Suc ?W}.
      unat (slot_length (ring_slot_of ?m i)) \<le> unat (h_slot_data_size (fst s'))"
  proof
    fix i
    assume "i \<in> {?R..<Suc ?W}"
    then consider "i \<in> {?R..<?W}" | "i = ?W" by fastforce
    then show "unat (slot_length (ring_slot_of ?m i)) \<le> unat (h_slot_data_size (fst s'))"
      using old lens new xd fit by cases (simp_all add: hd')
  qed
  have "length (shm_slots ?m) = ?N" by simp
  with shape' len' lt RW show "ring_wf n s'"
    by (simp only: ring_wf_def s' hdr Let_def) simp
qed

lemma venc_ring_read_empty:
  "ring_wf n (r, m) \<Longrightarrow> ring_contents (r, m) = [] \<Longrightarrow> venc_ring_read b r m = (-1, [], r, m)"
  by (auto simp: ring_contents_def ring_wf_def venc_ring_read_def Let_def word_le_nat_alt)

lemma venc_ring_read_front:
  assumes wf: "ring_wf n (r, m)" and front: "ring_contents (r, m) = x # xs"
    and rd: "venc_ring_read b r m = (rc, out, s')"
  shows "rc = 0" and "out = take (unat b) x" and "ring_contents s' = xs" and "ring_wf n s'"
proof -
  let ?h = "shm_hdr m" and ?N = "length (shm_slots m)"
  let ?W = "unat (write_idx ?h)" and ?R = "unat (read_idx ?h)"
  let ?m = "m\<lparr>shm_hdr := ?h\<lparr>read_idx := read_idx ?h + 1\<rparr>\<rparr>"
  from wf have shape: "ring_shape r m" and RW: "?R \<le> ?W" "?W - ?R \<le> ?N" "?W + n < 2 ^ 64"
    and lens: "\<forall>i \<in> {?R..<?W}. unat (slot_length (ring_slot_of m i)) \<le> unat (h_slot_data_size r)"
    by (simp_all add: ring_wf_def Let_def)
  have lt: "?R < ?W"
  proof (rule ccontr)
    assume "\<not> ?R < ?W"
    with front show False by (simp add: ring_contents_def)
  qed
  then have x: "x = slot_data (ring_slot_of m ?R)"
    and xs: "xs = map (slot_data \<circ> ring_slot_of m) [Suc ?R..<?W]"
    using front by (auto simp: ring_contents_def upt_conv_Cons)
  note ix = ring_index_slot [OF shape, of "read_idx ?h"]
  let ?s = "ring_slot_of m ?R"
  have slen: "unat (slot_length ?s) \<le> unat (h_slot_data_size r)" using lens lt by simp
  have "\<not> (ucast (slot_length ?s) > h_slot_data_size r)"
    using slen by (simp add: word_less_nat_alt unat_ucast_widen not_less)
  moreover have "\<not> (read_idx ?h \<ge> write_idx ?h)" using lt by (simp add: word_le_nat_alt)
  ultimately have res: "rc = 0" "out = take (unat (min (slot_length ?s) b)) (slot_bytes ?s)"
    "snd s' = ?m" "h_slot_data_size (fst s') = h_slot_data_size r"
    using rd ix(1) by (auto simp: venc_ring_read_def Let_def)
  show "rc = 0" by (rule res(1))
  show "out = take (unat b) x"
    unfolding res(2) x slot_data_def by (simp add: min_def word_le_nat_alt)
  have R': "unat (read_idx ?h + 1) = Suc ?R" using lt RW(3) by (intro unat_Suc) simp
  then show "ring_contents s' = xs"
    unfolding ring_contents_def xs res(3) by (simp add: comp_def)
  have "ring_shape (fst s') ?m" using shape by (simp add: ring_shape_def res(4))
  then show "ring_wf n s'"
    unfolding ring_wf_def res(3) using lt RW lens R' by (simp add: Let_def res(4))
qed

subsection \<open>The ring as a queue\<close>

text \<open>
  The consumer's pop with a buffer as long as any packet, and the producer's push of one
  datagram: the two calls of the code on the state the two handles share.
\<close>

definition ring_pop :: "ring_handle \<times> ring_shm \<Rightarrow> bytes option \<times> ring_handle \<times> ring_shm" where
  "ring_pop s =
     (case venc_ring_read 65535 (fst s) (snd s) of
        (rc, out, s') \<Rightarrow> (if rc = 0 then Some out else None, s'))"

definition ring_push :: "bytes \<times> bytes \<Rightarrow> ring_handle \<times> ring_shm \<Rightarrow> ring_handle \<times> ring_shm" where
  "ring_push hp s = snd (venc_ring_write (fst hp) (snd hp) (fst s) (snd s))"

definition ring_accepts :: "bytes \<Rightarrow> ring_handle \<times> ring_shm \<Rightarrow> bool" where
  "ring_accepts d s \<longleftrightarrow> length d \<le> unat (h_slot_data_size (fst s)) \<and>
     length (ring_contents s) \<noteq> length (shm_slots (snd s))"

lemma ring_contents_bound:
  assumes "ring_wf n s" and "x \<in> set (ring_contents s)"
  shows "length x \<le> 65535"
proof -
  from assms obtain i where "x = slot_data (ring_slot_of (snd s) i)"
    and "unat (slot_length (ring_slot_of (snd s) i)) \<le> unat (h_slot_data_size (fst s))"
    by (auto simp: ring_wf_def Let_def ring_contents_def)
  moreover have "unat (h_slot_data_size (fst s)) \<le> 65535"
    using assms(1) by (simp add: ring_wf_def ring_shape_def word_le_nat_alt)
  ultimately show ?thesis by (simp add: slot_data_def)
qed

lemma ring_wf_drop: "ring_wf (Suc n) s \<Longrightarrow> ring_wf n s"
  by (auto simp: ring_wf_def Let_def)

lemma ring_push_wf:
  assumes "ring_wf (Suc n) s"
  shows "ring_wf n (ring_push (h, p) s)"
    and "ring_contents (ring_push (h, p) s) =
      (if ring_accepts (h @ p) s then ring_contents s @ [h @ p] else ring_contents s)"
proof -
  obtain r m where s: "s = (r, m)" by (cases s)
  obtain rc r' m' where w: "venc_ring_write h p r m = (rc, r', m')" by (cases "venc_ring_write h p r m")
  consider (ok) "ring_accepts (h @ p) s"
    | (no) "\<not> ring_accepts (h @ p) s" by blast
  then have "ring_wf n (r', m') \<and> ring_contents (r', m') =
      (if ring_accepts (h @ p) s then ring_contents s @ [h @ p] else ring_contents s)"
  proof cases
    case ok
    with venc_ring_write_ok [OF assms [unfolded s] _ _ w] show ?thesis
      by (simp add: ring_accepts_def s)
  next
    case no
    then have "m' = m" and sd: "h_slot_data_size r' = h_slot_data_size r"
      using venc_ring_write_oversize [of r h p m] venc_ring_write_full [OF assms [unfolded s], of h p] w
      by (auto simp: ring_accepts_def s venc_ring_write_def Let_def split: if_splits)
    with no ring_wf_drop [OF assms] show ?thesis
      by (auto simp: s ring_wf_def ring_shape_def ring_contents_def Let_def)
  qed
  then show "ring_wf n (ring_push (h, p) s)"
    and "ring_contents (ring_push (h, p) s) =
      (if ring_accepts (h @ p) s then ring_contents s @ [h @ p] else ring_contents s)"
    by (simp_all add: ring_push_def s w)
qed

interpretation vr: rejecting_queue ring_contents ring_wf ring_pop
  "\<lambda>d. ring_push ([], d)" ring_accepts
proof unfold_locales
  fix n s
  assume wf: "ring_wf n s"
  {
    assume "ring_contents s = []"
    with wf show "ring_pop s = (None, s)"
      by (cases s) (simp add: ring_pop_def venc_ring_read_empty)
  }
  {
    fix x xs
    assume c: "ring_contents s = x # xs"
    obtain rc out s' where rd: "venc_ring_read 65535 (fst s) (snd s) = (rc, out, s')"
      by (cases "venc_ring_read 65535 (fst s) (snd s)")
    note front = venc_ring_read_front [OF _ _ rd, of n x xs]
    have "length x \<le> 65535" using ring_contents_bound [OF wf, of x] c by simp
    moreover have "unat (65535 :: u16) = 65535" by simp
    ultimately have "take (unat (65535 :: u16)) x = x" by (metis take_all)
    with front wf c have "ring_pop s = (Some x, s') \<and> ring_contents s' = xs \<and> ring_wf n s'"
      by (simp add: ring_pop_def rd)
    then show "\<exists>s'. ring_pop s = (Some x, s') \<and> ring_contents s' = xs \<and> ring_wf n s'" by blast
  }
next
  fix n s x
  assume wf: "ring_wf (Suc n) s"
  show "ring_wf n (ring_push ([], x) s)" using ring_push_wf(1) [OF wf] .
  show "ring_accepts x s \<Longrightarrow> ring_contents (ring_push ([], x) s) = ring_contents s @ [x]"
    and "\<not> ring_accepts x s \<Longrightarrow> ring_contents (ring_push ([], x) s) = ring_contents s"
    using ring_push_wf(2) [OF wf, of "[]" x] by simp_all
qed

subsection \<open>Properties\<close>

lemma venc_ring_create_Some:
  assumes "venc_ring_create name c d e = (Some (r, m), ops)"
  shows "is_power_of_2 c" "d \<noteq> 0" "unat d \<le> 65535" "calc_total_size c d \<noteq> 0"
    "r = new_handle d (calc_total_size c d) True (ring_shm_name name)"
    "m = \<lparr>shm_hdr = fresh_hdr c d (calc_total_size c d) (ring_epoch e),
          shm_slots = fresh_slots c d\<rparr>"
proof -
  show "is_power_of_2 c" "d \<noteq> 0" "calc_total_size c d \<noteq> 0"
    "r = new_handle d (calc_total_size c d) True (ring_shm_name name)"
    "m = \<lparr>shm_hdr = fresh_hdr c d (calc_total_size c d) (ring_epoch e),
          shm_slots = fresh_slots c d\<rparr>"
    using assms by (auto simp: venc_ring_create_def Let_def split: if_splits)
  have "\<not> d > 65535" using assms by (auto simp: venc_ring_create_def split: if_splits)
  then show "unat d \<le> 65535" by (simp add: word_less_nat_alt not_less)
qed

lemma ring_create_wf:
  assumes "venc_ring_create name c d e = (Some (r, m), ops)"
  shows "ring_wf (2 ^ 64 - 1) (r, m)" and "ring_contents (r, m) = []"
proof -
  note created = venc_ring_create_Some [OF assms]
  have "unat d \<le> unat (calc_slot_stride d) - 2"
    using calc_slot_stride_bounds(1) [OF created(3)] by simp
  with created(1,3) show "ring_wf (2 ^ 64 - 1) (r, m)" and "ring_contents (r, m) = []"
    by (auto simp: created(5,6) ring_wf_def ring_shape_def new_handle_def fresh_hdr_def
        fresh_slots_def ring_contents_def Let_def word_le_nat_alt)
qed

text \<open>A ring that \<open>venc_ring_create\<close> returns is empty and well formed, and the byte
  ranges its slots are computed to have (length field and payload) start behind the header,
  are 8-byte aligned, do not overlap, and end inside the mapping.\<close>

lemma ring_create_geometry:
  assumes "venc_ring_create name c d e = (Some (r, m), ops)" and "unat i < unat c"
  shows "ring_wf (2 ^ 64 - 1) (r, m) \<and> ring_contents (r, m) = [] \<and>
    192 \<le> venc_ring_slot_at r i \<and> venc_ring_slot_at r i mod 8 = 0 \<and>
    venc_ring_slot_at r i + unat (h_slot_stride r) \<le> unat (h_map_size r) \<and>
    2 + unat d \<le> unat (h_slot_stride r) \<and>
    (\<forall>j. unat j < unat i \<longrightarrow> venc_ring_slot_at r j + unat (h_slot_stride r) \<le> venc_ring_slot_at r i)"
proof -
  note created = venc_ring_create_Some [OF assms(1)]
  let ?st = "unat (calc_slot_stride d)"
  have st: "h_slot_stride r = calc_slot_stride d" by (simp add: created(5) new_handle_def)
  have at: "venc_ring_slot_at r j = 192 + unat j * ?st" if "unat j < unat c" for j
    by (rule slot_at_value [OF that created(3,4) st])
  have map: "unat (h_map_size r) = 192 + unat c * ?st"
    using calc_total_size_value [OF created(3,4)] by (simp add: created(5) new_handle_def)
  have "unat j * ?st + ?st \<le> k * ?st" if "unat j < k" for j k
    using that mult_le_mono1 [of "Suc (unat j)" k ?st] by simp
  then have step: "192 + unat j * ?st + ?st \<le> 192 + k * ?st" if "unat j < k" for j k
    using that by (metis add.assoc add_left_mono)
  have al: "(192 + unat i * ?st) mod 8 = 0"
    using calc_slot_stride_bounds(3) [OF created(3)] by (simp add: mod_eq_0_iff_dvd)
  have "\<forall>j. unat j < unat i \<longrightarrow> venc_ring_slot_at r j + ?st \<le> venc_ring_slot_at r i"
  proof (intro allI impI)
    fix j :: u32
    assume "unat j < unat i"
    with at [of j] at [OF assms(2)] step assms(2)
    show "venc_ring_slot_at r j + ?st \<le> venc_ring_slot_at r i" by simp
  qed
  with ring_create_wf [OF assms(1)] at [OF assms(2)] step [OF assms(2)] al
    calc_slot_stride_bounds(1) [OF created(3)] show ?thesis
    by (simp add: st map)
qed

lemma ring_create_geometry_witness:
  "\<exists>r m. fst (venc_ring_create ''v'' 2 4
      \<lparr>ce_shm_open = True, ce_ftruncate = True, ce_mmap = True, ce_calloc = True,
       ce_tv_sec = 1, ce_tv_nsec = 0\<rparr>) = Some (r, m) \<and>
     venc_ring_slot_at r 1 + unat (h_slot_stride r) \<le> unat (h_map_size r)"
proof -
  let ?e = "\<lparr>ce_shm_open = True, ce_ftruncate = True, ce_mmap = True, ce_calloc = True,
       ce_tv_sec = 1, ce_tv_nsec = 0\<rparr>"
  obtain r m ops where c: "venc_ring_create ''v'' 2 4 ?e = (Some (r, m), ops)"
    by (simp add: venc_ring_create_def is_power_of_2_def Let_def calc_total_size_def
        calc_slot_stride_def sizeof_ring_hdr_def)
  with ring_create_geometry [OF c, of 1] show ?thesis by auto
qed

text \<open>Creator and attacher agree: a consumer that attaches to the header and the
  object size a successful create left gets a handle with the same stride, slot size and mapping
  size, without ownership; once the owner has destroyed the ring, attaching is refused.\<close>

lemma ring_attach_agrees:
  assumes "venc_ring_create name c d e = (Some (r, m), ops)" and "name' \<noteq> []"
  shows "fst (venc_ring_attach name'
      \<lparr>ae_shm_open = True, ae_read_hdr = Some (shm_hdr m), ae_st_size = Some (ucast (h_map_size r)),
       ae_mapped_hdr = Some (shm_hdr m), ae_calloc = True\<rparr>) =
      Some (r\<lparr>h_is_owner := False, h_name := ring_shm_name name'\<rparr>) \<and>
    fst (venc_ring_attach name' (env\<lparr>ae_read_hdr := Some (fst (venc_ring_destroy r (shm_hdr m)))\<rparr>)) = None"
proof -
  note created = venc_ring_create_Some [OF assms(1)]
  have "\<not> d > 65535" using created(3) by (simp add: word_less_nat_alt not_less)
  with created assms(2) show ?thesis
    by (simp add: venc_ring_attach_def attach_hdr_ok_def attach_mapped_ok_def new_handle_def
        fresh_hdr_def venc_ring_destroy_def Let_def)
qed

lemma ring_attach_agrees_witness:
  "\<exists>(r :: ring_handle) (m :: ring_shm). fst (venc_ring_attach ''c''
      \<lparr>ae_shm_open = True, ae_read_hdr = Some (shm_hdr m), ae_st_size = Some (ucast (h_map_size r)),
       ae_mapped_hdr = Some (shm_hdr m), ae_calloc = True\<rparr>) =
      Some (r\<lparr>h_is_owner := False, h_name := ''/c''\<rparr>)"
proof -
  let ?e = "\<lparr>ce_shm_open = True, ce_ftruncate = True, ce_mmap = True, ce_calloc = True,
       ce_tv_sec = 1, ce_tv_nsec = 0\<rparr>"
  obtain r m ops where c: "venc_ring_create ''v'' 2 4 ?e = (Some (r, m), ops)"
    by (simp add: venc_ring_create_def is_power_of_2_def Let_def calc_total_size_def
        calc_slot_stride_def sizeof_ring_hdr_def)
  let ?env = "\<lparr>ae_shm_open = True, ae_read_hdr = None, ae_st_size = None, ae_mapped_hdr = None,
    ae_calloc = True\<rparr>"
  from ring_attach_agrees [OF c, of "''c''" ?env] show ?thesis
    by (intro exI [of _ r] exI [of _ m]) (simp add: ring_shm_name_def)
qed

text \<open>A create that fails leaves nothing behind: when the object was opened, its
  descriptor is closed, a mapping that was made is unmapped, and the name is unlinked last.\<close>

lemma ring_create_failure_cleans_up:
  assumes "venc_ring_create name c d e = (None, ops)" and "ops \<noteq> []" and "ce_shm_open e"
  shows "last ops = ShmUnlink (ring_shm_name name) \<and> CloseFd \<in> set ops \<and>
    (ce_mmap e \<and> ce_ftruncate e \<longrightarrow> Munmap (calc_total_size c d) \<in> set ops)"
  using assms by (auto simp: venc_ring_create_def Let_def split: if_splits)

lemma ring_create_failure_cleans_up_witness:
  "last (snd (venc_ring_create ''v'' 2 4 \<lparr>ce_shm_open = True, ce_ftruncate = False, ce_mmap = True,
      ce_calloc = True, ce_tv_sec = 1, ce_tv_nsec = 0\<rparr>)) = ShmUnlink ''/v''"
proof -
  let ?e = "\<lparr>ce_shm_open = True, ce_ftruncate = False, ce_mmap = True,
      ce_calloc = True, ce_tv_sec = 1, ce_tv_nsec = 0\<rparr>"
  have "venc_ring_create ''v'' 2 4 ?e = (None, [ShmOpen ''/v'', Ftruncate 208, CloseFd, ShmUnlink ''/v''])"
    by (simp add: venc_ring_create_def is_power_of_2_def Let_def calc_total_size_def
        calc_slot_stride_def sizeof_ring_hdr_def ring_shm_name_def)
  with ring_create_failure_cleans_up [OF this] show ?thesis by (simp add: ring_shm_name_def)
qed

text \<open>Property C31. Write and read against the abstract queue: a write succeeds exactly when the
  datagram fits a slot and a slot is free, and then appends header and payload as one packet; else
  it returns -1 and leaves the packets alone. A read of a non-empty ring returns the oldest packet,
  cut to the caller's buffer, and removes it.\<close>

theorem ring_write_read_refine:
  assumes wf: "ring_wf (Suc n) (r, m)"
    and w: "venc_ring_write h p r m = (rc, r', m')"
    and rd: "venc_ring_read b r' m' = (rc2, out, s2)"
  shows "(rc = 0 \<longleftrightarrow> ring_accepts (h @ p) (r, m)) \<and>
    ring_contents (r', m') = ring_contents (r, m) @ (if rc = 0 then [h @ p] else []) \<and>
    (rc2 = 0 \<longleftrightarrow> ring_contents (r', m') \<noteq> []) \<and>
    (if rc2 = 0 then out = take (unat b) (hd (ring_contents (r', m')))
                     \<and> ring_contents s2 = tl (ring_contents (r', m'))
     else s2 = (r', m'))"
proof -
  have rc: "rc = 0 \<longleftrightarrow> ring_accepts (h @ p) (r, m)"
    using w ring_room [OF wf] by (auto simp: venc_ring_write_def Let_def ring_accepts_def not_less split: if_splits)
  have s': "(r', m') = ring_push (h, p) (r, m)" by (simp add: ring_push_def w)
  have wf': "ring_wf n (r', m')" using ring_push_wf(1) [OF wf, of h p] s' by simp
  have c': "ring_contents (r', m') = ring_contents (r, m) @ (if rc = 0 then [h @ p] else [])"
    using ring_push_wf(2) [OF wf, of h p] s' rc by simp
  have "(rc2 = 0 \<longleftrightarrow> ring_contents (r', m') \<noteq> []) \<and>
    (if rc2 = 0 then out = take (unat b) (hd (ring_contents (r', m')))
                     \<and> ring_contents s2 = tl (ring_contents (r', m'))
     else s2 = (r', m'))"
  proof (cases "ring_contents (r', m')")
    case Nil
    with venc_ring_read_empty [OF wf' Nil, of b] rd show ?thesis by simp
  next
    case (Cons x xs)
    with venc_ring_read_front [OF wf' Cons rd] show ?thesis by simp
  qed
  with rc c' show ?thesis by blast
qed

theorem ring_write_read_refine_witness:
  "\<exists>r m. fst (venc_ring_write [1] [2, 3] r m) = 0 \<and> ring_contents (r, m) = []"
proof -
  let ?e = "\<lparr>ce_shm_open = True, ce_ftruncate = True, ce_mmap = True, ce_calloc = True,
       ce_tv_sec = 1, ce_tv_nsec = 0\<rparr>"
  obtain r m ops where c: "venc_ring_create ''v'' 2 4 ?e = (Some (r, m), ops)"
    by (simp add: venc_ring_create_def is_power_of_2_def Let_def calc_total_size_def
        calc_slot_stride_def sizeof_ring_hdr_def)
  have wf: "ring_wf (Suc (2 ^ 64 - 2)) (r, m)" using ring_create_wf(1) [OF c] by simp
  have "ring_accepts ([1] @ [2, 3]) (r, m)"
    using venc_ring_create_Some(5,6) [OF c] ring_create_wf(2) [OF c]
    by (simp add: ring_accepts_def new_handle_def fresh_slots_def)
  moreover obtain rc r' m' where w: "venc_ring_write [1] [2, 3] r m = (rc, r', m')"
    by (cases "venc_ring_write [1] [2, 3] r m")
  moreover obtain rc2 out s2 where rd: "venc_ring_read 9 r' m' = (rc2, out, s2)"
    by (cases "venc_ring_read 9 r' m'")
  ultimately have "rc = 0" using ring_write_read_refine [OF wf w rd] by simp
  with w ring_create_wf(2) [OF c] show ?thesis by (intro exI [of _ r] exI [of _ m]) simp
qed

end
