(* ===== verification/RingProtocol.thy ===== *)
theory RingProtocol imports VencRing begin

text \<open>
  Producer and consumer of the shared-memory ring as two processes that interleave: every
  atomic load or store of \<open>venc_ring_write\<close>, \<open>venc_ring_read\<close> and \<open>venc_ring_read_wait\<close> is one
  step of \<open>ring_step\<close>, and the copy into a slot is two steps with arbitrary contents between
  them, so that a read of a slot being written would show. Acquire and release order the steps
  of each process as written; interleaving them models the rest.

  \<open>sent\<close> and \<open>received\<close> are ghosts: the packets published and the packets copied out.
\<close>

subsection \<open>Program counters\<close>

text \<open>Where the producer is in \<open>venc_ring_write\<close>, with its local variables.\<close>

datatype producer_pc =
    PIdle
  | PGotW bytes u64           \<comment> \<open>\<open>w\<close> loaded\<close>
  | PGotR bytes u64 u64       \<comment> \<open>\<open>rd\<close> loaded\<close>
  | PCopy bytes u64           \<comment> \<open>room found, slot being written\<close>
  | PPublish bytes u64        \<comment> \<open>slot written\<close>
  | PSeq                      \<comment> \<open>index published\<close>
  | PCheck                    \<comment> \<open>sequence bumped\<close>

text \<open>
  Where the consumer is in \<open>venc_ring_read_wait\<close>. The flag tells the first read of an iteration
  from the re-check after the wait.
\<close>

datatype consumer_pc =
    CIdle
  | CGotRd bool u64           \<comment> \<open>\<open>rd\<close> loaded\<close>
  | CRead u64                 \<comment> \<open>not empty\<close>
  | CPub u64                  \<comment> \<open>slot copied out (or skipped)\<close>
  | CEmpty                    \<comment> \<open>first read failed\<close>
  | CGotSeq u32               \<comment> \<open>\<open>seq\<close> loaded\<close>
  | CWait u32                 \<comment> \<open>\<open>consumer_waiting\<close> set\<close>
  | CSleep                    \<comment> \<open>inside \<open>FUTEX_WAIT\<close>\<close>
  | CClear                    \<comment> \<open>wait returned\<close>

record ring_sys =
  shm :: ring_shm
  dsize :: u32
  prod :: producer_pc
  cons :: consumer_pc
  sent :: "bytes list"
  received :: "bytes list"

definition upd_hdr :: "(ring_hdr \<Rightarrow> ring_hdr) \<Rightarrow> ring_sys \<Rightarrow> ring_sys" where
  "upd_hdr f s = s\<lparr>shm := (shm s)\<lparr>shm_hdr := f (shm_hdr (shm s))\<rparr>\<rparr>"

definition upd_slot :: "nat \<Rightarrow> ring_slot \<Rightarrow> ring_sys \<Rightarrow> ring_sys" where
  "upd_slot i x s = s\<lparr>shm := (shm s)\<lparr>shm_slots := (shm_slots (shm s))[i := x]\<rparr>\<rparr>"

definition slot_ix :: "ring_sys \<Rightarrow> u64 \<Rightarrow> nat" where
  "slot_ix s w = unat (ring_index (shm_hdr (shm s)) w)"

abbreviation hdr_of :: "ring_sys \<Rightarrow> ring_hdr" where "hdr_of s \<equiv> shm_hdr (shm s)"

subsection \<open>Steps\<close>

text \<open>
  The first argument is \<open>timeout_ms > 0\<close>: without a timeout a sleeping consumer is woken by the
  producer only. The consumer's buffer takes a whole slot, so a read never cuts a message (the cut of a
  smaller buffer is in \<open>venc_ring_read\<close> of VencRing.thy), and the futex does not wake without a
  reason: a wait the kernel breaks off early would only lead to another look at the ring.
\<close>

inductive ring_step :: "bool \<Rightarrow> ring_sys \<Rightarrow> ring_sys \<Rightarrow> bool" for timed :: bool where
  p_oversize: "prod s = PIdle \<Longrightarrow> length (b :: bytes) > unat (dsize s) \<Longrightarrow> ring_step timed s s"
| p_load_w: "prod s = PIdle \<Longrightarrow> length b \<le> unat (dsize s) \<Longrightarrow>
    ring_step timed s (s\<lparr>prod := PGotW b (write_idx (hdr_of s))\<rparr>)"
| p_load_rd: "prod s = PGotW b w \<Longrightarrow>
    ring_step timed s (s\<lparr>prod := PGotR b w (read_idx (hdr_of s))\<rparr>)"
| p_full: "prod s = PGotR b w rd \<Longrightarrow> w - rd \<ge> ucast (slot_count (hdr_of s)) \<Longrightarrow>
    ring_step timed s (s\<lparr>prod := PIdle\<rparr>)"
| p_copy: "prod s = PGotR b w rd \<Longrightarrow> \<not> w - rd \<ge> ucast (slot_count (hdr_of s)) \<Longrightarrow>
    length (slot_bytes x) = length (slot_bytes (shm_slots (shm s) ! slot_ix s w)) \<Longrightarrow>
    ring_step timed s (upd_slot (slot_ix s w) x s\<lparr>prod := PCopy b w\<rparr>)"
| p_fill: "prod s = PCopy b w \<Longrightarrow>
    ring_step timed s
      (upd_slot (slot_ix s w) (fill_slot b (shm_slots (shm s) ! slot_ix s w)) s\<lparr>prod := PPublish b w\<rparr>)"
| p_publish: "prod s = PPublish b w \<Longrightarrow>
    ring_step timed s
      (upd_hdr (\<lambda>h. h\<lparr>write_idx := w + 1\<rparr>) s\<lparr>prod := PSeq, sent := sent s @ [b]\<rparr>)"
| p_seq: "prod s = PSeq \<Longrightarrow>
    ring_step timed s (upd_hdr (\<lambda>h. h\<lparr>futex_seq := futex_seq h + 1\<rparr>) s\<lparr>prod := PCheck\<rparr>)"
| p_nowake: "prod s = PCheck \<Longrightarrow> consumer_waiting (hdr_of s) = 0 \<Longrightarrow>
    ring_step timed s (s\<lparr>prod := PIdle\<rparr>)"
| p_wake: "prod s = PCheck \<Longrightarrow> consumer_waiting (hdr_of s) \<noteq> 0 \<Longrightarrow>
    ring_step timed s
      (s\<lparr>prod := PIdle, cons := (if cons s = CSleep then CClear else cons s)\<rparr>)"
| c_load_rd: "cons s = CIdle \<Longrightarrow>
    ring_step timed s (s\<lparr>cons := CGotRd False (read_idx (hdr_of s))\<rparr>)"
| c_empty: "cons s = CGotRd False rd \<Longrightarrow> rd \<ge> write_idx (hdr_of s) \<Longrightarrow>
    ring_step timed s (s\<lparr>cons := CEmpty\<rparr>)"
| c_still_empty: "cons s = CGotRd True rd \<Longrightarrow> rd \<ge> write_idx (hdr_of s) \<Longrightarrow>
    ring_step timed s (s\<lparr>cons := (if timed then CIdle else CGotRd False rd)\<rparr>)"
| c_nonempty: "cons s = CGotRd again rd \<Longrightarrow> \<not> rd \<ge> write_idx (hdr_of s) \<Longrightarrow>
    ring_step timed s (s\<lparr>cons := CRead rd\<rparr>)"
| c_copy: "cons s = CRead rd \<Longrightarrow> x = shm_slots (shm s) ! slot_ix s rd \<Longrightarrow>
    \<not> ucast (slot_length x) > dsize s \<Longrightarrow>
    ring_step timed s (s\<lparr>cons := CPub rd, received := received s @ [slot_data x]\<rparr>)"
| c_bad: "cons s = CRead rd \<Longrightarrow> x = shm_slots (shm s) ! slot_ix s rd \<Longrightarrow>
    ucast (slot_length x) > dsize s \<Longrightarrow> ring_step timed s (s\<lparr>cons := CPub rd\<rparr>)"
| c_pub: "cons s = CPub rd \<Longrightarrow>
    ring_step timed s (upd_hdr (\<lambda>h. h\<lparr>read_idx := rd + 1\<rparr>) s\<lparr>cons := CIdle\<rparr>)"
| c_load_seq: "cons s = CEmpty \<Longrightarrow>
    ring_step timed s (s\<lparr>cons := CGotSeq (futex_seq (hdr_of s))\<rparr>)"
| c_set_waiting: "cons s = CGotSeq q \<Longrightarrow>
    ring_step timed s (upd_hdr (\<lambda>h. h\<lparr>consumer_waiting := 1\<rparr>) s\<lparr>cons := CWait q\<rparr>)"
| c_sleep: "cons s = CWait q \<Longrightarrow> futex_seq (hdr_of s) = q \<Longrightarrow>
    ring_step timed s (s\<lparr>cons := CSleep\<rparr>)"
| c_nosleep: "cons s = CWait q \<Longrightarrow> futex_seq (hdr_of s) \<noteq> q \<Longrightarrow>
    ring_step timed s (s\<lparr>cons := CClear\<rparr>)"
| c_timeout: "cons s = CSleep \<Longrightarrow> timed \<Longrightarrow> ring_step timed s (s\<lparr>cons := CClear\<rparr>)"
| c_clear: "cons s = CClear \<Longrightarrow>
    ring_step timed s
      (upd_hdr (\<lambda>h. h\<lparr>consumer_waiting := 0\<rparr>) s\<lparr>cons := CGotRd True (read_idx (hdr_of s))\<rparr>)"

inductive_cases sleeping_step: "ring_step False s t"

text \<open>The two processes start on a ring that \<open>venc_ring_create\<close> has just returned.\<close>

definition ring_sys_init :: "ring_handle \<times> ring_shm \<Rightarrow> ring_sys" where
  "ring_sys_init c =
     \<lparr>shm = snd c, dsize = h_slot_data_size (fst c), prod = PIdle, cons = CIdle,
      sent = [], received = []\<rparr>"

inductive ring_reach :: "bool \<Rightarrow> ring_handle \<times> ring_shm \<Rightarrow> ring_sys \<Rightarrow> bool"
  for timed :: bool and c :: "ring_handle \<times> ring_shm" where
  reach_init: "ring_reach timed c (ring_sys_init c)"
| reach_step: "ring_reach timed c s \<Longrightarrow> ring_step timed s t \<Longrightarrow> ring_reach timed c t"

subsection \<open>Invariant\<close>

abbreviation W_of :: "ring_sys \<Rightarrow> nat" where "W_of s \<equiv> unat (write_idx (hdr_of s))"
abbreviation R_of :: "ring_sys \<Rightarrow> nat" where "R_of s \<equiv> unat (read_idx (hdr_of s))"
abbreviation N_of :: "ring_sys \<Rightarrow> nat" where "N_of s \<equiv> length (shm_slots (shm s))"

text \<open>Slot \<open>i\<close> holds the \<open>i\<close>-th packet sent.\<close>

definition holds :: "ring_sys \<Rightarrow> nat \<Rightarrow> bytes \<Rightarrow> bool" where
  "holds s i b \<longleftrightarrow> slot_data (ring_slot_of (shm s) i) = b \<and>
     unat (slot_length (ring_slot_of (shm s) i)) \<le> unat (dsize s)"

definition sys_shape :: "ring_sys \<Rightarrow> bool" where
  "sys_shape s \<longleftrightarrow>
     is_power_of_2 (slot_count (hdr_of s)) \<and> N_of s = unat (slot_count (hdr_of s)) \<and>
     dsize s \<le> 65535 \<and> (\<forall>x \<in> set (shm_slots (shm s)). unat (dsize s) \<le> length (slot_bytes x))"

definition window_ok :: "ring_sys \<Rightarrow> bool" where
  "window_ok s \<longleftrightarrow> R_of s \<le> W_of s \<and> W_of s \<le> R_of s + N_of s \<and> W_of s = length (sent s) \<and>
     (\<forall>i. R_of s \<le> i \<and> i < W_of s \<longrightarrow> holds s i (sent s ! i))"

fun prod_ok :: "producer_pc \<Rightarrow> ring_sys \<Rightarrow> bool" where
  "prod_ok (PGotW b w) s \<longleftrightarrow> w = write_idx (hdr_of s) \<and> length b \<le> unat (dsize s)"
| "prod_ok (PGotR b w rd) s \<longleftrightarrow> w = write_idx (hdr_of s) \<and> length b \<le> unat (dsize s) \<and>
     unat rd \<le> R_of s"
| "prod_ok (PCopy b w) s \<longleftrightarrow> w = write_idx (hdr_of s) \<and> length b \<le> unat (dsize s) \<and>
     W_of s < R_of s + N_of s"
| "prod_ok (PPublish b w) s \<longleftrightarrow> w = write_idx (hdr_of s) \<and> W_of s < R_of s + N_of s \<and>
     holds s (W_of s) b"
| "prod_ok _ s \<longleftrightarrow> True"

fun cons_ok :: "consumer_pc \<Rightarrow> ring_sys \<Rightarrow> bool" where
  "cons_ok (CGotRd again rd) s \<longleftrightarrow> rd = read_idx (hdr_of s) \<and> received s = take (R_of s) (sent s)"
| "cons_ok (CRead rd) s \<longleftrightarrow> rd = read_idx (hdr_of s) \<and> R_of s < W_of s \<and>
     received s = take (R_of s) (sent s)"
| "cons_ok (CPub rd) s \<longleftrightarrow> rd = read_idx (hdr_of s) \<and> R_of s < W_of s \<and>
     received s = take (Suc (R_of s)) (sent s)"
| "cons_ok _ s \<longleftrightarrow> received s = take (R_of s) (sent s)"

definition ring_inv :: "ring_sys \<Rightarrow> bool" where
  "ring_inv s \<longleftrightarrow> sys_shape s \<and> window_ok s \<and> prod_ok (prod s) s \<and> cons_ok (cons s) s"

lemma upd_hdr_sel [simp]:
  "hdr_of (upd_hdr f s) = f (hdr_of s)" "shm_slots (shm (upd_hdr f s)) = shm_slots (shm s)"
  "dsize (upd_hdr f s) = dsize s" "prod (upd_hdr f s) = prod s" "cons (upd_hdr f s) = cons s"
  "sent (upd_hdr f s) = sent s" "received (upd_hdr f s) = received s"
  "ring_slot_of (shm (upd_hdr f s)) i = ring_slot_of (shm s) i"
  by (simp_all add: upd_hdr_def)

lemma upd_slot_sel [simp]:
  "hdr_of (upd_slot i x s) = hdr_of s" "shm_slots (shm (upd_slot i x s)) = (shm_slots (shm s))[i := x]"
  "dsize (upd_slot i x s) = dsize s" "prod (upd_slot i x s) = prod s"
  "cons (upd_slot i x s) = cons s" "sent (upd_slot i x s) = sent s"
  "received (upd_slot i x s) = received s"
  by (simp_all add: upd_slot_def)

lemma holds_upd_hdr [simp]: "holds (upd_hdr f s) i b = holds s i b"
  by (simp add: holds_def)

lemma slot_of_upd_slot:
  "ring_slot_of (shm (upd_slot j x s)) i =
    (if i mod N_of s = j \<and> j < N_of s then x else ring_slot_of (shm s) i)"
  by (auto simp: ring_slot_of_def upd_slot_def nth_list_update list_update_beyond not_less)

text \<open>Writing the slot of index \<open>W\<close> leaves the packets of the window alone.\<close>

lemma holds_upd_slot_other:
  assumes "W_of s < R_of s + N_of s" and "R_of s \<le> i" and "i < W_of s"
  shows "holds (upd_slot (W_of s mod N_of s) x s) i b = holds s i b"
proof -
  have "i mod N_of s \<noteq> W_of s mod N_of s"
    using assms by (intro mod_window_neq) auto
  then show ?thesis by (simp add: holds_def slot_of_upd_slot)
qed

lemma slot_ix_mod:
  assumes "sys_shape s"
  shows "slot_ix s w = unat w mod N_of s" and "0 < N_of s"
    and "shm_slots (shm s) ! slot_ix s w = ring_slot_of (shm s) (unat w)"
proof -
  from assms have "is_power_of_2 (slot_count (hdr_of s))" and n: "N_of s = unat (slot_count (hdr_of s))"
    by (simp_all add: sys_shape_def)
  then show "slot_ix s w = unat w mod N_of s" by (simp add: slot_ix_def ring_index_mod)
  then show "shm_slots (shm s) ! slot_ix s w = ring_slot_of (shm s) (unat w)"
    by (simp add: ring_slot_of_def)
  show "0 < N_of s" using assms n by (auto simp: sys_shape_def is_power_of_2_def unat_gt_0 word_neq_0_conv)
qed

lemma sys_shape_upd_slot:
  assumes "sys_shape s" and "unat (dsize s) \<le> length (slot_bytes x)"
  shows "sys_shape (upd_slot i x s)"
  using assms set_update_subset_insert [of "shm_slots (shm s)" i x]
  by (auto simp: sys_shape_def)

text \<open>A step never forgets a published packet.\<close>

lemma step_sent: "ring_step timed s t \<Longrightarrow> length (sent s) \<le> length (sent t)"
  by (induction rule: ring_step.induct) simp_all

text \<open>Steps that change only one process's program counter.\<close>

lemma inv_frame:
  "sys_shape (s\<lparr>prod := p\<rparr>) = sys_shape s" "window_ok (s\<lparr>prod := p\<rparr>) = window_ok s"
  "cons_ok c (s\<lparr>prod := p\<rparr>) = cons_ok c s" "prod_ok q (s\<lparr>prod := p\<rparr>) = prod_ok q s"
  "sys_shape (s\<lparr>cons := c'\<rparr>) = sys_shape s" "window_ok (s\<lparr>cons := c'\<rparr>) = window_ok s"
  "prod_ok q (s\<lparr>cons := c'\<rparr>) = prod_ok q s" "cons_ok c (s\<lparr>cons := c'\<rparr>) = cons_ok c s"
  by (cases c; cases q; simp add: sys_shape_def window_ok_def holds_def)+

lemma inv_frame_recv:
  "sys_shape (s\<lparr>received := r\<rparr>) = sys_shape s" "window_ok (s\<lparr>received := r\<rparr>) = window_ok s"
  "prod_ok q (s\<lparr>received := r\<rparr>) = prod_ok q s"
  by (cases q; simp add: sys_shape_def window_ok_def holds_def)+

text \<open>A header store that leaves both indices and the slot count alone.\<close>

lemma inv_frame_hdr:
  assumes "\<And>h. write_idx (f h) = write_idx h" "\<And>h. read_idx (f h) = read_idx h"
    "\<And>h. slot_count (f h) = slot_count h"
  shows "sys_shape (upd_hdr f s) = sys_shape s" "window_ok (upd_hdr f s) = window_ok s"
    "prod_ok q (upd_hdr f s) = prod_ok q s" "cons_ok c (upd_hdr f s) = cons_ok c s"
  by (cases c; cases q; simp add: sys_shape_def window_ok_def assms)+

text \<open>The producer's test for room is safe with a stale \<open>rd\<close>.\<close>

lemma stale_room:
  assumes "sys_shape s" "window_ok s" "unat rd \<le> R_of s"
    and "\<not> write_idx (hdr_of s) - rd \<ge> ucast (slot_count (hdr_of s))"
  shows "W_of s < R_of s + N_of s"
proof -
  have "unat rd \<le> W_of s" using assms by (simp add: window_ok_def)
  then have "unat (write_idx (hdr_of s) - rd) = W_of s - unat rd"
    by (intro unat_diff_le) (simp add: word_le_nat_alt)
  moreover have "unat (ucast (slot_count (hdr_of s)) :: u64) = N_of s"
    using assms(1) by (simp add: sys_shape_def unat_ucast_widen)
  ultimately show ?thesis using assms(3,4) by (simp add: word_le_nat_alt not_le)
qed

subsection \<open>Every step keeps the invariant\<close>

lemma inv_write_slot:
  assumes inv: "ring_inv s" and w: "w = write_idx (hdr_of s)" and room: "W_of s < R_of s + N_of s"
    and len: "unat (dsize s) \<le> length (slot_bytes x)"
    and p: "prod_ok p (upd_slot (slot_ix s w) x s)"
  shows "ring_inv (upd_slot (slot_ix s w) x s\<lparr>prod := p\<rparr>)"
proof -
  let ?t = "upd_slot (slot_ix s w) x s"
  from inv have sh: "sys_shape s" and win: "window_ok s" and c: "cons_ok (cons s) s"
    by (simp_all add: ring_inv_def)
  have W: "W_of s = length (sent s)" using win by (simp add: window_ok_def)
  have ix: "slot_ix s w = length (sent s) mod N_of s" using slot_ix_mod(1) [OF sh] w W by simp
  have "window_ok ?t"
    using win holds_upd_slot_other [OF room, of _ x] by (simp add: window_ok_def ix W)
  moreover have "cons_ok (cons s) ?t" using c by (cases "cons s") simp_all
  ultimately show ?thesis
    using sys_shape_upd_slot [OF sh len] p by (simp add: ring_inv_def inv_frame)
qed

lemma inv_publish:
  assumes inv: "ring_inv s" and p: "prod s = PPublish b w" and lt: "Suc (length (sent s)) < 2 ^ 64"
  shows "ring_inv (upd_hdr (\<lambda>h. h\<lparr>write_idx := w + 1\<rparr>) s\<lparr>prod := PSeq, sent := sent s @ [b]\<rparr>)"
proof -
  from inv p have sh: "sys_shape s" and win: "window_ok s" and c: "cons_ok (cons s) s"
    and w: "w = write_idx (hdr_of s)" and room: "W_of s < R_of s + N_of s" and b: "holds s (W_of s) b"
    by (simp_all add: ring_inv_def)
  from win have W: "W_of s = length (sent s)" and RW: "R_of s \<le> W_of s" by (simp_all add: window_ok_def)
  have W': "unat (write_idx (hdr_of s) + 1) = Suc (W_of s)" using lt W by (intro unat_Suc) simp
  let ?t = "upd_hdr (\<lambda>h. h\<lparr>write_idx := w + 1\<rparr>) s\<lparr>prod := PSeq, sent := sent s @ [b]\<rparr>"
  have "holds s i ((sent s @ [b]) ! i)" if "R_of s \<le> i" "i < Suc (W_of s)" for i
  proof (cases "i = W_of s")
    case True
    with b W show ?thesis by simp
  next
    case False
    with that win W show ?thesis by (simp add: window_ok_def nth_append)
  qed
  then have "window_ok ?t"
    using RW room W' W by (simp add: window_ok_def w) (simp add: holds_def upd_hdr_def ring_slot_of_def)
  moreover have "cons_ok (cons s) ?t"
    using c RW W W' by (cases "cons s") (auto simp: w)
  moreover have "sys_shape ?t" using sh by (simp add: sys_shape_def)
  ultimately show ?thesis by (simp add: ring_inv_def)
qed

lemma inv_consume:
  assumes inv: "ring_inv s" and c: "cons s = CPub rd" and lt: "length (sent s) < 2 ^ 64"
  shows "ring_inv (upd_hdr (\<lambda>h. h\<lparr>read_idx := rd + 1\<rparr>) s\<lparr>cons := CIdle\<rparr>)"
proof -
  from inv c have sh: "sys_shape s" and win: "window_ok s" and p: "prod_ok (prod s) s"
    and rd: "rd = read_idx (hdr_of s)" and RW: "R_of s < W_of s"
    and rcv: "received s = take (Suc (R_of s)) (sent s)"
    by (simp_all add: ring_inv_def)
  have "W_of s = length (sent s)" using win by (simp add: window_ok_def)
  then have R': "unat (read_idx (hdr_of s) + 1) = Suc (R_of s)"
    using RW lt by (intro unat_Suc) simp
  let ?t = "upd_hdr (\<lambda>h. h\<lparr>read_idx := rd + 1\<rparr>) s\<lparr>cons := CIdle\<rparr>"
  have "window_ok ?t"
    using win RW R' by (simp add: window_ok_def rd) (simp add: holds_def upd_hdr_def ring_slot_of_def)
  moreover have "prod_ok (prod s) ?t"
    using p R' by (cases "prod s") (auto simp: rd holds_def upd_hdr_def ring_slot_of_def)
  moreover have "sys_shape ?t" using sh by (simp add: sys_shape_def)
  ultimately show ?thesis using rcv R' by (simp add: ring_inv_def rd)
qed

lemma inv_copy_out:
  assumes inv: "ring_inv s" and c: "cons s = CRead rd"
    and x: "x = shm_slots (shm s) ! slot_ix s rd"
  shows "slot_data x = sent s ! R_of s" and "\<not> ucast (slot_length x) > dsize s"
    and "ring_inv (s\<lparr>cons := CPub rd, received := received s @ [slot_data x]\<rparr>)"
proof -
  from inv c have sh: "sys_shape s" and win: "window_ok s" and p: "prod_ok (prod s) s"
    and rd: "rd = read_idx (hdr_of s)" and RW: "R_of s < W_of s"
    and rcv: "received s = take (R_of s) (sent s)"
    by (simp_all add: ring_inv_def)
  have "holds s (R_of s) (sent s ! R_of s)" using win RW by (simp add: window_ok_def)
  moreover have xs: "x = ring_slot_of (shm s) (R_of s)" using x rd slot_ix_mod(3) [OF sh] by simp
  ultimately show d: "slot_data x = sent s ! R_of s" and "\<not> ucast (slot_length x) > dsize s"
    by (simp_all add: holds_def word_less_nat_alt unat_ucast_widen not_less)
  have "R_of s < length (sent s)" using win RW by (simp add: window_ok_def)
  then have "received s @ [slot_data x] = take (Suc (R_of s)) (sent s)"
    by (simp add: rcv d take_Suc_conv_app_nth)
  with sh win p rd RW show "ring_inv (s\<lparr>cons := CPub rd, received := received s @ [slot_data x]\<rparr>)"
    by (simp add: ring_inv_def inv_frame inv_frame_recv)
qed

lemma ring_step_inv:
  assumes "ring_step timed s t" and "ring_inv s" and "length (sent t) < 2 ^ 64"
  shows "ring_inv t"
  using assms
proof (induction rule: ring_step.induct)
  case (p_copy s b w rd x)
  then have sh: "sys_shape s" and w: "w = write_idx (hdr_of s)" and b: "length b \<le> unat (dsize s)"
    and room: "W_of s < R_of s + N_of s"
    using stale_room [of s rd] by (auto simp: ring_inv_def)
  have "shm_slots (shm s) ! slot_ix s w \<in> set (shm_slots (shm s))"
    using slot_ix_mod(1,2) [OF sh] by simp
  then have "unat (dsize s) \<le> length (slot_bytes x)"
    using sh p_copy.hyps(3) by (simp add: sys_shape_def)
  with inv_write_slot [OF p_copy.prems(1) w room] show ?case using w b room by simp
next
  case (p_fill s b w)
  then have sh: "sys_shape s" and w: "w = write_idx (hdr_of s)" and b: "length b \<le> unat (dsize s)"
    and room: "W_of s < R_of s + N_of s"
    by (auto simp: ring_inv_def)
  let ?y = "shm_slots (shm s) ! slot_ix s w"
  have "?y \<in> set (shm_slots (shm s))" using slot_ix_mod(1,2) [OF sh] by simp
  then have len: "unat (dsize s) \<le> length (slot_bytes (fill_slot b ?y))"
    using sh b by (auto simp: sys_shape_def fill_slot_def)
  have "unat (dsize s) \<le> 65535" using sh by (simp add: sys_shape_def word_le_nat_alt)
  with b have "length b \<le> 65535" by simp
  from slot_data_fill [OF this, of ?y] b
  have "holds (upd_slot (slot_ix s w) (fill_slot b ?y) s) (W_of s) b"
    using slot_ix_mod(1,2) [OF sh] w by (simp add: holds_def slot_of_upd_slot)
  then have "prod_ok (PPublish b w) (upd_slot (slot_ix s w) (fill_slot b ?y) s)"
    using w room by simp
  then show ?case by (rule inv_write_slot [OF p_fill.prems(1) w room len])
next
  case (p_publish s b w)
  then show ?case by (intro inv_publish) simp_all
next
  case (c_copy s rd x)
  then show ?case using inv_copy_out(3) by blast
next
  case (c_bad s rd x)
  then show ?case using inv_copy_out(2) by blast
next
  case (c_pub s rd)
  then show ?case by (intro inv_consume) simp_all
qed (auto simp: ring_inv_def inv_frame inv_frame_hdr word_le_nat_alt split: if_splits)

subsection \<open>The stream is delivered in order, whole and uncorrupted\<close>

lemma ring_inv_init:
  assumes "venc_ring_create name c d e = (Some rm, ops)"
  shows "ring_inv (ring_sys_init rm)"
proof -
  from assms have c: "is_power_of_2 c" and d: "d \<noteq> 0" "\<not> d > 65535"
    and rm: "snd rm = \<lparr>shm_hdr = fresh_hdr c d (calc_total_size c d) (ring_epoch e),
      shm_slots = fresh_slots c d\<rparr>" "h_slot_data_size (fst rm) = d"
    by (auto simp: venc_ring_create_def Let_def new_handle_def split: if_splits)
  have "unat d \<le> 65535" using d(2) by (simp add: word_less_nat_alt not_less)
  then have "unat d \<le> unat (calc_slot_stride d) - 2"
    using calc_slot_stride_bounds(1) by force
  with c d rm show ?thesis
    by (auto simp: ring_inv_def ring_sys_init_def sys_shape_def window_ok_def fresh_hdr_def
        fresh_slots_def not_less)
qed

lemma reach_inv:
  assumes "ring_reach timed rm s" and "venc_ring_create name c d e = (Some rm, ops)"
    and "length (sent s) < 2 ^ 64"
  shows "ring_inv s"
  using assms(1,3)
proof (induction rule: ring_reach.induct)
  case reach_init
  show ?case by (rule ring_inv_init [OF assms(2)])
next
  case (reach_step s t)
  with step_sent [of timed s t] have "length (sent s) < 2 ^ 64" by simp
  with reach_step show ?case by (blast intro: ring_step_inv)
qed

lemma inv_received_take: "ring_inv s \<Longrightarrow> \<exists>k. received s = take k (sent s)"
  by (cases "cons s") (auto simp: ring_inv_def)

lemma inv_received:
  assumes "ring_inv s"
  shows "received s = take (length (received s)) (sent s)"
proof -
  obtain k where "received s = take k (sent s)" using inv_received_take [OF assms] by blast
  then show ?thesis by (cases "k \<le> length (sent s)") simp_all
qed

lemma inv_behind: "ring_inv s \<Longrightarrow> length (sent s) \<le> length (received s) + N_of s"
proof -
  assume inv: "ring_inv s"
  then have "length (sent s) \<le> R_of s + N_of s" and "R_of s \<le> length (sent s)"
    by (simp_all add: ring_inv_def window_ok_def)
  with inv show ?thesis by (cases "cons s") (auto simp: ring_inv_def)
qed

lemma reach_slot_count:
  assumes "ring_reach timed rm s" and "venc_ring_create name c d e = (Some rm, ops)"
  shows "slot_count (hdr_of s) = c"
  using assms(1)
proof (induction rule: ring_reach.induct)
  case reach_init
  then show ?case using assms(2)
    by (auto simp: ring_sys_init_def venc_ring_create_def Let_def fresh_hdr_def split: if_splits)
next
  case (reach_step s t)
  from reach_step(2,3) show ?case by (induction rule: ring_step.induct) simp_all
qed

subsection \<open>A concrete run\<close>

text \<open>
  A ring of one slot of four bytes, and the interleaving in which the producer runs a whole write
  between the consumer's failed read and its load of \<open>futex_seq\<close>.
\<close>

definition demo_env :: create_env where
  "demo_env = \<lparr>ce_shm_open = True, ce_ftruncate = True, ce_mmap = True, ce_calloc = True,
     ce_tv_sec = 1, ce_tv_nsec = 0\<rparr>"

definition demo_hdr :: "u64 \<Rightarrow> u32 \<Rightarrow> u64 \<Rightarrow> u32 \<Rightarrow> ring_hdr" where
  "demo_hdr w q r cw = \<lparr>magic = VENC_RING_MAGIC, version = VENC_RING_VERSION, slot_count = 1,
     slot_data_size = 4, total_size = 200, epoch = 1000, init_complete = 1,
     write_idx = w, futex_seq = q, read_idx = r, consumer_waiting = cw\<rparr>"

definition demo_shm :: "ring_hdr \<Rightarrow> u16 \<Rightarrow> bytes \<Rightarrow> ring_shm" where
  "demo_shm h l d = \<lparr>shm_hdr = h, shm_slots = [\<lparr>slot_length = l, slot_bytes = d\<rparr>]\<rparr>"

definition demo_ring :: "ring_handle \<times> ring_shm" where
  "demo_ring = (\<lparr>h_slot_stride = 8, h_slot_data_size = 4, h_map_size = 200, h_is_owner = True,
     h_name = ''/v'', h_stats = zero_stats\<rparr>, demo_shm (demo_hdr 0 0 0 0) 0 [0, 0, 0, 0, 0, 0])"

definition demo_sys :: "ring_shm \<Rightarrow> producer_pc \<Rightarrow> consumer_pc \<Rightarrow> bytes list \<Rightarrow> bytes list \<Rightarrow> ring_sys" where
  "demo_sys m p c snt rcv =
     \<lparr>shm = m, dsize = 4, prod = p, cons = c, sent = snt, received = rcv\<rparr>"

lemma replicate_6: "replicate 6 x = [x, x, x, x, x, x]"
  by (simp add: numeral_eq_Suc)

lemma demo_ring_create:
  "venc_ring_create ''v'' 1 4 demo_env =
     (Some demo_ring, [ShmOpen ''/v'', Ftruncate 200, Mmap 200, CloseFd])"
  by (simp add: venc_ring_create_def demo_env_def demo_ring_def is_power_of_2_def Let_def
      calc_total_size_def calc_slot_stride_def sizeof_ring_hdr_def ring_shm_name_def new_handle_def
      fresh_hdr_def fresh_slots_def demo_shm_def demo_hdr_def ring_epoch_def replicate_6)

lemma step_to: "ring_step b s t \<Longrightarrow> t = t' \<Longrightarrow> ring_step b s t'"
  by simp

lemmas demo_simps = demo_sys_def demo_shm_def demo_hdr_def upd_hdr_def upd_slot_def slot_ix_def
  ring_index_def fill_slot_def slot_data_def

text \<open>The producer's write of \<open>[7]\<close> as a run of steps, while the consumer stays at \<open>c\<close>.\<close>

lemma demo_write:
  assumes "ring_reach False rm (demo_sys (demo_shm (demo_hdr 0 0 0 0) 0 [0, 0, 0, 0, 0, 0]) PIdle c [] [])"
  shows "ring_reach False rm
    (demo_sys (demo_shm (demo_hdr 1 1 0 0) 1 [7, 0, 0, 0, 0, 0]) PIdle c [[7]] [])"
proof -
  let ?h = "demo_hdr 0 0 0 0" and ?z = "[0, 0, 0, 0, 0, 0] :: bytes" and ?d = "[7, 0, 0, 0, 0, 0] :: bytes"
  have "ring_step False (demo_sys (demo_shm ?h 0 ?z) PIdle c [] [])
      (demo_sys (demo_shm ?h 0 ?z) (PGotW [7] 0) c [] [])"
    by (rule step_to, rule ring_step.p_load_w [of _ "[7]"]) (simp_all add: demo_simps)
  with assms have "ring_reach False rm (demo_sys (demo_shm ?h 0 ?z) (PGotW [7] 0) c [] [])"
    by (rule ring_reach.reach_step)
  moreover have "ring_step False (demo_sys (demo_shm ?h 0 ?z) (PGotW [7] 0) c [] [])
      (demo_sys (demo_shm ?h 0 ?z) (PGotR [7] 0 0) c [] [])"
    by (rule step_to, rule ring_step.p_load_rd) (simp_all add: demo_simps)
  ultimately have "ring_reach False rm (demo_sys (demo_shm ?h 0 ?z) (PGotR [7] 0 0) c [] [])"
    by (rule ring_reach.reach_step)
  moreover have "ring_step False (demo_sys (demo_shm ?h 0 ?z) (PGotR [7] 0 0) c [] [])
      (demo_sys (demo_shm ?h 0 ?z) (PCopy [7] 0) c [] [])"
    by (rule step_to, rule ring_step.p_copy [where x = "\<lparr>slot_length = 0, slot_bytes = ?z\<rparr>"
          and b = "[7]" and w = 0 and rd = 0]) (simp_all add: demo_simps)
  ultimately have "ring_reach False rm (demo_sys (demo_shm ?h 0 ?z) (PCopy [7] 0) c [] [])"
    by (rule ring_reach.reach_step)
  moreover have "ring_step False (demo_sys (demo_shm ?h 0 ?z) (PCopy [7] 0) c [] [])
      (demo_sys (demo_shm ?h 1 ?d) (PPublish [7] 0) c [] [])"
    by (rule step_to, rule ring_step.p_fill [where b = "[7]" and w = 0]) (simp_all add: demo_simps)
  ultimately have "ring_reach False rm (demo_sys (demo_shm ?h 1 ?d) (PPublish [7] 0) c [] [])"
    by (rule ring_reach.reach_step)
  moreover have "ring_step False (demo_sys (demo_shm ?h 1 ?d) (PPublish [7] 0) c [] [])
      (demo_sys (demo_shm (demo_hdr 1 0 0 0) 1 ?d) PSeq c [[7]] [])"
    by (rule step_to, rule ring_step.p_publish [where b = "[7]" and w = 0]) (simp_all add: demo_simps)
  ultimately have "ring_reach False rm (demo_sys (demo_shm (demo_hdr 1 0 0 0) 1 ?d) PSeq c [[7]] [])"
    by (rule ring_reach.reach_step)
  moreover have "ring_step False (demo_sys (demo_shm (demo_hdr 1 0 0 0) 1 ?d) PSeq c [[7]] [])
      (demo_sys (demo_shm (demo_hdr 1 1 0 0) 1 ?d) PCheck c [[7]] [])"
    by (rule step_to, rule ring_step.p_seq) (simp_all add: demo_simps)
  ultimately have "ring_reach False rm (demo_sys (demo_shm (demo_hdr 1 1 0 0) 1 ?d) PCheck c [[7]] [])"
    by (rule ring_reach.reach_step)
  moreover have "ring_step False (demo_sys (demo_shm (demo_hdr 1 1 0 0) 1 ?d) PCheck c [[7]] [])
      (demo_sys (demo_shm (demo_hdr 1 1 0 0) 1 ?d) PIdle c [[7]] [])"
    by (rule step_to, rule ring_step.p_nowake) (simp_all add: demo_simps)
  ultimately show ?thesis by (rule ring_reach.reach_step)
qed


subsection \<open>The missed wake-up\<close>

lemma demo_consumer_start:
  "ring_reach False demo_ring
    (demo_sys (demo_shm (demo_hdr 0 0 0 0) 0 [0, 0, 0, 0, 0, 0]) PIdle CEmpty [] [])"
proof -
  let ?m = "demo_shm (demo_hdr 0 0 0 0) 0 [0, 0, 0, 0, 0, 0]"
  have i: "ring_sys_init demo_ring = demo_sys ?m PIdle CIdle [] []"
    by (simp add: ring_sys_init_def demo_ring_def demo_sys_def)
  have "ring_step False (ring_sys_init demo_ring) (demo_sys ?m PIdle (CGotRd False 0) [] [])"
    unfolding i by (rule step_to, rule ring_step.c_load_rd) (simp_all add: demo_simps)
  with ring_reach.reach_init have "ring_reach False demo_ring (demo_sys ?m PIdle (CGotRd False 0) [] [])"
    by (rule ring_reach.reach_step)
  moreover have "ring_step False (demo_sys ?m PIdle (CGotRd False 0) [] []) (demo_sys ?m PIdle CEmpty [] [])"
    by (rule step_to, rule ring_step.c_empty [where rd = 0]) (simp_all add: demo_simps)
  ultimately show ?thesis by (rule ring_reach.reach_step)
qed

lemma demo_asleep:
  "ring_reach False demo_ring
    (demo_sys (demo_shm (demo_hdr 1 1 0 1) 1 [7, 0, 0, 0, 0, 0]) PIdle CSleep [[7]] [])"
proof -
  let ?m = "demo_shm (demo_hdr 1 1 0 0) 1 [7, 0, 0, 0, 0, 0]"
    and ?m' = "demo_shm (demo_hdr 1 1 0 1) 1 [7, 0, 0, 0, 0, 0]"
  have "ring_step False (demo_sys ?m PIdle CEmpty [[7]] []) (demo_sys ?m PIdle (CGotSeq 1) [[7]] [])"
    by (rule step_to, rule ring_step.c_load_seq) (simp_all add: demo_simps)
  with demo_write [OF demo_consumer_start]
  have "ring_reach False demo_ring (demo_sys ?m PIdle (CGotSeq 1) [[7]] [])"
    by (rule ring_reach.reach_step)
  moreover have "ring_step False (demo_sys ?m PIdle (CGotSeq 1) [[7]] []) (demo_sys ?m' PIdle (CWait 1) [[7]] [])"
    by (rule step_to, rule ring_step.c_set_waiting) (simp_all add: demo_simps)
  ultimately have "ring_reach False demo_ring (demo_sys ?m' PIdle (CWait 1) [[7]] [])"
    by (rule ring_reach.reach_step)
  moreover have "ring_step False (demo_sys ?m' PIdle (CWait 1) [[7]] []) (demo_sys ?m' PIdle CSleep [[7]] [])"
    by (rule step_to, rule ring_step.c_sleep) (simp_all add: demo_simps)
  ultimately show ?thesis by (rule ring_reach.reach_step)
qed

text \<open>A sleeping consumer stays asleep until the producer is in the middle of another write.\<close>

lemma sleeping_waits:
  "ring_step False s t \<Longrightarrow> cons s = CSleep \<Longrightarrow> prod s = PIdle \<Longrightarrow> t \<noteq> s \<Longrightarrow>
    cons t = CSleep \<and> (\<exists>b. prod t = PGotW b (write_idx (hdr_of s)))"
  by (elim sleeping_step) auto


subsection \<open>Properties\<close>

text \<open>Property C1. Whatever way the producer's and the consumer's loads, stores and copies
  interleave, what the consumer has copied out of a ring that \<open>venc_ring_create\<close> returned is
  exactly the first packets the producer published: none is lost, duplicated, reordered or torn,
  and at most \<open>slot_count\<close> packets are outstanding. The 64-bit index must not have wrapped.\<close>

theorem ring_spsc_fifo:
  assumes "venc_ring_create name c d e = (Some rm, ops)" and "ring_reach timed rm s"
    and "length (sent s) < 2 ^ 64"
  shows "received s = take (length (received s)) (sent s) \<and>
    length (sent s) \<le> length (received s) + unat c"
proof -
  from assms have inv: "ring_inv s" by (blast intro: reach_inv)
  with assms reach_slot_count have "N_of s = unat c" by (simp add: ring_inv_def sys_shape_def)
  with inv_received [OF inv] inv_behind [OF inv] show ?thesis by simp
qed

theorem ring_spsc_fifo_witness:
  "received (demo_sys (demo_shm (demo_hdr 1 1 0 1) 1 [7, 0, 0, 0, 0, 0]) PIdle CSleep [[7]] []) = [] \<and>
   length [[7 :: u8]] \<le> 0 + unat (1 :: u32)"
  using ring_spsc_fifo [OF demo_ring_create demo_asleep] by (simp add: demo_sys_def)

text \<open>Property C40. The wait has a window in which a packet does not wake its reader:
  \<open>venc_ring_read_wait\<close> loads \<open>futex_seq\<close> and sets \<open>consumer_waiting\<close> only after its read has
  failed, so a write that completes in between is seen by neither. There is a reachable state with
  a packet in the ring, the producer idle and a consumer without timeout asleep in the futex; and
  from such a state every step that changes anything is the producer starting its next write.\<close>

theorem ring_missed_wakeup:
  "\<exists>s. ring_reach False demo_ring s \<and> cons s = CSleep \<and> prod s = PIdle \<and>
     read_idx (hdr_of s) < write_idx (hdr_of s) \<and>
     {t. ring_step False s t \<and> t \<noteq> s} \<subseteq>
       {t. cons t = CSleep \<and> (\<exists>b. prod t = PGotW b (write_idx (hdr_of s)))}"
proof -
  let ?s = "demo_sys (demo_shm (demo_hdr 1 1 0 1) 1 [7, 0, 0, 0, 0, 0]) PIdle CSleep [[7]] []"
  have c: "cons ?s = CSleep" and p: "prod ?s = PIdle" and i: "read_idx (hdr_of ?s) < write_idx (hdr_of ?s)"
    by (simp_all add: demo_simps)
  with demo_asleep sleeping_waits [OF _ c p] show ?thesis by blast
qed

end
