(* ===== verification/H26x.thy ===== *)
theory H26x imports Prelude begin

text \<open>
  NAL unit helpers and the VPS/SPS/PPS cache (\<open>src/h26x_util.c\<close>, \<open>src/h26x_param_sets.c\<close>,
  \<open>include/codec_types.h\<close>), and the RTP session defaults (\<open>src/rtp_session.c\<close>).
\<close>

datatype payload_type = PT_H264 | PT_H265

subsection \<open>NAL headers\<close>

text \<open>The two loops of \<open>h26x_util_strip_start_code\<close>: first every 4-byte code, then every 3-byte one.\<close>

fun strip4 :: "bytes \<Rightarrow> bytes" where
  "strip4 (a # b # c # d # xs) =
     (if a = 0 \<and> b = 0 \<and> c = 0 \<and> d = 1 then strip4 xs else a # b # c # d # xs)"
| "strip4 xs = xs"

fun strip3 :: "bytes \<Rightarrow> bytes" where
  "strip3 (a # b # c # xs) = (if a = 0 \<and> b = 0 \<and> c = 1 then strip3 xs else a # b # c # xs)"
| "strip3 xs = xs"

definition h26x_util_strip_start_code :: "bytes \<Rightarrow> bytes" where
  "h26x_util_strip_start_code data = strip3 (strip4 data)"

fun h26x_util_h264_nalu_type :: "bytes \<Rightarrow> u8" where
  "h26x_util_h264_nalu_type [] = 0"
| "h26x_util_h264_nalu_type (d0 # _) = d0 AND 0x1F"

fun h26x_util_hevc_nalu_type :: "bytes \<Rightarrow> u8" where
  "h26x_util_hevc_nalu_type [] = 0"
| "h26x_util_hevc_nalu_type (d0 # _) = drop_bit 1 d0 AND 0x3F"

fun h26x_util_hevc_get_layer_id :: "bytes \<Rightarrow> u8" where
  "h26x_util_hevc_get_layer_id (d0 # d1 # _) = push_bit 5 (d0 AND 1) OR drop_bit 3 d1"
| "h26x_util_hevc_get_layer_id _ = 0"

fun h26x_util_hevc_get_tid_plus1 :: "bytes \<Rightarrow> u8" where
  "h26x_util_hevc_get_tid_plus1 (d0 # d1 # _) = d1 AND 7"
| "h26x_util_hevc_get_tid_plus1 _ = 1"

lemma strip4_le: "length (strip4 xs) \<le> length xs"
  by (induction xs rule: strip4.induct) auto

lemma strip3_le: "length (strip3 xs) \<le> length xs"
  by (induction xs rule: strip3.induct) auto

lemma strip_start_code_le: "length (h26x_util_strip_start_code xs) \<le> length xs"
  using strip3_le [of "strip4 xs"] strip4_le [of xs] by (simp add: h26x_util_strip_start_code_def)

text \<open>What is left never starts with a 3-byte code, and what is removed is start codes only.\<close>

lemma strip3_done: "\<not> (\<exists>ys. strip3 xs = 0 # 0 # 1 # ys)"
  by (induction xs rule: strip3.induct) auto

inductive start_codes :: "bytes \<Rightarrow> bool" where
  sc_nil: "start_codes []"
| sc_three: "start_codes xs \<Longrightarrow> start_codes (0 # 0 # 1 # xs)"
| sc_four: "start_codes xs \<Longrightarrow> start_codes (0 # 0 # 0 # 1 # xs)"

lemma start_codes_append: "start_codes xs \<Longrightarrow> start_codes ys \<Longrightarrow> start_codes (xs @ ys)"
  by (induction rule: start_codes.induct) (simp_all add: start_codes.intros)

lemma strip4_codes: "\<exists>p. start_codes p \<and> xs = p @ strip4 xs"
proof (induction xs rule: strip4.induct)
  case (1 a b c d xs)
  show ?case
  proof (cases "a = 0 \<and> b = 0 \<and> c = 0 \<and> d = 1")
    case True
    with 1 obtain p where "start_codes p" and "xs = p @ strip4 xs" by blast
    with True show ?thesis by (intro exI [of _ "0 # 0 # 0 # 1 # p"]) (simp add: start_codes.intros)
  next
    case False
    then show ?thesis by (intro exI [of _ "[]"]) (auto simp: start_codes.intros)
  qed
qed (auto intro: start_codes.intros)

lemma strip3_codes: "\<exists>p. start_codes p \<and> xs = p @ strip3 xs"
proof (induction xs rule: strip3.induct)
  case (1 a b c xs)
  show ?case
  proof (cases "a = 0 \<and> b = 0 \<and> c = 1")
    case True
    with 1 obtain p where "start_codes p" and "xs = p @ strip3 xs" by blast
    with True show ?thesis by (intro exI [of _ "0 # 0 # 1 # p"]) (simp add: start_codes.intros)
  next
    case False
    then show ?thesis by (intro exI [of _ "[]"]) (auto simp: start_codes.intros)
  qed
qed (auto intro: start_codes.intros)

lemma strip_start_code_codes:
  "\<exists>p. start_codes p \<and> xs = p @ h26x_util_strip_start_code xs"
proof -
  obtain p where p: "start_codes p" "xs = p @ strip4 xs" using strip4_codes by blast
  obtain q where q: "start_codes q" "strip4 xs = q @ strip3 (strip4 xs)" using strip3_codes by blast
  have "xs = (p @ q) @ h26x_util_strip_start_code xs"
    using p(2) q(2) by (simp add: h26x_util_strip_start_code_def)
  with start_codes_append [OF p(1) q(1)] show ?thesis by blast
qed

subsection \<open>Parameter-set cache\<close>

text \<open>Each set is a buffer with a length; the list holds the first \<open>len\<close> bytes.\<close>

record param_sets =
  ps_vps :: bytes
  ps_sps :: bytes
  ps_pps :: bytes

definition empty_params :: param_sets where
  "empty_params = \<lparr>ps_vps = [], ps_sps = [], ps_pps = []\<rparr>"

definition vps_cap :: nat where "vps_cap = 256"
definition sps_cap :: nat where "sps_cap = 512"
definition pps_cap :: nat where "pps_cap = 512"

definition h26x_param_sets_store :: "bytes \<Rightarrow> nat \<Rightarrow> bytes \<Rightarrow> bytes" where
  "h26x_param_sets_store dst cap src = (if src = [] \<or> length src \<ge> cap then dst else src)"

definition h26x_param_sets_update :: "param_sets \<Rightarrow> payload_type \<Rightarrow> u8 \<Rightarrow> bytes \<Rightarrow> param_sets" where
  "h26x_param_sets_update s codec ty nal =
     (if nal = [] then s
      else case codec of
        PT_H265 \<Rightarrow>
          (if ty = 32 then s\<lparr>ps_vps := h26x_param_sets_store (ps_vps s) vps_cap nal\<rparr>
           else if ty = 33 then s\<lparr>ps_sps := h26x_param_sets_store (ps_sps s) sps_cap nal\<rparr>
           else if ty = 34 then s\<lparr>ps_pps := h26x_param_sets_store (ps_pps s) pps_cap nal\<rparr>
           else s)
      | PT_H264 \<Rightarrow>
          (if ty = 7 then s\<lparr>ps_sps := h26x_param_sets_store (ps_sps s) sps_cap nal\<rparr>
           else if ty = 8 then s\<lparr>ps_pps := h26x_param_sets_store (ps_pps s) pps_cap nal\<rparr>
           else s))"

text \<open>Appending a reference when the set is present and there is room for it.\<close>

definition add_ref :: "nat \<Rightarrow> bytes \<Rightarrow> bytes list \<Rightarrow> bytes list" where
  "add_ref max_refs x refs = (if x \<noteq> [] \<and> length refs < max_refs then refs @ [x] else refs)"

definition h26x_param_sets_get_prepend ::
  "param_sets \<Rightarrow> payload_type \<Rightarrow> u8 \<Rightarrow> nat \<Rightarrow> bytes list" where
  "h26x_param_sets_get_prepend s codec ty max_refs =
     (if max_refs = 0 then []
      else case codec of
        PT_H265 \<Rightarrow>
          (if ty = 19 \<or> ty = 20
           then add_ref max_refs (ps_pps s) (add_ref max_refs (ps_sps s) (add_ref max_refs (ps_vps s) []))
           else [])
      | PT_H264 \<Rightarrow>
          (if ty = 5 then add_ref max_refs (ps_pps s) (add_ref max_refs (ps_sps s) []) else []))"

text \<open>The cached sets always fit their buffers.\<close>

definition params_ok :: "param_sets \<Rightarrow> bool" where
  "params_ok s \<longleftrightarrow> length (ps_vps s) < vps_cap \<and> length (ps_sps s) < sps_cap \<and> length (ps_pps s) < pps_cap"

lemma store_bound: "length dst < cap \<Longrightarrow> length (h26x_param_sets_store dst cap src) < cap"
  by (simp add: h26x_param_sets_store_def)

lemma params_update_ok: "params_ok s \<Longrightarrow> params_ok (h26x_param_sets_update s codec ty nal)"
  by (cases codec) (auto simp: params_ok_def h26x_param_sets_update_def store_bound)

lemma params_empty_ok: "params_ok empty_params"
  by (simp add: params_ok_def empty_params_def vps_cap_def sps_cap_def pps_cap_def)

lemma prepend_3:
  "h26x_param_sets_get_prepend s PT_H265 ty 3 =
    (if ty = 19 \<or> ty = 20 then filter (\<lambda>x. x \<noteq> []) [ps_vps s, ps_sps s, ps_pps s] else [])"
  by (auto simp: h26x_param_sets_get_prepend_def add_ref_def)

subsection \<open>RTP session defaults\<close>

definition rtp_session_frame_ticks :: "u32 \<Rightarrow> u32" where
  "rtp_session_frame_ticks fps = (if fps = 0 then 3000 else (90000 + fps div 2) div fps)"

definition rtp_session_payload_type :: "payload_type \<Rightarrow> u8" where
  "rtp_session_payload_type codec = (case codec of PT_H265 \<Rightarrow> 97 | PT_H264 \<Rightarrow> 96)"

record rtp_session =
  se_seq :: u16
  se_timestamp :: u32
  se_ssrc :: u32
  se_frame_ticks :: u32
  se_payload_type :: u8

text \<open>\<open>rtp_session_init\<close> with the four results of \<open>rand()\<close> as arguments.\<close>

definition rtp_session_init :: "u8 \<Rightarrow> u32 \<Rightarrow> u32 \<Rightarrow> u32 \<Rightarrow> u32 \<Rightarrow> u32 \<Rightarrow> rtp_session" where
  "rtp_session_init pt fps r1 r2 r3 r4 =
     \<lparr>se_seq = ucast (r1 AND 0xFFFF), se_timestamp = r2, se_ssrc = push_bit 16 r3 XOR r4,
      se_frame_ticks = rtp_session_frame_ticks fps, se_payload_type = pt\<rparr>"

text \<open>The tick count is 90000/fps rounded to the nearest integer.\<close>

lemma nearest_int:
  fixes x f :: int
  shows "2 * x \<le> 180000 + f \<Longrightarrow> 180000 < 2 * x + f + 1 \<Longrightarrow> 2 * \<bar>x - 90000\<bar> \<le> f"
  by (simp add: abs_if)

lemma frame_ticks_nearest:
  assumes "0 < unat fps" and "unat fps \<le> 90000"
  shows "2 * \<bar>int (unat (rtp_session_frame_ticks fps)) * int (unat fps) - 90000\<bar> \<le> int (unat fps)"
proof -
  let ?f = "unat fps"
  have "fps \<noteq> 0" using assms(1) by auto
  have h: "unat (fps div 2) = ?f div 2" by (simp add: unat_div)
  then have "unat (90000 + fps div 2) = 90000 + ?f div 2"
    using assms(2) by (simp add: unat_word_ariths)
  then have t: "unat (rtp_session_frame_ticks fps) = (90000 + ?f div 2) div ?f"
    using \<open>fps \<noteq> 0\<close> by (simp add: rtp_session_frame_ticks_def unat_div)
  let ?q = "(90000 + ?f div 2) div ?f"
  have m: "?q * ?f + (90000 + ?f div 2) mod ?f = 90000 + ?f div 2" by simp
  have "(90000 + ?f div 2) mod ?f < ?f" using assms(1) by simp
  then have "?q * ?f \<le> 90000 + ?f div 2" and "90000 + ?f div 2 < ?q * ?f + ?f" using m by linarith+
  then have "2 * (?q * ?f) \<le> 180000 + ?f" and "180000 < 2 * (?q * ?f) + ?f + 1" by linarith+
  then have "2 * int (?q * ?f) \<le> 180000 + int ?f" and "180000 < 2 * int (?q * ?f) + int ?f + 1"
    by linarith+
  then have "2 * \<bar>int (?q * ?f) - 90000\<bar> \<le> int ?f" by (rule nearest_int)
  then show ?thesis unfolding t by (simp only: of_nat_mult)
qed

end
