(* ===== verification/PacketSink.thy ===== *)
theory PacketSink imports Prelude begin

text \<open>
  The interface between the packetizers and whatever carries their packets: the writer
  callback \<open>RtpPacketizerWriteFn\<close> of \<open>include/rtp_packetizer.h\<close>. A writer takes a header and
  two payload parts and answers 0 or an error; \<open>'w\<close> is the state behind its opaque pointer.

  \<open>packet_sink\<close> is the contract every transport keeps: an accepted packet is appended,
  whole, to what was delivered, and a refused one leaves no trace.
  \<open>credit_sink\<close> is about the transports' capacity: \<open>credit mtu n w\<close> promises that the next
  \<open>n\<close> packets of at most \<open>mtu\<close> bytes are accepted.
\<close>

type_synonym 'w writer = "bytes \<Rightarrow> bytes \<Rightarrow> bytes \<Rightarrow> 'w \<Rightarrow> int \<times> 'w"

locale packet_sink =
  fixes send :: "'w writer"
    and delivered :: "'w \<Rightarrow> bytes list"
    and sink_ok :: "'w \<Rightarrow> bool"
  assumes accepted:
      "sink_ok w \<Longrightarrow> h \<noteq> [] \<Longrightarrow> a \<noteq> [] \<Longrightarrow> send h a b w = (0, w') \<Longrightarrow> delivered w' = delivered w @ [h @ a @ b]"
    and refused:
      "sink_ok w \<Longrightarrow> h \<noteq> [] \<Longrightarrow> a \<noteq> [] \<Longrightarrow> send h a b w = (rc, w') \<Longrightarrow> rc \<noteq> 0 \<Longrightarrow> delivered w' = delivered w"
    and sink_ok_step: "sink_ok w \<Longrightarrow> send h a b w = (rc, w') \<Longrightarrow> sink_ok w'"

locale credit_sink =
  fixes send :: "'w writer"
    and delivered :: "'w \<Rightarrow> bytes list"
    and credit :: "nat \<Rightarrow> nat \<Rightarrow> 'w \<Rightarrow> bool"
  assumes credit_accepts:
      "credit mtu (Suc n) w \<Longrightarrow> length h = 12 \<Longrightarrow> a \<noteq> [] \<Longrightarrow> length h + length a + length b \<le> mtu \<Longrightarrow>
       \<exists>w'. send h a b w = (0, w') \<and> delivered w' = delivered w @ [h @ a @ b] \<and> credit mtu n w'"
    and credit_weaken: "credit mtu (Suc n) w \<Longrightarrow> credit mtu n w"
begin

lemma credit_mono: "m \<le> n \<Longrightarrow> credit mtu n w \<Longrightarrow> credit mtu m w"
  by (induction n) (auto simp: le_Suc_eq dest: credit_weaken)

end

end
