(* ===== verification/RtpPacketizer.thy ===== *)
theory RtpPacketizer imports PacketSink H26x "HOL-Library.Sublist" begin

text \<open>
  The RTP packetizer (\<open>src/rtp_packetizer.c\<close>): single packets and the HEVC fragmentation
  units of RFC 7798, over an arbitrary writer, with the receiver's view of the same packets:
  a header parser and a depacketizer for single NAL units, aggregation packets (type 48) and
  fragmentation units (type 49).
\<close>

subsection \<open>State and operations\<close>

definition RTP_BUFFER_MAX :: nat where "RTP_BUFFER_MAX = 8192"

record rtp_state =
  rp_seq :: u16
  rp_timestamp :: u32
  rp_ssrc :: u32
  rp_payload_type :: u8

record rtp_result =
  rr_packet_count :: u32
  rr_payload_bytes :: u32
  rr_fragmented :: bool

definition rtp_result_reset :: rtp_result where
  "rtp_result_reset = \<lparr>rr_packet_count = 0, rr_payload_bytes = 0, rr_fragmented = False\<rparr>"

definition rtp_header :: "rtp_state \<Rightarrow> bool \<Rightarrow> bytes" where
  "rtp_header st marker =
     [0x80,
      (if marker then 0x80 else 0) OR (rp_payload_type st AND 0x7F),
      ucast (drop_bit 8 (rp_seq st) AND 0xFF),
      ucast (rp_seq st AND 0xFF),
      ucast (drop_bit 24 (rp_timestamp st) AND 0xFF),
      ucast (drop_bit 16 (rp_timestamp st) AND 0xFF),
      ucast (drop_bit 8 (rp_timestamp st) AND 0xFF),
      ucast (rp_timestamp st AND 0xFF),
      ucast (drop_bit 24 (rp_ssrc st) AND 0xFF),
      ucast (drop_bit 16 (rp_ssrc st) AND 0xFF),
      ucast (drop_bit 8 (rp_ssrc st) AND 0xFF),
      ucast (rp_ssrc st AND 0xFF)]"

definition rtp_packetizer_send_packet ::
  "'w writer \<Rightarrow> rtp_state \<Rightarrow> bytes \<Rightarrow> bytes \<Rightarrow> bool \<Rightarrow> 'w \<Rightarrow> int \<times> rtp_state \<times> 'w" where
  "rtp_packetizer_send_packet wr st payload1 payload2 marker w =
     (if payload1 = [] then (-1, st, w)
      else case wr (rtp_header st marker) payload1 payload2 w of (rc, w') \<Rightarrow>
        if rc \<noteq> 0 then (-1, st, w') else (0, st\<lparr>rp_seq := rp_seq st + 1\<rparr>, w'))"

text \<open>
  The fragmentation loop. \<open>mf\<close> is \<open>max_fragment\<close>; the caller ensures it is positive, the
  test for 0 only makes the recursion total.
\<close>

function fu_loop ::
  "'w writer \<Rightarrow> u8 \<Rightarrow> u8 \<Rightarrow> u8 \<Rightarrow> bool \<Rightarrow> nat \<Rightarrow> bool \<Rightarrow> rtp_state \<Rightarrow> rtp_result \<Rightarrow> nat \<Rightarrow> bytes \<Rightarrow> 'w
   \<Rightarrow> nat \<times> rtp_state \<times> rtp_result \<times> 'w" where
  "fu_loop wr ind0 ind1 ty is_last mf start st res tot payload w =
     (if payload = [] \<or> mf = 0 then (tot + 2, st, res, w)
      else
        let remaining = length payload;
            chunk = (if remaining > mf then mf else remaining);
            is_end = (remaining = chunk);
            marker = (is_end \<and> is_last);
            fu_hdr = [ind0, ind1,
                      (if start then 0x80 else 0) OR (if is_end then 0x40 else 0) OR (ty AND 0x3F)]
        in case rtp_packetizer_send_packet wr st fu_hdr (take chunk payload) marker w of (rc, st', w') \<Rightarrow>
          if rc \<noteq> 0 then (tot, st', res, w')
          else fu_loop wr ind0 ind1 ty is_last mf False st'
                 (res\<lparr>rr_packet_count := rr_packet_count res + 1,
                      rr_payload_bytes := rr_payload_bytes res + word_of_nat (chunk + 3),
                      rr_fragmented := True\<rparr>)
                 (tot + chunk) (drop chunk payload) w')"
  by pat_completeness auto
termination
  by (relation "measure (\<lambda>(wr, ind0, ind1, ty, l, mf, s, st, res, tot, payload, w). length payload)")
    (auto split: if_splits)

declare fu_loop.simps [simp del]

definition fu_indicator0 :: "u8 \<Rightarrow> u8 \<Rightarrow> u8" where
  "fu_indicator0 h0 h1 =
     (let layer = push_bit 5 (h0 AND 1) OR drop_bit 3 h1
      in (h0 AND 0x80) OR push_bit 1 49 OR (drop_bit 5 layer AND 1))"

definition fu_indicator1 :: "u8 \<Rightarrow> u8 \<Rightarrow> u8" where
  "fu_indicator1 h0 h1 =
     (let layer = push_bit 5 (h0 AND 1) OR drop_bit 3 h1
      in push_bit 3 (layer AND 0x1F) OR (h1 AND 7))"

definition rtp_packetizer_send_hevc_fu ::
  "'w writer \<Rightarrow> rtp_state \<Rightarrow> bytes \<Rightarrow> bool \<Rightarrow> nat \<Rightarrow> 'w \<Rightarrow> nat \<times> rtp_state \<times> rtp_result \<times> 'w" where
  "rtp_packetizer_send_hevc_fu wr st data is_last max_payload w =
     (if length data \<le> 2 \<or> max_payload \<le> 3 then (0, st, rtp_result_reset, w)
      else
        let mp = (if max_payload > RTP_BUFFER_MAX then RTP_BUFFER_MAX else max_payload);
            h0 = data ! 0; h1 = data ! 1
        in fu_loop wr (fu_indicator0 h0 h1) (fu_indicator1 h0 h1) (drop_bit 1 h0 AND 0x3F) is_last
             (mp - 3) True st rtp_result_reset 0 (drop 2 data) w)"

definition rtp_packetizer_send_hevc_nal ::
  "'w writer \<Rightarrow> rtp_state \<Rightarrow> bytes \<Rightarrow> bool \<Rightarrow> nat \<Rightarrow> 'w \<Rightarrow> nat \<times> rtp_state \<times> rtp_result \<times> 'w" where
  "rtp_packetizer_send_hevc_nal wr st data is_last max_payload w =
     (if data = [] then (0, st, rtp_result_reset, w)
      else if length data \<le> max_payload
      then case rtp_packetizer_send_packet wr st data [] is_last w of (rc, st', w') \<Rightarrow>
        if rc = 0
        then (length data, st', rtp_result_reset\<lparr>rr_packet_count := 1,
                rr_payload_bytes := word_of_nat (length data)\<rparr>, w')
        else (0, st', rtp_result_reset, w')
      else rtp_packetizer_send_hevc_fu wr st data is_last max_payload w)"

subsection \<open>What should be on the wire\<close>

text \<open>The packets a list of payloads with their marker bits becomes, numbered consecutively.\<close>

definition rtp_next :: "nat \<Rightarrow> rtp_state \<Rightarrow> rtp_state" where
  "rtp_next k st = st\<lparr>rp_seq := rp_seq st + word_of_nat k\<rparr>"

primrec rtp_stream :: "rtp_state \<Rightarrow> (bytes \<times> bool) list \<Rightarrow> bytes list" where
  "rtp_stream st [] = []"
| "rtp_stream st (pm # ps) = (rtp_header st (snd pm) @ fst pm) # rtp_stream (rtp_next 1 st) ps"

lemma rtp_next_0 [simp]: "rtp_next 0 st = st"
  by (simp add: rtp_next_def)

lemma rtp_next_next [simp]: "rtp_next j (rtp_next i st) = rtp_next (i + j) st"
  by (simp add: rtp_next_def ac_simps)

lemma rtp_next_fields [simp]:
  "rp_seq (rtp_next k st) = rp_seq st + word_of_nat k"
  "rp_timestamp (rtp_next k st) = rp_timestamp st"
  "rp_ssrc (rtp_next k st) = rp_ssrc st"
  "rp_payload_type (rtp_next k st) = rp_payload_type st"
  by (simp_all add: rtp_next_def)

lemma rtp_stream_append:
  "rtp_stream st (ps @ qs) = rtp_stream st ps @ rtp_stream (rtp_next (length ps) st) qs"
  by (induction ps arbitrary: st) simp_all

lemma rtp_stream_length [simp]: "length (rtp_stream st ps) = length ps"
  by (induction ps arbitrary: st) simp_all

lemma rtp_header_length [simp]: "length (rtp_header st m) = 12"
  by (simp add: rtp_header_def)

lemma rtp_header_ne [simp]: "rtp_header st m \<noteq> []"
  by (simp add: rtp_header_def)


text \<open>The payloads of a NAL unit: itself when it fits, its fragmentation units otherwise.\<close>

function fu_payloads :: "u8 \<Rightarrow> u8 \<Rightarrow> u8 \<Rightarrow> nat \<Rightarrow> bool \<Rightarrow> bytes \<Rightarrow> bytes list" where
  "fu_payloads ind0 ind1 ty mf start xs =
     (if xs = [] \<or> mf = 0 then []
      else ([ind0, ind1,
             (if start then 0x80 else 0) OR (if length xs \<le> mf then 0x40 else 0) OR (ty AND 0x3F)]
            @ take mf xs) # fu_payloads ind0 ind1 ty mf False (drop mf xs))"
  by pat_completeness auto
termination
  by (relation "measure (\<lambda>(ind0, ind1, ty, mf, s, xs). length xs)") auto

declare fu_payloads.simps [simp del]

fun mark_last :: "bool \<Rightarrow> bytes list \<Rightarrow> (bytes \<times> bool) list" where
  "mark_last m [] = []"
| "mark_last m [p] = [(p, m)]"
| "mark_last m (p # q # ps) = (p, False) # mark_last m (q # ps)"

definition nal_payloads :: "nat \<Rightarrow> bytes \<Rightarrow> bytes list" where
  "nal_payloads mp nal =
     (if length nal \<le> mp then [nal]
      else fu_payloads (fu_indicator0 (nal ! 0) (nal ! 1)) (fu_indicator1 (nal ! 0) (nal ! 1))
             (drop_bit 1 (nal ! 0) AND 0x3F) (mp - 3) True (drop 2 nal))"

lemma mark_last_fst [simp]: "map fst (mark_last m ps) = ps"
  by (induction m ps rule: mark_last.induct) simp_all

lemma mark_last_length [simp]: "length (mark_last m ps) = length ps"
  by (metis length_map mark_last_fst)

lemma mark_last_cons: "mark_last m (p # ps) = (p, m \<and> ps = []) # mark_last m ps"
  by (cases ps) auto

lemma mark_last_False: "mark_last False ps = map (\<lambda>p. (p, False)) ps"
  by (induction ps) (simp_all add: mark_last_cons)

lemma fu_payloads_size: "p \<in> set (fu_payloads i0 i1 ty mf s xs) \<Longrightarrow> 3 < length p \<and> length p \<le> 3 + mf"
  by (induction i0 i1 ty mf s xs rule: fu_payloads.induct)
    (subst (asm) (2) fu_payloads.simps, auto split: if_splits simp: Suc_le_eq)

lemma fu_payloads_eq_Nil: "0 < mf \<Longrightarrow> fu_payloads i0 i1 ty mf s xs = [] \<longleftrightarrow> xs = []"
  by (subst fu_payloads.simps) simp

lemma nal_payloads_size:
  assumes "3 < mp" and "nal \<noteq> []" and "p \<in> set (nal_payloads mp nal)"
  shows "p \<noteq> [] \<and> length p \<le> mp"
  using assms fu_payloads_size [of p] by (fastforce simp: nal_payloads_def split: if_splits)

lemma nal_payloads_ne: "3 < mp \<Longrightarrow> nal_payloads mp nal \<noteq> []"
  by (simp add: nal_payloads_def fu_payloads_eq_Nil)

subsection \<open>The packetizer over a sink\<close>

definition transmitted ::
  "('w \<Rightarrow> bytes list) \<Rightarrow> rtp_state \<Rightarrow> (bytes \<times> bool) list \<Rightarrow> 'w \<Rightarrow> rtp_state \<Rightarrow> 'w \<Rightarrow> bool" where
  "transmitted dl st ps w st' w' \<longleftrightarrow>
     dl w' = dl w @ rtp_stream st ps \<and> st' = rtp_next (length ps) st"

lemma transmitted_Nil [simp]: "transmitted dl st [] w st w"
  by (simp add: transmitted_def)

lemma transmitted_trans:
  "transmitted dl st ps w st1 w1 \<Longrightarrow> transmitted dl st1 qs w1 st2 w2 \<Longrightarrow> transmitted dl st (ps @ qs) w st2 w2"
  by (simp add: transmitted_def rtp_stream_append)

text \<open>The two recursions in step: the flags, the next payload and what is left.\<close>

definition fu_flag :: "bool \<Rightarrow> bool \<Rightarrow> u8 \<Rightarrow> u8" where
  "fu_flag start fin ty = (if start then 0x80 else 0) OR (if fin then 0x40 else 0) OR (ty AND 0x3F)"

definition fu_head :: "u8 \<Rightarrow> u8 \<Rightarrow> u8 \<Rightarrow> bool \<Rightarrow> bool \<Rightarrow> bytes" where
  "fu_head ind0 ind1 ty start fin =
     [ind0, ind1, fu_flag start fin ty]"

lemma fu_loop_done: "xs = [] \<or> mf = 0 \<Longrightarrow> fu_loop wr i0 i1 ty l mf s st res tot xs w = (tot + 2, st, res, w)"
  by (subst fu_loop.simps) simp

lemma fu_loop_step:
  assumes "xs \<noteq> []" and "0 < mf"
  shows "fu_loop wr i0 i1 ty l mf s st res tot xs w =
    (case rtp_packetizer_send_packet wr st (fu_head i0 i1 ty s (length xs \<le> mf)) (take mf xs)
            (length xs \<le> mf \<and> l) w of (rc, st', w') \<Rightarrow>
       if rc \<noteq> 0 then (tot, st', res, w')
       else fu_loop wr i0 i1 ty l mf False st'
         (res\<lparr>rr_packet_count := rr_packet_count res + 1,
              rr_payload_bytes := rr_payload_bytes res + word_of_nat (length (take mf xs) + 3),
              rr_fragmented := True\<rparr>)
         (tot + length (take mf xs)) (drop mf xs) w')"
proof (cases "length xs \<le> mf")
  case True
  then show ?thesis using assms by (subst fu_loop.simps) (simp add: Let_def fu_head_def fu_flag_def split: prod.split)
next
  case False
  then have "length (take mf xs) = mf" "length xs > mf" "length xs \<noteq> mf" by auto
  then show ?thesis using assms False
    by (subst fu_loop.simps) (simp add: Let_def fu_head_def fu_flag_def del: length_take split: prod.split)
qed

lemma fu_payloads_step:
  "xs \<noteq> [] \<Longrightarrow> 0 < mf \<Longrightarrow> fu_payloads i0 i1 ty mf s xs =
    (fu_head i0 i1 ty s (length xs \<le> mf) @ take mf xs) # fu_payloads i0 i1 ty mf False (drop mf xs)"
  by (subst fu_payloads.simps) (simp add: fu_head_def fu_flag_def)

lemma fu_payloads_done: "xs = [] \<or> mf = 0 \<Longrightarrow> fu_payloads i0 i1 ty mf s xs = []"
  by (subst fu_payloads.simps) simp

lemma mark_fu_step:
  "xs \<noteq> [] \<Longrightarrow> 0 < mf \<Longrightarrow> mark_last l (fu_payloads i0 i1 ty mf s xs) =
    (fu_head i0 i1 ty s (length xs \<le> mf) @ take mf xs, length xs \<le> mf \<and> l)
    # mark_last l (fu_payloads i0 i1 ty mf False (drop mf xs))"
  by (subst fu_payloads_step) (auto simp: mark_last_cons fu_payloads_eq_Nil)

text \<open>Induction over the payload in steps of \<open>mf\<close> bytes.\<close>

lemma fragment_induct [case_names stop step]:
  assumes "\<And>xs. xs = [] \<or> mf = 0 \<Longrightarrow> P xs"
    and "\<And>xs. xs \<noteq> [] \<Longrightarrow> 0 < mf \<Longrightarrow> P (drop mf xs) \<Longrightarrow> P xs"
  shows "P (xs :: 'a list)"
proof (induction xs rule: length_induct)
  case (1 xs)
  show ?case
  proof (cases "xs = [] \<or> mf = 0")
    case False
    then have "P (drop mf xs)" using 1 by (simp add: diff_less)
    with False assms(2) show ?thesis by simp
  qed (use assms(1) in simp)
qed

context packet_sink
begin

lemma send_packet_transmits:
  assumes "sink_ok w" and "rtp_packetizer_send_packet send st p q m w = (rc, st', w')"
  shows "sink_ok w' \<and> (rc = 0 \<or> rc = -1)
    \<and> transmitted delivered st (if rc = 0 then [(p @ q, m)] else []) w st' w' \<and> (rc = 0 \<longrightarrow> p \<noteq> [])"
  using assms accepted [OF assms(1) rtp_header_ne, of p st m q]
    refused [OF assms(1) rtp_header_ne, of p st m q] sink_ok_step [OF assms(1)]
  by (auto simp: rtp_packetizer_send_packet_def transmitted_def rtp_next_def
      split: if_splits prod.splits)

text \<open>Whatever the sink refuses, what it accepts is numbered without a gap.\<close>

lemma fu_loop_subseq:
  assumes "sink_ok w" and "fu_loop send i0 i1 ty l mf s st res tot xs w = (n, st', res', w')"
  shows "sink_ok w' \<and> (\<exists>qs. subseq qs (mark_last l (fu_payloads i0 i1 ty mf s xs))
    \<and> transmitted delivered st qs w st' w')"
  using assms
proof (induction xs arbitrary: s st res tot w rule: fragment_induct [where mf = mf])
  case (stop xs)
  then show ?case by (auto simp: fu_loop_done fu_payloads_done)
next
  case (step xs)
  let ?h = "fu_head i0 i1 ty s (length xs \<le> mf)" and ?m = "length xs \<le> mf \<and> l"
  obtain rc st1 w1 where p: "rtp_packetizer_send_packet send st ?h (take mf xs) ?m w = (rc, st1, w1)"
    by (metis prod_cases3)
  note t = send_packet_transmits [OF step.prems(1) p]
  show ?case
  proof (cases "rc = 0")
    case False
    with step.prems step.hyps p t show ?thesis
      by (auto simp: fu_loop_step intro!: exI [of _ "[]"])
  next
    case True
    define res1 where "res1 = res\<lparr>rr_packet_count := rr_packet_count res + 1,
      rr_payload_bytes := rr_payload_bytes res + word_of_nat (length (take mf xs) + 3), rr_fragmented := True\<rparr>"
    have "fu_loop send i0 i1 ty l mf False st1 res1 (tot + length (take mf xs)) (drop mf xs) w1
        = (n, st', res', w')"
      using step.prems(2) step.hyps p True by (simp add: fu_loop_step res1_def)
    from step.IH [OF conjunct1 [OF t] this] obtain qs where
      "sink_ok w'" and q: "subseq qs (mark_last l (fu_payloads i0 i1 ty mf False (drop mf xs)))"
      and "transmitted delivered st1 qs w1 st' w'" by blast
    with t True have "transmitted delivered st ([(?h @ take mf xs, ?m)] @ qs) w st' w'"
      by (intro transmitted_trans [of _ _ _ _ st1 w1]) simp_all
    moreover have "subseq ([(?h @ take mf xs, ?m)] @ qs) (mark_last l (fu_payloads i0 i1 ty mf s xs))"
      using step.hyps q by (simp add: mark_fu_step)
    ultimately show ?thesis using \<open>sink_ok w'\<close> by blast
  qed
qed

lemma send_hevc_nal_numbered:
  assumes "sink_ok w" and "rtp_packetizer_send_hevc_nal send st nal l mp w = (n, st', res, w')"
  shows "sink_ok w' \<and> (\<exists>qs. transmitted delivered st qs w st' w')"
proof (cases "nal = [] \<or> length nal \<le> mp")
  case True
  then show ?thesis
    using assms send_packet_transmits [OF assms(1), of st nal "[]" l]
    by (auto simp: rtp_packetizer_send_hevc_nal_def split: prod.splits if_splits
        intro: exI [of _ "[]"] exI [of _ "[(nal, l)]"])
next
  case False
  have none: "\<exists>qs. transmitted delivered st qs w st w" by (rule exI [of _ "[]"]) simp
  show ?thesis
  proof (cases "length nal \<le> 2 \<or> mp \<le> 3")
    case True
    with False assms none show ?thesis
      by (auto simp: rtp_packetizer_send_hevc_nal_def rtp_packetizer_send_hevc_fu_def)
  next
    case long: False
    from assms(2) False long fu_loop_subseq [OF assms(1)] show ?thesis
      unfolding rtp_packetizer_send_hevc_nal_def rtp_packetizer_send_hevc_fu_def Let_def
      by (metis (no_types, lifting))
  qed
qed

end

text \<open>With credit for all its packets, the whole NAL unit is delivered.\<close>

context credit_sink
begin

lemma send_packet_credit:
  assumes "credit mtu (Suc n) w" and "p \<noteq> []" and "12 + length p + length q \<le> mtu"
  shows "\<exists>w'. rtp_packetizer_send_packet send st p q m w = (0, rtp_next 1 st, w') \<and> credit mtu n w'
    \<and> transmitted delivered st [(p @ q, m)] w (rtp_next 1 st) w'"
proof -
  obtain w' where w': "send (rtp_header st m) p q w = (0, w')" "credit mtu n w'"
    "delivered w' = delivered w @ [rtp_header st m @ p @ q]"
    using credit_accepts [OF assms(1) rtp_header_length assms(2), of st m q] assms(3) by auto
  then have "rtp_packetizer_send_packet send st p q m w = (0, rtp_next 1 st, w')"
    using assms(2) by (simp add: rtp_packetizer_send_packet_def rtp_next_def)
  with w' show ?thesis by (simp add: transmitted_def)
qed

lemma fu_loop_credit:
  assumes "credit mtu (length (fu_payloads i0 i1 ty mf s xs) + n) w" and "15 + mf \<le> mtu" and "0 < mf"
  shows "\<exists>st' res' w'. fu_loop send i0 i1 ty l mf s st res tot xs w = (tot + length xs + 2, st', res', w')
    \<and> credit mtu n w' \<and> transmitted delivered st (mark_last l (fu_payloads i0 i1 ty mf s xs)) w st' w'"
  using assms
proof (induction xs arbitrary: s st res tot w rule: fragment_induct [where mf = mf])
  case (stop xs)
  then show ?case by (simp add: fu_loop_done fu_payloads_done)
next
  case (step xs)
  let ?h = "fu_head i0 i1 ty s (length xs \<le> mf)" and ?m = "length xs \<le> mf \<and> l"
  let ?rest = "fu_payloads i0 i1 ty mf False (drop mf xs)"
  have "credit mtu (Suc (length ?rest + n)) w"
    using step.prems(1) step.hyps by (simp add: fu_payloads_step)
  from send_packet_credit [OF this, of ?h "take mf xs" st ?m] step.prems(2)
  obtain w1 where p: "rtp_packetizer_send_packet send st ?h (take mf xs) ?m w = (0, rtp_next 1 st, w1)"
    and c: "credit mtu (length ?rest + n) w1"
    and t: "transmitted delivered st [(?h @ take mf xs, ?m)] w (rtp_next 1 st) w1"
    by (fastforce simp: fu_head_def)
  define res1 where "res1 = res\<lparr>rr_packet_count := rr_packet_count res + 1,
    rr_payload_bytes := rr_payload_bytes res + word_of_nat (length (take mf xs) + 3), rr_fragmented := True\<rparr>"
  from step.IH [OF c step.prems(2,3), of "rtp_next 1 st" res1 "tot + length (take mf xs)"]
  obtain st' res' w' where l: "fu_loop send i0 i1 ty l mf False (rtp_next 1 st) res1
      (tot + length (take mf xs)) (drop mf xs) w1 = (tot + length xs + 2, st', res', w')"
    and c': "credit mtu n w'" and t': "transmitted delivered (rtp_next 1 st) (mark_last l ?rest) w1 st' w'"
    by (auto simp: min_def split: if_splits)
  from transmitted_trans [OF t t'] have
    "transmitted delivered st (mark_last l (fu_payloads i0 i1 ty mf s xs)) w st' w'"
    using step.hyps by (simp add: mark_fu_step)
  with l c' p step.hyps show ?case by (simp add: fu_loop_step res1_def)
qed

lemma send_hevc_nal_credit:
  assumes "credit mtu (length (nal_payloads mp nal) + n) w" and "nal \<noteq> []"
    and "3 < mp" and "mp \<le> RTP_BUFFER_MAX" and "12 + mp \<le> mtu"
  shows "\<exists>st' res w'. rtp_packetizer_send_hevc_nal send st nal l mp w = (length nal, st', res, w')
    \<and> credit mtu n w' \<and> transmitted delivered st (mark_last l (nal_payloads mp nal)) w st' w'"
proof (cases "length nal \<le> mp")
  case True
  then have "credit mtu (Suc n) w" using assms(1) by (simp add: nal_payloads_def)
  from send_packet_credit [OF this assms(2), of "[]" st l] assms True show ?thesis
    by (auto simp: rtp_packetizer_send_hevc_nal_def nal_payloads_def)
next
  case False
  then have "\<not> length nal \<le> 2" using assms(3) by linarith
  moreover have "15 + (mp - 3) \<le> mtu" "0 < mp - 3" using assms by auto
  ultimately show ?thesis
    using False assms fu_loop_credit [of mtu "fu_indicator0 (nal ! 0) (nal ! 1)"
        "fu_indicator1 (nal ! 0) (nal ! 1)" "drop_bit 1 (nal ! 0) AND 0x3F" "mp - 3" True "drop 2 nal" n w
        l st rtp_result_reset 0]
    by (auto simp: rtp_packetizer_send_hevc_nal_def rtp_packetizer_send_hevc_fu_def nal_payloads_def
        Let_def)
qed

end

subsection \<open>The receiver\<close>

text \<open>The fixed header of RFC 3550: marker, payload type, sequence number, timestamp, SSRC, payload.\<close>

fun rtp_parse :: "bytes \<Rightarrow> (bool \<times> u8 \<times> u16 \<times> u32 \<times> u32 \<times> bytes) option" where
  "rtp_parse (b0 # b1 # s0 # s1 # t0 # t1 # t2 # t3 # c0 # c1 # c2 # c3 # p) =
     (if b0 = 0x80
      then Some (bit b1 7, b1 AND 0x7F, be16 s0 s1, be32 t0 t1 t2 t3, be32 c0 c1 c2 c3, p)
      else None)"
| "rtp_parse _ = None"

lemma rtp_parse_header:
  "rtp_parse (rtp_header st m @ p) =
     Some (m, rp_payload_type st AND 0x7F, rp_seq st, rp_timestamp st, rp_ssrc st, p)"
proof -
  let ?b = "(if m then 0x80 else 0) OR (rp_payload_type st AND 0x7F)"
  have "bit ?b 7 = m" by (simp add: byte_simps)
  moreover have "?b AND 0x7F = rp_payload_type st AND 0x7F"
    by (rule u8_eqI; simp add: byte_simps)
  ultimately show ?thesis by (simp add: rtp_header_def be16_split be32_split)
qed

text \<open>
  Depacketization of RFC 7798 payloads: \<open>pend\<close> is the fragmented NAL unit in progress.
\<close>

fun ap_split :: "bytes \<Rightarrow> bytes list" where
  "ap_split (a # b # xs) = take (unat (be16 a b)) xs # ap_split (drop (unat (be16 a b)) xs)"
| "ap_split _ = []"

definition rtp_hevc_type :: "bytes \<Rightarrow> u8" where
  "rtp_hevc_type p = drop_bit 1 (p ! 0) AND 0x3F"

definition fu_collect :: "bytes \<Rightarrow> bytes \<Rightarrow> bytes" where
  "fu_collect pend p =
     (if bit (p ! 2) 7
      then [(p ! 0 AND 0x81) OR push_bit 1 (p ! 2 AND 0x3F), p ! 1] @ drop 3 p
      else pend @ drop 3 p)"

fun depay :: "bytes \<Rightarrow> bytes list \<Rightarrow> bytes list" where
  "depay pend [] = []"
| "depay pend (p # ps) =
     (if rtp_hevc_type p = 49
      then (if bit (p ! 2) 6 then fu_collect pend p # depay [] ps else depay (fu_collect pend p) ps)
      else if rtp_hevc_type p = 48 then ap_split (drop 2 p) @ depay [] ps
      else p # depay [] ps)"

lemma fu_type: "drop_bit 1 (fu_indicator0 h0 h1) AND 0x3F = 49"
  unfolding fu_indicator0_def Let_def by (rule u8_eqI; simp add: byte_simps)

lemma fu_header0: "(fu_indicator0 h0 h1 AND 0x81) OR push_bit 1 (drop_bit 1 h0 AND 0x3F) = h0"
  unfolding fu_indicator0_def Let_def by (rule u8_eqI; simp add: byte_simps)

lemma fu_header1: "fu_indicator1 h0 h1 = h1"
  unfolding fu_indicator1_def Let_def by (rule u8_eqI; simp add: byte_simps)

lemma fu_flags:
  shows "bit (fu_flag s e ty) 7 = s" and "bit (fu_flag s e ty) 6 = e"
    and "fu_flag s e ty AND 0x3F = ty AND 0x3F"
proof -
  show "fu_flag s e ty AND 0x3F = ty AND 0x3F"
    unfolding fu_flag_def by (rule u8_eqI; simp add: byte_simps)
qed (simp_all add: byte_simps fu_flag_def)

lemma fu_head_collect:
  "fu_collect pend (fu_head (fu_indicator0 h0 h1) (fu_indicator1 h0 h1) (drop_bit 1 h0 AND 0x3F) s e @ xs)
    = (if s then [h0, h1] else pend) @ xs"
proof -
  define ty where "ty = drop_bit 1 h0 AND 0x3F"
  have "ty AND 0x3F = ty" by (simp add: ty_def and.assoc)
  moreover have "(fu_indicator0 h0 h1 AND 0x81) OR push_bit 1 ty = h0"
    unfolding ty_def by (rule fu_header0)
  ultimately show ?thesis
    unfolding ty_def [symmetric] by (simp add: fu_collect_def fu_head_def fu_flags fu_header1)
qed

lemma fu_head_type:
  "rtp_hevc_type (fu_head (fu_indicator0 h0 h1) i1 ty s e @ xs) = 49"
  "bit ((fu_head i0 i1 ty s e @ xs) ! 2) 6 = e"
  using fu_type [of h0 h1] by (simp_all add: rtp_hevc_type_def fu_head_def fu_flags)

lemma depay_fu:
  assumes "0 < mf" and "xs \<noteq> []"
  shows "depay pend (fu_payloads (fu_indicator0 h0 h1) (fu_indicator1 h0 h1) (drop_bit 1 h0 AND 0x3F)
      mf s xs @ ps) = (if s then [h0, h1] @ xs else pend @ xs) # depay [] ps"
  using assms(2)
proof (induction xs arbitrary: s pend rule: fragment_induct [where mf = mf])
  case (step xs)
  show ?case
  proof (cases "length xs \<le> mf")
    case True
    then have t: "drop mf xs = []" "take mf xs = xs" by simp_all
    show ?thesis
      unfolding fu_payloads_step [OF step.hyps(1,2)] t
      by (simp only: True fu_payloads_done append_Cons append_Nil depay.simps
          fu_head_type fu_head_collect simp_thms) simp
  next
    case False
    then have "drop mf xs \<noteq> []" by simp
    note IH = step.IH [OF this, of "(if s then [h0, h1] else pend) @ take mf xs" False]
    show ?thesis
      unfolding fu_payloads_step [OF step.hyps(1,2)]
      using IH by (simp only: False append_Cons append_Nil depay.simps fu_head_type fu_head_collect
          simp_thms) simp
  qed
qed (use assms in simp)

lemma depay_nal:
  assumes "3 < mp" and "rtp_hevc_type nal \<notin> {48, 49}"
  shows "depay pend (nal_payloads mp nal @ ps) = nal # depay [] ps"
proof (cases "length nal \<le> mp")
  case True
  with assms show ?thesis by (simp add: nal_payloads_def)
next
  case False
  then have "3 < length nal" using assms(1) by linarith
  then obtain h0 h1 body where n: "nal = h0 # h1 # body"
    by (cases nal rule: remdups_adj.cases) auto
  with \<open>3 < length nal\<close> have "body \<noteq> []" by auto
  have "depay pend (fu_payloads (fu_indicator0 h0 h1) (fu_indicator1 h0 h1) (drop_bit 1 h0 AND 0x3F)
      (mp - 3) True body @ ps) = ([h0, h1] @ body) # depay [] ps"
    using depay_fu [of "mp - 3" body pend h0 h1 True ps] assms(1) \<open>body \<noteq> []\<close> by (simp only:) simp
  with False n show ?thesis by (simp add: nal_payloads_def)
qed

end
