(* ===== verification/EncoderStream.thy ===== *)
theory EncoderStream imports Prelude begin

text \<open>
  The encoder's output frames (\<open>MI_VENC_Stream_t\<close>, i.e. \<open>i6_venc_strm\<close> and \<open>i6_venc_pack\<close> of
  \<open>include/sigmastar_types.h\<close>) as the consumers read them: a frame is a list of packs, a pack a
  buffer with a table of at most eight NAL units in it. Sizes are unsigned and only compared
  and subtracted under a guard, so they are naturals here.
\<close>

record pack_info =
  pi_nal_type :: u8
  pi_offset :: nat
  pi_length :: nat

record venc_pack =
  pk_data :: "bytes option"
  pk_length :: nat
  pk_timestamp :: u64
  pk_nal_type :: u8
  pk_offset :: nat
  pk_num :: nat
  pk_info :: "pack_info list"

type_synonym venc_stream = "venc_pack list"

text \<open>What the driver promises: eight table entries, and \<open>length\<close> bytes behind \<open>data\<close>.\<close>

definition pack_wf :: "venc_pack \<Rightarrow> bool" where
  "pack_wf p \<longleftrightarrow> length (pk_info p) = 8 \<and> (case pk_data p of None \<Rightarrow> True | Some d \<Rightarrow> pk_length p = length d)"

definition slice :: "nat \<Rightarrow> nat \<Rightarrow> 'a list \<Rightarrow> 'a list" where
  "slice off len xs = take len (drop off xs)"

text \<open>
  The bounds test every consumer makes on a table entry, and on a pack without a table
  (\<open>None\<close>: the entry is skipped).
\<close>

definition info_bytes :: "bytes \<Rightarrow> nat \<Rightarrow> pack_info \<Rightarrow> bytes option" where
  "info_bytes d plen i =
     (if pi_length i = 0 \<or> pi_offset i \<ge> plen \<or> pi_length i > plen - pi_offset i then None
      else Some (slice (pi_offset i) (pi_length i) d))"

definition whole_bytes :: "bytes \<Rightarrow> venc_pack \<Rightarrow> bytes option" where
  "whole_bytes d p =
     (if pk_length p \<le> pk_offset p then None
      else Some (slice (pk_offset p) (pk_length p - pk_offset p) d))"

definition info_count :: "venc_pack \<Rightarrow> nat" where
  "info_count p = (if pk_num p > 8 then 8 else pk_num p)"

text \<open>The guard keeps every read inside the pack's buffer.\<close>

lemma info_bytes_inside:
  "info_bytes d plen i = Some x \<Longrightarrow> plen \<le> length d \<Longrightarrow>
    length x = pi_length i \<and> x \<noteq> [] \<and> pi_offset i + pi_length i \<le> length d"
  by (auto simp: info_bytes_def slice_def split: if_splits)

lemma whole_bytes_inside:
  "whole_bytes d p = Some x \<Longrightarrow> pk_length p \<le> length d \<Longrightarrow>
    length x = pk_length p - pk_offset p \<and> x \<noteq> []"
  by (auto simp: whole_bytes_def slice_def split: if_splits)

end
