(* ===== verification/HevcRtp.thy ===== *)
theory HevcRtp imports RtpPacketizer EncoderStream begin

text \<open>
  Sending one encoder frame as HEVC RTP packets (\<open>src/star6e_hevc_rtp.c\<close>): small NAL units
  are queued in an aggregation packet, larger ones are sent alone or fragmented, and the
  cached VPS, SPS and PPS go out before every IDR picture.
\<close>

subsection \<open>Aggregation packets and statistics\<close>

text \<open>
  \<open>ap_payload\<close> is the first \<open>payload_len\<close> bytes of the builder's buffer; its two header bytes
  are written by the flush.
\<close>

record hevc_ap =
  ap_payload :: bytes
  ap_nal_bytes :: nat
  ap_nal_count :: u16
  ap_forbidden_zero :: u8
  ap_layer_id :: u8
  ap_tid_plus1 :: u8

record hevc_rtp_stats =
  hs_total_nals :: u32
  hs_single_packets :: u32
  hs_ap_packets :: u32
  hs_ap_nals :: u32
  hs_fu_packets :: u32
  hs_rtp_packets :: u32
  hs_rtp_payload_bytes :: u32

definition star6e_hevc_rtp_apply_stats :: "hevc_rtp_stats \<Rightarrow> rtp_result \<Rightarrow> hevc_rtp_stats" where
  "star6e_hevc_rtp_apply_stats stats r =
     (if rr_packet_count r = 0 then stats
      else
        let s1 = (if rr_fragmented r
                  then stats\<lparr>hs_fu_packets := hs_fu_packets stats + rr_packet_count r\<rparr>
                  else stats\<lparr>hs_single_packets := hs_single_packets stats + rr_packet_count r\<rparr>)
        in s1\<lparr>hs_rtp_packets := hs_rtp_packets s1 + rr_packet_count r,
              hs_rtp_payload_bytes := hs_rtp_payload_bytes s1 + rr_payload_bytes r\<rparr>)"

definition hevc_ap_reset :: hevc_ap where
  "hevc_ap_reset = \<lparr>ap_payload = [], ap_nal_bytes = 0, ap_nal_count = 0, ap_forbidden_zero = 0,
     ap_layer_id = 0, ap_tid_plus1 = 1\<rparr>"

definition hevc_ap_can_add :: "hevc_ap \<Rightarrow> nat \<Rightarrow> nat \<Rightarrow> bool" where
  "hevc_ap_can_add ap nal_len max_payload =
     (if nal_len = 0 \<or> nal_len > 65535 then False
      else (if ap_nal_count ap = 0 then 2 else length (ap_payload ap)) + 2 + nal_len \<le> max_payload)"

definition hevc_ap_add :: "hevc_ap \<Rightarrow> bytes \<Rightarrow> hevc_ap" where
  "hevc_ap_add ap nal =
     (if nal = [] then ap
      else
        let layer = h26x_util_hevc_get_layer_id nal;
            tid = h26x_util_hevc_get_tid_plus1 nal;
            ap1 = (if ap_nal_count ap = 0
                   then ap\<lparr>ap_payload := [0, 0], ap_forbidden_zero := nal ! 0 AND 0x80,
                           ap_layer_id := layer, ap_tid_plus1 := tid\<rparr>
                   else ap\<lparr>ap_forbidden_zero := ap_forbidden_zero ap OR (nal ! 0 AND 0x80),
                           ap_layer_id := (if layer < ap_layer_id ap then layer else ap_layer_id ap),
                           ap_tid_plus1 := (if tid < ap_tid_plus1 ap then tid else ap_tid_plus1 ap)\<rparr>)
        in ap1\<lparr>ap_payload := ap_payload ap1 @
                   [word_of_nat (length nal div 256), word_of_nat (length nal)] @ nal,
               ap_nal_bytes := ap_nal_bytes ap1 + length nal,
               ap_nal_count := ap_nal_count ap1 + 1\<rparr>)"

subsection \<open>Sending NAL units\<close>

definition send_rtp_packet ::
  "'w writer \<Rightarrow> bytes \<Rightarrow> rtp_state \<Rightarrow> bool \<Rightarrow> 'w \<Rightarrow> int \<times> rtp_state \<times> 'w" where
  "send_rtp_packet wr p st marker w =
     (if p = [] then (0, st, w) else rtp_packetizer_send_packet wr st p [] marker w)"

text \<open>What an operation changes besides the sink: the builder, the RTP state, the statistics.\<close>

type_synonym 'w hevc_ctx = "hevc_ap \<times> rtp_state \<times> hevc_rtp_stats \<times> 'w"

definition ap_header0 :: "hevc_ap \<Rightarrow> u8" where
  "ap_header0 ap = ap_forbidden_zero ap OR push_bit 1 48 OR (drop_bit 5 (ap_layer_id ap) AND 1)"

definition ap_header1 :: "hevc_ap \<Rightarrow> u8" where
  "ap_header1 ap = push_bit 3 (ap_layer_id ap AND 0x1F) OR (ap_tid_plus1 ap AND 7)"

definition hevc_ap_flush :: "'w writer \<Rightarrow> bool \<Rightarrow> 'w hevc_ctx \<Rightarrow> nat \<times> 'w hevc_ctx" where
  "hevc_ap_flush wr marker = (\<lambda>(ap, st, stats, w).
     if ap_nal_count ap = 0 then (0, ap, st, stats, w)
     else if ap_nal_count ap = 1
     then
       let nal_len = unat (be16 (ap_payload ap ! 2) (ap_payload ap ! 3));
           nal = slice 4 nal_len (ap_payload ap)
       in case send_rtp_packet wr nal st marker w of (rc, st', w') \<Rightarrow>
         if rc = 0
         then (nal_len, hevc_ap_reset, st',
               stats\<lparr>hs_single_packets := hs_single_packets stats + 1,
                     hs_rtp_packets := hs_rtp_packets stats + 1,
                     hs_rtp_payload_bytes := hs_rtp_payload_bytes stats + word_of_nat nal_len\<rparr>, w')
         else (0, hevc_ap_reset, st', stats, w')
     else
       let payload = (ap_payload ap)[0 := ap_header0 ap, 1 := ap_header1 ap]
       in case send_rtp_packet wr payload st marker w of (rc, st', w') \<Rightarrow>
         if rc = 0
         then (ap_nal_bytes ap, hevc_ap_reset, st',
               stats\<lparr>hs_ap_packets := hs_ap_packets stats + 1,
                     hs_ap_nals := hs_ap_nals stats + ucast (ap_nal_count ap),
                     hs_rtp_packets := hs_rtp_packets stats + 1,
                     hs_rtp_payload_bytes := hs_rtp_payload_bytes stats + word_of_nat (length payload)\<rparr>, w')
         else (0, hevc_ap_reset, st', stats, w'))"

definition send_nal_rtp_hevc :: "'w writer \<Rightarrow> bytes \<Rightarrow> bool \<Rightarrow> nat \<Rightarrow> 'w hevc_ctx \<Rightarrow> nat \<times> 'w hevc_ctx" where
  "send_nal_rtp_hevc wr data is_last max_payload = (\<lambda>(ap, st, stats, w).
     if data = [] then (0, ap, st, stats, w)
     else case rtp_packetizer_send_hevc_nal wr st data is_last max_payload w of (n, st', res, w') \<Rightarrow>
       (n, ap, st', star6e_hevc_rtp_apply_stats stats res, w'))"

definition send_or_queue_nal_rtp_hevc ::
  "'w writer \<Rightarrow> bytes \<Rightarrow> bool \<Rightarrow> nat \<Rightarrow> 'w hevc_ctx \<Rightarrow> nat \<times> 'w hevc_ctx" where
  "send_or_queue_nal_rtp_hevc wr data is_last max_payload = (\<lambda>(ap, st, stats0, w).
     if data = [] then (0, ap, st, stats0, w)
     else
       let stats = stats0\<lparr>hs_total_nals := hs_total_nals stats0 + 1\<rparr> in
       if length data > max_payload \<or> length data > 65535
       then case hevc_ap_flush wr False (ap, st, stats, w) of (n1, c1) \<Rightarrow>
            case send_nal_rtp_hevc wr data is_last max_payload c1 of (n2, c2) \<Rightarrow> (n1 + n2, c2)
       else
         case (if \<not> hevc_ap_can_add ap (length data) max_payload
               then hevc_ap_flush wr False (ap, st, stats, w) else (0, ap, st, stats, w))
           of (n1, (ap1, st1, stats1, w1)) \<Rightarrow>
         if \<not> hevc_ap_can_add ap1 (length data) max_payload
         then case send_nal_rtp_hevc wr data is_last max_payload (ap1, st1, stats1, w1) of (n2, c2) \<Rightarrow>
              (n1 + n2, c2)
         else
           let ap2 = hevc_ap_add ap1 data in
           if is_last
           then case hevc_ap_flush wr True (ap2, st1, stats1, w1) of (n2, c2) \<Rightarrow> (n1 + n2, c2)
           else (n1, ap2, st1, stats1, w1))"

text \<open>The loop over the prepended parameter sets, or any list of NAL units that are not last.\<close>

primrec queue_nals :: "'w writer \<Rightarrow> nat \<Rightarrow> bytes list \<Rightarrow> 'w hevc_ctx \<Rightarrow> nat \<times> 'w hevc_ctx" where
  "queue_nals wr max_payload [] c = (0, c)"
| "queue_nals wr max_payload (x # xs) c =
     (case send_or_queue_nal_rtp_hevc wr x False max_payload c of (n1, c1) \<Rightarrow>
      case queue_nals wr max_payload xs c1 of (n2, c2) \<Rightarrow> (n1 + n2, c2))"

definition send_prepend_param_sets_hevc ::
  "'w writer \<Rightarrow> param_sets \<Rightarrow> u8 \<Rightarrow> nat \<Rightarrow> 'w hevc_ctx \<Rightarrow> nat \<times> 'w hevc_ctx" where
  "send_prepend_param_sets_hevc wr params ty max_payload c =
     queue_nals wr max_payload (h26x_param_sets_get_prepend params PT_H265 ty 3) c"

subsection \<open>A frame\<close>

text \<open>
  The two nested loops first find the NAL units of the frame (a pure function of the stream:
  the \<open>continue\<close> branches) with their type and whether they are the last one, then send each.
\<close>

definition nal_unit :: "u8 option \<Rightarrow> bool \<Rightarrow> bytes option \<Rightarrow> (u8 \<times> bytes \<times> bool) list" where
  "nal_unit ty last_nal data = (case data of None \<Rightarrow> [] | Some d \<Rightarrow>
     let nal = h26x_util_strip_start_code d in
     if nal = [] then []
     else [(case ty of None \<Rightarrow> h26x_util_hevc_nalu_type nal | Some t \<Rightarrow> t, nal, last_nal)])"

definition pack_units :: "bool \<Rightarrow> venc_pack \<Rightarrow> (u8 \<times> bytes \<times> bool) list" where
  "pack_units last_pack p = (case pk_data p of None \<Rightarrow> [] | Some d \<Rightarrow>
     if pk_num p > 0
     then concat (map (\<lambda>k. nal_unit (Some (pi_nal_type (pk_info p ! k))) (last_pack \<and> k = info_count p - 1)
                       (info_bytes d (pk_length p) (pk_info p ! k))) [0..<info_count p])
     else nal_unit None last_pack (whole_bytes d p))"

fun frame_units :: "venc_stream \<Rightarrow> (u8 \<times> bytes \<times> bool) list" where
  "frame_units [] = []"
| "frame_units (p # ps) = pack_units (ps = []) p @ frame_units ps"

definition send_unit ::
  "'w writer \<Rightarrow> nat \<Rightarrow> u8 \<times> bytes \<times> bool \<Rightarrow> param_sets option \<times> 'w hevc_ctx
   \<Rightarrow> nat \<times> param_sets option \<times> 'w hevc_ctx" where
  "send_unit wr max_payload = (\<lambda>(ty, nal, last_nal) (params, c).
     case params of
       None \<Rightarrow>
         (case send_or_queue_nal_rtp_hevc wr nal last_nal max_payload c of (n, c') \<Rightarrow> (n, None, c'))
     | Some ps \<Rightarrow>
         let ps' = h26x_param_sets_update ps PT_H265 ty nal in
         case send_prepend_param_sets_hevc wr ps' ty max_payload c of (n1, c1) \<Rightarrow>
         case send_or_queue_nal_rtp_hevc wr nal last_nal max_payload c1 of (n2, c2) \<Rightarrow>
           (n1 + n2, Some ps', c2))"

primrec send_units ::
  "'w writer \<Rightarrow> nat \<Rightarrow> (u8 \<times> bytes \<times> bool) list \<Rightarrow> param_sets option \<times> 'w hevc_ctx
   \<Rightarrow> nat \<times> param_sets option \<times> 'w hevc_ctx" where
  "send_units wr max_payload [] s = (0, s)"
| "send_units wr max_payload (u # us) s =
     (case send_unit wr max_payload u s of (n1, s1) \<Rightarrow>
      case send_units wr max_payload us s1 of (n2, s2) \<Rightarrow> (n1 + n2, s2))"

definition star6e_hevc_rtp_send_frame ::
  "'w writer \<Rightarrow> venc_stream \<Rightarrow> rtp_state \<Rightarrow> u32 \<Rightarrow> param_sets option \<Rightarrow> nat \<Rightarrow> hevc_rtp_stats \<Rightarrow> 'w
   \<Rightarrow> nat \<times> rtp_state \<times> param_sets option \<times> hevc_rtp_stats \<times> 'w" where
  "star6e_hevc_rtp_send_frame wr stream st frame_ticks params max_payload stats w =
     (let mp = (if max_payload > RTP_BUFFER_MAX then RTP_BUFFER_MAX else max_payload) in
      case send_units wr mp (frame_units stream) (params, hevc_ap_reset, st, stats, w)
        of (n1, params', c1) \<Rightarrow>
      case hevc_ap_flush wr True c1 of (n2, (ap, st', stats', w')) \<Rightarrow>
        (n1 + n2, st'\<lparr>rp_timestamp := rp_timestamp st' + frame_ticks\<rparr>, params', stats', w'))"

subsection \<open>What the packets carry\<close>

text \<open>
  \<open>carries mp pkts nals\<close>: a receiver between two NAL units recovers exactly \<open>nals\<close> from the
  packets and is again between two NAL units, and no payload exceeds \<open>mp\<close>.
\<close>

definition carries :: "nat \<Rightarrow> (bytes \<times> bool) list \<Rightarrow> bytes list \<Rightarrow> bool" where
  "carries mp pkts nals \<longleftrightarrow>
     (\<forall>rest. depay [] (map fst pkts @ rest) = nals @ depay [] rest)
     \<and> (\<forall>p \<in> fst ` set pkts. p \<noteq> [] \<and> length p \<le> mp)"

definition sendable :: "bytes \<Rightarrow> bool" where
  "sendable nal \<longleftrightarrow> nal \<noteq> [] \<and> rtp_hevc_type nal \<noteq> 48 \<and> rtp_hevc_type nal \<noteq> 49"

definition ap_unit :: "bytes \<Rightarrow> bytes" where
  "ap_unit q = [word_of_nat (length q div 256), word_of_nat (length q)] @ q"

definition ap_holds :: "nat \<Rightarrow> hevc_ap \<Rightarrow> bytes list \<Rightarrow> bool" where
  "ap_holds mp ap qs \<longleftrightarrow>
     ap_nal_count ap = word_of_nat (length qs) \<and> ap_nal_bytes ap = sum_list (map length qs)
     \<and> ap_payload ap = (if qs = [] then [] else [0, 0] @ concat (map ap_unit qs))
     \<and> (\<forall>q \<in> set qs. sendable q \<and> length q \<le> 65535)
     \<and> length (ap_payload ap) \<le> mp
     \<and> ap_forbidden_zero ap AND 0x80 = ap_forbidden_zero ap"

lemma carries_Nil [simp]: "carries mp [] []"
  by (simp add: carries_def)

lemma carries_append: "carries mp ps ns \<Longrightarrow> carries mp qs ms \<Longrightarrow> carries mp (ps @ qs) (ns @ ms)"
  by (auto simp: carries_def)

lemma carries_single:
  "sendable nal \<Longrightarrow> length nal \<le> mp \<Longrightarrow> carries mp [(nal, m)] [nal]"
  by (simp add: carries_def sendable_def)

lemma carries_nal:
  assumes "3 < mp" and "sendable nal"
  shows "carries mp (mark_last m (nal_payloads mp nal)) [nal]"
  using assms nal_payloads_size [OF assms(1)]
  by (auto simp: carries_def sendable_def depay_nal mark_last_fst simp flip: set_map)

lemma ap_split_units:
  "(\<forall>q \<in> set qs. sendable q \<and> length q \<le> 65535) \<Longrightarrow> ap_split (concat (map ap_unit qs)) = qs"
  by (induction qs) (simp_all add: ap_unit_def be16_nat)

lemma ap_type:
  "fz AND 0x80 = fz \<Longrightarrow> drop_bit 1 ((fz :: u8) OR push_bit 1 48 OR (x AND 1)) AND 0x3F = 48"
proof -
  assume a: "fz AND 0x80 = fz"
  have "drop_bit 1 ((fz AND 0x80) OR push_bit 1 48 OR (x AND 1)) AND 0x3F = (48 :: u8)"
    by (rule u8_eqI; simp add: byte_simps)
  with a show ?thesis by simp
qed

lemma carries_ap:
  assumes "ap_holds mp ap qs" and "qs \<noteq> []"
  shows "carries mp [((ap_payload ap)[0 := ap_header0 ap, 1 := ap_header1 ap], m)] qs"
proof -
  let ?p = "ap_header0 ap # ap_header1 ap # concat (map ap_unit qs)"
  have p: "(ap_payload ap)[0 := ap_header0 ap, 1 := ap_header1 ap] = ?p" and "length ?p \<le> mp"
    using assms by (auto simp: ap_holds_def)
  moreover have "rtp_hevc_type ?p = 48"
    using assms ap_type [of "ap_forbidden_zero ap"]
    by (simp add: ap_holds_def rtp_hevc_type_def ap_header0_def)
  moreover have "ap_split (concat (map ap_unit qs)) = qs"
    using assms by (intro ap_split_units) (simp add: ap_holds_def)
  ultimately show ?thesis by (simp add: carries_def p)
qed

lemma ap_holds_reset: "ap_holds mp hevc_ap_reset []"
  by (simp add: ap_holds_def hevc_ap_reset_def)

lemma concat_units_length: "length (concat (map ap_unit qs)) = 2 * length qs + sum_list (map length qs)"
  by (induction qs) (simp_all add: ap_unit_def)

text \<open>The 16-bit counter cannot wrap: every queued unit takes at least three bytes.\<close>

lemma ap_count:
  assumes "ap_holds mp ap qs" and "mp \<le> RTP_BUFFER_MAX"
  shows "unat (ap_nal_count ap) = length qs" and "length qs < 8192"
proof -
  have "2 * length qs \<le> length (concat (map ap_unit qs))" by (simp add: concat_units_length)
  also have "\<dots> \<le> 8192" using assms by (auto simp: ap_holds_def RTP_BUFFER_MAX_def split: if_splits)
  finally show "length qs < 8192" by simp
  then show "unat (ap_nal_count ap) = length qs"
    using assms(1) by (simp add: ap_holds_def unsigned_of_nat take_bit_nat_eq_self)
qed

lemma ap_count_0:
  "ap_holds mp ap qs \<Longrightarrow> mp \<le> RTP_BUFFER_MAX \<Longrightarrow> ap_nal_count ap = 0 \<longleftrightarrow> qs = []"
  using ap_count(1) [of mp ap qs] by (metis length_0_conv unat_eq_zero)

lemma ap_count_1:
  "ap_holds mp ap qs \<Longrightarrow> mp \<le> RTP_BUFFER_MAX \<Longrightarrow> ap_nal_count ap = 1 \<longleftrightarrow> (\<exists>q. qs = [q])"
  using ap_count(1) [of mp ap qs] by (metis One_nat_def length_Suc_conv length_0_conv unsigned_1 unsigned_word_eqI)

text \<open>Adding a unit that passed the test keeps the builder's invariant.\<close>

lemma ap_add_holds:
  assumes "ap_holds mp ap qs" and "mp \<le> RTP_BUFFER_MAX" and "hevc_ap_can_add ap (length nal) mp"
    and "sendable nal"
  shows "ap_holds mp (hevc_ap_add ap nal) (qs @ [nal])"
proof -
  have "nal \<noteq> []" "length nal \<le> 65535" using assms(3,4)
    by (auto simp: hevc_ap_can_add_def sendable_def split: if_splits)
  moreover have "(nal ! 0 AND 0x80) AND 0x80 = nal ! 0 AND 0x80" by (simp add: and.assoc)
  moreover have "(ap_forbidden_zero ap OR (nal ! 0 AND 0x80)) AND 0x80 = ap_forbidden_zero ap OR (nal ! 0 AND 0x80)"
    using assms(1) by (simp add: ap_holds_def bit.conj_disj_distrib2 and.assoc)
  ultimately show ?thesis
    using assms ap_count_0 [OF assms(1,2)]
    by (auto simp: ap_holds_def hevc_ap_add_def hevc_ap_can_add_def Let_def ap_unit_def ac_simps
        split: if_splits)
qed

subsection \<open>Every operation hands over what it took in\<close>

text \<open>
  \<open>conveys\<close> relates two contexts: \<open>pkts\<close> were transmitted, they carry \<open>nals\<close>, and the
  builder now holds \<open>qs\<close>.
\<close>

definition conveys ::
  "('w \<Rightarrow> bytes list) \<Rightarrow> nat \<Rightarrow> 'w hevc_ctx \<Rightarrow> (bytes \<times> bool) list \<Rightarrow> bytes list \<Rightarrow> bytes list \<Rightarrow> 'w hevc_ctx \<Rightarrow> bool" where
  "conveys dl mp c pkts nals qs c' \<longleftrightarrow>
     (case c of (ap, st, stats, w) \<Rightarrow> case c' of (ap', st', stats', w') \<Rightarrow>
        transmitted dl st pkts w st' w' \<and> carries mp pkts nals \<and> ap_holds mp ap' qs)"

definition ctx_sink :: "'w hevc_ctx \<Rightarrow> 'w" where
  "ctx_sink c = snd (snd (snd c))"

definition ctx_ap :: "'w hevc_ctx \<Rightarrow> hevc_ap" where
  "ctx_ap c = fst c"

definition bytes_of :: "bytes list \<Rightarrow> nat" where
  "bytes_of nals = sum_list (map length nals)"

lemma bytes_of_simps [simp]:
  "bytes_of [] = 0" "bytes_of (x # xs) = length x + bytes_of xs" "bytes_of (xs @ ys) = bytes_of xs + bytes_of ys"
  by (simp_all add: bytes_of_def)

lemma conveys_trans:
  "conveys dl mp c ps ns qs c1 \<Longrightarrow> conveys dl mp c1 ps' ns' qs' c2 \<Longrightarrow> conveys dl mp c (ps @ ps') (ns @ ns') qs' c2"
  by (auto simp: conveys_def carries_append split: prod.splits intro: transmitted_trans)

lemma conveys_holds: "conveys dl mp c ps ns qs c' \<Longrightarrow> ap_holds mp (ctx_ap c') qs"
  by (auto simp: conveys_def ctx_ap_def split: prod.splits)

lemma conveys_refl: "ap_holds mp (ctx_ap c) qs \<Longrightarrow> conveys dl mp c [] [] qs c"
  by (auto simp: conveys_def ctx_ap_def split: prod.splits)

lemma conveys_stats:
  "ap_holds mp ap qs \<Longrightarrow> conveys dl mp (ap, st, stats, w) [] [] qs (ap, st, stats', w)"
  by (simp add: conveys_def)

definition nal_cost :: "nat \<Rightarrow> bytes \<Rightarrow> nat" where
  "nal_cost mp nal = Suc (length (nal_payloads mp nal))"

text \<open>Only the last packet may carry the marker, and it does when \<open>l\<close> holds.\<close>

definition marks :: "bool \<Rightarrow> (bytes \<times> bool) list \<Rightarrow> bool" where
  "marks l pkts \<longleftrightarrow> (if l then \<exists>ps p. pkts = ps @ [(p, True)] \<and> (\<forall>x \<in> set ps. \<not> snd x)
                    else \<forall>x \<in> set pkts. \<not> snd x)"

lemma mark_last_snoc: "ps \<noteq> [] \<Longrightarrow> mark_last l ps = map (\<lambda>p. (p, False)) (butlast ps) @ [(last ps, l)]"
  by (induction l ps rule: mark_last.induct) simp_all

lemma marks_mark_last: "ps \<noteq> [] \<Longrightarrow> marks l (mark_last l ps)"
  by (cases l) (auto simp: marks_def mark_last_snoc)

lemma marks_append:
  assumes "\<forall>x \<in> set ps. \<not> snd x" and "marks l qs"
  shows "marks l (ps @ qs)"
proof (cases l)
  case True
  then obtain rs p where "qs = rs @ [(p, True)]" "\<forall>x \<in> set rs. \<not> snd x"
    using assms(2) by (auto simp: marks_def)
  then have "ps @ qs = (ps @ rs) @ [(p, True)]" "\<forall>x \<in> set (ps @ rs). \<not> snd x"
    using assms(1) by auto
  with True show ?thesis unfolding marks_def by metis
next
  case False
  with assms show ?thesis by (auto simp: marks_def)
qed

lemma marks_flush: "map snd pkts = (if qs = [] then [] else [False]) \<Longrightarrow> \<forall>x \<in> set pkts. \<not> snd x"
  by (auto split: if_splits)

text \<open>The NAL units a frame becomes: each unit after the parameter sets it is prepended.\<close>

fun frame_nals :: "param_sets option \<Rightarrow> (u8 \<times> bytes \<times> bool) list \<Rightarrow> bytes list" where
  "frame_nals params [] = []"
| "frame_nals None ((ty, nal, l) # us) = nal # frame_nals None us"
| "frame_nals (Some ps) ((ty, nal, l) # us) =
     (let ps' = h26x_param_sets_update ps PT_H265 ty nal
      in h26x_param_sets_get_prepend ps' PT_H265 ty 3 @ nal # frame_nals (Some ps') us)"

fun frame_params :: "param_sets option \<Rightarrow> (u8 \<times> bytes \<times> bool) list \<Rightarrow> param_sets option" where
  "frame_params params [] = params"
| "frame_params None us = None"
| "frame_params (Some ps) ((ty, nal, l) # us) =
     frame_params (Some (h26x_param_sets_update ps PT_H265 ty nal)) us"

definition frame_cost :: "nat \<Rightarrow> bytes list \<Rightarrow> nat" where
  "frame_cost mp nals = sum_list (map (nal_cost mp) nals)"

lemma frame_cost_simps [simp]:
  "frame_cost mp [] = 0" "frame_cost mp (x # xs) = nal_cost mp x + frame_cost mp xs"
  "frame_cost mp (xs @ ys) = frame_cost mp xs + frame_cost mp ys"
  by (simp_all add: frame_cost_def)

text \<open>Units of which at most the final one is flagged as the last of its frame.\<close>

definition flags :: "bool \<Rightarrow> (u8 \<times> bytes \<times> bool) list \<Rightarrow> bool" where
  "flags l us \<longleftrightarrow> (\<forall>u \<in> set (butlast us). \<not> snd (snd u)) \<and> (us \<noteq> [] \<longrightarrow> snd (snd (last us)) = l)"

context credit_sink
begin

lemma send_rtp_packet_credit:
  assumes "credit mtu (Suc n) w" and "p \<noteq> []" and "12 + length p \<le> mtu"
  shows "\<exists>w'. send_rtp_packet send p st m w = (0, rtp_next 1 st, w') \<and> credit mtu n w'
    \<and> transmitted delivered st [(p, m)] w (rtp_next 1 st) w'"
  using send_packet_credit [OF assms(1,2), of "[]" st m] assms(2,3) by (auto simp: send_rtp_packet_def)

lemma ap_flush_credit:
  assumes "ap_holds mp (ctx_ap c) qs" and "credit mtu (Suc n) (ctx_sink c)"
    and "12 + mp \<le> mtu" and "mp \<le> RTP_BUFFER_MAX"
  shows "\<exists>pkts c'. hevc_ap_flush send m c = (bytes_of qs, c') \<and> credit mtu n (ctx_sink c')
    \<and> conveys delivered mp c pkts qs [] c' \<and> map snd pkts = (if qs = [] then [] else [m])"
proof -
  obtain ap st stats w where c: "c = (ap, st, stats, w)" by (cases c) auto
  have h: "ap_holds mp ap qs" and cr: "credit mtu (Suc n) w"
    using assms(1,2) by (simp_all add: c ctx_ap_def ctx_sink_def)
  note cnt = ap_count_0 [OF h assms(4)] ap_count_1 [OF h assms(4)]
  consider "qs = []" | q where "qs = [q]" | q q' qs' where "qs = q # q' # qs'"
    by (cases qs rule: remdups_adj.cases) auto
  then show ?thesis
  proof cases
    case 1
    then show ?thesis using h cr cnt credit_weaken [OF cr]
      by (auto simp: hevc_ap_flush_def c ctx_sink_def conveys_def)
  next
    case (2 q)
    then have p: "ap_payload ap = [0, 0] @ ap_unit q" and q: "sendable q" "length q \<le> 65535"
      and "length (ap_payload ap) \<le> mp" using h by (auto simp: ap_holds_def)
    then have len: "unat (be16 (ap_payload ap ! 2) (ap_payload ap ! 3)) = length q"
      and sl: "slice 4 (length q) (ap_payload ap) = q" and "length q \<le> mp"
      by (simp_all add: ap_unit_def be16_nat slice_def)
    moreover obtain w' where "send_rtp_packet send q st m w = (0, rtp_next 1 st, w')"
      "credit mtu n w'" "transmitted delivered st [(q, m)] w (rtp_next 1 st) w'"
      using send_rtp_packet_credit [OF cr, of q st m] q \<open>length q \<le> mp\<close> assms(3)
      by (auto simp: sendable_def)
    ultimately show ?thesis
      using 2 cnt q carries_single [OF q(1)]
      by (auto simp: hevc_ap_flush_def c ctx_sink_def conveys_def ap_holds_reset Let_def)
  next
    case (3 q q' qs')
    let ?p = "(ap_payload ap)[0 := ap_header0 ap, 1 := ap_header1 ap]"
    have "?p \<noteq> []" "length ?p \<le> mp" using h 3 by (auto simp: ap_holds_def)
    then obtain w' where "send_rtp_packet send ?p st m w = (0, rtp_next 1 st, w')"
      "credit mtu n w'" "transmitted delivered st [(?p, m)] w (rtp_next 1 st) w'"
      using send_rtp_packet_credit [OF cr, of ?p st m] assms(3) by auto
    moreover have "carries mp [(?p, m)] qs" using carries_ap [OF h] 3 by simp
    moreover have "ap_nal_bytes ap = bytes_of qs" using h by (simp add: ap_holds_def bytes_of_def)
    ultimately show ?thesis
      using 3 cnt by (auto simp: hevc_ap_flush_def c ctx_sink_def conveys_def ap_holds_reset Let_def)
  qed
qed

lemma send_nal_credit:
  assumes "ap_holds mp (ctx_ap c) []" and "credit mtu (length (nal_payloads mp nal) + n) (ctx_sink c)"
    and "sendable nal" and "3 < mp" and "mp \<le> RTP_BUFFER_MAX" and "12 + mp \<le> mtu"
  shows "\<exists>c'. send_nal_rtp_hevc send nal m mp c = (length nal, c') \<and> credit mtu n (ctx_sink c')
    \<and> conveys delivered mp c (mark_last m (nal_payloads mp nal)) [nal] [] c'"
proof -
  obtain ap st stats w where c: "c = (ap, st, stats, w)" by (cases c) auto
  have "nal \<noteq> []" using assms(3) by (simp add: sendable_def)
  with send_hevc_nal_credit [of mtu mp nal n w st m] assms carries_nal [OF assms(4,3)]
  show ?thesis by (auto simp: c ctx_sink_def ctx_ap_def send_nal_rtp_hevc_def conveys_def)
qed

lemma flush_send_credit:
  assumes "ap_holds mp (ctx_ap c) qs" and "credit mtu (nal_cost mp nal + n) (ctx_sink c)"
    and "sendable nal" and "3 < mp" and "mp \<le> RTP_BUFFER_MAX" and "12 + mp \<le> mtu"
  shows "\<exists>pkts c1 c'. hevc_ap_flush send False c = (bytes_of qs, c1)
    \<and> send_nal_rtp_hevc send nal l mp c1 = (length nal, c')
    \<and> credit mtu n (ctx_sink c') \<and> conveys delivered mp c pkts (qs @ [nal]) [] c' \<and> marks l pkts"
proof -
  from ap_flush_credit [OF assms(1) _ assms(6,5), of "length (nal_payloads mp nal) + n" False] assms(2)
  obtain p1 c1 where 1: "hevc_ap_flush send False c = (bytes_of qs, c1)"
    "credit mtu (length (nal_payloads mp nal) + n) (ctx_sink c1)" "conveys delivered mp c p1 qs [] c1"
    "map snd p1 = (if qs = [] then [] else [False])"
    by (auto simp: nal_cost_def)
  from send_nal_credit [OF conveys_holds [OF 1(3)] 1(2) assms(3-6), of l]
  obtain c' where 2: "send_nal_rtp_hevc send nal l mp c1 = (length nal, c')" "credit mtu n (ctx_sink c')"
    "conveys delivered mp c1 (mark_last l (nal_payloads mp nal)) [nal] [] c'" by blast
  have "marks l (p1 @ mark_last l (nal_payloads mp nal))"
    by (intro marks_append marks_flush [OF 1(4)] marks_mark_last nal_payloads_ne assms(4))
  with 1 2 conveys_trans [OF 1(3) 2(3)] show ?thesis by blast
qed

lemma add_flush_credit:
  assumes "ap_holds mp ap qs" and "credit mtu (Suc n) w" and "sendable nal"
    and "hevc_ap_can_add ap (length nal) mp" and "mp \<le> RTP_BUFFER_MAX" and "12 + mp \<le> mtu"
  shows "\<exists>b pkts ns qs' c'.
    (if l then hevc_ap_flush send True (hevc_ap_add ap nal, st, stats, w)
     else (0, hevc_ap_add ap nal, st, stats, w)) = (b, c')
    \<and> credit mtu n (ctx_sink c') \<and> conveys delivered mp (ap, st, stats, w) pkts ns qs' c'
    \<and> ns @ qs' = qs @ [nal] \<and> b + bytes_of qs' = bytes_of qs + length nal
    \<and> marks l pkts \<and> (l \<longrightarrow> qs' = [])"
proof -
  let ?c = "(hevc_ap_add ap nal, st, stats, w)"
  have h: "ap_holds mp (ctx_ap ?c) (qs @ [nal])"
    using ap_add_holds [OF assms(1,5,4,3)] by (simp add: ctx_ap_def)
  then have r: "conveys delivered mp (ap, st, stats, w) [] [] (qs @ [nal]) ?c"
    by (simp add: conveys_def ctx_ap_def)
  show ?thesis
  proof (cases l)
    case False
    show ?thesis
      by (rule exI [of _ 0], rule exI [of _ "[]"], rule exI [of _ "[]"], rule exI [of _ "qs @ [nal]"],
          rule exI [of _ ?c])
        (use False r credit_weaken [OF assms(2)] in \<open>simp add: ctx_sink_def marks_def\<close>)
  next
    case True
    from ap_flush_credit [OF h, of mtu n True] assms(2,5,6) obtain pkts c' where
      "hevc_ap_flush send True ?c = (bytes_of (qs @ [nal]), c')" "credit mtu n (ctx_sink c')"
      and p: "conveys delivered mp ?c pkts (qs @ [nal]) [] c'" "map snd pkts = [True]"
      by (auto simp: ctx_sink_def)
    moreover have "marks True pkts" using p(2) by (auto simp: marks_def)
    moreover from conveys_trans [OF r p(1)] have
      "conveys delivered mp (ap, st, stats, w) pkts (qs @ [nal]) [] c'" by simp
    ultimately show ?thesis using True by fastforce
  qed
qed

lemma send_or_queue_credit:
  assumes "ap_holds mp (ctx_ap c) qs" and "credit mtu (nal_cost mp nal + n) (ctx_sink c)"
    and "sendable nal" and "3 < mp" and "mp \<le> RTP_BUFFER_MAX" and "12 + mp \<le> mtu"
  shows "\<exists>b pkts ns qs' c'. send_or_queue_nal_rtp_hevc send nal l mp c = (b, c')
    \<and> credit mtu n (ctx_sink c') \<and> conveys delivered mp c pkts ns qs' c'
    \<and> ns @ qs' = qs @ [nal] \<and> b + bytes_of qs' = bytes_of qs + length nal
    \<and> marks l pkts \<and> (l \<longrightarrow> qs' = [])"
proof -
  obtain ap st stats0 w where c: "c = (ap, st, stats0, w)" by (cases c) auto
  have "nal \<noteq> []" using assms(3) by (simp add: sendable_def)
  define stats where "stats = stats0\<lparr>hs_total_nals := hs_total_nals stats0 + 1\<rparr>"
  define d where "d = (ap, st, stats, w)"
  have h: "ap_holds mp (ctx_ap d) qs" and cr: "credit mtu (nal_cost mp nal + n) (ctx_sink d)"
    and cd: "conveys delivered mp c [] [] qs d"
    using assms(1,2) by (simp_all add: c d_def ctx_ap_def ctx_sink_def conveys_def)
  obtain p1 c1 c2 where fs: "hevc_ap_flush send False d = (bytes_of qs, c1)"
      "send_nal_rtp_hevc send nal l mp c1 = (length nal, c2)" "credit mtu n (ctx_sink c2)"
      "conveys delivered mp d p1 (qs @ [nal]) [] c2" "marks l p1"
    using flush_send_credit [OF h cr assms(3-6), of l] by blast
  have send_alone: ?thesis
    if "send_or_queue_nal_rtp_hevc send nal l mp c = (bytes_of qs + length nal, c2)"
    using that fs conveys_trans [OF cd fs(4)] by fastforce
  consider "mp < length nal \<or> 65535 < length nal"
    | "length nal \<le> mp" "length nal \<le> 65535" "hevc_ap_can_add ap (length nal) mp"
    | "length nal \<le> mp" "length nal \<le> 65535" "\<not> hevc_ap_can_add ap (length nal) mp" by linarith
  then show ?thesis
  proof cases
    case 1
    with \<open>nal \<noteq> []\<close> fs show ?thesis
      by (intro send_alone)
        (simp add: c send_or_queue_nal_rtp_hevc_def flip: d_def stats_def)
  next
    case 2
    have "nal_payloads mp nal \<noteq> []" by (rule nal_payloads_ne [OF assms(4)])
    then have "Suc n \<le> nal_cost mp nal + n" by (simp add: nal_cost_def)
    from credit_mono [OF this] cr have "credit mtu (Suc n) w" by (simp add: d_def ctx_sink_def)
    from add_flush_credit [OF _ this assms(3) 2(3) assms(5,6), of qs l st stats] h 2 \<open>nal \<noteq> []\<close>
    obtain b pkts ns qs' c' where r: "send_or_queue_nal_rtp_hevc send nal l mp c = (b, c')"
      "credit mtu n (ctx_sink c')" "conveys delivered mp d pkts ns qs' c'"
      "ns @ qs' = qs @ [nal]" "b + bytes_of qs' = bytes_of qs + length nal" "marks l pkts" "l \<longrightarrow> qs' = []"
      by (auto simp: c d_def ctx_ap_def send_or_queue_nal_rtp_hevc_def Let_def split: if_splits prod.splits
          simp flip: stats_def)
    from conveys_trans [OF cd r(3)] r show ?thesis by auto
  next
    case 3
    obtain ap1 st1 stats1 w1 where c1: "c1 = (ap1, st1, stats1, w1)" by (cases c1) auto
    show ?thesis
    proof (cases "hevc_ap_can_add ap1 (length nal) mp")
      case False
      with 3 \<open>nal \<noteq> []\<close> fs c1 show ?thesis
        by (intro send_alone) (simp add: c send_or_queue_nal_rtp_hevc_def flip: d_def stats_def)
    next
      case True
      have "nal_payloads mp nal \<noteq> []" by (rule nal_payloads_ne [OF assms(4)])
      then have "Suc (Suc n) \<le> nal_cost mp nal + n" by (cases "nal_payloads mp nal") (auto simp: nal_cost_def)
      with cr have "credit mtu (Suc (Suc n)) (ctx_sink d)" using credit_mono by blast
      from ap_flush_credit [OF h this assms(6,5), of False] fs(1) obtain p0 where
        f: "credit mtu (Suc n) w1" "conveys delivered mp d p0 qs [] c1"
        "map snd p0 = (if qs = [] then [] else [False])"
        by (auto simp: c1 ctx_sink_def)
      from conveys_holds [OF f(2)] have "ap_holds mp ap1 []" by (simp add: c1 ctx_ap_def)
      from add_flush_credit [OF this f(1) assms(3) True assms(5,6), of l st1 stats1] obtain b pkts ns qs' c' where
        r: "(if l then hevc_ap_flush send True (hevc_ap_add ap1 nal, st1, stats1, w1)
             else (0, hevc_ap_add ap1 nal, st1, stats1, w1)) = (b, c')"
        "credit mtu n (ctx_sink c')" "conveys delivered mp c1 pkts ns qs' c'"
        "ns @ qs' = [nal]" "b + bytes_of qs' = length nal" "marks l pkts" "l \<longrightarrow> qs' = []"
        by (auto simp: c1)
      have "send_or_queue_nal_rtp_hevc send nal l mp c = (bytes_of qs + b, c')"
        using 3 \<open>nal \<noteq> []\<close> fs(1) c1 True r(1)
        by (auto simp: c send_or_queue_nal_rtp_hevc_def Let_def simp flip: d_def stats_def)
      moreover have "conveys delivered mp c (p0 @ pkts) (qs @ ns) qs' c'"
        using conveys_trans [OF cd conveys_trans [OF f(2) r(3)]] by simp
      moreover have "marks l (p0 @ pkts)" by (intro marks_append marks_flush [OF f(3)] r(6))
      ultimately show ?thesis using r by fastforce
    qed
  qed
qed

text \<open>The results of an operation, chained.\<close>

lemma queue_nals_credit:
  assumes "ap_holds mp (ctx_ap c) qs" and "credit mtu (frame_cost mp nals + n) (ctx_sink c)"
    and "\<forall>x \<in> set nals. sendable x" and "3 < mp" and "mp \<le> RTP_BUFFER_MAX" and "12 + mp \<le> mtu"
  shows "\<exists>b pkts ns qs' c'. queue_nals send mp nals c = (b, c')
    \<and> credit mtu n (ctx_sink c') \<and> conveys delivered mp c pkts ns qs' c'
    \<and> ns @ qs' = qs @ nals \<and> b + bytes_of qs' = bytes_of qs + bytes_of nals \<and> marks False pkts"
  using assms(1-3)
proof (induction nals arbitrary: c qs)
  case Nil
  show ?case
    by (rule exI [of _ 0], rule exI [of _ "[]"], rule exI [of _ "[]"], rule exI [of _ qs], rule exI [of _ c])
      (use Nil in \<open>simp add: conveys_refl marks_def\<close>)
next
  case (Cons x nals)
  have "credit mtu (nal_cost mp x + (frame_cost mp nals + n)) (ctx_sink c)" "sendable x"
    using Cons.prems by (simp_all add: add.assoc)
  from send_or_queue_credit [OF Cons.prems(1) this assms(4-6), of False]
  obtain b1 p1 n1 q1 c1 where 1: "send_or_queue_nal_rtp_hevc send x False mp c = (b1, c1)"
    "credit mtu (frame_cost mp nals + n) (ctx_sink c1)" "conveys delivered mp c p1 n1 q1 c1"
    "n1 @ q1 = qs @ [x]" "b1 + bytes_of q1 = bytes_of qs + length x" "marks False p1" by blast
  from Cons.IH [OF conveys_holds [OF 1(3)] 1(2)] Cons.prems(3)
  obtain b2 p2 n2 q2 c2 where 2: "queue_nals send mp nals c1 = (b2, c2)" "credit mtu n (ctx_sink c2)"
    "conveys delivered mp c1 p2 n2 q2 c2" "n2 @ q2 = q1 @ nals"
    "b2 + bytes_of q2 = bytes_of q1 + bytes_of nals" "marks False p2" by auto
  have "(n1 @ n2) @ q2 = qs @ x # nals" using 1(4) 2(4) by (metis append.assoc append_Cons append_Nil)
  moreover have "marks False (p1 @ p2)" using 1(6) 2(6) by (auto simp: marks_def)
  moreover have "queue_nals send mp (x # nals) c = (b1 + b2, c2)" using 1(1) 2(1) by simp
  moreover have "b1 + b2 + bytes_of q2 = bytes_of qs + bytes_of (x # nals)" using 1(5) 2(5) by simp
  ultimately show ?case using conveys_trans [OF 1(3) 2(3)] 2(2) by blast
qed

lemma send_unit_credit:
  assumes "ap_holds mp (ctx_ap c) qs" and "credit mtu (frame_cost mp (frame_nals params [(ty, nal, l)]) + n) (ctx_sink c)"
    and "\<forall>x \<in> set (frame_nals params [(ty, nal, l)]). sendable x"
    and "3 < mp" and "mp \<le> RTP_BUFFER_MAX" and "12 + mp \<le> mtu"
  shows "\<exists>b pkts ns qs' c'. send_unit send mp (ty, nal, l) (params, c) = (b, frame_params params [(ty, nal, l)], c')
    \<and> credit mtu n (ctx_sink c') \<and> conveys delivered mp c pkts ns qs' c'
    \<and> ns @ qs' = qs @ frame_nals params [(ty, nal, l)]
    \<and> b + bytes_of qs' = bytes_of qs + bytes_of (frame_nals params [(ty, nal, l)])
    \<and> marks l pkts \<and> (l \<longrightarrow> qs' = [])"
proof (cases params)
  case None
  then show ?thesis
    using send_or_queue_credit [OF assms(1) _ _ assms(4-6), of nal n l] assms(2,3)
    by (fastforce simp: send_unit_def)
next
  case (Some ps)
  define pre where "pre = h26x_param_sets_get_prepend (h26x_param_sets_update ps PT_H265 ty nal) PT_H265 ty 3"
  have fn: "frame_nals params [(ty, nal, l)] = pre @ [nal]" by (simp add: Some pre_def Let_def)
  have "credit mtu (frame_cost mp pre + (nal_cost mp nal + n)) (ctx_sink c)" "\<forall>x \<in> set pre. sendable x"
    and nal: "sendable nal" using assms(2,3) by (simp_all add: fn add.assoc)
  from queue_nals_credit [OF assms(1) this(1,2) assms(4-6)]
  obtain b1 p1 n1 q1 c1 where 1: "queue_nals send mp pre c = (b1, c1)"
    "credit mtu (nal_cost mp nal + n) (ctx_sink c1)" "conveys delivered mp c p1 n1 q1 c1"
    "n1 @ q1 = qs @ pre" "b1 + bytes_of q1 = bytes_of qs + bytes_of pre" "marks False p1" by blast
  from send_or_queue_credit [OF conveys_holds [OF 1(3)] 1(2) nal assms(4-6), of l]
  obtain b2 p2 n2 q2 c2 where 2: "send_or_queue_nal_rtp_hevc send nal l mp c1 = (b2, c2)"
    "credit mtu n (ctx_sink c2)" "conveys delivered mp c1 p2 n2 q2 c2" "n2 @ q2 = q1 @ [nal]"
    "b2 + bytes_of q2 = bytes_of q1 + length nal" "marks l p2" "l \<longrightarrow> q2 = []" by blast
  have "(n1 @ n2) @ q2 = qs @ pre @ [nal]" using 1(4) 2(4) by (metis append.assoc)
  moreover have "marks l (p1 @ p2)" using 1(6) 2(6) by (auto simp: marks_def [of False] intro!: marks_append)
  moreover have "send_unit send mp (ty, nal, l) (params, c) = (b1 + b2, frame_params params [(ty, nal, l)], c2)"
    using 1(1) 2(1) by (simp add: Some send_unit_def send_prepend_param_sets_hevc_def Let_def flip: pre_def)
  moreover have "b1 + b2 + bytes_of q2 = bytes_of qs + bytes_of (pre @ [nal])" using 1(5) 2(5) by simp
  ultimately show ?thesis unfolding fn using conveys_trans [OF 1(3) 2(3)] 2(2,7) by blast
qed

end

lemma frame_nals_Cons: "frame_nals params (u # us) = frame_nals params [u] @ frame_nals (frame_params params [u]) us"
  by (cases params; cases u) (simp_all add: Let_def)

lemma frame_params_Cons: "frame_params params (u # us) = frame_params (frame_params params [u]) us"
  by (cases params; cases u; cases us) simp_all

lemma flags_Cons: "flags l (u # us) \<longleftrightarrow> (if us = [] then snd (snd u) = l else \<not> snd (snd u) \<and> flags l us)"
  by (auto simp: flags_def)

lemma nal_unit_flags: "u \<in> set (nal_unit ty l d) \<Longrightarrow> snd (snd u) = l" "length (nal_unit ty l d) \<le> 1"
  by (auto simp: nal_unit_def Let_def split: option.splits if_splits)

lemma pack_units_unflagged: "u \<in> set (pack_units False p) \<Longrightarrow> \<not> snd (snd u)"
  by (auto simp: pack_units_def split: option.splits if_splits dest: nal_unit_flags(1))

lemma flags_snoc: "\<forall>u \<in> set us. \<not> snd (snd u) \<Longrightarrow> length vs \<le> 1 \<Longrightarrow> \<exists>l. flags l (us @ vs)"
  by (cases vs) (auto simp: flags_def butlast_append dest: in_set_butlastD)

lemma pack_units_flags: "\<exists>us vs. pack_units l p = us @ vs \<and> (\<forall>u \<in> set us. \<not> snd (snd u)) \<and> length vs \<le> 1"
proof (cases "pk_data p")
  case None
  then show ?thesis by (simp add: pack_units_def)
next
  case (Some d)
  show ?thesis
  proof (cases "pk_num p > 0")
    case True
    define f where "f k = nal_unit (Some (pi_nal_type (pk_info p ! k))) (l \<and> k = info_count p - 1)
      (info_bytes d (pk_length p) (pk_info p ! k))" for k
    have pos: "0 < info_count p" using True by (simp add: info_count_def)
    then have "[0..<info_count p] = [0..<info_count p - 1] @ [info_count p - 1]"
      by (metis One_nat_def Suc_diff_1 upt_snoc zero_le)
    then have "pack_units l p = concat (map f [0..<info_count p - 1]) @ f (info_count p - 1)"
      using True Some by (simp add: pack_units_def f_def [abs_def])
    moreover have "\<forall>u \<in> set (concat (map f [0..<info_count p - 1])). \<not> snd (snd u)"
      by (auto simp: f_def dest: nal_unit_flags(1))
    moreover have "length (f (info_count p - 1)) \<le> 1" by (simp add: f_def nal_unit_flags(2) del: One_nat_def)
    ultimately show ?thesis by blast
  next
    case False
    then have "pack_units l p = [] @ nal_unit None l (whole_bytes d p)" using Some by (simp add: pack_units_def)
    moreover have "length (nal_unit None l (whole_bytes d p)) \<le> 1" by (rule nal_unit_flags(2))
    ultimately show ?thesis by (metis empty_iff empty_set)
  qed
qed

lemma frame_units_split:
  "\<exists>us vs. frame_units stream = us @ vs \<and> (\<forall>u \<in> set us. \<not> snd (snd u)) \<and> length vs \<le> 1"
proof (induction stream)
  case Nil
  then show ?case by simp
next
  case (Cons p ps)
  show ?case
  proof (cases "ps = []")
    case True
    then show ?thesis using pack_units_flags [of True p] by simp
  next
    case False
    from Cons.IH obtain us vs where "frame_units ps = us @ vs" "\<forall>u \<in> set us. \<not> snd (snd u)" "length vs \<le> 1"
      by blast
    with False pack_units_unflagged [of _ p] show ?thesis
      by (intro exI [of _ "pack_units False p @ us"] exI [of _ vs]) auto
  qed
qed

lemma frame_units_flags: "\<exists>l. flags l (frame_units stream)"
  using frame_units_split [of stream] flags_snoc by metis

context credit_sink
begin

lemma send_units_credit:
  assumes "ap_holds mp (ctx_ap c) qs" and "credit mtu (frame_cost mp (frame_nals params us) + n) (ctx_sink c)"
    and "\<forall>x \<in> set (frame_nals params us). sendable x" and "flags l us"
    and "3 < mp" and "mp \<le> RTP_BUFFER_MAX" and "12 + mp \<le> mtu"
  shows "\<exists>b pkts ns qs' c'. send_units send mp us (params, c) = (b, frame_params params us, c')
    \<and> credit mtu n (ctx_sink c') \<and> conveys delivered mp c pkts ns qs' c'
    \<and> ns @ qs' = qs @ frame_nals params us
    \<and> b + bytes_of qs' = bytes_of qs + bytes_of (frame_nals params us)
    \<and> marks (l \<and> us \<noteq> []) pkts \<and> (l \<and> us \<noteq> [] \<longrightarrow> qs' = [])"
  using assms(1-4)
proof (induction us arbitrary: c qs params)
  case Nil
  show ?case
    by (rule exI [of _ 0], rule exI [of _ "[]"], rule exI [of _ "[]"], rule exI [of _ qs], rule exI [of _ c])
      (use Nil in \<open>simp add: conveys_refl marks_def\<close>)
next
  case (Cons u us)
  obtain ty nal f where u: "u = (ty, nal, f)" by (cases u) auto
  define params1 where "params1 = frame_params params [u]"
  have fl: "f = (l \<and> us = [])" "us = [] \<or> flags l us"
    using Cons.prems(4) by (auto simp: u flags_Cons split: if_splits)
  have fn: "frame_nals params (u # us) = frame_nals params [u] @ frame_nals params1 us"
    by (simp only: params1_def frame_nals_Cons [of params u us])
  have "credit mtu (frame_cost mp (frame_nals params [u]) + (frame_cost mp (frame_nals params1 us) + n)) (ctx_sink c)"
    and "\<forall>x \<in> set (frame_nals params [u]). sendable x" and s: "\<forall>x \<in> set (frame_nals params1 us). sendable x"
    using Cons.prems(2,3) unfolding fn by (simp_all add: add.assoc)
  from send_unit_credit [OF Cons.prems(1) this(1,2) [unfolded u] assms(5-7)]
  obtain b1 p1 n1 q1 c1 where 1: "send_unit send mp u (params, c) = (b1, params1, c1)"
    "credit mtu (frame_cost mp (frame_nals params1 us) + n) (ctx_sink c1)" "conveys delivered mp c p1 n1 q1 c1"
    "n1 @ q1 = qs @ frame_nals params [u]" "b1 + bytes_of q1 = bytes_of qs + bytes_of (frame_nals params [u])"
    "marks f p1" "f \<longrightarrow> q1 = []" unfolding u params1_def by blast
  show ?case
  proof (cases "us = []")
    case True
    have "send_units send mp (u # us) (params, c) = (b1, frame_params params (u # us), c1)"
      using 1(1) True by (simp add: params1_def)
    moreover have "frame_nals params1 us = []" and "frame_cost mp (frame_nals params1 us) = 0"
      by (cases params1; simp add: True)+
    ultimately show ?thesis
      using 1(2-7) fl(1) True unfolding fn
      by (intro exI [of _ b1] exI [of _ p1] exI [of _ n1] exI [of _ q1] exI [of _ c1]) simp
  next
    case False
    from Cons.IH [OF conveys_holds [OF 1(3)] 1(2) s] fl(2) False
    obtain b2 p2 n2 q2 c2 where 2: "send_units send mp us (params1, c1) = (b2, frame_params params1 us, c2)"
      "credit mtu n (ctx_sink c2)" "conveys delivered mp c1 p2 n2 q2 c2" "n2 @ q2 = q1 @ frame_nals params1 us"
      "b2 + bytes_of q2 = bytes_of q1 + bytes_of (frame_nals params1 us)" "marks l p2" "l \<longrightarrow> q2 = []"
      by auto
    have "(n1 @ n2) @ q2 = qs @ frame_nals params (u # us)" unfolding fn using 1(4) 2(4) by (metis append.assoc)
    moreover have "marks (l \<and> u # us \<noteq> []) (p1 @ p2)"
      using 1(6) 2(6) fl(1) False by (auto simp: marks_def [of False] intro!: marks_append)
    moreover have "send_units send mp (u # us) (params, c) = (b1 + b2, frame_params params (u # us), c2)"
      using 1(1) 2(1) by (simp add: frame_params_Cons [of params u us] flip: params1_def)
    moreover have "b1 + b2 + bytes_of q2 = bytes_of qs + bytes_of (frame_nals params (u # us))"
      unfolding fn using 1(5) 2(5) by simp
    ultimately show ?thesis using conveys_trans [OF 1(3) 2(3)] 2(2,7) by blast
  qed
qed

text \<open>The frame: what a receiver rebuilds from the packets is the frame's NAL units, in order.\<close>

lemma send_frame_credit:
  assumes "mp = min max_payload RTP_BUFFER_MAX" and "nals = frame_nals params (frame_units stream)"
    and "credit mtu (Suc (frame_cost mp nals + n)) w" and "\<forall>x \<in> set nals. sendable x"
    and "3 < max_payload" and "12 + mp \<le> mtu"
  shows "\<exists>pkts stats' w'. star6e_hevc_rtp_send_frame send stream st ticks params max_payload stats w
      = (bytes_of nals, (rtp_next (length pkts) st)\<lparr>rp_timestamp := rp_timestamp st + ticks\<rparr>,
         frame_params params (frame_units stream), stats', w')
    \<and> credit mtu n w' \<and> delivered w' = delivered w @ rtp_stream st pkts
    \<and> depay [] (map fst pkts) = nals \<and> (\<forall>p \<in> fst ` set pkts. length p \<le> mp)
    \<and> (\<forall>x \<in> set (butlast pkts). \<not> snd x)
    \<and> (frame_units stream \<noteq> [] \<and> snd (snd (last (frame_units stream))) \<longrightarrow> pkts \<noteq> [] \<and> snd (last pkts))"
proof -
  have mp: "3 < mp" "mp \<le> RTP_BUFFER_MAX" "(if max_payload > RTP_BUFFER_MAX then RTP_BUFFER_MAX else max_payload) = mp"
    using assms(1,5) by (auto simp: RTP_BUFFER_MAX_def)
  obtain l where l: "flags l (frame_units stream)" using frame_units_flags by blast
  let ?c = "(hevc_ap_reset, st, stats, w)"
  have "ap_holds mp (ctx_ap ?c) []" by (simp add: ctx_ap_def ap_holds_reset)
  moreover have "credit mtu (frame_cost mp (frame_nals params (frame_units stream)) + Suc n) (ctx_sink ?c)"
    using assms(2,3) by (simp add: ctx_sink_def)
  moreover have "\<forall>x \<in> set (frame_nals params (frame_units stream)). sendable x" using assms(2,4) by simp
  ultimately have units: "\<exists>b pkts ns qs' c'. send_units send mp (frame_units stream) (params, ?c)
        = (b, frame_params params (frame_units stream), c')
    \<and> credit mtu (Suc n) (ctx_sink c') \<and> conveys delivered mp ?c pkts ns qs' c'
    \<and> ns @ qs' = [] @ frame_nals params (frame_units stream)
    \<and> b + bytes_of qs' = bytes_of [] + bytes_of (frame_nals params (frame_units stream))
    \<and> marks (l \<and> frame_units stream \<noteq> []) pkts \<and> (l \<and> frame_units stream \<noteq> [] \<longrightarrow> qs' = [])"
    by (rule send_units_credit [OF _ _ _ l mp(1,2) assms(6)])
  then obtain b p1 ns qs c1 where 1:
    "send_units send mp (frame_units stream) (params, ?c) = (b, frame_params params (frame_units stream), c1)"
    "credit mtu (Suc n) (ctx_sink c1)" "conveys delivered mp ?c p1 ns qs c1" "ns @ qs = nals"
    "b + bytes_of qs = bytes_of nals" "marks (l \<and> frame_units stream \<noteq> []) p1"
    "l \<and> frame_units stream \<noteq> [] \<longrightarrow> qs = []"
    unfolding append_Nil bytes_of_simps(1) add_0 assms(2) [symmetric] by blast
  from ap_flush_credit [OF conveys_holds [OF 1(3)] 1(2) assms(6) mp(2), of True]
  obtain p2 c2 where 2: "hevc_ap_flush send True c1 = (bytes_of qs, c2)" "credit mtu n (ctx_sink c2)"
    "conveys delivered mp c1 p2 qs [] c2" "map snd p2 = (if qs = [] then [] else [True])" by blast
  obtain ap' st' stats' w' where c2: "c2 = (ap', st', stats', w')" by (cases c2) auto
  note ct = conveys_trans [OF 1(3) 2(3), unfolded 1(4)]
  have t: "transmitted delivered st (p1 @ p2) w st' w'" and ca: "carries mp (p1 @ p2) nals"
    using ct by (simp_all add: conveys_def c2)
  have r: "star6e_hevc_rtp_send_frame send stream st ticks params max_payload stats w
      = (b + bytes_of qs, st'\<lparr>rp_timestamp := rp_timestamp st' + ticks\<rparr>,
         frame_params params (frame_units stream), stats', w')"
    using 1(1) 2(1) by (simp add: star6e_hevc_rtp_send_frame_def mp(3) c2 Let_def)
  have d: "depay [] (map fst (p1 @ p2)) = nals"
    using ca unfolding carries_def by (metis append_Nil2 depay.simps(1))
  have m: "\<forall>x \<in> set (butlast (p1 @ p2)). \<not> snd x"
    using 1(6,7) 2(4) by (cases p2) (auto simp: marks_def butlast_append split: if_splits dest: in_set_butlastD)
  have "frame_units stream \<noteq> [] \<and> l \<Longrightarrow> p2 = []" using 1(7) 2(4) by simp
  then have "frame_units stream \<noteq> [] \<and> l \<longrightarrow> p1 @ p2 \<noteq> [] \<and> snd (last (p1 @ p2))"
    using 1(6) by (auto simp: marks_def split: if_splits)
  then have ml: "frame_units stream \<noteq> [] \<and> snd (snd (last (frame_units stream)))
      \<longrightarrow> p1 @ p2 \<noteq> [] \<and> snd (last (p1 @ p2))"
    using l by (auto simp: flags_def)
  show ?thesis
  proof (intro exI [of _ "p1 @ p2"] exI [of _ stats'] exI [of _ w'] conjI)
    show "credit mtu n w'" using 2(2) by (simp add: c2 ctx_sink_def)
    show "\<forall>p \<in> fst ` set (p1 @ p2). length p \<le> mp" using ca by (simp add: carries_def)
    show "delivered w' = delivered w @ rtp_stream st (p1 @ p2)" using t by (simp add: transmitted_def)
  qed (use r t d m ml 1(5) in \<open>simp_all add: transmitted_def\<close>)
qed

end

subsection \<open>Numbering under loss\<close>

text \<open>
  Nothing is assumed of the sink's answers here: whatever is refused, the packets that were
  delivered since a context are a stream with consecutive numbers, and the RTP state counts them.
\<close>

definition numbered :: "('w \<Rightarrow> bytes list) \<Rightarrow> ('w \<Rightarrow> bool) \<Rightarrow> 'w hevc_ctx \<Rightarrow> 'w hevc_ctx \<Rightarrow> bool" where
  "numbered dl ok c c' \<longleftrightarrow> (case c of (ap, st, stats, w) \<Rightarrow> case c' of (ap', st', stats', w') \<Rightarrow>
     ok w \<longrightarrow> ok w' \<and> (\<exists>ps. transmitted dl st ps w st' w'))"

lemma numbered_same [intro]: "numbered dl ok (ap, st, stats, w) (ap', st, stats', w)"
  by (auto simp: numbered_def intro!: exI [of _ "[]"])

lemma numbered_trans: "numbered dl ok c c1 \<Longrightarrow> numbered dl ok c1 c2 \<Longrightarrow> numbered dl ok c c2"
  by (auto simp: numbered_def split: prod.splits dest: transmitted_trans)

context packet_sink
begin

lemma send_rtp_packet_numbered:
  assumes "send_rtp_packet send p st m w = (rc, st', w')"
  shows "numbered delivered sink_ok (ap, st, stats, w) (ap', st', stats', w')"
proof (cases "p = []")
  case True
  then show ?thesis using assms by (auto simp: send_rtp_packet_def)
next
  case False
  then have "rtp_packetizer_send_packet send st p [] m w = (rc, st', w')"
    using assms by (simp add: send_rtp_packet_def)
  from send_packet_transmits [OF _ this] show ?thesis by (auto simp: numbered_def)
qed

lemma ap_flush_numbered:
  assumes "hevc_ap_flush send m c = (n, c')"
  shows "numbered delivered sink_ok c c'"
proof -
  obtain ap st stats w where c: "c = (ap, st, stats, w)" by (cases c) auto
  show ?thesis
    using assms unfolding c hevc_ap_flush_def
    by (auto simp: Let_def split: if_splits prod.splits intro: send_rtp_packet_numbered)
qed

lemma send_nal_numbered:
  assumes "send_nal_rtp_hevc send nal m mp c = (n, c')"
  shows "numbered delivered sink_ok c c'"
proof -
  obtain ap st stats w where c: "c = (ap, st, stats, w)" by (cases c) auto
  show ?thesis
  proof (cases "nal = []")
    case True
    then show ?thesis using assms by (auto simp: c send_nal_rtp_hevc_def)
  next
    case False
    obtain k st' res w' where s: "rtp_packetizer_send_hevc_nal send st nal m mp w = (k, st', res, w')"
      by (metis prod_cases4)
    from send_hevc_nal_numbered [OF _ s] False assms s show ?thesis
      by (auto simp: c send_nal_rtp_hevc_def numbered_def)
  qed
qed

lemma send_or_queue_numbered:
  assumes "send_or_queue_nal_rtp_hevc send nal l mp c = (n, c')"
  shows "numbered delivered sink_ok c c'"
proof -
  obtain ap st stats0 w where c: "c = (ap, st, stats0, w)" by (cases c) auto
  define stats where "stats = stats0\<lparr>hs_total_nals := hs_total_nals stats0 + 1\<rparr>"
  have cd: "numbered delivered sink_ok c (ap, st, stats, w)" by (auto simp: c)
  obtain n1 c1 where f: "hevc_ap_flush send False (ap, st, stats, w) = (n1, c1)" by (metis surj_pair)
  obtain n2 c2 where g: "send_nal_rtp_hevc send nal l mp c1 = (n2, c2)" by (metis surj_pair)
  obtain n3 c3 where h: "send_nal_rtp_hevc send nal l mp (ap, st, stats, w) = (n3, c3)" by (metis surj_pair)
  have tail: "numbered delivered sink_ok (ap1, st1, s1, w1) c4"
    if "(if l then hevc_ap_flush send True (ap2, st1, s1, w1) else (0, ap2, st1, s1, w1)) = (n4, c4)"
    for ap1 ap2 st1 s1 w1 n4 c4
  proof -
    have "numbered delivered sink_ok (ap1, st1, s1, w1) (ap2, st1, s1, w1)" by auto
    with that ap_flush_numbered [of True "(ap2, st1, s1, w1)" n4 c4] show ?thesis
      by (auto split: if_splits intro: numbered_trans)
  qed
  obtain ap1 st1 s1 w1 where c1: "c1 = (ap1, st1, s1, w1)" by (cases c1) auto
  have c1n: "numbered delivered sink_ok c c1" by (rule numbered_trans [OF cd ap_flush_numbered [OF f]])
  consider "nal = []" | "nal \<noteq> []" "length nal > mp \<or> length nal > 65535"
    | "nal \<noteq> []" "\<not> (length nal > mp \<or> length nal > 65535)" "hevc_ap_can_add ap (length nal) mp"
    | "nal \<noteq> []" "\<not> (length nal > mp \<or> length nal > 65535)" "\<not> hevc_ap_can_add ap (length nal) mp"
    by blast
  then show ?thesis
  proof cases
    case 1
    then show ?thesis using assms by (auto simp: c send_or_queue_nal_rtp_hevc_def)
  next
    case 2
    then have "c' = c2"
      using assms f g by (simp add: c send_or_queue_nal_rtp_hevc_def flip: stats_def)
    with numbered_trans [OF c1n send_nal_numbered [OF g]] show ?thesis by simp
  next
    case 3
    then have "(if l then hevc_ap_flush send True (hevc_ap_add ap nal, st, stats, w)
        else (0, hevc_ap_add ap nal, st, stats, w)) = (n, c')"
      using assms by (auto simp: c send_or_queue_nal_rtp_hevc_def Let_def split: prod.splits if_splits
          simp flip: stats_def)
    from numbered_trans [OF cd tail [OF this]] show ?thesis .
  next
    case 4
    show ?thesis
    proof (cases "hevc_ap_can_add ap1 (length nal) mp")
      case False
      with 4 have "c' = c2"
        using assms f g by (simp add: c c1 send_or_queue_nal_rtp_hevc_def flip: stats_def)
      with numbered_trans [OF c1n send_nal_numbered [OF g]] show ?thesis by simp
    next
      case True
      obtain n4 c4 where t: "(if l then hevc_ap_flush send True (hevc_ap_add ap1 nal, st1, s1, w1)
          else (0, hevc_ap_add ap1 nal, st1, s1, w1)) = (n4, c4)" by (metis surj_pair)
      then have "c' = c4"
        using 4 True assms f by (auto simp: c c1 send_or_queue_nal_rtp_hevc_def Let_def
            split: if_splits simp flip: stats_def)
      with numbered_trans [OF c1n [unfolded c1] tail [OF t]] show ?thesis by simp
    qed
  qed
qed

lemma queue_nals_numbered: "queue_nals send mp nals c = (n, c') \<Longrightarrow> numbered delivered sink_ok c c'"
proof (induction nals arbitrary: c n)
  case Nil
  then show ?case by (cases c) auto
next
  case (Cons x xs)
  then show ?case
    by (auto split: prod.splits intro: numbered_trans [OF send_or_queue_numbered])
qed

lemma send_unit_numbered:
  "send_unit send mp u (params, c) = (n, params', c') \<Longrightarrow> numbered delivered sink_ok c c'"
  by (cases u; cases params)
    (auto simp: send_unit_def send_prepend_param_sets_hevc_def Let_def split: prod.splits
      intro: send_or_queue_numbered numbered_trans [OF queue_nals_numbered send_or_queue_numbered])

lemma send_units_numbered:
  "send_units send mp us (params, c) = (n, params', c') \<Longrightarrow> numbered delivered sink_ok c c'"
proof (induction us arbitrary: params c n)
  case Nil
  then show ?case by (cases c) auto
next
  case (Cons u us)
  then show ?case
    by (auto split: prod.splits intro: numbered_trans [OF send_unit_numbered])
qed

lemma send_frame_numbered:
  assumes "sink_ok w"
    and "star6e_hevc_rtp_send_frame send stream st ticks params mp stats w = (n, st', params', stats', w')"
  shows "sink_ok w' \<and> (\<exists>ps. delivered w' = delivered w @ rtp_stream st ps
    \<and> st' = (rtp_next (length ps) st)\<lparr>rp_timestamp := rp_timestamp st + ticks\<rparr>)"
proof -
  define m where "m = (if mp > RTP_BUFFER_MAX then RTP_BUFFER_MAX else mp)"
  obtain n1 p1 c1 where 1: "send_units send m (frame_units stream) (params, hevc_ap_reset, st, stats, w)
      = (n1, p1, c1)" by (metis prod_cases3)
  obtain n2 ap2 st2 s2 w2 where 2: "hevc_ap_flush send True c1 = (n2, ap2, st2, s2, w2)"
    by (metis prod_cases5)
  have "numbered delivered sink_ok (hevc_ap_reset, st, stats, w) (ap2, st2, s2, w2)"
    by (rule numbered_trans [OF send_units_numbered [OF 1] ap_flush_numbered [OF 2]])
  then obtain ps where "sink_ok w2" "transmitted delivered st ps w st2 w2"
    using assms(1) by (auto simp: numbered_def)
  with 1 2 assms(2) show ?thesis
    by (auto simp: star6e_hevc_rtp_send_frame_def transmitted_def simp flip: m_def)
qed

end

end
