(* ===== verification/CLib.thy ===== *)
theory CLib imports Complex_Main Prelude begin

text \<open>
  What the program uses of the C library and language on text and numbers: number parsing
  (\<open>strtol\<close>, \<open>strtoul\<close>, \<open>sscanf "%u"\<close>) and printing (\<open>"%u"\<close>, \<open>"%d"\<close>, \<open>"%02x"\<close>), bounded string
  copies, and doubles as far as they are compared, truncated and stored.
  The targets are 32-bit ARM, so \<open>long\<close> and \<open>unsigned long\<close> have 32 bits.
\<close>

subsection \<open>Characters and digits\<close>

definition c_isspace :: "char \<Rightarrow> bool" where
  "c_isspace c \<longleftrightarrow> of_char c \<in> {32, 9, 10, 11, 12, 13 :: nat}"

definition digit_val :: "char \<Rightarrow> nat" where
  "digit_val c = (let n = (of_char c :: nat) in
     if 48 \<le> n \<and> n \<le> 57 then n - 48
     else if 97 \<le> n \<and> n \<le> 122 then n - 87
     else if 65 \<le> n \<and> n \<le> 90 then n - 55
     else 255)"

fun skip_space :: "string \<Rightarrow> string" where
  "skip_space [] = []"
| "skip_space (c # cs) = (if c_isspace c then skip_space cs else c # cs)"

text \<open>The digits of a number in a base, with the value so far and whether any was read.\<close>

fun scan_digits :: "nat \<Rightarrow> nat \<Rightarrow> bool \<Rightarrow> string \<Rightarrow> nat \<times> bool \<times> string" where
  "scan_digits base acc seen [] = (acc, seen, [])"
| "scan_digits base acc seen (c # cs) =
     (if digit_val c < base then scan_digits base (acc * base + digit_val c) True cs
      else (acc, seen, c # cs))"

fun scan_sign :: "string \<Rightarrow> bool \<times> string" where
  "scan_sign (c # cs) = (if c = CHR ''-'' then (True, cs) else if c = CHR ''+'' then (False, cs) else (False, c # cs))"
| "scan_sign [] = (False, [])"

text \<open>
  \<open>scan_number base s\<close>: white space, a sign, digits; \<open>None\<close> when there is no digit, which
  leaves the end pointer at the start. Base 0 is the C convention (0x, 0, decimal).
\<close>

fun pick_base :: "nat \<Rightarrow> string \<Rightarrow> nat \<times> string" where
  "pick_base base (z # x # d # cs) =
     (if base = 0 \<and> z = CHR ''0'' \<and> (x = CHR ''x'' \<or> x = CHR ''X'') \<and> digit_val d < 16 then (16, d # cs)
      else if base = 0 \<and> z = CHR ''0'' then (8, z # x # d # cs)
      else (if base = 0 then 10 else base, z # x # d # cs))"
| "pick_base base (z # cs) =
     (if base = 0 \<and> z = CHR ''0'' then (8, z # cs) else (if base = 0 then 10 else base, z # cs))"
| "pick_base base [] = (if base = 0 then 10 else base, [])"

definition scan_number :: "nat \<Rightarrow> string \<Rightarrow> (bool \<times> nat \<times> string) option" where
  "scan_number base s =
     (case scan_sign (skip_space s) of (neg, s1) \<Rightarrow>
      case pick_base base s1 of (b, s2) \<Rightarrow>
      case scan_digits b 0 False s2 of (v, seen, rest) \<Rightarrow>
        if seen then Some (neg, v, rest) else None)"

definition LONG_MAX :: int where "LONG_MAX = 2147483647"
definition LONG_MIN :: int where "LONG_MIN = -2147483648"
definition ULONG_MAX :: nat where "ULONG_MAX = 4294967295"

text \<open>\<open>strtol(s, \<^bold>&end, base)\<close>: the value and the rest of the string.\<close>

definition c_strtol :: "nat \<Rightarrow> string \<Rightarrow> int \<times> string" where
  "c_strtol base s = (case scan_number base s of
     None \<Rightarrow> (0, s)
   | Some (neg, v, rest) \<Rightarrow> (if neg then max LONG_MIN (- int v) else min LONG_MAX (int v), rest))"

definition c_strtoul :: "nat \<Rightarrow> string \<Rightarrow> u32 \<times> string" where
  "c_strtoul base s = (case scan_number base s of
     None \<Rightarrow> (0, s)
   | Some (neg, v, rest) \<Rightarrow>
       (if v > ULONG_MAX then 0xFFFFFFFF else if neg then - word_of_nat v else word_of_nat v, rest))"

text \<open>One \<open>%u\<close> conversion of \<open>sscanf\<close>.\<close>

definition c_scan_u :: "string \<Rightarrow> (u32 \<times> string) option" where
  "c_scan_u s = (case scan_number 10 s of None \<Rightarrow> None | Some _ \<Rightarrow> Some (c_strtoul 10 s))"

subsection \<open>Printing\<close>

definition digit_char :: "nat \<Rightarrow> char" where
  "digit_char d = char_of (if d < 10 then 48 + d else 87 + d)"

fun print_base :: "nat \<Rightarrow> nat \<Rightarrow> string" where
  "print_base base n =
     (if base < 2 then [] else if n < base then [digit_char n]
      else print_base base (n div base) @ [digit_char (n mod base)])"

declare print_base.simps [simp del]

definition print_u :: "u32 \<Rightarrow> string" where
  "print_u w = print_base 10 (unat w)"

definition print_02x :: "nat \<Rightarrow> string" where
  "print_02x n = (if n < 16 then CHR ''0'' # print_base 16 n else print_base 16 n)"

lemma digit_val_char: "d < 16 \<Longrightarrow> digit_val (digit_char d) = d"
  by (auto simp: digit_val_def digit_char_def Let_def of_char_of)

definition digits_value :: "nat \<Rightarrow> nat \<Rightarrow> string \<Rightarrow> nat" where
  "digits_value base acc xs = foldl (\<lambda>a c. a * base + digit_val c) acc xs"

lemma scan_digits_append:
  "\<forall>c \<in> set xs. digit_val c < base \<Longrightarrow>
    scan_digits base acc seen (xs @ ys) = scan_digits base (digits_value base acc xs) (seen \<or> xs \<noteq> []) ys"
  by (induction xs arbitrary: acc seen) (simp_all add: digits_value_def)

lemma scan_digits_stop:
  "ys = [] \<or> base \<le> digit_val (hd ys) \<Longrightarrow> scan_digits base acc seen ys = (acc, seen, ys)"
  by (cases ys) auto

lemma print_base_digits:
  "2 \<le> base \<Longrightarrow> base \<le> 16 \<Longrightarrow> print_base base n \<noteq> [] \<and> (\<forall>c \<in> set (print_base base n). digit_val c < base)
    \<and> digits_value base 0 (print_base base n) = n"
proof (induction base n rule: print_base.induct)
  case (1 base n)
  then have "n mod base < base" "n mod base < 16" by (simp_all add: less_le_trans [OF mod_less_divisor])
  with 1 show ?case
    by (subst (1 2 3) print_base.simps) (auto simp: digit_val_char digits_value_def)
qed

lemma scan_digits_print:
  assumes "2 \<le> base" and "base \<le> 16" and "rest = [] \<or> base \<le> digit_val (hd rest)"
  shows "scan_digits base 0 seen (print_base base n @ rest) = (n, True, rest)"
  using print_base_digits [OF assms(1,2), of n] assms(3)
  by (simp add: scan_digits_append scan_digits_stop)

text \<open>A printed number reads back, whatever non-digit follows it.\<close>

lemma digit_not_space: "digit_val c < 16 \<Longrightarrow> \<not> c_isspace c \<and> c \<noteq> CHR ''-'' \<and> c \<noteq> CHR ''+''"
  by (auto simp: digit_val_def c_isspace_def Let_def split: if_splits)

lemma skip_sign_digits:
  "xs \<noteq> [] \<Longrightarrow> \<forall>c \<in> set xs. digit_val c < 16 \<Longrightarrow> scan_sign (skip_space (xs @ ys)) = (False, xs @ ys)"
  using digit_not_space by (cases xs) auto

lemma scan_number_print:
  assumes "rest = [] \<or> 10 \<le> digit_val (hd rest)"
  shows "scan_number 10 (print_base 10 n @ rest) = Some (False, n, rest)"
proof -
  have d: "print_base 10 n \<noteq> []" "\<forall>c \<in> set (print_base 10 n). digit_val c < 10"
    using print_base_digits [of 10 n] by auto
  then have "\<forall>c \<in> set (print_base 10 n). digit_val c < 16" by fastforce
  then have "scan_sign (skip_space (print_base 10 n @ rest)) = (False, print_base 10 n @ rest)"
    using d(1) by (intro skip_sign_digits)
  moreover have "pick_base 10 xs = (10, xs)" for xs
    by (cases "(10 :: nat, xs)" rule: pick_base.cases) auto
  ultimately show ?thesis using scan_digits_print [of 10 rest False n] assms
    by (simp add: scan_number_def)
qed

lemma scan_u_print: "rest = [] \<or> 10 \<le> digit_val (hd rest) \<Longrightarrow> c_scan_u (print_u w @ rest) = Some (w, rest)"
  using unat_lt_word [of w]
  by (simp add: c_scan_u_def print_u_def scan_number_print c_strtoul_def ULONG_MAX_def)

lemma print_02x_scan: "n < 256 \<Longrightarrow> fst (c_strtoul 0 (''0x'' @ print_02x n)) = word_of_nat n"
proof -
  assume n: "n < 256"
  define xs where "xs = print_02x n"
  have d: "print_base 16 n \<noteq> []" "\<forall>c \<in> set (print_base 16 n). digit_val c < 16"
    using print_base_digits [of 16 n] by auto
  have "digit_val (CHR ''0'') = 0" by (simp add: digit_val_def)
  then have xs: "xs \<noteq> []" "\<forall>c \<in> set xs. digit_val c < 16" "scan_digits 16 0 False xs = (n, True, [])"
    using d scan_digits_print [of 16 "[]" _ n] by (auto simp: xs_def print_02x_def)
  then obtain c cs where c: "xs = c # cs" "digit_val c < 16" by (cases xs) auto
  have "scan_sign (skip_space (''0x'' @ xs)) = (False, ''0x'' @ xs)"
    by (simp add: c_isspace_def)
  moreover have "pick_base 0 (''0x'' @ xs) = (16, xs)" using c by simp
  ultimately show ?thesis using xs(3) n
    by (simp add: c_strtoul_def scan_number_def ULONG_MAX_def flip: xs_def)
qed

subsection \<open>Strings in fixed buffers\<close>

text \<open>
  A C string in a buffer is the list of its characters before the terminator; \<open>safe_strcpy\<close>
  cuts it to what fits.
\<close>

definition safe_strcpy :: "nat \<Rightarrow> string \<Rightarrow> string" where
  "safe_strcpy dst_size src = take (dst_size - 1) src"

lemma safe_strcpy_fits: "0 < n \<Longrightarrow> length (safe_strcpy n s) < n"
  by (simp add: safe_strcpy_def)

lemma safe_strcpy_id: "length s < n \<Longrightarrow> safe_strcpy n s = s"
  by (simp add: safe_strcpy_def)

definition has_prefix :: "string \<Rightarrow> string \<Rightarrow> bool" where
  "has_prefix p s \<longleftrightarrow> take (length p) s = p"

lemma has_prefix_append [simp]: "has_prefix p (p @ s)"
  by (simp add: has_prefix_def)

text \<open>\<open>strrchr\<close>: the text before and after the last occurrence.\<close>

fun split_last :: "char \<Rightarrow> string \<Rightarrow> (string \<times> string) option" where
  "split_last x [] = None"
| "split_last x (c # cs) = (case split_last x cs of
     Some (a, b) \<Rightarrow> Some (c # a, b)
   | None \<Rightarrow> if c = x then Some ([], cs) else None)"

lemma split_last_None: "split_last x s = None \<longleftrightarrow> x \<notin> set s"
  by (induction s) (auto split: option.splits)

lemma split_last_append: "x \<notin> set b \<Longrightarrow> split_last x (a @ x # b) = Some (a, b)"
  using split_last_None [of x b] by (induction a) auto

lemma split_last_Some: "split_last x s = Some (a, b) \<Longrightarrow> s = a @ x # b \<and> x \<notin> set b"
  by (induction s arbitrary: a) (auto split: option.splits if_splits simp: split_last_None)

subsection \<open>Doubles\<close>

text \<open>
  A double is a number, an infinity or NaN; comparisons with NaN are false. The program only
  compares, converts and stores them here, so the rounding of literals does not arise, and
  the conversion to \<open>float\<close> is an argument of the definitions that use it.
\<close>

datatype dbl = Fin rat | PInf | NInf | NaN

fun dbl_lt :: "dbl \<Rightarrow> dbl \<Rightarrow> bool" where
  "dbl_lt (Fin a) (Fin b) = (a < b)"
| "dbl_lt (Fin a) PInf = True"
| "dbl_lt NInf (Fin b) = True"
| "dbl_lt NInf PInf = True"
| "dbl_lt _ _ = False"

definition dbl_between :: "dbl \<Rightarrow> dbl \<Rightarrow> dbl \<Rightarrow> bool" where
  "dbl_between lo hi x \<longleftrightarrow> \<not> dbl_lt x lo \<and> \<not> dbl_lt hi x"

definition trunc_rat :: "rat \<Rightarrow> int" where
  "trunc_rat r = (if 0 \<le> r then \<lfloor>r\<rfloor> else \<lceil>r\<rceil>)"

lemma trunc_rat_of_int [simp]: "trunc_rat (of_int i) = i"
  by (simp add: trunc_rat_def)

definition INT_MAX :: int where "INT_MAX = 2147483647"
definition INT_MIN :: int where "INT_MIN = -2147483648"

end
