(* ===== verification/Config.thy ===== *)
theory Config imports CLib begin

text \<open>
  The configuration (\<open>include/venc_config.h\<close>, \<open>src/venc_config.c\<close>): defaults, loading from a
  parsed JSON document with the clamps of each section, serialization, and the output URI.
  The JSON library (\<open>lib/cJSON.c\<close>, vendored) is represented by the trees it exchanges; its
  parser and printer are arguments of load and save.
\<close>

subsection \<open>JSON trees as cJSON hands them out\<close>

datatype json = JNull | JBool bool | JNumber dbl | JString string | JArray "json list"
  | JObject "(string \<times> json) list"

text \<open>\<open>valueint\<close> of a number saturates; NaN has no integer value and never comes from a document.\<close>

fun cjson_valueint :: "dbl \<Rightarrow> int" where
  "cjson_valueint (Fin r) =
     (if r \<ge> of_int INT_MAX then INT_MAX else if r \<le> of_int INT_MIN then INT_MIN else trunc_rat r)"
| "cjson_valueint PInf = INT_MAX"
| "cjson_valueint NInf = INT_MIN"
| "cjson_valueint NaN = 0"

fun cjson_get :: "json \<Rightarrow> string \<Rightarrow> json option" where
  "cjson_get (JObject kvs) key = map_of kvs key"
| "cjson_get _ key = None"

definition json_get_string :: "json \<Rightarrow> string \<Rightarrow> string option \<Rightarrow> string option" where
  "json_get_string obj key fallback = (case cjson_get obj key of Some (JString s) \<Rightarrow> Some s | _ \<Rightarrow> fallback)"

definition json_get_str :: "json \<Rightarrow> string \<Rightarrow> string \<Rightarrow> string" where
  "json_get_str obj key fallback = (case cjson_get obj key of Some (JString s) \<Rightarrow> s | _ \<Rightarrow> fallback)"

definition json_get_int :: "json \<Rightarrow> string \<Rightarrow> int \<Rightarrow> int" where
  "json_get_int obj key fallback = (case cjson_get obj key of Some (JNumber d) \<Rightarrow> cjson_valueint d | _ \<Rightarrow> fallback)"

definition json_get_bool :: "json \<Rightarrow> string \<Rightarrow> bool \<Rightarrow> bool" where
  "json_get_bool obj key fallback = (case cjson_get obj key of Some (JBool b) \<Rightarrow> b | _ \<Rightarrow> fallback)"

definition json_get_double :: "json \<Rightarrow> string \<Rightarrow> dbl \<Rightarrow> dbl" where
  "json_get_double obj key fallback = (case cjson_get obj key of Some (JNumber d) \<Rightarrow> d | _ \<Rightarrow> fallback)"

subsection \<open>Sections\<close>

definition VENC_CONFIG_STRING_MAX :: nat where "VENC_CONFIG_STRING_MAX = 256"

record cfg_system =
  sys_web_port :: u16
  sys_overclock_level :: int
  sys_verbose :: bool

record cfg_sensor =
  sen_index :: int
  sen_mode :: int
  sen_unlock_enabled :: bool
  sen_unlock_cmd :: u32
  sen_unlock_reg :: u16
  sen_unlock_value :: u16
  sen_unlock_dir :: int

record cfg_isp =
  isp_sensor_bin :: string
  isp_exposure :: u32
  isp_legacy_ae :: bool
  isp_ae_fps :: u32
  isp_gain_max :: u32
  isp_awb_mode :: string
  isp_awb_ct :: u32

record cfg_image =
  img_mirror :: bool
  img_flip :: bool
  img_rotate :: int

record cfg_video =
  vid_codec :: string
  vid_rc_mode :: string
  vid_fps :: u32
  vid_width :: u32
  vid_height :: u32
  vid_bitrate :: u32
  vid_gop_size :: dbl
  vid_qp_delta :: int
  vid_frame_lost :: bool
  vid_scene_threshold :: u16
  vid_scene_holdoff :: u8

record cfg_audio =
  aud_enabled :: bool
  aud_sample_rate :: u32
  aud_channels :: u32
  aud_codec :: string
  aud_volume :: int
  aud_mute :: bool

record cfg_outgoing =
  out_enabled :: bool
  out_server :: string
  out_stream_mode :: string
  out_max_payload_size :: u16
  out_connected_udp :: bool
  out_audio_port :: u16
  out_sidecar_port :: u16

record cfg_fpv =
  fpv_roi_enabled :: bool
  fpv_roi_qp :: int
  fpv_roi_steps :: u16
  fpv_roi_center :: dbl
  fpv_noise_level :: int

record cfg_imu =
  imu_enabled :: bool
  imu_i2c_device :: string
  imu_i2c_addr :: u8
  imu_sample_rate_hz :: int
  imu_gyro_range_dps :: int
  imu_cal_file :: string
  imu_cal_samples :: int

record cfg_eis =
  eis_enabled :: bool
  eis_mode :: string
  eis_margin_percent :: int
  eis_test_mode :: bool
  eis_swap_xy :: bool
  eis_invert_x :: bool
  eis_invert_y :: bool
  eis_gain :: dbl
  eis_deadband_rad :: dbl
  eis_recenter_rate :: dbl
  eis_max_slew_px :: dbl
  eis_bias_alpha :: dbl

record cfg_record =
  rec_enabled :: bool
  rec_dir :: string
  rec_format :: string
  rec_mode :: string
  rec_max_seconds :: u32
  rec_max_mb :: u32
  rec_bitrate :: u32
  rec_fps :: u32
  rec_gop_size :: dbl
  rec_server :: string

record venc_config =
  c_system :: cfg_system
  c_sensor :: cfg_sensor
  c_isp :: cfg_isp
  c_image :: cfg_image
  c_video0 :: cfg_video
  c_outgoing :: cfg_outgoing
  c_fpv :: cfg_fpv
  c_audio :: cfg_audio
  c_imu :: cfg_imu
  c_eis :: cfg_eis
  c_record :: cfg_record
  c_show_osd :: bool

definition venc_config_defaults :: venc_config where
  "venc_config_defaults = \<lparr>
     c_system = \<lparr>sys_web_port = 80, sys_overclock_level = 1, sys_verbose = False\<rparr>,
     c_sensor = \<lparr>sen_index = -1, sen_mode = -1, sen_unlock_enabled = True, sen_unlock_cmd = 0x23,
       sen_unlock_reg = 0x300a, sen_unlock_value = 0x80, sen_unlock_dir = 0\<rparr>,
     c_isp = \<lparr>isp_sensor_bin = '''', isp_exposure = 0, isp_legacy_ae = True, isp_ae_fps = 15,
       isp_gain_max = 0, isp_awb_mode = ''auto'', isp_awb_ct = 5500\<rparr>,
     c_image = \<lparr>img_mirror = False, img_flip = False, img_rotate = 0\<rparr>,
     c_video0 = \<lparr>vid_codec = ''h265'', vid_rc_mode = ''cbr'', vid_fps = 60, vid_width = 1920,
       vid_height = 1080, vid_bitrate = 8192, vid_gop_size = Fin 1, vid_qp_delta = -4,
       vid_frame_lost = True, vid_scene_threshold = 0, vid_scene_holdoff = 2\<rparr>,
     c_outgoing = \<lparr>out_enabled = False, out_server = '''', out_stream_mode = ''rtp'',
       out_max_payload_size = 1400, out_connected_udp = True, out_audio_port = 5601,
       out_sidecar_port = 5602\<rparr>,
     c_fpv = \<lparr>fpv_roi_enabled = True, fpv_roi_qp = 0, fpv_roi_steps = 2,
       fpv_roi_center = Fin (4 / 10), fpv_noise_level = 0\<rparr>,
     c_audio = \<lparr>aud_enabled = False, aud_sample_rate = 48000, aud_channels = 1,
       aud_codec = ''opus'', aud_volume = 80, aud_mute = False\<rparr>,
     c_imu = \<lparr>imu_enabled = False, imu_i2c_device = ''/dev/i2c-1'', imu_i2c_addr = 0x68,
       imu_sample_rate_hz = 200, imu_gyro_range_dps = 1000, imu_cal_file = ''/etc/imu.cal'',
       imu_cal_samples = 400\<rparr>,
     c_eis = \<lparr>eis_enabled = False, eis_mode = ''gyroglide'', eis_margin_percent = 30,
       eis_test_mode = False, eis_swap_xy = False, eis_invert_x = False, eis_invert_y = False,
       eis_gain = Fin 1, eis_deadband_rad = Fin 0, eis_recenter_rate = Fin (1 / 2),
       eis_max_slew_px = Fin 0, eis_bias_alpha = Fin (1 / 1000)\<rparr>,
     c_record = \<lparr>rec_enabled = False, rec_dir = ''/mnt/mmcblk0p1'', rec_format = ''ts'',
       rec_mode = ''mirror'', rec_max_seconds = 300, rec_max_mb = 500, rec_bitrate = 0, rec_fps = 0,
       rec_gop_size = Fin 0, rec_server = ''''\<rparr>,
     c_show_osd = False\<rparr>"

subsection \<open>Loading\<close>

text \<open>The two-sided and one-sided clamps of the loaders, on integers, words and doubles.\<close>

definition clamp_int :: "int \<Rightarrow> int \<Rightarrow> int \<Rightarrow> int" where
  "clamp_int lo hi x = (let y = (if x < lo then lo else x) in if y > hi then hi else y)"

definition clamp_word :: "'a::len word \<Rightarrow> 'a word \<Rightarrow> 'a word \<Rightarrow> 'a word" where
  "clamp_word lo hi x = (let y = (if x < lo then lo else x) in if y > hi then hi else y)"

definition clamp_low :: "dbl \<Rightarrow> dbl \<Rightarrow> dbl" where
  "clamp_low lo x = (if dbl_lt x lo then lo else x)"

definition clamp_high :: "dbl \<Rightarrow> dbl \<Rightarrow> dbl" where
  "clamp_high hi x = (if dbl_lt hi x then hi else x)"

definition load_system :: "json \<Rightarrow> cfg_system \<Rightarrow> cfg_system" where
  "load_system doc s = (case cjson_get doc ''system'' of None \<Rightarrow> s | Some obj \<Rightarrow>
     s\<lparr>sys_web_port := word_of_int (json_get_int obj ''webPort'' (uint (sys_web_port s))),
       sys_overclock_level := clamp_int 0 2 (json_get_int obj ''overclockLevel'' (sys_overclock_level s)),
       sys_verbose := json_get_bool obj ''verbose'' (sys_verbose s)\<rparr>)"

definition load_sensor :: "json \<Rightarrow> cfg_sensor \<Rightarrow> cfg_sensor" where
  "load_sensor doc s = (case cjson_get doc ''sensor'' of None \<Rightarrow> s | Some obj \<Rightarrow>
     s\<lparr>sen_index := json_get_int obj ''index'' (sen_index s),
       sen_mode := json_get_int obj ''mode'' (sen_mode s),
       sen_unlock_enabled := json_get_bool obj ''unlockEnabled'' (sen_unlock_enabled s),
       sen_unlock_cmd := word_of_int (json_get_int obj ''unlockCmd'' (sint (sen_unlock_cmd s))),
       sen_unlock_reg := word_of_int (json_get_int obj ''unlockReg'' (uint (sen_unlock_reg s))),
       sen_unlock_value := word_of_int (json_get_int obj ''unlockValue'' (uint (sen_unlock_value s))),
       sen_unlock_dir := clamp_int 0 1 (json_get_int obj ''unlockDir'' (sen_unlock_dir s))\<rparr>)"

definition load_isp :: "json \<Rightarrow> cfg_isp \<Rightarrow> cfg_isp" where
  "load_isp doc s = (case cjson_get doc ''isp'' of None \<Rightarrow> s | Some obj \<Rightarrow>
     s\<lparr>isp_sensor_bin := safe_strcpy VENC_CONFIG_STRING_MAX (json_get_str obj ''sensorBin'' (isp_sensor_bin s)),
       isp_exposure := word_of_int (json_get_int obj ''exposure'' (sint (isp_exposure s))),
       isp_legacy_ae := json_get_bool obj ''legacyAe'' (isp_legacy_ae s),
       isp_ae_fps := word_of_int (json_get_int obj ''aeFps'' (sint (isp_ae_fps s))),
       isp_gain_max := word_of_int (json_get_int obj ''gainMax'' (sint (isp_gain_max s))),
       isp_awb_mode := safe_strcpy 16 (json_get_str obj ''awbMode'' (isp_awb_mode s)),
       isp_awb_ct := word_of_int (json_get_int obj ''awbCt'' (sint (isp_awb_ct s)))\<rparr>)"

definition load_image :: "json \<Rightarrow> cfg_image \<Rightarrow> cfg_image" where
  "load_image doc s = (case cjson_get doc ''image'' of None \<Rightarrow> s | Some obj \<Rightarrow>
     let s1 = s\<lparr>img_mirror := json_get_bool obj ''mirror'' (img_mirror s),
                img_flip := json_get_bool obj ''flip'' (img_flip s),
                img_rotate := json_get_int obj ''rotate'' (img_rotate s)\<rparr>
     in if img_rotate s1 = 180 then s1\<lparr>img_mirror := True, img_flip := True\<rparr>
        else s1\<lparr>img_rotate := 0\<rparr>)"

definition parse_resolution :: "string \<Rightarrow> (u32 \<times> u32) option" where
  "parse_resolution str =
     (if str = ''720p'' then Some (1280, 720)
      else if str = ''1080p'' then Some (1920, 1080)
      else if str = ''4MP'' then Some (2688, 1520)
      else case c_scan_u str of
        Some (w, c # rest) \<Rightarrow>
          (if c = CHR ''x'' then (case c_scan_u rest of Some (h, _) \<Rightarrow> Some (w, h) | None \<Rightarrow> None) else None)
      | _ \<Rightarrow> None)"

definition load_video0 :: "json \<Rightarrow> cfg_video \<Rightarrow> cfg_video" where
  "load_video0 doc v = (case cjson_get doc ''video0'' of None \<Rightarrow> v | Some obj \<Rightarrow>
     let v1 = v\<lparr>vid_codec := safe_strcpy 16 (json_get_str obj ''codec'' (vid_codec v)),
                vid_rc_mode := safe_strcpy 16 (json_get_str obj ''rcMode'' (vid_rc_mode v)),
                vid_fps := word_of_int (json_get_int obj ''fps'' (sint (vid_fps v)))\<rparr>;
         v2 = (case json_get_string obj ''size'' None of None \<Rightarrow> v1 | Some sz \<Rightarrow>
                 (case parse_resolution sz of Some (w, h) \<Rightarrow> v1\<lparr>vid_width := w, vid_height := h\<rparr>
                  | None \<Rightarrow> v1));
         v3 = v2\<lparr>vid_bitrate := word_of_int (json_get_int obj ''bitrate'' (sint (vid_bitrate v2))),
                 vid_gop_size := json_get_double obj ''gopSize'' (vid_gop_size v2),
                 vid_qp_delta := clamp_int (-12) 12 (json_get_int obj ''qpDelta'' (vid_qp_delta v2)),
                 vid_frame_lost := json_get_bool obj ''frameLost'' (vid_frame_lost v2),
                 vid_scene_threshold := word_of_int (json_get_int obj ''sceneThreshold'' (uint (vid_scene_threshold v2))),
                 vid_scene_holdoff := word_of_int (json_get_int obj ''sceneHoldoff'' (uint (vid_scene_holdoff v2)))\<rparr>
     in if vid_scene_holdoff v3 < 1 \<and> vid_scene_threshold v3 > 0 then v3\<lparr>vid_scene_holdoff := 1\<rparr> else v3)"

definition load_outgoing :: "json \<Rightarrow> cfg_outgoing \<Rightarrow> cfg_outgoing" where
  "load_outgoing doc s = (case cjson_get doc ''outgoing'' of None \<Rightarrow> s | Some obj \<Rightarrow>
     s\<lparr>out_enabled := json_get_bool obj ''enabled'' (out_enabled s),
       out_server := safe_strcpy VENC_CONFIG_STRING_MAX (json_get_str obj ''server'' (out_server s)),
       out_stream_mode := safe_strcpy 16 (json_get_str obj ''streamMode'' (out_stream_mode s)),
       out_max_payload_size := word_of_int (json_get_int obj ''maxPayloadSize'' (uint (out_max_payload_size s))),
       out_connected_udp := json_get_bool obj ''connectedUdp'' (out_connected_udp s),
       out_audio_port := word_of_int (json_get_int obj ''audioPort'' (uint (out_audio_port s))),
       out_sidecar_port := word_of_int (json_get_int obj ''sidecarPort'' (uint (out_sidecar_port s)))\<rparr>)"

definition load_audio :: "json \<Rightarrow> cfg_audio \<Rightarrow> cfg_audio" where
  "load_audio doc a = (case cjson_get doc ''audio'' of None \<Rightarrow> a | Some obj \<Rightarrow>
     a\<lparr>aud_enabled := json_get_bool obj ''enabled'' (aud_enabled a),
       aud_sample_rate := clamp_word 8000 48000 (word_of_int (json_get_int obj ''sampleRate'' (sint (aud_sample_rate a)))),
       aud_channels := clamp_word 1 2 (word_of_int (json_get_int obj ''channels'' (sint (aud_channels a)))),
       aud_codec := safe_strcpy 16 (json_get_str obj ''codec'' (aud_codec a)),
       aud_volume := clamp_int 0 100 (json_get_int obj ''volume'' (aud_volume a)),
       aud_mute := json_get_bool obj ''mute'' (aud_mute a)\<rparr>)"

definition load_imu :: "json \<Rightarrow> cfg_imu \<Rightarrow> cfg_imu" where
  "load_imu doc s = (case cjson_get doc ''imu'' of None \<Rightarrow> s | Some obj \<Rightarrow>
     s\<lparr>imu_enabled := json_get_bool obj ''enabled'' (imu_enabled s),
       imu_i2c_device := safe_strcpy VENC_CONFIG_STRING_MAX (json_get_str obj ''i2cDevice'' (imu_i2c_device s)),
       imu_i2c_addr := (case json_get_string obj ''i2cAddr'' None of
           None \<Rightarrow> imu_i2c_addr s | Some a \<Rightarrow> ucast (fst (c_strtoul 0 a))),
       imu_sample_rate_hz := clamp_int 25 1600 (json_get_int obj ''sampleRateHz'' (imu_sample_rate_hz s)),
       imu_gyro_range_dps := json_get_int obj ''gyroRangeDps'' (imu_gyro_range_dps s),
       imu_cal_file := safe_strcpy VENC_CONFIG_STRING_MAX (json_get_str obj ''calFile'' (imu_cal_file s)),
       imu_cal_samples := (let n = json_get_int obj ''calSamples'' (imu_cal_samples s) in if n < 10 then 10 else n)\<rparr>)"

text \<open>\<open>f32\<close> is the conversion from double to single precision.\<close>

definition load_eis :: "(dbl \<Rightarrow> dbl) \<Rightarrow> json \<Rightarrow> cfg_eis \<Rightarrow> cfg_eis" where
  "load_eis f32 doc s = (case cjson_get doc ''eis'' of None \<Rightarrow> s | Some obj \<Rightarrow>
     s\<lparr>eis_enabled := json_get_bool obj ''enabled'' (eis_enabled s),
       eis_mode := safe_strcpy 16 (json_get_str obj ''mode'' (eis_mode s)),
       eis_margin_percent := clamp_int 1 30 (json_get_int obj ''marginPercent'' (eis_margin_percent s)),
       eis_test_mode := json_get_bool obj ''testMode'' (eis_test_mode s),
       eis_swap_xy := json_get_bool obj ''swapXY'' (eis_swap_xy s),
       eis_invert_x := json_get_bool obj ''invertX'' (eis_invert_x s),
       eis_invert_y := json_get_bool obj ''invertY'' (eis_invert_y s),
       eis_gain := clamp_high (Fin 1) (clamp_low (Fin 0) (f32 (json_get_double obj ''gain'' (eis_gain s)))),
       eis_deadband_rad := clamp_low (Fin 0) (f32 (json_get_double obj ''deadbandRad'' (eis_deadband_rad s))),
       eis_recenter_rate := clamp_low (Fin 0) (f32 (json_get_double obj ''recenterRate'' (eis_recenter_rate s))),
       eis_max_slew_px := clamp_low (Fin 0) (f32 (json_get_double obj ''maxSlewPx'' (eis_max_slew_px s))),
       eis_bias_alpha := clamp_low (Fin 0) (f32 (json_get_double obj ''biasAlpha'' (eis_bias_alpha s)))\<rparr>)"

definition load_record :: "json \<Rightarrow> cfg_record \<Rightarrow> cfg_record" where
  "load_record doc s = (case cjson_get doc ''record'' of None \<Rightarrow> s | Some obj \<Rightarrow>
     s\<lparr>rec_enabled := json_get_bool obj ''enabled'' (rec_enabled s),
       rec_dir := safe_strcpy VENC_CONFIG_STRING_MAX (json_get_str obj ''dir'' (rec_dir s)),
       rec_format := safe_strcpy 16 (json_get_str obj ''format'' (rec_format s)),
       rec_mode := safe_strcpy 16 (json_get_str obj ''mode'' (rec_mode s)),
       rec_max_seconds := word_of_int (json_get_int obj ''maxSeconds'' (sint (rec_max_seconds s))),
       rec_max_mb := word_of_int (json_get_int obj ''maxMB'' (sint (rec_max_mb s))),
       rec_bitrate := word_of_int (json_get_int obj ''bitrate'' (sint (rec_bitrate s))),
       rec_fps := word_of_int (json_get_int obj ''fps'' (sint (rec_fps s))),
       rec_gop_size := json_get_double obj ''gopSize'' (rec_gop_size s),
       rec_server := safe_strcpy VENC_CONFIG_STRING_MAX (json_get_str obj ''server'' (rec_server s))\<rparr>)"

definition load_fpv :: "json \<Rightarrow> cfg_fpv \<Rightarrow> cfg_fpv" where
  "load_fpv doc s = (case cjson_get doc ''fpv'' of None \<Rightarrow> s | Some obj \<Rightarrow>
     s\<lparr>fpv_roi_enabled := json_get_bool obj ''roiEnabled'' (fpv_roi_enabled s),
       fpv_roi_qp := clamp_int (-30) 30 (json_get_int obj ''roiQp'' (fpv_roi_qp s)),
       fpv_roi_steps := clamp_word 1 4 (word_of_int (json_get_int obj ''roiSteps'' (uint (fpv_roi_steps s)))),
       fpv_roi_center := clamp_high (Fin (9 / 10)) (clamp_low (Fin (1 / 10))
         (json_get_double obj ''roiCenter'' (fpv_roi_center s))),
       fpv_noise_level := clamp_int 0 7 (json_get_int obj ''noiseLevel'' (fpv_noise_level s))\<rparr>)"

definition load_root :: "(dbl \<Rightarrow> dbl) \<Rightarrow> json \<Rightarrow> venc_config \<Rightarrow> venc_config" where
  "load_root f32 doc cfg = \<lparr>
     c_system = load_system doc (c_system cfg), c_sensor = load_sensor doc (c_sensor cfg),
     c_isp = load_isp doc (c_isp cfg), c_image = load_image doc (c_image cfg),
     c_video0 = load_video0 doc (c_video0 cfg), c_outgoing = load_outgoing doc (c_outgoing cfg),
     c_fpv = load_fpv doc (c_fpv cfg), c_audio = load_audio doc (c_audio cfg),
     c_imu = load_imu doc (c_imu cfg), c_eis = load_eis f32 doc (c_eis cfg),
     c_record = load_record doc (c_record cfg),
     c_show_osd = (case cjson_get doc ''debug'' of None \<Rightarrow> c_show_osd cfg
       | Some obj \<Rightarrow> json_get_bool obj ''showOsd'' (c_show_osd cfg))\<rparr>"

text \<open>
  \<open>venc_config_load\<close>: the file's text (\<open>None\<close> when it cannot be read or is empty, with whether
  \<open>errno\<close> then says that there is no such file) and the parser are arguments.
\<close>

definition venc_config_load ::
  "(dbl \<Rightarrow> dbl) \<Rightarrow> (string \<Rightarrow> json option) \<Rightarrow> string option \<Rightarrow> bool \<Rightarrow> venc_config \<Rightarrow> int \<times> venc_config" where
  "venc_config_load f32 parse data enoent cfg =
     (case data of
       None \<Rightarrow> (if enoent then 0 else -1, cfg)
     | Some txt \<Rightarrow> (case parse txt of None \<Rightarrow> (-1, cfg) | Some doc \<Rightarrow> (0, load_root f32 doc cfg)))"

subsection \<open>Saving\<close>

definition jint :: "int \<Rightarrow> json" where "jint i = JNumber (Fin (of_int i))"
definition jword :: "'a::len word \<Rightarrow> json" where "jword w = JNumber (Fin (of_int (uint w)))"

definition cjson_system :: "cfg_system \<Rightarrow> json" where
  "cjson_system sy = JObject [(''webPort'', jword (sys_web_port sy)),
        (''overclockLevel'', jint (sys_overclock_level sy)), (''verbose'', JBool (sys_verbose sy))]"

definition cjson_sensor :: "cfg_sensor \<Rightarrow> json" where
  "cjson_sensor sn = JObject [(''index'', jint (sen_index sn)), (''mode'', jint (sen_mode sn)),
        (''unlockEnabled'', JBool (sen_unlock_enabled sn)), (''unlockCmd'', jword (sen_unlock_cmd sn)),
        (''unlockReg'', jword (sen_unlock_reg sn)), (''unlockValue'', jword (sen_unlock_value sn)),
        (''unlockDir'', jint (sen_unlock_dir sn))]"

definition cjson_isp :: "cfg_isp \<Rightarrow> json" where
  "cjson_isp isp = JObject [(''sensorBin'', JString (isp_sensor_bin isp)), (''exposure'', jword (isp_exposure isp)),
        (''legacyAe'', JBool (isp_legacy_ae isp)), (''aeFps'', jword (isp_ae_fps isp)),
        (''gainMax'', jword (isp_gain_max isp)), (''awbMode'', JString (isp_awb_mode isp)),
        (''awbCt'', jword (isp_awb_ct isp))]"

definition cjson_image :: "cfg_image \<Rightarrow> json" where
  "cjson_image im = JObject [(''mirror'', JBool (img_mirror im)), (''flip'', JBool (img_flip im)),
        (''rotate'', jint (img_rotate im))]"

definition cjson_video0 :: "cfg_video \<Rightarrow> json" where
  "cjson_video0 v = JObject [(''codec'', JString (vid_codec v)), (''rcMode'', JString (vid_rc_mode v)),
        (''fps'', jword (vid_fps v)),
        (''size'', JString (print_u (vid_width v) @ ''x'' @ print_u (vid_height v))),
        (''bitrate'', jword (vid_bitrate v)), (''gopSize'', JNumber (vid_gop_size v)),
        (''qpDelta'', jint (vid_qp_delta v)), (''frameLost'', JBool (vid_frame_lost v)),
        (''sceneThreshold'', jword (vid_scene_threshold v)), (''sceneHoldoff'', jword (vid_scene_holdoff v))]"

definition cjson_outgoing :: "cfg_outgoing \<Rightarrow> json" where
  "cjson_outgoing ou = JObject [(''enabled'', JBool (out_enabled ou)), (''server'', JString (out_server ou)),
        (''streamMode'', JString (out_stream_mode ou)), (''maxPayloadSize'', jword (out_max_payload_size ou)),
        (''connectedUdp'', JBool (out_connected_udp ou)), (''audioPort'', jword (out_audio_port ou)),
        (''sidecarPort'', jword (out_sidecar_port ou))]"

definition cjson_fpv :: "cfg_fpv \<Rightarrow> json" where
  "cjson_fpv fp = JObject [(''roiEnabled'', JBool (fpv_roi_enabled fp)), (''roiQp'', jint (fpv_roi_qp fp)),
        (''roiSteps'', jword (fpv_roi_steps fp)), (''roiCenter'', JNumber (fpv_roi_center fp)),
        (''noiseLevel'', jint (fpv_noise_level fp))]"

definition cjson_audio :: "cfg_audio \<Rightarrow> json" where
  "cjson_audio au = JObject [(''enabled'', JBool (aud_enabled au)), (''sampleRate'', jword (aud_sample_rate au)),
        (''channels'', jword (aud_channels au)), (''codec'', JString (aud_codec au)),
        (''volume'', jint (aud_volume au)), (''mute'', JBool (aud_mute au))]"

definition cjson_imu :: "cfg_imu \<Rightarrow> json" where
  "cjson_imu mu = JObject [(''enabled'', JBool (imu_enabled mu)), (''i2cDevice'', JString (imu_i2c_device mu)),
        (''i2cAddr'', JString (''0x'' @ print_02x (unat (imu_i2c_addr mu)))),
        (''sampleRateHz'', jint (imu_sample_rate_hz mu)), (''gyroRangeDps'', jint (imu_gyro_range_dps mu)),
        (''calFile'', JString (imu_cal_file mu)), (''calSamples'', jint (imu_cal_samples mu))]"

text \<open>Six significant digits, through \<open>snprintf\<close> and \<open>strtod\<close>.\<close>

definition float_clean :: "(dbl \<Rightarrow> string) \<Rightarrow> (string \<Rightarrow> dbl) \<Rightarrow> dbl \<Rightarrow> dbl" where
  "float_clean fmt_g strtod v = strtod (fmt_g v)"

definition cjson_eis :: "(dbl \<Rightarrow> dbl) \<Rightarrow> cfg_eis \<Rightarrow> json" where
  "cjson_eis clean ei = JObject [(''enabled'', JBool (eis_enabled ei)), (''mode'', JString (eis_mode ei)),
        (''marginPercent'', jint (eis_margin_percent ei)), (''testMode'', JBool (eis_test_mode ei)),
        (''swapXY'', JBool (eis_swap_xy ei)), (''invertX'', JBool (eis_invert_x ei)),
        (''invertY'', JBool (eis_invert_y ei)), (''gain'', JNumber (clean (eis_gain ei))),
        (''deadbandRad'', JNumber (clean (eis_deadband_rad ei))),
        (''recenterRate'', JNumber (clean (eis_recenter_rate ei))),
        (''maxSlewPx'', JNumber (clean (eis_max_slew_px ei))),
        (''biasAlpha'', JNumber (clean (eis_bias_alpha ei)))]"

definition cjson_record :: "cfg_record \<Rightarrow> json" where
  "cjson_record re = JObject [(''enabled'', JBool (rec_enabled re)), (''dir'', JString (rec_dir re)),
        (''format'', JString (rec_format re)), (''mode'', JString (rec_mode re)),
        (''maxSeconds'', jword (rec_max_seconds re)), (''maxMB'', jword (rec_max_mb re)),
        (''bitrate'', jword (rec_bitrate re)), (''fps'', jword (rec_fps re)),
        (''gopSize'', JNumber (rec_gop_size re)), (''server'', JString (rec_server re))]"

definition config_to_cjson :: "(dbl \<Rightarrow> dbl) \<Rightarrow> venc_config \<Rightarrow> json" where
  "config_to_cjson clean cfg = JObject [
     (''system'', cjson_system (c_system cfg)),
     (''sensor'', cjson_sensor (c_sensor cfg)),
     (''isp'', cjson_isp (c_isp cfg)),
     (''image'', cjson_image (c_image cfg)),
     (''video0'', cjson_video0 (c_video0 cfg)),
     (''outgoing'', cjson_outgoing (c_outgoing cfg)),
     (''fpv'', cjson_fpv (c_fpv cfg)),
     (''audio'', cjson_audio (c_audio cfg)),
     (''imu'', cjson_imu (c_imu cfg)),
     (''eis'', cjson_eis clean (c_eis cfg)),
     (''record'', cjson_record (c_record cfg)),
     (''debug'', JObject [(''showOsd'', JBool (c_show_osd cfg))])]"

text \<open>
  \<open>venc_config_save\<close>: \<open>room\<close> is the number of bytes the file system takes; the results of
  \<open>fprintf\<close> and \<open>fclose\<close> are not looked at.
\<close>

definition venc_config_save ::
  "(dbl \<Rightarrow> string) \<Rightarrow> (string \<Rightarrow> dbl) \<Rightarrow> (json \<Rightarrow> string) \<Rightarrow> bool \<Rightarrow> nat \<Rightarrow> venc_config \<Rightarrow> int \<times> string option" where
  "venc_config_save fmt_g strtod print_json fopen_ok room cfg =
     (if \<not> fopen_ok then (-1, None)
      else (0, Some (take room (print_json (config_to_cjson (float_clean fmt_g strtod) cfg) @ [char_of (10 :: nat)]))))"

subsection \<open>The output URI\<close>

datatype uri_type = URI_UDP | URI_UNIX | URI_SHM

record output_uri =
  uri_type :: uri_type
  uri_host :: string
  uri_port :: u16
  uri_endpoint :: string

definition venc_config_parse_output_uri :: "string \<Rightarrow> output_uri option" where
  "venc_config_parse_output_uri uri =
     (if has_prefix ''udp://'' uri then
        (case split_last (CHR '':'') (drop 6 uri) of
           None \<Rightarrow> None
         | Some (host, port) \<Rightarrow>
             if host = '''' then None
             else case c_strtol 10 port of (pval, rest) \<Rightarrow>
               if rest \<noteq> '''' \<or> pval \<le> 0 \<or> pval > 65535 then None
               else Some \<lparr>uri_type = URI_UDP, uri_host = take 127 host, uri_port = word_of_int pval,
                          uri_endpoint = ''''\<rparr>)
      else if has_prefix ''unix://'' uri then
        (if drop 7 uri = '''' then None
         else Some \<lparr>uri_type = URI_UNIX, uri_host = '''', uri_port = 0,
                    uri_endpoint = safe_strcpy VENC_CONFIG_STRING_MAX (drop 7 uri)\<rparr>)
      else if has_prefix ''shm://'' uri then
        (if drop 6 uri = '''' then None
         else Some \<lparr>uri_type = URI_SHM, uri_host = '''', uri_port = 0,
                    uri_endpoint = safe_strcpy VENC_CONFIG_STRING_MAX (drop 6 uri)\<rparr>)
      else None)"

definition venc_config_parse_server_uri :: "string \<Rightarrow> nat \<Rightarrow> (string \<times> u16) option" where
  "venc_config_parse_server_uri uri host_len =
     (case venc_config_parse_output_uri uri of
       None \<Rightarrow> None
     | Some p \<Rightarrow> if uri_type p \<noteq> URI_UDP then None else Some (safe_strcpy host_len (uri_host p), uri_port p))"

subsection \<open>What a loaded configuration satisfies\<close>

lemma clamp_int_range: "lo \<le> hi \<Longrightarrow> lo \<le> clamp_int lo hi x \<and> clamp_int lo hi x \<le> hi"
  by (simp add: clamp_int_def Let_def)

lemma clamp_int_id: "lo \<le> x \<Longrightarrow> x \<le> hi \<Longrightarrow> clamp_int lo hi x = x"
  by (simp add: clamp_int_def)

lemma clamp_word_range: "lo \<le> hi \<Longrightarrow> lo \<le> clamp_word lo hi x \<and> clamp_word lo hi x \<le> hi"
  by (simp add: clamp_word_def Let_def not_less)

lemma clamp_word_id: "lo \<le> x \<Longrightarrow> x \<le> hi \<Longrightarrow> clamp_word lo hi x = x"
  by (simp add: clamp_word_def not_less [symmetric])

lemma clamp_low_ge: "\<not> dbl_lt (clamp_low (Fin lo) x) (Fin lo)"
  by (simp add: clamp_low_def)

lemma clamp_between: "lo \<le> hi \<Longrightarrow> dbl_between (Fin lo) (Fin hi) (clamp_high (Fin hi) (clamp_low (Fin lo) x))"
  by (cases x) (auto simp: clamp_low_def clamp_high_def dbl_between_def)

lemma clamp_low_id: "\<not> dbl_lt x lo \<Longrightarrow> clamp_low lo x = x"
  by (simp add: clamp_low_def)

lemma clamp_high_id: "\<not> dbl_lt hi x \<Longrightarrow> clamp_high hi x = x"
  by (simp add: clamp_high_def)

text \<open>Every text fits its buffer, and every clamped field is in its documented range.\<close>

definition isp_ok :: "cfg_isp \<Rightarrow> bool" where
  "isp_ok s \<longleftrightarrow> length (isp_sensor_bin s) < 256 \<and> length (isp_awb_mode s) < 16"

definition image_ok :: "cfg_image \<Rightarrow> bool" where
  "image_ok s \<longleftrightarrow> (img_rotate s = 0 \<or> img_rotate s = 180 \<and> img_mirror s \<and> img_flip s)"

definition video_ok :: "cfg_video \<Rightarrow> bool" where
  "video_ok v \<longleftrightarrow> length (vid_codec v) < 16 \<and> length (vid_rc_mode v) < 16
     \<and> -12 \<le> vid_qp_delta v \<and> vid_qp_delta v \<le> 12
     \<and> (vid_scene_threshold v > 0 \<longrightarrow> vid_scene_holdoff v \<noteq> 0)"

definition outgoing_ok :: "cfg_outgoing \<Rightarrow> bool" where
  "outgoing_ok s \<longleftrightarrow> length (out_server s) < 256 \<and> length (out_stream_mode s) < 16"

definition fpv_ok :: "cfg_fpv \<Rightarrow> bool" where
  "fpv_ok s \<longleftrightarrow> -30 \<le> fpv_roi_qp s \<and> fpv_roi_qp s \<le> 30 \<and> 1 \<le> fpv_roi_steps s \<and> fpv_roi_steps s \<le> 4
     \<and> dbl_between (Fin (1 / 10)) (Fin (9 / 10)) (fpv_roi_center s)
     \<and> 0 \<le> fpv_noise_level s \<and> fpv_noise_level s \<le> 7"

definition audio_ok :: "cfg_audio \<Rightarrow> bool" where
  "audio_ok a \<longleftrightarrow> 8000 \<le> aud_sample_rate a \<and> aud_sample_rate a \<le> 48000 \<and> 1 \<le> aud_channels a
     \<and> aud_channels a \<le> 2 \<and> length (aud_codec a) < 16 \<and> 0 \<le> aud_volume a \<and> aud_volume a \<le> 100"

definition imu_ok :: "cfg_imu \<Rightarrow> bool" where
  "imu_ok s \<longleftrightarrow> length (imu_i2c_device s) < 256 \<and> 25 \<le> imu_sample_rate_hz s \<and> imu_sample_rate_hz s \<le> 1600
     \<and> length (imu_cal_file s) < 256 \<and> 10 \<le> imu_cal_samples s"

definition eis_ok :: "cfg_eis \<Rightarrow> bool" where
  "eis_ok s \<longleftrightarrow> length (eis_mode s) < 16 \<and> 1 \<le> eis_margin_percent s \<and> eis_margin_percent s \<le> 30
     \<and> dbl_between (Fin 0) (Fin 1) (eis_gain s) \<and> \<not> dbl_lt (eis_deadband_rad s) (Fin 0)
     \<and> \<not> dbl_lt (eis_recenter_rate s) (Fin 0) \<and> \<not> dbl_lt (eis_max_slew_px s) (Fin 0)
     \<and> \<not> dbl_lt (eis_bias_alpha s) (Fin 0)"

definition record_ok :: "cfg_record \<Rightarrow> bool" where
  "record_ok s \<longleftrightarrow> length (rec_dir s) < 256 \<and> length (rec_format s) < 16 \<and> length (rec_mode s) < 16
     \<and> length (rec_server s) < 256"

definition config_ok :: "venc_config \<Rightarrow> bool" where
  "config_ok c \<longleftrightarrow> 0 \<le> sys_overclock_level (c_system c) \<and> sys_overclock_level (c_system c) \<le> 2
     \<and> 0 \<le> sen_unlock_dir (c_sensor c) \<and> sen_unlock_dir (c_sensor c) \<le> 1
     \<and> isp_ok (c_isp c) \<and> image_ok (c_image c) \<and> video_ok (c_video0 c) \<and> outgoing_ok (c_outgoing c)
     \<and> fpv_ok (c_fpv c) \<and> audio_ok (c_audio c) \<and> imu_ok (c_imu c) \<and> eis_ok (c_eis c) \<and> record_ok (c_record c)"

lemmas config_ok_defs = config_ok_def isp_ok_def image_ok_def video_ok_def outgoing_ok_def fpv_ok_def
  audio_ok_def imu_ok_def eis_ok_def record_ok_def

lemma defaults_ok: "config_ok venc_config_defaults"
  by (simp add: config_ok_defs venc_config_defaults_def dbl_between_def)

lemma strcpy_256: "length (safe_strcpy VENC_CONFIG_STRING_MAX s) < 256"
  using safe_strcpy_fits [of VENC_CONFIG_STRING_MAX s] by (simp add: VENC_CONFIG_STRING_MAX_def)

lemma strcpy_16: "length (safe_strcpy 16 s) < 16"
  by (rule safe_strcpy_fits) simp

lemma load_isp_ok: "isp_ok s \<Longrightarrow> isp_ok (load_isp doc s)"
  by (simp add: isp_ok_def load_isp_def strcpy_256 strcpy_16 split: option.split)

lemma load_image_ok: "image_ok s \<Longrightarrow> image_ok (load_image doc s)"
  by (simp add: image_ok_def load_image_def Let_def split: option.split)

lemma load_video0_ok: "video_ok v \<Longrightarrow> video_ok (load_video0 doc v)"
  using clamp_int_range [of "-12" 12]
  by (auto simp: video_ok_def load_video0_def Let_def strcpy_16 not_less split: option.split)

lemma load_outgoing_ok: "outgoing_ok s \<Longrightarrow> outgoing_ok (load_outgoing doc s)"
  by (simp add: outgoing_ok_def load_outgoing_def strcpy_256 strcpy_16 split: option.split)

lemma load_fpv_ok: "fpv_ok s \<Longrightarrow> fpv_ok (load_fpv doc s)"
  using clamp_int_range [of "-30" 30] clamp_int_range [of 0 7] clamp_word_range [of 1 "4 :: u16"]
    clamp_between [of "1/10" "9/10"]
  by (simp add: fpv_ok_def load_fpv_def split: option.split)

lemma load_audio_ok: "audio_ok s \<Longrightarrow> audio_ok (load_audio doc s)"
  using clamp_int_range [of 0 100] clamp_word_range [of 1 "2 :: u32"] clamp_word_range [of 8000 "48000 :: u32"]
  by (simp add: audio_ok_def load_audio_def strcpy_16 split: option.split)

lemma load_imu_ok: "imu_ok s \<Longrightarrow> imu_ok (load_imu doc s)"
  using clamp_int_range [of 25 1600] by (simp add: imu_ok_def load_imu_def strcpy_256 Let_def split: option.split)

lemma load_eis_ok: "eis_ok s \<Longrightarrow> eis_ok (load_eis f32 doc s)"
  using clamp_int_range [of 1 30] clamp_between [of 0 1]
  by (simp add: eis_ok_def load_eis_def strcpy_16 clamp_low_ge split: option.split)

lemma load_record_ok: "record_ok s \<Longrightarrow> record_ok (load_record doc s)"
  by (simp add: record_ok_def load_record_def strcpy_256 strcpy_16 split: option.split)

lemma load_root_ok: "config_ok c \<Longrightarrow> config_ok (load_root f32 doc c)"
  using clamp_int_range [of 0 2] clamp_int_range [of 0 1]
  by (simp add: config_ok_def load_root_def load_isp_ok load_image_ok load_video0_ok load_outgoing_ok
      load_fpv_ok load_audio_ok load_imu_ok load_eis_ok load_record_ok load_system_def load_sensor_def
      split: option.split)

text \<open>Property C32. Loading any JSON document over the defaults, or failing to, leaves a configuration
  in which every text fits its buffer and every clamped field is in range: overclock level 0..2,
  QP delta -12..12, sample rate 8000..48000, volume 0..100, ROI steps 1..4, rotation 0 or 180 with
  mirror and flip set, and so on.\<close>

theorem config_load_in_range:
  "config_ok (snd (venc_config_load f32 parse data enoent venc_config_defaults))"
  by (simp add: venc_config_load_def load_root_ok defaults_ok split: option.split)

subsection \<open>Save and load\<close>

text \<open>
  What a configuration must satisfy to survive: the 32-bit fields and the integers are within
  \<open>int\<close>, because the reader goes through \<open>valueint\<close>.
\<close>

definition int_range :: "int \<Rightarrow> bool" where
  "int_range i \<longleftrightarrow> INT_MIN \<le> i \<and> i \<le> INT_MAX"

definition config_storable :: "venc_config \<Rightarrow> bool" where
  "config_storable c \<longleftrightarrow> config_ok c
     \<and> int_range (sen_index (c_sensor c)) \<and> int_range (sen_mode (c_sensor c))
     \<and> int_range (imu_gyro_range_dps (c_imu c)) \<and> int_range (imu_cal_samples (c_imu c))
     \<and> uint (sen_unlock_cmd (c_sensor c)) \<le> INT_MAX
     \<and> uint (isp_exposure (c_isp c)) \<le> INT_MAX \<and> uint (isp_ae_fps (c_isp c)) \<le> INT_MAX
     \<and> uint (isp_gain_max (c_isp c)) \<le> INT_MAX \<and> uint (isp_awb_ct (c_isp c)) \<le> INT_MAX
     \<and> uint (vid_fps (c_video0 c)) \<le> INT_MAX \<and> uint (vid_bitrate (c_video0 c)) \<le> INT_MAX
     \<and> uint (rec_max_seconds (c_record c)) \<le> INT_MAX \<and> uint (rec_max_mb (c_record c)) \<le> INT_MAX
     \<and> uint (rec_bitrate (c_record c)) \<le> INT_MAX \<and> uint (rec_fps (c_record c)) \<le> INT_MAX"

definition floats_survive :: "(dbl \<Rightarrow> dbl) \<Rightarrow> (dbl \<Rightarrow> dbl) \<Rightarrow> cfg_eis \<Rightarrow> bool" where
  "floats_survive f32 clean s \<longleftrightarrow>
     f32 (clean (eis_gain s)) = eis_gain s
     \<and> f32 (clean (eis_deadband_rad s)) = eis_deadband_rad s
     \<and> f32 (clean (eis_recenter_rate s)) = eis_recenter_rate s
     \<and> f32 (clean (eis_max_slew_px s)) = eis_max_slew_px s
     \<and> f32 (clean (eis_bias_alpha s)) = eis_bias_alpha s"

lemma valueint_int: "int_range i \<Longrightarrow> cjson_valueint (Fin (of_int i)) = i"
  by (auto simp: int_range_def INT_MIN_def INT_MAX_def)

lemma valueint_word: "uint w \<le> INT_MAX \<Longrightarrow> cjson_valueint (Fin (of_int (uint w))) = uint w"
  by (intro valueint_int, unfold int_range_def INT_MIN_def) (use uint_ge_0 [of w] in linarith)

lemma valueint_u16: "cjson_valueint (Fin (of_int (uint (w :: u16)))) = uint w"
  using unsigned_less [of w, where ?'a = int] by (intro valueint_word) (simp add: INT_MAX_def)

lemma valueint_u8: "cjson_valueint (Fin (of_int (uint (w :: u8)))) = uint w"
  using unsigned_less [of w, where ?'a = int] by (intro valueint_word) (simp add: INT_MAX_def)

lemma get_jint: "cjson_get obj k = Some (jint i) \<Longrightarrow> int_range i \<Longrightarrow> json_get_int obj k fb = i"
  by (simp only: json_get_int_def jint_def option.case json.case valueint_int)

lemma get_jword:
  "cjson_get obj k = Some (jword w) \<Longrightarrow> uint w \<le> INT_MAX \<Longrightarrow> json_get_int obj k fb = uint w"
  by (simp only: json_get_int_def jword_def option.case json.case valueint_word)

lemma get_jword16: "cjson_get obj k = Some (jword (w :: u16)) \<Longrightarrow> json_get_int obj k fb = uint w"
  by (simp only: json_get_int_def jword_def option.case json.case valueint_u16)

lemma get_jword8: "cjson_get obj k = Some (jword (w :: u8)) \<Longrightarrow> json_get_int obj k fb = uint w"
  by (simp only: json_get_int_def jword_def option.case json.case valueint_u8)

lemma get_jbool: "cjson_get obj k = Some (JBool b) \<Longrightarrow> json_get_bool obj k fb = b"
  by (simp add: json_get_bool_def)

lemma get_jdouble: "cjson_get obj k = Some (JNumber d) \<Longrightarrow> json_get_double obj k fb = d"
  by (simp add: json_get_double_def)

lemma get_jstring:
  "cjson_get obj k = Some (JString t) \<Longrightarrow> json_get_str obj k f = t"
  "cjson_get obj k = Some (JString t) \<Longrightarrow> json_get_string obj k g = Some t"
  by (simp_all add: json_get_str_def json_get_string_def)

lemma small_int_range: "-1000 \<le> i \<Longrightarrow> i \<le> 100000 \<Longrightarrow> int_range i"
  by (simp add: int_range_def INT_MAX_def INT_MIN_def)

lemmas getters = get_jint get_jword get_jword16 get_jword8 get_jbool get_jdouble get_jstring small_int_range

text \<open>Reading a section back from the saved tree.\<close>

lemma resolution_print: "parse_resolution (print_u w @ ''x'' @ print_u h) = Some (w, h)"
proof -
  have x: "10 \<le> digit_val (CHR ''x'')" by (simp add: digit_val_def)
  have scan: "c_scan_u (print_u w @ ''x'' @ print_u h) = Some (w, ''x'' @ print_u h)"
    "c_scan_u (print_u h) = Some (h, [])"
    using scan_u_print [of "''x'' @ print_u h" w] scan_u_print [of "[]" h] x by simp_all
  have "CHR ''x'' \<in> set (print_u w @ ''x'' @ print_u h)" by simp
  then have "print_u w @ ''x'' @ print_u h \<noteq> s" if "CHR ''x'' \<notin> set s" for s
    using that by metis
  then have "print_u w @ ''x'' @ print_u h \<notin> {''720p'', ''1080p'', ''4MP''}" by auto
  with scan show ?thesis by (simp add: parse_resolution_def)
qed

lemma addr_print: "ucast (fst (c_strtoul 0 (''0x'' @ print_02x (unat (a :: u8))))) = a"
proof -
  have "ucast (ucast a :: u32) = a" by (rule bit_word_eqI) (simp add: bit_simps)
  then show ?thesis using unat_lt_word [of a] by (simp add: print_02x_scan del: append.simps)
qed

lemma saved_sections:
  "cjson_get (config_to_cjson fc c) ''system'' = Some (cjson_system (c_system c))"
  "cjson_get (config_to_cjson fc c) ''sensor'' = Some (cjson_sensor (c_sensor c))"
  "cjson_get (config_to_cjson fc c) ''isp'' = Some (cjson_isp (c_isp c))"
  "cjson_get (config_to_cjson fc c) ''image'' = Some (cjson_image (c_image c))"
  "cjson_get (config_to_cjson fc c) ''video0'' = Some (cjson_video0 (c_video0 c))"
  "cjson_get (config_to_cjson fc c) ''outgoing'' = Some (cjson_outgoing (c_outgoing c))"
  "cjson_get (config_to_cjson fc c) ''fpv'' = Some (cjson_fpv (c_fpv c))"
  "cjson_get (config_to_cjson fc c) ''audio'' = Some (cjson_audio (c_audio c))"
  "cjson_get (config_to_cjson fc c) ''imu'' = Some (cjson_imu (c_imu c))"
  "cjson_get (config_to_cjson fc c) ''eis'' = Some (cjson_eis fc (c_eis c))"
  "cjson_get (config_to_cjson fc c) ''record'' = Some (cjson_record (c_record c))"
  "cjson_get (config_to_cjson fc c) ''debug'' = Some (JObject [(''showOsd'', JBool (c_show_osd c))])"
  by (simp_all add: config_to_cjson_def)

lemma load_saved_system:
  "config_storable c \<Longrightarrow> load_system (config_to_cjson fc c) s = c_system c"
  by (cases "c_system c")
    (simp add: config_storable_def config_ok_def load_system_def saved_sections cjson_system_def getters
      clamp_int_id)

lemma load_saved_sensor:
  "config_storable c \<Longrightarrow> load_sensor (config_to_cjson fc c) s = c_sensor c"
  by (cases "c_sensor c")
    (simp add: config_storable_def config_ok_def load_sensor_def saved_sections cjson_sensor_def getters
      clamp_int_id)

lemma load_saved_isp:
  "config_storable c \<Longrightarrow> load_isp (config_to_cjson fc c) s = c_isp c"
  by (cases "c_isp c")
    (simp add: config_storable_def config_ok_def isp_ok_def load_isp_def saved_sections cjson_isp_def getters
      safe_strcpy_id VENC_CONFIG_STRING_MAX_def)

lemma load_saved_image:
  "config_storable c \<Longrightarrow> load_image (config_to_cjson fc c) s = c_image c"
  by (cases "c_image c")
    (auto simp: config_storable_def config_ok_def image_ok_def load_image_def saved_sections cjson_image_def getters
      Let_def)

lemma load_saved_outgoing:
  "config_storable c \<Longrightarrow> load_outgoing (config_to_cjson fc c) s = c_outgoing c"
  by (cases "c_outgoing c")
    (simp add: config_storable_def config_ok_def outgoing_ok_def load_outgoing_def saved_sections
      cjson_outgoing_def getters safe_strcpy_id VENC_CONFIG_STRING_MAX_def)

lemma load_saved_fpv:
  "config_storable c \<Longrightarrow> load_fpv (config_to_cjson fc c) s = c_fpv c"
  by (cases "c_fpv c")
    (simp add: config_storable_def config_ok_def fpv_ok_def load_fpv_def saved_sections cjson_fpv_def getters
      clamp_int_id clamp_word_id clamp_low_id clamp_high_id dbl_between_def)

lemma load_saved_record:
  "config_storable c \<Longrightarrow> load_record (config_to_cjson fc c) s = c_record c"
  by (cases "c_record c")
    (simp add: config_storable_def config_ok_def record_ok_def load_record_def saved_sections cjson_record_def
      getters safe_strcpy_id VENC_CONFIG_STRING_MAX_def)

lemma load_saved_video0:
  assumes "config_storable c"
  shows "load_video0 (config_to_cjson fc c) s = c_video0 c"
proof -
  obtain co rm fp wi he br go qp fl st ho where v: "c_video0 c = \<lparr>vid_codec = co, vid_rc_mode = rm, vid_fps = fp,
      vid_width = wi, vid_height = he, vid_bitrate = br, vid_gop_size = go, vid_qp_delta = qp,
      vid_frame_lost = fl, vid_scene_threshold = st, vid_scene_holdoff = ho\<rparr>" by (cases "c_video0 c") auto
  have "\<not> (ho < 1 \<and> 0 < st)" using assms by (auto simp: config_storable_def config_ok_def video_ok_def v)
  with assms show ?thesis
    by (simp add: config_storable_def config_ok_def video_ok_def load_video0_def saved_sections v
        cjson_video0_def getters safe_strcpy_id clamp_int_id resolution_print Let_def del: append.simps)
qed

lemma load_saved_audio:
  assumes "config_storable c"
  shows "load_audio (config_to_cjson fc c) s = c_audio c"
proof -
  have "uint (aud_sample_rate (c_audio c)) \<le> uint (48000 :: u32)" "uint (aud_channels (c_audio c)) \<le> uint (2 :: u32)"
    using assms by (simp_all only: config_storable_def config_ok_def audio_ok_def word_le_def)
  then have "uint (aud_sample_rate (c_audio c)) \<le> INT_MAX" "uint (aud_channels (c_audio c)) \<le> INT_MAX"
    by (simp_all add: INT_MAX_def)
  with assms show ?thesis
    by (cases "c_audio c")
      (simp add: config_storable_def config_ok_def audio_ok_def load_audio_def saved_sections
        cjson_audio_def getters safe_strcpy_id clamp_int_id clamp_word_id)
qed

lemma load_saved_imu:
  "config_storable c \<Longrightarrow> load_imu (config_to_cjson fc c) s = c_imu c"
  by (cases "c_imu c")
    (simp add: config_storable_def config_ok_def imu_ok_def load_imu_def saved_sections cjson_imu_def
      getters safe_strcpy_id VENC_CONFIG_STRING_MAX_def clamp_int_id addr_print Let_def del: append.simps)

lemma load_saved_eis:
  "config_storable c \<Longrightarrow> floats_survive f32 fc (c_eis c) \<Longrightarrow>
    load_eis f32 (config_to_cjson fc c) s = c_eis c"
  by (cases "c_eis c")
    (simp add: config_storable_def config_ok_def eis_ok_def load_eis_def saved_sections cjson_eis_def
      getters safe_strcpy_id clamp_int_id clamp_low_id clamp_high_id dbl_between_def floats_survive_def)

lemma load_root_saved:
  assumes "config_storable c" and "floats_survive f32 fc (c_eis c)"
  shows "load_root f32 (config_to_cjson fc c) base = c"
proof -
  have "json_get_bool (JObject [(''showOsd'', JBool (c_show_osd c))]) ''showOsd'' x = c_show_osd c" for x
    by (rule get_jbool) simp
  then show ?thesis
    using assms
    by (simp add: load_root_def saved_sections load_saved_system load_saved_sensor load_saved_isp
      load_saved_image load_saved_video0 load_saved_outgoing load_saved_fpv load_saved_audio load_saved_imu
      load_saved_eis load_saved_record)
qed

text \<open>A configuration saved to a file with room for it is read back unchanged, whatever configuration was in
  memory before: for every configuration that a load can produce and whose 32-bit fields are within \<open>int\<close>,
  if the JSON parser reads back what the printer wrote (the documented contract of the library) and the five
  floats of the image stabilization survive six significant digits.\<close>

lemma config_save_load_roundtrip:
  assumes "config_storable c" and "floats_survive f32 (float_clean fmt_g strtod) (c_eis c)"
    and "parse (print_json (config_to_cjson (float_clean fmt_g strtod) c) @ [char_of (10 :: nat)])
      = Some (config_to_cjson (float_clean fmt_g strtod) c)"
    and "length (print_json (config_to_cjson (float_clean fmt_g strtod) c)) < room"
  shows "\<exists>txt. venc_config_save fmt_g strtod print_json True room c = (0, Some txt)
    \<and> venc_config_load f32 parse (Some txt) enoent base = (0, c)"
  using assms load_root_saved [OF assms(1,2)]
  by (simp add: venc_config_save_def venc_config_load_def)

lemma defaults_storable: "config_storable venc_config_defaults"
  using defaults_ok by (simp add: config_storable_def int_range_def INT_MAX_def INT_MIN_def)
    (simp add: venc_config_defaults_def)

text \<open>
  Saving reports success although the text did not reach the file: with no room on the file
  system \<open>venc_config_save\<close> returns 0 and leaves an empty file behind.
\<close>

lemma config_save_silent_truncation:
  "venc_config_save fmt_g strtod print_json True 0 c = (0, Some '''')"
  by (simp add: venc_config_save_def)

subsection \<open>Output URIs\<close>

lemma strtol_range_port: "c_strtol 10 s = (v, r) \<Longrightarrow> 0 < v \<Longrightarrow> v \<le> 65535 \<Longrightarrow> uint (word_of_int v :: u16) = v"
  by (simp add: uint_word_of_int_eq take_bit_int_eq_self)

text \<open>The URI parser is the inverse of writing an address down, and what it accepts is usable:
  a \<open>udp://host:port\<close> with a non-empty host shorter than the buffer, no colon after it and a port in 1..65535
  parses to exactly that host and port; a name after \<open>unix://\<close> or \<open>shm://\<close> to that endpoint.\<close>

lemma parse_output_uri_roundtrip:
  assumes "host \<noteq> ''''" and "length host < 128" and "port \<noteq> 0"
    and "name \<noteq> ''''" and "length name < VENC_CONFIG_STRING_MAX"
  shows "venc_config_parse_output_uri (''udp://'' @ host @ '':'' @ print_base 10 (unat port))
      = Some \<lparr>uri_type = URI_UDP, uri_host = host, uri_port = port, uri_endpoint = ''''\<rparr>
    \<and> venc_config_parse_output_uri (''unix://'' @ name)
      = Some \<lparr>uri_type = URI_UNIX, uri_host = '''', uri_port = 0, uri_endpoint = name\<rparr>
    \<and> venc_config_parse_output_uri (''shm://'' @ name)
      = Some \<lparr>uri_type = URI_SHM, uri_host = '''', uri_port = 0, uri_endpoint = name\<rparr>"
proof -
  let ?p = "print_base 10 (unat port)"
  have "CHR '':'' \<notin> set ?p"
    using print_base_digits [of 10 "unat port"] by (auto simp: digit_val_def)
  then have "split_last (CHR '':'') (host @ '':'' @ ?p) = Some (host, ?p)"
    using split_last_append [of "CHR '':''" ?p host] by simp
  moreover have "uint port < 65536" using unsigned_less [of port, where ?'a = int] by simp
  then have "c_strtol 10 ?p = (int (unat port), [])"
    using scan_number_print [of "[]" "unat port"]
    by (simp add: c_strtol_def LONG_MAX_def)
  moreover have "uint port \<noteq> 0" "uint port \<le> 65535"
    using assms(3) \<open>uint port < 65536\<close> by (auto simp: uint_0_iff)
  ultimately show ?thesis
    using assms by (simp add: venc_config_parse_output_uri_def has_prefix_def safe_strcpy_id)
qed

lemma parse_output_uri_roundtrip_witness:
  "venc_config_parse_output_uri (''udp://'' @ ''10.0.0.1'' @ '':'' @ print_base 10 (unat (5600 :: u16)))
      = Some \<lparr>uri_type = URI_UDP, uri_host = ''10.0.0.1'', uri_port = 5600, uri_endpoint = ''''\<rparr>"
  using parse_output_uri_roundtrip [of "''10.0.0.1''" 5600 "''v''"] by (simp add: VENC_CONFIG_STRING_MAX_def)

text \<open>Whatever text is given, an accepted output URI is usable: a UDP address has a host that is
  not empty and fits its buffer and a port other than 0, and a local endpoint is not empty and fits.\<close>

lemma parse_output_uri_usable:
  assumes "venc_config_parse_output_uri uri = Some u"
  shows "(uri_type u = URI_UDP \<and> uri_host u \<noteq> '''' \<and> length (uri_host u) < 128 \<and> uri_port u \<noteq> 0)
    \<or> (uri_type u \<noteq> URI_UDP \<and> uri_endpoint u \<noteq> '''' \<and> length (uri_endpoint u) < VENC_CONFIG_STRING_MAX)"
  using assms strtol_range_port
  by (fastforce simp: venc_config_parse_output_uri_def safe_strcpy_def VENC_CONFIG_STRING_MAX_def
      split: if_splits option.splits prod.splits)

lemma parse_output_uri_usable_witness:
  "\<exists>u. venc_config_parse_output_uri ''shm://venc'' = Some u \<and> uri_endpoint u \<noteq> ''''"
  using parse_output_uri_usable [of "''shm://venc''"]
  by (auto simp: venc_config_parse_output_uri_def has_prefix_def)

end
