(* ===== verification/OutputSocket.thy ===== *)
theory OutputSocket imports Config PacketSink begin

text \<open>
  Datagram sockets (\<open>src/output_socket.c\<close>): destination addresses, the socket's life cycle when
  the destination changes, and sending one datagram of a header and up to two parts.

  The operating system is a record of the answers it will give (file descriptors for
  \<open>socket\<close>, whether \<open>connect\<close> and \<open>sendmsg\<close> succeed; a failure when the list is used up) and
  the log of what it was asked to do.
\<close>

subsection \<open>The operating system\<close>

datatype sockaddr = NoAddr | SinAddr "u8 list" u16 | UnAddr string

datatype os_event = SockOpened int uri_type | SockClosed int | SockDisconnected int
  | SockConnected int sockaddr | Datagram int sockaddr bytes

record os =
  os_sockets :: "int list"
  os_connects :: "bool list"
  os_sends :: "bool list"
  os_log :: "os_event list"

definition os_note :: "os_event \<Rightarrow> os \<Rightarrow> os" where
  "os_note ev w = w\<lparr>os_log := os_log w @ [ev]\<rparr>"

definition os_socket :: "uri_type \<Rightarrow> os \<Rightarrow> int \<times> os" where
  "os_socket d w = (case os_sockets w of
     [] \<Rightarrow> (-1, w)
   | s # ss \<Rightarrow> (s, if s < 0 then w\<lparr>os_sockets := ss\<rparr> else os_note (SockOpened s d) (w\<lparr>os_sockets := ss\<rparr>)))"

definition os_connect :: "int \<Rightarrow> sockaddr \<Rightarrow> os \<Rightarrow> bool \<times> os" where
  "os_connect s a w = (case os_connects w of
     [] \<Rightarrow> (False, w)
   | c # cs \<Rightarrow> (c, if c then os_note (SockConnected s a) (w\<lparr>os_connects := cs\<rparr>) else w\<lparr>os_connects := cs\<rparr>))"

definition os_sendmsg :: "int \<Rightarrow> sockaddr \<Rightarrow> bytes \<Rightarrow> os \<Rightarrow> bool \<times> os" where
  "os_sendmsg s a p w = (case os_sends w of
     [] \<Rightarrow> (False, w)
   | c # cs \<Rightarrow> (c, if c then os_note (Datagram s a p) (w\<lparr>os_sends := cs\<rparr>) else w\<lparr>os_sends := cs\<rparr>))"

text \<open>The datagrams that left, in order.\<close>

fun datagrams :: "os_event list \<Rightarrow> bytes list" where
  "datagrams [] = []"
| "datagrams (Datagram s a p # evs) = p # datagrams evs"
| "datagrams (_ # evs) = datagrams evs"

lemma datagrams_append [simp]: "datagrams (xs @ ys) = datagrams xs @ datagrams ys"
  by (induction xs rule: datagrams.induct) simp_all

subsection \<open>Addresses\<close>

text \<open>\<open>inet_pton(AF_INET, ...)\<close>: four decimal numbers up to 255, without leading zeros.\<close>

fun split_dots :: "string \<Rightarrow> string list" where
  "split_dots [] = [[]]"
| "split_dots (c # cs) =
     (if c = CHR ''.'' then [] # split_dots cs
      else case split_dots cs of [] \<Rightarrow> [[c]] | x # xs \<Rightarrow> (c # x) # xs)"

definition octet :: "string \<Rightarrow> u8 option" where
  "octet s =
     (if s = '''' \<or> length s > 3 \<or> (length s > 1 \<and> hd s = CHR ''0'') \<or> (\<exists>c \<in> set s. 10 \<le> digit_val c) then None
      else let v = digits_value 10 0 s in if v > 255 then None else Some (word_of_nat v))"

definition inet_pton4 :: "string \<Rightarrow> u8 list option" where
  "inet_pton4 s = (case map octet (split_dots s) of
     [Some a, Some b, Some c, Some d] \<Rightarrow> Some [a, b, c, d]
   | _ \<Rightarrow> None)"

definition sizeof_sockaddr_in :: nat where "sizeof_sockaddr_in = 16"

text \<open>The result, the destination buffer and its length after the call.\<close>

definition output_socket_fill_udp_destination ::
  "string \<Rightarrow> u16 \<Rightarrow> sockaddr \<Rightarrow> nat \<Rightarrow> int \<times> sockaddr \<times> nat" where
  "output_socket_fill_udp_destination host port dst dst_len =
     (if host = '''' \<or> port = 0 then (-1, dst, dst_len)
      else case inet_pton4 host of
        None \<Rightarrow> (-1, SinAddr [0, 0, 0, 0] port, dst_len)
      | Some ip \<Rightarrow> (0, SinAddr ip port, sizeof_sockaddr_in))"

definition fill_unix_destination :: "string \<Rightarrow> sockaddr \<Rightarrow> nat \<Rightarrow> int \<times> sockaddr \<times> nat" where
  "fill_unix_destination name dst dst_len =
     (if name = '''' \<or> length name > 108 - 2 then (-1, dst, dst_len)
      else (0, UnAddr name, 2 + 1 + length name))"

definition output_socket_fill_destination ::
  "output_uri \<Rightarrow> sockaddr \<Rightarrow> nat \<Rightarrow> int \<times> sockaddr \<times> nat" where
  "output_socket_fill_destination uri dst dst_len = (case uri_type uri of
     URI_UDP \<Rightarrow> output_socket_fill_udp_destination (uri_host uri) (uri_port uri) dst dst_len
   | URI_UNIX \<Rightarrow> fill_unix_destination (uri_endpoint uri) dst dst_len
   | URI_SHM \<Rightarrow> (-1, dst, dst_len))"

subsection \<open>Configuring the socket\<close>

definition open_socket :: "uri_type \<Rightarrow> int \<Rightarrow> os \<Rightarrow> int \<times> int \<times> os" where
  "open_socket ty handle w =
     (if ty = URI_SHM then (-1, handle, w)
      else case os_socket ty w of (s, w') \<Rightarrow> (if s < 0 then -1 else 0, s, w'))"

definition close_socket_if_open :: "int \<Rightarrow> os \<Rightarrow> int \<times> os" where
  "close_socket_if_open handle w = (if handle < 0 then (handle, w) else (-1, os_note (SockClosed handle) w))"

definition disconnect_udp_socket :: "int \<Rightarrow> os \<Rightarrow> os" where
  "disconnect_udp_socket handle w = (if handle < 0 then w else os_note (SockDisconnected handle) w)"

text \<open>The fields behind the pointers \<open>output_socket_configure\<close> is given.\<close>

record sock =
  sk_handle :: int
  sk_dst :: sockaddr
  sk_dst_len :: nat
  sk_transport :: uri_type
  sk_connected_udp :: bool

text \<open>A socket of the right family, reopened when there is none or the family changes.\<close>

definition socket_for :: "uri_type \<Rightarrow> sock \<Rightarrow> os \<Rightarrow> int \<times> sock \<times> os" where
  "socket_for ty k w =
     (if sk_handle k < 0 \<or> sk_transport k \<noteq> ty
      then case close_socket_if_open (sk_handle k) w of (h0, w0) \<Rightarrow>
           case open_socket ty h0 w0 of (rc, h1, w1) \<Rightarrow>
             (rc, (if rc = 0 then k\<lparr>sk_handle := h1, sk_transport := ty\<rparr> else k\<lparr>sk_handle := h1\<rparr>), w1)
      else (0, k, w))"

text \<open>\<open>track\<close> is whether the caller passes a \<open>connected_udp\<close> pointer.\<close>

definition output_socket_configure :: "output_uri \<Rightarrow> bool \<Rightarrow> bool \<Rightarrow> sock \<Rightarrow> os \<Rightarrow> int \<times> sock \<times> os" where
  "output_socket_configure uri requested track k w =
     (if uri_type uri = URI_SHM then (-1, k, w)
      else case socket_for (uri_type uri) k w of (rc1, k1, w1) \<Rightarrow>
      if rc1 \<noteq> 0 then (-1, k1, w1)
      else case output_socket_fill_destination uri (sk_dst k1) (sk_dst_len k1) of (rc2, dst, len) \<Rightarrow>
      let k2 = k1\<lparr>sk_dst := dst, sk_dst_len := len\<rparr> in
      if rc2 \<noteq> 0
      then case close_socket_if_open (sk_handle k2) w1 of (h2, w2) \<Rightarrow> (-1, k2\<lparr>sk_handle := h2\<rparr>, w2)
      else if \<not> track then (0, k2, w1)
      else
        let want = (uri_type uri = URI_UDP \<and> requested);
            w2 = (if uri_type uri = URI_UDP \<and> \<not> want then disconnect_udp_socket (sk_handle k2) w1 else w1);
            k3 = k2\<lparr>sk_connected_udp := False\<rparr>
        in if \<not> want then (0, k3, w2)
           else case os_connect (sk_handle k3) (sk_dst k3) w2 of (ok, w3) \<Rightarrow>
             (0, (if ok then k3\<lparr>sk_connected_udp := True\<rparr> else k3), w3))"

definition output_socket_send_parts ::
  "int \<Rightarrow> sockaddr \<Rightarrow> nat \<Rightarrow> bytes \<Rightarrow> bytes \<Rightarrow> bytes \<Rightarrow> os \<Rightarrow> int \<times> os" where
  "output_socket_send_parts handle dst dst_len header payload1 payload2 w =
     (if handle < 0 \<or> dst_len = 0 \<or> header = [] \<or> payload1 = [] then (-1, w)
      else case os_sendmsg handle dst (header @ payload1 @ payload2) w of (ok, w') \<Rightarrow>
        (if ok then 0 else -1, w'))"

subsection \<open>Descriptors are neither lost nor used after close\<close>

text \<open>
  The descriptors open after a log, when the kernel hands out fresh ones; \<open>owned\<close> says that the
  only one open is the one the record holds, \<open>clean\<close> that nothing was ever done with a descriptor that
  was not open at the time: none closed twice, none used after it was closed.
\<close>

definition fds :: "os_event list \<Rightarrow> int list" where
  "fds evs = foldl (\<lambda>xs ev. case ev of SockOpened s d \<Rightarrow> xs @ [s] | SockClosed s \<Rightarrow> remove1 s xs | _ \<Rightarrow> xs) [] evs"

fun touched :: "os_event \<Rightarrow> int option" where
  "touched (SockOpened s d) = None"
| "touched (SockClosed s) = Some s"
| "touched (SockDisconnected s) = Some s"
| "touched (SockConnected s a) = Some s"
| "touched (Datagram s a p) = Some s"

definition on_open :: "os_event list \<Rightarrow> os_event \<Rightarrow> bool" where
  "on_open evs ev \<longleftrightarrow> (case touched ev of None \<Rightarrow> True | Some s \<Rightarrow> s \<in> set (fds evs))"

definition clean :: "os_event list \<Rightarrow> bool" where
  "clean evs \<longleftrightarrow> list_all (\<lambda>i. on_open (take i evs) (evs ! i)) [0..<length evs]"

lemma clean_snoc: "clean (evs @ [ev]) \<longleftrightarrow> clean evs \<and> on_open evs ev"
  by (auto simp: clean_def list_all_iff nth_append)

lemma clean_note: "clean (os_log (os_note ev w)) \<longleftrightarrow>
    clean (os_log w) \<and> (case touched ev of None \<Rightarrow> True | Some s \<Rightarrow> s \<in> set (fds (os_log w)))"
  by (simp add: os_note_def clean_snoc on_open_def)

definition owned :: "sock \<Rightarrow> os \<Rightarrow> bool" where
  "owned k w \<longleftrightarrow> fds (os_log w) = (if sk_handle k < 0 then [] else [sk_handle k])"

lemma fds_note: "fds (os_log (os_note ev w)) =
    (case ev of SockOpened s d \<Rightarrow> fds (os_log w) @ [s] | SockClosed s \<Rightarrow> remove1 s (fds (os_log w)) | _ \<Rightarrow> fds (os_log w))"
  by (simp add: fds_def os_note_def split: os_event.split)

lemma owned_close: "owned k w \<Longrightarrow> close_socket_if_open (sk_handle k) w = (h, w') \<Longrightarrow>
    h < 0 \<and> fds (os_log w') = []"
  by (auto simp: owned_def close_socket_if_open_def fds_note split: if_splits)

lemma close_clean: "owned k w \<Longrightarrow> clean (os_log w) \<Longrightarrow> close_socket_if_open (sk_handle k) w = (h, w') \<Longrightarrow> clean (os_log w')"
  by (auto simp: owned_def close_socket_if_open_def clean_note split: if_splits)

lemma os_log_answers [simp]:
  "os_log (w\<lparr>os_sockets := a\<rparr>) = os_log w" "os_log (w\<lparr>os_connects := b\<rparr>) = os_log w"
  "os_log (w\<lparr>os_sends := b\<rparr>) = os_log w"
  by simp_all

lemma open_socket_fds:
  "open_socket ty h w = (rc, h', w') \<Longrightarrow> ty \<noteq> URI_SHM \<Longrightarrow>
    (if h' < 0 then rc = -1 \<and> fds (os_log w') = fds (os_log w)
     else rc = 0 \<and> fds (os_log w') = fds (os_log w) @ [h'])"
  by (auto simp: open_socket_def os_socket_def fds_note split: list.splits if_splits prod.splits)

lemma socket_for_owned:
  assumes "owned k w" and "ty \<noteq> URI_SHM" and "socket_for ty k w = (rc, k', w')"
  shows "owned k' w' \<and> (rc = 0 \<or> rc = -1) \<and> (rc = 0 \<longrightarrow> 0 \<le> sk_handle k' \<and> sk_transport k' = ty)"
proof (cases "sk_handle k < 0 \<or> sk_transport k \<noteq> ty")
  case False
  with assms show ?thesis by (auto simp: socket_for_def)
next
  case True
  obtain h0 w0 where c: "close_socket_if_open (sk_handle k) w = (h0, w0)" by (metis surj_pair)
  obtain rc1 h1 w1 where o: "open_socket ty h0 w0 = (rc1, h1, w1)" by (metis prod_cases3)
  from True assms(3) c o have "rc = rc1" "w' = w1"
    "k' = (if rc1 = 0 then k\<lparr>sk_handle := h1, sk_transport := ty\<rparr> else k\<lparr>sk_handle := h1\<rparr>)"
    by (auto simp: socket_for_def)
  with owned_close [OF assms(1) c] open_socket_fds [OF o assms(2)] show ?thesis
    by (auto simp: owned_def split: if_splits)
qed

lemma open_socket_clean: "open_socket ty h w = (rc, h', w') \<Longrightarrow> clean (os_log w) \<Longrightarrow> clean (os_log w')"
  by (auto simp: open_socket_def os_socket_def clean_note split: list.splits if_splits prod.splits)

lemma socket_for_clean:
  assumes "owned k w" and "clean (os_log w)" and "socket_for ty k w = (rc, k', w')"
  shows "clean (os_log w')"
proof (cases "sk_handle k < 0 \<or> sk_transport k \<noteq> ty")
  case True
  obtain h0 w0 where c: "close_socket_if_open (sk_handle k) w = (h0, w0)" by (metis surj_pair)
  obtain rc1 h1 w1 where o: "open_socket ty h0 w0 = (rc1, h1, w1)" by (metis prod_cases3)
  from True assms(3) c o open_socket_clean [OF o close_clean [OF assms(1,2) c]] show ?thesis by (auto simp: socket_for_def)
qed (use assms in \<open>auto simp: socket_for_def\<close>)

lemma fds_disconnect: "fds (os_log (disconnect_udp_socket h w)) = fds (os_log w)"
  by (simp add: disconnect_udp_socket_def fds_note)

lemma connect_clean: "os_connect s a w = (ok, w') \<Longrightarrow> clean (os_log w) \<Longrightarrow> s \<in> set (fds (os_log w)) \<Longrightarrow> clean (os_log w')"
  by (auto simp: os_connect_def clean_note split: list.splits if_splits)

lemma disconnect_clean: "clean (os_log w) \<Longrightarrow> s \<in> set (fds (os_log w)) \<Longrightarrow> clean (os_log (disconnect_udp_socket s w))"
  by (auto simp: disconnect_udp_socket_def clean_note)

lemma fill_destination_len:
  "output_socket_fill_destination uri d l = (rc, d', l') \<Longrightarrow> (rc = 0 \<or> rc = -1) \<and> (rc = 0 \<longrightarrow> 0 < l')"
  by (auto simp: output_socket_fill_destination_def output_socket_fill_udp_destination_def
      fill_unix_destination_def sizeof_sockaddr_in_def split: uri_type.splits if_splits option.splits)

lemma fds_connect: "os_connect s a w = (ok, w') \<Longrightarrow> fds (os_log w') = fds (os_log w)"
  by (auto simp: os_connect_def fds_note split: list.splits if_splits)

lemma configure_owned:
  assumes "owned k w" and "output_socket_configure uri requested track k w = (rc, k', w')"
  shows "owned k' w' \<and> (rc = 0 \<longrightarrow> 0 \<le> sk_handle k' \<and> sk_transport k' = uri_type uri \<and> 0 < sk_dst_len k')
    \<and> (rc = 0 \<or> rc = -1)"
proof (cases "uri_type uri = URI_SHM")
  case True
  with assms show ?thesis by (simp add: output_socket_configure_def)
next
  case False
  obtain rc1 k1 w1 where s: "socket_for (uri_type uri) k w = (rc1, k1, w1)" by (metis prod_cases3)
  note so = socket_for_owned [OF assms(1) False s]
  obtain rc2 d l where f: "output_socket_fill_destination uri (sk_dst k1) (sk_dst_len k1) = (rc2, d, l)"
    by (metis prod_cases3)
  note fl = fill_destination_len [OF f]
  consider "rc1 \<noteq> 0" | "rc1 = 0" "rc2 \<noteq> 0" | "rc1 = 0" "rc2 = 0" by blast
  then show ?thesis
  proof cases
    case 1
    with so s assms(2) False show ?thesis by (simp add: output_socket_configure_def)
  next
    case 2
    obtain h2 w2 where "close_socket_if_open (sk_handle k1) w1 = (h2, w2)" by (metis surj_pair)
    with 2 so s f assms(2) False owned_close [of k1 w1 h2 w2] show ?thesis
      by (auto simp: output_socket_configure_def owned_def)
  next
    case 3
    with so s f fl assms(2) False show ?thesis
      by (auto simp: output_socket_configure_def owned_def Let_def fds_disconnect dest: fds_connect
          split: if_splits prod.splits)
  qed
qed

lemma configure_clean:
  assumes "owned k w" and "clean (os_log w)" and "output_socket_configure uri requested track k w = (rc, k', w')"
  shows "clean (os_log w')"
proof (cases "uri_type uri = URI_SHM")
  case True
  with assms show ?thesis by (simp add: output_socket_configure_def)
next
  case False
  obtain rc1 k1 w1 where s: "socket_for (uri_type uri) k w = (rc1, k1, w1)" by (metis prod_cases3)
  note so = socket_for_owned [OF assms(1) False s] and c1 = socket_for_clean [OF assms(1,2) s]
  obtain rc2 d l where f: "output_socket_fill_destination uri (sk_dst k1) (sk_dst_len k1) = (rc2, d, l)"
    by (metis prod_cases3)
  consider "rc1 \<noteq> 0" | "rc1 = 0" "rc2 \<noteq> 0" | "rc1 = 0" "rc2 = 0" by blast
  then show ?thesis
  proof cases
    case 1
    with c1 s assms(3) False show ?thesis by (simp add: output_socket_configure_def)
  next
    case 2
    obtain h2 w2 where c: "close_socket_if_open (sk_handle k1) w1 = (h2, w2)" by (metis surj_pair)
    with 2 so s f assms(3) False close_clean [OF _ c1 c] show ?thesis by (simp add: output_socket_configure_def)
  next
    case 3
    then have o: "sk_handle k1 \<in> set (fds (os_log w1))" using so by (simp add: owned_def)
    note d = disconnect_clean [OF c1 o]
    have o2: "sk_handle k1 \<in> set (fds (os_log (disconnect_udp_socket (sk_handle k1) w1)))" using o by (simp add: fds_disconnect)
    show ?thesis using 3 s f c1 assms(3) False d o o2
      by (auto simp: output_socket_configure_def Let_def split: if_splits prod.splits dest: connect_clean)
  qed
qed

text \<open>Property C33. Whatever the kernel answers, reconfiguring a socket keeps exactly one descriptor per
  output: the log's open descriptors are the one held afterwards (or none when the call leaves no
  socket), so none leaks; and no call is ever made on a descriptor that is not open, so none is closed
  twice and none used after it was closed.\<close>

theorem configure_owns_descriptor:
  assumes "owned k w" and "clean (os_log w)" and "output_socket_configure uri requested track k w = (rc, k', w')"
  shows "owned k' w' \<and> clean (os_log w')
    \<and> (rc = 0 \<longrightarrow> 0 \<le> sk_handle k' \<and> sk_transport k' = uri_type uri \<and> 0 < sk_dst_len k') \<and> (rc = 0 \<or> rc = -1)"
  using configure_owned [OF assms(1,3)] configure_clean [OF assms] by blast

theorem configure_owns_descriptor_witness:
  "\<exists>k' w'. output_socket_configure
      \<lparr>uri_type = URI_UDP, uri_host = ''10.0.0.1'', uri_port = 5600, uri_endpoint = ''''\<rparr> True True
      \<lparr>sk_handle = -1, sk_dst = NoAddr, sk_dst_len = 0, sk_transport = URI_UDP, sk_connected_udp = False\<rparr>
      \<lparr>os_sockets = [7], os_connects = [True], os_sends = [], os_log = []\<rparr> = (0, k', w')
    \<and> owned k' w' \<and> clean (os_log w') \<and> sk_handle k' = 7"
proof -
  let ?k = "\<lparr>sk_handle = -1, sk_dst = NoAddr, sk_dst_len = 0, sk_transport = URI_UDP, sk_connected_udp = False\<rparr>"
  let ?w = "\<lparr>os_sockets = [7], os_connects = [True], os_sends = [], os_log = []\<rparr>"
  let ?u = "\<lparr>uri_type = URI_UDP, uri_host = ''10.0.0.1'', uri_port = 5600, uri_endpoint = ''''\<rparr>"
  obtain rc k' w' where r: "output_socket_configure ?u True True ?k ?w = (rc, k', w')" by (metis prod_cases3)
  have "inet_pton4 ''10.0.0.1'' = Some [10, 0, 0, 1]"
    by (simp add: inet_pton4_def octet_def digit_val_def digits_value_def)
  then have "rc = 0 \<and> sk_handle k' = 7"
    using r by (auto simp: output_socket_configure_def socket_for_def close_socket_if_open_def open_socket_def
        os_socket_def output_socket_fill_destination_def output_socket_fill_udp_destination_def Let_def
        os_connect_def os_note_def split: prod.splits if_splits)
  moreover have "owned ?k ?w" "clean (os_log ?w)" by (simp_all add: owned_def fds_def clean_def)
  ultimately show ?thesis using configure_owns_descriptor [of ?k ?w ?u True True rc k' w'] r by auto
qed

text \<open>A change of destination that is refused because the host is not an IPv4 address
  (\<open>output_socket_configure\<close> returns -1) has already closed the working socket: the output is
  left without a descriptor and the next packet is not sent, although the old destination was fine.\<close>

lemma configure_failure_kills_output:
  assumes "0 \<le> sk_handle k" and "sk_transport k = URI_UDP" and "uri_type uri = URI_UDP"
    and "inet_pton4 (uri_host uri) = None" and "output_socket_configure uri requested track k w = (rc, k', w')"
  shows "rc = -1 \<and> sk_handle k' = -1 \<and> SockClosed (sk_handle k) \<in> set (os_log w')
    \<and> fst (output_socket_send_parts (sk_handle k') (sk_dst k') (sk_dst_len k') h a b w') = -1"
proof -
  have "fst (output_socket_fill_destination uri (sk_dst k) (sk_dst_len k)) = -1"
    using assms(3,4) by (simp add: output_socket_fill_destination_def output_socket_fill_udp_destination_def)
  then show ?thesis
    using assms by (auto simp: output_socket_configure_def socket_for_def close_socket_if_open_def Let_def
        output_socket_send_parts_def os_note_def split: prod.splits if_splits)
qed

lemma configure_failure_kills_output_witness:
  "\<exists>k' w'. output_socket_configure
      \<lparr>uri_type = URI_UDP, uri_host = ''gs.local'', uri_port = 5600, uri_endpoint = ''''\<rparr> True True
      \<lparr>sk_handle = 7, sk_dst = SinAddr [10, 0, 0, 1] 5600, sk_dst_len = 16, sk_transport = URI_UDP,
       sk_connected_udp = True\<rparr>
      \<lparr>os_sockets = [], os_connects = [], os_sends = [True], os_log = []\<rparr> = (-1, k', w')
    \<and> sk_handle k' = -1"
proof -
  let ?k = "\<lparr>sk_handle = 7, sk_dst = SinAddr [10, 0, 0, 1] 5600, sk_dst_len = 16, sk_transport = URI_UDP,
    sk_connected_udp = True\<rparr>"
  let ?w = "\<lparr>os_sockets = [], os_connects = [], os_sends = [True], os_log = []\<rparr>"
  let ?u = "\<lparr>uri_type = URI_UDP, uri_host = ''gs.local'', uri_port = 5600, uri_endpoint = ''''\<rparr>"
  obtain rc k' w' where r: "output_socket_configure ?u True True ?k ?w = (rc, k', w')" by (metis prod_cases3)
  have "inet_pton4 ''gs.local'' = None" by (simp add: inet_pton4_def octet_def digit_val_def)
  with configure_failure_kills_output [OF _ _ _ _ r, of "[]" "[]" "[]"] r show ?thesis by auto
qed
end
