(* ===== verification/Star6eOutput.thy ===== *)
theory Star6eOutput imports OutputSocket HevcRtp VencRing begin

text \<open>
  The video and audio outputs (\<open>src/star6e_output.c\<close>): preparation from a URI, sockets or the
  shared-memory ring, RTP and compact sending, live change of server with a generation counter
  (odd while writing), and the audio side's cached target.
\<close>

subsection \<open>State\<close>

datatype stream_mode = COMPACT | RTP

record output_setup =
  os_stream_mode :: stream_mode
  os_uri :: output_uri
  os_requested_connected :: bool
  os_has_server :: bool
  os_max_frame_size :: u16

text \<open>
  \<open>o_sock\<close> groups the fields the socket layer is given pointers to; a ring is its handle and
  the shared memory.
\<close>

record out_state =
  o_stream_mode :: stream_mode
  o_sock :: sock
  o_requested_connected :: bool
  o_ring :: "(ring_handle \<times> ring_shm) option"
  o_send_errors :: u32
  o_transport_gen :: u32

definition empty_uri :: output_uri where
  "empty_uri = \<lparr>uri_type = URI_UDP, uri_host = '''', uri_port = 0, uri_endpoint = ''''\<rparr>"

definition star6e_output_setup_reset :: output_setup where
  "star6e_output_setup_reset = \<lparr>os_stream_mode = COMPACT, os_uri = empty_uri, os_requested_connected = False,
     os_has_server = False, os_max_frame_size = 0\<rparr>"

definition no_sock :: sock where
  "no_sock = \<lparr>sk_handle = -1, sk_dst = NoAddr, sk_dst_len = 0, sk_transport = URI_UDP, sk_connected_udp = False\<rparr>"

definition star6e_output_reset :: out_state where
  "star6e_output_reset = \<lparr>o_stream_mode = COMPACT, o_sock = no_sock, o_requested_connected = False,
     o_ring = None, o_send_errors = 0, o_transport_gen = 0\<rparr>"

definition star6e_output_stream_mode_from_name :: "string option \<Rightarrow> stream_mode" where
  "star6e_output_stream_mode_from_name name = (if name = Some ''compact'' then COMPACT else RTP)"

definition star6e_output_prepare ::
  "string option \<Rightarrow> string option \<Rightarrow> u16 \<Rightarrow> bool \<Rightarrow> int \<times> output_setup" where
  "star6e_output_prepare server_uri mode max_frame want_connected =
     (let s0 = star6e_output_setup_reset\<lparr>os_stream_mode := star6e_output_stream_mode_from_name mode,
                 os_requested_connected := want_connected, os_max_frame_size := max_frame\<rparr>
      in case server_uri of None \<Rightarrow> (0, s0) | Some uri \<Rightarrow>
         if uri = '''' then (0, s0)
         else let s1 = s0\<lparr>os_has_server := True\<rparr> in
           case venc_config_parse_output_uri uri of
             None \<Rightarrow> (-1, s1)
           | Some u \<Rightarrow>
               let s2 = s1\<lparr>os_uri := u\<rparr>
               in if uri_type u = URI_SHM \<and> os_stream_mode s2 \<noteq> RTP then (-1, s2) else (0, s2))"

text \<open>The world of an output: its own state and the operating system.\<close>

type_synonym out_world = "out_state \<times> os"

definition star6e_output_init :: "output_setup \<Rightarrow> create_env \<Rightarrow> os \<Rightarrow> int \<times> out_state \<times> os" where
  "star6e_output_init setup e w =
     (let o1 = star6e_output_reset\<lparr>o_stream_mode := os_stream_mode setup,
                 o_requested_connected := os_requested_connected setup\<rparr>
      in if \<not> os_has_server setup then (0, o1, w)
         else if uri_type (os_uri setup) = URI_SHM
         then case venc_ring_create (uri_endpoint (os_uri setup)) 512 (ucast (os_max_frame_size setup) + 12) e of
             (None, ops) \<Rightarrow> (-1, o1, w)
           | (Some ring, ops) \<Rightarrow>
               (0, o1\<lparr>o_ring := Some ring,
                      o_sock := (o_sock o1)\<lparr>sk_transport := URI_SHM, sk_dst := NoAddr, sk_dst_len := 0,
                                            sk_connected_udp := False\<rparr>,
                      o_transport_gen := o_transport_gen o1 + 2\<rparr>, w)
         else case output_socket_configure (os_uri setup) (o_requested_connected o1) True (o_sock o1) w of
             (rc, k, w') \<Rightarrow>
               if rc \<noteq> 0 then (-1, o1\<lparr>o_sock := k\<rparr>, w')
               else (0, o1\<lparr>o_sock := k, o_transport_gen := o_transport_gen o1 + 2\<rparr>, w'))"

definition star6e_output_is_rtp :: "out_state \<Rightarrow> bool" where
  "star6e_output_is_rtp ou \<longleftrightarrow> o_stream_mode ou = RTP"

definition star6e_output_is_shm :: "out_state \<Rightarrow> bool" where
  "star6e_output_is_shm ou \<longleftrightarrow> sk_transport (o_sock ou) = URI_SHM"

definition star6e_output_drain_send_errors :: "out_state \<Rightarrow> u32 \<times> out_state" where
  "star6e_output_drain_send_errors ou = (o_send_errors ou, ou\<lparr>o_send_errors := 0\<rparr>)"

subsection \<open>Sending RTP\<close>

definition star6e_output_send_rtp_parts :: "out_world writer" where
  "star6e_output_send_rtp_parts header payload1 payload2 = (\<lambda>(ou, w).
     if header = [] \<or> payload1 = [] then (-1, ou, w)
     else case o_ring ou of
       Some (r, m) \<Rightarrow>
         let total_payload = length payload1 + length payload2 in
         if length header > 65535 \<or> total_payload > 65535 then (-1, ou, w)
         else if payload2 \<noteq> [] then
           (if total_payload > RTP_BUFFER_MAX then (-1, ou, w)
            else case venc_ring_write header (payload1 @ payload2) r m of (rc, ring) \<Rightarrow>
              (rc, ou\<lparr>o_ring := Some ring\<rparr>, w))
         else case venc_ring_write header payload1 r m of (rc, ring) \<Rightarrow> (rc, ou\<lparr>o_ring := Some ring\<rparr>, w)
     | None \<Rightarrow>
         let k = o_sock ou in
         case output_socket_send_parts (sk_handle k) (sk_dst k) (sk_dst_len k) header payload1 payload2 w of
           (rc, w') \<Rightarrow> if rc \<noteq> 0 then (-1, ou\<lparr>o_send_errors := o_send_errors ou + 1\<rparr>, w') else (0, ou, w'))"

subsection \<open>Compact sending\<close>

definition compact_header :: "bytes \<Rightarrow> bool \<Rightarrow> u16 \<Rightarrow> bytes" where
  "compact_header packet fin seq =
     [packet ! 0, (packet ! 1 AND 0x7f) OR (if fin then packet ! 1 AND 0x80 else 0),
      ucast (drop_bit 8 seq), ucast (seq AND 0xff)] @ take 8 (drop 4 packet)"

text \<open>
  The fragment loop; \<open>mf\<close> (\<open>max_fragment\<close>) is positive because of the early return, the test
  for 0 makes the recursion total. The timestamp and SSRC written back are the packet's own bytes.
\<close>

function compact_loop :: "bytes \<Rightarrow> nat \<Rightarrow> u16 \<Rightarrow> bytes \<Rightarrow> out_world \<Rightarrow> int \<times> out_world" where
  "compact_loop packet mf seq payload ow =
     (if payload = [] \<or> mf = 0 then (0, ow)
      else case ow of (ou, w) \<Rightarrow>
        let n = (if length payload > mf then mf else length payload);
            k = o_sock ou
        in case os_sendmsg (sk_handle k) (sk_dst k)
             (compact_header packet (n \<ge> length payload) seq @ take n payload) w of (ok, w') \<Rightarrow>
          if \<not> ok then (-1, ou\<lparr>o_send_errors := o_send_errors ou + 1\<rparr>, w')
          else compact_loop packet mf (seq + 1) (drop n payload) (ou, w'))"
  by pat_completeness auto
termination
  by (relation "measure (\<lambda>(p, mf, s, payload, ow). length payload)") (auto split: if_splits)

declare compact_loop.simps [simp del]

definition star6e_output_send_compact_packet :: "bytes \<Rightarrow> nat \<Rightarrow> out_world \<Rightarrow> int \<times> out_world" where
  "star6e_output_send_compact_packet packet max_size = (\<lambda>(ou, w).
     let k = o_sock ou in
     if sk_handle k < 0 \<or> sk_transport k = URI_SHM \<or> packet = [] then (-1, ou, w)
     else if length packet \<le> max_size
     then case os_sendmsg (sk_handle k) (sk_dst k) packet w of (ok, w') \<Rightarrow>
       if \<not> ok then (-1, ou\<lparr>o_send_errors := o_send_errors ou + 1\<rparr>, w') else (0, ou, w')
     else if max_size \<le> 12 \<or> length packet \<le> 12 then (0, ou, w)
     else compact_loop packet (max_size - 12) (be16 (packet ! 2) (packet ! 3)) (drop 12 packet) (ou, w))"

text \<open>The packets of a frame the compact loop sends: every entry inside its pack, in order.\<close>

definition compact_units :: "venc_pack \<Rightarrow> bytes list" where
  "compact_units p = (case pk_data p of None \<Rightarrow> [] | Some d \<Rightarrow>
     if pk_num p > 0
     then concat (map (\<lambda>k. case info_bytes d (pk_length p) (pk_info p ! k) of None \<Rightarrow> [] | Some b \<Rightarrow> [b])
                      [0..<info_count p])
     else (case whole_bytes d p of None \<Rightarrow> [] | Some b \<Rightarrow> [b]))"

primrec send_compact_all :: "nat \<Rightarrow> bytes list \<Rightarrow> out_world \<Rightarrow> nat \<times> out_world" where
  "send_compact_all max_size [] ow = (0, ow)"
| "send_compact_all max_size (b # bs) ow =
     (case star6e_output_send_compact_packet b max_size ow of (rc, ow1) \<Rightarrow>
      case send_compact_all max_size bs ow1 of (n, ow2) \<Rightarrow> (length b + n, ow2))"

definition star6e_output_send_compact_frame :: "venc_stream \<Rightarrow> nat \<Rightarrow> out_world \<Rightarrow> nat \<times> out_world" where
  "star6e_output_send_compact_frame stream max_size ow =
     send_compact_all max_size (concat (map compact_units stream)) ow"

text \<open>\<open>rtp_send\<close> is the callback with its opaque state \<open>'x\<close>; \<open>None\<close> is a NULL callback.\<close>

definition star6e_output_send_frame ::
  "venc_stream \<Rightarrow> nat \<Rightarrow> (venc_stream \<Rightarrow> 'x \<Rightarrow> out_world \<Rightarrow> nat \<times> 'x \<times> out_world) option \<Rightarrow> 'x \<Rightarrow> out_world
   \<Rightarrow> nat \<times> 'x \<times> out_world" where
  "star6e_output_send_frame stream max_size rtp_send x ow =
     (if star6e_output_is_rtp (fst ow)
      then (case rtp_send of None \<Rightarrow> (0, x, ow) | Some f \<Rightarrow> f stream x ow)
      else case star6e_output_send_compact_frame stream max_size ow of (n, ow') \<Rightarrow> (n, x, ow'))"

subsection \<open>Changing the server, teardown\<close>

definition star6e_output_apply_server :: "string \<Rightarrow> out_world \<Rightarrow> int \<times> out_world" where
  "star6e_output_apply_server uri = (\<lambda>(ou, w).
     if o_ring ou \<noteq> None then (-1, ou, w)
     else case venc_config_parse_output_uri uri of
       None \<Rightarrow> (-1, ou, w)
     | Some parsed \<Rightarrow>
         if uri_type parsed = URI_SHM then (-1, ou, w)
         else
           let o1 = ou\<lparr>o_transport_gen := o_transport_gen ou + 1\<rparr> in
           case output_socket_configure parsed (o_requested_connected o1) True (o_sock o1) w of (rc, k, w') \<Rightarrow>
             let o2 = o1\<lparr>o_sock := k, o_transport_gen := o_transport_gen o1 + 1\<rparr>
             in if rc \<noteq> 0 then (-1, o2, w') else (0, o2, w'))"

definition star6e_output_teardown :: "out_world \<Rightarrow> out_world \<times> os_op list" where
  "star6e_output_teardown = (\<lambda>(ou, w).
     let (o1, ops) = (case o_ring ou of None \<Rightarrow> (ou, [])
           | Some (r, m) \<Rightarrow> (ou\<lparr>o_ring := None\<rparr>, snd (venc_ring_destroy r (shm_hdr m))))
     in case close_socket_if_open (sk_handle (o_sock o1)) w of (h, w') \<Rightarrow>
       ((o1\<lparr>o_sock := \<lparr>sk_handle = h, sk_dst = NoAddr, sk_dst_len = 0, sk_transport = URI_UDP,
             sk_connected_udp = False\<rparr>, o_requested_connected := False\<rparr>, w'), ops))"

subsection \<open>The audio side\<close>

record audio_target =
  at_handle :: int
  at_dst :: sockaddr
  at_dst_len :: nat

record audio_output =
  ao_socket_handle :: int
  ao_fallback_dst :: sockaddr
  ao_fallback_dst_len :: nat
  ao_port_override :: u16
  ao_max_payload_size :: u16
  ao_cached_target :: audio_target
  ao_cached_gen :: u32
  ao_cache_valid :: bool

definition resolve_shared_audio_target :: "out_state \<Rightarrow> audio_target option" where
  "resolve_shared_audio_target vo =
     (if sk_handle (o_sock vo) < 0 \<or> o_ring vo \<noteq> None \<or> sk_dst_len (o_sock vo) = 0 then None
      else Some \<lparr>at_handle = sk_handle (o_sock vo), at_dst = sk_dst (o_sock vo), at_dst_len = sk_dst_len (o_sock vo)\<rparr>)"

text \<open>Storing a port into a copied destination.\<close>

fun set_port :: "u16 \<Rightarrow> sockaddr \<Rightarrow> sockaddr" where
  "set_port p (SinAddr ip q) = SinAddr ip p"
| "set_port p a = a"

definition resolve_dedicated_audio_target :: "audio_output \<Rightarrow> out_state \<Rightarrow> audio_target option" where
  "resolve_dedicated_audio_target ao vo =
     (if ao_socket_handle ao < 0 then None
      else if sk_transport (o_sock vo) = URI_UDP \<and> sk_dst_len (o_sock vo) = sizeof_sockaddr_in
      then Some \<lparr>at_handle = ao_socket_handle ao, at_dst = set_port (ao_port_override ao) (sk_dst (o_sock vo)),
                 at_dst_len = sk_dst_len (o_sock vo)\<rparr>
      else Some \<lparr>at_handle = ao_socket_handle ao, at_dst = ao_fallback_dst ao, at_dst_len = ao_fallback_dst_len ao\<rparr>)"

definition resolve_audio_target :: "audio_output \<Rightarrow> out_state \<Rightarrow> audio_target option" where
  "resolve_audio_target ao vo =
     (if ao_port_override ao = 0 then resolve_shared_audio_target vo else resolve_dedicated_audio_target ao vo)"

text \<open>
  The audio thread reads the video output while another thread may be changing it, so the
  cached lookup takes the output as it is at its three moments: the first load of the
  generation (\<open>v1\<close>), the resolution (\<open>v2\<close>), and the second load (\<open>v3\<close>).
\<close>

definition resolve_cached_audio_target ::
  "audio_output \<Rightarrow> out_state \<Rightarrow> out_state \<Rightarrow> out_state \<Rightarrow> audio_target option \<times> audio_output" where
  "resolve_cached_audio_target ao v1 v2 v3 =
     (let gen = o_transport_gen v1 in
      if ao_cache_valid ao \<and> ao_cached_gen ao = gen \<and> even gen then (Some (ao_cached_target ao), ao)
      else case resolve_audio_target ao v2 of
        None \<Rightarrow> (None, ao)
      | Some target \<Rightarrow>
          let gen' = o_transport_gen v3 in
          if even gen'
          then (Some target, ao\<lparr>ao_cached_target := target, ao_cached_gen := gen', ao_cache_valid := True\<rparr>)
          else (Some target, ao))"

definition send_audio_rtp :: "audio_target \<Rightarrow> os writer" where
  "send_audio_rtp t header payload1 payload2 w =
     output_socket_send_parts (at_handle t) (at_dst t) (at_dst_len t) header payload1 payload2 w"

definition star6e_audio_output_reset :: audio_output where
  "star6e_audio_output_reset = \<lparr>ao_socket_handle = -1, ao_fallback_dst = NoAddr, ao_fallback_dst_len = 0,
     ao_port_override = 0, ao_max_payload_size = 0,
     ao_cached_target = \<lparr>at_handle = 0, at_dst = NoAddr, at_dst_len = 0\<rparr>, ao_cached_gen = 0,
     ao_cache_valid = False\<rparr>"

definition star6e_audio_output_init :: "u16 \<Rightarrow> u16 \<Rightarrow> os \<Rightarrow> int \<times> audio_output \<times> os" where
  "star6e_audio_output_init port_override max_payload w =
     (let a1 = star6e_audio_output_reset\<lparr>ao_port_override := port_override, ao_max_payload_size := max_payload\<rparr>
      in if port_override = 0 then (0, a1, w)
         else case os_socket URI_UDP w of (s, w1) \<Rightarrow>
           let a2 = a1\<lparr>ao_socket_handle := s\<rparr> in
           if s < 0 then (-1, a2, w1)
           else case output_socket_fill_udp_destination ''127.0.0.1'' port_override
               (ao_fallback_dst a2) (ao_fallback_dst_len a2) of (rc, d, l) \<Rightarrow>
             let a3 = a2\<lparr>ao_fallback_dst := d, ao_fallback_dst_len := l\<rparr>
             in if rc \<noteq> 0 then (-1, a3\<lparr>ao_socket_handle := -1\<rparr>, os_note (SockClosed s) w1) else (0, a3, w1))"

definition star6e_audio_output_port :: "audio_output \<Rightarrow> out_state \<Rightarrow> u16" where
  "star6e_audio_output_port ao vo =
     (if ao_port_override ao \<noteq> 0 then ao_port_override ao
      else if sk_transport (o_sock vo) \<noteq> URI_UDP \<or> sk_dst_len (o_sock vo) \<noteq> sizeof_sockaddr_in then 0
      else case sk_dst (o_sock vo) of SinAddr ip p \<Rightarrow> p | _ \<Rightarrow> 0)"

definition star6e_audio_output_send_rtp ::
  "bytes \<Rightarrow> u32 \<Rightarrow> out_state \<Rightarrow> out_state \<Rightarrow> out_state \<Rightarrow> audio_output \<times> rtp_state \<times> os
   \<Rightarrow> int \<times> audio_output \<times> rtp_state \<times> os" where
  "star6e_audio_output_send_rtp data frame_ticks v1 v2 v3 = (\<lambda>(ao, st, w).
     if data = [] then (-1, ao, st, w)
     else case resolve_cached_audio_target ao v1 v2 v3 of
       (None, ao') \<Rightarrow> (-1, ao', st, w)
     | (Some t, ao') \<Rightarrow>
         case rtp_packetizer_send_packet (send_audio_rtp t) st data [] False w of (rc, st', w') \<Rightarrow>
           if rc \<noteq> 0 then (-1, ao', st', w')
           else (0, ao', st'\<lparr>rp_timestamp := rp_timestamp st' + frame_ticks\<rparr>, w'))"

text \<open>The chunk loop of the compact audio format; the caller returns early when \<open>md\<close> is 0.\<close>

function audio_compact_loop :: "audio_target \<Rightarrow> nat \<Rightarrow> bytes \<Rightarrow> os \<Rightarrow> int \<times> os" where
  "audio_compact_loop t md data w =
     (if data = [] \<or> md = 0 then (0, w)
      else let chunk = (if length data > md then md else length data) in
        case os_sendmsg (at_handle t) (at_dst t)
            ([0xAA, 0x01, word_of_nat (chunk div 256), word_of_nat chunk] @ take chunk data) w of (ok, w') \<Rightarrow>
          if \<not> ok then (-1, w') else audio_compact_loop t md (drop chunk data) w')"
  by pat_completeness auto
termination
  by (relation "measure (\<lambda>(t, md, data, w). length data)") (auto split: if_splits)

declare audio_compact_loop.simps [simp del]

definition star6e_audio_output_send_compact ::
  "bytes \<Rightarrow> out_state \<Rightarrow> out_state \<Rightarrow> out_state \<Rightarrow> audio_output \<times> os \<Rightarrow> int \<times> audio_output \<times> os" where
  "star6e_audio_output_send_compact data v1 v2 v3 = (\<lambda>(ao, w).
     if data = [] then (-1, ao, w)
     else case resolve_cached_audio_target ao v1 v2 v3 of
       (None, ao') \<Rightarrow> (-1, ao', w)
     | (Some t, ao') \<Rightarrow>
         let max_data = (if ao_max_payload_size ao' > 4 then unat (ao_max_payload_size ao' - 4) else 0)
         in if max_data = 0 then (0, ao', w)
            else case audio_compact_loop t max_data data w of (rc, w') \<Rightarrow> (rc, ao', w'))"

definition star6e_audio_output_send ::
  "bytes \<Rightarrow> u32 \<Rightarrow> out_state \<Rightarrow> out_state \<Rightarrow> out_state \<Rightarrow> audio_output \<times> rtp_state \<times> os
   \<Rightarrow> int \<times> audio_output \<times> rtp_state \<times> os" where
  "star6e_audio_output_send data frame_ticks v1 v2 v3 = (\<lambda>(ao, st, w).
     if star6e_output_is_rtp v1 then star6e_audio_output_send_rtp data frame_ticks v1 v2 v3 (ao, st, w)
     else case star6e_audio_output_send_compact data v1 v2 v3 (ao, w) of (rc, ao', w') \<Rightarrow> (rc, ao', st, w'))"

definition star6e_audio_output_teardown :: "audio_output \<times> os \<Rightarrow> audio_output \<times> os" where
  "star6e_audio_output_teardown = (\<lambda>(ao, w).
     (star6e_audio_output_reset,
      if ao_socket_handle ao \<ge> 0 \<and> ao_port_override ao \<noteq> 0 then os_note (SockClosed (ao_socket_handle ao)) w else w))"

subsection \<open>The transports keep the packetizers' contracts\<close>

definition sent_datagrams :: "out_world \<Rightarrow> bytes list" where
  "sent_datagrams ow = datagrams (os_log (snd ow))"

definition socket_mode :: "out_world \<Rightarrow> bool" where
  "socket_mode ow \<longleftrightarrow> o_ring (fst ow) = None"

text \<open>The kernel accepts the next \<open>n\<close> datagrams of a configured socket.\<close>

definition socket_credit :: "nat \<Rightarrow> nat \<Rightarrow> out_world \<Rightarrow> bool" where
  "socket_credit mtu n ow \<longleftrightarrow> (let k = o_sock (fst ow) in
     o_ring (fst ow) = None \<and> 0 \<le> sk_handle k \<and> sk_dst_len k \<noteq> 0 \<and>
     take n (os_sends (snd ow)) = replicate n True)"

text \<open>The ring has \<open>n\<close> free slots of at least \<open>mtu\<close> bytes and its counter is not about to wrap.\<close>

definition ring_packets :: "out_world \<Rightarrow> bytes list" where
  "ring_packets ow = (case o_ring (fst ow) of None \<Rightarrow> [] | Some s \<Rightarrow> ring_contents s)"

definition ring_credit :: "nat \<Rightarrow> nat \<Rightarrow> out_world \<Rightarrow> bool" where
  "ring_credit mtu n ow \<longleftrightarrow> mtu \<le> RTP_BUFFER_MAX + 12 \<and>
     (case o_ring (fst ow) of None \<Rightarrow> False | Some s \<Rightarrow>
        ring_wf n s \<and> mtu \<le> unat (h_slot_data_size (fst s))
        \<and> length (ring_contents s) + n \<le> length (shm_slots (snd s)))"

lemma sendmsg_datagrams:
  "os_sendmsg s a p w = (ok, w') \<Longrightarrow>
    datagrams (os_log w') = datagrams (os_log w) @ (if ok then [p] else [])"
  by (auto simp: os_sendmsg_def os_note_def split: list.splits if_splits)

lemma send_parts_cases:
  assumes "o_ring ou = None" and "star6e_output_send_rtp_parts h a b (ou, w) = (rc, ou', w')"
    and "h \<noteq> []" and "a \<noteq> []"
  shows "o_ring ou' = None \<and> o_sock ou' = o_sock ou
    \<and> datagrams (os_log w') = datagrams (os_log w) @ (if rc = 0 then [h @ a @ b] else [])"
  using assms
  by (auto simp: star6e_output_send_rtp_parts_def output_socket_send_parts_def Let_def
      split: if_splits prod.splits dest: sendmsg_datagrams)

lemma take_replicate_less: "take (Suc n) xs = replicate (Suc n) x \<Longrightarrow> take n xs = replicate n x"
  by (metis lessI min.absorb2 min.commute order_less_imp_le take_replicate take_take)

interpretation udp: packet_sink star6e_output_send_rtp_parts sent_datagrams socket_mode
proof unfold_locales
  fix ow ow' :: out_world and h a b rc
  assume m: "socket_mode ow"
  {
    assume "h \<noteq> []" "a \<noteq> []" "star6e_output_send_rtp_parts h a b ow = (0, ow')"
    then show "sent_datagrams ow' = sent_datagrams ow @ [h @ a @ b]"
      using m send_parts_cases [of "fst ow" h a b "snd ow" 0 "fst ow'" "snd ow'"]
      by (simp add: socket_mode_def sent_datagrams_def)
  }
  {
    assume "h \<noteq> []" "a \<noteq> []" "star6e_output_send_rtp_parts h a b ow = (rc, ow')" "rc \<noteq> 0"
    then show "sent_datagrams ow' = sent_datagrams ow"
      using m send_parts_cases [of "fst ow" h a b "snd ow" rc "fst ow'" "snd ow'"]
      by (simp add: socket_mode_def sent_datagrams_def)
  }
  assume "star6e_output_send_rtp_parts h a b ow = (rc, ow')"
  with m show "socket_mode ow'"
    by (cases ow; cases ow')
      (auto simp: socket_mode_def star6e_output_send_rtp_parts_def Let_def split: if_splits prod.splits)
qed

interpretation udpc: credit_sink star6e_output_send_rtp_parts sent_datagrams socket_credit
proof unfold_locales
  fix mtu n and ow :: out_world and h a b :: bytes
  assume c: "socket_credit mtu (Suc n) ow" and "length h = 12" and "a \<noteq> []"
  then have ne: "h \<noteq> []" "a \<noteq> []" by auto
  obtain ou w where ow: "ow = (ou, w)" by (cases ow)
  let ?k = "o_sock ou"
  have k: "o_ring ou = None" "0 \<le> sk_handle ?k" "sk_dst_len ?k \<noteq> 0" "take (Suc n) (os_sends w) = replicate (Suc n) True"
    using c by (simp_all add: ow socket_credit_def Let_def)
  then obtain ss where ss: "os_sends w = True # ss" "take n ss = replicate n True"
    by (cases "os_sends w") auto
  define w1 where "w1 = os_note (Datagram (sk_handle ?k) (sk_dst ?k) (h @ a @ b)) (w\<lparr>os_sends := ss\<rparr>)"
  have "os_sendmsg (sk_handle ?k) (sk_dst ?k) (h @ a @ b) w = (True, w1)"
    by (simp add: os_sendmsg_def ss w1_def)
  then have "star6e_output_send_rtp_parts h a b ow = (0, ou, w1)"
    using k ne by (simp add: ow star6e_output_send_rtp_parts_def output_socket_send_parts_def Let_def)
  moreover have "sent_datagrams (ou, w1) = sent_datagrams ow @ [h @ a @ b]"
    by (simp add: sent_datagrams_def ow w1_def os_note_def)
  moreover have "socket_credit mtu n (ou, w1)"
    using k ss by (simp add: socket_credit_def Let_def w1_def os_note_def)
  ultimately show "\<exists>w'. star6e_output_send_rtp_parts h a b ow = (0, w')
      \<and> sent_datagrams w' = sent_datagrams ow @ [h @ a @ b] \<and> socket_credit mtu n w'" by blast
next
  fix mtu n and ow :: out_world
  assume "socket_credit mtu (Suc n) ow"
  then have "take (Suc n) (os_sends (snd ow)) = replicate (Suc n) True" and
    r: "o_ring (fst ow) = None" "0 \<le> sk_handle (o_sock (fst ow))" "sk_dst_len (o_sock (fst ow)) \<noteq> 0"
    by (simp_all add: socket_credit_def Let_def)
  from take_replicate_less [OF this(1)] r show "socket_credit mtu n ow"
    by (simp add: socket_credit_def Let_def)
qed

interpretation shm: credit_sink star6e_output_send_rtp_parts ring_packets ring_credit
proof unfold_locales
  fix mtu n and ow :: out_world and h a b :: bytes
  assume c: "ring_credit mtu (Suc n) ow" and h: "length h = 12" and "a \<noteq> []"
    and len: "length h + length a + length b \<le> mtu"
  then have ne: "h \<noteq> []" "a \<noteq> []" by auto
  obtain ou w r m where ow: "ow = (ou, w)" and rm: "o_ring ou = Some (r, m)"
    using c by (cases ow) (auto simp: ring_credit_def split: option.splits)
  have wf: "ring_wf (Suc n) (r, m)" and fit: "length h + length (a @ b) \<le> unat (h_slot_data_size r)"
    and room: "length (ring_contents (r, m)) + Suc n \<le> length (shm_slots m)" and mt: "mtu \<le> RTP_BUFFER_MAX + 12"
    using c len by (auto simp: ow rm ring_credit_def)
  obtain rc r' m' where wr: "venc_ring_write h (a @ b) r m = (rc, r', m')" by (metis prod_cases3)
  have nf: "length (ring_contents (r, m)) \<noteq> length (shm_slots m)" using room by linarith
  note ok = venc_ring_write_ok [OF wf fit nf wr]
  have sz: "length (shm_slots m') = length (shm_slots m)" "h_slot_data_size r' = h_slot_data_size r"
    using wr by (auto simp: venc_ring_write_def Let_def split: if_splits)
  have "length h \<le> 65535" "length a + length b \<le> 65535" "length a + length b \<le> RTP_BUFFER_MAX"
    using len mt h by (simp_all add: RTP_BUFFER_MAX_def)
  then have "star6e_output_send_rtp_parts h a b ow = (0, ou\<lparr>o_ring := Some (r', m')\<rparr>, w)"
    using ne wr ok(1) by (cases "b = []") (simp_all add: ow rm star6e_output_send_rtp_parts_def Let_def)
  moreover have "ring_credit mtu n (ou\<lparr>o_ring := Some (r', m')\<rparr>, w)"
    using c ok(2,3) room sz by (simp add: ring_credit_def ow rm)
  ultimately show "\<exists>w'. star6e_output_send_rtp_parts h a b ow = (0, w')
      \<and> ring_packets w' = ring_packets ow @ [h @ a @ b] \<and> ring_credit mtu n w'"
    using ok(2) by (intro exI [of _ "(ou\<lparr>o_ring := Some (r', m')\<rparr>, w)"]) (simp add: ring_packets_def ow rm)
next
  fix mtu n and ow :: out_world
  assume "ring_credit mtu (Suc n) ow"
  then show "ring_credit mtu n ow"
    by (auto simp: ring_credit_def split: option.splits dest: ring_wf_drop)
qed

subsection \<open>Frames over UDP and through the ring\<close>

text \<open>Property C2. A frame sent over a configured socket whose kernel accepts the packets: the call returns
  the bytes of the frame's NAL units, and the datagrams it produced are RTP packets numbered
  consecutively from the session's state, at most the payload limit in size, of which a receiver
  (single NAL units, aggregation packets, fragmentation units) rebuilds exactly the frame's NAL
  units with the parameter sets in front of IDR pictures; only the last packet carries the marker.\<close>

theorem hevc_frame_over_udp:
  assumes "mp = min max_payload RTP_BUFFER_MAX" and "3 < max_payload"
    and "nals = frame_nals params (frame_units stream)" and "\<forall>x \<in> set nals. sendable x"
    and "socket_credit (12 + mp) (Suc (frame_cost mp nals)) (ou, w)"
  shows "\<exists>pkts stats' ou' w'. star6e_hevc_rtp_send_frame star6e_output_send_rtp_parts stream st ticks params
        max_payload stats (ou, w)
      = (bytes_of nals, (rtp_next (length pkts) st)\<lparr>rp_timestamp := rp_timestamp st + ticks\<rparr>,
         frame_params params (frame_units stream), stats', ou', w')
    \<and> datagrams (os_log w') = datagrams (os_log w) @ rtp_stream st pkts
    \<and> depay [] (map fst pkts) = nals \<and> (\<forall>p \<in> fst ` set pkts. length p \<le> mp)
    \<and> (\<forall>x \<in> set (butlast pkts). \<not> snd x)
    \<and> (frame_units stream \<noteq> [] \<and> snd (snd (last (frame_units stream))) \<longrightarrow> pkts \<noteq> [] \<and> snd (last pkts))"
  using udpc.send_frame_credit [OF assms(1,3) _ assms(4,2) order_refl, of 0 "(ou, w)" st ticks stats] assms(5)
  by (fastforce simp: sent_datagrams_def)

definition example_pack :: venc_pack where
  "example_pack = \<lparr>pk_data = Some [0, 0, 0, 1, 0x02, 1, 0xAA], pk_length = 7, pk_timestamp = 0, pk_nal_type = 1,
     pk_offset = 0, pk_num = 0, pk_info = []\<rparr>"

definition example_rtp :: rtp_state where
  "example_rtp = \<lparr>rp_seq = 65535, rp_timestamp = 1000, rp_ssrc = 7, rp_payload_type = 97\<rparr>"

definition zero_rtp_stats :: hevc_rtp_stats where
  "zero_rtp_stats = \<lparr>hs_total_nals = 0, hs_single_packets = 0, hs_ap_packets = 0, hs_ap_nals = 0,
     hs_fu_packets = 0, hs_rtp_packets = 0, hs_rtp_payload_bytes = 0\<rparr>"

lemma example_units: "pack_units True example_pack = [(1, [0x02, 1, 0xAA], True)]"
  by (simp add: example_pack_def pack_units_def nal_unit_def whole_bytes_def slice_def
      h26x_util_strip_start_code_def numeral_eq_Suc)

lemma example_nals:
  "frame_nals None (frame_units [example_pack]) = [[0x02, 1, 0xAA]]"
  "\<forall>x \<in> set (frame_nals None (frame_units [example_pack])). sendable x"
  "frame_cost 1400 (frame_nals None (frame_units [example_pack])) = 2"
  by (simp_all add: example_units sendable_def rtp_hevc_type_def nal_cost_def nal_payloads_def)

definition example_out :: out_state where
  "example_out = star6e_output_reset\<lparr>o_stream_mode := RTP,
     o_sock := no_sock\<lparr>sk_handle := 7, sk_dst := SinAddr [10, 0, 0, 1] 5600, sk_dst_len := 16\<rparr>\<rparr>"

definition example_os :: "bool list \<Rightarrow> os" where
  "example_os answers = \<lparr>os_sockets = [], os_connects = [], os_sends = answers, os_log = []\<rparr>"

theorem hevc_frame_over_udp_witness:
  "\<exists>n st' p s ou' w' pkts. star6e_hevc_rtp_send_frame star6e_output_send_rtp_parts [example_pack] example_rtp 3000 None
        1400 zero_rtp_stats (example_out, example_os [True, True, True]) = (n, st', p, s, ou', w')
    \<and> n = 3 \<and> datagrams (os_log w') = rtp_stream example_rtp pkts \<and> depay [] (map fst pkts) = [[0x02, 1, 0xAA]]
    \<and> snd (last pkts)"
proof -
  have mp: "1400 = min 1400 RTP_BUFFER_MAX" by (simp add: RTP_BUFFER_MAX_def)
  have cr: "socket_credit (12 + 1400) (Suc (frame_cost 1400 (frame_nals None (frame_units [example_pack]))))
      (example_out, example_os [True, True, True])"
    unfolding example_nals(3)
    by (simp add: socket_credit_def example_out_def example_os_def star6e_output_reset_def
        no_sock_def numeral_2_eq_2)
  have l: "frame_units [example_pack] \<noteq> [] \<and> snd (snd (last (frame_units [example_pack])))"
    by (simp add: example_units)
  have log: "datagrams (os_log (example_os a)) = []" for a by (simp add: example_os_def)
  from hevc_frame_over_udp [OF mp _ refl example_nals(2) cr, of example_rtp 3000 zero_rtp_stats] l
  show ?thesis unfolding example_nals(1) log by (fastforce simp: bytes_of_def)
qed

text \<open>Property C3. The same through shared memory: with room in the ring for the frame, the packets a consumer
  will read out of the ring are those RTP packets, behind what the ring already held.\<close>

theorem hevc_frame_through_ring:
  assumes "mp = min max_payload RTP_BUFFER_MAX" and "3 < max_payload"
    and "nals = frame_nals params (frame_units stream)" and "\<forall>x \<in> set nals. sendable x"
    and "ring_credit (12 + mp) (Suc (frame_cost mp nals)) (ou, w)"
  shows "\<exists>pkts stats' ou' w'. star6e_hevc_rtp_send_frame star6e_output_send_rtp_parts stream st ticks params
        max_payload stats (ou, w)
      = (bytes_of nals, (rtp_next (length pkts) st)\<lparr>rp_timestamp := rp_timestamp st + ticks\<rparr>,
         frame_params params (frame_units stream), stats', ou', w')
    \<and> ring_packets (ou', w') = ring_packets (ou, w) @ rtp_stream st pkts
    \<and> depay [] (map fst pkts) = nals"
  using shm.send_frame_credit [OF assms(1,3) _ assms(4,2) order_refl, of 0 "(ou, w)" st ticks stats] assms(5)
  by fastforce

definition example_env :: create_env where
  "example_env = \<lparr>ce_shm_open = True, ce_ftruncate = True, ce_mmap = True, ce_calloc = True,
     ce_tv_sec = 5, ce_tv_nsec = 0\<rparr>"

lemma ring_wf_mono: "m \<le> n \<Longrightarrow> ring_wf n s \<Longrightarrow> ring_wf m s"
  by (auto simp: ring_wf_def Let_def)

text \<open>A ring fresh from \<open>venc_ring_create\<close> has credit for as many packets as it has slots.\<close>

lemma fresh_ring_credit:
  assumes "venc_ring_create name c d e = (Some s, ops)" and "n \<le> unat c" and "mtu \<le> unat d"
    and "mtu \<le> RTP_BUFFER_MAX + 12"
  shows "ring_credit mtu n (ou\<lparr>o_ring := Some s\<rparr>, w) \<and> ring_packets (ou\<lparr>o_ring := Some s\<rparr>, w) = []"
proof -
  obtain r m where s: "s = (r, m)" by (cases s)
  note cr = venc_ring_create_Some [OF assms(1) [unfolded s]] and wf = ring_create_wf [OF assms(1) [unfolded s]]
  have "n \<le> 2 ^ 64 - 1" using assms(2) unat_lt_word [of c] by simp
  from ring_wf_mono [OF this wf(1)] show ?thesis
    using assms(2-4) wf(2) cr(5,6)
    by (simp add: s ring_credit_def ring_packets_def new_handle_def fresh_slots_def)
qed

theorem hevc_frame_through_ring_witness:
  "\<exists>s ops n st' p t ow' pkts. venc_ring_create ''venc'' 4 1412 example_env = (Some s, ops)
    \<and> star6e_hevc_rtp_send_frame star6e_output_send_rtp_parts [example_pack] example_rtp 3000 None
        1400 zero_rtp_stats (example_out\<lparr>o_ring := Some s\<rparr>, example_os []) = (n, st', p, t, ow')
    \<and> ring_packets ow' = rtp_stream example_rtp pkts \<and> depay [] (map fst pkts) = [[0x02, 1, 0xAA]]"
proof -
  have "fst (venc_ring_create ''venc'' 4 1412 example_env) \<noteq> None"
    by (simp add: venc_ring_create_def example_env_def is_power_of_2_def calc_total_size_def
        calc_slot_stride_def sizeof_ring_hdr_def Let_def)
  then obtain s ops where s: "venc_ring_create ''venc'' 4 1412 example_env = (Some s, ops)"
    by (metis not_None_eq prod.collapse)
  have mp: "1400 = min 1400 RTP_BUFFER_MAX" by (simp add: RTP_BUFFER_MAX_def)
  note f = fresh_ring_credit [OF s, of 3 1412 example_out "example_os []"]
  have cr: "ring_credit (12 + 1400) (Suc (frame_cost 1400 (frame_nals None (frame_units [example_pack]))))
      (example_out\<lparr>o_ring := Some s\<rparr>, example_os [])"
    unfolding example_nals(3) using f by (simp add: RTP_BUFFER_MAX_def numeral_3_eq_3)
  have none: "ring_packets (example_out\<lparr>o_ring := Some s\<rparr>, example_os []) = []"
    using f by (simp add: RTP_BUFFER_MAX_def)
  from hevc_frame_through_ring [OF mp _ refl example_nals(2) cr, of example_rtp 3000 zero_rtp_stats] s
  show ?thesis unfolding example_nals(1) none by fastforce
qed

text \<open>Whatever the kernel refuses, the datagrams of a frame that do leave carry consecutive
  sequence numbers and the session's next number counts exactly them: a refused packet leaves
  no gap, so the receiver cannot see that it is missing.\<close>

lemma hevc_frame_numbering_under_loss:
  assumes "o_ring ou = None"
    and "star6e_hevc_rtp_send_frame star6e_output_send_rtp_parts stream st ticks params mp stats (ou, w)
      = (n, st', params', stats', ou', w')"
  shows "\<exists>ps. datagrams (os_log w') = datagrams (os_log w) @ rtp_stream st ps
    \<and> st' = st\<lparr>rp_seq := rp_seq st + word_of_nat (length ps), rp_timestamp := rp_timestamp st + ticks\<rparr>"
  using udp.send_frame_numbered [OF _ assms(2)] assms(1)
  by (fastforce simp: socket_mode_def sent_datagrams_def rtp_next_def)

lemma hevc_frame_numbering_under_loss_witness:
  "\<exists>n st' p s ou' w' ps. star6e_hevc_rtp_send_frame star6e_output_send_rtp_parts [example_pack] example_rtp 3000 None
        1400 zero_rtp_stats (example_out, example_os []) = (n, st', p, s, ou', w')
    \<and> datagrams (os_log w') = rtp_stream example_rtp ps
    \<and> st' = example_rtp\<lparr>rp_seq := 65535 + word_of_nat (length ps), rp_timestamp := 4000\<rparr>"
proof -
  obtain n st' p s ou' w' where r: "star6e_hevc_rtp_send_frame star6e_output_send_rtp_parts [example_pack]
      example_rtp 3000 None 1400 zero_rtp_stats (example_out, example_os []) = (n, st', p, s, ou', w')"
    by (metis prod.collapse)
  have "o_ring example_out = None" by (simp add: example_out_def star6e_output_reset_def)
  from hevc_frame_numbering_under_loss [OF this r] r show ?thesis
    by (auto simp: example_os_def example_rtp_def)
qed

text \<open>
  A frame whose final NAL unit is skipped (an entry of length 0) after a unit that went out
  fragmented: no packet of the frame carries the marker bit, because the fragment's marker was
  decided before and the final flush finds the builder empty.
\<close>

definition unmarked_pack :: venc_pack where
  "unmarked_pack = \<lparr>pk_data = Some [0x02, 1, 1, 2, 3, 4], pk_length = 6, pk_timestamp = 0, pk_nal_type = 1,
     pk_offset = 0, pk_num = 2,
     pk_info = \<lparr>pi_nal_type = 1, pi_offset = 0, pi_length = 6\<rparr> #
       replicate 7 \<lparr>pi_nal_type = 0, pi_offset = 0, pi_length = 0\<rparr>\<rparr>"

text \<open>A writer that records what it is given.\<close>

definition recording :: "bytes list writer" where
  "recording h a b w = (0, w @ [h @ a @ b])"

text \<open>A frame can leave without a marker: when its last table entry is empty and the unit before
  it went out alone, none of the frame's packets has the marker bit although the frame is complete.\<close>

lemma hevc_frame_without_marker:
  "map (\<lambda>p. bit (p ! 1) 7) (snd (snd (snd (snd (star6e_hevc_rtp_send_frame recording [unmarked_pack] example_rtp
     3000 None 5 zero_rtp_stats []))))) = [False, False]
   \<and> frame_nals None (frame_units [unmarked_pack]) = [[0x02, 1, 1, 2, 3, 4]]"
  by code_simp

subsection \<open>Bringing an output up\<close>

text \<open>An output prepared from a server text and initialised without error can carry every RTP packet
  up to the configured frame size: a shared-memory output has an empty ring with 512 slots of that
  size plus the RTP header and is never in compact mode; a socket output holds one open descriptor
  of the URI's family with a destination; and the generation counter is even.\<close>

lemma output_init_ready:
  assumes "star6e_output_prepare (Some uri) mode max_frame want = (0, setup)" and "uri \<noteq> ''''"
    and "star6e_output_init setup e w = (0, ou, w')" and "fds (os_log w) = []"
    and "unat max_frame \<le> RTP_BUFFER_MAX"
  shows "even (o_transport_gen ou) \<and>
    (if star6e_output_is_shm ou
     then star6e_output_is_rtp ou \<and> ring_credit (unat max_frame + 12) 512 (ou, w') \<and> ring_packets (ou, w') = []
     else o_ring ou = None \<and> 0 \<le> sk_handle (o_sock ou) \<and> 0 < sk_dst_len (o_sock ou) \<and> owned (o_sock ou) w')"
proof -
  obtain u where u: "venc_config_parse_output_uri uri = Some u" "os_uri setup = u" "os_has_server setup"
    "os_max_frame_size setup = max_frame" "uri_type u = URI_SHM \<longrightarrow> os_stream_mode setup = RTP"
    using assms(1,2) by (auto simp: star6e_output_prepare_def Let_def split: option.splits if_splits)
  show ?thesis
  proof (cases "uri_type u = URI_SHM")
    case True
    obtain s ops where s: "venc_ring_create (uri_endpoint u) 512 (ucast max_frame + 12) e = (Some s, ops)"
      and ou: "ou = star6e_output_reset\<lparr>o_stream_mode := os_stream_mode setup,
          o_requested_connected := os_requested_connected setup,
          o_sock := no_sock\<lparr>sk_transport := URI_SHM\<rparr>, o_transport_gen := 2, o_ring := Some s\<rparr>"
      using assms(3) u True
      by (auto simp: star6e_output_init_def Let_def star6e_output_reset_def no_sock_def
          split: option.splits prod.splits)
    have "unat (ucast max_frame + 12 :: u32) = unat max_frame + 12"
      using assms(5) by (simp add: unat_word_ariths unat_ucast_widen RTP_BUFFER_MAX_def)
    with fresh_ring_credit [OF s, of 512 "unat max_frame + 12"
        "star6e_output_reset\<lparr>o_stream_mode := os_stream_mode setup,
          o_requested_connected := os_requested_connected setup,
          o_sock := no_sock\<lparr>sk_transport := URI_SHM\<rparr>, o_transport_gen := 2\<rparr>" w'] assms(5)
    have "ring_credit (unat max_frame + 12) 512 (ou, w') \<and> ring_packets (ou, w') = []"
      by (simp add: ou)
    with u(5) True show ?thesis
      by (simp add: ou star6e_output_is_shm_def star6e_output_is_rtp_def)
  next
    case False
    let ?o = "star6e_output_reset\<lparr>o_stream_mode := os_stream_mode setup,
          o_requested_connected := os_requested_connected setup\<rparr>"
    obtain k where c: "output_socket_configure u (os_requested_connected setup) True no_sock w = (0, k, w')"
      and ou: "ou = ?o\<lparr>o_sock := k, o_transport_gen := 2\<rparr>"
      using assms(3) u False
      by (auto simp: star6e_output_init_def Let_def star6e_output_reset_def split: prod.splits if_splits)
    have "owned no_sock w" using assms(4) by (simp add: owned_def no_sock_def)
    from configure_owned [OF this c] False show ?thesis
      by (simp add: ou star6e_output_is_shm_def star6e_output_reset_def)
  qed
qed

lemma output_init_ready_witness:
  "\<exists>setup ou w'. star6e_output_prepare (Some ''shm://venc'') (Some ''rtp'') 1400 True = (0, setup)
    \<and> star6e_output_init setup example_env (example_os []) = (0, ou, w')
    \<and> star6e_output_is_shm ou \<and> ring_credit 1412 512 (ou, w')"
proof -
  let ?u = "\<lparr>uri_type = URI_SHM, uri_host = '''', uri_port = 0, uri_endpoint = ''venc''\<rparr>"
  obtain su where p: "star6e_output_prepare (Some ''shm://venc'') (Some ''rtp'') 1400 True = (0, su)"
    and s: "os_uri su = ?u" "os_has_server su" "os_max_frame_size su = 1400"
    by (simp add: star6e_output_prepare_def Let_def venc_config_parse_output_uri_def has_prefix_def
        safe_strcpy_def VENC_CONFIG_STRING_MAX_def star6e_output_stream_mode_from_name_def)
  have "fst (venc_ring_create ''venc'' 512 1412 example_env) \<noteq> None"
    by (simp add: venc_ring_create_def example_env_def is_power_of_2_def calc_total_size_def
        calc_slot_stride_def sizeof_ring_hdr_def Let_def)
  then obtain r ops where "venc_ring_create ''venc'' 512 1412 example_env = (Some r, ops)"
    by (metis not_None_eq prod.collapse)
  then obtain ou w' where i: "star6e_output_init su example_env (example_os []) = (0, ou, w')"
    and "star6e_output_is_shm ou"
    by (simp add: star6e_output_init_def s Let_def star6e_output_is_shm_def)
  moreover have "fds (os_log (example_os [])) = []" by (simp add: fds_def example_os_def)
  ultimately show ?thesis
    using output_init_ready [OF p _ i] p by (fastforce simp: RTP_BUFFER_MAX_def)
qed

subsection \<open>Compact mode\<close>

text \<open>The fragments a packet larger than the limit becomes, and the loop that sends them.\<close>

function compact_fragments :: "bytes \<Rightarrow> nat \<Rightarrow> u16 \<Rightarrow> bytes \<Rightarrow> bytes list" where
  "compact_fragments packet mf seq payload =
     (if payload = [] \<or> mf = 0 then []
      else (compact_header packet (length payload \<le> mf) seq @ take mf payload)
           # compact_fragments packet mf (seq + 1) (drop mf payload))"
  by pat_completeness auto
termination
  by (relation "measure (\<lambda>(p, mf, s, payload). length payload)") auto

declare compact_fragments.simps [simp del]

lemma compact_loop_step:
  assumes "payload \<noteq> []" and "0 < mf"
  shows "compact_loop packet mf seq payload (ou, w) =
    (case os_sendmsg (sk_handle (o_sock ou)) (sk_dst (o_sock ou))
       (compact_header packet (length payload \<le> mf) seq @ take mf payload) w of (ok, w') \<Rightarrow>
     if \<not> ok then (-1, ou\<lparr>o_send_errors := o_send_errors ou + 1\<rparr>, w')
     else compact_loop packet mf (seq + 1) (drop mf payload) (ou, w'))"
  using assms by (subst compact_loop.simps) (auto simp: Let_def split: prod.splits)

lemma compact_loop_sends:
  assumes "take (length (compact_fragments packet mf seq payload)) (os_sends w)
      = replicate (length (compact_fragments packet mf seq payload)) True"
  shows "\<exists>w'. compact_loop packet mf seq payload (ou, w) = (0, ou, w')
    \<and> datagrams (os_log w') = datagrams (os_log w) @ compact_fragments packet mf seq payload"
  using assms
proof (induction payload arbitrary: seq w rule: fragment_induct [where mf = mf])
  case (stop xs)
  then show ?case by (subst compact_loop.simps, subst compact_fragments.simps) auto
next
  case (step xs)
  let ?p = "compact_header packet (length xs \<le> mf) seq @ take mf xs"
  have f: "compact_fragments packet mf seq xs = ?p # compact_fragments packet mf (seq + 1) (drop mf xs)"
    using step.hyps by (subst compact_fragments.simps) simp
  then obtain ss where ss: "os_sends w = True # ss"
    "take (length (compact_fragments packet mf (seq + 1) (drop mf xs))) ss
      = replicate (length (compact_fragments packet mf (seq + 1) (drop mf xs))) True"
    using step.prems by (cases "os_sends w") auto
  define w1 where "w1 = os_note (Datagram (sk_handle (o_sock ou)) (sk_dst (o_sock ou)) ?p) (w\<lparr>os_sends := ss\<rparr>)"
  have "os_sends w1 = ss" by (simp add: w1_def os_note_def)
  from step.IH [of "seq + 1" w1] ss(2) this obtain w' where
    "compact_loop packet mf (seq + 1) (drop mf xs) (ou, w1) = (0, ou, w')"
    "datagrams (os_log w') = datagrams (os_log w1) @ compact_fragments packet mf (seq + 1) (drop mf xs)" by auto
  moreover have "os_sendmsg (sk_handle (o_sock ou)) (sk_dst (o_sock ou)) ?p w = (True, w1)"
    by (simp add: os_sendmsg_def ss w1_def)
  moreover have "datagrams (os_log w1) = datagrams (os_log w) @ [?p]" by (simp add: w1_def os_note_def)
  ultimately show ?case using step.hyps f by (simp add: compact_loop_step)
qed

lemma compact_fragments_content:
  assumes "0 < mf" and "12 \<le> length packet"
  shows "concat (map (drop 12) (compact_fragments packet mf seq payload)) = payload
    \<and> (\<forall>p \<in> set (compact_fragments packet mf seq payload). length p \<le> 12 + mf \<and> take 8 (drop 4 p) = take 8 (drop 4 packet))
    \<and> length (compact_fragments packet mf seq payload) \<le> length payload"
proof (induction payload arbitrary: seq rule: fragment_induct [where mf = mf])
  case (stop xs)
  with assms show ?case by (subst (1 2 3) compact_fragments.simps) simp
next
  case (step xs)
  have h: "length (compact_header packet b s @ ys) = 12 + length ys" "drop 12 (compact_header packet b s @ ys) = ys"
    "take 8 (drop 4 (compact_header packet b s @ ys)) = take 8 (drop 4 packet)" for b s ys
    using assms(2) by (simp_all add: compact_header_def)
  have f: "compact_fragments packet mf seq xs = (compact_header packet (length xs \<le> mf) seq @ take mf xs)
      # compact_fragments packet mf (seq + 1) (drop mf xs)"
    using step.hyps by (subst compact_fragments.simps) simp
  have "length (drop mf xs) < length xs" using step.hyps by simp
  with step.IH [of "seq + 1"] show ?case unfolding f by (auto simp: h simp del: length_append drop_append take_append)
qed

text \<open>A compact packet above the size limit goes out as fragments that each fit the limit, repeat its
  timestamp and SSRC, and whose payloads concatenate to the original payload.\<close>

lemma compact_packet_fragments:
  assumes "0 \<le> sk_handle (o_sock ou)" and "sk_transport (o_sock ou) \<noteq> URI_SHM"
    and "12 < max_size" and "max_size < length packet"
    and "os_sends w = replicate (length packet) True"
  shows "\<exists>w' fs. star6e_output_send_compact_packet packet max_size (ou, w) = (0, ou, w')
    \<and> datagrams (os_log w') = datagrams (os_log w) @ fs \<and> concat (map (drop 12) fs) = drop 12 packet
    \<and> (\<forall>p \<in> set fs. length p \<le> max_size \<and> take 8 (drop 4 p) = take 8 (drop 4 packet))"
proof -
  define fs where "fs = compact_fragments packet (max_size - 12) (be16 (packet ! 2) (packet ! 3)) (drop 12 packet)"
  have c: "concat (map (drop 12) fs) = drop 12 packet"
    "\<forall>p \<in> set fs. length p \<le> max_size \<and> take 8 (drop 4 p) = take 8 (drop 4 packet)"
    and len: "length fs \<le> length packet - 12"
    using compact_fragments_content [of "max_size - 12" packet "be16 (packet ! 2) (packet ! 3)" "drop 12 packet"]
      assms(3,4) by (auto simp: fs_def)
  then have "take (length fs) (os_sends w) = replicate (length fs) True" using assms(5) by simp
  from compact_loop_sends [OF this [unfolded fs_def], of ou] obtain w' where
    "compact_loop packet (max_size - 12) (be16 (packet ! 2) (packet ! 3)) (drop 12 packet) (ou, w) = (0, ou, w')"
    "datagrams (os_log w') = datagrams (os_log w) @ fs" by (auto simp: fs_def)
  moreover have "packet \<noteq> []" using assms(4) by auto
  ultimately show ?thesis
    using c assms(1-4) by (auto simp: star6e_output_send_compact_packet_def Let_def)
qed

lemma compact_packet_fragments_witness:
  "\<exists>w' fs. star6e_output_send_compact_packet (replicate 30 1) 20 (example_out, example_os (replicate 30 True))
      = (0, example_out, w') \<and> concat (map (drop 12) fs) = replicate 18 1 \<and> datagrams (os_log w') = fs"
proof -
  have h: "0 \<le> sk_handle (o_sock example_out)" "sk_transport (o_sock example_out) \<noteq> URI_SHM"
    by (simp_all add: example_out_def no_sock_def star6e_output_reset_def)
  have o: "os_sends (example_os (replicate 30 True)) = replicate (length (replicate 30 (1 :: u8))) True"
    and l: "datagrams (os_log (example_os a)) = []" for a
    by (simp_all add: example_os_def)
  from compact_packet_fragments [OF h _ _ o, of 20] show ?thesis unfolding l
    by (auto simp: drop_replicate)
qed

subsection \<open>The generation counter and the audio cache\<close>

fun apply_servers :: "string list \<Rightarrow> out_world \<Rightarrow> out_world" where
  "apply_servers [] ow = ow"
| "apply_servers (u # us) ow = apply_servers us (snd (star6e_output_apply_server u ow))"

text \<open>One change either leaves the output alone or advances the generation by two.\<close>

lemma apply_server_gen:
  "fst (snd (star6e_output_apply_server u (vo, w))) = vo
    \<or> o_transport_gen (fst (snd (star6e_output_apply_server u (vo, w)))) = o_transport_gen vo + 2"
  by (auto simp: star6e_output_apply_server_def Let_def split: option.splits prod.splits)

lemma apply_servers_gen:
  "\<exists>j \<le> length us. o_transport_gen (fst (apply_servers us (vo, w))) = o_transport_gen vo + 2 * word_of_nat j
    \<and> (j = 0 \<longrightarrow> fst (apply_servers us (vo, w)) = vo)"
proof (induction us arbitrary: vo w)
  case Nil
  then show ?case by simp
next
  case (Cons u us)
  obtain rc v1 w1 where a: "star6e_output_apply_server u (vo, w) = (rc, v1, w1)" by (metis prod_cases3)
  from Cons.IH [of v1 w1] obtain j where j: "j \<le> length us"
    "o_transport_gen (fst (apply_servers us (v1, w1))) = o_transport_gen v1 + 2 * word_of_nat j"
    "j = 0 \<longrightarrow> fst (apply_servers us (v1, w1)) = v1" by blast
  from apply_server_gen [of u vo w] a consider "v1 = vo" | "o_transport_gen v1 = o_transport_gen vo + 2" by auto
  then show ?case
  proof cases
    case 1
    with j a show ?thesis by (intro exI [of _ j]) auto
  next
    case 2
    with j a show ?thesis by (intro exI [of _ "Suc j"]) (auto simp: algebra_simps)
  qed
qed

lemma two_times_nonzero:
  assumes "0 < j" and "j < 2 ^ 31"
  shows "2 * word_of_nat j \<noteq> (0 :: u32)"
proof -
  have "2 * word_of_nat j = (word_of_nat (2 * j) :: u32)" by simp
  moreover have "unat (word_of_nat (2 * j) :: u32) = 2 * j"
    using assms(2) by (simp only: unsigned_of_nat) (simp add: take_bit_nat_eq_self)
  ultimately show ?thesis using assms(1) by (metis mult_eq_0_iff neq0_conv unat_0 zero_neq_numeral)
qed

lemma even_add_two: "even (g + 2 * x) = even g" for g x :: u32
  by simp

text \<open>Once its cache was filled at the output's current generation, the audio sender goes to the live
  destination after any sequence of fewer than 2^31 server changes, successful or not: the
  generation is even again and the cached lookup agrees with resolving the target afresh.\<close>

lemma audio_cache_coherent:
  assumes "even (o_transport_gen vo)" and "length us < 2 ^ 31"
    and "ao_cache_valid ao \<Longrightarrow> ao_cached_gen ao = o_transport_gen vo \<and> resolve_audio_target ao vo = Some (ao_cached_target ao)"
    and "vo' = fst (apply_servers us (vo, w))"
  shows "even (o_transport_gen vo')
    \<and> fst (resolve_cached_audio_target ao vo' vo' vo') = resolve_audio_target ao vo'"
proof -
  obtain j where j: "j \<le> length us" "o_transport_gen vo' = o_transport_gen vo + 2 * word_of_nat j" "j = 0 \<longrightarrow> vo' = vo"
    using apply_servers_gen [of us vo w] assms(4) by blast
  have "vo' = vo" if "o_transport_gen vo' = o_transport_gen vo"
  proof (rule ccontr)
    assume "vo' \<noteq> vo"
    with j(3) have "0 < j" by auto
    with two_times_nonzero [of j] j(1,2) assms(2) that show False by simp
  qed
  then have "ao_cache_valid ao \<and> ao_cached_gen ao = o_transport_gen vo' \<Longrightarrow>
      resolve_audio_target ao vo' = Some (ao_cached_target ao)"
    using assms(3) by auto
  then show ?thesis
    using assms(1) j(2) by (auto simp: resolve_cached_audio_target_def Let_def even_add_two split: option.splits)
qed

definition example_audio :: audio_output where
  "example_audio = star6e_audio_output_reset\<lparr>ao_max_payload_size := 1400\<rparr>"

lemma audio_cache_coherent_witness:
  "\<exists>vo'. vo' = fst (apply_servers [''udp://10.0.0.2:5600'', ''bad''] (example_out, example_os []))
    \<and> fst (resolve_cached_audio_target example_audio vo' vo' vo') = resolve_audio_target example_audio vo'"
proof -
  have "even (o_transport_gen example_out)" "\<not> ao_cache_valid example_audio"
    by (simp_all add: example_out_def star6e_output_reset_def example_audio_def star6e_audio_output_reset_def)
  then have "fst (resolve_cached_audio_target example_audio vo' vo' vo') = resolve_audio_target example_audio vo'"
    if "vo' = fst (apply_servers [''udp://10.0.0.2:5600'', ''bad''] (example_out, example_os []))" for vo'
    using audio_cache_coherent [OF _ _ _ that, of example_audio] by simp
  then show ?thesis by blast
qed

text \<open>The cache does not check that the generation is the one it read before resolving, although its
  comment says so: when a server change completes between the resolution (from the old output
  \<open>vo\<close>) and the second load, the old destination is cached under the new generation, and every
  later lookup, with the output stable, keeps sending to the old destination.\<close>

lemma audio_cache_race:
  assumes "even (o_transport_gen vo)" and "\<not> ao_cache_valid ao"
    and "star6e_output_apply_server u (vo, w) = (0, vo', w')"
    and "resolve_audio_target ao vo = Some told" and "resolve_audio_target ao vo' = Some tnew" and "told \<noteq> tnew"
    and "resolve_cached_audio_target ao vo vo vo' = (r, ao')"
  shows "fst (resolve_cached_audio_target ao' vo' vo' vo') = Some told
    \<and> resolve_audio_target ao' vo' = Some tnew"
proof -
  have g: "o_transport_gen vo' = o_transport_gen vo + 2 * 1"
    using assms(3) by (auto simp: star6e_output_apply_server_def Let_def split: option.splits prod.splits if_splits)
  have e: "even (o_transport_gen vo')" unfolding g even_add_two by (rule assms(1))
  have a: "ao' = ao\<lparr>ao_cached_target := told, ao_cached_gen := o_transport_gen vo', ao_cache_valid := True\<rparr>"
    using assms(2,4,7) e by (auto simp: resolve_cached_audio_target_def Let_def)
  have "resolve_audio_target ao' vo' = resolve_audio_target ao vo'"
    by (simp add: a resolve_audio_target_def resolve_dedicated_audio_target_def)
  with e a assms(5) show ?thesis by (simp add: resolve_cached_audio_target_def Let_def)
qed

lemma audio_cache_race_witness:
  "\<exists>vo' w' r ao'. star6e_output_apply_server ''udp://10.0.0.2:5600'' (example_out, example_os []) = (0, vo', w')
    \<and> resolve_cached_audio_target example_audio example_out example_out vo' = (r, ao')
    \<and> fst (resolve_cached_audio_target ao' vo' vo' vo')
      = Some \<lparr>at_handle = 7, at_dst = SinAddr [10, 0, 0, 1] 5600, at_dst_len = 16\<rparr>
    \<and> resolve_audio_target ao' vo'
      = Some \<lparr>at_handle = 7, at_dst = SinAddr [10, 0, 0, 2] 5600, at_dst_len = 16\<rparr>"
proof -
  obtain rc vo' w' where r: "star6e_output_apply_server ''udp://10.0.0.2:5600'' (example_out, example_os []) = (rc, vo', w')"
    by (metis prod_cases3)
  have "case star6e_output_apply_server ''udp://10.0.0.2:5600'' (example_out, example_os []) of (rc, vo', w') \<Rightarrow>
      rc = 0 \<and> resolve_audio_target example_audio vo' =
        Some \<lparr>at_handle = 7, at_dst = SinAddr [10, 0, 0, 2] 5600, at_dst_len = 16\<rparr>" by code_simp
  then have x: "rc = 0 \<and> resolve_audio_target example_audio vo' =
      Some \<lparr>at_handle = 7, at_dst = SinAddr [10, 0, 0, 2] 5600, at_dst_len = 16\<rparr>" by (simp add: r)
  have y: "resolve_audio_target example_audio example_out =
      Some \<lparr>at_handle = 7, at_dst = SinAddr [10, 0, 0, 1] 5600, at_dst_len = 16\<rparr>" by code_simp
  have z: "even (o_transport_gen example_out)" "\<not> ao_cache_valid example_audio"
    by (simp_all add: example_out_def star6e_output_reset_def example_audio_def star6e_audio_output_reset_def)
  obtain r ao' where c: "resolve_cached_audio_target example_audio example_out example_out vo' = (r, ao')"
    by (metis surj_pair)
  from audio_cache_race [OF z _ y conjunct2 [OF x] _ c] r x c show ?thesis by auto
qed

end
