(* ===== verification/TsMux.thy ===== *)
theory TsMux imports Prelude begin

text \<open>
  The MPEG-TS muxer (\<open>src/ts_mux.c\<close>, \<open>include/ts_mux.h\<close>): CRC, PAT and PMT, PES packets with
  PCR, random-access and discontinuity flags, stuffing, continuity counters; and the receiver's
  side of it: packet parsing, reassembly of a PES packet, and the bitwise CRC of the standard.

  The writer's buffer is the list of the 188-byte packets written to it; a packet starts as 188
  bytes 0xFF and what is not overwritten stays.
\<close>

subsection \<open>CRC\<close>

definition ts_crc32_table :: "u32 list" where
  "ts_crc32_table = [
   0x00000000, 0x04C11DB7, 0x09823B6E, 0x0D4326D9, 0x130476DC, 0x17C56B6B, 0x1A864DB2, 0x1E475005,
   0x2608EDB8, 0x22C9F00F, 0x2F8AD6D6, 0x2B4BCB61, 0x350C9B64, 0x31CD86D3, 0x3C8EA00A, 0x384FBDBD,
   0x4C11DB70, 0x48D0C6C7, 0x4593E01E, 0x4152FDA9, 0x5F15ADAC, 0x5BD4B01B, 0x569796C2, 0x52568B75,
   0x6A1936C8, 0x6ED82B7F, 0x639B0DA6, 0x675A1011, 0x791D4014, 0x7DDC5DA3, 0x709F7B7A, 0x745E66CD,
   0x9823B6E0, 0x9CE2AB57, 0x91A18D8E, 0x95609039, 0x8B27C03C, 0x8FE6DD8B, 0x82A5FB52, 0x8664E6E5,
   0xBE2B5B58, 0xBAEA46EF, 0xB7A96036, 0xB3687D81, 0xAD2F2D84, 0xA9EE3033, 0xA4AD16EA, 0xA06C0B5D,
   0xD4326D90, 0xD0F37027, 0xDDB056FE, 0xD9714B49, 0xC7361B4C, 0xC3F706FB, 0xCEB42022, 0xCA753D95,
   0xF23A8028, 0xF6FB9D9F, 0xFBB8BB46, 0xFF79A6F1, 0xE13EF6F4, 0xE5FFEB43, 0xE8BCCD9A, 0xEC7DD02D,
   0x34867077, 0x30476DC0, 0x3D044B19, 0x39C556AE, 0x278206AB, 0x23431B1C, 0x2E003DC5, 0x2AC12072,
   0x128E9DCF, 0x164F8078, 0x1B0CA6A1, 0x1FCDBB16, 0x018AEB13, 0x054BF6A4, 0x0808D07D, 0x0CC9CDCA,
   0x7897AB07, 0x7C56B6B0, 0x71159069, 0x75D48DDE, 0x6B93DDDB, 0x6F52C06C, 0x6211E6B5, 0x66D0FB02,
   0x5E9F46BF, 0x5A5E5B08, 0x571D7DD1, 0x53DC6066, 0x4D9B3063, 0x495A2DD4, 0x44190B0D, 0x40D816BA,
   0xACA5C697, 0xA864DB20, 0xA527FDF9, 0xA1E6E04E, 0xBFA1B04B, 0xBB60ADFC, 0xB6238B25, 0xB2E29692,
   0x8AAD2B2F, 0x8E6C3698, 0x832F1041, 0x87EE0DF6, 0x99A95DF3, 0x9D684044, 0x902B669D, 0x94EA7B2A,
   0xE0B41DE7, 0xE4750050, 0xE9362689, 0xEDF73B3E, 0xF3B06B3B, 0xF771768C, 0xFA325055, 0xFEF34DE2,
   0xC6BCF05F, 0xC27DEDE8, 0xCF3ECB31, 0xCBFFD686, 0xD5B88683, 0xD1799B34, 0xDC3ABDED, 0xD8FBA05A,
   0x690CE0EE, 0x6DCDFD59, 0x608EDB80, 0x644FC637, 0x7A089632, 0x7EC98B85, 0x738AAD5C, 0x774BB0EB,
   0x4F040D56, 0x4BC510E1, 0x46863638, 0x42472B8F, 0x5C007B8A, 0x58C1663D, 0x558240E4, 0x51435D53,
   0x251D3B9E, 0x21DC2629, 0x2C9F00F0, 0x285E1D47, 0x36194D42, 0x32D850F5, 0x3F9B762C, 0x3B5A6B9B,
   0x0315D626, 0x07D4CB91, 0x0A97ED48, 0x0E56F0FF, 0x1011A0FA, 0x14D0BD4D, 0x19939B94, 0x1D528623,
   0xF12F560E, 0xF5EE4BB9, 0xF8AD6D60, 0xFC6C70D7, 0xE22B20D2, 0xE6EA3D65, 0xEBA91BBC, 0xEF68060B,
   0xD727BBB6, 0xD3E6A601, 0xDEA580D8, 0xDA649D6F, 0xC423CD6A, 0xC0E2D0DD, 0xCDA1F604, 0xC960EBB3,
   0xBD3E8D7E, 0xB9FF90C9, 0xB4BCB610, 0xB07DABA7, 0xAE3AFBA2, 0xAAFBE615, 0xA7B8C0CC, 0xA379DD7B,
   0x9B3660C6, 0x9FF77D71, 0x92B45BA8, 0x9675461F, 0x8832161A, 0x8CF30BAD, 0x81B02D74, 0x857130C3,
   0x5D8A9099, 0x594B8D2E, 0x5408ABF7, 0x50C9B640, 0x4E8EE645, 0x4A4FFBF2, 0x470CDD2B, 0x43CDC09C,
   0x7B827D21, 0x7F436096, 0x7200464F, 0x76C15BF8, 0x68860BFD, 0x6C47164A, 0x61043093, 0x65C52D24,
   0x119B4BE9, 0x155A565E, 0x18197087, 0x1CD86D30, 0x029F3D35, 0x065E2082, 0x0B1D065B, 0x0FDC1BEC,
   0x3793A651, 0x3352BBE6, 0x3E119D3F, 0x3AD08088, 0x2497D08D, 0x2056CD3A, 0x2D15EBE3, 0x29D4F654,
   0xC5A92679, 0xC1683BCE, 0xCC2B1D17, 0xC8EA00A0, 0xD6AD50A5, 0xD26C4D12, 0xDF2F6BCB, 0xDBEE767C,
   0xE3A1CBC1, 0xE760D676, 0xEA23F0AF, 0xEEE2ED18, 0xF0A5BD1D, 0xF464A0AA, 0xF9278673, 0xFDE69BC4,
   0x89B8FD09, 0x8D79E0BE, 0x803AC667, 0x84FBDBD0, 0x9ABC8BD5, 0x9E7D9662, 0x933EB0BB, 0x97FFAD0C,
   0xAFB010B1, 0xAB710D06, 0xA6322BDF, 0xA2F33668, 0xBCB4666D, 0xB8757BDA, 0xB5365D03, 0xB1F740B4]"

definition ts_crc32_step :: "u32 \<Rightarrow> u8 \<Rightarrow> u32" where
  "ts_crc32_step crc d = push_bit 8 crc XOR (ts_crc32_table ! unat (drop_bit 24 crc XOR ucast d))"

definition ts_crc32 :: "bytes \<Rightarrow> u32" where
  "ts_crc32 data = foldl ts_crc32_step 0xFFFFFFFF data"

subsection \<open>State and small writers\<close>

definition TS_PACKET_SIZE :: nat where "TS_PACKET_SIZE = 188"
definition TS_PID_PAT :: u16 where "TS_PID_PAT = 0"
definition TS_PID_PMT :: u16 where "TS_PID_PMT = 0x1000"
definition TS_PID_VIDEO :: u16 where "TS_PID_VIDEO = 0x0100"
definition TS_PID_AUDIO :: u16 where "TS_PID_AUDIO = 0x0101"
definition TS_PAT_PMT_INTERVAL :: u32 where "TS_PAT_PMT_INTERVAL = 15"

record ts_state =
  cc_pat :: u8
  cc_pmt :: u8
  cc_video :: u8
  cc_audio :: u8
  ts_video_frames :: u32
  ts_audio_rate :: u32
  ts_audio_channels :: u8
  ts_discontinuity :: u8
  ts_pcr_offset :: u32

definition put_be16 :: "u16 \<Rightarrow> bytes" where
  "put_be16 v = [ucast (drop_bit 8 v), ucast v]"

definition put_be32 :: "u32 \<Rightarrow> bytes" where
  "put_be32 v = [ucast (drop_bit 24 v), ucast (drop_bit 16 v), ucast (drop_bit 8 v), ucast v]"

definition write_pts :: "u8 \<Rightarrow> u64 \<Rightarrow> bytes" where
  "write_pts prefix_bits pts =
     [push_bit 4 prefix_bits OR push_bit 1 (ucast (drop_bit 30 pts AND 0x07)) OR 1,
      ucast (drop_bit 22 pts AND 0xFF),
      push_bit 1 (ucast (drop_bit 15 pts AND 0x7F)) OR 1,
      ucast (drop_bit 7 pts AND 0xFF),
      push_bit 1 (ucast (pts AND 0x7F)) OR 1]"

definition write_pcr :: "u64 \<Rightarrow> bytes" where
  "write_pcr pcr_base =
     [ucast (drop_bit 25 pcr_base), ucast (drop_bit 17 pcr_base), ucast (drop_bit 9 pcr_base),
      ucast (drop_bit 1 pcr_base), push_bit 7 (ucast (pcr_base AND 1)) OR 0x7E, 0]"

text \<open>The four header bytes, and the advanced counter.\<close>

definition start_ts_packet :: "u16 \<Rightarrow> u8 \<Rightarrow> bool \<Rightarrow> bool \<Rightarrow> bytes \<times> u8" where
  "start_ts_packet pid cc pusi adapt =
     ([0x47, (if pusi then 0x40 else 0) OR ucast (drop_bit 8 pid AND 0x1F), ucast (pid AND 0xFF),
       (if adapt then 0x30 else 0x10) OR (cc AND 0x0F)],
      (cc + 1) AND 0x0F)"

text \<open>A packet of 188 bytes that begins with what was written.\<close>

definition fill_packet :: "bytes \<Rightarrow> bytes" where
  "fill_packet xs = xs @ replicate (TS_PACKET_SIZE - length xs) 0xFF"

definition ts_mux_init :: "u32 \<Rightarrow> u8 \<Rightarrow> ts_state" where
  "ts_mux_init rate channels =
     \<lparr>cc_pat = 0, cc_pmt = 0, cc_video = 0, cc_audio = 0, ts_video_frames = TS_PAT_PMT_INTERVAL,
      ts_audio_rate = rate, ts_audio_channels = channels, ts_discontinuity = 0, ts_pcr_offset = 3000\<rparr>"

definition ts_mux_reset_cc :: "ts_state \<Rightarrow> ts_state" where
  "ts_mux_reset_cc s = s\<lparr>cc_pat := 0, cc_pmt := 0, cc_video := 0, cc_audio := 0\<rparr>"

definition ts_mux_timespec_to_pts :: "u32 \<Rightarrow> u32 \<Rightarrow> u64" where
  "ts_mux_timespec_to_pts sec nsec = ucast sec * 90000 + ucast nsec div 11111"

subsection \<open>PAT and PMT\<close>

definition pat_section :: bytes where
  "pat_section = [0x00] @ put_be16 0xB00D @ put_be16 0x0001 @ [0xC1, 0x00, 0x00] @ put_be16 0x0001
     @ put_be16 (0xE000 OR TS_PID_PMT)"

definition registration :: "u8 \<Rightarrow> u16 \<Rightarrow> bytes \<Rightarrow> bytes" where
  "registration stream_type pid fmt =
     [stream_type] @ put_be16 (0xE000 OR pid) @ put_be16 (0xF000 OR 6) @ [0x05, 4] @ fmt"

text \<open>The section behind its length field, and the whole section with the length filled in.\<close>

definition pmt_body :: "ts_state \<Rightarrow> bytes" where
  "pmt_body s = put_be16 0x0001 @ [0xC1, 0x00, 0x00] @ put_be16 (0xE000 OR TS_PID_VIDEO) @ put_be16 0xF000
     @ registration 0x24 TS_PID_VIDEO [0x48, 0x45, 0x56, 0x43]
     @ (if ts_audio_rate s > 0 \<and> ts_audio_channels s > 0
        then registration 0x06 TS_PID_AUDIO [0x4C, 0x50, 0x43, 0x4D] else [])"

definition pmt_section :: "ts_state \<Rightarrow> bytes" where
  "pmt_section s = [0x02] @ put_be16 (0xB000 OR (word_of_nat (length (pmt_body s) + 4) AND 0x0FFF)) @ pmt_body s"

definition section_packet :: "bytes \<Rightarrow> bytes \<Rightarrow> bytes" where
  "section_packet header section =
     fill_packet (header @ [0x00] @ section @ put_be32 (ts_crc32 section))"

definition ts_mux_write_pat_pmt :: "ts_state \<Rightarrow> nat \<Rightarrow> bytes list \<times> ts_state" where
  "ts_mux_write_pat_pmt s buf_size =
     (if buf_size < 2 * TS_PACKET_SIZE then ([], s)
      else case start_ts_packet TS_PID_PAT (cc_pat s) True False of (h1, c1) \<Rightarrow>
           case start_ts_packet TS_PID_PMT (cc_pmt s) True False of (h2, c2) \<Rightarrow>
        ([section_packet h1 pat_section, section_packet h2 (pmt_section s)],
         s\<lparr>cc_pat := c1, cc_pmt := c2\<rparr>))"

subsection \<open>PES packets\<close>

definition pes_header :: "u8 \<Rightarrow> nat \<Rightarrow> u64 \<Rightarrow> bytes" where
  "pes_header stream_id data_len pts =
     (let pes_payload = (if data_len + 8 > 0xFFFF then 0 else data_len + 8)
      in [0x00, 0x00, 0x01, stream_id] @ put_be16 (word_of_nat pes_payload) @ [0x80, 0x80, 5] @ write_pts 2 pts)"

text \<open>The first packet: the packet, the data left, the counter, whether the discontinuity flag is cleared.\<close>

definition first_packet ::
  "ts_state \<Rightarrow> u16 \<Rightarrow> u8 \<Rightarrow> bytes \<Rightarrow> bytes \<Rightarrow> u64 \<Rightarrow> bool \<Rightarrow> bool \<Rightarrow> bytes \<times> bytes \<times> u8 \<times> ts_state" where
  "first_packet s pid cc header data pts use_pcr rai =
     (if use_pcr \<or> rai \<or> ts_discontinuity s \<noteq> 0 then
        case start_ts_packet pid cc True True of (h, cc') \<Rightarrow>
        let adapt_flags = (if rai then 0x40 else 0) OR (if use_pcr then 0x10 else 0)
              OR (if ts_discontinuity s \<noteq> 0 then 0x80 else 0);
            adapt_len = (if use_pcr then 7 else 1 :: u8);
            pcr = (if pts > ucast (ts_pcr_offset s) then pts - ucast (ts_pcr_offset s) else pts);
            start = h @ [adapt_len, adapt_flags] @ (if use_pcr then write_pcr pcr else []);
            hdr = take (TS_PACKET_SIZE - length start) header;
            space = TS_PACKET_SIZE - length start - length hdr
        in (fill_packet (start @ hdr @ take space data), drop space data, cc', s\<lparr>ts_discontinuity := 0\<rparr>)
      else
        case start_ts_packet pid cc True False of (h, cc') \<Rightarrow>
        let hdr = take (TS_PACKET_SIZE - 4) header;
            space = TS_PACKET_SIZE - 4 - length hdr
        in (fill_packet (h @ hdr @ take space data), drop space data, cc', s))"

definition next_packet :: "u16 \<Rightarrow> u8 \<Rightarrow> bytes \<Rightarrow> bytes \<times> bytes \<times> u8" where
  "next_packet pid cc data =
     (let remaining = length data; space = TS_PACKET_SIZE - 4 in
      if remaining < space then
        let stuff = space - remaining in
        case start_ts_packet pid cc False True of (h, cc') \<Rightarrow>
          (h @ (if stuff = 1 then [0] else [word_of_nat (stuff - 1), 0x00] @ replicate (stuff - 2) 0xFF) @ data,
           [], cc')
      else
        case start_ts_packet pid cc False False of (h, cc') \<Rightarrow> (h @ take space data, drop space data, cc'))"

lemma next_packet_shorter:
  "data \<noteq> [] \<Longrightarrow> next_packet pid cc data = (p, rest, cc') \<Longrightarrow> length rest < length data"
  by (auto simp: next_packet_def Let_def TS_PACKET_SIZE_def split: if_splits prod.splits)

function next_packets :: "u16 \<Rightarrow> nat \<Rightarrow> u8 \<Rightarrow> bytes \<Rightarrow> bytes list \<times> u8" where
  "next_packets pid room cc data =
     (if data = [] \<or> room < TS_PACKET_SIZE then ([], cc)
      else case next_packet pid cc data of (p, rest, cc') \<Rightarrow>
        case next_packets pid (room - TS_PACKET_SIZE) cc' rest of (ps, cc'') \<Rightarrow> (p # ps, cc''))"
  by pat_completeness auto
termination
  by (relation "measure (\<lambda>(pid, room, cc, data). length data)") (auto dest: next_packet_shorter [OF _ sym])

declare next_packets.simps [simp del]

definition write_pes_packets ::
  "ts_state \<Rightarrow> nat \<Rightarrow> u16 \<Rightarrow> u8 \<Rightarrow> u8 \<Rightarrow> bytes \<Rightarrow> u64 \<Rightarrow> bool \<Rightarrow> bool \<Rightarrow> bytes list \<times> u8 \<times> ts_state" where
  "write_pes_packets s buf_size pid cc stream_id data pts use_pcr rai =
     (if buf_size < TS_PACKET_SIZE then ([], cc, s)
      else case first_packet s pid cc (pes_header stream_id (length data) pts) data pts use_pcr rai of
        (p, rest, cc', s') \<Rightarrow>
        case next_packets pid (buf_size - TS_PACKET_SIZE) cc' rest of (ps, cc'') \<Rightarrow> (p # ps, cc'', s'))"

definition ts_mux_write_video :: "ts_state \<Rightarrow> nat \<Rightarrow> bytes \<Rightarrow> u64 \<Rightarrow> bool \<Rightarrow> bytes list \<times> ts_state" where
  "ts_mux_write_video s buf_size data pts is_idr =
     (if data = [] then ([], s)
      else case (if ts_video_frames s \<ge> TS_PAT_PMT_INTERVAL
                 then case ts_mux_write_pat_pmt s buf_size of (ps, s1) \<Rightarrow> (ps, s1\<lparr>ts_video_frames := 0\<rparr>)
                 else ([], s)) of (ps, s1) \<Rightarrow>
        let s2 = s1\<lparr>ts_video_frames := ts_video_frames s1 + 1\<rparr> in
        case write_pes_packets s2 (buf_size - TS_PACKET_SIZE * length ps) TS_PID_VIDEO (cc_video s2) 0xE0
               data pts True is_idr of
          (qs, cc, s3) \<Rightarrow> (ps @ qs, s3\<lparr>cc_video := cc\<rparr>))"

definition ts_mux_write_audio :: "ts_state \<Rightarrow> nat \<Rightarrow> bytes \<Rightarrow> u64 \<Rightarrow> bytes list \<times> ts_state" where
  "ts_mux_write_audio s buf_size data pts =
     (if data = [] then ([], s)
      else case write_pes_packets s buf_size TS_PID_AUDIO (cc_audio s) 0xBD data pts False False of
        (qs, cc, s1) \<Rightarrow> (qs, s1\<lparr>cc_audio := cc\<rparr>))"

subsection \<open>The table is the standard's polynomial\<close>

definition crc_shift :: "u32 \<Rightarrow> u32" where
  "crc_shift c = (if bit c 31 then push_bit 1 c XOR 0x04C11DB7 else push_bit 1 c)"

definition crc_byte :: "u32 \<Rightarrow> u8 \<Rightarrow> u32" where
  "crc_byte c d = (crc_shift ^^ 8) (c XOR push_bit 24 (ucast d))"

definition crc_reference :: "bytes \<Rightarrow> u32" where
  "crc_reference data = foldl crc_byte 0xFFFFFFFF data"

lemma crc_shift_8:
  "(crc_shift ^^ 8) c = crc_shift (crc_shift (crc_shift (crc_shift (crc_shift (crc_shift (crc_shift (crc_shift c)))))))"
  by (simp add: numeral_eq_Suc)

definition crc_entry :: "nat \<Rightarrow> u32" where
  "crc_entry i = (crc_shift ^^ 8) (push_bit 24 (word_of_nat i))"

lemma basis_entries:
  "crc_entry 1 = 0x04C11DB7" "crc_entry 2 = 0x09823B6E" "crc_entry 4 = 0x130476DC" "crc_entry 8 = 0x2608EDB8" "crc_entry 16 = 0x4C11DB70" "crc_entry 32 = 0x9823B6E0" "crc_entry 64 = 0x34867077" "crc_entry 128 = 0x690CE0EE"
  unfolding crc_entry_def crc_shift_8 by (simp_all add: crc_shift_def)

lemma table_doubling:
  shows "take 2 ts_crc32_table = take 1 ts_crc32_table @ map (\<lambda>x. x XOR 0x04C11DB7) (take 1 ts_crc32_table)"
  and "take 4 ts_crc32_table = take 2 ts_crc32_table @ map (\<lambda>x. x XOR 0x09823B6E) (take 2 ts_crc32_table)"
  and "take 8 ts_crc32_table = take 4 ts_crc32_table @ map (\<lambda>x. x XOR 0x130476DC) (take 4 ts_crc32_table)"
  and "take 16 ts_crc32_table = take 8 ts_crc32_table @ map (\<lambda>x. x XOR 0x2608EDB8) (take 8 ts_crc32_table)"
  and "take 32 ts_crc32_table = take 16 ts_crc32_table @ map (\<lambda>x. x XOR 0x4C11DB70) (take 16 ts_crc32_table)"
  and "take 64 ts_crc32_table = take 32 ts_crc32_table @ map (\<lambda>x. x XOR 0x9823B6E0) (take 32 ts_crc32_table)"
  and "take 128 ts_crc32_table = take 64 ts_crc32_table @ map (\<lambda>x. x XOR 0x34867077) (take 64 ts_crc32_table)"
  and "take 256 ts_crc32_table = take 128 ts_crc32_table @ map (\<lambda>x. x XOR 0x690CE0EE) (take 128 ts_crc32_table)"
  unfolding ts_crc32_table_def by simp_all

lemma crc_shift_xor: "crc_shift (a XOR b) = crc_shift a XOR crc_shift b"
  by (simp add: crc_shift_def bit_xor_iff push_bit_xor xor.assoc xor.commute xor.left_commute)

lemma crc_shifts_xor: "(crc_shift ^^ n) (a XOR b) = (crc_shift ^^ n) a XOR (crc_shift ^^ n) b"
  by (induction n) (simp_all add: crc_shift_xor)

lemma add_power_xor:
  assumes "i < 2 ^ k"
  shows "2 ^ k + i = 2 ^ k XOR (i :: nat)"
proof (rule disjunctive_add_eq_xor, rule bit_eqI)
  fix n
  have "take_bit k i = i" using assms by (simp add: take_bit_nat_eq_self)
  then have "bit i n \<Longrightarrow> n < k" by (metis bit_take_bit_iff)
  then show "bit (2 ^ k AND i) n = bit 0 n" by (auto simp: bit_and_iff bit_exp_iff)
qed

lemma crc_entry_add: "i < 2 ^ k \<Longrightarrow> crc_entry (2 ^ k + i) = crc_entry (2 ^ k) XOR crc_entry i"
  unfolding crc_entry_def crc_shifts_xor [symmetric] push_bit_xor [symmetric]
  by (simp add: add_power_xor of_nat_xor_eq)

definition entries_upto :: "nat \<Rightarrow> bool" where
  "entries_upto n \<longleftrightarrow> take n ts_crc32_table = map crc_entry [0..<n]"

lemma doubling_step:
  assumes "entries_upto n" and "n = 2 ^ k" and "m = n + n"
    and "take m ts_crc32_table = take n ts_crc32_table @ map (\<lambda>x. x XOR b) (take n ts_crc32_table)"
    and "crc_entry n = b"
  shows "entries_upto m"
proof -
  have "[0..<m] = [0..<n] @ map (\<lambda>i. n + i) [0..<n]"
    using upt_add_eq_append [of 0 n n] map_add_upt [of n n] assms(3) by (simp add: add.commute)
  moreover have "map (\<lambda>x. x XOR b) (map crc_entry [0..<n]) = map crc_entry (map (\<lambda>i. n + i) [0..<n])"
    using crc_entry_add [of _ k] assms(5) by (simp add: assms(2) xor.commute)
  ultimately show ?thesis
    using assms(1) unfolding entries_upto_def assms(4) by simp
qed

lemma entries_1: "entries_upto 1"
  by (simp add: entries_upto_def ts_crc32_table_def crc_entry_def crc_shift_8) (simp add: crc_shift_def)

lemma table_entries: "entries_upto 256"
proof -
  note s1 = doubling_step [OF entries_1, of 0 2, OF _ _ table_doubling(1) basis_entries(1), simplified]
  note s2 = doubling_step [OF s1, of 1 4, OF _ _ table_doubling(2) basis_entries(2), simplified]
  note s3 = doubling_step [OF s2, of 2 8, OF _ _ table_doubling(3) basis_entries(3), simplified]
  note s4 = doubling_step [OF s3, of 3 16, OF _ _ table_doubling(4) basis_entries(4), simplified]
  note s5 = doubling_step [OF s4, of 4 32, OF _ _ table_doubling(5) basis_entries(5), simplified]
  note s6 = doubling_step [OF s5, of 5 64, OF _ _ table_doubling(6) basis_entries(6), simplified]
  note s7 = doubling_step [OF s6, of 6 128, OF _ _ table_doubling(7) basis_entries(7), simplified]
  show ?thesis by (rule doubling_step [OF s7, of 7 256, OF _ _ table_doubling(8) basis_entries(8), simplified])
qed

lemma crc_shifts_low:
  assumes "\<And>i. 24 \<le> i \<Longrightarrow> \<not> bit c i" and "n \<le> 8"
  shows "(crc_shift ^^ n) c = push_bit n c"
  using assms(2)
proof (induction n)
  case (Suc n)
  then have "\<not> bit (push_bit n c) 31" using assms(1) [of "31 - n"] by (simp add: bit_push_bit_iff)
  with Suc show ?case by (simp add: crc_shift_def)
qed simp

lemma split_24: "x = push_bit 24 (drop_bit 24 x) XOR (x AND mask 24)" for x :: u32
  by (rule bit_word_eqI) (auto simp: bit_simps)

lemma table_lookup: "ts_crc32_table ! unat (w :: 8 word) = crc_entry (unat w)"
proof -
  have "unat w < 256" using unat_lt_word [of w] by simp
  then have "ts_crc32_table ! unat w = take 256 ts_crc32_table ! unat w" by simp
  also have "\<dots> = map crc_entry [0..<256] ! unat w"
    using table_entries by (simp only: entries_upto_def)
  also have "\<dots> = crc_entry (unat w)" using \<open>unat w < 256\<close> by (simp add: nth_map_upt [of _ 256 0])
  finally show ?thesis .
qed

lemma crc_step_byte: "ts_crc32_step c d = crc_byte c d"
proof -
  define x where "x = c XOR push_bit 24 (ucast d)"
  have hi: "drop_bit 24 x = ucast (ucast (drop_bit 24 x) :: u8)"
    by (rule bit_word_eqI) (auto simp: bit_simps dest: bit_imp_le_length)
  have dx: "drop_bit 24 x = drop_bit 24 c XOR ucast d"
    unfolding x_def by (rule bit_word_eqI) (auto simp: bit_simps dest: bit_imp_le_length)
  have unat_hi: "unat (ucast (drop_bit 24 x) :: u8) = unat (drop_bit 24 x)"
    by (subst (2) hi) (simp add: unat_ucast_widen)
  have lo: "push_bit 8 (x AND mask 24) = push_bit 8 c"
    unfolding x_def by (rule bit_word_eqI) (auto simp: bit_simps)
  have "crc_byte c d = (crc_shift ^^ 8) (push_bit 24 (drop_bit 24 x) XOR (x AND mask 24))"
    by (simp only: crc_byte_def x_def [symmetric] split_24 [of x, symmetric])
  also have "\<dots> = (crc_shift ^^ 8) (push_bit 24 (drop_bit 24 x)) XOR (crc_shift ^^ 8) (x AND mask 24)"
    by (rule crc_shifts_xor)
  also have "(crc_shift ^^ 8) (x AND mask 24) = push_bit 8 c"
    unfolding lo [symmetric] by (rule crc_shifts_low) (auto simp: bit_simps)
  also have "(crc_shift ^^ 8) (push_bit 24 (drop_bit 24 x)) = crc_entry (unat (drop_bit 24 x))"
    by (simp add: crc_entry_def)
  also have "unat (drop_bit 24 x) = unat (ucast (drop_bit 24 x) :: u8)" by (rule unat_hi [symmetric])
  also have "crc_entry \<dots> = ts_crc32_table ! unat (ucast (drop_bit 24 x) :: u8)"
    by (rule table_lookup [symmetric])
  finally show ?thesis unfolding ts_crc32_step_def dx [symmetric] by (simp only: xor.commute unat_hi)
qed

lemma crc_is_reference: "ts_crc32 data = crc_reference data"
  by (simp add: ts_crc32_def crc_reference_def crc_step_byte [abs_def])

text \<open>Appending the big-endian CRC drives the register to 0.\<close>

lemma table_0: "ts_crc32_table ! 0 = 0"
  by (simp add: ts_crc32_table_def)

lemma crc_residue: "ts_crc32 (xs @ put_be32 (ts_crc32 xs)) = 0"
proof -
  have s: "ts_crc32_step c (ucast (drop_bit 24 c)) = push_bit 8 c" for c
  proof -
    have "drop_bit 24 c XOR ucast (ucast (drop_bit 24 c) :: u8) = 0"
      by (rule bit_word_eqI) (auto simp: bit_simps dest: bit_imp_le_length)
    then show ?thesis by (simp add: ts_crc32_step_def table_0)
  qed
  define c where "c = ts_crc32 xs"
  have b: "ucast (drop_bit 16 c) = (ucast (drop_bit 24 (push_bit 8 c)) :: u8)"
    "ucast (drop_bit 8 c) = (ucast (drop_bit 24 (push_bit 8 (push_bit 8 c))) :: u8)"
    "ucast c = (ucast (drop_bit 24 (push_bit 8 (push_bit 8 (push_bit 8 c)))) :: u8)"
    by (rule bit_word_eqI; auto simp: bit_simps)+
  have "ts_crc32 (xs @ put_be32 c) = push_bit 8 (push_bit 8 (push_bit 8 (push_bit 8 c)))"
    by (simp only: ts_crc32_def foldl_append put_be32_def foldl_Cons foldl_Nil b s)
      (simp only: ts_crc32_def [symmetric] c_def [symmetric] s)
  also have "\<dots> = 0" by (rule bit_word_eqI) (auto simp: bit_simps)
  finally show ?thesis by (simp add: c_def)
qed

end
