(* ===== verification/TsDemux.thy ===== *)
theory TsDemux
  imports TsMux "HOL-Library.Sublist"
begin

text \<open>
  A reference receiver for the transport stream of TsMux.thy: packet headers, payload after the
  adaptation field, demultiplexing by PID, and the PES parser. It states what src/ts_mux.c
  promises a decoder, and the theorems show that its packets keep that promise.
\<close>

subsection \<open>A receiver: headers, payload, demultiplexing\<close>

definition ts_pid :: "bytes \<Rightarrow> u16" where
  "ts_pid p = be16 (p ! 1) (p ! 2) AND 0x1FFF"

definition ts_pusi :: "bytes \<Rightarrow> bool" where
  "ts_pusi p = bit (p ! 1) 6"

definition ts_cc :: "bytes \<Rightarrow> u8" where
  "ts_cc p = (p ! 3) AND 0x0F"

definition ts_adapt :: "bytes \<Rightarrow> bool" where
  "ts_adapt p = bit (p ! 3) 5"

definition ts_payload :: "bytes \<Rightarrow> bytes" where
  "ts_payload p = (if ts_adapt p then drop (5 + unat (p ! 4)) p else drop 4 p)"

definition demux :: "u16 \<Rightarrow> bytes list \<Rightarrow> bytes" where
  "demux pid ps = concat (map ts_payload (filter (\<lambda>p. ts_pid p = pid) ps))"

text \<open>One packet of a stream: 188 bytes, the sync byte, an adaptation field that fits.\<close>

definition ts_packet :: "u16 \<Rightarrow> u8 \<Rightarrow> bool \<Rightarrow> bytes \<Rightarrow> bool" where
  "ts_packet pid cc pusi p \<longleftrightarrow> length p = TS_PACKET_SIZE \<and> p ! 0 = 0x47 \<and> ts_pid p = pid \<and> ts_cc p = cc AND 0x0F
     \<and> ts_pusi p = pusi \<and> (ts_adapt p \<longrightarrow> unat (p ! 4) \<le> TS_PACKET_SIZE - 5)"

primrec ts_run :: "u16 \<Rightarrow> u8 \<Rightarrow> bytes list \<Rightarrow> bool" where
  "ts_run pid cc [] = True"
| "ts_run pid cc (p # ps) = (ts_packet pid cc False p \<and> ts_run pid (cc + 1) ps)"

text \<open>One unit: the first packet carries the start indicator, the others do not.\<close>

fun ts_unit :: "u16 \<Rightarrow> u8 \<Rightarrow> bytes list \<Rightarrow> bool" where
  "ts_unit pid cc [] = True"
| "ts_unit pid cc (p # ps) = (ts_packet pid cc True p \<and> ts_run pid (cc + 1) ps)"

definition read_pts :: "bytes \<Rightarrow> u64" where
  "read_pts xs = push_bit 30 (ucast (drop_bit 1 (xs ! 0) AND 0x07)) OR push_bit 22 (ucast (xs ! 1))
     OR push_bit 15 (ucast (drop_bit 1 (xs ! 2))) OR push_bit 7 (ucast (xs ! 3)) OR ucast (drop_bit 1 (xs ! 4))"

text \<open>A PES packet: the stream, its time stamp and the data its length field delimits.\<close>

definition pes_parse :: "bytes \<Rightarrow> (u8 \<times> u64 \<times> bytes) option" where
  "pes_parse xs =
     (if length xs < 14 \<or> take 3 xs \<noteq> [0, 0, 1] \<or> xs ! 7 \<noteq> 0x80 then None
      else let len = unat (be16 (xs ! 4) (xs ! 5)); body = drop (9 + unat (xs ! 8)) xs
           in Some (xs ! 3, read_pts (drop 9 xs), if len = 0 then body else take (len - 3 - unat (xs ! 8)) body))"

lemma small_masks:
  "(0x07 :: 'a::len word) = mask 3" "(0x0F :: 'a word) = mask 4" "(0x1F :: 'a word) = mask 5" "(0x7F :: 'a word) = mask 7"
  "(0xFF :: 'a word) = mask 8" "(0x1FFF :: 'a word) = mask 13"
  by (simp_all add: mask_eq_exp_minus_1)

lemma start_ts_packet_fields:
  assumes "start_ts_packet pid cc pusi adapt = (h, cc')"
  shows "length h = 4" and "(h @ r) ! 0 = 0x47" and "ts_pid (h @ r) = pid AND 0x1FFF" and "ts_cc (h @ r) = cc AND 0x0F"
    and "ts_pusi (h @ r) = pusi" and "ts_adapt (h @ r) = adapt" and "cc' = (cc + 1) AND 0x0F"
proof -
  have "be16 ((if pusi then 0x40 else 0) OR ucast (drop_bit 8 pid AND 0x1F)) (ucast (pid AND 0xFF)) AND 0x1FFF
      = pid AND 0x1FFF" (is "?l = ?r")
  proof (rule bit_word_eqI)
    fix n assume "n < LENGTH(16)"
    then consider "n < 8" | "n \<in> {8, 9, 10, 11, 12, 13, 14, 15}" by force
    then show "bit ?l n = bit ?r n"
      by cases (auto simp: be16_def small_masks bit_simps)
  qed
  then show "ts_pid (h @ r) = pid AND 0x1FFF"
    using assms by (auto simp: start_ts_packet_def ts_pid_def)
  show "ts_cc (h @ r) = cc AND 0x0F"
    using assms by (auto simp: start_ts_packet_def ts_cc_def and.assoc bit.conj_disj_distrib2)
qed (use assms in \<open>auto simp: start_ts_packet_def ts_pusi_def ts_adapt_def bit_simps split: if_splits\<close>)

lemma pts_bytes:
  "drop_bit 1 (push_bit 1 b OR 1) = b AND 0x7F"
  "drop_bit 1 (push_bit 4 2 OR push_bit 1 b OR 1) AND 0x07 = b AND 0x07" for b :: u8
  by (rule u8_eqI; simp add: byte_simps)+

lemma read_pts_Cons:
  "read_pts (a # b # c # d # e # r) = push_bit 30 (ucast (drop_bit 1 a AND 0x07)) OR push_bit 22 (ucast b)
     OR push_bit 15 (ucast (drop_bit 1 c)) OR push_bit 7 (ucast d) OR ucast (drop_bit 1 e)"
  by (simp add: read_pts_def)

lemma read_write_pts: "read_pts (write_pts 2 pts @ r) = take_bit 33 pts" (is "?l = ?r")
proof (rule bit_word_eqI)
  fix n assume "n < LENGTH(64)"
  then consider "n < 7" | "7 \<le> n" "n < 15" | "15 \<le> n" "n < 22" | "22 \<le> n" "n < 30" | "30 \<le> n" "n < 33"
    | "33 \<le> n" "n < 64" by fastforce
  then show "bit ?l n = bit ?r n"
    unfolding write_pts_def append_Cons read_pts_Cons pts_bytes
    unfolding small_masks by cases (auto simp: bit_simps)
qed

subsection \<open>Payload of the packets the muxer builds\<close>

lemma ts_payload_plain:
  assumes "start_ts_packet pid cc pusi False = (h, cc')"
  shows "ts_payload (h @ r) = r"
  using start_ts_packet_fields [OF assms] by (simp add: ts_payload_def)

lemma ts_payload_adapt:
  assumes "start_ts_packet pid cc pusi True = (h, cc')"
  shows "ts_payload (h @ n # r) = drop (unat n) r"
  using start_ts_packet_fields [OF assms] by (simp add: ts_payload_def nth_append)

lemma ts_packet_plain:
  assumes "start_ts_packet pid cc pusi False = (h, cc')" and "length r = 184" and "pid AND 0x1FFF = pid"
  shows "ts_packet pid cc pusi (h @ r)"
  using start_ts_packet_fields [OF assms(1)] assms(2,3) by (simp add: ts_packet_def TS_PACKET_SIZE_def)

lemma ts_packet_adapt:
  assumes "start_ts_packet pid cc pusi True = (h, cc')" and "length r = 183" and "pid AND 0x1FFF = pid"
    and "unat n \<le> 183"
  shows "ts_packet pid cc pusi (h @ n # r)"
  using start_ts_packet_fields [OF assms(1)] assms(2-4)
  by (simp add: ts_packet_def TS_PACKET_SIZE_def nth_append)

lemma next_packet_ok:
  assumes "next_packet pid cc data = (p, rest, cc')" and "data \<noteq> []" and "pid AND 0x1FFF = pid"
  shows "ts_packet pid cc False p" and "ts_payload p @ rest = data" and "rest = drop 184 data"
    and "cc' = (cc + 1) AND 0x0F"
proof -
  have small: "unat (word_of_nat n :: u8) = n" if "n < 184" for n
    using that by (simp add: unsigned_of_nat take_bit_nat_eq_self)
  consider (one) "length data = 183" | (stuff) "length data < 183" | (full) "184 \<le> length data" by linarith
  then have "ts_packet pid cc False p \<and> ts_payload p @ rest = data \<and> rest = drop 184 data \<and> cc' = (cc + 1) AND 0x0F"
  proof cases
    case one
    obtain h c where s: "start_ts_packet pid cc False True = (h, c)" by fastforce
    have "p = h @ 0 # data" "rest = []" "cc' = c"
      using assms(1) one by (simp_all add: next_packet_def TS_PACKET_SIZE_def s)
    then show ?thesis
      using ts_packet_adapt [OF s, of data 0] ts_payload_adapt [OF s, of 0 data] assms(3) one
        start_ts_packet_fields(7) [OF s] by simp
  next
    case stuff
    obtain h c where s: "start_ts_packet pid cc False True = (h, c)" by fastforce
    define n :: nat where "n = 184 - length data - 1"
    define r :: bytes where "r = 0 # replicate (184 - length data - 2) 0xFF @ data"
    have n: "0 < n" "n < 184" "length r = 183" "drop n r = data"
      using stuff by (auto simp: n_def r_def drop_Cons' diff_diff_add)
    have "184 - length data \<noteq> 1" using stuff by linarith
    then have "p = h @ word_of_nat n # r" "rest = []" "cc' = c"
      using assms(1) stuff by (auto simp: next_packet_def TS_PACKET_SIZE_def s Let_def n_def r_def simp del: of_nat_diff)
    then show ?thesis
      using ts_packet_adapt [OF s n(3), of "word_of_nat n"] ts_payload_adapt [OF s, of "word_of_nat n" r]
        assms(3) n stuff start_ts_packet_fields(7) [OF s] by (simp add: small)
  next
    case full
    obtain h c where s: "start_ts_packet pid cc False False = (h, c)" by fastforce
    have "p = h @ take 184 data" "rest = drop 184 data" "cc' = c"
      using assms(1) full by (simp_all add: next_packet_def TS_PACKET_SIZE_def s)
    then show ?thesis
      using ts_packet_plain [OF s, of "take 184 data"] ts_payload_plain [OF s, of "take 184 data"]
        assms(3) full start_ts_packet_fields(7) [OF s] by simp
  qed
  then show "ts_packet pid cc False p" "ts_payload p @ rest = data" "rest = drop 184 data" "cc' = (cc + 1) AND 0x0F"
    by blast+
qed

lemma cc_add: "((a AND 0x0F) + b) AND 0x0F = (a + b) AND 0x0F" for a b :: u8
  unfolding small_masks take_bit_eq_mask [symmetric]
  unfolding word_unat_eq_iff by (simp add: unsigned_take_bit_eq unat_word_ariths take_bit_eq_mod mod_mod_cancel mod_simps)

lemma cc_step: "((cc AND 0x0F) + 1) AND 0x0F = (cc + 1) AND 0x0F" for cc :: u8
  by (rule cc_add)

lemma cc_idem: "(cc AND 0x0F) AND 0x0F = cc AND 0x0F" for cc :: u8
  by (simp add: and.assoc)

lemma ts_packet_cc: "ts_packet pid (cc AND 0x0F) pusi p = ts_packet pid cc pusi p"
  by (simp add: ts_packet_def cc_idem)

lemma ts_run_cc: "ts_run pid (cc AND 0x0F) ps = ts_run pid cc ps"
proof (induction ps arbitrary: cc)
  case (Cons p ps)
  have "ts_run pid ((cc AND 0x0F) + 1) ps = ts_run pid (cc + 1) ps"
    using Cons.IH [of "(cc AND 0x0F) + 1"] Cons.IH [of "cc + 1"] by (simp only: cc_step)
  then show ?case by (simp add: ts_packet_cc)
qed simp

lemma next_packets_Nil: "next_packets pid room cc [] = ([], cc)"
  by (subst next_packets.simps) simp

lemma next_packets_step:
  assumes "next_packets pid room cc data = (ps, cc')" and "pid AND 0x1FFF = pid"
  shows "ps = [] \<and> cc' = cc \<and> (data = [] \<or> room < 188) \<or>
    (\<exists>p qs. ps = p # qs \<and> data \<noteq> [] \<and> 188 \<le> room \<and> ts_packet pid cc False p \<and> ts_payload p @ drop 184 data = data
       \<and> next_packets pid (room - 188) ((cc + 1) AND 0x0F) (drop 184 data) = (qs, cc'))"
proof (cases "data = [] \<or> room < 188")
  case True
  then show ?thesis using assms(1) by (subst (asm) next_packets.simps) (auto simp: TS_PACKET_SIZE_def)
next
  case False
  obtain p rest c where n: "next_packet pid cc data = (p, rest, c)" by (metis prod_cases3)
  obtain qs c2 where q: "next_packets pid (room - 188) c rest = (qs, c2)" by fastforce
  have "ps = p # qs" "cc' = c2"
    using assms(1) False n q by (subst (asm) next_packets.simps, simp add: TS_PACKET_SIZE_def)+
  then show ?thesis
    using False q next_packet_ok [OF n _ assms(2)] by auto
qed

lemma next_packets_run:
  assumes "next_packets pid room cc data = (ps, cc')" and "pid AND 0x1FFF = pid"
  shows "ts_run pid cc ps" and "188 * length ps \<le> room" and "cc' AND 0x0F = (cc + word_of_nat (length ps)) AND 0x0F"
    and "prefix (concat (map ts_payload ps)) data"
    and "length data \<le> 184 * (room div 188) \<Longrightarrow> concat (map ts_payload ps) = data"
proof -
  have "ts_run pid cc ps \<and> 188 * length ps \<le> room \<and> cc' AND 0x0F = (cc + word_of_nat (length ps)) AND 0x0F
      \<and> prefix (concat (map ts_payload ps)) data
      \<and> (length data \<le> 184 * (room div 188) \<longrightarrow> concat (map ts_payload ps) = data)"
    using assms
  proof (induction ps arbitrary: room cc data)
    case Nil
    from next_packets_step [OF Nil.prems] have "cc' = cc" "data = [] \<or> room < 188" by auto
    then show ?case by (auto simp: prefix_def)
  next
    case (Cons p qs)
    from next_packets_step [OF Cons.prems]
    have f: "data \<noteq> []" "188 \<le> room" "ts_packet pid cc False p" "ts_payload p @ drop 184 data = data"
      and n: "next_packets pid (room - 188) ((cc + 1) AND 0x0F) (drop 184 data) = (qs, cc')" by auto
    have IH: "ts_run pid (cc + 1) qs" "188 * length qs \<le> room - 188"
      "cc' AND 0x0F = (((cc + 1) AND 0x0F) + word_of_nat (length qs)) AND 0x0F"
      "prefix (concat (map ts_payload qs)) (drop 184 data)"
      "length data - 184 \<le> 184 * ((room - 188) div 188) \<Longrightarrow> concat (map ts_payload qs) = drop 184 data"
      using Cons.IH [OF n Cons.prems(2)] by (auto simp: ts_run_cc)
    have "cc' AND 0x0F = (cc + word_of_nat (length (p # qs))) AND 0x0F"
      using IH(3) cc_add [of "cc + 1" "word_of_nat (length qs)"] by (simp add: add.assoc)
    moreover have "prefix (concat (map ts_payload (p # qs))) data"
      using IH(4) f(4) by (metis concat.simps(2) list.simps(9) same_prefix_prefix)
    moreover have "concat (map ts_payload (p # qs)) = data" if "length data \<le> 184 * (room div 188)"
    proof -
      have "length data - 184 \<le> 184 * ((room - 188) div 188)"
        using that f(2) by (simp add: le_div_geq)
      from IH(5) [OF this] f(4) show ?thesis by simp
    qed
    ultimately show ?case using IH(1,2) f(2,3) by simp
  qed
  then show "ts_run pid cc ps" "188 * length ps \<le> room" "cc' AND 0x0F = (cc + word_of_nat (length ps)) AND 0x0F"
    "prefix (concat (map ts_payload ps)) data"
    "length data \<le> 184 * (room div 188) \<Longrightarrow> concat (map ts_payload ps) = data" by blast+
qed

subsection \<open>The first packet of a unit\<close>

lemma first_packet_ok:
  assumes "first_packet s pid cc header data pts use_pcr rai = (p, rest, cc', s')" and "length header = 14"
    and "pid AND 0x1FFF = pid"
  shows "ts_packet pid cc True p" and "cc' = (cc + 1) AND 0x0F" and "\<exists>k. rest = drop k data \<and> 162 \<le> k \<and> k \<le> 170
      \<and> ts_payload p = header @ take k data @ replicate (k - length data) 0xFF"
    and "s' = s\<lparr>ts_discontinuity := if use_pcr \<or> rai \<or> ts_discontinuity s \<noteq> 0 then 0 else ts_discontinuity s\<rparr>"
proof -
  obtain h c where t: "start_ts_packet pid cc True True = (h, c)" by fastforce
  obtain h2 c2 where f: "start_ts_packet pid cc True False = (h2, c2)" by fastforce
  have l: "length h = 4" "length h2 = 4" using start_ts_packet_fields(1) t f by blast+
  have lp: "length (write_pcr x) = 6" for x by (simp add: write_pcr_def)
  have mn: "k - min n k = k - n" for k n :: nat by simp
  have "ts_packet pid cc True p \<and> cc' = (cc + 1) AND 0x0F \<and> (\<exists>k. rest = drop k data \<and> 162 \<le> k \<and> k \<le> 170
      \<and> ts_payload p = header @ take k data @ replicate (k - length data) 0xFF)
      \<and> s' = s\<lparr>ts_discontinuity := if use_pcr \<or> rai \<or> ts_discontinuity s \<noteq> 0 then 0 else ts_discontinuity s\<rparr>"
  proof (cases "use_pcr \<or> rai \<or> ts_discontinuity s \<noteq> 0")
    case True
    define n :: u8 where "n = (if use_pcr then 7 else 1)"
    define k :: nat where "k = (if use_pcr then 162 else 168)"
    define a where "a = ((if rai then 0x40 else 0) OR (if use_pcr then 0x10 else 0)
        OR (if ts_discontinuity s \<noteq> 0 then 0x80 else 0)) #
      (if use_pcr then write_pcr (if pts > ucast (ts_pcr_offset s) then pts - ucast (ts_pcr_offset s) else pts) else [])"
    have a: "length a = unat n" by (simp add: a_def n_def lp)
    have p: "p = h @ n # (a @ header @ take k data @ replicate (k - length data) 0xFF)"
      and r: "rest = drop k data" "cc' = c" "s' = s\<lparr>ts_discontinuity := 0\<rparr>"
      using assms(1,2) True l
      by (simp_all add: first_packet_def t Let_def n_def k_def a_def fill_packet_def TS_PACKET_SIZE_def lp mn
          split: if_splits)
    have "length (a @ header @ take k data @ replicate (k - length data) 0xFF) = 183"
      using a assms(2) by (auto simp: n_def k_def)
    from ts_packet_adapt [OF t this assms(3), of n] ts_payload_adapt [OF t, of n] a p r start_ts_packet_fields(7) [OF t] True
    show ?thesis by (auto simp: n_def k_def intro!: exI [of _ k])
  next
    case False
    have p: "p = h2 @ (header @ take 170 data @ replicate (170 - length data) 0xFF)"
      and r: "rest = drop 170 data" "cc' = c2" "s' = s"
      using assms(1,2) False l
      by (simp_all add: first_packet_def f Let_def fill_packet_def TS_PACKET_SIZE_def mn)
    have "length (header @ take 170 data @ replicate (170 - length data) 0xFF) = 184"
      using assms(2) by simp
    from ts_packet_plain [OF f this assms(3)] ts_payload_plain [OF f] p r start_ts_packet_fields(7) [OF f] False
    show ?thesis by (auto intro!: exI [of _ 170])
  qed
  then show "ts_packet pid cc True p" and "cc' = (cc + 1) AND 0x0F" and "\<exists>k. rest = drop k data \<and> 162 \<le> k \<and> k \<le> 170
      \<and> ts_payload p = header @ take k data @ replicate (k - length data) 0xFF"
    and "s' = s\<lparr>ts_discontinuity := if use_pcr \<or> rai \<or> ts_discontinuity s \<noteq> 0 then 0 else ts_discontinuity s\<rparr>" by blast+
qed

subsection \<open>A whole unit\<close>

lemma pid_13: "TS_PID_VIDEO AND 0x1FFF = TS_PID_VIDEO" "TS_PID_AUDIO AND 0x1FFF = TS_PID_AUDIO"
  "TS_PID_PAT AND 0x1FFF = TS_PID_PAT" "TS_PID_PMT AND 0x1FFF = TS_PID_PMT"
  by (simp_all add: TS_PID_VIDEO_def TS_PID_AUDIO_def TS_PID_PAT_def TS_PID_PMT_def)

lemma length_pes_header: "length (pes_header sid n pts) = 14"
  by (simp add: pes_header_def Let_def put_be16_def write_pts_def)

lemma pes_parse_header:
  "pes_parse (pes_header sid n pts @ body) =
     Some (sid, take_bit 33 pts, if n + 8 > 0xFFFF then body else take n body)"
proof -
  have be: "be16 (ucast (drop_bit 8 x)) (ucast x) = x" for x :: u16
    using be16_split [of x] by (simp add: be16_def) (rule bit_word_eqI; auto simp: bit_simps)
  have len: "unat (word_of_nat (n + 8) :: u16) = n + 8" if "n + 8 \<le> 0xFFFF"
    using that by (simp add: unsigned_of_nat take_bit_nat_eq_self del: of_nat_add)
  have "length (write_pts 2 pts) = 5" by (simp add: write_pts_def)
  then show ?thesis
    using len read_write_pts [of pts body]
    by (auto simp: pes_header_def pes_parse_def Let_def put_be16_def be simp del: of_nat_add)
qed

lemma ts_run_pid: "ts_run pid cc ps \<Longrightarrow> p \<in> set ps \<Longrightarrow> ts_pid p = pid"
  by (induction ps arbitrary: cc) (auto simp: ts_packet_def)

lemma ts_unit_pid: "ts_unit pid cc ps \<Longrightarrow> p \<in> set ps \<Longrightarrow> ts_pid p = pid"
  by (cases ps) (auto simp: ts_packet_def dest: ts_run_pid)

lemma ts_unit_filter: "ts_unit pid cc ps \<Longrightarrow> filter (\<lambda>p. ts_pid p = q) ps = (if q = pid then ps else [])"
  by (auto dest: ts_unit_pid intro: filter_True simp: filter_empty_conv)

lemma write_pes_ok:
  assumes "write_pes_packets s room pid cc sid data pts use_pcr rai = (ps, cc', s')" and "pid AND 0x1FFF = pid"
  shows "ts_unit pid cc ps" and "188 * length ps \<le> room" and "cc' AND 0x0F = (cc + word_of_nat (length ps)) AND 0x0F"
    and "s' = s\<lparr>ts_discontinuity := if 188 \<le> room then 0 else ts_discontinuity s\<rparr>"
    and "188 \<le> room \<Longrightarrow> length data \<le> 184 * (room div 188) - 22
      \<Longrightarrow> pes_parse (concat (map ts_payload ps)) = Some (sid, take_bit 33 pts, data)"
proof -
  have "ts_unit pid cc ps \<and> 188 * length ps \<le> room \<and> cc' AND 0x0F = (cc + word_of_nat (length ps)) AND 0x0F
    \<and> s' = s\<lparr>ts_discontinuity := if 188 \<le> room then 0 else ts_discontinuity s\<rparr>
    \<and> (188 \<le> room \<longrightarrow> length data \<le> 184 * (room div 188) - 22
      \<longrightarrow> pes_parse (concat (map ts_payload ps)) = Some (sid, take_bit 33 pts, data))"
  proof (cases "room < 188")
    case True
    then show ?thesis using assms(1) by (auto simp: write_pes_packets_def TS_PACKET_SIZE_def)
  next
    case False
    obtain p rest c s1 where f: "first_packet s pid cc (pes_header sid (length data) pts) data pts use_pcr rai = (p, rest, c, s1)"
      by (metis prod_cases4)
    obtain qs c2 where n: "next_packets pid (room - 188) c rest = (qs, c2)" by fastforce
    have ps: "ps = p # qs" "cc' = c2" "s' = s1"
      using assms(1) False by (auto simp: write_pes_packets_def TS_PACKET_SIZE_def f n)
    note fp = first_packet_ok [OF f length_pes_header assms(2)]
    note np = next_packets_run [OF n assms(2)]
    obtain k where k170: "k \<le> 170" and k: "rest = drop k data" "162 \<le> k"
      "ts_payload p = pes_header sid (length data) pts @ take k data @ replicate (k - length data) 0xFF"
      using fp(3) by blast
    have cc: "cc' AND 0x0F = (cc + word_of_nat (length ps)) AND 0x0F"
      using np(3) cc_add [of "cc + 1" "word_of_nat (length qs)"] fp(2) ps by (simp add: add.assoc)
    have parse: "pes_parse (concat (map ts_payload ps)) = Some (sid, take_bit 33 pts, data)"
      if "length data \<le> 184 * (room div 188) - 22"
    proof -
      have "length rest \<le> 184 * ((room - 188) div 188)"
        using that False k(1,2) by (simp add: le_div_geq)
      from np(5) [OF this] have pay: "concat (map ts_payload ps) = pes_header sid (length data) pts
          @ (take k data @ replicate (k - length data) 0xFF @ drop k data)"
        by (simp add: ps k)
      show ?thesis
      proof (cases "length data \<le> k")
        case True
        then have "length data + 8 \<le> 0xFFFF" using k170 by linarith
        then show ?thesis unfolding pay pes_parse_header using True by simp
      next
        case False
        then show ?thesis unfolding pay pes_parse_header by simp
      qed
    qed
    show ?thesis
      using fp(1,2,4) np(1,2) cc parse ps False by (auto simp: ts_run_cc)
  qed
  then show "ts_unit pid cc ps" "188 * length ps \<le> room" "cc' AND 0x0F = (cc + word_of_nat (length ps)) AND 0x0F"
    "s' = s\<lparr>ts_discontinuity := if 188 \<le> room then 0 else ts_discontinuity s\<rparr>"
    "188 \<le> room \<Longrightarrow> length data \<le> 184 * (room div 188) - 22
      \<Longrightarrow> pes_parse (concat (map ts_payload ps)) = Some (sid, take_bit 33 pts, data)" by blast+
qed

subsection \<open>PAT and PMT\<close>

definition section_of :: "bytes \<Rightarrow> bytes" where
  "section_of p = (let body = drop (1 + unat (ts_payload p ! 0)) (ts_payload p)
     in take (3 + unat (be16 (body ! 1) (body ! 2) AND 0x0FFF)) body)"

lemma section_packet_ok:
  assumes "start_ts_packet pid cc True False = (h, cc')" and "pid AND 0x1FFF = pid"
    and "length sec + 4 \<le> 183" and "3 \<le> length sec"
    and "unat (be16 (sec ! 1) (sec ! 2) AND 0x0FFF) = length sec + 1"
  shows "ts_packet pid cc True (section_packet h sec)"
    and "section_of (section_packet h sec) = sec @ put_be32 (ts_crc32 sec)"
    and "ts_crc32 (section_of (section_packet h sec)) = 0"
proof -
  have l: "length (put_be32 x) = 4" for x by (simp add: put_be32_def)
  define r where "r = 0 # sec @ put_be32 (ts_crc32 sec) @ replicate (183 - (length sec + 4)) 0xFF"
  have p: "section_packet h sec = h @ r"
    using start_ts_packet_fields(1) [OF assms(1)]
    by (simp add: section_packet_def fill_packet_def TS_PACKET_SIZE_def r_def l)
  have "length r = 184" using assms(3) by (simp add: r_def l)
  from ts_packet_plain [OF assms(1) this assms(2)]
  show "ts_packet pid cc True (section_packet h sec)" by (simp add: p)
  have "ts_payload (section_packet h sec) = r" unfolding p by (rule ts_payload_plain [OF assms(1)])
  moreover have "(sec @ ys) ! 1 = sec ! 1" "(sec @ ys) ! 2 = sec ! 2" for ys
    using assms(4) by (simp_all add: nth_append)
  ultimately show s: "section_of (section_packet h sec) = sec @ put_be32 (ts_crc32 sec)"
    using assms(5) by (simp add: section_of_def Let_def r_def l)
  show "ts_crc32 (section_of (section_packet h sec)) = 0" unfolding s by (rule crc_residue)
qed

lemma pat_section_ok:
  "length pat_section = 12" "unat (be16 (pat_section ! 1) (pat_section ! 2) AND 0x0FFF) = 13"
  by (simp_all add: pat_section_def put_be16_def TS_PID_PMT_def be16_def)

lemma pmt_section_ok:
  "length (pmt_section s) \<le> 40" "3 \<le> length (pmt_section s)"
  "unat (be16 (pmt_section s ! 1) (pmt_section s ! 2) AND 0x0FFF) = length (pmt_section s) + 1"
  by (simp_all add: pmt_section_def pmt_body_def registration_def put_be16_def be16_def)

end
