(* ===== verification/TsSession.thy ===== *)
theory TsSession
  imports TsDemux
begin

text \<open>
  Whole calls of the multiplexer of src/ts_mux.c and their interleavings: the contract every call
  keeps (room, known PIDs, consecutive counters), the round trip of a video or audio unit through
  the reference receiver, the program tables and their period.
\<close>

subsection \<open>What each call emits\<close>

definition ts_counter :: "ts_state \<Rightarrow> u16 \<Rightarrow> u8" where
  "ts_counter s pid = (if pid = TS_PID_PAT then cc_pat s else if pid = TS_PID_PMT then cc_pmt s
     else if pid = TS_PID_VIDEO then cc_video s else if pid = TS_PID_AUDIO then cc_audio s else 0)"

text \<open>Packets numbered consecutively from a counter, each well formed for its PID.\<close>

fun ts_counted :: "u16 \<Rightarrow> u8 \<Rightarrow> bytes list \<Rightarrow> bool" where
  "ts_counted pid cc [] = True"
| "ts_counted pid cc (p # ps) = (ts_packet pid cc (ts_pusi p) p \<and> ts_counted pid (cc + 1) ps)"

lemma ts_run_counted: "ts_run pid cc ps \<Longrightarrow> ts_counted pid cc ps"
  by (induction ps arbitrary: cc) (auto simp: ts_packet_def)

lemma ts_unit_counted: "ts_unit pid cc ps \<Longrightarrow> ts_counted pid cc ps"
  by (cases ps) (auto simp: ts_packet_def dest: ts_run_counted)

lemma ts_counted_append:
  "ts_counted pid cc (ps @ qs) \<longleftrightarrow> ts_counted pid cc ps \<and> ts_counted pid (cc + word_of_nat (length ps)) qs"
  by (induction ps arbitrary: cc) (auto simp: ac_simps)

lemma ts_counted_cong: "c AND 0x0F = d AND 0x0F \<Longrightarrow> ts_counted pid c ps = ts_counted pid d ps"
proof (induction ps arbitrary: c d)
  case (Cons p ps)
  have "(c + 1) AND 0x0F = (d + 1) AND 0x0F" using Cons.prems cc_step [of c] cc_step [of d] by simp
  from Cons.IH [OF this] Cons.prems show ?case by (simp add: ts_packet_def)
qed simp

text \<open>The contract of a call: room, and for every PID consecutive packets from its counter.\<close>

definition ts_contract :: "ts_state \<Rightarrow> nat \<Rightarrow> bytes list \<times> ts_state \<Rightarrow> bool" where
  "ts_contract s room r \<longleftrightarrow> 188 * length (fst r) \<le> room
     \<and> set (map ts_pid (fst r)) \<subseteq> {TS_PID_PAT, TS_PID_PMT, TS_PID_VIDEO, TS_PID_AUDIO}
     \<and> (\<forall>pid. ts_counted pid (ts_counter s pid) (filter (\<lambda>p. ts_pid p = pid) (fst r)))
     \<and> (\<forall>pid. ts_counter (snd r) pid AND 0x0F
           = (ts_counter s pid + word_of_nat (length (filter (\<lambda>p. ts_pid p = pid) (fst r)))) AND 0x0F)"

lemma pid_distinct:
  "TS_PID_PAT \<noteq> TS_PID_PMT" "TS_PID_PAT \<noteq> TS_PID_VIDEO" "TS_PID_PAT \<noteq> TS_PID_AUDIO" "TS_PID_PMT \<noteq> TS_PID_VIDEO"
  "TS_PID_PMT \<noteq> TS_PID_AUDIO" "TS_PID_VIDEO \<noteq> TS_PID_AUDIO"
  by (simp_all add: TS_PID_VIDEO_def TS_PID_AUDIO_def TS_PID_PAT_def TS_PID_PMT_def)

lemma ts_contract_idle: "ts_contract s room ([], s)"
  by (simp add: ts_contract_def)

lemma ts_contract_trans:
  assumes "ts_contract s room (ps, s1)" and "ts_contract s1 (room - 188 * length ps) (qs, s2)"
  shows "ts_contract s room (ps @ qs, s2)"
  unfolding ts_contract_def fst_conv snd_conv
proof (intro conjI allI)
  fix pid
  let ?f = "filter (\<lambda>p. ts_pid p = pid)"
  have c1: "ts_counter s1 pid AND 0x0F = (ts_counter s pid + word_of_nat (length (?f ps))) AND 0x0F"
    using assms(1) by (simp add: ts_contract_def)
  have "ts_counted pid (ts_counter s1 pid) (?f qs)" using assms(2) by (simp add: ts_contract_def)
  with ts_counted_cong [OF c1] assms(1)
  show "ts_counted pid (ts_counter s pid) (?f (ps @ qs))" by (simp add: ts_contract_def ts_counted_append)
  have "ts_counter s2 pid AND 0x0F = (ts_counter s1 pid + word_of_nat (length (?f qs))) AND 0x0F"
    using assms(2) by (simp add: ts_contract_def)
  also have "\<dots> = ((ts_counter s pid + word_of_nat (length (?f ps))) + word_of_nat (length (?f qs))) AND 0x0F"
    using c1 cc_add [of "ts_counter s1 pid"] cc_add [of "ts_counter s pid + word_of_nat (length (?f ps))"] by metis
  finally show "ts_counter s2 pid AND 0x0F = (ts_counter s pid + word_of_nat (length (?f (ps @ qs)))) AND 0x0F"
    by (simp add: add.assoc)
qed (use assms in \<open>auto simp: ts_contract_def algebra_simps\<close>)

lemma ts_contract_unit:
  assumes "ts_unit pid (ts_counter s pid) ps" and "188 * length ps \<le> room"
    and "ts_counter s' pid AND 0x0F = (ts_counter s pid + word_of_nat (length ps)) AND 0x0F"
    and "pid \<in> {TS_PID_PAT, TS_PID_PMT, TS_PID_VIDEO, TS_PID_AUDIO}"
    and "\<And>q. q \<noteq> pid \<Longrightarrow> ts_counter s' q = ts_counter s q"
  shows "ts_contract s room (ps, s')"
  using assms ts_unit_pid [OF assms(1)] ts_unit_counted [OF assms(1)]
  by (auto simp: ts_contract_def ts_unit_filter [OF assms(1)] cc_idem)

lemma pat_pmt_ok:
  assumes "ts_mux_write_pat_pmt s room = (ps, s')"
  shows "ts_contract s room (ps, s')"
    and "376 \<le> room \<Longrightarrow> \<exists>p q. ps = [p, q] \<and> ts_packet TS_PID_PAT (cc_pat s) True p \<and> ts_packet TS_PID_PMT (cc_pmt s) True q
      \<and> section_of p = pat_section @ put_be32 (ts_crc32 pat_section)
      \<and> section_of q = pmt_section s @ put_be32 (ts_crc32 (pmt_section s))"
    and "room < 376 \<Longrightarrow> ps = []"
    and "\<exists>a b. s' = s\<lparr>cc_pat := a, cc_pmt := b\<rparr>"
proof -
  obtain h1 c1 where t1: "start_ts_packet TS_PID_PAT (cc_pat s) True False = (h1, c1)" by fastforce
  obtain h2 c2 where t2: "start_ts_packet TS_PID_PMT (cc_pmt s) True False = (h2, c2)" by fastforce
  let ?p = "section_packet h1 pat_section" let ?q = "section_packet h2 (pmt_section s)"
  have r: "ps = (if room < 376 then [] else [?p, ?q])"
    "s' = (if room < 376 then s else s\<lparr>cc_pat := c1, cc_pmt := c2\<rparr>)"
    using assms by (auto simp: ts_mux_write_pat_pmt_def TS_PACKET_SIZE_def t1 t2)
  have p: "ts_packet TS_PID_PAT (cc_pat s) True ?p" "section_of ?p = pat_section @ put_be32 (ts_crc32 pat_section)"
    using section_packet_ok(1,2) [OF t1 pid_13(3)] pat_section_ok by simp_all
  have q: "ts_packet TS_PID_PMT (cc_pmt s) True ?q" "section_of ?q = pmt_section s @ put_be32 (ts_crc32 (pmt_section s))"
    using section_packet_ok(1,2) [OF t2 pid_13(4), of "pmt_section s"] pmt_section_ok [of s] by simp_all
  show "376 \<le> room \<Longrightarrow> \<exists>p q. ps = [p, q] \<and> ts_packet TS_PID_PAT (cc_pat s) True p \<and> ts_packet TS_PID_PMT (cc_pmt s) True q
      \<and> section_of p = pat_section @ put_be32 (ts_crc32 pat_section)
      \<and> section_of q = pmt_section s @ put_be32 (ts_crc32 (pmt_section s))"
    using p q r by (intro exI [of _ ?p] exI [of _ ?q]) simp
  show "room < 376 \<Longrightarrow> ps = []" using r by simp
  show "\<exists>a b. s' = s\<lparr>cc_pat := a, cc_pmt := b\<rparr>" using r by (metis ts_state.surjective ts_state.update_convs(1,2))
  have c: "c1 = (cc_pat s + 1) AND 0x0F" "c2 = (cc_pmt s + 1) AND 0x0F"
    using start_ts_packet_fields(7) t1 t2 by blast+
  show "ts_contract s room (ps, s')"
  proof (cases "room < 376")
    case False
    let ?s1 = "s\<lparr>cc_pat := c1\<rparr>"
    have "ts_contract s room ([?p], ?s1)"
      by (rule ts_contract_unit [of TS_PID_PAT]) (use p False c in \<open>auto simp: ts_counter_def cc_idem\<close>)
    moreover have "ts_contract ?s1 (room - 188 * length [?p]) ([?q], ?s1\<lparr>cc_pmt := c2\<rparr>)"
      by (rule ts_contract_unit [of TS_PID_PMT]) (use q False c pid_distinct in \<open>auto simp: ts_counter_def cc_idem\<close>)
    ultimately show ?thesis using ts_contract_trans [of s room "[?p]" ?s1 "[?q]"] r False by simp
  qed (use r ts_contract_idle in simp)
qed

lemma write_audio_ok:
  assumes "ts_mux_write_audio s room data pts = (ps, s')"
  shows "ts_contract s room (ps, s')"
    and "data \<noteq> [] \<Longrightarrow> length data + 22 \<le> 184 * (room div 188)
      \<Longrightarrow> pes_parse (demux TS_PID_AUDIO ps) = Some (0xBD, take_bit 33 pts, data)"
    and "data \<noteq> [] \<Longrightarrow> 188 \<le> room \<Longrightarrow> ts_discontinuity s' = 0"
    and "ts_video_frames s' = ts_video_frames s"
proof -
  obtain qs c s1 where w: "write_pes_packets s room TS_PID_AUDIO (cc_audio s) 0xBD data pts False False = (qs, c, s1)"
    by (metis prod_cases3)
  note wp = write_pes_ok [OF w pid_13(2)]
  have e: "data \<noteq> [] \<Longrightarrow> ps = qs \<and> s' = s1\<lparr>cc_audio := c\<rparr>" "data = [] \<Longrightarrow> ps = [] \<and> s' = s"
    using assms w by (auto simp: ts_mux_write_audio_def)
  show "ts_contract s room (ps, s')"
  proof (cases "data = []")
    case False
    with e have e': "ps = qs" "s' = s1\<lparr>cc_audio := c\<rparr>" by auto
    have c: "ts_counter s TS_PID_AUDIO = cc_audio s" "ts_counter s' TS_PID_AUDIO = c"
      using e' pid_distinct by (auto simp: ts_counter_def)
    have "ts_counter s' q = ts_counter s q" if "q \<noteq> TS_PID_AUDIO" for q
      using that e' by (subst e'(2), subst wp(4)) (simp add: ts_counter_def)
    then show ?thesis
      by (intro ts_contract_unit [of TS_PID_AUDIO]) (use wp(1-3) c e' in auto)
  qed (use e ts_contract_idle in simp)
  show "data \<noteq> [] \<Longrightarrow> 188 \<le> room \<Longrightarrow> ts_discontinuity s' = 0" using e by (simp add: wp(4))
  show "ts_video_frames s' = ts_video_frames s" using e by (cases "data = []") (simp_all add: wp(4))
  show "pes_parse (demux TS_PID_AUDIO ps) = Some (0xBD, take_bit 33 pts, data)"
    if "data \<noteq> []" "length data + 22 \<le> 184 * (room div 188)"
  proof -
    have "188 \<le> room" using that by (cases "room < 188") auto
    with that wp(5) e show ?thesis by (simp add: demux_def ts_unit_filter [OF wp(1)])
  qed
qed

lemma write_video_ok:
  assumes "ts_mux_write_video s room data pts idr = (ps, s')"
  shows "ts_contract s room (ps, s')"
    and "data \<noteq> [] \<Longrightarrow> length data + 22 \<le> 184 * (room div 188 - 2)
      \<Longrightarrow> pes_parse (demux TS_PID_VIDEO ps) = Some (0xE0, take_bit 33 pts, data)"
    and "data \<noteq> [] \<Longrightarrow> ts_video_frames s' = (if TS_PAT_PMT_INTERVAL \<le> ts_video_frames s then 1 else ts_video_frames s + 1)"
    and "data \<noteq> [] \<Longrightarrow> 376 \<le> room \<Longrightarrow> ts_video_frames s < TS_PAT_PMT_INTERVAL
      \<Longrightarrow> filter (\<lambda>p. ts_pid p = TS_PID_PAT \<or> ts_pid p = TS_PID_PMT) ps = []"
    and "data \<noteq> [] \<Longrightarrow> 376 \<le> room \<Longrightarrow> TS_PAT_PMT_INTERVAL \<le> ts_video_frames s
      \<Longrightarrow> \<exists>rest. ps = fst (ts_mux_write_pat_pmt s room) @ rest"
proof -
  define tables where "tables = (if ts_video_frames s \<ge> TS_PAT_PMT_INTERVAL
    then case ts_mux_write_pat_pmt s room of (ps, s1) \<Rightarrow> (ps, s1\<lparr>ts_video_frames := 0\<rparr>) else ([], s))"
  obtain ts s1 where t: "tables = (ts, s1)" by fastforce
  define s2 where "s2 = s1\<lparr>ts_video_frames := ts_video_frames s1 + 1\<rparr>"
  obtain qs c s3 where w: "write_pes_packets s2 (room - 188 * length ts) TS_PID_VIDEO (cc_video s2) 0xE0 data pts True idr = (qs, c, s3)"
    by (metis prod_cases3)
  note wp = write_pes_ok [OF w pid_13(1)]
  have e: "data \<noteq> [] \<Longrightarrow> ps = ts @ qs \<and> s' = s3\<lparr>cc_video := c\<rparr>" "data = [] \<Longrightarrow> ps = [] \<and> s' = s"
    using assms t w by (auto simp: ts_mux_write_video_def tables_def [symmetric] s2_def Let_def TS_PACKET_SIZE_def)
  have frames: "ts_counter (s\<lparr>ts_video_frames := x\<rparr>) = ts_counter s" for s x
    by (rule ext) (simp add: ts_counter_def)
  obtain tp ts1 where wt: "ts_mux_write_pat_pmt s room = (tp, ts1)" by fastforce
  note pp = pat_pmt_ok [OF wt]
  have tc: "ts_contract s room (ts, s1)"
    using t pp(1) ts_contract_idle [of s room]
    by (auto simp: tables_def wt ts_contract_def frames split: if_splits)
  have f1: "ts_video_frames s1 = (if TS_PAT_PMT_INTERVAL \<le> ts_video_frames s then 0 else ts_video_frames s)"
    and tl: "length ts \<le> 2"
    and t0: "ts_video_frames s < TS_PAT_PMT_INTERVAL \<Longrightarrow> ts = []"
    and t1: "TS_PAT_PMT_INTERVAL \<le> ts_video_frames s \<Longrightarrow> ts = fst (ts_mux_write_pat_pmt s room)"
    using t pp(2,3) by (auto simp: tables_def wt split: if_splits) (cases "376 \<le> room"; fastforce)
  have tv: "filter (\<lambda>p. ts_pid p = TS_PID_VIDEO) ts = []"
  proof (cases "TS_PAT_PMT_INTERVAL \<le> ts_video_frames s")
    case True
    then have "ts = tp" using t1 wt by simp
    then show ?thesis using pp(2,3) pid_distinct by (cases "376 \<le> room") (auto simp: ts_packet_def)
  qed (use t0 in simp)
  show "ts_contract s room (ps, s')"
  proof (cases "data = []")
    case False
    with e have e': "ps = ts @ qs" "s' = s3\<lparr>cc_video := c\<rparr>" by auto
    have cs: "ts_counter s1 TS_PID_VIDEO = cc_video s2" "ts_counter s' TS_PID_VIDEO = c"
      using e' pid_distinct by (auto simp: ts_counter_def s2_def)
    have "ts_counter s' q = ts_counter s1 q" if "q \<noteq> TS_PID_VIDEO" for q
      using that by (subst e'(2), subst wp(4)) (simp add: ts_counter_def s2_def)
    then have "ts_contract s1 (room - 188 * length ts) (qs, s')"
      by (intro ts_contract_unit [of TS_PID_VIDEO]) (use wp(1-3) cs in auto)
    from ts_contract_trans [OF tc this] show ?thesis by (simp add: e')
  qed (use e ts_contract_idle in simp)
  show "ts_video_frames s' = (if TS_PAT_PMT_INTERVAL \<le> ts_video_frames s then 1 else ts_video_frames s + 1)" if "data \<noteq> []"
    using e that f1 by (simp add: wp(4) s2_def)
  show "\<exists>rest. ps = fst (ts_mux_write_pat_pmt s room) @ rest" if "data \<noteq> []" "376 \<le> room" "TS_PAT_PMT_INTERVAL \<le> ts_video_frames s"
    using e t1 that by auto
  show "filter (\<lambda>p. ts_pid p = TS_PID_PAT \<or> ts_pid p = TS_PID_PMT) ps = []"
    if "data \<noteq> []" "376 \<le> room" "ts_video_frames s < TS_PAT_PMT_INTERVAL"
    using e t0 that ts_unit_pid [OF wp(1)] pid_distinct by (auto simp: filter_empty_conv)
  show "pes_parse (demux TS_PID_VIDEO ps) = Some (0xE0, take_bit 33 pts, data)"
    if "data \<noteq> []" "length data + 22 \<le> 184 * (room div 188 - 2)"
  proof -
    have "room div 188 - 2 \<le> (room - 188 * length ts) div 188"
    proof -
      consider "length ts = 0" | "length ts = 1" | "length ts = 2" using tl by linarith
      then show ?thesis
      proof cases
        case 2
        then show ?thesis by (cases "room < 188") (simp_all add: le_div_geq)
      next
        case 3
        then show ?thesis by (cases "room < 376") (simp_all add: div_le_dividend le_div_geq)
      qed simp
    qed
    then have "length data + 22 \<le> 184 * ((room - 188 * length ts) div 188)" using that(2) by linarith
    moreover from this have "188 \<le> room - 188 * length ts" by (cases "room - 188 * length ts < 188") auto
    moreover have "filter (\<lambda>p. ts_pid p = TS_PID_VIDEO) ts = []"
      by (rule tv)
    ultimately show ?thesis
      using wp(5) e that by (simp add: demux_def ts_unit_filter [OF wp(1)])
  qed
qed

subsection \<open>Interleaved calls\<close>

text \<open>One call into the muxer: a video frame or an audio block, each with the room of its buffer.\<close>

datatype ts_call = Video nat bytes u64 bool | Audio nat bytes u64

primrec ts_call_step :: "ts_state \<Rightarrow> ts_call \<Rightarrow> bytes list \<times> ts_state" where
  "ts_call_step s (Video room data pts idr) = ts_mux_write_video s room data pts idr"
| "ts_call_step s (Audio room data pts) = ts_mux_write_audio s room data pts"

primrec ts_session :: "ts_state \<Rightarrow> ts_call list \<Rightarrow> bytes list \<times> ts_state" where
  "ts_session s [] = ([], s)"
| "ts_session s (c # cs) = (case ts_call_step s c of (ps, s1) \<Rightarrow> case ts_session s1 cs of (qs, s2) \<Rightarrow> (ps @ qs, s2))"

primrec call_room :: "ts_call \<Rightarrow> nat" where
  "call_room (Video room data pts idr) = room"
| "call_room (Audio room data pts) = room"

primrec shows_video :: "ts_call \<Rightarrow> bool" where
  "shows_video (Video room data pts idr) = (data \<noteq> [])"
| "shows_video (Audio room data pts) = False"

lemma call_contract: "ts_contract s (call_room c) (ts_call_step s c)"
proof (cases c)
  case (Video room data pts idr)
  obtain ps s1 where w: "ts_mux_write_video s room data pts idr = (ps, s1)" by fastforce
  from write_video_ok(1) [OF w] show ?thesis by (simp add: Video w)
next
  case (Audio room data pts)
  obtain ps s1 where w: "ts_mux_write_audio s room data pts = (ps, s1)" by fastforce
  from write_audio_ok(1) [OF w] show ?thesis by (simp add: Audio w)
qed

lemma ts_contract_more_room: "ts_contract s room r \<Longrightarrow> room \<le> room' \<Longrightarrow> ts_contract s room' r"
  by (auto simp: ts_contract_def)

lemma session_contract: "ts_contract s (sum_list (map call_room cs)) (ts_session s cs)"
proof (induction cs arbitrary: s)
  case Nil
  show ?case by (simp add: ts_contract_idle)
next
  case (Cons c cs)
  obtain ps s1 where c: "ts_call_step s c = (ps, s1)" by fastforce
  obtain qs s2 where r: "ts_session s1 cs = (qs, s2)" by fastforce
  have len: "188 * length ps \<le> call_room c" using call_contract [of s c] by (simp add: c ts_contract_def)
  have "ts_contract s (sum_list (map call_room (c # cs))) (ps, s1)"
    by (rule ts_contract_more_room [of _ "call_room c"]) (use call_contract [of s c] in \<open>simp_all add: c\<close>)
  moreover have "ts_contract s1 (sum_list (map call_room (c # cs)) - 188 * length ps) (qs, s2)"
    by (rule ts_contract_more_room [of _ "sum_list (map call_room cs)"]) (use Cons.IH [of s1] len in \<open>simp_all add: r\<close>)
  ultimately show ?case using ts_contract_trans by (simp add: c r)
qed

lemma call_frames:
  "ts_video_frames (snd (ts_call_step s c)) =
     (if shows_video c then if TS_PAT_PMT_INTERVAL \<le> ts_video_frames s then 1 else ts_video_frames s + 1
      else ts_video_frames s)"
proof (cases c)
  case (Video room data pts idr)
  obtain ps s1 where w: "ts_mux_write_video s room data pts idr = (ps, s1)" by fastforce
  show ?thesis
    using write_video_ok(3) [OF w] w by (cases "data = []") (auto simp: Video ts_mux_write_video_def)
next
  case (Audio room data pts)
  obtain ps s1 where w: "ts_mux_write_audio s room data pts = (ps, s1)" by fastforce
  from write_audio_ok(4) [OF w] show ?thesis by (simp add: Audio w)
qed

lemma session_append:
  "ts_session s (cs @ ds) = (case ts_session s cs of (ps, s1) \<Rightarrow> case ts_session s1 ds of (qs, s2) \<Rightarrow> (ps @ qs, s2))"
  by (induction cs arbitrary: s) (simp_all split: prod.split)

text \<open>The number of video frames since the last tables, of n frames since the start.\<close>

definition frames_since :: "nat \<Rightarrow> nat" where
  "frames_since n = (if n = 0 then 15 else (n - 1) mod 15 + 1)"

lemma frames_since_Suc: "frames_since (Suc n) = (if 15 \<le> frames_since n then 1 else frames_since n + 1)"
proof (cases n)
  case (Suc m)
  have "m mod 15 = 14 \<or> m mod 15 < 14" using mod_less_divisor [of 15 m] by linarith
  then show ?thesis using mod_Suc [of m 15] by (auto simp: Suc frames_since_def)
qed (simp add: frames_since_def)

lemma frames_since_15: "15 \<le> frames_since n \<longleftrightarrow> n mod 15 = 0"
proof (cases n)
  case (Suc m)
  have "m mod 15 = 14 \<or> m mod 15 < 14" using mod_less_divisor [of 15 m] by linarith
  then show ?thesis using mod_Suc [of m 15] by (auto simp: Suc frames_since_def)
qed (simp add: frames_since_def)

lemma session_frames:
  assumes "ts_video_frames s = TS_PAT_PMT_INTERVAL"
  shows "unat (ts_video_frames (snd (ts_session s cs))) = frames_since (length (filter shows_video cs))"
proof (induction cs rule: rev_induct)
  case Nil
  show ?case using assms by (simp add: frames_since_def TS_PAT_PMT_INTERVAL_def)
next
  case (snoc c cs)
  let ?f = "ts_video_frames (snd (ts_session s cs))"
  have last: "ts_video_frames (snd (ts_session s (cs @ [c]))) = ts_video_frames (snd (ts_call_step (snd (ts_session s cs)) c))"
    by (simp add: session_append split: prod.split)
  have cmp: "TS_PAT_PMT_INTERVAL \<le> ?f \<longleftrightarrow> 15 \<le> unat ?f"
    by (simp add: TS_PAT_PMT_INTERVAL_def word_le_nat_alt)
  have "unat (?f + 1) = unat ?f + 1" if "unat ?f < 15"
    using that by (simp add: unat_Suc)
  then show ?case
    using snoc by (auto simp: last call_frames cmp frames_since_Suc not_le)
qed

subsection \<open>The properties\<close>

text \<open>Property C4. For every interleaving of video and audio calls from any state, whatever the
  buffer sizes: the packets fit the buffers, all have known PIDs, and for every PID they are valid
  188-byte packets whose continuity counters are consecutive from the state's counter.\<close>

theorem ts_continuity:
  "188 * length (fst (ts_session s cs)) \<le> sum_list (map call_room cs)
   \<and> set (map ts_pid (fst (ts_session s cs))) \<subseteq> {TS_PID_PAT, TS_PID_PMT, TS_PID_VIDEO, TS_PID_AUDIO}
   \<and> ts_counted pid (ts_counter s pid) (filter (\<lambda>p. ts_pid p = pid) (fst (ts_session s cs)))"
  using session_contract [of s cs] by (auto simp: ts_contract_def)

text \<open>Property C5. A receiver that demultiplexes the video PID of one written frame gets the frame
  back, with its time stamp modulo 2^33, when the buffer has room for it: the first packet's
  padding, the stuffing of the last and the tables in front do not disturb it, and a frame whose
  length does not fit the 16-bit field is delimited by the packets.\<close>

theorem ts_video_roundtrip:
  assumes "data \<noteq> []" and "length data + 22 \<le> 184 * (room div 188 - 2)"
  shows "pes_parse (demux TS_PID_VIDEO (fst (ts_mux_write_video s room data pts idr))) = Some (0xE0, take_bit 33 pts, data)"
proof -
  obtain ps s1 where w: "ts_mux_write_video s room data pts idr = (ps, s1)" by fastforce
  from write_video_ok(2) [OF w assms] show ?thesis by (simp add: w)
qed

theorem ts_video_roundtrip_witness:
  "pes_parse (demux TS_PID_VIDEO (fst (ts_mux_write_video (ts_mux_init 48000 1) 752 [1, 2, 3] 0x2FFFFFFFF True)))
    = Some (0xE0, 0xFFFFFFFF, [1, 2, 3])"
  by (subst ts_video_roundtrip) (simp_all add: take_bit_eq_mod)

text \<open>The same for an audio block on its own PID.\<close>

lemma ts_audio_roundtrip:
  assumes "data \<noteq> []" and "length data + 22 \<le> 184 * (room div 188)"
  shows "pes_parse (demux TS_PID_AUDIO (fst (ts_mux_write_audio s room data pts))) = Some (0xBD, take_bit 33 pts, data)"
proof -
  obtain ps s1 where w: "ts_mux_write_audio s room data pts = (ps, s1)" by fastforce
  from write_audio_ok(2) [OF w assms] show ?thesis by (simp add: w)
qed

lemma ts_audio_roundtrip_witness:
  "pes_parse (demux TS_PID_AUDIO (fst (ts_mux_write_audio (ts_mux_init 48000 1) 376 [1, 2, 3] 7)))
    = Some (0xBD, 7, [1, 2, 3])"
  by (subst ts_audio_roundtrip) (simp_all add: take_bit_eq_mod)

text \<open>From the start of a recording the tables are sent with the first video frame and
  then with every fifteenth, whatever audio is interleaved: exactly those frames begin with a PAT
  and a PMT packet, whose sections carry the CRC of the standard's polynomial (its residue is 0),
  and no other frame contains one.\<close>

lemma ts_tables_period:
  assumes "data \<noteq> []" and "376 \<le> room"
    and "s = snd (ts_session (ts_mux_init rate channels) cs)"
    and "ps = fst (ts_mux_write_video s room data pts idr)"
  shows "if length (filter shows_video cs) mod 15 = 0
    then ts_packet TS_PID_PAT (cc_pat s) True (ps ! 0) \<and> ts_packet TS_PID_PMT (cc_pmt s) True (ps ! 1)
      \<and> crc_reference (section_of (ps ! 0)) = 0 \<and> crc_reference (section_of (ps ! 1)) = 0
      \<and> section_of (ps ! 1) = pmt_section s @ put_be32 (crc_reference (pmt_section s))
    else filter (\<lambda>p. ts_pid p = TS_PID_PAT \<or> ts_pid p = TS_PID_PMT) ps = []"
proof -
  obtain qs s1 where w: "ts_mux_write_video s room data pts idr = (qs, s1)" by fastforce
  have ps: "ps = qs" using assms(4) w by simp
  have f: "unat (ts_video_frames s) = frames_since (length (filter shows_video cs))"
    unfolding assms(3) by (rule session_frames) (simp add: ts_mux_init_def)
  have due: "TS_PAT_PMT_INTERVAL \<le> ts_video_frames s \<longleftrightarrow> length (filter shows_video cs) mod 15 = 0"
    unfolding TS_PAT_PMT_INTERVAL_def word_le_nat_alt f by (simp add: frames_since_15)
  obtain tp ts1 where wt: "ts_mux_write_pat_pmt s room = (tp, ts1)" by fastforce
  show ?thesis
  proof (cases "length (filter shows_video cs) mod 15 = 0")
    case True
    obtain rest where "ps = tp @ rest"
      using write_video_ok(5) [OF w assms(1,2)] due True wt ps by auto
    then show ?thesis
      using pat_pmt_ok(2) [OF wt assms(2)] True crc_residue by (auto simp: crc_is_reference)
  next
    case False
    then show ?thesis using write_video_ok(4) [OF w assms(1,2)] due ps by (auto simp: not_le)
  qed
qed

lemma ts_tables_period_witness:
  "ts_packet TS_PID_PAT 0 True (fst (ts_mux_write_video (ts_mux_init 48000 1) 940 [1] 9 True) ! 0)"
  using ts_tables_period [of "[1]" 940 "ts_mux_init 48000 1" 48000 1 "[]" _ 9 True, OF _ _ _ refl]
  by (simp add: ts_mux_init_def)

text \<open>The discontinuity indicator of a packet's adaptation field.\<close>

definition carries_discontinuity :: "bytes \<Rightarrow> bool" where
  "carries_discontinuity p \<longleftrightarrow> ts_adapt p \<and> p ! 4 \<noteq> 0 \<and> bit (p ! 5) 7"

lemma first_packet_discontinuity:
  assumes "first_packet s pid cc header data pts True rai = (p, rest, cc', s')"
  shows "carries_discontinuity p \<longleftrightarrow> ts_discontinuity s \<noteq> 0"
proof -
  obtain h c where t: "start_ts_packet pid cc True True = (h, c)" by fastforce
  have l: "length h = 4" and a: "ts_adapt (h @ r)" for r using start_ts_packet_fields [OF t] by auto
  have "\<exists>r. p = h @ 7 # ((if rai then 0x40 else 0) OR 0x10 OR (if ts_discontinuity s \<noteq> 0 then 0x80 else 0)) # r"
    using assms by (auto simp: first_packet_def t Let_def fill_packet_def)
  then show ?thesis
    using l a by (cases rai) (auto simp: carries_discontinuity_def nth_append bit_simps)
qed

lemma write_video_discontinuity:
  assumes "ts_video_frames s < TS_PAT_PMT_INTERVAL" and "frame \<noteq> []" and "188 \<le> room"
  shows "carries_discontinuity (fst (ts_mux_write_video s room frame pts idr) ! 0) \<longleftrightarrow> ts_discontinuity s \<noteq> 0"
proof -
  let ?s = "s\<lparr>ts_video_frames := ts_video_frames s + 1\<rparr>"
  obtain p rest c s1 where f: "first_packet ?s TS_PID_VIDEO (cc_video s) (pes_header 0xE0 (length frame) pts) frame pts True idr
      = (p, rest, c, s1)" by (metis prod_cases4)
  have "fst (ts_mux_write_video s room frame pts idr) ! 0 = p"
    using assms f by (auto simp: ts_mux_write_video_def write_pes_packets_def TS_PACKET_SIZE_def Let_def not_le split: prod.split)
  with first_packet_discontinuity [OF f] show ?thesis by simp
qed

text \<open>The discontinuity indicator, which the header announces for the next video frame,
  is spent by whichever unit is written first: with the flag set, a video frame written at once
  carries the indicator in its first packet, and the same frame written after an audio block does
  not.\<close>

lemma ts_discontinuity_spent_by_audio:
  assumes "ts_discontinuity s \<noteq> 0" and "ts_video_frames s < TS_PAT_PMT_INTERVAL"
    and "audio \<noteq> []" and "188 \<le> room1" and "frame \<noteq> []" and "188 \<le> room2"
  shows "carries_discontinuity (fst (ts_mux_write_video s room2 frame pts idr) ! 0)
    \<and> \<not> carries_discontinuity (fst (ts_mux_write_video (snd (ts_mux_write_audio s room1 audio pts')) room2 frame pts idr) ! 0)"
proof -
  obtain ps s1 where w: "ts_mux_write_audio s room1 audio pts' = (ps, s1)" by fastforce
  show ?thesis
    using write_video_discontinuity [of s frame room2] write_video_discontinuity [of s1 frame room2]
      write_audio_ok(3,4) [OF w] w assms by simp
qed

lemma ts_discontinuity_spent_by_audio_witness:
  "let s = ts_mux_init 48000 1\<lparr>ts_discontinuity := 1, ts_video_frames := 3\<rparr>
   in \<not> carries_discontinuity (fst (ts_mux_write_video (snd (ts_mux_write_audio s 188 [7] 5)) 188 [9] 6 True) ! 0)"
  unfolding Let_def
  by (rule ts_discontinuity_spent_by_audio [THEN conjunct2]) (simp_all add: TS_PAT_PMT_INTERVAL_def)

end
