(* ===== verification/MutexRings.thy ===== *)
theory MutexRings imports Queues begin

text \<open>
  The mutex-protected rings: \<open>include/audio_ring.h\<close> (capture thread to recorder, drops the oldest
  frame when full), \<open>include/imu_ring.h\<close> and \<open>include/eis_ring.h\<close> (motion samples, read by time
  range). Every operation runs under the ring's lock, so a run of a ring is a sequence of whole
  operations. Sample values are opaque (\<open>'f\<close>): the rings only copy them.
\<close>

subsection \<open>Circular arrays\<close>

text \<open>The \<open>c\<close> elements from index \<open>t\<close> on, around the end.\<close>

definition window :: "'a list \<Rightarrow> nat \<Rightarrow> nat \<Rightarrow> 'a list" where
  "window xs t c = map (\<lambda>i. xs ! ((t + i) mod length xs)) [0..<c]"

lemma length_window [simp]: "length (window xs t c) = c"
  by (simp add: window_def)

lemma window_0 [simp]: "window xs t 0 = []"
  by (simp add: window_def)

lemma window_pop: "window xs t (Suc c) = xs ! (t mod length xs) # window xs ((t + 1) mod length xs) c"
proof -
  have "[0..<Suc c] = 0 # map Suc [0..<c]" by (simp add: map_Suc_upt upt_conv_Cons del: upt_Suc)
  then show ?thesis by (simp add: window_def mod_add_left_eq mod_simps comp_def del: upt_Suc)
qed


lemma window_push:
  assumes "c < length xs"
  shows "window (xs[(t + c) mod length xs := x]) t (Suc c) = window xs t c @ [x]"
proof -
  have "(t + c) mod length xs < length xs" using assms by (intro mod_less_divisor) linarith
  moreover have "xs[(t + c) mod length xs := x] ! ((t + i) mod length xs) = xs ! ((t + i) mod length xs)" if "i < c" for i
    using mod_window_neq [of "t + i" "t + c" "length xs"] that assms by (intro nth_list_update_neq) auto
  ultimately show ?thesis by (simp add: window_def)
qed

lemma window_overwrite:
  assumes "xs \<noteq> []" and "t < length xs"
  shows "window (xs[t := x]) ((t + 1) mod length xs) (length xs) = tl (window xs t (length xs)) @ [x]"
proof -
  obtain n where n: "length xs = Suc n" using assms by (cases xs) auto
  have "window xs t (length xs) = xs ! t # window xs ((t + 1) mod length xs) n"
    using window_pop [of xs t n] assms(2) by (simp add: n)
  moreover have "((t + 1) mod length xs + n) mod length xs = t"
    using assms(2) mod_add_self2 [of t "Suc n"] by (simp add: mod_add_left_eq n)
  then have "window (xs[t := x]) ((t + 1) mod length xs) (Suc n) = window xs ((t + 1) mod length xs) n @ [x]"
    using window_push [of n xs "(t + 1) mod length xs" x] by (simp add: n)
  ultimately show ?thesis by (simp add: n)
qed

subsection \<open>The audio ring\<close>

definition AUDIO_RING_PCM_MAX :: nat where "AUDIO_RING_PCM_MAX = 3840"
definition AUDIO_RING_CAPACITY :: u32 where "AUDIO_RING_CAPACITY = 64"

record audio_entry =
  ae_pcm :: bytes
  ae_length :: u16
  ae_timestamp_us :: u64

record audio_ring =
  ar_buf :: "audio_entry list"
  ar_head :: u32
  ar_tail :: u32
  ar_count :: u32
  ar_dropped :: u32

definition audio_ring_init :: audio_ring where
  "audio_ring_init =
     \<lparr>ar_buf = replicate 64 \<lparr>ae_pcm = replicate AUDIO_RING_PCM_MAX 0, ae_length = 0, ae_timestamp_us = 0\<rparr>,
      ar_head = 0, ar_tail = 0, ar_count = 0, ar_dropped = 0\<rparr>"

text \<open>One frame as it is pushed: the caller's buffer, the length it states, its time stamp.\<close>

type_synonym audio_frame = "bytes \<times> u16 \<times> u64"

definition fill_entry :: "audio_frame \<Rightarrow> audio_entry \<Rightarrow> audio_entry" where
  "fill_entry f e = (case f of (pcm, len, us) \<Rightarrow>
     let copy_len = (if unat len > AUDIO_RING_PCM_MAX then word_of_nat AUDIO_RING_PCM_MAX else len)
     in \<lparr>ae_pcm = take (unat copy_len) pcm @ drop (unat copy_len) (ae_pcm e), ae_length = copy_len, ae_timestamp_us = us\<rparr>)"

definition audio_ring_push :: "audio_frame \<Rightarrow> audio_ring \<Rightarrow> audio_ring" where
  "audio_ring_push f r =
     (let i = unat (ar_head r);
          r1 = r\<lparr>ar_buf := (ar_buf r)[i := fill_entry f (ar_buf r ! i)],
                 ar_head := (ar_head r + 1) mod AUDIO_RING_CAPACITY\<rparr>
      in if ar_count r1 < AUDIO_RING_CAPACITY then r1\<lparr>ar_count := ar_count r1 + 1\<rparr>
         else r1\<lparr>ar_tail := (ar_tail r1 + 1) mod AUDIO_RING_CAPACITY, ar_dropped := ar_dropped r1 + 1\<rparr>)"

definition audio_ring_pop :: "audio_ring \<Rightarrow> audio_entry option \<times> audio_ring" where
  "audio_ring_pop r =
     (if ar_count r = 0 then (None, r)
      else (Some (ar_buf r ! unat (ar_tail r)),
            r\<lparr>ar_tail := (ar_tail r + 1) mod AUDIO_RING_CAPACITY, ar_count := ar_count r - 1\<rparr>))"

definition audio_ring_count :: "audio_ring \<Rightarrow> u32" where
  "audio_ring_count r = ar_count r"

text \<open>
  The blocking pop. A wait ends in a signal (a push, \<open>audio_ring_wake\<close> or a spurious wake-up) or in
  an error of \<open>pthread_cond_timedwait\<close> (the timeout); the frames other threads pushed while the
  lock was released come with it. A script that ends leaves the caller blocked.
\<close>

datatype wait_end = Signalled "audio_frame list" | TimedOut "audio_frame list"
datatype pop_result = Popped audio_entry | Timeout | Blocked

fun audio_ring_pop_wait :: "wait_end list \<Rightarrow> audio_ring \<Rightarrow> pop_result \<times> audio_ring" where
  "audio_ring_pop_wait ws r =
     (case audio_ring_pop r of
        (Some e, r') \<Rightarrow> (Popped e, r')
      | (None, r') \<Rightarrow>
         (case ws of [] \<Rightarrow> (Blocked, r)
          | TimedOut fs # ws' \<Rightarrow> (Timeout, fold audio_ring_push fs r)
          | Signalled fs # ws' \<Rightarrow> audio_ring_pop_wait ws' (fold audio_ring_push fs r)))"

declare audio_ring_pop_wait.simps [simp del]

text \<open>The absolute deadline of the wait; \<open>long\<close> is 32 bits on the target.\<close>

record timespec =
  tv_sec :: int
  tv_nsec :: int

definition pop_wait_deadline :: "timespec \<Rightarrow> int \<Rightarrow> timespec" where
  "pop_wait_deadline now timeout_ms =
     (let nsec = tv_nsec now + timeout_ms * 1000000
      in if nsec \<ge> 1000000000 then \<lparr>tv_sec = tv_sec now + 1, tv_nsec = nsec - 1000000000\<rparr>
         else now\<lparr>tv_nsec := nsec\<rparr>)"

definition timespec_valid :: "timespec \<Rightarrow> bool" where
  "timespec_valid t \<longleftrightarrow> 0 \<le> tv_nsec t \<and> tv_nsec t < 1000000000"

subsection \<open>The ring as an evicting queue\<close>

definition frame_of :: "audio_entry \<Rightarrow> audio_frame" where
  "frame_of e = (take (unat (ae_length e)) (ae_pcm e), ae_length e, ae_timestamp_us e)"

text \<open>What the ring keeps of a pushed frame: at most 3840 bytes of it.\<close>

definition stored :: "audio_frame \<Rightarrow> audio_frame" where
  "stored f = (case f of (pcm, len, us) \<Rightarrow>
     (take (min (unat len) AUDIO_RING_PCM_MAX) pcm, word_of_nat (min (unat len) AUDIO_RING_PCM_MAX), us))"

text \<open>The caller's buffer holds what the length says.\<close>

definition frame_ok :: "audio_frame \<Rightarrow> bool" where
  "frame_ok f \<longleftrightarrow> unat (fst (snd f)) \<le> length (fst f)"

definition audio_contents :: "audio_ring \<Rightarrow> audio_entry list" where
  "audio_contents r = window (ar_buf r) (unat (ar_tail r)) (unat (ar_count r))"

definition audio_wf :: "audio_ring \<Rightarrow> bool" where
  "audio_wf r \<longleftrightarrow> length (ar_buf r) = 64 \<and> unat (ar_tail r) < 64 \<and> unat (ar_count r) \<le> 64
     \<and> unat (ar_head r) = (unat (ar_tail r) + unat (ar_count r)) mod 64
     \<and> set (ar_buf r) \<subseteq> {e. length (ae_pcm e) = AUDIO_RING_PCM_MAX}"

lemma next_index: "unat w < 64 \<Longrightarrow> unat ((w + 1) mod AUDIO_RING_CAPACITY) = (unat w + 1) mod 64" for w :: u32
  by (simp add: AUDIO_RING_CAPACITY_def unat_mod unat_Suc)

lemma audio_init_wf: "audio_wf audio_ring_init" "audio_contents audio_ring_init = []"
  by (simp_all add: audio_wf_def audio_ring_init_def audio_contents_def)

text \<open>The entry a push leaves, and its frame.\<close>

lemma fill_entry_ok:
  assumes "frame_ok f" and "length (ae_pcm e) = AUDIO_RING_PCM_MAX"
  shows "length (ae_pcm (fill_entry f e)) = AUDIO_RING_PCM_MAX" and "frame_of (fill_entry f e) = stored f"
proof -
  obtain pcm len us where f: "f = (pcm, len, us)" by (metis prod_cases3)
  have u: "unat (word_of_nat AUDIO_RING_PCM_MAX :: u16) = AUDIO_RING_PCM_MAX"
    by (simp add: AUDIO_RING_PCM_MAX_def)
  consider "unat len \<le> AUDIO_RING_PCM_MAX" | "AUDIO_RING_PCM_MAX < unat len" by linarith
  then have "length (ae_pcm (fill_entry f e)) = AUDIO_RING_PCM_MAX \<and> frame_of (fill_entry f e) = stored f"
    using assms u by cases (auto simp: f fill_entry_def Let_def frame_of_def stored_def frame_ok_def min_def)
  then show "length (ae_pcm (fill_entry f e)) = AUDIO_RING_PCM_MAX" and "frame_of (fill_entry f e) = stored f" by auto
qed

lemma audio_push_ok:
  assumes "audio_wf r" and "frame_ok f"
  shows "audio_wf (audio_ring_push f r)"
    and "\<exists>e. frame_of e = stored f \<and> audio_contents (audio_ring_push f r)
      = (if length (audio_contents r) < 64 then audio_contents r else tl (audio_contents r)) @ [e]"
    and "ar_dropped (audio_ring_push f r) = ar_dropped r + (if length (audio_contents r) < 64 then 0 else 1)"
proof -
  define i where "i = unat (ar_head r)"
  define e where "e = fill_entry f (ar_buf r ! i)"
  have w: "length (ar_buf r) = 64" "unat (ar_tail r) < 64" "unat (ar_count r) \<le> 64"
    "i = (unat (ar_tail r) + unat (ar_count r)) mod 64" "set (ar_buf r) \<subseteq> {e. length (ae_pcm e) = AUDIO_RING_PCM_MAX}"
    using assms(1) by (auto simp: audio_wf_def i_def)
  have i: "i < 64" using w(4) by simp
  have "ar_buf r ! i \<in> set (ar_buf r)" using w(1) i by simp
  then have "length (ae_pcm (ar_buf r ! i)) = AUDIO_RING_PCM_MAX" using w(5) by blast
  then have e: "length (ae_pcm e) = AUDIO_RING_PCM_MAX" "frame_of e = stored f"
    using fill_entry_ok [OF assms(2), of "ar_buf r ! i"] by (simp_all add: e_def)
  have full: "ar_count r < AUDIO_RING_CAPACITY \<longleftrightarrow> unat (ar_count r) < 64"
    by (simp add: AUDIO_RING_CAPACITY_def word_less_nat_alt)
  have len: "length (audio_contents r) = unat (ar_count r)" by (simp add: audio_contents_def)
  have set: "set ((ar_buf r)[i := e]) \<subseteq> {e. length (ae_pcm e) = AUDIO_RING_PCM_MAX}"
    using set_update_subset_insert [of "ar_buf r" i e] e(1) w(5) by auto
  have head: "unat ((ar_head r + 1) mod AUDIO_RING_CAPACITY) = (i + 1) mod 64"
    using next_index i by (simp add: i_def)
  have push: "audio_ring_push f r =
     (if unat (ar_count r) < 64
      then r\<lparr>ar_buf := (ar_buf r)[i := e], ar_head := (ar_head r + 1) mod AUDIO_RING_CAPACITY, ar_count := ar_count r + 1\<rparr>
      else r\<lparr>ar_buf := (ar_buf r)[i := e], ar_head := (ar_head r + 1) mod AUDIO_RING_CAPACITY,
             ar_tail := (ar_tail r + 1) mod AUDIO_RING_CAPACITY, ar_dropped := ar_dropped r + 1\<rparr>)"
    by (simp add: audio_ring_push_def Let_def full i_def e_def)
  show "ar_dropped (audio_ring_push f r) = ar_dropped r + (if length (audio_contents r) < 64 then 0 else 1)"
    by (simp add: push len)
  have "audio_wf (audio_ring_push f r) \<and> audio_contents (audio_ring_push f r)
      = (if length (audio_contents r) < 64 then audio_contents r else tl (audio_contents r)) @ [e]"
  proof (cases "unat (ar_count r) < 64")
    case True
    have c: "unat (ar_count r + 1) = Suc (unat (ar_count r))" using True by (simp add: unat_Suc)
    have "(i + 1) mod 64 = (unat (ar_tail r) + Suc (unat (ar_count r))) mod 64"
      by (simp add: w(4) mod_Suc_eq)
    then show ?thesis
      using True w set head c window_push [of "unat (ar_count r)" "ar_buf r" "unat (ar_tail r)" e]
      by (simp add: push audio_wf_def audio_contents_def)
  next
    case False
    then have c: "unat (ar_count r) = 64" using w(3) by simp
    then have t: "i = unat (ar_tail r)" using w(2,4) by simp
    have "(i + 1) mod 64 = ((unat (ar_tail r) + 1) mod 64 + 64) mod 64" by (simp add: t)
    moreover have "unat ((ar_tail r + 1) mod AUDIO_RING_CAPACITY) = (unat (ar_tail r) + 1) mod 64"
      using next_index w(2) by simp
    moreover have "ar_buf r \<noteq> []" using w(1) by auto
    ultimately show ?thesis
      using False c w set head window_overwrite [of "ar_buf r" i e] i
      by (simp add: push audio_wf_def audio_contents_def t)
  qed
  then show "audio_wf (audio_ring_push f r)"
    and "\<exists>e. frame_of e = stored f \<and> audio_contents (audio_ring_push f r)
      = (if length (audio_contents r) < 64 then audio_contents r else tl (audio_contents r)) @ [e]"
    using e(2) by auto
qed

lemma audio_pop_ok:
  assumes "audio_wf r"
  shows "audio_contents r = [] \<Longrightarrow> audio_ring_pop r = (None, r)"
    and "audio_contents r = e # es \<Longrightarrow> \<exists>r'. audio_ring_pop r = (Some e, r') \<and> audio_contents r' = es \<and> audio_wf r'
      \<and> ar_dropped r' = ar_dropped r"
proof -
  have w: "length (ar_buf r) = 64" "unat (ar_tail r) < 64" "unat (ar_count r) \<le> 64" using assms by (auto simp: audio_wf_def)
  have z: "ar_count r = 0 \<longleftrightarrow> unat (ar_count r) = 0" by (simp add: unat_eq_0)
  show "audio_contents r = [] \<Longrightarrow> audio_ring_pop r = (None, r)"
    using z by (auto simp: audio_contents_def audio_ring_pop_def dest: arg_cong [of _ _ length])
  assume c: "audio_contents r = e # es"
  then obtain n where n: "unat (ar_count r) = Suc n"
    by (cases "unat (ar_count r)") (auto simp: audio_contents_def)
  have "unat (ar_count r - 1) = n" using n by (metis One_nat_def diff_Suc_1 nat.distinct(1) unat_minus_one unat_eq_0)
  moreover have "unat ((ar_tail r + 1) mod AUDIO_RING_CAPACITY) = (unat (ar_tail r) + 1) mod 64"
    using next_index w(2) by simp
  moreover have "(unat (ar_tail r) + Suc n) mod 64 = ((unat (ar_tail r) + 1) mod 64 + n) mod 64"
    by (simp add: mod_add_left_eq)
  ultimately show "\<exists>r'. audio_ring_pop r = (Some e, r') \<and> audio_contents r' = es \<and> audio_wf r' \<and> ar_dropped r' = ar_dropped r"
    using assms c w n z window_pop [of "ar_buf r" "unat (ar_tail r)" n]
    by (auto simp: audio_ring_pop_def audio_contents_def audio_wf_def)
qed

text \<open>The frames in the ring, oldest first; popping hands them out.\<close>

definition audio_frames :: "audio_ring \<Rightarrow> audio_frame list" where
  "audio_frames r = map frame_of (audio_contents r)"

definition audio_pop_frame :: "audio_ring \<Rightarrow> audio_frame option \<times> audio_ring" where
  "audio_pop_frame r = (case audio_ring_pop r of (e, r') \<Rightarrow> (map_option frame_of e, r'))"

interpretation ar: evicting_queue audio_frames "\<lambda>_. audio_wf" audio_pop_frame audio_ring_push stored frame_ok 64
proof unfold_locales
  fix n r f
  assume wf: "audio_wf r"
  {
    assume "audio_frames r = []"
    then show "audio_pop_frame r = (None, r)"
      using audio_pop_ok(1) [OF wf] by (simp add: audio_pop_frame_def audio_frames_def)
  next
    fix x xs
    assume "audio_frames r = x # xs"
    then obtain e es where "audio_contents r = e # es" "x = frame_of e" "xs = map frame_of es"
      by (auto simp: audio_frames_def)
    with audio_pop_ok(2) [OF wf this(1)]
    show "\<exists>r'. audio_pop_frame r = (Some x, r') \<and> audio_frames r' = xs \<and> audio_wf r'"
      by (auto simp: audio_pop_frame_def audio_frames_def)
  next
    assume f: "frame_ok f"
    obtain e where e: "frame_of e = stored f" and c: "audio_contents (audio_ring_push f r)
        = (if length (audio_contents r) < 64 then audio_contents r else tl (audio_contents r)) @ [e]"
      using audio_push_ok(2) [OF wf f] by blast
    show "audio_wf (audio_ring_push f r)" by (rule audio_push_ok(1) [OF wf f])
    show "length (audio_frames r) < 64 \<Longrightarrow> audio_frames (audio_ring_push f r) = audio_frames r @ [stored f]"
      by (simp add: audio_frames_def c e)
    show "\<not> length (audio_frames r) < 64 \<Longrightarrow> audio_frames (audio_ring_push f r) = tl (audio_frames r) @ [stored f]"
      by (simp add: audio_frames_def c e map_tl)
  }
qed

lemma audio_frames_bound: "audio_wf r \<Longrightarrow> length (audio_frames r) \<le> 64"
  by (simp add: audio_frames_def audio_contents_def audio_wf_def)

text \<open>The drop counter: what went in is what came out, what is still there and what was dropped.\<close>

lemma audio_run_count:
  assumes "audio_wf r" and "run_ops audio_ring_push audio_pop_frame ops r = (out, r')" and "set (pushed ops) \<subseteq> Collect frame_ok"
  shows "ar_dropped r' + word_of_nat (length out) + word_of_nat (length (audio_frames r'))
    = ar_dropped r + word_of_nat (length (audio_frames r) + length (pushed ops))"
  using assms
proof (induction ops arbitrary: r out)
  case Nil
  then show ?case by simp
next
  case (Cons a ops)
  show ?case
  proof (cases a)
    case (Push f)
    with Cons.prems have run: "run_ops audio_ring_push audio_pop_frame ops (audio_ring_push f r) = (out, r')"
      and f: "frame_ok f" "set (pushed ops) \<subseteq> Collect frame_ok" by simp_all
    note IH = Cons.IH [OF audio_push_ok(1) [OF Cons.prems(1) f(1)] run f(2)]
    have len: "length (audio_contents r) = length (audio_frames r)" by (simp add: audio_frames_def)
    show ?thesis
    proof (cases "length (audio_frames r) < 64")
      case True
      with IH ar.push_room [OF Cons.prems(1) f(1)] audio_push_ok(3) [OF Cons.prems(1) f(1)] len Push
      show ?thesis by (simp add: algebra_simps)
    next
      case False
      then obtain y ys where "audio_frames r = y # ys" by (cases "audio_frames r") auto
      with False IH ar.push_full [OF Cons.prems(1) f(1)] audio_push_ok(3) [OF Cons.prems(1) f(1)] len Push
      show ?thesis by (simp add: algebra_simps)
    qed
  next
    case Pop
    show ?thesis
    proof (cases "audio_frames r")
      case Nil
      with ar.pop_empty [OF Cons.prems(1)] Cons Pop show ?thesis by (auto split: prod.splits)
    next
      case (Cons x xs)
      then obtain e es where c: "audio_contents r = e # es" "x = frame_of e" "xs = map frame_of es"
        by (auto simp: audio_frames_def)
      obtain r1 where r1: "audio_ring_pop r = (Some e, r1)" "audio_contents r1 = es" "audio_wf r1" "ar_dropped r1 = ar_dropped r"
        using audio_pop_ok(2) [OF Cons.prems(1) c(1)] by blast
      have "audio_pop_frame r = (Some x, r1)" using r1(1) c(2) by (simp add: audio_pop_frame_def)
      then obtain out' where o: "run_ops audio_ring_push audio_pop_frame ops r1 = (out', r')" "out = x # out'"
        using Cons.prems(2) Pop by (auto split: prod.splits)
      show ?thesis
        using Cons.IH [OF r1(3) o(1)] Cons.prems(3) Pop r1 o(2) c by (simp add: audio_frames_def algebra_simps)
    qed
  qed
qed

text \<open>Property C34. Whatever pushes and pops the capture thread and the recorder make on a new ring, what
  the recorder gets, followed by what is left, is in order a subsequence of the frames pushed (each
  cut to the slot size), and the drop counter accounts for exactly the missing ones.\<close>

theorem audio_ring_order_and_drops:
  assumes "run_ops audio_ring_push audio_pop_frame ops audio_ring_init = (out, r)"
    and "set (pushed ops) \<subseteq> Collect frame_ok"
  shows "subseq (out @ audio_frames r) (map stored (pushed ops))
    \<and> ar_dropped r = word_of_nat (length (pushed ops) - length (out @ audio_frames r))"
proof -
  have s: "subseq (out @ audio_frames r) (map stored (pushed ops))"
    using ar.run_subseq [OF audio_init_wf(1) assms] audio_init_wf(2) by (simp add: audio_frames_def)
  then have l: "length (out @ audio_frames r) \<le> length (pushed ops)" using list_emb_length by fastforce
  have "ar_dropped r = word_of_nat (length (pushed ops)) - word_of_nat (length (out @ audio_frames r))"
    using audio_run_count [OF audio_init_wf(1) assms] audio_init_wf(2)
    by (simp add: audio_frames_def audio_ring_init_def algebra_simps)
  also have "\<dots> = word_of_nat (length (pushed ops) - length (out @ audio_frames r))"
    using l by (simp add: of_nat_diff)
  finally show ?thesis using s by blast
qed

theorem audio_ring_order_and_drops_witness:
  "ar_dropped (snd (run_ops audio_ring_push audio_pop_frame [Push ([1, 2], 2, 10), Pop, Push ([3], 1, 20)] audio_ring_init)) = 0"
proof -
  let ?ops = "[Push ([1, 2], 2, 10), Pop, Push ([3], 1, 20)]"
  obtain out r where run: "run_ops audio_ring_push audio_pop_frame ?ops audio_ring_init = (out, r)" by fastforce
  then have "length (out @ audio_frames r) = 2"
    by (auto simp: audio_ring_init_def audio_ring_push_def audio_pop_frame_def audio_ring_pop_def audio_frames_def
        audio_contents_def fill_entry_def Let_def AUDIO_RING_CAPACITY_def AUDIO_RING_PCM_MAX_def window_def)
  moreover have "set (pushed ?ops) \<subseteq> Collect frame_ok" by (simp add: frame_ok_def)
  ultimately show ?thesis
    using audio_ring_order_and_drops [OF run] run by simp
qed

subsection \<open>The blocking pop\<close>

lemma signalled_step:
  "audio_wf r \<Longrightarrow> audio_frames r = [] \<Longrightarrow>
     audio_ring_pop_wait (Signalled fs # ws) r = audio_ring_pop_wait ws (fold audio_ring_push fs r)"
  using audio_pop_ok(1) [of r] by (subst audio_ring_pop_wait.simps) (simp add: audio_frames_def)

lemma ready_pop:
  assumes "audio_wf r" and "audio_frames r = x # xs"
  shows "\<exists>e r'. audio_ring_pop_wait ws r = (Popped e, r') \<and> frame_of e = x \<and> audio_frames r' = xs"
proof -
  obtain e es where "audio_contents r = e # es" "x = frame_of e" "xs = map frame_of es"
    using assms(2) by (auto simp: audio_frames_def)
  with audio_pop_ok(2) [OF assms(1) this(1)] show ?thesis
    by (subst audio_ring_pop_wait.simps) (auto simp: audio_frames_def)
qed

text \<open>A reader that waits on an empty ring returns with the oldest of the frames another
  thread pushes, however many empty wake-ups come first: of up to 64 frames the first, of more
  the first that was not evicted.\<close>

lemma audio_pop_wait_returns:
  assumes "audio_wf r" and "audio_frames r = []" and "fs \<noteq> []" and "set fs \<subseteq> Collect frame_ok"
  shows "\<exists>e r'. audio_ring_pop_wait (replicate n (Signalled []) @ Signalled fs # ws) r = (Popped e, r')
    \<and> frame_of e # audio_frames r' = drop (length fs - 64) (map stored fs)"
proof -
  have f: "audio_frames (fold audio_ring_push fs r) = drop (length fs - 64) (map stored fs)"
    and wf: "audio_wf (fold audio_ring_push fs r)"
    using ar.push_latest [where s = r and xs = fs] assms by auto
  obtain x xs where x: "drop (length fs - 64) (map stored fs) = x # xs"
    using assms(3) by (cases "drop (length fs - 64) (map stored fs)") (auto simp: Suc_le_eq [symmetric] neq_Nil_conv)
  have "\<exists>e r'. audio_ring_pop_wait (Signalled fs # ws) r = (Popped e, r') \<and> frame_of e # audio_frames r' = x # xs"
    using ready_pop [OF wf, of x xs ws] f x signalled_step [OF assms(1,2), of fs ws] by auto
  moreover have "audio_ring_pop_wait (replicate n (Signalled []) @ Signalled fs # ws) r = audio_ring_pop_wait (Signalled fs # ws) r"
    by (induction n) (simp_all add: signalled_step assms)
  ultimately show ?thesis by (simp add: x)
qed

lemma audio_pop_wait_returns_witness:
  "\<exists>e r'. audio_ring_pop_wait [Signalled [], Signalled [([7], 1, 9)]] audio_ring_init = (Popped e, r') \<and> frame_of e = ([7], 1, 9)"
  using audio_pop_wait_returns [of audio_ring_init "[([7], 1, 9)]" 1 "[]"] audio_init_wf
  by (force simp: audio_frames_def frame_ok_def stored_def AUDIO_RING_PCM_MAX_def)

text \<open>The deadline of the blocking pop is a valid time for waits up to a second; from two
  seconds on the nanoseconds are carried only once, the deadline is invalid, and
  \<open>pthread_cond_timedwait\<close> refuses it at once instead of waiting.\<close>

lemma pop_wait_deadline_valid:
  assumes "timespec_valid now" and "0 \<le> ms"
  shows "(ms \<le> 1000 \<longrightarrow> timespec_valid (pop_wait_deadline now ms)
      \<and> tv_sec (pop_wait_deadline now ms) * 1000000000 + tv_nsec (pop_wait_deadline now ms)
        = tv_sec now * 1000000000 + tv_nsec now + ms * 1000000)
    \<and> (2000 \<le> ms \<longrightarrow> \<not> timespec_valid (pop_wait_deadline now ms))"
  using assms by (auto simp: pop_wait_deadline_def timespec_valid_def Let_def)

lemma pop_wait_deadline_valid_witness:
  "timespec_valid (pop_wait_deadline \<lparr>tv_sec = 5, tv_nsec = 999999999\<rparr> 1000)"
  using pop_wait_deadline_valid [of "\<lparr>tv_sec = 5, tv_nsec = 999999999\<rparr>" 1000] by (simp add: timespec_valid_def)

subsection \<open>Motion rings\<close>

text \<open>\<open>ts_ge a b\<close>: the comparison both headers define.\<close>

definition ts_ge :: "timespec \<Rightarrow> timespec \<Rightarrow> bool" where
  "ts_ge a b = (if tv_sec a \<noteq> tv_sec b then tv_sec a > tv_sec b else tv_nsec a \<ge> tv_nsec b)"

definition IMU_RING_CAPACITY :: u32 where "IMU_RING_CAPACITY = 2048"

record 'f imu_sample =
  im_ts :: timespec
  im_gyro_x :: 'f
  im_gyro_y :: 'f
  im_gyro_z :: 'f
  im_accel_x :: 'f
  im_accel_y :: 'f
  im_accel_z :: 'f

text \<open>The two motion rings differ in the sample type only; \<open>'s\<close> is the sample, \<open>ts\<close> reads its time.\<close>

record 's motion_ring =
  mr_buf :: "'s list"
  mr_head :: u32
  mr_count :: u32

definition imu_ring_init :: "'s \<Rightarrow> 's motion_ring" where
  "imu_ring_init zero = \<lparr>mr_buf = replicate 2048 zero, mr_head = 0, mr_count = 0\<rparr>"

definition imu_ring_push :: "'s \<Rightarrow> 's motion_ring \<Rightarrow> 's motion_ring" where
  "imu_ring_push s r =
     (let r1 = r\<lparr>mr_buf := (mr_buf r)[unat (mr_head r) := s], mr_head := (mr_head r + 1) mod IMU_RING_CAPACITY\<rparr>
      in if mr_count r1 < IMU_RING_CAPACITY then r1\<lparr>mr_count := mr_count r1 + 1\<rparr> else r1)"

text \<open>The copy loop, from index \<open>i\<close> with \<open>n\<close> samples copied so far.\<close>

function read_loop :: "('s \<Rightarrow> timespec) \<Rightarrow> timespec \<Rightarrow> timespec \<Rightarrow> nat \<Rightarrow> 's motion_ring \<Rightarrow> u32 \<Rightarrow> nat \<Rightarrow> 's list \<Rightarrow> 's list" where
  "read_loop ts t0 t1 max_out r start i out =
     (if i < unat (mr_count r) \<and> length out < max_out then
        let s = mr_buf r ! unat ((start + word_of_nat i) mod IMU_RING_CAPACITY)
        in read_loop ts t0 t1 max_out r start (i + 1) (if ts_ge (ts s) t0 \<and> ts_ge t1 (ts s) then out @ [s] else out)
      else out)"
  by pat_completeness auto
termination by (relation "measure (\<lambda>(ts, t0, t1, max_out, r, start, i, out). unat (mr_count r) - i)") auto

declare read_loop.simps [simp del]

definition imu_ring_read_range ::
  "('s \<Rightarrow> timespec) \<Rightarrow> 's motion_ring \<Rightarrow> timespec \<Rightarrow> timespec \<Rightarrow> nat \<Rightarrow> 's list" where
  "imu_ring_read_range ts r t0 t1 max_out =
     (if mr_count r = 0 then []
      else let start = (if mr_count r < IMU_RING_CAPACITY then 0 else mr_head r)
           in read_loop ts t0 t1 max_out r start 0 [])"

text \<open>The samples in a ring, oldest first.\<close>

definition motion_start :: "'s motion_ring \<Rightarrow> u32" where
  "motion_start r = (if mr_count r < IMU_RING_CAPACITY then 0 else mr_head r)"

definition motion_samples :: "'s motion_ring \<Rightarrow> 's list" where
  "motion_samples r = window (mr_buf r) (unat (motion_start r)) (unat (mr_count r))"

definition motion_wf :: "'s motion_ring \<Rightarrow> bool" where
  "motion_wf r \<longleftrightarrow> length (mr_buf r) = 2048 \<and> unat (mr_count r) \<le> 2048 \<and> unat (mr_head r) < 2048
     \<and> (unat (mr_count r) < 2048 \<longrightarrow> mr_head r = mr_count r)"

lemma motion_init: "motion_wf (imu_ring_init z)" "motion_samples (imu_ring_init z) = []"
  by (simp_all add: motion_wf_def imu_ring_init_def motion_samples_def)

lemma motion_index:
  "unat st < 2048 \<Longrightarrow> i < 2048 \<Longrightarrow> unat ((st + word_of_nat i) mod IMU_RING_CAPACITY) = (unat st + i) mod 2048" for st :: u32
  by (simp add: IMU_RING_CAPACITY_def unat_mod unat_word_ariths unsigned_of_nat take_bit_nat_eq_self)

lemma motion_full: "mr_count r < IMU_RING_CAPACITY \<longleftrightarrow> unat (mr_count r) < 2048"
  by (simp add: IMU_RING_CAPACITY_def word_less_nat_alt)

lemma motion_push:
  assumes "motion_wf r"
  shows "motion_wf (imu_ring_push s r)"
    and "motion_samples (imu_ring_push s r) =
      (if length (motion_samples r) < 2048 then motion_samples r else tl (motion_samples r)) @ [s]"
proof -
  note w = assms [unfolded motion_wf_def]
  have head: "unat ((mr_head r + 1) mod IMU_RING_CAPACITY) = (unat (mr_head r) + 1) mod 2048"
    using motion_index [of "mr_head r" 1] w by simp
  have len: "length (motion_samples r) = unat (mr_count r)" by (simp add: motion_samples_def)
  have ne: "mr_buf r \<noteq> []" using w by auto
  have "motion_wf (imu_ring_push s r) \<and> motion_samples (imu_ring_push s r) =
      (if length (motion_samples r) < 2048 then motion_samples r else tl (motion_samples r)) @ [s]"
  proof (cases "unat (mr_count r) < 2048")
    case True
    have c: "unat (mr_count r + 1) = Suc (unat (mr_count r))" using True by (simp add: unat_Suc)
    have p: "imu_ring_push s r = r\<lparr>mr_buf := (mr_buf r)[unat (mr_count r) := s], mr_head := (mr_head r + 1) mod IMU_RING_CAPACITY,
        mr_count := mr_count r + 1\<rparr>"
      using True w by (simp add: imu_ring_push_def Let_def motion_full)
    have "(mr_head r + 1) mod IMU_RING_CAPACITY = mr_count r + 1" if "Suc (unat (mr_count r)) < 2048"
      using that True w head c by (intro word_unat_eq_iff [THEN iffD2]) simp
    then have wf: "motion_wf (imu_ring_push s r)" using True w head c by (auto simp: motion_wf_def p)
    have "mr_count r + 1 < IMU_RING_CAPACITY \<or> unat (mr_count r) = 2047"
      using True c by (auto simp: IMU_RING_CAPACITY_def word_less_nat_alt)
    then have "unat (motion_start (imu_ring_push s r)) = 0"
      using True w head by (auto simp: motion_start_def p)
    then show ?thesis
      using wf True w c window_push [of "unat (mr_count r)" "mr_buf r" 0 s]
      by (simp add: len motion_samples_def p motion_start_def motion_full)
  next
    case False
    then have c: "unat (mr_count r) = 2048" using w by simp
    have p: "imu_ring_push s r = r\<lparr>mr_buf := (mr_buf r)[unat (mr_head r) := s], mr_head := (mr_head r + 1) mod IMU_RING_CAPACITY\<rparr>"
      using False by (simp add: imu_ring_push_def Let_def motion_full)
    show ?thesis
      using c w head window_overwrite [of "mr_buf r" "unat (mr_head r)" s] ne
      by (simp add: len motion_samples_def motion_wf_def p motion_start_def motion_full)
  qed
  then show "motion_wf (imu_ring_push s r)" "motion_samples (imu_ring_push s r) =
      (if length (motion_samples r) < 2048 then motion_samples r else tl (motion_samples r)) @ [s]" by blast+
qed

lemma motion_pushes:
  "motion_wf (fold imu_ring_push ss (imu_ring_init z)) \<and>
   motion_samples (fold imu_ring_push ss (imu_ring_init z)) = drop (length ss - 2048) ss"
proof (induction ss rule: rev_induct)
  case Nil
  show ?case by (simp add: motion_init)
next
  case (snoc s ss)
  let ?r = "fold imu_ring_push ss (imu_ring_init z)"
  have wf: "motion_wf ?r" and m: "motion_samples ?r = drop (length ss - 2048) ss" using snoc by blast+
  have "(if length (motion_samples ?r) < 2048 then motion_samples ?r else tl (motion_samples ?r)) @ [s]
      = drop (length (ss @ [s]) - 2048) (ss @ [s])"
  proof (cases "length ss < 2048")
    case False
    then obtain k where k: "length ss = 2048 + k" using le_Suc_ex not_less by blast
    show ?thesis by (simp add: m k drop_Suc tl_drop)
  qed (simp add: m)
  with motion_push [OF wf, of s] show ?case by simp
qed

lemma read_loop_filter:
  assumes "motion_wf r" and "st = motion_start r" and "length out \<le> max_out" and "i \<le> unat (mr_count r)"
  shows "read_loop ts t0 t1 max_out r st i out =
    out @ take (max_out - length out) (filter (\<lambda>s. ts_ge (ts s) t0 \<and> ts_ge t1 (ts s)) (drop i (motion_samples r)))"
  using assms
proof (induction ts t0 t1 max_out r st i out rule: read_loop.induct)
  case (1 ts t0 t1 max_out r st i out)
  let ?P = "\<lambda>s. ts_ge (ts s) t0 \<and> ts_ge t1 (ts s)"
  show ?case
  proof (cases "i < unat (mr_count r) \<and> length out < max_out")
    case False
    then have "i = unat (mr_count r) \<or> max_out = length out" using 1(4,5) by linarith
    then have "out = out @ take (max_out - length out) (filter ?P (drop i (motion_samples r)))"
      by (auto simp: motion_samples_def)
    then show ?thesis using False by (subst read_loop.simps) (simp only: if_False if_True)
  next
    case True
    define s where "s = mr_buf r ! unat ((st + word_of_nat i) mod IMU_RING_CAPACITY)"
    have st: "unat st < 2048" using 1(2,3) by (auto simp: motion_start_def motion_wf_def)
    have "i < 2048" using True 1(2) by (auto simp: motion_wf_def)
    with motion_index [OF st this] True 1(2,3) have s: "s = motion_samples r ! i"
      by (auto simp: s_def motion_samples_def window_def motion_wf_def)
    have d: "drop i (motion_samples r) = s # drop (i + 1) (motion_samples r)"
      using True by (simp add: s Cons_nth_drop_Suc [symmetric] motion_samples_def)
    have "read_loop ts t0 t1 max_out r st i out = read_loop ts t0 t1 max_out r st (i + 1) (if ?P s then out @ [s] else out)"
      using True by (subst read_loop.simps) (simp add: s_def [symmetric])
    also have "\<dots> = (if ?P s then out @ [s] else out) @ take (max_out - length (if ?P s then out @ [s] else out))
        (filter ?P (drop (i + 1) (motion_samples r)))"
      using 1(1) [OF True, of s] 1(2-4) True by (simp add: s_def split del: if_split split: if_split)
    also have "\<dots> = out @ take (max_out - length out) (filter ?P (drop i (motion_samples r)))"
      using True by (auto simp: d Suc_diff_Suc [symmetric] take_Cons')
    finally show ?thesis .
  qed
qed

text \<open>A range query on a ring after any pushes returns, oldest first, the samples among the
  last 2048 pushed whose time is within the range, as many as the caller has room for.\<close>

lemma imu_read_range_spec:
  "imu_ring_read_range ts (fold imu_ring_push ss (imu_ring_init z)) t0 t1 max_out =
     take max_out (filter (\<lambda>s. ts_ge (ts s) t0 \<and> ts_ge t1 (ts s)) (drop (length ss - 2048) ss))"
proof -
  let ?r = "fold imu_ring_push ss (imu_ring_init z)"
  have wf: "motion_wf ?r" and m: "motion_samples ?r = drop (length ss - 2048) ss" using motion_pushes [of ss z] by auto
  show ?thesis
  proof (cases "mr_count ?r = 0")
    case True
    then have "motion_samples ?r = []" by (simp add: motion_samples_def)
    then have "drop (length ss - 2048) ss = []" by (simp only: m)
    then show ?thesis using True by (simp only: imu_ring_read_range_def if_True filter.simps take_Nil refl)
  next
    case False
    then show ?thesis
      using read_loop_filter [OF wf refl, of "[]" max_out 0 ts t0 t1]
      by (simp add: imu_ring_read_range_def m motion_start_def)
  qed
qed

subsection \<open>The gyro ring of the stabiliser\<close>

text \<open>\<open>include/eis_ring.h\<close> is the same ring over a smaller sample, with the same capacity.\<close>

record 'f eis_sample =
  es_ts :: timespec
  es_gyro_x :: 'f
  es_gyro_y :: 'f
  es_gyro_z :: 'f

definition eis_ring_init :: "'f eis_sample \<Rightarrow> 'f eis_sample motion_ring" where
  "eis_ring_init zero = imu_ring_init zero"

definition eis_ring_push :: "'f eis_sample \<Rightarrow> 'f eis_sample motion_ring \<Rightarrow> 'f eis_sample motion_ring" where
  "eis_ring_push s r = imu_ring_push s r"

definition eis_ring_read_range :: "'f eis_sample motion_ring \<Rightarrow> timespec \<Rightarrow> timespec \<Rightarrow> nat \<Rightarrow> 'f eis_sample list" where
  "eis_ring_read_range r t0 t1 max_out = imu_ring_read_range es_ts r t0 t1 max_out"

definition eis_ring_count :: "'f eis_sample motion_ring \<Rightarrow> u32" where
  "eis_ring_count r = mr_count r"

lemma eis_count_spec:
  "unat (eis_ring_count (fold eis_ring_push ss (eis_ring_init z))) = min (length ss) 2048"
proof -
  have f: "fold eis_ring_push ss (eis_ring_init z) = fold imu_ring_push ss (imu_ring_init z)"
    by (simp add: eis_ring_push_def [abs_def] eis_ring_init_def)
  have "length (motion_samples (fold imu_ring_push ss (imu_ring_init z))) = length ss - (length ss - 2048)"
    using motion_pushes [of ss z] by simp
  then show ?thesis unfolding f eis_ring_count_def by (simp add: motion_samples_def)
qed

end
