(* ===== verification/PipelineCommon.thy ===== *)
theory PipelineCommon imports CLib begin

text \<open>
  The arithmetic helpers of \<open>src/pipeline_common.c\<close>: GOP length, image clamping, exposure cap,
  centre crop and the graded QP of the ROI bands. Doubles are those of CLib.thy; the rounding of a
  double operation is the argument \<open>rnd\<close>. \<open>libmi_isp.so\<close> is an argument too.
\<close>

subsection \<open>GOP length\<close>

text \<open>
  Products and sums of doubles, and the conversion of a double to \<open>uint32_t\<close>. C leaves the
  conversion undefined out of range; the target's instruction (VCVT) saturates and turns NaN to 0.
\<close>

fun dbl_times_nat :: "(rat \<Rightarrow> rat) \<Rightarrow> dbl \<Rightarrow> nat \<Rightarrow> dbl" where
  "dbl_times_nat rnd (Fin a) n = Fin (rnd (a * of_nat n))"
| "dbl_times_nat rnd x n = (if n = 0 then NaN else x)"

fun dbl_plus_rat :: "(rat \<Rightarrow> rat) \<Rightarrow> dbl \<Rightarrow> rat \<Rightarrow> dbl" where
  "dbl_plus_rat rnd (Fin a) q = Fin (rnd (a + q))"
| "dbl_plus_rat rnd x q = x"

fun dbl_to_u32 :: "dbl \<Rightarrow> u32" where
  "dbl_to_u32 (Fin a) = (if a < 0 then 0 else if a \<ge> 4294967295 then 0xFFFFFFFF else word_of_int \<lfloor>a\<rfloor>)"
| "dbl_to_u32 PInf = 0xFFFFFFFF"
| "dbl_to_u32 NInf = 0"
| "dbl_to_u32 NaN = 0"

definition dbl_le_0 :: "dbl \<Rightarrow> bool" where
  "dbl_le_0 x \<longleftrightarrow> dbl_lt x (Fin 0) \<or> x = Fin 0"

definition pipeline_common_gop_frames :: "(rat \<Rightarrow> rat) \<Rightarrow> dbl \<Rightarrow> u32 \<Rightarrow> u32" where
  "pipeline_common_gop_frames rnd gop_seconds fps =
     (let gop_fps = (if fps \<noteq> 0 then fps else 30) in
      if dbl_le_0 gop_seconds then 1
      else let gop_frames = dbl_to_u32 (dbl_plus_rat rnd (dbl_times_nat rnd gop_seconds (unat gop_fps)) (1 / 2))
           in if gop_frames < 1 then 1 else gop_frames)"

lemma gop_frames_positive: "1 \<le> pipeline_common_gop_frames rnd s fps"
proof -
  have "w < 1 \<or> 1 \<le> w" for w :: u32 by (meson not_le)
  then show ?thesis by (auto simp: pipeline_common_gop_frames_def Let_def)
qed

subsection \<open>Sizes and QP\<close>

definition pipeline_common_clamp_image_size :: "u32 \<Rightarrow> u32 \<Rightarrow> u32 \<times> u32 \<Rightarrow> u32 \<times> u32" where
  "pipeline_common_clamp_image_size max_width max_height sz =
     (case sz of (w, h) \<Rightarrow> (if w > max_width then max_width else w, if h > max_height then max_height else h))"

text \<open>C's division truncates; \<open>abs\<close> of \<open>INT_MIN\<close> does not arise (the QP is within -30..30).\<close>

definition pipeline_common_scale_roi_qp :: "int \<Rightarrow> int \<Rightarrow> int \<Rightarrow> int" where
  "pipeline_common_scale_roi_qp qp level steps =
     (if steps < 1 \<or> level < 1 \<or> level > steps then 0
      else let mag = (\<bar>qp\<bar> * level + steps div 2) div steps in if qp < 0 then - mag else mag)"

text \<open>The bands are graded: the innermost has the full QP, and no band more than the next one inwards.\<close>

lemma scale_roi_qp_graded:
  assumes "1 \<le> level" and "level \<le> steps"
  shows "\<bar>pipeline_common_scale_roi_qp qp level steps\<bar> \<le> \<bar>qp\<bar>"
    and "pipeline_common_scale_roi_qp qp steps steps = qp"
    and "level < steps \<Longrightarrow> \<bar>pipeline_common_scale_roi_qp qp level steps\<bar> \<le> \<bar>pipeline_common_scale_roi_qp qp (level + 1) steps\<bar>"
    and "0 \<le> pipeline_common_scale_roi_qp qp level steps * qp"
proof -
  let ?m = "\<lambda>l. (\<bar>qp\<bar> * l + steps div 2) div steps"
  have pos: "0 < steps" using assms by simp
  have nonneg: "0 \<le> ?m l" if "0 \<le> l" for l using that pos by (simp add: pos_imp_zdiv_nonneg_iff)
  have mono: "?m l \<le> ?m l'" if "l \<le> l'" for l l'
    using that pos by (intro zdiv_mono1) (auto intro: mult_left_mono)
  have full: "?m steps = \<bar>qp\<bar>"
  proof -
    have "?m steps = \<bar>qp\<bar> + (steps div 2) div steps" using pos by (simp add: add.commute)
    moreover have "(steps div 2) div steps = 0" using pos by (intro div_pos_pos_trivial) auto
    ultimately show ?thesis by simp
  qed
  have abs: "\<bar>pipeline_common_scale_roi_qp qp l steps\<bar> = ?m l" if "1 \<le> l" "l \<le> steps" for l
    using that nonneg [of l] by (auto simp: pipeline_common_scale_roi_qp_def Let_def)
  show "\<bar>pipeline_common_scale_roi_qp qp level steps\<bar> \<le> \<bar>qp\<bar>" using abs assms mono full by metis
  show "pipeline_common_scale_roi_qp qp steps steps = qp" using full pos by (auto simp: pipeline_common_scale_roi_qp_def Let_def)
  show "level < steps \<Longrightarrow> \<bar>pipeline_common_scale_roi_qp qp level steps\<bar> \<le> \<bar>pipeline_common_scale_roi_qp qp (level + 1) steps\<bar>"
    using abs [of level] abs [of "level + 1"] assms mono [of level "level + 1"] by simp
  show "0 \<le> pipeline_common_scale_roi_qp qp level steps * qp"
    using nonneg [of level] assms by (auto simp: pipeline_common_scale_roi_qp_def Let_def mult_nonneg_nonneg mult_nonneg_nonpos)
qed

subsection \<open>Centre crop\<close>

record precrop_rect =
  pr_x :: u16
  pr_y :: u16
  pr_w :: u16
  pr_h :: u16

definition pipeline_common_compute_precrop :: "u32 \<Rightarrow> u32 \<Rightarrow> u32 \<Rightarrow> u32 \<Rightarrow> precrop_rect" where
  "pipeline_common_compute_precrop sensor_w sensor_h image_w image_h =
     (let sensor_ar = (ucast sensor_w * ucast image_h :: u64);
          image_ar = (ucast image_w * ucast sensor_h :: u64);
          rect = \<lparr>pr_x = 0, pr_y = 0, pr_w = ucast sensor_w, pr_h = ucast sensor_h\<rparr>
      in if sensor_ar > image_ar then
           let w = ucast ((sensor_h * image_w div image_h) AND NOT 1) :: u16
           in rect\<lparr>pr_h := ucast sensor_h, pr_w := w, pr_x := ucast (((sensor_w - ucast w) div 2) AND NOT 1), pr_y := 0\<rparr>
         else if sensor_ar < image_ar then
           let h = ucast ((sensor_w * image_h div image_w) AND NOT 1) :: u16
           in rect\<lparr>pr_w := ucast sensor_w, pr_h := h, pr_x := 0, pr_y := ucast (((sensor_h - ucast h) div 2) AND NOT 1)\<rparr>
         else rect)"

lemma unat_and_not_1: "unat (w AND NOT 1) = 2 * (unat w div 2)" for w :: u32
proof -
  have "w AND NOT 1 = push_bit 1 (drop_bit 1 w)" using and_not_mask_word [of w 1] by (simp add: mask_eq_exp_minus_1)
  moreover have "unat (drop_bit 1 w) = unat w div 2" using unat_drop_bit [of 1 w] by simp
  moreover have "2 * (unat w div 2) < 2 ^ 32" using unat_lt_word [of w] by simp
  ultimately show ?thesis by (simp add: push_bit_eq_mult unat_word_ariths mult.commute)
qed

text \<open>Both branches crop one dimension to an even size and centre it on an even offset.\<close>

lemma crop_dimension:
  fixes s t a b :: u32
  assumes "unat s \<le> 65535" "unat t \<le> 65535" "unat a \<le> 65535" "unat b \<le> 65535"
    and "unat t * unat a < unat s * unat b"
  defines "w \<equiv> ucast ((t * a div b) AND NOT 1) :: u16"
  defines "x \<equiv> ucast (((s - ucast w) div 2) AND NOT 1) :: u16"
  shows "even (unat w)" "even (unat x)" "unat x + unat w \<le> unat s"
    "unat w * unat b \<le> unat t * unat a" "unat t * unat a < (unat w + 2) * unat b"
    "2 * unat x + unat w \<le> unat s" "unat s < 2 * unat x + unat w + 4"
proof -
  let ?q = "unat t * unat a div unat b"
  have b: "0 < unat b" using assms(5) by (cases "unat b") auto
  have p: "unat t * unat a \<le> 65535 * 65535" using assms(2,3) by (intro mult_le_mono) auto
  have q: "unat (t * a div b) = ?q" using p by (simp add: unat_div unat_word_ariths)
  have qs: "?q < unat s" using assms(5) b by (simp add: less_mult_imp_div_less)
  have u: "unat (ucast v :: u16) = unat v" if "unat v \<le> 65535" for v :: u32
    using that by (simp add: unat_ucast_mod)
  have w: "unat w = 2 * (?q div 2)"
    unfolding w_def using qs assms(1) unat_and_not_1 [of "t * a div b"] q by (subst u) auto
  have ws: "unat w < unat s" using w qs by linarith
  have uw: "unat (ucast w :: u32) = unat w" by (rule unat_ucast_widen) simp
  have d: "unat ((s - ucast w) div 2) = (unat s - unat w) div 2"
    using ws uw by (simp add: unat_div unat_diff_le word_le_nat_alt)
  have x: "unat x = 2 * ((unat s - unat w) div 2 div 2)"
    unfolding x_def using assms(1) unat_and_not_1 [of "(s - ucast w) div 2"] d by (subst u) auto
  show "even (unat w)" "even (unat x)" by (simp_all add: w x)
  show "unat x + unat w \<le> unat s" "2 * unat x + unat w \<le> unat s" "unat s < 2 * unat x + unat w + 4"
    using ws by (auto simp: x)
  have "?q * unat b \<le> unat t * unat a" by simp
  moreover have "unat w * unat b \<le> ?q * unat b" by (intro mult_le_mono1) (simp add: w)
  ultimately show "unat w * unat b \<le> unat t * unat a" by linarith
  have "unat t * unat a < (?q + 1) * unat b" using b by (simp add: dividend_less_div_times)
  moreover have "(?q + 1) * unat b \<le> (unat w + 2) * unat b" by (intro mult_le_mono1) (simp add: w)
  ultimately show "unat t * unat a < (unat w + 2) * unat b" by linarith
qed

text \<open>The aspect ratios are compared in 64 bits, without wrap-around.\<close>

lemma unat_ratio: "unat (ucast a * ucast b :: u64) = unat a * unat b" for a b :: u32
proof -
  have "unat a * unat b < 2 ^ 32 * 2 ^ 32" using unat_lt_word [of a] unat_lt_word [of b] by (intro mult_strict_mono) auto
  moreover have "unat (ucast a :: u64) = unat a" "unat (ucast b :: u64) = unat b" by (simp_all add: unat_ucast_widen)
  ultimately show ?thesis by (simp add: unat_word_ariths)
qed

text \<open>Property C35. For a sensor and an image of at most 65535 pixels a side, the crop rectangle lies in the
  sensor, spans it in one dimension, is even and centred to within four pixels in the other, and
  has the image's aspect ratio to within two pixels.\<close>

theorem precrop_fits:
  assumes "unat sw \<le> 65535" "unat sh \<le> 65535" "unat iw \<le> 65535" "unat ih \<le> 65535"
    and "r = pipeline_common_compute_precrop sw sh iw ih"
  shows "unat (pr_x r) + unat (pr_w r) \<le> unat sw \<and> unat (pr_y r) + unat (pr_h r) \<le> unat sh
    \<and> unat (pr_w r) * unat ih \<le> unat iw * unat (pr_h r) + 2 * unat iw
    \<and> unat iw * unat (pr_h r) \<le> unat (pr_w r) * unat ih + 2 * unat ih
    \<and> unat sw < 2 * unat (pr_x r) + unat (pr_w r) + 4 \<and> unat sh < 2 * unat (pr_y r) + unat (pr_h r) + 4
    \<and> (pr_w r = ucast sw \<and> pr_x r = 0 \<or> pr_h r = ucast sh \<and> pr_y r = 0)
    \<and> (pr_w r = ucast sw \<and> pr_x r = 0 \<or> even (unat (pr_w r)) \<and> even (unat (pr_x r)))
    \<and> (pr_h r = ucast sh \<and> pr_y r = 0 \<or> even (unat (pr_h r)) \<and> even (unat (pr_y r)))"
proof -
  have u: "unat (ucast sw :: u16) = unat sw" "unat (ucast sh :: u16) = unat sh"
    using assms(1,2) by (simp_all add: unat_ucast_mod)
  have cmp: "ucast iw * ucast sh < (ucast sw * ucast ih :: u64) \<longleftrightarrow> unat iw * unat sh < unat sw * unat ih"
    "ucast sw * ucast ih < (ucast iw * ucast sh :: u64) \<longleftrightarrow> unat sw * unat ih < unat iw * unat sh"
    by (simp_all only: word_less_nat_alt unat_ratio)
  consider (wide) "unat iw * unat sh < unat sw * unat ih" | (tall) "unat sw * unat ih < unat iw * unat sh"
    | (same) "unat sw * unat ih = unat iw * unat sh" by linarith
  then show ?thesis
  proof cases
    case wide
    then have "unat sh * unat iw < unat sw * unat ih" by (simp add: mult.commute)
    from crop_dimension [OF assms(1,2,3,4) this] wide cmp u show ?thesis
      by (simp add: assms(5) pipeline_common_compute_precrop_def Let_def algebra_simps)
  next
    case tall
    then have "unat sw * unat ih < unat sh * unat iw" by (simp add: mult.commute)
    from crop_dimension [OF assms(2,1,4,3) this] tall cmp u show ?thesis
      by (simp add: assms(5) pipeline_common_compute_precrop_def Let_def algebra_simps)
  next
    case same
    then show ?thesis using cmp u by (simp add: assms(5) pipeline_common_compute_precrop_def Let_def mult.commute)
  qed
qed

theorem precrop_fits_witness:
  "let r = pipeline_common_compute_precrop 2688 1520 1920 1080 in unat (pr_x r) + unat (pr_w r) \<le> 2688
     \<and> (pr_w r = 2688 \<and> pr_x r = 0 \<or> even (unat (pr_w r)) \<and> even (unat (pr_x r)))"
  using precrop_fits [of 2688 1520 1920 1080] by (simp add: Let_def)

subsection \<open>Exposure cap\<close>

record isp_exposure_limit =
  il_min_shutter_us :: u32
  il_max_shutter_us :: u32
  il_min_apert_x10 :: u32
  il_max_apert_x10 :: u32
  il_min_sensor_gain :: u32
  il_min_isp_gain :: u32
  il_max_sensor_gain :: u32
  il_max_isp_gain :: u32

definition SYNTHETIC_MAX_GAIN :: u32 where "SYNTHETIC_MAX_GAIN = 500000"

text \<open>
  The ISP library: whether it and its two functions are found, the answers of the successive
  \<open>GetExposureLimit\<close> calls, and the answer of the one \<open>SetExposureLimit\<close> call.
\<close>

record isp_library =
  lib_found :: bool
  fns_found :: bool
  get_answers :: "nat \<Rightarrow> int \<times> isp_exposure_limit"
  set_answer :: "isp_exposure_limit \<Rightarrow> int"

definition unpopulated :: "isp_exposure_limit \<Rightarrow> bool" where
  "unpopulated c \<longleftrightarrow> il_max_shutter_us c = 0 \<and> il_max_sensor_gain c = 0"

text \<open>The poll: at most \<open>n\<close> further calls, \<open>k\<close> the number of the next one.\<close>

primrec poll_limits :: "isp_library \<Rightarrow> nat \<Rightarrow> nat \<Rightarrow> isp_exposure_limit \<Rightarrow> int + isp_exposure_limit" where
  "poll_limits lib 0 k c = Inr c"
| "poll_limits lib (Suc n) k c =
     (case get_answers lib k of (ret, c') \<Rightarrow>
        if ret \<noteq> 0 then Inl ret
        else if \<not> unpopulated c' then Inr c'
        else poll_limits lib n (k + 1) c')"

text \<open>The result code, and the limits handed to \<open>SetExposureLimit\<close>, if it was called.\<close>

definition pipeline_common_cap_exposure_for_fps ::
  "isp_library \<Rightarrow> u32 \<Rightarrow> u32 \<Rightarrow> int \<times> isp_exposure_limit option" where
  "pipeline_common_cap_exposure_for_fps lib fps user_cap_us =
     (if fps = 0 \<and> user_cap_us = 0 then (0, None)
      else if \<not> lib_found lib then (-1, None)
      else if \<not> fns_found lib then (-1, None)
      else case get_answers lib 0 of (ret, config) \<Rightarrow>
        if ret \<noteq> 0 then (ret, None)
        else case (if unpopulated config then poll_limits lib 50 1 config else Inr config) of
          Inl ret \<Rightarrow> (ret, None)
        | Inr config \<Rightarrow>
            let config1 = (if unpopulated config
                  then config\<lparr>il_max_shutter_us := 1000000, il_max_sensor_gain := SYNTHETIC_MAX_GAIN,
                              il_max_isp_gain := SYNTHETIC_MAX_GAIN\<rparr>
                  else config);
                target_us = (if user_cap_us > 0 then user_cap_us else 1000000 div fps);
                config2 = config1\<lparr>il_max_shutter_us := target_us\<rparr>
            in (set_answer lib config2, Some config2))"

text \<open>Whatever the ISP answers, limits that are set have the requested shutter time and a gain ceiling.\<close>

lemma cap_exposure_sets:
  assumes "pipeline_common_cap_exposure_for_fps lib fps cap = (rc, Some c)"
  shows "il_max_shutter_us c = (if cap > 0 then cap else 1000000 div fps)"
    and "rc = set_answer lib c"
    and "cap = 0 \<Longrightarrow> 0 < fps \<Longrightarrow> unat (il_max_shutter_us c) * unat fps \<le> 1000000"
proof -
  show m: "il_max_shutter_us c = (if cap > 0 then cap else 1000000 div fps)"
    using assms by (auto simp: pipeline_common_cap_exposure_for_fps_def Let_def split: if_splits prod.splits sum.splits)
  show "rc = set_answer lib c"
    using assms by (auto simp: pipeline_common_cap_exposure_for_fps_def Let_def split: if_splits prod.splits sum.splits)
  show "cap = 0 \<Longrightarrow> 0 < fps \<Longrightarrow> unat (il_max_shutter_us c) * unat fps \<le> 1000000"
    by (simp add: m unat_div)
qed

end
