(* ===== verification/ApiFields.thy ===== *)
theory ApiFields imports Config PipelineCommon begin

text \<open>
  The settings table of \<open>src/venc_api.c\<close>: every field of the configuration by its dotted name, its
  type, whether a change applies live, and where it is stored; the aliases; parsing a value into a
  field, printing it, and the per-field and per-backend validation. The \<open>offset\<close> of a row is a pair
  of a getter and a setter of the configuration record. \<open>strtod\<close>, the conversion to \<open>float\<close>, the
  \<open>%g\<close> conversions and the library's JSON string printer are arguments.
\<close>

subsection \<open>The table\<close>

datatype mutability = MUT_LIVE | MUT_RESTART

datatype slot =
    SlotBool "venc_config \<Rightarrow> bool" "bool \<Rightarrow> venc_config \<Rightarrow> venc_config"
  | SlotInt "venc_config \<Rightarrow> int" "int \<Rightarrow> venc_config \<Rightarrow> venc_config"
  | SlotU32 "venc_config \<Rightarrow> u32" "u32 \<Rightarrow> venc_config \<Rightarrow> venc_config"
  | SlotU8 "venc_config \<Rightarrow> u8" "u8 \<Rightarrow> venc_config \<Rightarrow> venc_config"
  | SlotU16 "venc_config \<Rightarrow> u16" "u16 \<Rightarrow> venc_config \<Rightarrow> venc_config"
  | SlotDouble "venc_config \<Rightarrow> dbl" "dbl \<Rightarrow> venc_config \<Rightarrow> venc_config"
  | SlotFloat "venc_config \<Rightarrow> dbl" "dbl \<Rightarrow> venc_config \<Rightarrow> venc_config"
  | SlotString "venc_config \<Rightarrow> string" "string \<Rightarrow> venc_config \<Rightarrow> venc_config" nat
  | SlotSize "venc_config \<Rightarrow> u32 \<times> u32" "u32 \<times> u32 \<Rightarrow> venc_config \<Rightarrow> venc_config"

record field_desc =
  fd_key :: string
  fd_mut :: mutability
  fd_slot :: slot

definition field :: "string \<Rightarrow> mutability \<Rightarrow> slot \<Rightarrow> field_desc" where
  "field k m s = \<lparr>fd_key = k, fd_mut = m, fd_slot = s\<rparr>"

definition g_fields :: "field_desc list" where
  "g_fields =
    [field ''system.web_port'' MUT_RESTART (SlotU16 (sys_web_port \<circ> c_system) (\<lambda>v. c_system_update (sys_web_port_update (\<lambda>_. v)))),
     field ''system.overclock_level'' MUT_RESTART (SlotInt (sys_overclock_level \<circ> c_system) (\<lambda>v. c_system_update (sys_overclock_level_update (\<lambda>_. v)))),
     field ''system.verbose'' MUT_LIVE (SlotBool (sys_verbose \<circ> c_system) (\<lambda>v. c_system_update (sys_verbose_update (\<lambda>_. v)))),
     field ''sensor.index'' MUT_RESTART (SlotInt (sen_index \<circ> c_sensor) (\<lambda>v. c_sensor_update (sen_index_update (\<lambda>_. v)))),
     field ''sensor.mode'' MUT_RESTART (SlotInt (sen_mode \<circ> c_sensor) (\<lambda>v. c_sensor_update (sen_mode_update (\<lambda>_. v)))),
     field ''sensor.unlock_enabled'' MUT_RESTART (SlotBool (sen_unlock_enabled \<circ> c_sensor) (\<lambda>v. c_sensor_update (sen_unlock_enabled_update (\<lambda>_. v)))),
     field ''sensor.unlock_cmd'' MUT_RESTART (SlotU32 (sen_unlock_cmd \<circ> c_sensor) (\<lambda>v. c_sensor_update (sen_unlock_cmd_update (\<lambda>_. v)))),
     field ''sensor.unlock_reg'' MUT_RESTART (SlotU16 (sen_unlock_reg \<circ> c_sensor) (\<lambda>v. c_sensor_update (sen_unlock_reg_update (\<lambda>_. v)))),
     field ''sensor.unlock_value'' MUT_RESTART (SlotU16 (sen_unlock_value \<circ> c_sensor) (\<lambda>v. c_sensor_update (sen_unlock_value_update (\<lambda>_. v)))),
     field ''sensor.unlock_dir'' MUT_RESTART (SlotInt (sen_unlock_dir \<circ> c_sensor) (\<lambda>v. c_sensor_update (sen_unlock_dir_update (\<lambda>_. v)))),
     field ''isp.sensor_bin'' MUT_RESTART (SlotString (isp_sensor_bin \<circ> c_isp) (\<lambda>v. c_isp_update (isp_sensor_bin_update (\<lambda>_. v))) 256),
     field ''isp.exposure'' MUT_LIVE (SlotU32 (isp_exposure \<circ> c_isp) (\<lambda>v. c_isp_update (isp_exposure_update (\<lambda>_. v)))),
     field ''isp.gain_max'' MUT_LIVE (SlotU32 (isp_gain_max \<circ> c_isp) (\<lambda>v. c_isp_update (isp_gain_max_update (\<lambda>_. v)))),
     field ''isp.awb_mode'' MUT_LIVE (SlotString (isp_awb_mode \<circ> c_isp) (\<lambda>v. c_isp_update (isp_awb_mode_update (\<lambda>_. v))) 16),
     field ''isp.awb_ct'' MUT_LIVE (SlotU32 (isp_awb_ct \<circ> c_isp) (\<lambda>v. c_isp_update (isp_awb_ct_update (\<lambda>_. v)))),
     field ''image.mirror'' MUT_RESTART (SlotBool (img_mirror \<circ> c_image) (\<lambda>v. c_image_update (img_mirror_update (\<lambda>_. v)))),
     field ''image.flip'' MUT_RESTART (SlotBool (img_flip \<circ> c_image) (\<lambda>v. c_image_update (img_flip_update (\<lambda>_. v)))),
     field ''image.rotate'' MUT_RESTART (SlotInt (img_rotate \<circ> c_image) (\<lambda>v. c_image_update (img_rotate_update (\<lambda>_. v)))),
     field ''video0.codec'' MUT_RESTART (SlotString (vid_codec \<circ> c_video0) (\<lambda>v. c_video0_update (vid_codec_update (\<lambda>_. v))) 16),
     field ''video0.rc_mode'' MUT_RESTART (SlotString (vid_rc_mode \<circ> c_video0) (\<lambda>v. c_video0_update (vid_rc_mode_update (\<lambda>_. v))) 16),
     field ''video0.fps'' MUT_LIVE (SlotU32 (vid_fps \<circ> c_video0) (\<lambda>v. c_video0_update (vid_fps_update (\<lambda>_. v)))),
     field ''video0.size'' MUT_RESTART (SlotSize (\<lambda>c. (vid_width (c_video0 c), vid_height (c_video0 c)))
       (\<lambda>(w, h). c_video0_update (\<lambda>v. v\<lparr>vid_width := w, vid_height := h\<rparr>))),
     field ''video0.bitrate'' MUT_LIVE (SlotU32 (vid_bitrate \<circ> c_video0) (\<lambda>v. c_video0_update (vid_bitrate_update (\<lambda>_. v)))),
     field ''video0.gop_size'' MUT_LIVE (SlotDouble (vid_gop_size \<circ> c_video0) (\<lambda>v. c_video0_update (vid_gop_size_update (\<lambda>_. v)))),
     field ''video0.qp_delta'' MUT_LIVE (SlotInt (vid_qp_delta \<circ> c_video0) (\<lambda>v. c_video0_update (vid_qp_delta_update (\<lambda>_. v)))),
     field ''video0.frame_lost'' MUT_RESTART (SlotBool (vid_frame_lost \<circ> c_video0) (\<lambda>v. c_video0_update (vid_frame_lost_update (\<lambda>_. v)))),
     field ''outgoing.enabled'' MUT_LIVE (SlotBool (out_enabled \<circ> c_outgoing) (\<lambda>v. c_outgoing_update (out_enabled_update (\<lambda>_. v)))),
     field ''outgoing.server'' MUT_LIVE (SlotString (out_server \<circ> c_outgoing) (\<lambda>v. c_outgoing_update (out_server_update (\<lambda>_. v))) 256),
     field ''outgoing.stream_mode'' MUT_RESTART (SlotString (out_stream_mode \<circ> c_outgoing) (\<lambda>v. c_outgoing_update (out_stream_mode_update (\<lambda>_. v))) 16),
     field ''outgoing.max_payload_size'' MUT_RESTART (SlotU16 (out_max_payload_size \<circ> c_outgoing) (\<lambda>v. c_outgoing_update (out_max_payload_size_update (\<lambda>_. v)))),
     field ''outgoing.connected_udp'' MUT_RESTART (SlotBool (out_connected_udp \<circ> c_outgoing) (\<lambda>v. c_outgoing_update (out_connected_udp_update (\<lambda>_. v)))),
     field ''outgoing.audio_port'' MUT_RESTART (SlotU16 (out_audio_port \<circ> c_outgoing) (\<lambda>v. c_outgoing_update (out_audio_port_update (\<lambda>_. v)))),
     field ''outgoing.sidecar_port'' MUT_RESTART (SlotU16 (out_sidecar_port \<circ> c_outgoing) (\<lambda>v. c_outgoing_update (out_sidecar_port_update (\<lambda>_. v)))),
     field ''isp.legacy_ae'' MUT_RESTART (SlotBool (isp_legacy_ae \<circ> c_isp) (\<lambda>v. c_isp_update (isp_legacy_ae_update (\<lambda>_. v)))),
     field ''isp.ae_fps'' MUT_RESTART (SlotU32 (isp_ae_fps \<circ> c_isp) (\<lambda>v. c_isp_update (isp_ae_fps_update (\<lambda>_. v)))),
     field ''audio.enabled'' MUT_RESTART (SlotBool (aud_enabled \<circ> c_audio) (\<lambda>v. c_audio_update (aud_enabled_update (\<lambda>_. v)))),
     field ''audio.sample_rate'' MUT_RESTART (SlotU32 (aud_sample_rate \<circ> c_audio) (\<lambda>v. c_audio_update (aud_sample_rate_update (\<lambda>_. v)))),
     field ''audio.channels'' MUT_RESTART (SlotU32 (aud_channels \<circ> c_audio) (\<lambda>v. c_audio_update (aud_channels_update (\<lambda>_. v)))),
     field ''audio.codec'' MUT_RESTART (SlotString (aud_codec \<circ> c_audio) (\<lambda>v. c_audio_update (aud_codec_update (\<lambda>_. v))) 16),
     field ''audio.volume'' MUT_RESTART (SlotInt (aud_volume \<circ> c_audio) (\<lambda>v. c_audio_update (aud_volume_update (\<lambda>_. v)))),
     field ''audio.mute'' MUT_LIVE (SlotBool (aud_mute \<circ> c_audio) (\<lambda>v. c_audio_update (aud_mute_update (\<lambda>_. v)))),
     field ''fpv.roi_enabled'' MUT_LIVE (SlotBool (fpv_roi_enabled \<circ> c_fpv) (\<lambda>v. c_fpv_update (fpv_roi_enabled_update (\<lambda>_. v)))),
     field ''fpv.roi_qp'' MUT_LIVE (SlotInt (fpv_roi_qp \<circ> c_fpv) (\<lambda>v. c_fpv_update (fpv_roi_qp_update (\<lambda>_. v)))),
     field ''fpv.roi_steps'' MUT_LIVE (SlotU16 (fpv_roi_steps \<circ> c_fpv) (\<lambda>v. c_fpv_update (fpv_roi_steps_update (\<lambda>_. v)))),
     field ''fpv.roi_center'' MUT_LIVE (SlotDouble (fpv_roi_center \<circ> c_fpv) (\<lambda>v. c_fpv_update (fpv_roi_center_update (\<lambda>_. v)))),
     field ''fpv.noise_level'' MUT_RESTART (SlotInt (fpv_noise_level \<circ> c_fpv) (\<lambda>v. c_fpv_update (fpv_noise_level_update (\<lambda>_. v)))),
     field ''imu.enabled'' MUT_RESTART (SlotBool (imu_enabled \<circ> c_imu) (\<lambda>v. c_imu_update (imu_enabled_update (\<lambda>_. v)))),
     field ''imu.i2c_device'' MUT_RESTART (SlotString (imu_i2c_device \<circ> c_imu) (\<lambda>v. c_imu_update (imu_i2c_device_update (\<lambda>_. v))) 256),
     field ''imu.i2c_addr'' MUT_RESTART (SlotU8 (imu_i2c_addr \<circ> c_imu) (\<lambda>v. c_imu_update (imu_i2c_addr_update (\<lambda>_. v)))),
     field ''imu.sample_rate_hz'' MUT_RESTART (SlotInt (imu_sample_rate_hz \<circ> c_imu) (\<lambda>v. c_imu_update (imu_sample_rate_hz_update (\<lambda>_. v)))),
     field ''imu.gyro_range_dps'' MUT_RESTART (SlotInt (imu_gyro_range_dps \<circ> c_imu) (\<lambda>v. c_imu_update (imu_gyro_range_dps_update (\<lambda>_. v)))),
     field ''imu.cal_file'' MUT_RESTART (SlotString (imu_cal_file \<circ> c_imu) (\<lambda>v. c_imu_update (imu_cal_file_update (\<lambda>_. v))) 256),
     field ''imu.cal_samples'' MUT_RESTART (SlotInt (imu_cal_samples \<circ> c_imu) (\<lambda>v. c_imu_update (imu_cal_samples_update (\<lambda>_. v)))),
     field ''eis.enabled'' MUT_RESTART (SlotBool (eis_enabled \<circ> c_eis) (\<lambda>v. c_eis_update (eis_enabled_update (\<lambda>_. v)))),
     field ''eis.mode'' MUT_RESTART (SlotString (eis_mode \<circ> c_eis) (\<lambda>v. c_eis_update (eis_mode_update (\<lambda>_. v))) 16),
     field ''eis.margin_percent'' MUT_RESTART (SlotInt (eis_margin_percent \<circ> c_eis) (\<lambda>v. c_eis_update (eis_margin_percent_update (\<lambda>_. v)))),
     field ''eis.test_mode'' MUT_RESTART (SlotBool (eis_test_mode \<circ> c_eis) (\<lambda>v. c_eis_update (eis_test_mode_update (\<lambda>_. v)))),
     field ''eis.swap_xy'' MUT_RESTART (SlotBool (eis_swap_xy \<circ> c_eis) (\<lambda>v. c_eis_update (eis_swap_xy_update (\<lambda>_. v)))),
     field ''eis.invert_x'' MUT_RESTART (SlotBool (eis_invert_x \<circ> c_eis) (\<lambda>v. c_eis_update (eis_invert_x_update (\<lambda>_. v)))),
     field ''eis.invert_y'' MUT_RESTART (SlotBool (eis_invert_y \<circ> c_eis) (\<lambda>v. c_eis_update (eis_invert_y_update (\<lambda>_. v)))),
     field ''eis.gain'' MUT_RESTART (SlotFloat (eis_gain \<circ> c_eis) (\<lambda>v. c_eis_update (eis_gain_update (\<lambda>_. v)))),
     field ''eis.deadband_rad'' MUT_RESTART (SlotFloat (eis_deadband_rad \<circ> c_eis) (\<lambda>v. c_eis_update (eis_deadband_rad_update (\<lambda>_. v)))),
     field ''eis.recenter_rate'' MUT_RESTART (SlotFloat (eis_recenter_rate \<circ> c_eis) (\<lambda>v. c_eis_update (eis_recenter_rate_update (\<lambda>_. v)))),
     field ''eis.max_slew_px'' MUT_RESTART (SlotFloat (eis_max_slew_px \<circ> c_eis) (\<lambda>v. c_eis_update (eis_max_slew_px_update (\<lambda>_. v)))),
     field ''eis.bias_alpha'' MUT_RESTART (SlotFloat (eis_bias_alpha \<circ> c_eis) (\<lambda>v. c_eis_update (eis_bias_alpha_update (\<lambda>_. v)))),
     field ''record.enabled'' MUT_RESTART (SlotBool (rec_enabled \<circ> c_record) (\<lambda>v. c_record_update (rec_enabled_update (\<lambda>_. v)))),
     field ''record.dir'' MUT_RESTART (SlotString (rec_dir \<circ> c_record) (\<lambda>v. c_record_update (rec_dir_update (\<lambda>_. v))) 256),
     field ''record.format'' MUT_RESTART (SlotString (rec_format \<circ> c_record) (\<lambda>v. c_record_update (rec_format_update (\<lambda>_. v))) 16),
     field ''record.mode'' MUT_RESTART (SlotString (rec_mode \<circ> c_record) (\<lambda>v. c_record_update (rec_mode_update (\<lambda>_. v))) 16),
     field ''record.max_seconds'' MUT_RESTART (SlotU32 (rec_max_seconds \<circ> c_record) (\<lambda>v. c_record_update (rec_max_seconds_update (\<lambda>_. v)))),
     field ''record.max_mb'' MUT_RESTART (SlotU32 (rec_max_mb \<circ> c_record) (\<lambda>v. c_record_update (rec_max_mb_update (\<lambda>_. v)))),
     field ''record.bitrate'' MUT_RESTART (SlotU32 (rec_bitrate \<circ> c_record) (\<lambda>v. c_record_update (rec_bitrate_update (\<lambda>_. v)))),
     field ''record.fps'' MUT_RESTART (SlotU32 (rec_fps \<circ> c_record) (\<lambda>v. c_record_update (rec_fps_update (\<lambda>_. v)))),
     field ''record.gop_size'' MUT_RESTART (SlotDouble (rec_gop_size \<circ> c_record) (\<lambda>v. c_record_update (rec_gop_size_update (\<lambda>_. v)))),
     field ''record.server'' MUT_RESTART (SlotString (rec_server \<circ> c_record) (\<lambda>v. c_record_update (rec_server_update (\<lambda>_. v))) 256),
     field ''video0.scene_threshold'' MUT_RESTART (SlotU16 (vid_scene_threshold \<circ> c_video0) (\<lambda>v. c_video0_update (vid_scene_threshold_update (\<lambda>_. v)))),
     field ''video0.scene_holdoff'' MUT_RESTART (SlotU8 (vid_scene_holdoff \<circ> c_video0) (\<lambda>v. c_video0_update (vid_scene_holdoff_update (\<lambda>_. v)))),
     field ''debug.show_osd'' MUT_RESTART (SlotBool c_show_osd (\<lambda>v. c_show_osd_update (\<lambda>_. v)))]"

definition find_field :: "string \<Rightarrow> field_desc option" where
  "find_field key = find (\<lambda>f. fd_key f = key) g_fields"

definition g_field_aliases :: "(string \<times> string) list" where
  "g_field_aliases =
    [(''system.webPort'', ''system.web_port''),
     (''system.overclockLevel'', ''system.overclock_level''),
     (''sensor.unlockEnabled'', ''sensor.unlock_enabled''),
     (''sensor.unlockCmd'', ''sensor.unlock_cmd''),
     (''sensor.unlockReg'', ''sensor.unlock_reg''),
     (''sensor.unlockValue'', ''sensor.unlock_value''),
     (''sensor.unlockDir'', ''sensor.unlock_dir''),
     (''isp.sensorBin'', ''isp.sensor_bin''),
     (''isp.gainMax'', ''isp.gain_max''),
     (''isp.awbMode'', ''isp.awb_mode''),
     (''isp.awbCt'', ''isp.awb_ct''),
     (''video0.rcMode'', ''video0.rc_mode''),
     (''video0.gopSize'', ''video0.gop_size''),
     (''video0.qpDelta'', ''video0.qp_delta''),
     (''video0.frameLost'', ''video0.frame_lost''),
     (''outgoing.maxPayloadSize'', ''outgoing.max_payload_size''),
     (''outgoing.audioPort'', ''outgoing.audio_port''),
     (''fpv.roiEnabled'', ''fpv.roi_enabled''),
     (''fpv.roiQp'', ''fpv.roi_qp''),
     (''fpv.roiSteps'', ''fpv.roi_steps''),
     (''fpv.roiCenter'', ''fpv.roi_center''),
     (''fpv.noiseLevel'', ''fpv.noise_level''),
     (''isp.legacyAe'', ''isp.legacy_ae''),
     (''isp.aeFps'', ''isp.ae_fps''),
     (''audio.sampleRate'', ''audio.sample_rate''),
     (''imu.i2cDevice'', ''imu.i2c_device''),
     (''imu.i2cAddr'', ''imu.i2c_addr''),
     (''imu.sampleRateHz'', ''imu.sample_rate_hz''),
     (''imu.gyroRangeDps'', ''imu.gyro_range_dps''),
     (''imu.calFile'', ''imu.cal_file''),
     (''imu.calSamples'', ''imu.cal_samples''),
     (''eis.marginPercent'', ''eis.margin_percent''),
     (''eis.testMode'', ''eis.test_mode''),
     (''eis.swapXY'', ''eis.swap_xy''),
     (''eis.invertX'', ''eis.invert_x''),
     (''eis.invertY'', ''eis.invert_y''),
     (''eis.deadbandRad'', ''eis.deadband_rad''),
     (''eis.recenterRate'', ''eis.recenter_rate''),
     (''eis.maxSlewPx'', ''eis.max_slew_px''),
     (''eis.biasAlpha'', ''eis.bias_alpha''),
     (''record.maxSeconds'', ''record.max_seconds''),
     (''record.maxMB'', ''record.max_mb''),
     (''record.gopSize'', ''record.gop_size''),
     (''video0.sceneThreshold'', ''video0.scene_threshold''),
     (''video0.sceneHoldoff'', ''video0.scene_holdoff''),
     (''outgoing.sidecarPort'', ''outgoing.sidecar_port''),
     (''outgoing.connectedUdp'', ''outgoing.connected_udp''),
     (''outgoing.streamMode'', ''outgoing.stream_mode''),
     (''debug.showOsd'', ''debug.show_osd'')]"

definition canonicalize_field_key :: "string \<Rightarrow> string" where
  "canonicalize_field_key key = (case map_of g_field_aliases key of Some c \<Rightarrow> c | None \<Rightarrow> key)"

definition venc_api_field_supported_for_backend :: "string \<Rightarrow> string option \<Rightarrow> bool" where
  "venc_api_field_supported_for_backend backend_name field_key = (case field_key of None \<Rightarrow> False | Some k \<Rightarrow> True)"

subsection \<open>Values\<close>

definition print_int :: "int \<Rightarrow> string" where
  "print_int i = (if i < 0 then CHR ''-'' # print_base 10 (nat (- i)) else print_base 10 (nat i))"

fun field_to_json_value_from_cfg :: "(dbl \<Rightarrow> string) \<Rightarrow> (string \<Rightarrow> string) \<Rightarrow> venc_config \<Rightarrow> slot \<Rightarrow> string" where
  "field_to_json_value_from_cfg fmt_g print_str cfg (SlotBool get put) = (if get cfg then ''true'' else ''false'')"
| "field_to_json_value_from_cfg fmt_g print_str cfg (SlotInt get put) = print_int (get cfg)"
| "field_to_json_value_from_cfg fmt_g print_str cfg (SlotU32 get put) = print_u (get cfg)"
| "field_to_json_value_from_cfg fmt_g print_str cfg (SlotU8 get put) = print_u (ucast (get cfg))"
| "field_to_json_value_from_cfg fmt_g print_str cfg (SlotU16 get put) = print_u (ucast (get cfg))"
| "field_to_json_value_from_cfg fmt_g print_str cfg (SlotDouble get put) = fmt_g (get cfg)"
| "field_to_json_value_from_cfg fmt_g print_str cfg (SlotFloat get put) = fmt_g (get cfg)"
| "field_to_json_value_from_cfg fmt_g print_str cfg (SlotString get put n) = print_str (get cfg)"
| "field_to_json_value_from_cfg fmt_g print_str cfg (SlotSize get put) =
     (case get cfg of (w, h) \<Rightarrow> ''\"'' @ print_u w @ ''x'' @ print_u h @ ''\"'')"

text \<open>A whole-string number: the end pointer moved, and to the end.\<close>

definition whole :: "string \<Rightarrow> 'v \<times> string \<Rightarrow> 'v option" where
  "whole val r = (case r of (v, rest) \<Rightarrow> if rest = val \<or> rest \<noteq> [] then None else Some v)"

text \<open>Parsing a value into a field: the new configuration, or \<open>None\<close> for the -1 of a parse error.\<close>

fun field_from_string_cfg ::
  "(string \<Rightarrow> dbl \<times> string) \<Rightarrow> (dbl \<Rightarrow> dbl) \<Rightarrow> slot \<Rightarrow> string \<Rightarrow> venc_config \<Rightarrow> venc_config option" where
  "field_from_string_cfg strtod f32 (SlotBool get put) val cfg =
     (if val = ''true'' \<or> val = ''1'' then Some (put True cfg)
      else if val = ''false'' \<or> val = ''0'' then Some (put False cfg)
      else None)"
| "field_from_string_cfg strtod f32 (SlotInt get put) val cfg =
     map_option (\<lambda>v. put v cfg) (whole val (c_strtol 10 val))"
| "field_from_string_cfg strtod f32 (SlotU32 get put) val cfg =
     map_option (\<lambda>v. put v cfg) (whole val (c_strtoul 10 val))"
| "field_from_string_cfg strtod f32 (SlotU8 get put) val cfg =
     (case whole val (c_strtoul 0 val) of None \<Rightarrow> None
      | Some v \<Rightarrow> if v > 255 then None else Some (put (ucast v) cfg))"
| "field_from_string_cfg strtod f32 (SlotU16 get put) val cfg =
     (case whole val (c_strtoul 10 val) of None \<Rightarrow> None
      | Some v \<Rightarrow> if v > 65535 then None else Some (put (ucast v) cfg))"
| "field_from_string_cfg strtod f32 (SlotDouble get put) val cfg =
     map_option (\<lambda>v. put v cfg) (whole val (strtod val))"
| "field_from_string_cfg strtod f32 (SlotFloat get put) val cfg =
     map_option (\<lambda>v. put (f32 v) cfg) (whole val (strtod val))"
| "field_from_string_cfg strtod f32 (SlotString get put n) val cfg = Some (put (safe_strcpy n val) cfg)"
| "field_from_string_cfg strtod f32 (SlotSize get put) val cfg =
     map_option (\<lambda>wh. put wh cfg) (parse_resolution val)"

subsection \<open>Validation\<close>

text \<open>The error message, or \<open>None\<close> for a valid value.\<close>

definition validate_field_cfg :: "venc_config \<Rightarrow> string \<Rightarrow> string option" where
  "validate_field_cfg cfg key =
     (if key = ''isp.awb_mode'' \<and> isp_awb_mode (c_isp cfg) \<noteq> ''auto'' \<and> isp_awb_mode (c_isp cfg) \<noteq> ''ct_manual''
      then Some (''awb_mode must be 'auto' or 'ct_manual'' @ [CHR 0x27])
      else if key = ''video0.qp_delta'' \<and> (vid_qp_delta (c_video0 cfg) < -12 \<or> vid_qp_delta (c_video0 cfg) > 12)
      then Some ''qp_delta must be in range [-12, 12]''
      else if key = ''fpv.roi_qp'' \<and> (fpv_roi_qp (c_fpv cfg) < -30 \<or> fpv_roi_qp (c_fpv cfg) > 30)
      then Some ''roi_qp must be in range [-30, 30]''
      else if key = ''fpv.roi_steps'' \<and> (fpv_roi_steps (c_fpv cfg) < 1 \<or> fpv_roi_steps (c_fpv cfg) > 4)
      then Some ''roi_steps must be in range [1, 4]''
      else if key = ''fpv.roi_center'' \<and>
        (dbl_lt (fpv_roi_center (c_fpv cfg)) (Fin (1 / 10)) \<or> dbl_lt (Fin (9 / 10)) (fpv_roi_center (c_fpv cfg)))
      then Some ''roi_center must be in range [0.1, 0.9]''
      else if key = ''video0.bitrate'' \<and> (vid_bitrate (c_video0 cfg) = 0 \<or> vid_bitrate (c_video0 cfg) > 200000)
      then Some ''bitrate must be 1-200000 kbps''
      else if key = ''video0.scene_holdoff'' \<and> vid_scene_holdoff (c_video0 cfg) = 0
      then Some ''video0.scene_holdoff must be >= 1''
      else None)"

definition config_codec_is_h265 :: "venc_config \<Rightarrow> bool" where
  "config_codec_is_h265 cfg \<longleftrightarrow> vid_codec (c_video0 cfg) = ''h265'' \<or> vid_codec (c_video0 cfg) = ''265''"

definition validate_backend_config :: "string \<Rightarrow> venc_config \<Rightarrow> string option" where
  "validate_backend_config backend_name cfg =
     (if backend_name = ''star6e'' \<and> out_stream_mode (c_outgoing cfg) \<noteq> ''compact'' \<and> \<not> config_codec_is_h265 cfg
      then Some ''star6e RTP mode currently supports h265 only''
      else None)"

end
