(* ===== verification/ApiSet.thy ===== *)
theory ApiSet imports ApiFields begin

text \<open>
  The settings transaction of \<open>src/venc_api.c\<close>: query strings, the live groups, staging and
  validation, applying a batch through the backend's callbacks with rollback, and single restart
  fields. All of it runs under \<open>g_cfg_mutex\<close> on the HTTP thread, so one request is one function of
  the shared state. A callback sees the committed configuration and the device (\<open>'w\<close>) and returns
  its code and the device; what it does is the backend's.
\<close>

subsection \<open>Query strings\<close>

definition before :: "char \<Rightarrow> string \<Rightarrow> string" where
  "before c s = takeWhile (\<lambda>x. x \<noteq> c) s"

definition after :: "char \<Rightarrow> string \<Rightarrow> string" where
  "after c s = drop 1 (dropWhile (\<lambda>x. x \<noteq> c) s)"

text \<open>
  The first \<open>key=value\<close>. When the first ampersand is in front of the first equals sign the length
  of the value is negative, becomes huge as \<open>size_t\<close> and is cut to the buffer: the copy then reads
  that many bytes from the value on, past the end of the query. What the caller sees is the value
  up to the terminating zero.
\<close>

definition parse_first_query_param :: "string \<Rightarrow> nat \<Rightarrow> nat \<Rightarrow> (string \<times> string) option" where
  "parse_first_query_param query key_sz val_sz =
     (if query = [] then None
      else if CHR ''='' \<in> set query then
        let k = before (CHR ''='') query; v = after (CHR ''='') query;
            v1 = (if CHR ''&'' \<in> set k then v else before (CHR ''&'') v)
        in Some (take (key_sz - 1) k, take (val_sz - 1) v1)
      else Some (take (key_sz - 1) (before (CHR ''&'') query), []))"

text \<open>The bytes the copy of the value reads from the query buffer, from its start.\<close>

definition value_read_end :: "string \<Rightarrow> nat \<Rightarrow> nat" where
  "value_read_end query val_sz =
     (let k = before (CHR ''='') query; v = after (CHR ''='') query
      in length k + 1 + (if CHR ''&'' \<in> set k then val_sz - 1
                         else min (length (before (CHR ''&'') v)) (val_sz - 1)))"

definition SET_QUERY_MAX_PARAMS :: nat where "SET_QUERY_MAX_PARAMS = 16"

record set_query_param =
  q_key :: string
  q_canonical_key :: string
  q_value :: string
  q_field :: "field_desc option"

lemma after_shorter: "cursor \<noteq> [] \<Longrightarrow> length (after c cursor) < length cursor"
  unfolding after_def using length_dropWhile_le [of "\<lambda>x. x \<noteq> c" cursor]
  by (simp del: length_greater_0_conv add: length_greater_0_conv [symmetric] less_Suc_eq_le [symmetric])

text \<open>The loop over the segments: \<open>count\<close> parameters so far, the error message on failure.\<close>

function parse_query_loop :: "nat \<Rightarrow> nat \<Rightarrow> string \<Rightarrow> string + set_query_param list" where
  "parse_query_loop max_params count cursor =
     (if cursor = [] then Inr []
      else let segment = before (CHR ''&'') cursor in
        if segment = [] then Inl ''empty query parameter''
        else if count \<ge> max_params then Inl ''too many query parameters''
        else if CHR ''='' \<notin> set segment \<or> before (CHR ''='') segment = []
        then Inl ''missing query parameter key=value''
        else let key = take 127 (before (CHR ''='') segment);
                 p = \<lparr>q_key = key, q_canonical_key = safe_strcpy 128 (canonicalize_field_key key),
                      q_value = take 255 (after (CHR ''='') segment), q_field = None\<rparr>
             in case parse_query_loop max_params (count + 1) (after (CHR ''&'') cursor) of
               Inl e \<Rightarrow> Inl e | Inr ps \<Rightarrow> Inr (p # ps))"
  by pat_completeness auto
termination
  by (relation "measure (\<lambda>(m, n, c). length c)") (simp_all add: after_shorter)

declare parse_query_loop.simps [simp del]

definition parse_query_params :: "string \<Rightarrow> nat \<Rightarrow> string + set_query_param list" where
  "parse_query_params query max_params =
     (if query = [] then Inl ''missing query parameter key=value'' else parse_query_loop max_params 0 query)"

subsection \<open>Responses\<close>

type_synonym response = "nat \<times> string"

definition make_error_json :: "string \<Rightarrow> string \<Rightarrow> string" where
  "make_error_json code msg =
     take 1023 (''{\"ok\":false,\"error\":{\"code\":\"'' @ code @ ''\",\"message\":\"'' @ msg @ ''\"}}'')"

definition make_single_set_success_json :: "string \<Rightarrow> string \<Rightarrow> bool \<Rightarrow> string" where
  "make_single_set_success_json field_key json_value reinit_pending =
     take 511 (''{\"ok\":true,\"data\":{\"field\":\"'' @ field_key @ ''\",\"value\":'' @ json_value
       @ (if reinit_pending then '',\"reinit_pending\":true}}'' else ''}}''))"

subsection \<open>Live groups\<close>

datatype live_group = G_BITRATE | G_VIDEO_TIMING | G_QP_DELTA | G_ROI | G_EXPOSURE | G_GAIN_MAX | G_AWB
  | G_VERBOSE | G_OUTGOING | G_MUTE

definition live_group_for_key :: "string \<Rightarrow> live_group option" where
  "live_group_for_key k =
     (if k = ''video0.bitrate'' then Some G_BITRATE
      else if k = ''video0.fps'' \<or> k = ''video0.gop_size'' then Some G_VIDEO_TIMING
      else if k = ''video0.qp_delta'' then Some G_QP_DELTA
      else if k = ''fpv.roi_enabled'' \<or> k = ''fpv.roi_qp'' \<or> k = ''fpv.roi_steps'' \<or> k = ''fpv.roi_center'' then Some G_ROI
      else if k = ''isp.exposure'' then Some G_EXPOSURE
      else if k = ''isp.gain_max'' then Some G_GAIN_MAX
      else if k = ''isp.awb_mode'' \<or> k = ''isp.awb_ct'' then Some G_AWB
      else if k = ''system.verbose'' then Some G_VERBOSE
      else if k = ''outgoing.enabled'' \<or> k = ''outgoing.server'' then Some G_OUTGOING
      else if k = ''audio.mute'' then Some G_MUTE
      else None)"

fun live_group_name :: "live_group \<Rightarrow> string" where
  "live_group_name G_BITRATE = ''video0.bitrate''"
| "live_group_name G_VIDEO_TIMING = ''video0.fps/video0.gop_size''"
| "live_group_name G_QP_DELTA = ''video0.qp_delta''"
| "live_group_name G_ROI = ''fpv.roi_*''"
| "live_group_name G_EXPOSURE = ''isp.exposure''"
| "live_group_name G_GAIN_MAX = ''isp.gain_max''"
| "live_group_name G_AWB = ''isp.awb_*''"
| "live_group_name G_VERBOSE = ''system.verbose''"
| "live_group_name G_OUTGOING = ''outgoing.*''"
| "live_group_name G_MUTE = ''audio.mute''"

record live_touched =
  t_video_fps :: bool
  t_video_gop :: bool
  t_awb_mode :: bool
  t_awb_ct :: bool
  t_outgoing_enabled :: bool
  t_outgoing_server :: bool

definition no_touch :: live_touched where
  "no_touch = \<lparr>t_video_fps = False, t_video_gop = False, t_awb_mode = False, t_awb_ct = False,
     t_outgoing_enabled = False, t_outgoing_server = False\<rparr>"

definition note_live_group_touch :: "string \<Rightarrow> live_touched \<Rightarrow> live_touched" where
  "note_live_group_touch k t =
     (if k = ''video0.fps'' then t\<lparr>t_video_fps := True\<rparr>
      else if k = ''video0.gop_size'' then t\<lparr>t_video_gop := True\<rparr>
      else if k = ''isp.awb_mode'' then t\<lparr>t_awb_mode := True\<rparr>
      else if k = ''isp.awb_ct'' then t\<lparr>t_awb_ct := True\<rparr>
      else if k = ''outgoing.enabled'' then t\<lparr>t_outgoing_enabled := True\<rparr>
      else if k = ''outgoing.server'' then t\<lparr>t_outgoing_server := True\<rparr>
      else t)"

text \<open>The fields of a group, copied from \<open>src\<close> into \<open>dst\<close>.\<close>

fun copy_live_group_fields :: "live_group \<Rightarrow> live_touched \<Rightarrow> venc_config \<Rightarrow> venc_config \<Rightarrow> venc_config" where
  "copy_live_group_fields G_BITRATE t dst src =
     c_video0_update (vid_bitrate_update (\<lambda>_. vid_bitrate (c_video0 src))) dst"
| "copy_live_group_fields G_VIDEO_TIMING t dst src =
     (let d1 = (if t_video_fps t then c_video0_update (vid_fps_update (\<lambda>_. vid_fps (c_video0 src))) dst else dst)
      in if t_video_gop t then c_video0_update (vid_gop_size_update (\<lambda>_. vid_gop_size (c_video0 src))) d1 else d1)"
| "copy_live_group_fields G_QP_DELTA t dst src =
     c_video0_update (vid_qp_delta_update (\<lambda>_. vid_qp_delta (c_video0 src))) dst"
| "copy_live_group_fields G_ROI t dst src =
     c_fpv_update (\<lambda>f. f\<lparr>fpv_roi_enabled := fpv_roi_enabled (c_fpv src), fpv_roi_qp := fpv_roi_qp (c_fpv src),
       fpv_roi_steps := fpv_roi_steps (c_fpv src), fpv_roi_center := fpv_roi_center (c_fpv src)\<rparr>) dst"
| "copy_live_group_fields G_EXPOSURE t dst src =
     c_isp_update (isp_exposure_update (\<lambda>_. isp_exposure (c_isp src))) dst"
| "copy_live_group_fields G_GAIN_MAX t dst src =
     c_isp_update (isp_gain_max_update (\<lambda>_. isp_gain_max (c_isp src))) dst"
| "copy_live_group_fields G_AWB t dst src =
     (let d1 = (if t_awb_mode t then c_isp_update (isp_awb_mode_update (\<lambda>_. safe_strcpy 16 (isp_awb_mode (c_isp src)))) dst else dst)
      in if t_awb_ct t then c_isp_update (isp_awb_ct_update (\<lambda>_. isp_awb_ct (c_isp src))) d1 else d1)"
| "copy_live_group_fields G_VERBOSE t dst src =
     c_system_update (sys_verbose_update (\<lambda>_. sys_verbose (c_system src))) dst"
| "copy_live_group_fields G_OUTGOING t dst src =
     (let d1 = (if t_outgoing_enabled t then c_outgoing_update (out_enabled_update (\<lambda>_. out_enabled (c_outgoing src))) dst else dst)
      in if t_outgoing_server t
         then c_outgoing_update (out_server_update (\<lambda>_. safe_strcpy VENC_CONFIG_STRING_MAX (out_server (c_outgoing src)))) d1
         else d1)"
| "copy_live_group_fields G_MUTE t dst src =
     c_audio_update (aud_mute_update (\<lambda>_. aud_mute (c_audio src))) dst"

definition build_live_group_config ::
  "venc_config \<Rightarrow> venc_config \<Rightarrow> live_group \<Rightarrow> live_touched \<Rightarrow> venc_config" where
  "build_live_group_config base updates g t = copy_live_group_fields g t base updates"

subsection \<open>Callbacks and state\<close>

text \<open>The table the backend registers; \<open>None\<close> is a null entry.\<close>

type_synonym ('a, 'w) callback = "(venc_config \<Rightarrow> 'a \<Rightarrow> 'w \<Rightarrow> int \<times> 'w) option"

record 'w callbacks =
  cb_bitrate :: "(u32, 'w) callback"
  cb_fps :: "(u32, 'w) callback"
  cb_gop :: "(u32, 'w) callback"
  cb_qp_delta :: "(int, 'w) callback"
  cb_roi_qp :: "(int, 'w) callback"
  cb_exposure :: "(u32, 'w) callback"
  cb_gain_max :: "(u32, 'w) callback"
  cb_awb_mode :: "(int \<times> u32, 'w) callback"
  cb_verbose :: "(bool, 'w) callback"
  cb_output_enabled :: "(bool, 'w) callback"
  cb_server :: "(string, 'w) callback"
  cb_mute :: "(bool, 'w) callback"

text \<open>What does not change between requests: the backend, and the library functions.\<close>

record 'w api_env =
  e_backend :: string
  e_cb :: "'w callbacks option"
  e_rnd :: "rat \<Rightarrow> rat"
  e_strtod :: "string \<Rightarrow> dbl \<times> string"
  e_f32 :: "dbl \<Rightarrow> dbl"
  e_fmt_g :: "dbl \<Rightarrow> string"
  e_print_str :: "string \<Rightarrow> string"
  e_parse_json :: "string \<Rightarrow> json option"
  e_print_json :: "json \<Rightarrow> string option"

record 'w api_state =
  a_cfg :: venc_config
  a_dev :: 'w
  a_reinit :: int

text \<open>A call through the table; that the entry is not null is shown below.\<close>

definition call :: "('a, 'w) callback \<Rightarrow> 'a \<Rightarrow> 'w api_state \<Rightarrow> int \<times> 'w api_state" where
  "call f x s = (case f of None \<Rightarrow> (-1, s) | Some g \<Rightarrow> (case g (a_cfg s) x (a_dev s) of (rc, w) \<Rightarrow> (rc, s\<lparr>a_dev := w\<rparr>)))"

definition live_group_supported_for_cfg :: "'w callbacks option \<Rightarrow> venc_config \<Rightarrow> live_group \<Rightarrow> live_touched \<Rightarrow> bool" where
  "live_group_supported_for_cfg cbs cfg g t =
     (case cbs of None \<Rightarrow> False
      | Some cb \<Rightarrow>
        (case g of
           G_BITRATE \<Rightarrow> cb_bitrate cb \<noteq> None
         | G_VIDEO_TIMING \<Rightarrow>
             \<not> (t_video_fps t \<and> cb_fps cb = None)
             \<and> \<not> (\<not> vid_scene_threshold (c_video0 cfg) > 0 \<and> (t_video_fps t \<or> t_video_gop t) \<and> cb_gop cb = None)
             \<and> \<not> (vid_scene_threshold (c_video0 cfg) > 0 \<and> t_video_gop t)
         | G_QP_DELTA \<Rightarrow> cb_qp_delta cb \<noteq> None
         | G_ROI \<Rightarrow> cb_roi_qp cb \<noteq> None
         | G_EXPOSURE \<Rightarrow> cb_exposure cb \<noteq> None
         | G_GAIN_MAX \<Rightarrow> cb_gain_max cb \<noteq> None
         | G_AWB \<Rightarrow> cb_awb_mode cb \<noteq> None
         | G_VERBOSE \<Rightarrow> cb_verbose cb \<noteq> None
         | G_OUTGOING \<Rightarrow> \<not> (t_outgoing_server t \<and> cb_server cb = None) \<and> \<not> (t_outgoing_enabled t \<and> cb_output_enabled cb = None)
         | G_MUTE \<Rightarrow> cb_mute cb \<noteq> None))"

definition commit_config_locked :: "venc_config \<Rightarrow> 'w api_state \<Rightarrow> 'w api_state" where
  "commit_config_locked cfg s = s\<lparr>a_cfg := cfg\<rparr>"

text \<open>Two calls in order, the second only after the first succeeded; a failure counts as -1.\<close>

definition call_both :: "('a, 'w) callback \<Rightarrow> 'a \<Rightarrow> ('b, 'w) callback \<Rightarrow> 'b \<Rightarrow> 'w api_state \<Rightarrow> int \<times> 'w api_state" where
  "call_both f x g y s =
     (case call f x s of (rc, s1) \<Rightarrow>
        if rc \<noteq> 0 then (-1, s1)
        else (case call g y s1 of (rc, s2) \<Rightarrow> (if rc \<noteq> 0 then (-1, s2) else (0, s2))))"

definition apply_live_group_for_cfg ::
  "'w api_env \<Rightarrow> venc_config \<Rightarrow> live_group \<Rightarrow> live_touched \<Rightarrow> 'w api_state \<Rightarrow> int \<times> 'w api_state" where
  "apply_live_group_for_cfg env cfg g t s0 =
     (let s = commit_config_locked cfg s0 in
      if \<not> live_group_supported_for_cfg (e_cb env) cfg g t then (-2, s)
      else case e_cb env of None \<Rightarrow> (-2, s) | Some cb \<Rightarrow>
        (case g of
           G_BITRATE \<Rightarrow> call (cb_bitrate cb) (vid_bitrate (c_video0 cfg)) s
         | G_VIDEO_TIMING \<Rightarrow>
             (case (if t_video_fps t then call (cb_fps cb) (vid_fps (c_video0 cfg)) s else (0, s)) of (rc, s1) \<Rightarrow>
                if rc \<noteq> 0 then (-1, s1)
                else if \<not> vid_scene_threshold (c_video0 cfg) > 0 \<and> (t_video_fps t \<or> t_video_gop t) then
                  (case call (cb_gop cb) (pipeline_common_gop_frames (e_rnd env) (vid_gop_size (c_video0 cfg)) (vid_fps (c_video0 cfg))) s1 of
                     (rc, s2) \<Rightarrow> (if rc \<noteq> 0 then (-1, s2) else (0, s2)))
                else (0, s1))
         | G_QP_DELTA \<Rightarrow> call (cb_qp_delta cb) (vid_qp_delta (c_video0 cfg)) s
         | G_ROI \<Rightarrow> call (cb_roi_qp cb) (fpv_roi_qp (c_fpv cfg)) s
         | G_EXPOSURE \<Rightarrow> call (cb_exposure cb) (isp_exposure (c_isp cfg) * 1000) s
         | G_GAIN_MAX \<Rightarrow> call (cb_gain_max cb) (isp_gain_max (c_isp cfg)) s
         | G_AWB \<Rightarrow> call (cb_awb_mode cb) (if isp_awb_mode (c_isp cfg) = ''ct_manual'' then 1 else 0, isp_awb_ct (c_isp cfg)) s
         | G_VERBOSE \<Rightarrow> call (cb_verbose cb) (sys_verbose (c_system cfg)) s
         | G_OUTGOING \<Rightarrow>
             (let srv = out_server (c_outgoing cfg); en = out_enabled (c_outgoing cfg) in
              if t_outgoing_enabled t \<and> t_outgoing_server t then
                if en then call_both (cb_server cb) srv (cb_output_enabled cb) en s
                else call_both (cb_output_enabled cb) en (cb_server cb) srv s
              else if t_outgoing_server t then call (cb_server cb) srv s
              else if t_outgoing_enabled t then call (cb_output_enabled cb) en s
              else (0, s))
         | G_MUTE \<Rightarrow> call (cb_mute cb) (aud_mute (c_audio cfg)) s))"

text \<open>Undoing one group: whether that failed, the configuration now in force, the state.\<close>

definition rollback_group ::
  "'w api_env \<Rightarrow> live_touched \<Rightarrow> venc_config \<Rightarrow> live_group \<Rightarrow> bool \<times> venc_config \<times> 'w api_state \<Rightarrow> bool \<times> venc_config \<times> 'w api_state" where
  "rollback_group env t old_cfg g r =
     (case r of (incomplete, actual, s) \<Rightarrow>
        let rollback_cfg = build_live_group_config actual old_cfg g t in
        case apply_live_group_for_cfg env rollback_cfg g t s of (rc, s1) \<Rightarrow>
          if rc = 0 then (incomplete, rollback_cfg, s1)
          else (True, actual, commit_config_locked actual s1))"

text \<open>The current group first, then those applied, last first.\<close>

definition rollback_live_groups ::
  "'w api_env \<Rightarrow> live_group list \<Rightarrow> live_group option \<Rightarrow> live_touched \<Rightarrow> venc_config \<Rightarrow> venc_config \<Rightarrow> 'w api_state
   \<Rightarrow> bool \<times> venc_config \<times> 'w api_state" where
  "rollback_live_groups env applied current t old_cfg actual s =
     (let r = (case current of None \<Rightarrow> (False, actual, s) | Some g \<Rightarrow> rollback_group env t old_cfg g (False, actual, s))
      in fold (rollback_group env t old_cfg) (rev applied) r)"

text \<open>Applying the groups in order; \<open>done\<close> are those applied so far. An error ends with a rollback.\<close>

fun apply_live_group_sequence_locked ::
  "'w api_env \<Rightarrow> live_group list \<Rightarrow> live_group list \<Rightarrow> live_touched \<Rightarrow> venc_config \<Rightarrow> venc_config \<Rightarrow> venc_config
   \<Rightarrow> 'w api_state \<Rightarrow> response option \<times> venc_config \<times> 'w api_state" where
  "apply_live_group_sequence_locked env applied [] t old_cfg new_cfg actual s = (None, actual, s)"
| "apply_live_group_sequence_locked env applied (g # gs) t old_cfg new_cfg actual s =
     (let group_cfg = build_live_group_config actual new_cfg g t in
      case apply_live_group_for_cfg env group_cfg g t s of (rc, s1) \<Rightarrow>
        if rc = 0 then apply_live_group_sequence_locked env (applied @ [g]) gs t old_cfg new_cfg group_cfg s1
        else case rollback_live_groups env applied (Some g) t old_cfg actual (commit_config_locked actual s1) of
          (incomplete, actual1, s2) \<Rightarrow>
            (Some (500, make_error_json ''internal_error'' (take 191
               (if incomplete then ''failed to apply live field group '' @ live_group_name g @ ''; rollback incomplete''
                else ''failed to apply live field group '' @ live_group_name g))),
             actual1, commit_config_locked actual1 s2))"

subsection \<open>A batch\<close>

text \<open>The group order, the touched flags, and the parameters with their fields looked up.\<close>

primrec collect_loop ::
  "string \<Rightarrow> set_query_param list \<Rightarrow> set_query_param list \<Rightarrow> live_group list \<Rightarrow> live_touched
   \<Rightarrow> response + set_query_param list \<times> live_group list \<times> live_touched" where
  "collect_loop backend [] seen order t = Inr (seen, order, t)"
| "collect_loop backend (p # ps) seen order t =
     (let field = (case q_field p of None \<Rightarrow> find_field (q_canonical_key p) | f \<Rightarrow> f) in
      case field of
        None \<Rightarrow> Inl (404, make_error_json ''not_found'' ''unknown config field'')
      | Some f \<Rightarrow>
        if \<not> venc_api_field_supported_for_backend backend (Some (q_canonical_key p)) then
          Inl (501, make_error_json ''not_implemented'' ''field not supported on this backend'')
        else if fd_mut f \<noteq> MUT_LIVE then
          Inl (400, make_error_json ''invalid_request''
            ''multi-set only supports live fields; restart-required fields must be set one at a time'')
        else if q_canonical_key p \<in> set (map q_canonical_key seen) then
          Inl (400, make_error_json ''invalid_request'' ''duplicate field in multi-set request'')
        else case live_group_for_key (q_canonical_key p) of
          None \<Rightarrow> Inl (400, make_error_json ''invalid_request'' ''field does not support multi-set batching'')
        | Some g \<Rightarrow>
          collect_loop backend ps (seen @ [p\<lparr>q_field := Some f\<rparr>]) (if g \<in> set order then order else order @ [g])
            (note_live_group_touch (q_canonical_key p) t))"

definition collect_live_groups ::
  "string \<Rightarrow> set_query_param list \<Rightarrow> response + set_query_param list \<times> live_group list \<times> live_touched" where
  "collect_live_groups backend params = collect_loop backend params [] [] no_touch"

text \<open>Parsing and validating the values into a copy of the configuration.\<close>

primrec stage_loop :: "'w api_env \<Rightarrow> set_query_param list \<Rightarrow> venc_config \<Rightarrow> response + venc_config" where
  "stage_loop env [] cfg = Inr cfg"
| "stage_loop env (p # ps) cfg =
     (case (case q_field p of None \<Rightarrow> None
            | Some f \<Rightarrow> field_from_string_cfg (e_strtod env) (e_f32 env) (fd_slot f) (q_value p) cfg) of
        None \<Rightarrow> Inl (400, make_error_json ''validation_failed'' ''invalid value for field'')
      | Some cfg1 \<Rightarrow>
        (case validate_field_cfg cfg1 (q_canonical_key p) of
           Some err \<Rightarrow> Inl (409, make_error_json ''validation_failed'' err)
         | None \<Rightarrow> stage_loop env ps cfg1))"

definition stage_params_into_cfg :: "'w api_env \<Rightarrow> set_query_param list \<Rightarrow> venc_config \<Rightarrow> response + venc_config" where
  "stage_params_into_cfg env params cfg =
     (case stage_loop env params cfg of Inl r \<Rightarrow> Inl r
      | Inr cfg1 \<Rightarrow>
        (case validate_backend_config (e_backend env) cfg1 of
           Some err \<Rightarrow> Inl (409, make_error_json ''validation_failed'' err)
         | None \<Rightarrow> Inr cfg1))"

definition preflight_live_group_callbacks ::
  "'w api_env \<Rightarrow> venc_config \<Rightarrow> live_group list \<Rightarrow> live_touched \<Rightarrow> nat \<Rightarrow> response option" where
  "preflight_live_group_callbacks env cfg groups t param_count =
     (if list_all (\<lambda>g. live_group_supported_for_cfg (e_cb env) cfg g t) groups then None
      else Some (501, make_error_json ''not_implemented''
        (if param_count = 1 then ''apply callback not available''
         else ''apply callback not available for one or more live fields'')))"

text \<open>The value a parameter's field has in a configuration, as JSON.\<close>

definition param_json :: "'w api_env \<Rightarrow> venc_config \<Rightarrow> set_query_param \<Rightarrow> string" where
  "param_json env cfg p = (case q_field p of None \<Rightarrow> ''null''
     | Some f \<Rightarrow> field_to_json_value_from_cfg (e_fmt_g env) (e_print_str env) cfg (fd_slot f))"

text \<open>
  The answer to a batch: every value's text is parsed back into a tree, and the first that is not JSON
  (\<open>nan\<close>) makes the answer fail, as a printer out of memory does.
\<close>

definition applied_entry :: "'w api_env \<Rightarrow> venc_config \<Rightarrow> set_query_param \<Rightarrow> json option" where
  "applied_entry env cfg p = (case e_parse_json env (param_json env cfg p) of None \<Rightarrow> None
     | Some v \<Rightarrow> Some (JObject [(''field'', JString (q_key p)), (''value'', v)]))"

definition make_multi_live_set_success_json ::
  "'w api_env \<Rightarrow> venc_config \<Rightarrow> set_query_param list \<Rightarrow> string option" where
  "make_multi_live_set_success_json env cfg params =
     (if params = [] then None
      else case those (map (applied_entry env cfg) params) of None \<Rightarrow> None
      | Some entries \<Rightarrow>
          e_print_json env (JObject [(''ok'', JBool True), (''data'', JObject [(''applied'', JArray entries)])]))"

text \<open>The single answer reads the configuration it is given, the other the one in force.\<close>

definition make_live_set_response_locked ::
  "'w api_env \<Rightarrow> venc_config \<Rightarrow> venc_config \<Rightarrow> set_query_param list \<Rightarrow> bool \<Rightarrow> response option" where
  "make_live_set_response_locked env cfg global_cfg params single =
     (if single then Some (200, make_single_set_success_json (q_key (hd params)) (param_json env cfg (hd params)) False)
      else case make_multi_live_set_success_json env global_cfg params of None \<Rightarrow> None
        | Some j \<Rightarrow> Some (200, j))"

text \<open>\<open>None\<close> is the failure (-1) of the request: no answer was made.\<close>

definition apply_live_set_query ::
  "'w api_env \<Rightarrow> set_query_param list \<Rightarrow> bool \<Rightarrow> 'w api_state \<Rightarrow> response option \<times> 'w api_state" where
  "apply_live_set_query env params single s =
     (case collect_live_groups (e_backend env) params of Inl r \<Rightarrow> (Some r, s)
      | Inr (params1, groups, t) \<Rightarrow>
        let old_cfg = a_cfg s in
        (case stage_params_into_cfg env params1 old_cfg of Inl r \<Rightarrow> (Some r, s)
         | Inr new_cfg \<Rightarrow>
           (case preflight_live_group_callbacks env new_cfg groups t (length params1) of Some r \<Rightarrow> (Some r, s)
            | None \<Rightarrow>
              (case apply_live_group_sequence_locked env [] groups t old_cfg new_cfg old_cfg s of
                 (Some r, actual, s1) \<Rightarrow> (Some r, s1)
               | (None, actual, s1) \<Rightarrow>
                   let s2 = commit_config_locked actual s1
                   in (make_live_set_response_locked env actual (a_cfg s2) params1 single, s2)))))"

subsection \<open>Requests\<close>

text \<open>Reinit requests: the larger mode stays.\<close>

definition venc_api_request_reinit :: "int \<Rightarrow> 'w api_state \<Rightarrow> 'w api_state" where
  "venc_api_request_reinit mode s = (if mode > a_reinit s then s\<lparr>a_reinit := mode\<rparr> else s)"

definition venc_api_get_reinit :: "'w api_state \<Rightarrow> int" where
  "venc_api_get_reinit s = a_reinit s"

definition venc_api_clear_reinit :: "'w api_state \<Rightarrow> 'w api_state" where
  "venc_api_clear_reinit s = s\<lparr>a_reinit := 0\<rparr>"

definition resolve_set_query_field :: "'w api_env \<Rightarrow> string \<Rightarrow> response + string \<times> field_desc" where
  "resolve_set_query_field env key =
     (let ck = canonicalize_field_key key in
      case find_field ck of
        None \<Rightarrow> Inl (404, make_error_json ''not_found'' ''unknown config field'')
      | Some f \<Rightarrow>
        if \<not> venc_api_field_supported_for_backend (e_backend env) (Some ck)
        then Inl (501, make_error_json ''not_implemented'' ''field not supported on this backend'')
        else Inr (ck, f))"

definition init_single_set_param :: "string \<Rightarrow> string \<Rightarrow> string \<Rightarrow> field_desc \<Rightarrow> set_query_param" where
  "init_single_set_param key ck val f =
     \<lparr>q_key = safe_strcpy 128 key, q_canonical_key = safe_strcpy 128 ck, q_value = safe_strcpy 256 val, q_field = Some f\<rparr>"

definition process_restart_set_query :: "'w api_env \<Rightarrow> set_query_param \<Rightarrow> 'w api_state \<Rightarrow> response option \<times> 'w api_state" where
  "process_restart_set_query env p s =
     (case stage_params_into_cfg env [p] (a_cfg s) of
        Inl r \<Rightarrow> (Some r, s)
      | Inr new_cfg \<Rightarrow>
          (Some (200, make_single_set_success_json (q_key p) (param_json env new_cfg p) True),
           venc_api_request_reinit 2 (s\<lparr>a_cfg := new_cfg\<rparr>)))"

definition process_single_set_query :: "'w api_env \<Rightarrow> string \<Rightarrow> 'w api_state \<Rightarrow> response option \<times> 'w api_state" where
  "process_single_set_query env query s =
     (case parse_first_query_param query 128 256 of
        None \<Rightarrow> (Some (400, make_error_json ''invalid_request'' ''missing query parameter key=value''), s)
      | Some (key, val) \<Rightarrow>
        if key = [] then (Some (400, make_error_json ''invalid_request'' ''missing query parameter key=value''), s)
        else case resolve_set_query_field env key of
          Inl r \<Rightarrow> (Some r, s)
        | Inr (ck, f) \<Rightarrow>
          let p = init_single_set_param key ck val f in
          if fd_mut f = MUT_LIVE then apply_live_set_query env [p] True s
          else process_restart_set_query env p s)"

definition process_multi_live_set_query :: "'w api_env \<Rightarrow> string \<Rightarrow> 'w api_state \<Rightarrow> response option \<times> 'w api_state" where
  "process_multi_live_set_query env query s =
     (case parse_query_params query SET_QUERY_MAX_PARAMS of
        Inl e \<Rightarrow> (Some (400, make_error_json ''invalid_request'' e), s)
      | Inr params \<Rightarrow>
        if length params < 2 then process_single_set_query env query s
        else apply_live_set_query env params False s)"

definition process_set_query :: "'w api_env \<Rightarrow> string \<Rightarrow> 'w api_state \<Rightarrow> response option \<times> 'w api_state" where
  "process_set_query env query s =
     (if CHR ''&'' \<in> set query then process_multi_live_set_query env query s
      else process_single_set_query env query s)"

definition handle_get :: "'w api_env \<Rightarrow> string \<Rightarrow> 'w api_state \<Rightarrow> response" where
  "handle_get env query s =
     (case parse_first_query_param query 128 4 of
        None \<Rightarrow> (400, make_error_json ''invalid_request'' ''missing query parameter (field name)'')
      | Some (key, val) \<Rightarrow>
        if key = [] then (400, make_error_json ''invalid_request'' ''missing query parameter (field name)'')
        else case find_field (canonicalize_field_key key) of
          None \<Rightarrow> (404, make_error_json ''not_found'' ''unknown config field'')
        | Some f \<Rightarrow>
          (200, take 511 (''{\"ok\":true,\"data\":{\"field\":\"'' @ key @ ''\",\"value\":''
             @ field_to_json_value_from_cfg (e_fmt_g env) (e_print_str env) (a_cfg s) (fd_slot f) @ ''}}'')))"

definition handle_restart :: "'w api_state \<Rightarrow> 'w api_state" where
  "handle_restart s = venc_api_request_reinit 1 s"

end
