(* ===== verification/Httpd.thy ===== *)
theory Httpd imports CLib "HOL-Library.Sublist" begin

text \<open>
  The HTTP server of \<open>src/venc_httpd.c\<close>: reading and parsing one request, the route table, and
  responses. A socket is the list of what successive \<open>read\<close> or \<open>send\<close> calls give; the server
  handles one connection at a time. Texts are character lists, a C string ends at its first zero.
\<close>

subsection \<open>Searching\<close>

text \<open>\<open>strstr\<close>: what is in front of the first occurrence, and the text from it on.\<close>

fun find_sub :: "string \<Rightarrow> string \<Rightarrow> (string \<times> string) option" where
  "find_sub pat s = (if prefix pat s then Some ([], s)
     else case s of [] \<Rightarrow> None | c # cs \<Rightarrow> map_option (\<lambda>(a, b). (c # a, b)) (find_sub pat cs))"

declare find_sub.simps [simp del]

definition c_tolower :: "char \<Rightarrow> char" where
  "c_tolower c = (let n = (of_char c :: nat) in if 65 \<le> n \<and> n \<le> 90 then char_of (n + 32) else c)"

fun httpd_strcasestr :: "string \<Rightarrow> string \<Rightarrow> string option" where
  "httpd_strcasestr needle [] = (if needle = [] then Some [] else None)"
| "httpd_strcasestr needle (c # cs) =
     (if needle = [] \<or> prefix (map c_tolower needle) (map c_tolower (c # cs)) then Some (c # cs)
      else httpd_strcasestr needle cs)"

definition c_str :: "string \<Rightarrow> string" where
  "c_str s = takeWhile (\<lambda>c. c \<noteq> CHR 0x00) s"

definition CRLF :: string where "CRLF = [CHR 0x0D, CHR 0x0A]"

subsection \<open>Requests\<close>

definition HTTPD_MAX_METHOD :: nat where "HTTPD_MAX_METHOD = 8"
definition HTTPD_MAX_PATH :: nat where "HTTPD_MAX_PATH = 256"
definition HTTPD_MAX_QUERY :: nat where "HTTPD_MAX_QUERY = 512"
definition HTTPD_MAX_BODY :: nat where "HTTPD_MAX_BODY = 8192"
definition HTTPD_MAX_ROUTES :: nat where "HTTPD_MAX_ROUTES = 64"

record http_request =
  hr_method :: string
  hr_path :: string
  hr_query :: string
  hr_body :: string

text \<open>The answer of a \<open>read\<close>: bytes (none at the end of the stream), an interruption, an error.
  What the call had no room for is there for the next one.\<close>

datatype read_answer = Got string | ReadIntr | ReadError

text \<open>The head: until a blank line is in, the buffer is full or nothing more comes.\<close>

fun read_head :: "nat \<Rightarrow> string \<Rightarrow> read_answer list \<Rightarrow> string \<times> read_answer list" where
  "read_head cap acc [] = (acc, [])"
| "read_head cap acc (a # as) =
     (if length acc \<ge> cap then (acc, a # as)
      else case a of
        ReadIntr \<Rightarrow> read_head cap acc as
      | ReadError \<Rightarrow> (acc, as)
      | Got s \<Rightarrow>
          if s = [] then (acc, as)
          else let n = cap - length acc; acc1 = acc @ take n s in
            if length s > n then (acc1, Got (drop n s) # as)
            else if find_sub (CRLF @ CRLF) acc1 \<noteq> None then (acc1, as)
            else read_head cap acc1 as)"

text \<open>The rest of the body, up to the length announced.\<close>

fun read_body :: "nat \<Rightarrow> string \<Rightarrow> read_answer list \<Rightarrow> string \<times> read_answer list" where
  "read_body len acc [] = (acc, [])"
| "read_body len acc (a # as) =
     (if length acc \<ge> len then (acc, a # as)
      else case a of
        ReadIntr \<Rightarrow> read_body len acc as
      | ReadError \<Rightarrow> (acc, as)
      | Got s \<Rightarrow>
          if s = [] then (acc, as)
          else let n = len - length acc in
            if length s > n then (acc @ take n s, Got (drop n s) # as)
            else read_body len (acc @ s) as)"

text \<open>The announced length, from the first header of that name in what follows the request line.\<close>

definition content_length :: "string \<Rightarrow> nat" where
  "content_length headers =
     (case httpd_strcasestr ''content-length:'' (c_str headers) of None \<Rightarrow> 0
      | Some cl \<Rightarrow> let n = fst (c_strtol 10 (drop 15 cl)) in
          if n < 0 then 0 else if n \<ge> int HTTPD_MAX_BODY then HTTPD_MAX_BODY - 1 else nat n)"

definition parse_request :: "read_answer list \<Rightarrow> http_request option" where
  "parse_request as =
     (case read_head (HTTPD_MAX_BODY + 2048 - 1) [] as of (raw, as1) \<Rightarrow>
      if raw = [] then None
      else case find_sub CRLF (c_str raw) of
        None \<Rightarrow> None
      | Some (line, _) \<Rightarrow>
          if CHR '' '' \<notin> set line then None
          else
            let method = takeWhile (\<lambda>c. c \<noteq> CHR '' '') line;
                uri = takeWhile (\<lambda>c. c \<noteq> CHR '' '') (drop (length method + 1) line);
                path = takeWhile (\<lambda>c. c \<noteq> CHR ''?'') uri;
                query = drop (length path + 1) uri;
                headers = drop (length line + 2) raw;
                req = \<lparr>hr_method = take (HTTPD_MAX_METHOD - 1) method, hr_path = take (HTTPD_MAX_PATH - 1) path,
                       hr_query = take (HTTPD_MAX_QUERY - 1) query, hr_body = []\<rparr>
            in case find_sub (CRLF @ CRLF) (c_str headers) of
                 None \<Rightarrow> Some req
               | Some (head, _) \<Rightarrow>
                   let len = content_length headers;
                       already = take len (drop (length head + 4) headers)
                   in Some (req\<lparr>hr_body := fst (read_body len already as1)\<rparr>))"

subsection \<open>Routes\<close>

record 'h http_route =
  rt_method :: string
  rt_prefix :: string
  rt_handler :: 'h

definition venc_httpd_route :: "string \<Rightarrow> string \<Rightarrow> 'h \<Rightarrow> 'h http_route list \<Rightarrow> int \<times> 'h http_route list" where
  "venc_httpd_route method path_prefix handler routes =
     (if length routes \<ge> HTTPD_MAX_ROUTES then (-1, routes)
      else (0, routes @ [\<lparr>rt_method = take (HTTPD_MAX_METHOD - 1) method, rt_prefix = take (HTTPD_MAX_PATH - 1) path_prefix,
                          rt_handler = handler\<rparr>]))"

text \<open>The prefix matches if the path ends there or goes on with a slash or a question mark.\<close>

definition route_matches :: "http_request \<Rightarrow> 'h http_route \<Rightarrow> bool" where
  "route_matches req r \<longleftrightarrow> hr_method req = rt_method r \<and> prefix (rt_prefix r) (hr_path req)
     \<and> (case drop (length (rt_prefix r)) (hr_path req) of [] \<Rightarrow> True | c # _ \<Rightarrow> c = CHR ''/'' \<or> c = CHR ''?'')"

text \<open>The handler that is called; without one the answer is 404.\<close>

definition dispatch :: "'h http_route list \<Rightarrow> http_request \<Rightarrow> 'h option" where
  "dispatch routes req = map_option rt_handler (find (route_matches req) routes)"

subsection \<open>Responses\<close>

datatype send_answer = Sent nat | SendIntr | SendError

text \<open>What was sent, whether all of it, and the answers left.\<close>

fun write_socket_all :: "send_answer list \<Rightarrow> string \<Rightarrow> string \<Rightarrow> int \<times> string \<times> send_answer list" where
  "write_socket_all as acc [] = (0, acc, as)"
| "write_socket_all [] acc (c # cs) = (-1, acc, [])"
| "write_socket_all (a # as) acc (c # cs) = (case a of
     SendIntr \<Rightarrow> write_socket_all as acc (c # cs)
   | SendError \<Rightarrow> (-1, acc, as)
   | Sent n \<Rightarrow> if n = 0 then (-1, acc, as) else write_socket_all as (acc @ take n (c # cs)) (drop n (c # cs)))"

definition status_text :: "nat \<Rightarrow> string" where
  "status_text code =
     (if code = 200 then ''OK'' else if code = 400 then ''Bad Request'' else if code = 404 then ''Not Found''
      else if code = 405 then ''Method Not Allowed'' else if code = 409 then ''Conflict''
      else if code = 500 then ''Internal Server Error'' else if code = 501 then ''Not Implemented'' else ''Unknown'')"

definition response_header :: "nat \<Rightarrow> string \<Rightarrow> nat \<Rightarrow> string" where
  "response_header status content_type body_len =
     ''HTTP/1.0 '' @ print_base 10 status @ '' '' @ status_text status @ CRLF
     @ ''Content-Type: '' @ content_type @ CRLF @ ''Content-Length: '' @ print_base 10 body_len @ CRLF
     @ ''Connection: close'' @ CRLF @ CRLF"

definition send_response :: "nat \<Rightarrow> string \<Rightarrow> string \<Rightarrow> send_answer list \<Rightarrow> int \<times> string \<times> send_answer list" where
  "send_response status content_type body as =
     (case write_socket_all as [] (response_header status content_type (length body)) of (rc, out, as1) \<Rightarrow>
        if rc \<noteq> 0 then (-1, out, as1) else write_socket_all as1 out body)"

definition httpd_send_json :: "nat \<Rightarrow> string \<Rightarrow> send_answer list \<Rightarrow> int \<times> string \<times> send_answer list" where
  "httpd_send_json status json as = send_response status ''application/json'' json as"

definition httpd_send_text :: "nat \<Rightarrow> string \<Rightarrow> send_answer list \<Rightarrow> int \<times> string \<times> send_answer list" where
  "httpd_send_text status txt as = send_response status ''text/plain; charset=utf-8'' txt as"

definition httpd_send_html :: "nat \<Rightarrow> string \<Rightarrow> send_answer list \<Rightarrow> int \<times> string \<times> send_answer list" where
  "httpd_send_html status html as = send_response status ''text/html; charset=utf-8'' html as"

text \<open>A compressed page, its bytes as they are.\<close>

definition httpd_send_html_gz :: "nat \<Rightarrow> string \<Rightarrow> send_answer list \<Rightarrow> int \<times> string \<times> send_answer list" where
  "httpd_send_html_gz status gz as =
     (case write_socket_all as [] (''HTTP/1.0 '' @ print_base 10 status @ '' '' @ status_text status @ CRLF
         @ ''Content-Type: text/html; charset=utf-8'' @ CRLF @ ''Content-Encoding: gzip'' @ CRLF
         @ ''Content-Length: '' @ print_base 10 (length gz) @ CRLF @ ''Connection: close'' @ CRLF @ CRLF) of (rc, out, as1) \<Rightarrow>
        if rc \<noteq> 0 then (-1, out, as1) else write_socket_all as1 out gz)"

text \<open>The envelopes, cut to their buffers.\<close>

definition httpd_send_ok :: "string \<Rightarrow> send_answer list \<Rightarrow> int \<times> string \<times> send_answer list" where
  "httpd_send_ok data_json as = httpd_send_json 200
     (take 2047 (if data_json \<noteq> [] then ''{\"ok\":true,\"data\":'' @ data_json @ ''}'' else ''{\"ok\":true}'')) as"

definition httpd_send_error :: "nat \<Rightarrow> string option \<Rightarrow> string option \<Rightarrow> send_answer list \<Rightarrow> int \<times> string \<times> send_answer list" where
  "httpd_send_error status code message as = httpd_send_json status
     (take 1023 (''{\"ok\":false,\"error\":{\"code\":\"'' @ (case code of None \<Rightarrow> ''internal_error'' | Some c \<Rightarrow> c)
       @ ''\",\"message\":\"'' @ (case message of None \<Rightarrow> ''unknown error'' | Some m \<Rightarrow> m) @ ''\"}}'')) as"

end
