(* ===== verification/ApiServer.thy ===== *)
theory ApiServer imports ApiSet Httpd Config begin

text \<open>
  The other half of \<open>src/venc_api.c\<close>: the record flags, the second encoder channel, the handlers
  and the routes. A handler is a function of the request and the server's state that gives a status
  and a body; \<open>serve\<close> puts the HTTP server around it. Query callbacks, the encoder's driver, the
  JSON documents of the library and the sensor list are arguments.
\<close>

subsection \<open>Record requests\<close>

record 'w server =
  sv_api :: "'w api_state"
  sv_record_start :: bool
  sv_record_stop :: bool
  sv_record_dir :: string
  sv_dual_active :: bool
  sv_dual_channel :: int
  sv_dual_bitrate :: u32
  sv_dual_fps :: u32
  sv_dual_gop :: u32
  sv_dual_frame_lost :: bool

definition RECORDER_DEFAULT_DIR :: string where "RECORDER_DEFAULT_DIR = ''/mnt/mmcblk0p1''"

definition venc_api_request_record_start :: "string option \<Rightarrow> 'w server \<Rightarrow> 'w server" where
  "venc_api_request_record_start dir s =
     s\<lparr>sv_record_dir := take 255 (case dir of None \<Rightarrow> RECORDER_DEFAULT_DIR | Some d \<Rightarrow> d),
       sv_record_start := True, sv_record_stop := False\<rparr>"

definition venc_api_request_record_stop :: "'w server \<Rightarrow> 'w server" where
  "venc_api_request_record_stop s = s\<lparr>sv_record_stop := True, sv_record_start := False\<rparr>"

text \<open>The pending directory for a buffer of the given size, taken once.\<close>

definition venc_api_get_record_start :: "nat \<Rightarrow> 'w server \<Rightarrow> string option \<times> 'w server" where
  "venc_api_get_record_start buf_size s =
     ((if sv_record_start s then Some (take (buf_size - 1) (sv_record_dir s)) else None), s\<lparr>sv_record_start := False\<rparr>)"

definition venc_api_get_record_stop :: "'w server \<Rightarrow> bool \<times> 'w server" where
  "venc_api_get_record_stop s = (sv_record_stop s, s\<lparr>sv_record_stop := False\<rparr>)"

subsection \<open>The second encoder channel\<close>

datatype rate_mode = H265CBR | H264CBR | H265VBR | H264VBR | H265AVBR | H264AVBR | OTHER_RATE

text \<open>The channel attributes: the rate mode, and of the member of that mode the rate and the GOP.\<close>

record chn_attr =
  ca_mode :: rate_mode
  ca_bits :: u32
  ca_gop :: u32

record 'w venc_driver =
  vd_get_attr :: "int \<Rightarrow> 'w \<Rightarrow> (int \<times> chn_attr) \<times> 'w"
  vd_set_attr :: "int \<Rightarrow> chn_attr \<Rightarrow> 'w \<Rightarrow> int \<times> 'w"
  vd_frame_lost :: "int \<Rightarrow> bool \<Rightarrow> u32 \<Rightarrow> 'w \<Rightarrow> int \<times> 'w"
  vd_request_idr :: "int \<Rightarrow> 'w \<Rightarrow> int \<times> 'w"

definition venc_api_dual_register :: "int \<Rightarrow> u32 \<Rightarrow> u32 \<Rightarrow> u32 \<Rightarrow> bool \<Rightarrow> 'w server \<Rightarrow> 'w server" where
  "venc_api_dual_register channel bitrate fps gop frame_lost s =
     s\<lparr>sv_dual_channel := channel, sv_dual_bitrate := bitrate, sv_dual_fps := fps, sv_dual_gop := gop,
       sv_dual_frame_lost := frame_lost, sv_dual_active := True\<rparr>"

definition venc_api_dual_unregister :: "'w server \<Rightarrow> 'w server" where
  "venc_api_dual_unregister s = s\<lparr>sv_dual_active := False\<rparr>"

definition on_device :: "('w \<Rightarrow> 'r \<times> 'w) \<Rightarrow> 'w server \<Rightarrow> 'r \<times> 'w server" where
  "on_device f s = (case f (a_dev (sv_api s)) of (r, w) \<Rightarrow> (r, s\<lparr>sv_api := (sv_api s)\<lparr>a_dev := w\<rparr>\<rparr>))"

definition dual_apply_bitrate :: "'w venc_driver \<Rightarrow> u32 \<Rightarrow> 'w server \<Rightarrow> int \<times> 'w server" where
  "dual_apply_bitrate drv kbps0 s =
     (let kbps = (if kbps0 > 200000 then 200000 else kbps0); bits = kbps * 1024 in
      case on_device (vd_get_attr drv (sv_dual_channel s)) s of ((rc, attr), s1) \<Rightarrow>
      if rc \<noteq> 0 then (-1, s1)
      else if ca_mode attr = OTHER_RATE then (-1, s1)
      else case on_device (vd_set_attr drv (sv_dual_channel s1) (attr\<lparr>ca_bits := bits\<rparr>)) s1 of (rc2, s2) \<Rightarrow>
      if rc2 \<noteq> 0 then (-1, s2)
      else case on_device (vd_frame_lost drv (sv_dual_channel s2) (sv_dual_frame_lost s2) kbps) s2 of (rc3, s3) \<Rightarrow>
      if rc3 \<noteq> 0 then (-1, s3) else (0, s3\<lparr>sv_dual_bitrate := kbps\<rparr>))"

definition dual_apply_gop :: "'w venc_driver \<Rightarrow> u32 \<Rightarrow> 'w server \<Rightarrow> int \<times> 'w server" where
  "dual_apply_gop drv gop_frames s =
     (case on_device (vd_get_attr drv (sv_dual_channel s)) s of ((rc, attr), s1) \<Rightarrow>
      if rc \<noteq> 0 then (-1, s1)
      else if ca_mode attr = OTHER_RATE then (-1, s1)
      else case on_device (vd_set_attr drv (sv_dual_channel s1) (attr\<lparr>ca_gop := gop_frames\<rparr>)) s1 of (rc2, s2) \<Rightarrow>
      if rc2 \<noteq> 0 then (-1, s2) else (0, s2\<lparr>sv_dual_gop := gop_frames\<rparr>))"

subsection \<open>Handlers\<close>

datatype reply = Json nat string | Plain nat string | Page

text \<open>The envelopes of \<open>httpd_send_ok\<close> and \<open>httpd_send_error\<close>.\<close>

definition reply_ok :: "string \<Rightarrow> reply" where
  "reply_ok data = Json 200 (take 2047 (''{\"ok\":true,\"data\":'' @ data @ ''}''))"

definition reply_error :: "nat \<Rightarrow> string \<Rightarrow> string \<Rightarrow> reply" where
  "reply_error status code msg =
     Json status (take 1023 (''{\"ok\":false,\"error\":{\"code\":\"'' @ code @ ''\",\"message\":\"'' @ msg @ ''\"}}''))"

record record_status =
  rs_active :: bool
  rs_format :: string
  rs_path :: string
  rs_frames :: u32
  rs_bytes :: u64
  rs_segments :: u32
  rs_stop_reason :: string

text \<open>What the handlers ask the backend and the libraries for; \<open>None\<close> is a null entry or result.\<close>

record 'w api_lib =
  al_version :: string
  al_print_json :: "json \<Rightarrow> string option"
  al_fmt_g :: "dbl \<Rightarrow> string"
  al_strtod :: "string \<Rightarrow> dbl"
  al_live_fps :: "('w \<Rightarrow> u32) option"
  al_awb :: "('w \<Rightarrow> string option) option"
  al_iq :: "('w \<Rightarrow> string option) option"
  al_ae :: "('w \<Rightarrow> string option) option"
  al_metrics :: "('w \<Rightarrow> string option) option"
  al_iq_param :: "(string \<Rightarrow> string \<Rightarrow> 'w \<Rightarrow> int \<times> 'w) option"
  al_iq_import :: "string \<Rightarrow> 'w \<Rightarrow> int \<times> 'w"
  al_idr :: "('w \<Rightarrow> int \<times> 'w) option"
  al_record_status :: "('w \<Rightarrow> record_status) option"
  al_modes :: "'w \<Rightarrow> string option"
  al_driver :: "'w venc_driver"
  al_fmt_2f :: "dbl \<Rightarrow> string"

text \<open>The four handlers that print what a query callback gives.\<close>

definition query_reply :: "('w \<Rightarrow> string option) option \<Rightarrow> (nat \<Rightarrow> string \<Rightarrow> reply) \<Rightarrow> string \<Rightarrow> 'w server \<Rightarrow> reply" where
  "query_reply cb wrap what s = (case cb of None \<Rightarrow> reply_error 501 ''not_implemented'' (what @ '' not available'')
     | Some q \<Rightarrow> (case q (a_dev (sv_api s)) of None \<Rightarrow> reply_error 500 ''internal_error'' (what @ '' failed'')
        | Some body \<Rightarrow> wrap 200 body))"

definition handle_version :: "'w api_env \<Rightarrow> 'w api_lib \<Rightarrow> reply" where
  "handle_version env lib = Json 200 (take 511 (''{\"ok\":true,\"data\":{\"app_version\":\"'' @ al_version lib
     @ ''\",\"contract_version\":\"0.3.0\",\"config_schema_version\":\"1.0.0\",\"backend\":\"'' @ e_backend env @ ''\"}}''))"

definition venc_config_to_json_string :: "'w api_lib \<Rightarrow> venc_config \<Rightarrow> string option" where
  "venc_config_to_json_string lib cfg = al_print_json lib (config_to_cjson (float_clean (al_fmt_g lib) (al_strtod lib)) cfg)"

definition handle_config :: "'w api_lib \<Rightarrow> 'w server \<Rightarrow> reply" where
  "handle_config lib s = (case venc_config_to_json_string lib (a_cfg (sv_api s)) of
     None \<Rightarrow> reply_error 500 ''internal_error'' ''failed to serialize config''
   | Some j \<Rightarrow> Json 200 (''{\"ok\":true,\"data\":{\"config\":'' @ j @ ''}}''))"

definition capabilities_json :: "string \<Rightarrow> json" where
  "capabilities_json backend_name = JObject [(''ok'', JBool True), (''data'', JObject [(''fields'', JObject (map (\<lambda>f.
     (fd_key f, JObject [(''mutability'', JString (if fd_mut f = MUT_LIVE then ''live'' else ''restart_required'')),
       (''supported'', JBool (venc_api_field_supported_for_backend backend_name (Some (fd_key f))))])) g_fields))])]"

definition handle_capabilities :: "'w api_env \<Rightarrow> 'w api_lib \<Rightarrow> reply" where
  "handle_capabilities env lib = (case al_print_json lib (capabilities_json (e_backend env)) of
     None \<Rightarrow> reply_error 500 ''internal_error'' ''out of memory'' | Some j \<Rightarrow> Json 200 j)"

definition fps_reply :: "u32 \<Rightarrow> reply" where
  "fps_reply fps = Json 200 (take 127 (''{\"ok\":true,\"data\":{\"fps\":'' @ print_u fps @ ''}}''))"

definition handle_fps_config :: "'w server \<Rightarrow> reply" where
  "handle_fps_config s = fps_reply (vid_fps (c_video0 (a_cfg (sv_api s))))"

definition handle_fps_live :: "'w api_lib \<Rightarrow> 'w server \<Rightarrow> reply" where
  "handle_fps_live lib s =
     (let fps = (case al_live_fps lib of None \<Rightarrow> 0 | Some q \<Rightarrow> q (a_dev (sv_api s)))
      in fps_reply (if fps = 0 then vid_fps (c_video0 (a_cfg (sv_api s))) else fps))"

definition handle_iq_set :: "'w api_lib \<Rightarrow> string \<Rightarrow> 'w server \<Rightarrow> reply \<times> 'w server" where
  "handle_iq_set lib query s =
     (case al_iq_param lib of None \<Rightarrow> (reply_error 501 ''not_implemented'' ''IQ set not available'', s)
      | Some apply_iq_param \<Rightarrow>
        (case parse_first_query_param query 64 256 of
           None \<Rightarrow> (reply_error 400 ''invalid_request'' ''usage: /api/v1/iq/set?param=value'', s)
         | Some (key, val) \<Rightarrow>
           if key = [] \<or> val = [] then (reply_error 400 ''invalid_request'' ''usage: /api/v1/iq/set?param=value'', s)
           else if \<not> list_all (\<lambda>c. c = CHR ''-'' \<or> c = CHR '','' \<or> digit_val c < 10) val
           then (reply_error 400 ''invalid_request'' ''value must be numeric (comma-separated for arrays)'', s)
           else case on_device (apply_iq_param key val) s of (rc, s1) \<Rightarrow>
             if rc \<noteq> 0 then (reply_error 400 ''apply_failed'' ''IQ parameter set failed'', s1)
             else (Json 200 (take 511 (''{\"ok\":true,\"data\":{\"param\":\"'' @ key @ ''\",\"value\":''
               @ (if CHR '','' \<in> set val then ''['' @ val @ '']'' else val) @ ''}}'')), s1)))"

definition handle_iq_import :: "'w api_lib \<Rightarrow> string \<Rightarrow> 'w server \<Rightarrow> reply \<times> 'w server" where
  "handle_iq_import lib body s =
     (if body = [] \<or> hd body = CHR 0x00
      then (reply_error 400 ''invalid_request'' ''POST JSON body required (output of /api/v1/iq)'', s)
      else case on_device (al_iq_import lib (c_str body)) s of (rc, s1) \<Rightarrow>
        (if rc \<noteq> 0 then reply_error 500 ''import_partial'' ''some parameters failed to apply''
         else reply_ok ''{\"imported\":true}'', s1))"

definition handle_idr :: "'w api_lib \<Rightarrow> 'w server \<Rightarrow> reply \<times> 'w server" where
  "handle_idr lib s = (case al_idr lib of None \<Rightarrow> (reply_error 501 ''not_implemented'' ''IDR request not available'', s)
     | Some f \<Rightarrow> (case on_device f s of (rc, s1) \<Rightarrow>
         (if rc \<noteq> 0 then reply_error 500 ''internal_error'' ''IDR request failed'' else reply_ok ''{\"idr\":true}'', s1)))"

definition handle_record_start :: "string \<Rightarrow> 'w server \<Rightarrow> reply \<times> 'w server" where
  "handle_record_start query s =
     (let cfg_dir = rec_dir (c_record (a_cfg (sv_api s)));
          fallback = take 255 (if cfg_dir \<noteq> [] then cfg_dir else RECORDER_DEFAULT_DIR);
          dir = (if query = [] then fallback
                 else case parse_first_query_param query 64 256 of None \<Rightarrow> fallback
                   | Some (key, val) \<Rightarrow> if key = ''dir'' \<and> val \<noteq> [] then val else fallback)
      in (Json 200 (take 511 (''{\"ok\":true,\"data\":{\"action\":\"start\",\"dir\":\"'' @ dir @ ''\"}}'')),
          venc_api_request_record_start (Some dir) s))"

definition handle_record_stop :: "'w server \<Rightarrow> reply \<times> 'w server" where
  "handle_record_stop s = (reply_ok ''{\"action\":\"stop\"}'', venc_api_request_record_stop s)"

definition no_record :: record_status where
  "no_record = \<lparr>rs_active = False, rs_format = '''', rs_path = '''', rs_frames = 0, rs_bytes = 0, rs_segments = 0, rs_stop_reason = ''''\<rparr>"

definition handle_record_status :: "'w api_lib \<Rightarrow> 'w server \<Rightarrow> reply" where
  "handle_record_status lib s =
     (let st = (case al_record_status lib of None \<Rightarrow> no_record | Some f \<Rightarrow> f (a_dev (sv_api s)))
      in Json 200 (take 1023 (''{\"ok\":true,\"data\":{\"active\":'' @ (if rs_active st then ''true'' else ''false'')
        @ '',\"format\":\"'' @ rs_format st @ ''\",\"path\":\"'' @ rs_path st @ ''\",\"frames\":'' @ print_u (rs_frames st)
        @ '',\"bytes\":'' @ print_base 10 (unat (rs_bytes st)) @ '',\"segments\":'' @ print_u (rs_segments st)
        @ '',\"stop_reason\":\"'' @ rs_stop_reason st @ ''\"}}'')))"

definition not_active :: reply where
  "not_active = reply_error 404 ''not_active'' ''Dual VENC channel is not active''"

definition handle_dual_status :: "'w server \<Rightarrow> reply" where
  "handle_dual_status s =
     (if \<not> sv_dual_active s then not_active
      else Json 200 (take 511 (''{\"ok\":true,\"data\":{\"active\":true,\"channel\":'' @ print_int (sv_dual_channel s)
        @ '',\"bitrate\":'' @ print_u (sv_dual_bitrate s) @ '',\"fps\":'' @ print_u (sv_dual_fps s)
        @ '',\"gop\":'' @ print_u (sv_dual_gop s) @ ''}}'')))"

definition handle_dual_set :: "'w api_env \<Rightarrow> 'w api_lib \<Rightarrow> string \<Rightarrow> 'w server \<Rightarrow> reply \<times> 'w server" where
  "handle_dual_set env lib q s =
     (if \<not> sv_dual_active s then (not_active, s)
      else if q = [] then (reply_error 400 ''missing_param'' ''Usage: /api/v1/dual/set?bitrate=N or ?gop=N'', s)
      else if has_prefix ''bitrate='' q then
        case c_strtoul 10 (drop 8 q) of (val, rest) \<Rightarrow>
        if rest = drop 8 q \<or> (rest \<noteq> [] \<and> hd rest \<noteq> CHR ''&'') \<or> val = 0 \<or> val > 200000
        then (reply_error 400 ''invalid_value'' ''bitrate must be 1-200000 kbps'', s)
        else case dual_apply_bitrate (al_driver lib) val s of (ret, s1) \<Rightarrow>
          if ret \<noteq> 0 then (reply_error 500 ''apply_failed'' ''MI_VENC_SetChnAttr failed'', s1)
          else (Json 200 (take 255 (''{\"ok\":true,\"data\":{\"field\":\"bitrate\",\"value\":'' @ print_u val @ ''}}'')), s1)
      else if has_prefix ''gop='' q then
        let gop_sec = fst (e_strtod env (drop 4 q)) in
        if dbl_le_0 gop_sec then (reply_error 400 ''invalid_value'' ''gop must be > 0 (seconds)'', s)
        else
          let f = dbl_to_u32 (dbl_plus_rat (e_rnd env) (dbl_times_nat (e_rnd env) gop_sec (unat (sv_dual_fps s))) (1 / 2));
              frames = (if f < 1 then 1 else f)
          in case dual_apply_gop (al_driver lib) frames s of (ret, s1) \<Rightarrow>
            if ret \<noteq> 0 then (reply_error 500 ''apply_failed'' ''MI_VENC_SetChnAttr failed'', s1)
            else (Json 200 (take 255 (''{\"ok\":true,\"data\":{\"field\":\"gop\",\"value\":'' @ al_fmt_2f lib gop_sec
                   @ '',\"frames\":'' @ print_u frames @ ''}}'')), s1)
      else (reply_error 400 ''unknown_param'' ''Supported: bitrate, gop'', s))"

definition handle_dual_idr :: "'w api_lib \<Rightarrow> 'w server \<Rightarrow> reply \<times> 'w server" where
  "handle_dual_idr lib s =
     (if \<not> sv_dual_active s then (not_active, s)
      else case on_device (vd_request_idr (al_driver lib) (sv_dual_channel s)) s of (ret, s1) \<Rightarrow>
        (if ret \<noteq> 0 then reply_error 500 ''idr_failed'' ''MI_VENC_RequestIdr failed''
         else Json 200 ''{\"ok\":true,\"data\":{\"idr\":true}}'', s1))"

subsection \<open>Routes\<close>

datatype api_handler = A_version | A_config | A_capabilities | A_set | A_get | A_fps_config | A_fps_live | A_restart
  | A_ae | A_awb | A_iq_set | A_iq_import | A_iq | A_modes | A_isp_metrics | A_idr | A_record_start | A_record_stop
  | A_record_status | A_dual_status | A_dual_set | A_dual_idr | A_dashboard

definition api_route_list :: "(string \<times> string \<times> api_handler) list" where
  "api_route_list =
    [(''GET'', ''/api/v1/version'', A_version), (''GET'', ''/api/v1/config'', A_config),
     (''GET'', ''/api/v1/config.json'', A_config), (''GET'', ''/api/v1/capabilities'', A_capabilities),
     (''GET'', ''/api/v1/set'', A_set), (''GET'', ''/api/v1/get'', A_get),
     (''GET'', ''/api/v1/fps/config'', A_fps_config), (''GET'', ''/api/v1/fps/live'', A_fps_live),
     (''GET'', ''/api/v1/restart'', A_restart), (''GET'', ''/api/v1/ae'', A_ae), (''GET'', ''/api/v1/awb'', A_awb),
     (''GET'', ''/api/v1/iq/set'', A_iq_set), (''POST'', ''/api/v1/iq/import'', A_iq_import), (''GET'', ''/api/v1/iq'', A_iq),
     (''GET'', ''/api/v1/modes'', A_modes), (''GET'', ''/metrics/isp'', A_isp_metrics), (''GET'', ''/request/idr'', A_idr),
     (''GET'', ''/api/v1/record/start'', A_record_start), (''GET'', ''/api/v1/record/stop'', A_record_stop),
     (''GET'', ''/api/v1/record/status'', A_record_status), (''GET'', ''/api/v1/dual/status'', A_dual_status),
     (''GET'', ''/api/v1/dual/set'', A_dual_set), (''GET'', ''/api/v1/dual/idr'', A_dual_idr), (''GET'', ''/'', A_dashboard)]"

text \<open>Registering them in order: the result codes combined, and the table.\<close>

definition register_routes :: "api_handler http_route list \<Rightarrow> int \<times> api_handler http_route list" where
  "register_routes routes =
     fold (\<lambda>(m, p, h) (r, rs). case venc_httpd_route m p h rs of (rc, rs1) \<Rightarrow> (if rc \<noteq> 0 then -1 else r, rs1))
       api_route_list (0, routes)"

text \<open>Registered once; a failure leaves what was added and lets the next call try again. The flag and
  the table are the state; the callbacks and the backend's name are arguments of the handlers.\<close>

definition venc_api_register :: "bool \<Rightarrow> api_handler http_route list \<Rightarrow> int \<times> bool \<times> api_handler http_route list" where
  "venc_api_register registered routes =
     (if registered then (0, True, routes)
      else case register_routes routes of (r, rs) \<Rightarrow> if r \<noteq> 0 then (-1, False, rs) else (0, True, rs))"

text \<open>\<open>handle_set\<close>: a request that failed without an answer, or an empty one, is a 500.\<close>

definition handle_set_reply :: "response option \<Rightarrow> reply" where
  "handle_set_reply r = (case r of None \<Rightarrow> reply_error 500 ''internal_error'' ''out of memory''
     | Some (status, body) \<Rightarrow> Json status body)"

definition run_handler ::
  "'w api_env \<Rightarrow> 'w api_lib \<Rightarrow> api_handler \<Rightarrow> http_request \<Rightarrow> 'w server \<Rightarrow> reply \<times> 'w server" where
  "run_handler env lib h req s =
     (case h of
        A_version \<Rightarrow> (handle_version env lib, s)
      | A_config \<Rightarrow> (handle_config lib s, s)
      | A_capabilities \<Rightarrow> (handle_capabilities env lib, s)
      | A_set \<Rightarrow> (case process_set_query env (hr_query req) (sv_api s) of (r, a) \<Rightarrow> (handle_set_reply r, s\<lparr>sv_api := a\<rparr>))
      | A_get \<Rightarrow> (case handle_get env (hr_query req) (sv_api s) of (status, body) \<Rightarrow> (Json status body, s))
      | A_fps_config \<Rightarrow> (handle_fps_config s, s)
      | A_fps_live \<Rightarrow> (handle_fps_live lib s, s)
      | A_restart \<Rightarrow> (reply_ok ''{\"reinit\":true}'', s\<lparr>sv_api := handle_restart (sv_api s)\<rparr>)
      | A_ae \<Rightarrow> (query_reply (al_ae lib) Json ''AE query'' s, s)
      | A_awb \<Rightarrow> (query_reply (al_awb lib) Json ''AWB query'' s, s)
      | A_iq_set \<Rightarrow> handle_iq_set lib (hr_query req) s
      | A_iq_import \<Rightarrow> handle_iq_import lib (hr_body req) s
      | A_iq \<Rightarrow> (query_reply (al_iq lib) Json ''IQ query'' s, s)
      | A_modes \<Rightarrow> ((case al_modes lib (a_dev (sv_api s)) of None \<Rightarrow> reply_error 500 ''modes_failed'' ''Failed to query sensor modes''
          | Some j \<Rightarrow> Json 200 j), s)
      | A_isp_metrics \<Rightarrow> ((case al_metrics lib of None \<Rightarrow> reply_error 501 ''not_implemented'' ''ISP metrics not available''
          | Some q \<Rightarrow> (case q (a_dev (sv_api s)) of None \<Rightarrow> reply_error 500 ''internal_error'' ''ISP metrics query failed''
             | Some body \<Rightarrow> Plain 200 body)), s)
      | A_idr \<Rightarrow> handle_idr lib s
      | A_record_start \<Rightarrow> handle_record_start (hr_query req) s
      | A_record_stop \<Rightarrow> handle_record_stop s
      | A_record_status \<Rightarrow> (handle_record_status lib s, s)
      | A_dual_status \<Rightarrow> (handle_dual_status s, s)
      | A_dual_set \<Rightarrow> handle_dual_set env lib (hr_query req) s
      | A_dual_idr \<Rightarrow> handle_dual_idr lib s
      | A_dashboard \<Rightarrow> (Page, s))"

text \<open>One connection: what is sent back (the dashboard's bytes are an argument), and the state.\<close>

definition send_reply :: "string \<Rightarrow> reply \<Rightarrow> send_answer list \<Rightarrow> int \<times> string \<times> send_answer list" where
  "send_reply page r as = (case r of Json st body \<Rightarrow> httpd_send_json st body as | Plain st body \<Rightarrow> httpd_send_text st body as
     | Page \<Rightarrow> httpd_send_html_gz 200 page as)"

definition serve ::
  "'w api_env \<Rightarrow> 'w api_lib \<Rightarrow> string \<Rightarrow> api_handler http_route list \<Rightarrow> read_answer list \<Rightarrow> send_answer list \<Rightarrow> 'w server
   \<Rightarrow> string \<times> 'w server" where
  "serve env lib page routes reads sends s =
     (case parse_request reads of None \<Rightarrow> ([], s)
      | Some req \<Rightarrow>
          (case (case dispatch routes req of
                   None \<Rightarrow> (reply_error 404 ''not_found'' ''no matching route'', s)
                 | Some h \<Rightarrow> run_handler env lib h req s) of (r, s1) \<Rightarrow>
             (case send_reply page r sends of (rc, out, as) \<Rightarrow> (out, s1))))"

end
