(* ===== verification/HttpdProps.thy ===== *)
theory HttpdProps imports Httpd begin

text \<open>
  The HTTP server: a well-formed request is parsed the same however the network cuts it up, the
  response goes out whole, and routes.
\<close>

subsection \<open>Searching\<close>

lemma find_sub_split: "find_sub pat s = Some (a, b) \<Longrightarrow> s = a @ b \<and> prefix pat b"
proof (induction pat s arbitrary: a b rule: find_sub.induct)
  case (1 pat s)
  show ?case
  proof (cases "prefix pat s")
    case True
    with "1.prems" show ?thesis by (subst (asm) find_sub.simps) simp
  next
    case False
    with "1.prems" obtain c cs a' where s: "s = c # cs" "find_sub pat cs = Some (a', b)" "a = c # a'"
      by (subst (asm) find_sub.simps) (auto split: list.splits)
    with "1.IH" [OF False s(1) s(2)] show ?thesis by simp
  qed
qed

lemma find_sub_append: "find_sub pat s = Some (a, b) \<Longrightarrow> find_sub pat (s @ t) = Some (a, b @ t)"
proof (induction pat s arbitrary: a b rule: find_sub.induct)
  case (1 pat s)
  show ?case
  proof (cases "prefix pat s")
    case True
    with "1.prems" have "a = [] \<and> b = s" by (subst (asm) find_sub.simps) simp
    with True show ?thesis by (subst find_sub.simps) (simp add: prefix_append)
  next
    case False
    with "1.prems" obtain c cs a' where s: "s = c # cs" "find_sub pat cs = Some (a', b)" "a = c # a'"
      by (subst (asm) find_sub.simps) (auto split: list.splits)
    have "length pat \<le> length s"
      using find_sub_split [OF s(2)] s(1) by (auto dest: prefix_length_le)
    with False have "\<not> prefix pat (s @ t)" by (auto simp: prefix_append)
    with s "1.IH" [OF False s(1) s(2)] show ?thesis by (subst find_sub.simps) simp
  qed
qed

lemma find_sub_here: "prefix pat s \<Longrightarrow> find_sub pat s = Some ([], s)"
  by (subst find_sub.simps) simp

lemma find_sub_Cons:
  "find_sub pat (c # cs) =
     (if prefix pat (c # cs) then Some ([], c # cs) else map_option (\<lambda>(a, b). (c # a, b)) (find_sub pat cs))"
  by (subst find_sub.simps) simp

lemma find_sub_line:
  "find_sub (CRLF @ CRLF) s = Some (a, b) \<Longrightarrow> CHR 0x0D \<notin> set l \<Longrightarrow> find_sub (CRLF @ CRLF) (l @ s) = Some (l @ a, b)"
proof (induction l)
  case (Cons c l)
  then have "\<not> prefix (CRLF @ CRLF) (c # l @ s)" by (auto simp: CRLF_def)
  with Cons show ?case by (simp add: find_sub_Cons)
qed simp

lemma find_sub_skip:
  "p \<notin> set a \<Longrightarrow> find_sub (p # pat) (a @ p # pat @ b) = Some (a, p # pat @ b)"
proof (induction a)
  case Nil
  show ?case by (simp add: find_sub_here)
next
  case (Cons c cs)
  then show ?case by (subst find_sub.simps) auto
qed

text \<open>Nothing shorter than the text up to the first occurrence contains one.\<close>

lemma find_sub_first:
  assumes "find_sub pat (a @ pat) = Some (a, pat)" and "prefix p (a @ pat)" and "length p < length (a @ pat)"
  shows "find_sub pat p = None"
proof (rule ccontr)
  assume "find_sub pat p \<noteq> None"
  then obtain x y where f: "find_sub pat p = Some (x, y)" by auto
  from assms(2) obtain t where t: "a @ pat = p @ t" by (auto simp: prefix_def)
  from find_sub_append [OF f, of t] assms(1) t have "x = a" "y @ t = pat" by auto
  moreover have "length pat \<le> length y" using find_sub_split [OF f] by (auto dest: prefix_length_le)
  ultimately have "t = []" by (metis add_le_same_cancel1 le_zero_eq length_0_conv length_append)
  with t assms(3) show False by simp
qed

lemma find_sub_found:
  assumes "find_sub pat h \<noteq> None" and "prefix h p"
  shows "find_sub pat p \<noteq> None"
  using assms find_sub_append by (fastforce simp: prefix_def)

subsection \<open>Reading\<close>

lemma split_long:
  assumes "x @ y = h @ b" and "length h \<le> length x"
  shows "\<exists>r. x = h @ r \<and> r @ y = b"
proof -
  have h: "take (length h) x = h" using assms(2) arg_cong [OF assms(1), of "take (length h)"] by simp
  then have x: "x = h @ drop (length h) x" using append_take_drop_id [of "length h" x] by metis
  with assms(1) have "drop (length h) x @ y = b" by (metis append.assoc same_append_eq)
  with x show ?thesis by blast
qed

lemma split_short: "x @ y = h @ b \<Longrightarrow> length x < length h \<Longrightarrow> prefix x h"
proof -
  assume a: "x @ y = h @ b" "length x < length h"
  then show "prefix x h" by (auto simp: append_eq_append_conv2 prefix_def)
qed

text \<open>What a list of answers will give before an error or the end.\<close>

fun incoming :: "read_answer list \<Rightarrow> string" where
  "incoming [] = []"
| "incoming (Got s # as) = s @ incoming as"
| "incoming (_ # as) = incoming as"

text \<open>Answers without an error and without an empty read.\<close>

definition flowing :: "read_answer list \<Rightarrow> bool" where
  "flowing as \<longleftrightarrow> ReadError \<notin> set as \<and> Got [] \<notin> set as"

lemma read_head_complete:
  assumes "find_sub (CRLF @ CRLF) (h @ CRLF @ CRLF) = Some (h, CRLF @ CRLF)"
    and "flowing as" and "acc @ incoming as = (h @ CRLF @ CRLF) @ body" and "length (h @ CRLF @ CRLF) \<le> cap"
    and "length acc < length (h @ CRLF @ CRLF)"
  shows "\<exists>b as'. read_head cap acc as = ((h @ CRLF @ CRLF) @ b, as') \<and> flowing as' \<and> b @ incoming as' = body"
  using assms(2-5)
proof (induction cap acc as rule: read_head.induct)
  case (1 cap acc)
  then show ?case by auto
next
  case (2 cap acc a as)
  let ?H = "h @ CRLF @ CRLF"
  show ?case
  proof (cases a)
    case ReadIntr
    with 2 show ?thesis by (auto simp: flowing_def)
  next
    case ReadError
    with 2 show ?thesis by (simp add: flowing_def)
  next
    case (Got s)
    with 2 have s: "s \<noteq> []" "flowing as" by (auto simp: flowing_def)
    let ?n = "cap - length acc"
    show ?thesis
    proof (cases "length s > ?n")
      case True
      have l: "length (acc @ take ?n s) = cap" using True "2.prems"(3,4) by auto
      have e: "(acc @ take ?n s) @ (drop ?n s @ incoming as) = ?H @ body"
        using "2.prems"(2) Got by (metis append.assoc append_take_drop_id incoming.simps(2))
      then obtain b where b: "acc @ take ?n s = ?H @ b" "b @ drop ?n s @ incoming as = body"
        using split_long [OF e] l "2.prems"(3) by auto
      have "read_head cap acc (a # as) = (?H @ b, Got (drop ?n s) # as)"
        using "2.prems"(3,4) Got s True b(1) by (auto simp: Let_def)
      moreover have "flowing (Got (drop ?n s) # as)" using s True by (auto simp: flowing_def)
      ultimately show ?thesis using b(2) by auto
    next
      case False
      have e: "(acc @ s) @ incoming as = ?H @ body" using "2.prems"(2) Got by simp
      show ?thesis
      proof (cases "length (acc @ s) < length ?H")
        case True
        have "prefix (acc @ s) ?H" by (rule split_short [OF e True])
        then have "find_sub (CRLF @ CRLF) (acc @ s) = None" using find_sub_first [of "CRLF @ CRLF" h "acc @ s"] assms(1) True by simp
        moreover have "\<not> cap \<le> length acc" using "2.prems" by simp
        ultimately show ?thesis
          using "2.IH"(1) [OF _ Got] Got s False e True "2.prems"(3) by (auto simp: Let_def)
      next
        case long: False
        then obtain b where b: "acc @ s = ?H @ b" "b @ incoming as = body" using split_long [OF e] by auto
        have "find_sub (CRLF @ CRLF) (acc @ s) \<noteq> None"
          using find_sub_found [of "CRLF @ CRLF" ?H "acc @ s"] assms(1) b(1) by (auto simp: prefix_def)
        then have "read_head cap acc (a # as) = (acc @ s, as)"
          using "2.prems"(3,4) Got s False by (auto simp: Let_def)
        with b s show ?thesis by auto
      qed
    qed
  qed
qed

lemma read_body_take:
  "flowing as \<Longrightarrow> length acc \<le> len \<Longrightarrow> fst (read_body len acc as) = take len (acc @ incoming as)"
proof (induction len acc as rule: read_body.induct)
  case (2 len acc a as)
  show ?case
  proof (cases "len \<le> length acc")
    case True
    with "2.prems" show ?thesis by simp
  next
    case False
    with 2 show ?thesis by (cases a) (auto simp: flowing_def Let_def)
  qed
qed simp

subsection \<open>A request\<close>

text \<open>The text a client sends; a question mark only in front of a query.\<close>

definition request_head :: "string \<Rightarrow> string \<Rightarrow> string \<Rightarrow> string \<Rightarrow> string" where
  "request_head method path query version =
     method @ '' '' @ path @ (if query = [] then [] else ''?'' @ query) @ '' '' @ version"

definition plain :: "char set \<Rightarrow> string \<Rightarrow> bool" where
  "plain cs s \<longleftrightarrow> set s \<inter> ({CHR 0x00, CHR 0x0D} \<union> cs) = {}"

lemma takeWhile_until: "c \<notin> set a \<Longrightarrow> takeWhile (\<lambda>x. x \<noteq> c) (a @ c # b) = a"
  by (induction a) auto

lemma takeWhile_all: "c \<notin> set a \<Longrightarrow> takeWhile (\<lambda>x. x \<noteq> c) a = a"
  by (auto simp: takeWhile_eq_all_conv)

lemma request_line_parts:
  fixes version :: string
  assumes "plain {CHR '' ''} method" and "plain {CHR '' '', CHR ''?''} path" and "plain {CHR '' ''} query"
    and line_def: "line = request_head method path query version"
  shows "takeWhile (\<lambda>c. c \<noteq> CHR '' '') line = method"
    and "takeWhile (\<lambda>c. c \<noteq> CHR '' '') (drop (length method + 1) line) = path @ (if query = [] then [] else ''?'' @ query)"
    and "takeWhile (\<lambda>c. c \<noteq> CHR ''?'') (path @ (if query = [] then [] else ''?'' @ query)) = path"
    and "drop (length path + 1) (path @ (if query = [] then [] else ''?'' @ query)) = query"
proof -
  have m: "CHR '' '' \<notin> set method" and p: "CHR '' '' \<notin> set path" "CHR ''?'' \<notin> set path" and q: "CHR '' '' \<notin> set query"
    using assms(1-3) by (auto simp: plain_def)
  let ?uri = "path @ (if query = [] then [] else ''?'' @ query)"
  have line: "line = method @ CHR '' '' # (?uri @ CHR '' '' # version)" by (simp add: line_def request_head_def)
  show "takeWhile (\<lambda>c. c \<noteq> CHR '' '') line = method" unfolding line by (rule takeWhile_until [OF m])
  have "drop (length method + 1) line = ?uri @ CHR '' '' # version" unfolding line by simp
  moreover have "CHR '' '' \<notin> set ?uri" using p q by auto
  ultimately show "takeWhile (\<lambda>c. c \<noteq> CHR '' '') (drop (length method + 1) line) = ?uri"
    using takeWhile_until by metis
  show "takeWhile (\<lambda>c. c \<noteq> CHR ''?'') ?uri = path"
    using takeWhile_until [OF p(2)] takeWhile_all [OF p(2)] by auto
  show "drop (length path + 1) ?uri = query" by simp
qed

lemma c_str_keep: "CHR 0x00 \<notin> set a \<Longrightarrow> c_str (a @ b) = a @ c_str b"
  unfolding c_str_def by (induction a) auto

lemma parse_request_whole:
  assumes "plain {CHR '' ''} method" "plain {CHR '' '', CHR ''?''} path" "plain {CHR '' ''} query" "plain {} version"
    and "length method \<le> 7" "length path \<le> 255" "length query \<le> 511"
    and headers: "headers \<noteq> []" "hd headers \<noteq> CHR 0x0D" "CHR 0x00 \<notin> set headers"
      "find_sub (CRLF @ CRLF) (headers @ CRLF @ CRLF) = Some (headers, CRLF @ CRLF)"
    and announced: "\<And>b. prefix b body \<Longrightarrow> content_length (headers @ CRLF @ CRLF @ b) = length body"
    and room: "length (request_head method path query version @ CRLF @ headers @ CRLF @ CRLF) \<le> 10239"
    and "flowing as" and sent: "incoming as = request_head method path query version @ CRLF @ headers @ CRLF @ CRLF @ body"
  shows "parse_request as = Some \<lparr>hr_method = method, hr_path = path, hr_query = query, hr_body = body\<rparr>"
proof -
  let ?line = "request_head method path query version"
  note parts = request_line_parts [OF assms(1-3) refl [of "request_head method path query version"]]
  have plain_line: "CHR 0x00 \<notin> set ?line" "CHR 0x0D \<notin> set ?line"
    using assms(1-4) by (auto simp: plain_def request_head_def)
  let ?h = "?line @ CRLF @ headers"
  have first: "find_sub (CRLF @ CRLF) (?h @ CRLF @ CRLF) = Some (?h, CRLF @ CRLF)"
  proof -
    have pat: "CRLF @ CRLF = CHR 0x0D # CHR 0x0A # CRLF" by (simp add: CRLF_def)
    have "find_sub (CRLF @ CRLF) (CHR 0x0A # headers @ CRLF @ CRLF) = Some (CHR 0x0A # headers, CRLF @ CRLF)"
      using headers(4) unfolding find_sub_Cons by (simp add: pat)
    moreover have "\<not> prefix (CRLF @ CRLF) (CHR 0x0D # CHR 0x0A # headers @ CRLF @ CRLF)"
      using headers(1,2) by (cases headers) (auto simp: CRLF_def)
    ultimately have "find_sub (CRLF @ CRLF) (CHR 0x0D # CHR 0x0A # headers @ CRLF @ CRLF) = Some (CRLF @ headers, CRLF @ CRLF)"
      unfolding find_sub_Cons [of _ "CHR 0x0D"] by (simp add: CRLF_def)
    then have nl: "find_sub (CRLF @ CRLF) (CRLF @ headers @ CRLF @ CRLF) = Some (CRLF @ headers, CRLF @ CRLF)" by (simp add: CRLF_def)
    have "find_sub (CRLF @ CRLF) (?line @ CRLF @ headers @ CRLF @ CRLF) = Some (?line @ CRLF @ headers, CRLF @ CRLF)"
      by (rule find_sub_line [OF nl plain_line(2)])
    then show ?thesis by simp
  qed
  have "[] @ incoming as = (?h @ CRLF @ CRLF) @ body" using sent by simp
  then obtain b as1 where rd: "read_head 10239 [] as = ((?h @ CRLF @ CRLF) @ b, as1)" "flowing as1" "b @ incoming as1 = body"
    using read_head_complete [OF first \<open>flowing as\<close>, of "[]" body 10239] room by (auto simp: CRLF_def)
  let ?raw = "(?h @ CRLF @ CRLF) @ b"
  have cl: "content_length (headers @ CRLF @ CRLF @ b) = length body" using announced rd(3) by auto
  have raw0: "c_str ?raw = ?line @ CRLF @ headers @ CRLF @ CRLF @ c_str b"
    using c_str_keep [of "?h @ CRLF @ CRLF" b] plain_line headers(3) by (simp add: CRLF_def)
  have l1: "find_sub CRLF (c_str ?raw) = Some (?line, CRLF @ headers @ CRLF @ CRLF @ c_str b)"
    using find_sub_skip [OF plain_line(2), of "[CHR 0x0A]"] unfolding raw0 by (simp add: CRLF_def)
  have hs: "drop (length ?line + 2) ?raw = headers @ CRLF @ CRLF @ b" by (simp add: CRLF_def)
  have "c_str (headers @ CRLF @ CRLF @ b) = (headers @ CRLF @ CRLF) @ c_str b"
    using c_str_keep [of "headers @ CRLF @ CRLF" b] headers(3) by (simp add: CRLF_def)
  then have l2: "find_sub (CRLF @ CRLF) (c_str (headers @ CRLF @ CRLF @ b)) = Some (headers, CRLF @ CRLF @ c_str b)"
    using find_sub_append [OF headers(4), of "c_str b"] by simp
  have body: "fst (read_body (length body) (take (length body) b) as1) = body"
    using read_body_take [OF rd(2), of "take (length body) b" "length body"] rd(3) by auto
  have sp: "CHR '' '' \<in> set ?line" by (simp add: request_head_def)
  have cap: "HTTPD_MAX_BODY + 2048 - 1 = 10239" by (simp add: HTTPD_MAX_BODY_def)
  have dr: "drop (length headers + 4) (headers @ CRLF @ CRLF @ b) = b" by (simp add: CRLF_def)
  have ne: "?raw \<noteq> []" by (simp add: CRLF_def)
  show ?thesis
    unfolding parse_request_def cap rd(1) prod.case l1 option.case Let_def parts hs l2 cl dr body
    using ne sp assms(5-7) by (simp add: HTTPD_MAX_METHOD_def HTTPD_MAX_PATH_def HTTPD_MAX_QUERY_def)
qed

text \<open>Property C11. A request with a method, a path, a query, at least one header and a body of the
  announced length is parsed into exactly these, however the network cuts it into reads and
  however often a read is interrupted.\<close>

theorem request_parsed:
  assumes "plain {CHR '' ''} method" "plain {CHR '' '', CHR ''?''} path" "plain {CHR '' ''} query" "plain {} version"
    and "length method \<le> 7" "length path \<le> 255" "length query \<le> 511"
    and headers: "headers \<noteq> []" "hd headers \<noteq> CHR 0x0D" "CHR 0x00 \<notin> set headers"
      "find_sub (CRLF @ CRLF) (headers @ CRLF @ CRLF) = Some (headers, CRLF @ CRLF)"
    and announced: "\<And>b. prefix b body \<Longrightarrow> content_length (headers @ CRLF @ CRLF @ b) = length body"
    and room: "length (request_head method path query version @ CRLF @ headers @ CRLF @ CRLF) \<le> 10239"
    and "flowing as" and sent: "incoming as = request_head method path query version @ CRLF @ headers @ CRLF @ CRLF @ body"
  shows "parse_request as = Some \<lparr>hr_method = method, hr_path = path, hr_query = query, hr_body = body\<rparr>"
  using assms by (rule parse_request_whole)

text \<open>A POST in three pieces.\<close>

definition demo_reads :: "read_answer list" where
  "demo_reads = [Got ''POST /api/v1/iq/im'', ReadIntr, Got (''port?x=1 HTTP/1.0'' @ CRLF @ ''Content-Length: 2'' @ CRLF @ CRLF @ ''h''), Got ''i'']"

theorem request_parsed_witness:
  "parse_request demo_reads = Some \<lparr>hr_method = ''POST'', hr_path = ''/api/v1/iq/import'', hr_query = ''x=1'', hr_body = ''hi''\<rparr>"
proof -
  let ?h = "''Content-Length: 2''"
  have cl: "content_length (?h @ CRLF @ CRLF @ []) = 2" "content_length (?h @ CRLF @ CRLF @ ''h'') = 2"
    "content_length (?h @ CRLF @ CRLF @ ''hi'') = 2" by code_simp+
  have pre: "content_length (?h @ CRLF @ CRLF @ b) = length ''hi''" if "prefix b ''hi''" for b
    using that cl by (auto simp: prefix_Cons)
  have fs: "find_sub (CRLF @ CRLF) (?h @ CRLF @ CRLF) = Some (?h, CRLF @ CRLF)" by code_simp
  show ?thesis
    by (rule request_parsed [of _ _ _ "''HTTP/1.0''" ?h])
      (use pre fs in \<open>auto simp: plain_def request_head_def CRLF_def flowing_def demo_reads_def\<close>)
qed

subsection \<open>Responses\<close>

text \<open>Sends that make progress or are interrupted.\<close>

definition sends_on :: "send_answer list \<Rightarrow> bool" where
  "sends_on as \<longleftrightarrow> SendError \<notin> set as \<and> Sent 0 \<notin> set as"

lemma write_socket_prefix:
  "write_socket_all as acc s = (rc, out, as') \<Longrightarrow> (\<exists>k. out = acc @ take k s) \<and> (rc = 0 \<longrightarrow> out = acc @ s) \<and> (rc = 0 \<or> rc = -1)"
proof (induction as acc s rule: write_socket_all.induct)
  case (3 a as acc c cs)
  show ?case
  proof (cases a)
    case (Sent n)
    show ?thesis
    proof (cases "n = 0")
      case False
      have r: "write_socket_all as (acc @ take n (c # cs)) (drop n (c # cs)) = (rc, out, as')"
        using "3.prems" Sent False by simp
      have ih: "(\<exists>k. out = (acc @ take n (c # cs)) @ take k (drop n (c # cs)))
          \<and> (rc = 0 \<longrightarrow> out = (acc @ take n (c # cs)) @ drop n (c # cs)) \<and> (rc = 0 \<or> rc = -1)"
        by (rule "3.IH"(1) [OF Sent False r])
      then obtain k where "out = (acc @ take n (c # cs)) @ take k (drop n (c # cs))" by blast
      then have "out = acc @ take (n + k) (c # cs)" by (simp only: append_assoc take_add)
      moreover have "(acc @ take n (c # cs)) @ drop n (c # cs) = acc @ c # cs" by simp
      ultimately show ?thesis using ih by metis
    qed (use 3 Sent in auto)
  qed (use 3 in \<open>auto intro: exI [of _ 0]\<close>)
qed (auto intro: exI [of _ 0])

text \<open>What a client receives is a prefix of the header and the body, all of it on success.\<close>

lemma response_prefix:
  assumes "send_response status ct body as = (rc, out, as')"
  shows "prefix out (response_header status ct (length body) @ body) \<and> (rc = 0 \<longrightarrow> out = response_header status ct (length body) @ body)"
proof -
  obtain rc1 out1 as1 where w: "write_socket_all as [] (response_header status ct (length body)) = (rc1, out1, as1)" by (metis prod_cases3)
  note w1 = write_socket_prefix [OF w]
  show ?thesis
  proof (cases "rc1 = 0")
    case True
    with assms w write_socket_prefix [of as1 out1 body rc out as'] w1 show ?thesis
      by (auto simp: send_response_def take_is_prefix)
  next
    case False
    with assms w w1 show ?thesis by (auto simp: send_response_def intro: prefix_order.trans [OF take_is_prefix])
  qed
qed

text \<open>With enough sends that make progress everything goes out.\<close>

definition progress_sends :: "send_answer list \<Rightarrow> nat" where
  "progress_sends as = length (filter (\<lambda>a. a \<noteq> SendIntr) as)"

lemma write_socket_complete:
  assumes "sends_on as" and "length s \<le> progress_sends as"
  shows "\<exists>as'. write_socket_all as acc s = (0, acc @ s, as') \<and> sends_on as' \<and> progress_sends as \<le> progress_sends as' + length s"
  using assms
proof (induction as acc s rule: write_socket_all.induct)
  case (3 a as acc c cs)
  show ?case
  proof (cases a)
    case (Sent n)
    with "3.prems" have n: "n \<noteq> 0" and s: "sends_on as" "length (drop n (c # cs)) \<le> progress_sends as"
      by (auto simp: sends_on_def progress_sends_def)
    from "3.IH"(1) [OF Sent n s] obtain as' where
      w: "write_socket_all as (acc @ take n (c # cs)) (drop n (c # cs)) = (0, (acc @ take n (c # cs)) @ drop n (c # cs), as')"
      "sends_on as'" "progress_sends as \<le> progress_sends as' + length (drop n (c # cs))" by blast
    have "progress_sends (a # as) \<le> progress_sends as' + length (c # cs)"
      using w(3) n Sent by (simp add: progress_sends_def)
    moreover have "write_socket_all (a # as) acc (c # cs) = (0, acc @ c # cs, as')"
      using w(1) n Sent append_take_drop_id [of n "c # cs"] by (simp del: append_take_drop_id)
    ultimately show ?thesis using w(2) by blast
  next
    case SendIntr
    with "3.prems" "3.IH"(2) show ?thesis by (auto simp: sends_on_def progress_sends_def)
  next
    case SendError
    with "3.prems" show ?thesis by (simp add: sends_on_def)
  qed
qed (auto simp: progress_sends_def)

lemma response_complete:
  assumes "sends_on as" and "length (response_header status ct (length body) @ body) \<le> progress_sends as"
  shows "\<exists>as'. send_response status ct body as = (0, response_header status ct (length body) @ body, as')"
proof -
  from assms(2) have l: "length (response_header status ct (length body)) \<le> progress_sends as" by simp
  from write_socket_complete [OF assms(1) l, of "[]"] obtain as1 where
    w: "write_socket_all as [] (response_header status ct (length body)) = (0, response_header status ct (length body), as1)"
    "sends_on as1" "progress_sends as \<le> progress_sends as1 + length (response_header status ct (length body))" by auto
  from assms(2) w(3) have "length body \<le> progress_sends as1" by simp
  from write_socket_complete [OF w(2) this, of "response_header status ct (length body)"] w(1) show ?thesis
    by (auto simp: send_response_def)
qed

end
