(* ===== verification/ApiTable.thy ===== *)
theory ApiTable imports ApiSet begin

text \<open>
  Laws of the settings table of ApiFields.thy: the names and aliases resolve, and a change of a live
  field is confined to its live group.
\<close>

subsection \<open>The table\<close>

text \<open>Names are unique, aliases lead to one of them and hide none, and exactly the live fields have a group.\<close>

lemma fields_distinct: "distinct (map fd_key g_fields)"
  by (simp add: g_fields_def field_def)

lemma aliases_resolve: "list_all (\<lambda>(a, k). k \<in> set (map fd_key g_fields) \<and> a \<notin> set (map fd_key g_fields)) g_field_aliases"
  by (simp add: g_fields_def field_def g_field_aliases_def)

lemma live_fields_grouped:
  "list_all (\<lambda>f. fd_mut f = MUT_LIVE \<longleftrightarrow> live_group_for_key (fd_key f) \<noteq> None) g_fields"
  by (simp add: g_fields_def field_def live_group_for_key_def)

lemma find_field_Some: "find_field k = Some f \<Longrightarrow> f \<in> set g_fields \<and> fd_key f = k"
  by (auto simp: find_field_def find_Some_iff)

subsection \<open>Live fields and their groups\<close>

text \<open>
  A change \<open>p\<close> is confined to a group: copying that group carries the change over, copying another
  one neither sees nor disturbs it.
\<close>

definition confined :: "live_group \<Rightarrow> live_touched \<Rightarrow> (venc_config \<Rightarrow> venc_config) \<Rightarrow> bool" where
  "confined g t p \<longleftrightarrow> (\<forall>a s. copy_live_group_fields g t a (p s) = p (copy_live_group_fields g t a s))
     \<and> (\<forall>g' a s. g' \<noteq> g \<longrightarrow> copy_live_group_fields g' t a (p s) = copy_live_group_fields g' t a s
          \<and> copy_live_group_fields g' t (p a) s = p (copy_live_group_fields g' t a s))"

text \<open>What every store of a slot satisfies.\<close>

fun slot_all :: "((venc_config \<Rightarrow> venc_config) \<Rightarrow> bool) \<Rightarrow> slot \<Rightarrow> bool" where
  "slot_all P (SlotBool get put) \<longleftrightarrow> (\<forall>v. P (put v))"
| "slot_all P (SlotInt get put) \<longleftrightarrow> (\<forall>v. P (put v))"
| "slot_all P (SlotU32 get put) \<longleftrightarrow> (\<forall>v. P (put v))"
| "slot_all P (SlotU8 get put) \<longleftrightarrow> (\<forall>v. P (put v))"
| "slot_all P (SlotU16 get put) \<longleftrightarrow> (\<forall>v. P (put v))"
| "slot_all P (SlotDouble get put) \<longleftrightarrow> (\<forall>v. P (put v))"
| "slot_all P (SlotFloat get put) \<longleftrightarrow> (\<forall>v. P (put v))"
| "slot_all P (SlotString get put n) \<longleftrightarrow> (\<forall>v. P (put (safe_strcpy n v)))"
| "slot_all P (SlotSize get put) \<longleftrightarrow> (\<forall>v. P (put v))"

lemma from_string_all:
  assumes "slot_all P sl" and "field_from_string_cfg strtod f32 sl val c = Some c'"
  shows "\<exists>p. c' = p c \<and> P p"
  using assms by (cases sl) (auto split: if_splits option.splits)

lemma live_field_list:
  "filter (\<lambda>f. live_group_for_key (fd_key f) \<noteq> None) g_fields =
    [field ''system.verbose'' MUT_LIVE (SlotBool (sys_verbose \<circ> c_system) (\<lambda>v. c_system_update (sys_verbose_update (\<lambda>_. v)))),
     field ''isp.exposure'' MUT_LIVE (SlotU32 (isp_exposure \<circ> c_isp) (\<lambda>v. c_isp_update (isp_exposure_update (\<lambda>_. v)))),
     field ''isp.gain_max'' MUT_LIVE (SlotU32 (isp_gain_max \<circ> c_isp) (\<lambda>v. c_isp_update (isp_gain_max_update (\<lambda>_. v)))),
     field ''isp.awb_mode'' MUT_LIVE (SlotString (isp_awb_mode \<circ> c_isp) (\<lambda>v. c_isp_update (isp_awb_mode_update (\<lambda>_. v))) 16),
     field ''isp.awb_ct'' MUT_LIVE (SlotU32 (isp_awb_ct \<circ> c_isp) (\<lambda>v. c_isp_update (isp_awb_ct_update (\<lambda>_. v)))),
     field ''video0.fps'' MUT_LIVE (SlotU32 (vid_fps \<circ> c_video0) (\<lambda>v. c_video0_update (vid_fps_update (\<lambda>_. v)))),
     field ''video0.bitrate'' MUT_LIVE (SlotU32 (vid_bitrate \<circ> c_video0) (\<lambda>v. c_video0_update (vid_bitrate_update (\<lambda>_. v)))),
     field ''video0.gop_size'' MUT_LIVE (SlotDouble (vid_gop_size \<circ> c_video0) (\<lambda>v. c_video0_update (vid_gop_size_update (\<lambda>_. v)))),
     field ''video0.qp_delta'' MUT_LIVE (SlotInt (vid_qp_delta \<circ> c_video0) (\<lambda>v. c_video0_update (vid_qp_delta_update (\<lambda>_. v)))),
     field ''outgoing.enabled'' MUT_LIVE (SlotBool (out_enabled \<circ> c_outgoing) (\<lambda>v. c_outgoing_update (out_enabled_update (\<lambda>_. v)))),
     field ''outgoing.server'' MUT_LIVE (SlotString (out_server \<circ> c_outgoing) (\<lambda>v. c_outgoing_update (out_server_update (\<lambda>_. v))) 256),
     field ''audio.mute'' MUT_LIVE (SlotBool (aud_mute \<circ> c_audio) (\<lambda>v. c_audio_update (aud_mute_update (\<lambda>_. v)))),
     field ''fpv.roi_enabled'' MUT_LIVE (SlotBool (fpv_roi_enabled \<circ> c_fpv) (\<lambda>v. c_fpv_update (fpv_roi_enabled_update (\<lambda>_. v)))),
     field ''fpv.roi_qp'' MUT_LIVE (SlotInt (fpv_roi_qp \<circ> c_fpv) (\<lambda>v. c_fpv_update (fpv_roi_qp_update (\<lambda>_. v)))),
     field ''fpv.roi_steps'' MUT_LIVE (SlotU16 (fpv_roi_steps \<circ> c_fpv) (\<lambda>v. c_fpv_update (fpv_roi_steps_update (\<lambda>_. v)))),
     field ''fpv.roi_center'' MUT_LIVE (SlotDouble (fpv_roi_center \<circ> c_fpv) (\<lambda>v. c_fpv_update (fpv_roi_center_update (\<lambda>_. v))))]"
  by (simp add: g_fields_def field_def live_group_for_key_def)


text \<open>The flag a key sets is set.\<close>

definition touch_ok :: "string \<Rightarrow> live_touched \<Rightarrow> bool" where
  "touch_ok k t \<longleftrightarrow>
     (if k = ''video0.fps'' then t_video_fps t
      else if k = ''video0.gop_size'' then t_video_gop t
      else if k = ''isp.awb_mode'' then t_awb_mode t
      else if k = ''isp.awb_ct'' then t_awb_ct t
      else if k = ''outgoing.enabled'' then t_outgoing_enabled t
      else if k = ''outgoing.server'' then t_outgoing_server t
      else True)"

lemma touch_noted: "touch_ok k (note_live_group_touch k t)"
  by (simp add: touch_ok_def note_live_group_touch_def)

lemma touch_kept: "touch_ok k t \<Longrightarrow> touch_ok k (note_live_group_touch k' t)"
  by (simp add: touch_ok_def note_live_group_touch_def)

lemma all_groups:
  "(\<forall>g. P g) \<longleftrightarrow> P G_BITRATE \<and> P G_VIDEO_TIMING \<and> P G_QP_DELTA \<and> P G_ROI \<and> P G_EXPOSURE \<and> P G_GAIN_MAX
     \<and> P G_AWB \<and> P G_VERBOSE \<and> P G_OUTGOING \<and> P G_MUTE"
proof
  assume a: "P G_BITRATE \<and> P G_VIDEO_TIMING \<and> P G_QP_DELTA \<and> P G_ROI \<and> P G_EXPOSURE \<and> P G_GAIN_MAX
     \<and> P G_AWB \<and> P G_VERBOSE \<and> P G_OUTGOING \<and> P G_MUTE"
  show "\<forall>g. P g"
  proof
    fix g show "P g" using a by (cases g) simp_all
  qed
qed simp

lemma confined_video:
  "confined G_BITRATE t (c_video0_update (vid_bitrate_update (\<lambda>_. a)))"
  "confined G_QP_DELTA t (c_video0_update (vid_qp_delta_update (\<lambda>_. b)))"
  "t_video_fps t \<Longrightarrow> confined G_VIDEO_TIMING t (c_video0_update (vid_fps_update (\<lambda>_. x)))"
  "t_video_gop t \<Longrightarrow> confined G_VIDEO_TIMING t (c_video0_update (vid_gop_size_update (\<lambda>_. y)))"
  by (simp_all add: confined_def all_groups Let_def comp_def)

lemma confined_other:
  "confined G_VERBOSE t (c_system_update (sys_verbose_update (\<lambda>_. a)))"
  "confined G_EXPOSURE t (c_isp_update (isp_exposure_update (\<lambda>_. b)))"
  "confined G_GAIN_MAX t (c_isp_update (isp_gain_max_update (\<lambda>_. b)))"
  "t_awb_mode t \<Longrightarrow> confined G_AWB t (c_isp_update (isp_awb_mode_update (\<lambda>_. safe_strcpy 16 s)))"
  "t_awb_ct t \<Longrightarrow> confined G_AWB t (c_isp_update (isp_awb_ct_update (\<lambda>_. b)))"
  "t_outgoing_enabled t \<Longrightarrow> confined G_OUTGOING t (c_outgoing_update (out_enabled_update (\<lambda>_. a)))"
  "t_outgoing_server t \<Longrightarrow> confined G_OUTGOING t (c_outgoing_update (out_server_update (\<lambda>_. safe_strcpy 256 s)))"
  "confined G_MUTE t (c_audio_update (aud_mute_update (\<lambda>_. a)))"
  by (simp_all add: confined_def all_groups Let_def comp_def safe_strcpy_def VENC_CONFIG_STRING_MAX_def)

lemma confined_roi:
  "confined G_ROI t (c_fpv_update (fpv_roi_enabled_update (\<lambda>_. a)))"
  "confined G_ROI t (c_fpv_update (fpv_roi_qp_update (\<lambda>_. b)))"
  "confined G_ROI t (c_fpv_update (fpv_roi_steps_update (\<lambda>_. c)))"
  "confined G_ROI t (c_fpv_update (fpv_roi_center_update (\<lambda>_. d)))"
  by (simp_all add: confined_def all_groups Let_def comp_def)

lemma live_fields_confined:
  "list_all (\<lambda>f. \<forall>t. touch_ok (fd_key f) t \<longrightarrow> slot_all (confined (the (live_group_for_key (fd_key f))) t) (fd_slot f))
     (filter (\<lambda>f. live_group_for_key (fd_key f) \<noteq> None) g_fields)"
  unfolding live_field_list
  by (simp add: field_def live_group_for_key_def touch_ok_def confined_video confined_other confined_roi)

lemma live_field_confined:
  assumes "f \<in> set g_fields" and "live_group_for_key (fd_key f) = Some g" and "touch_ok (fd_key f) t"
  shows "slot_all (confined g t) (fd_slot f)"
  using live_fields_confined assms by (force simp: list_all_iff)

subsection \<open>Validated fields\<close>

definition validated_keys :: "string list" where
  "validated_keys = [''isp.awb_mode'', ''video0.qp_delta'', ''fpv.roi_qp'', ''fpv.roi_steps'', ''fpv.roi_center'',
     ''video0.bitrate'', ''video0.scene_holdoff'']"

definition settings_valid :: "venc_config \<Rightarrow> bool" where
  "settings_valid c \<longleftrightarrow> list_all (\<lambda>k. validate_field_cfg c k = None) validated_keys"

lemma validate_other: "k \<notin> set validated_keys \<Longrightarrow> validate_field_cfg c k = None"
  by (simp add: validate_field_cfg_def validated_keys_def)

text \<open>What validation reads; a store of another field leaves it alone.\<close>

definition checked :: "venc_config \<Rightarrow> string \<times> int \<times> int \<times> u16 \<times> dbl \<times> u32 \<times> u8" where
  "checked c = (isp_awb_mode (c_isp c), vid_qp_delta (c_video0 c), fpv_roi_qp (c_fpv c), fpv_roi_steps (c_fpv c),
     fpv_roi_center (c_fpv c), vid_bitrate (c_video0 c), vid_scene_holdoff (c_video0 c))"

lemma checked_validate: "checked c = checked c' \<Longrightarrow> validate_field_cfg c k = validate_field_cfg c' k"
  by (simp add: checked_def validate_field_cfg_def)

lemma others_unchecked:
  "list_all (\<lambda>f. fd_key f \<in> set validated_keys \<or> slot_all (\<lambda>p. \<forall>c. checked (p c) = checked c) (fd_slot f)) g_fields"
  by (simp add: g_fields_def field_def checked_def validated_keys_def)

lemma validated_field_list:
  "filter (\<lambda>f. fd_key f \<in> set validated_keys) g_fields =
    [field ''isp.awb_mode'' MUT_LIVE (SlotString (isp_awb_mode \<circ> c_isp) (\<lambda>v. c_isp_update (isp_awb_mode_update (\<lambda>_. v))) 16),
     field ''video0.bitrate'' MUT_LIVE (SlotU32 (vid_bitrate \<circ> c_video0) (\<lambda>v. c_video0_update (vid_bitrate_update (\<lambda>_. v)))),
     field ''video0.qp_delta'' MUT_LIVE (SlotInt (vid_qp_delta \<circ> c_video0) (\<lambda>v. c_video0_update (vid_qp_delta_update (\<lambda>_. v)))),
     field ''fpv.roi_qp'' MUT_LIVE (SlotInt (fpv_roi_qp \<circ> c_fpv) (\<lambda>v. c_fpv_update (fpv_roi_qp_update (\<lambda>_. v)))),
     field ''fpv.roi_steps'' MUT_LIVE (SlotU16 (fpv_roi_steps \<circ> c_fpv) (\<lambda>v. c_fpv_update (fpv_roi_steps_update (\<lambda>_. v)))),
     field ''fpv.roi_center'' MUT_LIVE (SlotDouble (fpv_roi_center \<circ> c_fpv) (\<lambda>v. c_fpv_update (fpv_roi_center_update (\<lambda>_. v)))),
     field ''video0.scene_holdoff'' MUT_RESTART (SlotU8 (vid_scene_holdoff \<circ> c_video0) (\<lambda>v. c_video0_update (vid_scene_holdoff_update (\<lambda>_. v))))]"
  by (simp add: g_fields_def field_def validated_keys_def)

text \<open>A store does not change how the other keys are validated.\<close>

definition apart :: "string \<Rightarrow> (venc_config \<Rightarrow> venc_config) \<Rightarrow> bool" where
  "apart k p \<longleftrightarrow> (\<forall>c. list_all (\<lambda>k'. k' = k \<or> validate_field_cfg (p c) k' = validate_field_cfg c k') validated_keys)"

lemma validate_simps:
  "validate_field_cfg c ''isp.awb_mode'' = (if isp_awb_mode (c_isp c) \<noteq> ''auto'' \<and> isp_awb_mode (c_isp c) \<noteq> ''ct_manual''
     then Some (''awb_mode must be 'auto' or 'ct_manual'' @ [CHR 0x27]) else None)"
  "validate_field_cfg c ''video0.qp_delta'' = (if vid_qp_delta (c_video0 c) < -12 \<or> vid_qp_delta (c_video0 c) > 12
     then Some ''qp_delta must be in range [-12, 12]'' else None)"
  "validate_field_cfg c ''fpv.roi_qp'' = (if fpv_roi_qp (c_fpv c) < -30 \<or> fpv_roi_qp (c_fpv c) > 30
     then Some ''roi_qp must be in range [-30, 30]'' else None)"
  "validate_field_cfg c ''fpv.roi_steps'' = (if fpv_roi_steps (c_fpv c) < 1 \<or> fpv_roi_steps (c_fpv c) > 4
     then Some ''roi_steps must be in range [1, 4]'' else None)"
  "validate_field_cfg c ''fpv.roi_center'' =
     (if dbl_lt (fpv_roi_center (c_fpv c)) (Fin (1 / 10)) \<or> dbl_lt (Fin (9 / 10)) (fpv_roi_center (c_fpv c))
      then Some ''roi_center must be in range [0.1, 0.9]'' else None)"
  "validate_field_cfg c ''video0.bitrate'' = (if vid_bitrate (c_video0 c) = 0 \<or> vid_bitrate (c_video0 c) > 200000
     then Some ''bitrate must be 1-200000 kbps'' else None)"
  "validate_field_cfg c ''video0.scene_holdoff'' = (if vid_scene_holdoff (c_video0 c) = 0
     then Some ''video0.scene_holdoff must be >= 1'' else None)"
  by (simp_all add: validate_field_cfg_def)

lemma apart_list:
  "apart k p \<longleftrightarrow> (\<forall>c. \<forall>k' \<in> set validated_keys. k' \<noteq> k \<longrightarrow> validate_field_cfg (p c) k' = validate_field_cfg c k')"
  by (auto simp: apart_def list_all_iff)

lemma validated_stores_apart:
  "apart ''isp.awb_mode'' (c_isp_update (isp_awb_mode_update (\<lambda>_. a)))"
  "apart ''video0.bitrate'' (c_video0_update (vid_bitrate_update (\<lambda>_. b)))"
  "apart ''video0.qp_delta'' (c_video0_update (vid_qp_delta_update (\<lambda>_. q)))"
  "apart ''fpv.roi_qp'' (c_fpv_update (fpv_roi_qp_update (\<lambda>_. q)))"
  "apart ''fpv.roi_steps'' (c_fpv_update (fpv_roi_steps_update (\<lambda>_. w)))"
  "apart ''fpv.roi_center'' (c_fpv_update (fpv_roi_center_update (\<lambda>_. d)))"
  "apart ''video0.scene_holdoff'' (c_video0_update (vid_scene_holdoff_update (\<lambda>_. h)))"
  unfolding apart_list validated_keys_def by (simp_all add: validate_simps)

lemma validated_apart:
  "list_all (\<lambda>f. slot_all (apart (fd_key f)) (fd_slot f)) (filter (\<lambda>f. fd_key f \<in> set validated_keys) g_fields)"
  unfolding validated_field_list
  by (simp add: field_def validated_stores_apart)

lemma slot_all_mono: "slot_all P sl \<Longrightarrow> (\<And>p. P p \<Longrightarrow> Q p) \<Longrightarrow> slot_all Q sl"
  by (cases sl) auto

lemma fields_apart: "f \<in> set g_fields \<Longrightarrow> slot_all (apart (fd_key f)) (fd_slot f)"
proof (cases "fd_key f \<in> set validated_keys")
  case True
  assume "f \<in> set g_fields"
  with True validated_apart show ?thesis by (simp add: list_all_iff)
next
  case False
  assume "f \<in> set g_fields"
  with False others_unchecked have "slot_all (\<lambda>p. \<forall>c. checked (p c) = checked c) (fd_slot f)"
    by (auto simp: list_all_iff)
  then show ?thesis by (rule slot_all_mono) (auto simp: apart_def list_all_iff intro: checked_validate)
qed

lemma assign_valid:
  assumes "f \<in> set g_fields" and "field_from_string_cfg strtod f32 (fd_slot f) val c = Some c'"
    and "settings_valid c" and "validate_field_cfg c' (fd_key f) = None"
  shows "settings_valid c'"
proof -
  obtain p where "c' = p c" "apart (fd_key f) p"
    using from_string_all [OF fields_apart [OF assms(1)] assms(2)] by blast
  with assms(3,4) show ?thesis unfolding settings_valid_def apart_def list_all_iff by metis
qed

end
