(* ===== verification/ApiProps.thy ===== *)
theory ApiProps imports ApiTable begin

text \<open>
  What the settings interface of \<open>src/venc_api.c\<close> guarantees: a batch of live settings is a transaction,
  the validated fields keep their ranges, and query strings parse back.
\<close>

subsection \<open>Copying groups\<close>

text \<open>The two texts a group copies fit their buffers.\<close>

definition texts_fit :: "venc_config \<Rightarrow> bool" where
  "texts_fit c \<longleftrightarrow> length (isp_awb_mode (c_isp c)) < 16 \<and> length (out_server (c_outgoing c)) < 256"








subsection \<open>Collecting and staging\<close>

text \<open>A parameter that was looked up, in a batch with these groups and flags.\<close>

definition param_ready :: "live_group list \<Rightarrow> live_touched \<Rightarrow> set_query_param \<Rightarrow> bool" where
  "param_ready gs t p \<longleftrightarrow> (\<exists>f g. q_field p = Some f \<and> f \<in> set g_fields \<and> fd_key f = q_canonical_key p
     \<and> live_group_for_key (fd_key f) = Some g \<and> g \<in> set gs \<and> touch_ok (fd_key f) t)"

definition param_wf :: "set_query_param \<Rightarrow> bool" where
  "param_wf p \<longleftrightarrow> (case q_field p of None \<Rightarrow> True | Some f \<Rightarrow> f \<in> set g_fields \<and> fd_key f = q_canonical_key p)"

lemma param_ready_mono: "param_ready gs t p \<Longrightarrow> set gs \<subseteq> set gs' \<Longrightarrow> param_ready gs' (note_live_group_touch k t) p"
  by (auto simp: param_ready_def dest: touch_kept)

lemma collect_loop_ready:
  assumes "collect_loop backend ps seen order t = Inr (params, gs, t')"
    and "list_all param_wf ps" and "distinct order" and "list_all (param_ready order t) seen"
  shows "distinct gs \<and> list_all (param_ready gs t') params"
  using assms
proof (induction ps arbitrary: seen order t)
  case Nil
  then show ?case by simp
next
  case (Cons p ps)
  obtain f where f: "(case q_field p of None \<Rightarrow> find_field (q_canonical_key p) | f \<Rightarrow> f) = Some f"
    using Cons.prems(1) by (auto simp: Let_def split: option.splits)
  have ff: "f \<in> set g_fields" "fd_key f = q_canonical_key p"
    using f Cons.prems(2) find_field_Some by (auto simp: param_wf_def split: option.splits)
  obtain g where g: "live_group_for_key (q_canonical_key p) = Some g"
    using Cons.prems(1) f by (auto simp: Let_def split: if_splits option.splits)
  define order1 where "order1 = (if g \<in> set order then order else order @ [g])"
  define t1 where "t1 = note_live_group_touch (q_canonical_key p) t"
  have rest: "collect_loop backend ps (seen @ [p\<lparr>q_field := Some f\<rparr>]) order1 t1 = Inr (params, gs, t')"
    using Cons.prems(1) f g by (auto simp: Let_def order1_def t1_def split: if_splits)
  have "param_ready order1 t1 (p\<lparr>q_field := Some f\<rparr>)"
    using ff g by (auto simp: param_ready_def order1_def t1_def touch_noted)
  moreover have "set order \<subseteq> set order1" by (auto simp: order1_def)
  then have "list_all (param_ready order1 t1) seen"
    using Cons.prems(4) param_ready_mono by (auto simp: list_all_iff t1_def)
  ultimately show ?case
    using Cons.IH [OF rest] Cons.prems(2,3) by (auto simp: order1_def)
qed


subsection \<open>Applying and rolling back\<close>












subsection \<open>The transaction\<close>








lemma stage_params_loop: "stage_params_into_cfg env ps c = Inr c' \<Longrightarrow> stage_loop env ps c = Inr c'"
  by (auto simp: stage_params_into_cfg_def split: sum.splits option.splits)





lemma param_ready_field:
  "list_all (param_ready gs t) ps \<Longrightarrow>
     list_all (\<lambda>p. \<exists>f. q_field p = Some f \<and> f \<in> set g_fields \<and> fd_key f = q_canonical_key p) ps"
  by (auto simp: list_all_iff param_ready_def)




lemma table_keys_short: "list_all (\<lambda>f. length (fd_key f) < 128) g_fields"
  by code_simp

lemma found_key: "find_field k = Some f \<Longrightarrow> f \<in> set g_fields \<and> fd_key f = k \<and> safe_strcpy 128 k = k"
  using find_field_Some table_keys_short by (fastforce simp: list_all_iff safe_strcpy_id)

lemma query_loop_wf: "parse_query_loop m n q = Inr ps \<Longrightarrow> list_all param_wf ps"
proof (induction m n q arbitrary: ps rule: parse_query_loop.induct)
  case (1 m n q)
  show ?case
  proof (cases "q = [] \<or> (\<exists>e. parse_query_loop m (n + 1) (after (CHR ''&'') q) = Inl e)")
    case True
    with "1.prems" show ?thesis
      by (subst (asm) (1) parse_query_loop.simps) (auto simp: Let_def split: if_splits)
  next
    case False
    then obtain rest where rest: "parse_query_loop m (n + 1) (after (CHR ''&'') q) = Inr rest"
      by (metis sum.exhaust)
    obtain p where ps: "ps = p # rest" "q_field p = None" and cs: "before (CHR ''&'') q \<noteq> []" "\<not> m \<le> n"
        "CHR ''='' \<in> set (before (CHR ''&'') q)" "before (CHR ''='') (before (CHR ''&'') q) \<noteq> []"
      using "1.prems" False rest by (subst (asm) (1) parse_query_loop.simps) (auto simp: Let_def split: if_splits)
    have "list_all param_wf rest" using "1.IH" [OF _ refl _ _ _ refl refl rest] False cs by simp
    moreover have "param_wf p" using ps(2) by (simp add: param_wf_def)
    ultimately show ?thesis using ps(1) by simp
  qed
qed





text \<open>A device that takes the bit rate and refuses the frame rate.\<close>

definition demo_callbacks :: "(u32 list) callbacks" where
  "demo_callbacks = \<lparr>cb_bitrate = Some (\<lambda>c x w. (0, w @ [x])), cb_fps = Some (\<lambda>c x w. (-1, w)),
     cb_gop = None, cb_qp_delta = None, cb_roi_qp = None, cb_exposure = None, cb_gain_max = None,
     cb_awb_mode = None, cb_verbose = None, cb_output_enabled = None, cb_server = None, cb_mute = None\<rparr>"

definition demo_env :: "(u32 list) api_env" where
  "demo_env = \<lparr>e_backend = ''star6e'', e_cb = Some demo_callbacks, e_rnd = id, e_strtod = (\<lambda>s. (NaN, s)),
     e_f32 = id, e_fmt_g = (\<lambda>_. []), e_print_str = id, e_parse_json = (\<lambda>_. Some JNull), e_print_json = (\<lambda>_. Some [])\<rparr>"

definition demo_state :: "(u32 list) api_state" where
  "demo_state = \<lparr>a_cfg = c_video0_update (vid_scene_threshold_update (\<lambda>_. 5)) venc_config_defaults, a_dev = [], a_reinit = 0\<rparr>"

lemma demo_fits: "texts_fit (a_cfg demo_state)"
  by (simp add: demo_state_def texts_fit_def venc_config_defaults_def)




text \<open>A centre that is not a number passes the validation, and alone it is answered; in a batch the
  values are in force and applied when the answer fails.\<close>

definition roi_env :: "(int list) api_env" where
  "roi_env = \<lparr>e_backend = ''star6e'', e_cb = Some \<lparr>cb_bitrate = None, cb_fps = None, cb_gop = None, cb_qp_delta = None,
       cb_roi_qp = Some (\<lambda>c x w. (0, w @ [x])), cb_exposure = None, cb_gain_max = None,
       cb_awb_mode = None, cb_verbose = None, cb_output_enabled = None, cb_server = None, cb_mute = None\<rparr>,
     e_rnd = id, e_strtod = (\<lambda>s. (NaN, [])), e_f32 = id, e_fmt_g = (\<lambda>_. ''nan''), e_print_str = id,
     e_parse_json = (\<lambda>s. if s = ''nan'' then None else Some JNull), e_print_json = (\<lambda>_. Some [])\<rparr>"

lemma nan_batch_answered_as_error:
  "case process_set_query roi_env ''fpv.roi_center=nan&fpv.roi_qp=5'' \<lparr>a_cfg = venc_config_defaults, a_dev = [], a_reinit = 0\<rparr> of
     (r, s) \<Rightarrow> r = None \<and> fpv_roi_center (c_fpv (a_cfg s)) = NaN \<and> fpv_roi_qp (c_fpv (a_cfg s)) = 5 \<and> a_dev s = [5]"
  by code_simp

subsection \<open>The ranges stay\<close>

text \<open>
  What the validation keeps. The centre of the region is between a tenth and nine tenths, or it is not a
  number: both comparisons of \<open>validate_field_cfg\<close> are false for it (shown below).
\<close>

definition center_in_range :: "dbl \<Rightarrow> bool" where
  "center_in_range d \<longleftrightarrow> (case d of Fin x \<Rightarrow> 1 / 10 \<le> x \<and> x \<le> 9 / 10 | NaN \<Rightarrow> True | PInf \<Rightarrow> False | NInf \<Rightarrow> False)"

definition settings_in_range :: "venc_config \<Rightarrow> bool" where
  "settings_in_range c \<longleftrightarrow>
     isp_awb_mode (c_isp c) \<in> {''auto'', ''ct_manual''}
     \<and> vid_qp_delta (c_video0 c) \<in> {-12..12} \<and> fpv_roi_qp (c_fpv c) \<in> {-30..30}
     \<and> fpv_roi_steps (c_fpv c) \<noteq> 0 \<and> fpv_roi_steps (c_fpv c) \<le> 4
     \<and> center_in_range (fpv_roi_center (c_fpv c))
     \<and> vid_bitrate (c_video0 c) \<noteq> 0 \<and> vid_bitrate (c_video0 c) \<le> 200000 \<and> vid_scene_holdoff (c_video0 c) \<noteq> 0"

definition settings_good :: "venc_config \<Rightarrow> bool" where
  "settings_good c \<longleftrightarrow> settings_in_range c \<and> texts_fit c"

lemma center_in_range_checks: "center_in_range d \<longleftrightarrow> \<not> dbl_lt d (Fin (1 / 10)) \<and> \<not> dbl_lt (Fin (9 / 10)) d"
  by (cases d) (auto simp: center_in_range_def)

lemma settings_in_range_valid: "settings_in_range c \<longleftrightarrow> settings_valid c"
  by (auto simp: settings_in_range_def settings_valid_def validated_keys_def validate_simps not_less center_in_range_checks)

lemma nan_center_accepted:
  "fpv_roi_center (c_fpv c) = NaN \<Longrightarrow> validate_field_cfg c ''fpv.roi_center'' = None"
  by (simp add: validate_simps)

lemma fields_fit: "list_all (\<lambda>f. slot_all (\<lambda>p. \<forall>c. texts_fit c \<longrightarrow> texts_fit (p c)) (fd_slot f)) g_fields"
  by (simp add: g_fields_def field_def texts_fit_def safe_strcpy_def min_less_iff_disj)

lemma copy_good: "settings_good a \<Longrightarrow> settings_good c \<Longrightarrow> settings_good (copy_live_group_fields g t a c)"
  by (cases g) (auto simp: settings_good_def settings_in_range_def texts_fit_def Let_def safe_strcpy_def VENC_CONFIG_STRING_MAX_def)

lemma stage_good:
  assumes "stage_loop env ps c = Inr c'" and "settings_good c"
    and "list_all (\<lambda>p. \<exists>f. q_field p = Some f \<and> f \<in> set g_fields \<and> fd_key f = q_canonical_key p) ps"
  shows "settings_good c'"
  using assms
proof (induction ps arbitrary: c)
  case (Cons p ps)
  obtain f where f: "q_field p = Some f" "f \<in> set g_fields" "fd_key f = q_canonical_key p" using Cons.prems by auto
  obtain c1 where c1: "field_from_string_cfg (e_strtod env) (e_f32 env) (fd_slot f) (q_value p) c = Some c1"
    "validate_field_cfg c1 (fd_key f) = None" "stage_loop env ps c1 = Inr c'"
    using Cons.prems(1) f by (auto split: option.splits)
  have "slot_all (\<lambda>p. \<forall>c. texts_fit c \<longrightarrow> texts_fit (p c)) (fd_slot f)"
    using fields_fit f(2) by (simp add: list_all_iff)
  from from_string_all [OF this c1(1)] have "texts_fit c1" using Cons.prems(2) by (auto simp: settings_good_def)
  moreover have "settings_valid c1"
    using assign_valid [OF f(2) c1(1) _ c1(2)] Cons.prems(2) by (simp add: settings_good_def settings_in_range_valid)
  ultimately show ?case using Cons.IH [OF c1(3)] Cons.prems(3) by (simp add: settings_good_def settings_in_range_valid)
qed simp

text \<open>The configuration in force is a good one, and it is the one the caller remembers.\<close>

definition in_force :: "bool \<times> venc_config \<times> 'w api_state \<Rightarrow> bool" where
  "in_force r \<longleftrightarrow> (case r of (i, actual, s) \<Rightarrow> settings_good actual \<and> a_cfg s = actual)"

lemma call_cfg: "call f x s = (rc, s') \<Longrightarrow> a_cfg s' = a_cfg s"
  by (auto simp: call_def split: option.splits prod.splits)

lemma call_both_cfg: "call_both f x g y s = (rc, s') \<Longrightarrow> a_cfg s' = a_cfg s"
  by (auto simp: call_both_def split: prod.splits if_splits dest!: call_cfg)

lemma apply_cfg: "apply_live_group_for_cfg env cfg g t s = (rc, s') \<Longrightarrow> a_cfg s' = cfg"
  by (cases g)
    (auto simp: apply_live_group_for_cfg_def commit_config_locked_def Let_def
      split: if_splits option.splits prod.splits dest!: call_cfg call_both_cfg)

lemma rollback_group_in_force: "settings_good old \<Longrightarrow> in_force r \<Longrightarrow> in_force (rollback_group env t old g r)"
  by (auto simp: in_force_def rollback_group_def build_live_group_config_def Let_def commit_config_locked_def copy_good
      split: prod.splits dest: apply_cfg)

lemma rollback_in_force:
  "settings_good old \<Longrightarrow> settings_good actual \<Longrightarrow> a_cfg s = actual
   \<Longrightarrow> in_force (rollback_live_groups env gs cur t old actual s)"
proof -
  assume old: "settings_good old" and "settings_good actual" "a_cfg s = actual"
  then have base: "in_force (False, actual, s)" by (simp add: in_force_def)
  have "in_force r \<Longrightarrow> in_force (fold (rollback_group env t old) hs r)" for hs r
  proof (induction hs arbitrary: r)
    case (Cons h hs)
    from Cons.IH [OF rollback_group_in_force [OF old Cons.prems]] show ?case by simp
  qed simp
  with base old show ?thesis
    by (auto simp: rollback_live_groups_def rollback_group_in_force split: option.splits)
qed

lemma sequence_good:
  "apply_live_group_sequence_locked env applied gs t old new actual s = (r, actual', s')
   \<Longrightarrow> settings_good old \<Longrightarrow> settings_good new \<Longrightarrow> settings_good actual \<Longrightarrow> a_cfg s = actual
   \<Longrightarrow> settings_good actual' \<and> a_cfg s' = actual'"
proof (induction gs arbitrary: applied actual s)
  case (Cons g gs)
  let ?gc = "build_live_group_config actual new g t"
  have gc: "settings_good ?gc" using Cons.prems by (simp add: build_live_group_config_def copy_good)
  obtain rc s1 where ap: "apply_live_group_for_cfg env ?gc g t s = (rc, s1)" by fastforce
  show ?case
  proof (cases "rc = 0")
    case True
    with Cons.prems(1) ap have "apply_live_group_sequence_locked env (applied @ [g]) gs t old new ?gc s1 = (r, actual', s')"
      by (simp add: Let_def)
    from Cons.IH [OF this Cons.prems(2,3) gc apply_cfg [OF ap]] show ?thesis .
  next
    case False
    obtain i a2 s2 where rb: "rollback_live_groups env applied (Some g) t old actual (commit_config_locked actual s1) = (i, a2, s2)"
      by (metis prod_cases3)
    have "in_force (i, a2, s2)"
      using rollback_in_force [OF Cons.prems(2,4), of "commit_config_locked actual s1" env applied "Some g" t] rb
      by (simp add: commit_config_locked_def)
    with Cons.prems(1) ap False rb show ?thesis by (auto simp: Let_def in_force_def commit_config_locked_def)
  qed
qed simp


lemma live_set_good:
  assumes "settings_good (a_cfg s)" and "list_all param_wf ps"
  shows "settings_good (a_cfg (snd (apply_live_set_query env ps single s)))"
proof (cases "\<exists>r. apply_live_set_query env ps single s = (r, s)")
  case True
  with assms show ?thesis by auto
next
  case False
  obtain ps1 gs t where ok: "collect_live_groups (e_backend env) ps = Inr (ps1, gs, t)"
    using False by (cases "collect_live_groups (e_backend env) ps") (auto simp: apply_live_set_query_def)
  obtain new where st: "stage_params_into_cfg env ps1 (a_cfg s) = Inr new"
    using False ok by (cases "stage_params_into_cfg env ps1 (a_cfg s)") (auto simp: apply_live_set_query_def Let_def)
  have pf: "preflight_live_group_callbacks env new gs t (length ps1) = None"
    using False ok st by (cases "preflight_live_group_callbacks env new gs t (length ps1)") (auto simp: apply_live_set_query_def Let_def)
  have "list_all (param_ready gs t) ps1"
    using collect_loop_ready ok assms(2) by (fastforce simp: collect_live_groups_def)
  from stage_good [OF stage_params_loop [OF st] assms(1) param_ready_field [OF this]] have new: "settings_good new" .
  obtain r actual s1 where sq: "apply_live_group_sequence_locked env [] gs t (a_cfg s) new (a_cfg s) s = (r, actual, s1)"
    by (metis prod_cases3)
  from sequence_good [OF sq assms(1) new assms(1) refl] have "settings_good actual" "a_cfg s1 = actual" by blast+
  with ok st pf sq show ?thesis
    by (cases r) (auto simp: apply_live_set_query_def Let_def commit_config_locked_def)
qed

lemma single_set_good:
  assumes "settings_good (a_cfg s)"
  shows "settings_good (a_cfg (snd (process_single_set_query env query s)))"
proof (cases "\<exists>r. process_single_set_query env query s = (r, s)")
  case True
  with assms show ?thesis by auto
next
  case False
  obtain k v where kv: "parse_first_query_param query 128 256 = Some (k, v)"
    using False by (cases "parse_first_query_param query 128 256") (auto simp: process_single_set_query_def)
  have "k \<noteq> []" using False kv by (auto simp: process_single_set_query_def)
  obtain ck f where ck: "resolve_set_query_field env k = Inr (ck, f)"
    using False kv \<open>k \<noteq> []\<close> by (cases "resolve_set_query_field env k") (auto simp: process_single_set_query_def)
  let ?p = "init_single_set_param k ck v f"
  have f: "find_field ck = Some f"
    using ck by (auto simp: resolve_set_query_field_def Let_def split: option.splits if_splits)
  have wf: "list_all param_wf [?p]" using found_key [OF f] by (simp add: init_single_set_param_def param_wf_def)
  then have ready: "list_all (\<lambda>p. \<exists>f. q_field p = Some f \<and> f \<in> set g_fields \<and> fd_key f = q_canonical_key p) [?p]"
    by (simp add: param_wf_def init_single_set_param_def)
  have "settings_good (a_cfg (snd (process_restart_set_query env ?p s)))"
    using stage_good [OF stage_params_loop assms ready] assms
    by (auto simp: process_restart_set_query_def venc_api_request_reinit_def split: sum.splits)
  with live_set_good [OF assms wf, of env True] kv ck \<open>k \<noteq> []\<close> show ?thesis
    by (simp add: process_single_set_query_def Let_def)
qed

text \<open>Property C7. Whatever requests arrive and whatever the callbacks answer, the fields the interface
  validates keep the ranges it checks: the white balance mode one of two, the QP offsets, the number of
  steps, the bit rate and the hold-off within their bounds, and the centre of the region between 0.1 and
  0.9 or not a number (which the documented range does not allow and the check does not notice). This
  also when a batch fails in the middle, when its rollback fails and when no answer can be made.\<close>

theorem set_query_keeps_ranges:
  assumes "settings_good (a_cfg s)"
  shows "settings_good (a_cfg (fold (\<lambda>query s. snd (process_set_query env query s)) queries s))"
proof -
  have step: "settings_good (a_cfg (snd (process_set_query env query s)))" if "settings_good (a_cfg s)" for query s
  proof (cases "parse_query_params query SET_QUERY_MAX_PARAMS")
    case (Inl e)
    then show ?thesis using single_set_good [OF that] that
      by (simp add: process_set_query_def process_multi_live_set_query_def)
  next
    case (Inr ps)
    then have "list_all param_wf ps"
      by (auto simp: parse_query_params_def intro: query_loop_wf split: if_splits)
    with Inr show ?thesis using single_set_good [OF that] live_set_good [OF that]
      by (simp add: process_set_query_def process_multi_live_set_query_def)
  qed
  show ?thesis using assms
  proof (induction queries arbitrary: s)
    case (Cons query queries)
    from Cons.IH [OF step [OF Cons.prems]] show ?case by simp
  qed simp
qed

theorem set_query_keeps_ranges_witness:
  "settings_good (a_cfg (fold (\<lambda>query s. snd (process_set_query demo_env query s))
     [''video0.bitrate=0'', ''video0.bitrate=9000&video0.fps=60''] demo_state))"
proof -
  have "settings_good (a_cfg demo_state)"
    unfolding settings_good_def settings_in_range_def using demo_fits by (simp add: demo_state_def venc_config_defaults_def center_in_range_def)
  from set_query_keeps_ranges [OF this] show ?thesis .
qed

subsection \<open>Reinit requests\<close>

text \<open>A pending request to load the configuration from disk (1) is not kept when a restart
  with the settings in memory (2) comes after it: the larger mode stays, in either order.\<close>

theorem reinit_larger_stays:
  "venc_api_get_reinit (venc_api_request_reinit m (venc_api_request_reinit n s)) = max m (max n (a_reinit s))
   \<and> a_reinit (venc_api_request_reinit 2 (handle_restart (venc_api_clear_reinit s))) = 2"
  by (simp_all add: venc_api_get_reinit_def venc_api_request_reinit_def handle_restart_def venc_api_clear_reinit_def)

end
