(* ===== verification/ApiServerProps.thy ===== *)
theory ApiServerProps imports ApiServer HttpdProps ApiProps begin

text \<open>
  The server as a whole: the routes reach their handlers, record requests, the second channel, and
  a setting that arrives over a socket.
\<close>

subsection \<open>Routes\<close>

definition api_routes :: "api_handler http_route list" where
  "api_routes = snd (snd (venc_api_register False []))"

lemma registered:
  "venc_api_register False [] = (0, True, api_routes)"
  "api_routes = map (\<lambda>(m, p, h). \<lparr>rt_method = m, rt_prefix = p, rt_handler = h\<rparr>) api_route_list"
  by (simp_all add: api_routes_def venc_api_register_def register_routes_def api_route_list_def venc_httpd_route_def
      HTTPD_MAX_ROUTES_def HTTPD_MAX_METHOD_def HTTPD_MAX_PATH_def)

text \<open>A second registration, for the reinitialised pipeline, adds nothing.\<close>

lemma register_again: "venc_api_register True rs = (0, True, rs)"
  by (simp add: venc_api_register_def)

text \<open>The envelopes the handlers build are those of the server's helpers.\<close>

lemma send_reply_ok: "data \<noteq> [] \<Longrightarrow> send_reply page (reply_ok data) as = httpd_send_ok data as"
  by (simp add: send_reply_def reply_ok_def httpd_send_ok_def)

lemma send_reply_error: "send_reply page (reply_error st code msg) as = httpd_send_error st (Some code) (Some msg) as"
  by (simp add: send_reply_def reply_error_def httpd_send_error_def)

text \<open>A path lies under a prefix when it is the prefix, or goes on with a slash or a question mark.\<close>

definition lies_under :: "string \<Rightarrow> string \<Rightarrow> bool" where
  "lies_under p path \<longleftrightarrow> path = p \<or> (\<exists>rest. path = p @ CHR ''/'' # rest) \<or> (\<exists>rest. path = p @ CHR ''?'' # rest)"

lemma route_matches_under: "route_matches req r \<longleftrightarrow> hr_method req = rt_method r \<and> lies_under (rt_prefix r) (hr_path req)"
  by (auto simp: route_matches_def lies_under_def prefix_def split: list.splits)

lemma under_nested: "lies_under p path \<Longrightarrow> lies_under p' path \<Longrightarrow> length p \<le> length p' \<Longrightarrow> lies_under p p'"
  by (auto simp: lies_under_def append_eq_append_conv2 Cons_eq_append_conv)

text \<open>No route is shadowed by one in front of it.\<close>

fun unshadowed :: "(string \<times> string \<times> 'h) list \<Rightarrow> bool" where
  "unshadowed [] = True"
| "unshadowed ((m, p, h) # rs) = (list_all (\<lambda>(m', p', h').
       m' = m \<longrightarrow> \<not> (prefix p p' \<and> (case drop (length p) p' of [] \<Rightarrow> True | c # _ \<Rightarrow> c = CHR ''/'' \<or> c = CHR ''?''))) rs
     \<and> unshadowed rs)"

lemma routes_unshadowed: "unshadowed api_route_list"
  by code_simp

lemma unshadowed_under: "unshadowed ((m, p, h) # rs) \<Longrightarrow> (m, p', h') \<in> set rs \<Longrightarrow> \<not> lies_under p p'"
  by (fastforce simp: list_all_iff lies_under_def)

abbreviation as_route :: "string \<times> string \<times> 'h \<Rightarrow> 'h http_route" where
  "as_route r \<equiv> case r of (m, p, h) \<Rightarrow> \<lparr>rt_method = m, rt_prefix = p, rt_handler = h\<rparr>"

text \<open>The route of a request: the longest that its path lies under.\<close>

definition route_of :: "(string \<times> string \<times> 'h) list \<Rightarrow> http_request \<Rightarrow> string \<Rightarrow> 'h \<Rightarrow> bool" where
  "route_of rs req p h \<longleftrightarrow> (hr_method req, p, h) \<in> set rs \<and> lies_under p (hr_path req)
     \<and> (\<forall>p' h'. (hr_method req, p', h') \<in> set rs \<and> lies_under p' (hr_path req) \<longrightarrow> (p', h') = (p, h) \<or> length p' < length p)"

lemma dispatch_longest: "unshadowed rs \<Longrightarrow> dispatch (map as_route rs) req = Some h \<longleftrightarrow> (\<exists>p. route_of rs req p h)"
proof (induction rs)
  case Nil
  then show ?case by (simp add: dispatch_def route_of_def)
next
  case (Cons r rs)
  obtain m p0 h0 where r: "r = (m, p0, h0)" by (cases r) auto
  show ?case
  proof (cases "hr_method req = m \<and> lies_under p0 (hr_path req)")
    case False
    then have "dispatch (map as_route (r # rs)) req = dispatch (map as_route rs) req"
      by (auto simp: dispatch_def r route_matches_under)
    moreover have "route_of (r # rs) req p h = route_of rs req p h" for p using False by (auto simp: r route_of_def)
    ultimately show ?thesis using Cons r by simp
  next
    case True
    have d: "dispatch (map as_route (r # rs)) req = Some h0" using True by (simp add: dispatch_def r route_matches_under)
    have shorter: "length p' < length p0" if "(m, p', h') \<in> set rs" "lies_under p' (hr_path req)" for p' h'
      using unshadowed_under [OF Cons.prems [unfolded r] that(1)] under_nested [OF conjunct2 [OF True] that(2)]
      by (meson not_le)
    then have first: "route_of (r # rs) req p0 h0" using True by (auto simp: r route_of_def)
    moreover have "h = h0" if "route_of (r # rs) req p h" for p
      using that first unfolding route_of_def by (metis Pair_inject less_asym)
    ultimately show ?thesis using d by auto
  qed
qed

text \<open>Property C12. The server answers every request, whatever its method and path: registering the
  routes succeeds, and a handler is called exactly when its route has the request's method, the request's
  path is the route's or goes on after it with a slash or a question mark, and every other such route is
  a shorter one (\<open>/api/v1/iq/set\<close> is not taken by \<open>/api/v1/iq\<close>, \<open>/api/v1/settings\<close> not by
  \<open>/api/v1/set\<close>); without such a route the answer is a 404 and nothing changes.\<close>

theorem requests_routed:
  fixes s :: "'w server"
  assumes "parse_request reads = Some req"
  shows "fst (venc_api_register False []) = 0
    \<and> (\<forall>h. dispatch (snd (snd (venc_api_register False []))) req = Some h \<longleftrightarrow> (\<exists>p. route_of api_route_list req p h))
    \<and> ((\<exists>p h. (hr_method req, p, h) \<in> set api_route_list \<and> lies_under p (hr_path req))
       \<or> serve env lib page (snd (snd (venc_api_register False []))) reads sends s
           = (fst (snd (httpd_send_error 404 (Some ''not_found'') (Some ''no matching route'') sends)), s))"
proof (intro conjI allI)
  have routes: "api_routes = map as_route api_route_list" by (simp add: registered(2))
  show "fst (venc_api_register False []) = 0" by (simp add: registered(1))
  show "dispatch (snd (snd (venc_api_register False []))) req = Some h \<longleftrightarrow> (\<exists>p. route_of api_route_list req p h)" for h
    using dispatch_longest [OF routes_unshadowed] routes by (simp add: registered(1))
  show "(\<exists>p h. (hr_method req, p, h) \<in> set api_route_list \<and> lies_under p (hr_path req))
    \<or> serve env lib page (snd (snd (venc_api_register False []))) reads sends s
      = (fst (snd (httpd_send_error 404 (Some ''not_found'') (Some ''no matching route'') sends)), s)"
  proof (cases "\<exists>p h. (hr_method req, p, h) \<in> set api_route_list \<and> lies_under p (hr_path req)")
    case False
    then have "find (route_matches req) api_routes = None"
      unfolding routes find_None_iff by (auto simp: route_matches_under) blast
    then have "dispatch (snd (snd (venc_api_register False []))) req = None" by (simp add: registered(1) dispatch_def)
    with assms show ?thesis by (simp add: serve_def send_reply_error split: prod.splits)
  qed blast
qed

text \<open>A path that only begins like a route is unknown.\<close>

definition settings_request :: string where
  "settings_request = request_head ''GET'' ''/api/v1/settings'' [] ''HTTP/1.1'' @ CRLF @ ''Host: cam'' @ CRLF @ CRLF"

theorem requests_routed_witness:
  "let req = \<lparr>hr_method = ''GET'', hr_path = ''/api/v1/settings'', hr_query = [], hr_body = []\<rparr> in
   dispatch (snd (snd (venc_api_register False []))) req = None \<and> \<not> (\<exists>p. route_of api_route_list req p A_set)"
proof -
  have p: "parse_request [Got settings_request] = Some \<lparr>hr_method = ''GET'', hr_path = ''/api/v1/settings'', hr_query = [], hr_body = []\<rparr>"
    by code_simp
  have d: "dispatch (snd (snd (venc_api_register False [])))
      \<lparr>hr_method = ''GET'', hr_path = ''/api/v1/settings'', hr_query = [], hr_body = []\<rparr> = None"
    by (simp add: registered api_route_list_def dispatch_def route_matches_def)
  show ?thesis using requests_routed [OF p] d by (metis option.distinct(1))
qed

subsection \<open>A request over a connection\<close>

lemma dispatch_set: "dispatch (snd (snd (venc_api_register False []))) \<lparr>hr_method = ''GET'', hr_path = ''/api/v1/set'', hr_query = q, hr_body = b\<rparr> = Some A_set"
  by (simp add: registered api_route_list_def dispatch_def route_matches_def)

text \<open>The bytes of a settings request with the given query and headers.\<close>

definition set_request :: "string \<Rightarrow> string \<Rightarrow> string" where
  "set_request query headers = request_head ''GET'' ''/api/v1/set'' query ''HTTP/1.1'' @ CRLF @ headers @ CRLF @ CRLF"

lemma set_request_parsed:
  assumes "plain {CHR '' ''} query" "length query \<le> 511" "length headers \<le> 9000"
    and headers: "headers \<noteq> []" "hd headers \<noteq> CHR 0x0D" "CHR 0x00 \<notin> set headers"
      "find_sub (CRLF @ CRLF) (headers @ CRLF @ CRLF) = Some (headers, CRLF @ CRLF)"
      "content_length (headers @ CRLF @ CRLF) = 0"
    and "flowing as" "incoming as = set_request query headers"
  shows "parse_request as = Some \<lparr>hr_method = ''GET'', hr_path = ''/api/v1/set'', hr_query = query, hr_body = []\<rparr>"
proof (rule parse_request_whole [of _ _ _ "''HTTP/1.1''" headers])
  show "content_length (headers @ CRLF @ CRLF @ b) = length []" if "prefix b []" for b using that headers(5) by simp
  show "length (request_head ''GET'' ''/api/v1/set'' query ''HTTP/1.1'' @ CRLF @ headers @ CRLF @ CRLF) \<le> 10239"
    using assms(2,3) by (simp add: request_head_def CRLF_def)
  show "incoming as = request_head ''GET'' ''/api/v1/set'' query ''HTTP/1.1'' @ CRLF @ headers @ CRLF @ CRLF @ []"
    using assms(10) by (simp add: set_request_def)
qed (use assms in \<open>simp_all add: plain_def\<close>)

text \<open>The status and the document of a settings request's outcome; without an answer a 500.\<close>

definition set_answer :: "response option \<Rightarrow> response" where
  "set_answer r = (case r of Some a \<Rightarrow> a
     | None \<Rightarrow> (500, ''{\"ok\":false,\"error\":{\"code\":\"internal_error\",\"message\":\"out of memory\"}}''))"

lemma handle_set_reply_answer: "handle_set_reply r = Json (fst (set_answer r)) (snd (set_answer r))"
  by (auto simp: handle_set_reply_def set_answer_def reply_error_def split: option.splits)

text \<open>Property C10. A settings request that reaches the server over a socket, in whatever pieces and with
  whatever interruptions, runs the settings transaction on its query, once, and the client gets its
  status and document whole behind a header that announces their length, or, when the transaction
  made no answer, status 500 and the document that says out of memory; nothing else of the server
  changes.\<close>

theorem set_over_http:
  fixes s :: "'w server"
  assumes "plain {CHR '' ''} query" "length query \<le> 511" "length headers \<le> 9000"
    and "headers \<noteq> []" "hd headers \<noteq> CHR 0x0D" "CHR 0x00 \<notin> set headers"
      "find_sub (CRLF @ CRLF) (headers @ CRLF @ CRLF) = Some (headers, CRLF @ CRLF)"
      "content_length (headers @ CRLF @ CRLF) = 0"
    and "flowing reads" "incoming reads = set_request query headers"
    and p: "process_set_query env query (sv_api s) = (r, api)" and a: "set_answer r = (status, doc)"
    and "sends_on sends" "length (response_header status ''application/json'' (length doc) @ doc) \<le> progress_sends sends"
  shows "serve env lib page (snd (snd (venc_api_register False []))) reads sends s
    = (response_header status ''application/json'' (length doc) @ doc, s\<lparr>sv_api := api\<rparr>)"
proof -
  have q: "parse_request reads = Some \<lparr>hr_method = ''GET'', hr_path = ''/api/v1/set'', hr_query = query, hr_body = []\<rparr>"
    by (rule set_request_parsed) (rule assms)+
  obtain as where "send_response status ''application/json'' doc sends
      = (0, response_header status ''application/json'' (length doc) @ doc, as)"
    using response_complete [OF assms(13,14)] by blast
  with q p a show ?thesis
    by (simp add: serve_def dispatch_set run_handler_def send_reply_def httpd_send_json_def handle_set_reply_answer)
qed

text \<open>A bit rate and a refused frame rate, sent in two pieces; the client takes one byte at a time.\<close>

definition demo_driver :: "(u32 list) venc_driver" where
  "demo_driver = \<lparr>vd_get_attr = (\<lambda>c w. ((0, \<lparr>ca_mode = H265CBR, ca_bits = 0, ca_gop = 30\<rparr>), w)), vd_set_attr = (\<lambda>c a w. (0, w @ [ca_bits a])),
     vd_frame_lost = (\<lambda>c b k w. (0, w)), vd_request_idr = (\<lambda>c w. (0, w))\<rparr>"

definition demo_lib :: "(u32 list) api_lib" where
  "demo_lib = \<lparr>al_version = ''1.0'', al_print_json = (\<lambda>j. None), al_fmt_g = (\<lambda>x. []), al_strtod = (\<lambda>s. NaN), al_live_fps = None, al_awb = None, al_iq = None,
     al_ae = None, al_metrics = None, al_iq_param = None, al_iq_import = (\<lambda>b w. (0, w)), al_idr = None, al_record_status = None,
     al_modes = (\<lambda>w. None), al_driver = demo_driver, al_fmt_2f = (\<lambda>x. '''')\<rparr>"

definition demo_server :: "(u32 list) server" where
  "demo_server = \<lparr>sv_api = demo_state, sv_record_start = False, sv_record_stop = False, sv_record_dir = [], sv_dual_active = False,
     sv_dual_channel = 0, sv_dual_bitrate = 0, sv_dual_fps = 0, sv_dual_gop = 0, sv_dual_frame_lost = False\<rparr>"

definition demo_query :: string where "demo_query = ''video0.bitrate=9000&video0.fps=60''"

definition demo_pieces :: "read_answer list" where
  "demo_pieces = [Got (take 20 (set_request demo_query ''Host: cam'')), ReadIntr, Got (drop 20 (set_request demo_query ''Host: cam''))]"

theorem set_over_http_witness:
  "case process_set_query demo_env demo_query demo_state of (r, api) \<Rightarrow>
     case set_answer r of (status, doc) \<Rightarrow>
     let out = response_header status ''application/json'' (length doc) @ doc in
     serve demo_env demo_lib [] (snd (snd (venc_api_register False []))) demo_pieces (replicate (length out) (Sent 1)) demo_server
     = (out, demo_server\<lparr>sv_api := api\<rparr>)"
proof -
  obtain r api where p: "process_set_query demo_env demo_query (sv_api demo_server) = (r, api)" by fastforce
  obtain status doc where a: "set_answer r = (status, doc)" by fastforce
  from p have p': "process_set_query demo_env demo_query demo_state = (r, api)" by (simp add: demo_server_def)
  let ?h = "''Host: cam''" and ?out = "response_header status ''application/json'' (length doc) @ doc"
  have q: "plain {CHR '' ''} demo_query" "length demo_query \<le> 511" by (simp_all add: demo_query_def plain_def)
  have h: "find_sub (CRLF @ CRLF) (?h @ CRLF @ CRLF) = Some (?h, CRLF @ CRLF)" "content_length (?h @ CRLF @ CRLF) = 0" by code_simp+
  have d: "flowing demo_pieces" "incoming demo_pieces = set_request demo_query ?h"
    by (simp_all add: demo_pieces_def flowing_def set_request_def request_head_def demo_query_def CRLF_def)
  have s: "sends_on (replicate (length ?out) (Sent 1))" "length ?out \<le> progress_sends (replicate (length ?out) (Sent 1))"
    by (simp_all add: sends_on_def progress_sends_def)
  have "serve demo_env demo_lib [] (snd (snd (venc_api_register False []))) demo_pieces (replicate (length ?out) (Sent 1)) demo_server
     = (?out, demo_server\<lparr>sv_api := api\<rparr>)"
    by (rule set_over_http [OF q _ _ _ _ h d p a s]) simp_all
  then show ?thesis by (simp add: p' a)
qed

subsection \<open>Record requests\<close>

text \<open>The last request before the pipeline looks is the one it sees, once.\<close>

lemma record_last_request:
  "venc_api_get_record_start n (venc_api_request_record_start d s)
     = (Some (take (n - 1) (take 255 (case d of None \<Rightarrow> RECORDER_DEFAULT_DIR | Some x \<Rightarrow> x))), snd (venc_api_get_record_start n (venc_api_request_record_start d s)))"
  "fst (venc_api_get_record_stop (venc_api_request_record_start d s)) = False"
  "fst (venc_api_get_record_stop (venc_api_request_record_stop s)) = True"
  "fst (venc_api_get_record_start n (venc_api_request_record_stop s)) = None"
  "fst (venc_api_get_record_start n (snd (venc_api_get_record_start n' s))) = None"
  "fst (venc_api_get_record_stop (snd (venc_api_get_record_stop s))) = False"
  by (simp_all add: venc_api_get_record_start_def venc_api_get_record_stop_def
      venc_api_request_record_start_def venc_api_request_record_stop_def)

subsection \<open>The second channel\<close>

text \<open>The recorded rate changes exactly when the driver took it, and then to the rate the driver got.\<close>

lemma dual_bitrate_recorded:
  assumes "dual_apply_bitrate drv kbps s = (rc, s1)"
  shows "(rc = 0 \<longrightarrow> sv_dual_bitrate s1 = min kbps 200000) \<and> (rc \<noteq> 0 \<longrightarrow> sv_dual_bitrate s1 = sv_dual_bitrate s)
    \<and> sv_dual_active s1 = sv_dual_active s \<and> sv_dual_channel s1 = sv_dual_channel s \<and> a_cfg (sv_api s1) = a_cfg (sv_api s)"
  using assms by (auto simp: dual_apply_bitrate_def on_device_def Let_def split: if_splits prod.splits)

end
