(* ===== verification/Disk.thy ===== *)
theory Disk imports CLib EncoderStream begin

text \<open>
  The file system as the recorders use it: \<open>statvfs\<close>, \<open>open\<close> with truncation, \<open>write\<close>,
  \<open>writev\<close>, \<open>fdatasync\<close>, \<open>close\<close> and the monotonic clock. The kernel's answers are part of the
  state: a list of answers of the write calls (when it is used up, everything is written), and
  functions of a counter for the others. Files are byte strings by path.
\<close>

datatype write_answer = Wrote nat | Interrupted | Failed int

type_synonym mono_time = "int \<times> int"

record disk =
  dk_files :: "string \<Rightarrow> bytes option"
  dk_fds :: "int \<Rightarrow> string option"
  dk_writes :: "write_answer list"
  dk_opens :: "int list"
  dk_space :: "nat \<Rightarrow> (u64 \<times> u64) option"
  dk_asked :: nat
  dk_clock :: "nat \<Rightarrow> mono_time"
  dk_ticks :: nat
  dk_bad_fd :: nat

definition ENOSPC :: int where "ENOSPC = 28"

definition disk_now :: "disk \<Rightarrow> mono_time \<times> disk" where
  "disk_now d = (dk_clock d (dk_ticks d), d\<lparr>dk_ticks := dk_ticks d + 1\<rparr>)"

definition disk_statvfs :: "disk \<Rightarrow> (u64 \<times> u64) option \<times> disk" where
  "disk_statvfs d = (dk_space d (dk_asked d), d\<lparr>dk_asked := dk_asked d + 1\<rparr>)"

text \<open>Opening for writing, created or truncated; a failure when the answers are used up.\<close>

definition disk_open :: "string \<Rightarrow> disk \<Rightarrow> int \<times> disk" where
  "disk_open path d = (case dk_opens d of [] \<Rightarrow> (-1, d)
     | fd # fds \<Rightarrow>
         if fd < 0 then (-1, d\<lparr>dk_opens := fds\<rparr>)
         else (fd, d\<lparr>dk_opens := fds, dk_fds := (dk_fds d)(fd \<mapsto> path), dk_files := (dk_files d)(path \<mapsto> [])\<rparr>))"

text \<open>A call on a descriptor that is not open is counted.\<close>

definition disk_close :: "int \<Rightarrow> disk \<Rightarrow> disk" where
  "disk_close fd d = (case dk_fds d fd of None \<Rightarrow> d\<lparr>dk_bad_fd := dk_bad_fd d + 1\<rparr>
     | Some p \<Rightarrow> d\<lparr>dk_fds := (dk_fds d)(fd := None)\<rparr>)"

definition disk_sync :: "int \<Rightarrow> disk \<Rightarrow> disk" where
  "disk_sync fd d = (case dk_fds d fd of None \<Rightarrow> d\<lparr>dk_bad_fd := dk_bad_fd d + 1\<rparr> | Some p \<Rightarrow> d)"

definition disk_append :: "int \<Rightarrow> bytes \<Rightarrow> disk \<Rightarrow> disk" where
  "disk_append fd data d = (case dk_fds d fd of None \<Rightarrow> d\<lparr>dk_bad_fd := dk_bad_fd d + 1\<rparr>
     | Some p \<Rightarrow> d\<lparr>dk_files := (dk_files d)(p \<mapsto> (case dk_files d p of None \<Rightarrow> [] | Some c \<Rightarrow> c) @ data)\<rparr>)"

subsection \<open>Shared helpers of the recorders\<close>

definition star6e_recorder_free_space :: "string \<Rightarrow> disk \<Rightarrow> u64 \<times> disk" where
  "star6e_recorder_free_space path d =
     (if path = [] then (0, d)
      else case disk_statvfs d of (None, d1) \<Rightarrow> (0, d1) | (Some (bavail, frsize), d1) \<Rightarrow> (bavail * frsize, d1))"

definition pad_left :: "nat \<Rightarrow> string \<Rightarrow> string" where
  "pad_left n s = replicate (n - length s) (CHR ''0'') @ s"

text \<open>The file's name: the directory, the time since boot and sixteen bits of the microseconds.\<close>

definition rec_path :: "string \<Rightarrow> string \<Rightarrow> mono_time \<Rightarrow> string" where
  "rec_path suffix dir ts =
     (let uptime_s = word_of_int (fst ts) :: u32;
          rand_suffix = word_of_int (snd ts div 1000) AND 0xFFFF :: u32
      in take 255 (dir @ (if last dir = CHR ''/'' then '''' else ''/'') @ ''rec_''
           @ pad_left 2 (print_u (uptime_s div 3600)) @ ''h''
           @ pad_left 2 (print_u (uptime_s mod 3600 div 60)) @ ''m''
           @ pad_left 2 (print_u (uptime_s mod 60)) @ ''s_''
           @ pad_left 4 (print_base 16 (unat rand_suffix)) @ suffix))"

definition RECORDER_MIN_FREE_BYTES :: u64 where "RECORDER_MIN_FREE_BYTES = 50 * 1024 * 1024"
definition RECORDER_SPACE_CHECK_INTERVAL :: u32 where "RECORDER_SPACE_CHECK_INTERVAL = 300"
definition RECORDER_SYNC_DEFAULT_FRAMES :: u32 where "RECORDER_SYNC_DEFAULT_FRAMES = 900"

datatype stop_reason = STOP_MANUAL | STOP_DISK_FULL | STOP_WRITE_ERROR

text \<open>The NAL units of one pack that the recorders take, in order.\<close>

definition pack_pieces :: "venc_pack \<Rightarrow> bytes list" where
  "pack_pieces p = (case pk_data p of None \<Rightarrow> []
     | Some d \<Rightarrow>
         if pk_num p > 0
         then List.map_filter (\<lambda>k. info_bytes d (pk_length p) (pk_info p ! k)) [0..<info_count p]
         else (case whole_bytes d p of None \<Rightarrow> [] | Some x \<Rightarrow> [x]))"

text \<open>Low space: known, and below the threshold.\<close>

definition space_low :: "u64 \<Rightarrow> bool" where
  "space_low free \<longleftrightarrow> free > 0 \<and> free < RECORDER_MIN_FREE_BYTES"

text \<open>Asking for the space or the time changes no file and no descriptor.\<close>

definition same_files :: "disk \<Rightarrow> disk \<Rightarrow> bool" where
  "same_files d d' \<longleftrightarrow> dk_files d' = dk_files d \<and> dk_fds d' = dk_fds d \<and> dk_bad_fd d' = dk_bad_fd d
     \<and> dk_writes d' = dk_writes d \<and> dk_opens d' = dk_opens d"

lemma same_files_refl [simp]: "same_files d d"
  by (simp add: same_files_def)

lemma free_space_same: "star6e_recorder_free_space p d = (n, d') \<Longrightarrow> same_files d d'"
  by (auto simp: star6e_recorder_free_space_def disk_statvfs_def same_files_def split: if_splits option.splits prod.splits)

lemma now_same: "disk_now d = (t, d') \<Longrightarrow> same_files d d'"
  by (auto simp: disk_now_def same_files_def)

end
