(* ===== verification/Recorder.thy ===== *)
theory Recorder imports Disk begin

text \<open>
  The elementary-stream recorder (\<open>src/star6e_recorder.c\<close>): frames written as they come from the
  encoder, in batches of at most sixteen parts, with disk-full and error stops.
\<close>

subsection \<open>Model\<close>

record recorder =
  rr_fd :: int
  rr_bytes_written :: u64
  rr_frames_written :: u32
  rr_sync_interval_frames :: u32
  rr_frames_since_sync :: u32
  rr_space_check_countdown :: u32
  rr_last_stop_reason :: stop_reason
  rr_start_time :: mono_time
  rr_dir :: string
  rr_path :: string

definition star6e_recorder_init :: recorder where
  "star6e_recorder_init =
     \<lparr>rr_fd = -1, rr_bytes_written = 0, rr_frames_written = 0, rr_sync_interval_frames = RECORDER_SYNC_DEFAULT_FRAMES,
      rr_frames_since_sync = 0, rr_space_check_countdown = 0, rr_last_stop_reason = STOP_MANUAL,
      rr_start_time = (0, 0), rr_dir = '''', rr_path = ''''\<rparr>"

definition rr_stop_with_reason :: "stop_reason \<Rightarrow> recorder \<Rightarrow> disk \<Rightarrow> recorder \<times> disk" where
  "rr_stop_with_reason reason st d =
     (if rr_fd st < 0 then (st, d)
      else (st\<lparr>rr_fd := -1, rr_last_stop_reason := reason\<rparr>, disk_close (rr_fd st) (disk_sync (rr_fd st) d)))"

definition star6e_recorder_stop :: "recorder \<Rightarrow> disk \<Rightarrow> recorder \<times> disk" where
  "star6e_recorder_stop = rr_stop_with_reason STOP_MANUAL"

definition star6e_recorder_is_active :: "recorder \<Rightarrow> bool" where
  "star6e_recorder_is_active st \<longleftrightarrow> rr_fd st \<ge> 0"

definition star6e_recorder_start :: "string \<Rightarrow> recorder \<Rightarrow> disk \<Rightarrow> int \<times> recorder \<times> disk" where
  "star6e_recorder_start dir st0 d0 =
     (if dir = [] then (-1, st0, d0)
      else case (if rr_fd st0 \<ge> 0 then star6e_recorder_stop st0 d0 else (st0, d0)) of (st, d) \<Rightarrow>
      case star6e_recorder_free_space dir d of (free, d1) \<Rightarrow>
      if space_low free then (-1, st\<lparr>rr_last_stop_reason := STOP_DISK_FULL\<rparr>, d1)
      else case disk_now d1 of (ts, d2) \<Rightarrow>
        let st1 = st\<lparr>rr_dir := take 255 dir, rr_path := rec_path ''.hevc'' dir ts\<rparr> in
        case disk_open (rr_path st1) d2 of (fd, d3) \<Rightarrow>
          if fd < 0 then (-1, st1\<lparr>rr_fd := fd, rr_path := ''''\<rparr>, d3)
          else case disk_now d3 of (now, d4) \<Rightarrow>
            (0, st1\<lparr>rr_fd := fd, rr_bytes_written := 0, rr_frames_written := 0, rr_frames_since_sync := 0,
                   rr_space_check_countdown := RECORDER_SPACE_CHECK_INTERVAL, rr_last_stop_reason := STOP_MANUAL,
                   rr_start_time := now\<rparr>, d4))"

definition rr_check_disk_space :: "recorder \<Rightarrow> disk \<Rightarrow> int \<times> recorder \<times> disk" where
  "rr_check_disk_space st d =
     (if rr_space_check_countdown st > 0
      then (0, st\<lparr>rr_space_check_countdown := rr_space_check_countdown st - 1\<rparr>, d)
      else
        let st1 = st\<lparr>rr_space_check_countdown := RECORDER_SPACE_CHECK_INTERVAL\<rparr> in
        case star6e_recorder_free_space (rr_dir st1) d of (free, d1) \<Rightarrow>
          if space_low free
          then case rr_stop_with_reason STOP_DISK_FULL st1 d1 of (st2, d2) \<Rightarrow> (-1, st2, d2)
          else (0, st1, d1))"

text \<open>One \<open>writev\<close>, repeated only when interrupted: what is short stays short.\<close>

fun writev_answer :: "write_answer list \<Rightarrow> nat \<Rightarrow> (nat + int) \<times> write_answer list" where
  "writev_answer [] cnt = (Inl cnt, [])"
| "writev_answer (Wrote n # ans) cnt = (Inl (min n cnt), ans)"
| "writev_answer (Interrupted # ans) cnt = writev_answer ans cnt"
| "writev_answer (Failed e # ans) cnt = (Inr e, ans)"

definition writev_retry :: "int \<Rightarrow> bytes list \<Rightarrow> disk \<Rightarrow> (nat + int) \<times> disk" where
  "writev_retry fd iov d =
     (case writev_answer (dk_writes d) (length (concat iov)) of
        (Inl n, ans) \<Rightarrow> (Inl n, disk_append fd (take n (concat iov)) (d\<lparr>dk_writes := ans\<rparr>))
      | (Inr e, ans) \<Rightarrow> (Inr e, d\<lparr>dk_writes := ans\<rparr>))"

text \<open>Collecting the parts, a batch written whenever sixteen are there; an error ends the frame.\<close>

primrec write_parts :: "int \<Rightarrow> bytes list \<Rightarrow> bytes list \<Rightarrow> nat \<Rightarrow> disk \<Rightarrow> (nat + int) \<times> disk" where
  "write_parts fd [] iov cnt d =
     (if iov = [] then (Inl cnt, d)
      else case writev_retry fd iov d of (Inl n, d1) \<Rightarrow> (Inl (cnt + n), d1) | (Inr e, d1) \<Rightarrow> (Inr e, d1))"
| "write_parts fd (x # xs) iov cnt d =
     (if length iov \<ge> 16
      then case writev_retry fd iov d of
          (Inl n, d1) \<Rightarrow> write_parts fd xs [x] (cnt + n) d1
        | (Inr e, d1) \<Rightarrow> (Inr e, d1)
      else write_parts fd xs (iov @ [x]) cnt d)"

definition stream_parts :: "venc_stream \<Rightarrow> bytes list" where
  "stream_parts stream = concat (map pack_pieces stream)"

definition star6e_recorder_write_frame :: "venc_stream \<Rightarrow> recorder \<Rightarrow> disk \<Rightarrow> int \<times> recorder \<times> disk" where
  "star6e_recorder_write_frame stream st0 d0 =
     (if rr_fd st0 < 0 then (0, st0, d0)
      else case rr_check_disk_space st0 d0 of (rc, st, d) \<Rightarrow>
      if rc \<noteq> 0 then (0, st, d)
      else case write_parts (rr_fd st) (stream_parts stream) [] 0 d of
        (Inr e, d1) \<Rightarrow>
          (case rr_stop_with_reason (if e = ENOSPC then STOP_DISK_FULL else STOP_WRITE_ERROR) st d1 of (st1, d2) \<Rightarrow> (-1, st1, d2))
      | (Inl cnt, d1) \<Rightarrow>
          let st1 = st\<lparr>rr_bytes_written := rr_bytes_written st + word_of_nat cnt, rr_frames_written := rr_frames_written st + 1,
                       rr_frames_since_sync := rr_frames_since_sync st + 1\<rparr>
          in if rr_sync_interval_frames st1 > 0 \<and> rr_frames_since_sync st1 \<ge> rr_sync_interval_frames st1
             then (int cnt, st1\<lparr>rr_frames_since_sync := 0\<rparr>, disk_sync (rr_fd st1) d1)
             else (int cnt, st1, d1))"

definition star6e_recorder_status :: "recorder option \<Rightarrow> u64 \<times> u32 \<times> string \<times> stop_reason" where
  "star6e_recorder_status st = (case st of None \<Rightarrow> (0, 0, '''', STOP_MANUAL)
     | Some s \<Rightarrow> (rr_bytes_written s, rr_frames_written s, rr_path s, rr_last_stop_reason s))"

subsection \<open>What is written\<close>

text \<open>Answers that only interrupt or write everything asked for.\<close>

definition whole_writes :: "nat \<Rightarrow> write_answer list \<Rightarrow> bool" where
  "whole_writes n ans \<longleftrightarrow> (\<forall>a \<in> set ans. a = Interrupted \<or> (\<exists>m \<ge> n. a = Wrote m))"

lemma writev_answer_whole:
  "whole_writes n ans \<Longrightarrow> cnt \<le> n \<Longrightarrow> \<exists>ans'. writev_answer ans cnt = (Inl cnt, ans') \<and> whole_writes n ans'"
  by (induction ans cnt rule: writev_answer.induct) (auto simp: whole_writes_def min_def)

lemma write_parts_whole:
  assumes "whole_writes n (dk_writes d)" and "length (concat iov) + length (concat xs) \<le> n"
    and "dk_fds d fd = Some p" and "dk_files d p = Some c"
  shows "\<exists>ans. whole_writes n ans \<and> write_parts fd xs iov cnt d =
    (Inl (cnt + length (concat iov) + length (concat xs)),
     d\<lparr>dk_writes := ans, dk_files := (dk_files d)(p \<mapsto> c @ concat iov @ concat xs)\<rparr>)"
  using assms
proof (induction xs arbitrary: iov cnt d c)
  case Nil
  show ?case
  proof (cases "iov = []")
    case True
    with Nil show ?thesis by (intro exI [of _ "dk_writes d"]) (simp add: map_upd_triv)
  next
    case False
    obtain ans where "writev_answer (dk_writes d) (length (concat iov)) = (Inl (length (concat iov)), ans)" "whole_writes n ans"
      using writev_answer_whole [OF Nil(1), of "length (concat iov)"] Nil(2) by auto
    with False Nil show ?thesis
      by (intro exI [of _ ans]) (simp add: writev_retry_def disk_append_def fun_upd_def)
  qed
next
  case (Cons x xs)
  show ?case
  proof (cases "length iov \<ge> 16")
    case False
    with Cons.IH [of d "iov @ [x]" c cnt] Cons.prems show ?thesis by (auto simp: add.assoc)
  next
    case True
    obtain ans where a: "writev_answer (dk_writes d) (length (concat iov)) = (Inl (length (concat iov)), ans)" "whole_writes n ans"
      using writev_answer_whole [OF Cons.prems(1), of "length (concat iov)"] Cons.prems(2) by auto
    define d1 where "d1 = d\<lparr>dk_writes := ans, dk_files := (dk_files d)(p \<mapsto> c @ concat iov)\<rparr>"
    have w: "writev_retry fd iov d = (Inl (length (concat iov)), d1)"
      using a Cons.prems by (simp add: writev_retry_def disk_append_def d1_def)
    have d1: "whole_writes n (dk_writes d1)" "length (concat [x]) + length (concat xs) \<le> n" "dk_fds d1 fd = Some p"
        "dk_files d1 p = Some (c @ concat iov)" using Cons.prems a by (simp_all add: d1_def)
    obtain ans' where r: "whole_writes n ans'" "write_parts fd xs [x] (cnt + length (concat iov)) d1 =
      (Inl (cnt + length (concat iov) + length (concat [x]) + length (concat xs)),
       d1\<lparr>dk_writes := ans', dk_files := (dk_files d1)(p \<mapsto> (c @ concat iov) @ concat [x] @ concat xs)\<rparr>)"
      using Cons.IH [OF d1, of "cnt + length (concat iov)"] by blast
    have "d1\<lparr>dk_writes := ans', dk_files := (dk_files d1)(p \<mapsto> (c @ concat iov) @ concat [x] @ concat xs)\<rparr>
        = d\<lparr>dk_writes := ans', dk_files := (dk_files d)(p \<mapsto> c @ concat iov @ concat (x # xs))\<rparr>"
      unfolding d1_def by (simp add: fun_upd_def cong: if_cong)
    with True w r show ?thesis by (intro exI [of _ ans']) (simp add: add.assoc fun_upd_def)
  qed
qed

lemma rr_space_ok:
  assumes "rr_space_check_countdown st > 0"
  shows "rr_check_disk_space st d = (0, st\<lparr>rr_space_check_countdown := rr_space_check_countdown st - 1\<rparr>, d)"
  using assms by (simp add: rr_check_disk_space_def)

text \<open>When the kernel writes whole what it writes, a recorded frame extends the file by
  exactly the frame's units in order, however many batches they take, and the count that is returned
  and accounted is their length.\<close>

lemma recorder_frame_complete:
  assumes "rr_fd st \<ge> 0" and "rr_space_check_countdown st > 0" and "dk_fds d (rr_fd st) = Some p" and "dk_files d p = Some c"
    and "whole_writes (length (concat (stream_parts stream))) (dk_writes d)"
  shows "\<exists>st' d'. star6e_recorder_write_frame stream st d = (int (length (concat (stream_parts stream))), st', d')
    \<and> dk_files d' = (dk_files d)(p \<mapsto> c @ concat (stream_parts stream)) \<and> dk_fds d' = dk_fds d \<and> dk_bad_fd d' = dk_bad_fd d
    \<and> rr_fd st' = rr_fd st \<and> rr_frames_written st' = rr_frames_written st + 1
    \<and> rr_bytes_written st' = rr_bytes_written st + word_of_nat (length (concat (stream_parts stream)))"
proof -
  let ?st1 = "st\<lparr>rr_space_check_countdown := rr_space_check_countdown st - 1\<rparr>"
  obtain ans where w: "write_parts (rr_fd ?st1) (stream_parts stream) [] 0 d =
    (Inl (length (concat (stream_parts stream))), d\<lparr>dk_writes := ans, dk_files := (dk_files d)(p \<mapsto> c @ concat (stream_parts stream))\<rparr>)"
    using write_parts_whole [OF assms(5), of "[]" "stream_parts stream" "rr_fd st" p c 0] assms(3,4) by auto
  then show ?thesis
    using assms(1,3) rr_space_ok [OF assms(2)]
    by (simp add: star6e_recorder_write_frame_def Let_def disk_sync_def)
qed

text \<open>One pack with two table entries.\<close>

definition demo_pack :: venc_pack where
  "demo_pack = \<lparr>pk_data = Some [0, 0, 1, 0x40, 0, 0, 1, 0x26, 7], pk_length = 9, pk_timestamp = 0, pk_nal_type = 0, pk_offset = 0,
     pk_num = 2, pk_info = [\<lparr>pi_nal_type = 32, pi_offset = 0, pi_length = 4\<rparr>, \<lparr>pi_nal_type = 19, pi_offset = 4, pi_length = 5\<rparr>]\<rparr>"

definition demo_rec_disk :: disk where
  "demo_rec_disk = \<lparr>dk_files = [''/a'' \<mapsto> [9]], dk_fds = [3 \<mapsto> ''/a''], dk_writes = [Interrupted, Wrote 9],
     dk_opens = [], dk_space = (\<lambda>_. None), dk_asked = 0, dk_clock = (\<lambda>n. (int n, 0)), dk_ticks = 0, dk_bad_fd = 0\<rparr>"

lemma demo_parts: "stream_parts [demo_pack] = [[0, 0, 1, 0x40], [0, 0, 1, 0x26, 7]]"
  by (simp add: stream_parts_def pack_pieces_def demo_pack_def List.map_filter_def info_count_def info_bytes_def slice_def upt_rec)

lemma recorder_frame_complete_witness:
  "\<exists>st' d'. star6e_recorder_write_frame [demo_pack] (star6e_recorder_init\<lparr>rr_fd := 3, rr_space_check_countdown := 300\<rparr>) demo_rec_disk = (9, st', d')
     \<and> dk_files d' ''/a'' = Some [9, 0, 0, 1, 0x40, 0, 0, 1, 0x26, 7]"
  using recorder_frame_complete [of "star6e_recorder_init\<lparr>rr_fd := 3, rr_space_check_countdown := 300\<rparr>" demo_rec_disk "''/a''" "[9]" "[demo_pack]"]
  by (auto simp: demo_parts demo_rec_disk_def whole_writes_def)

text \<open>A short write loses the rest of a frame silently: the file ends inside a unit, the call
  returns success and the recording goes on with the next frame behind the torn one.\<close>

lemma recorder_short_write_silent:
  assumes "rr_fd st \<ge> 0" and "rr_space_check_countdown st > 0" and "dk_fds d (rr_fd st) = Some p" and "dk_files d p = Some c"
    and "length (stream_parts stream) \<le> 16" and "dk_writes d = Wrote n # ans" and "n < length (concat (stream_parts stream))"
  shows "\<exists>st' d'. star6e_recorder_write_frame stream st d = (int n, st', d')
    \<and> dk_files d' p = Some (c @ take n (concat (stream_parts stream)))
    \<and> rr_fd st' = rr_fd st \<and> rr_last_stop_reason st' = rr_last_stop_reason st \<and> rr_frames_written st' = rr_frames_written st + 1"
proof -
  have gather: "write_parts fd xs iov 0 d = write_parts fd [] (iov @ xs) 0 d" if "length (iov @ xs) \<le> 16" for fd xs iov
    using that by (induction xs arbitrary: iov) auto
  have ne: "stream_parts stream \<noteq> []" using assms(7) by auto
  have "write_parts (rr_fd st) (stream_parts stream) [] 0 d =
      (Inl n, disk_append (rr_fd st) (take n (concat (stream_parts stream))) (d\<lparr>dk_writes := ans\<rparr>))"
    using gather [of "[]" "stream_parts stream" "rr_fd st"] assms(5-7) ne by (simp add: writev_retry_def)
  then show ?thesis
    using assms(1,3,4) rr_space_ok [OF assms(2)]
    by (simp add: star6e_recorder_write_frame_def Let_def disk_sync_def disk_append_def)
qed

lemma recorder_short_write_silent_witness:
  "\<exists>st' d'. star6e_recorder_write_frame [demo_pack] (star6e_recorder_init\<lparr>rr_fd := 3, rr_space_check_countdown := 300\<rparr>)
      (demo_rec_disk\<lparr>dk_writes := [Wrote 5]\<rparr>) = (5, st', d')
     \<and> dk_files d' ''/a'' = Some [9, 0, 0, 1, 0x40, 0] \<and> rr_fd st' = 3"
  using recorder_short_write_silent [of "star6e_recorder_init\<lparr>rr_fd := 3, rr_space_check_countdown := 300\<rparr>"
      "demo_rec_disk\<lparr>dk_writes := [Wrote 5]\<rparr>" "''/a''" "[9]" "[demo_pack]" 5 "[]"]
  by (auto simp: demo_parts demo_rec_disk_def)

subsection \<open>Errors and the descriptor\<close>

text \<open>One descriptor while recording, none otherwise, on every path; an error says why it stopped.\<close>

definition rr_inv :: "recorder \<Rightarrow> disk \<Rightarrow> bool" where
  "rr_inv st d \<longleftrightarrow> dk_bad_fd d = 0 \<and> dk_fds d = (if rr_fd st < 0 then Map.empty else [rr_fd st \<mapsto> rr_path st])"

lemma rr_stop_inv: "rr_inv st d \<Longrightarrow> rr_stop_with_reason reason st d = (st', d') \<Longrightarrow> rr_inv st' d' \<and> rr_fd st' < 0"
  by (auto simp: rr_stop_with_reason_def rr_inv_def disk_close_def disk_sync_def split: if_splits)

lemma rr_start_inv:
  assumes "rr_inv st d" and "star6e_recorder_start dir st d = (rc, st', d')"
  shows "rr_inv st' d' \<and> (rc = 0 \<longrightarrow> rr_fd st' \<ge> 0)"
proof (cases "dir = []")
  case True
  with assms show ?thesis by (simp add: star6e_recorder_start_def)
next
  case False
  obtain st1 d1 where s: "(if rr_fd st \<ge> 0 then star6e_recorder_stop st d else (st, d)) = (st1, d1)" by fastforce
  have i1: "rr_inv st1 d1" "rr_fd st1 < 0"
    using s assms(1) rr_stop_inv [OF assms(1)] by (auto simp: star6e_recorder_stop_def split: if_splits)
  obtain free d2 where f: "star6e_recorder_free_space dir d1 = (free, d2)" by fastforce
  note same = free_space_same [OF f]
  show ?thesis
    using assms(2) False s f i1 same
    by (auto simp: star6e_recorder_start_def rr_inv_def same_files_def disk_open_def disk_now_def Let_def
        split: if_splits prod.splits list.splits)
qed

lemma writev_frame: "writev_retry fd iov d = (r, d') \<Longrightarrow> dk_fds d fd = Some p \<Longrightarrow> dk_fds d' = dk_fds d \<and> dk_bad_fd d' = dk_bad_fd d"
  by (auto simp: writev_retry_def disk_append_def split: prod.splits sum.splits)

lemma write_parts_frame:
  "write_parts fd xs iov cnt d = (r, d') \<Longrightarrow> dk_fds d fd = Some p \<Longrightarrow> dk_fds d' = dk_fds d \<and> dk_bad_fd d' = dk_bad_fd d"
proof (induction xs arbitrary: iov cnt d)
  case Nil
  then show ?case using writev_frame by (fastforce split: if_splits prod.splits sum.splits)
next
  case (Cons x xs)
  show ?case
  proof (cases "length iov \<ge> 16")
    case True
    obtain w d1 where w: "writev_retry fd iov d = (w, d1)" by fastforce
    note fr = writev_frame [OF w Cons.prems(2)]
    show ?thesis using Cons.IH [of "[x]" _ d1] Cons.prems True w fr by (cases w) auto
  qed (use Cons in auto)
qed

lemma rr_write_frame_inv:
  assumes "rr_inv st d" and "star6e_recorder_write_frame stream st d = (rc, st', d')"
  shows "rr_inv st' d' \<and> (rc < 0 \<longrightarrow> rr_fd st' < 0 \<and> rr_last_stop_reason st' \<noteq> STOP_MANUAL)"
proof (cases "rr_fd st < 0")
  case True
  with assms show ?thesis by (simp add: star6e_recorder_write_frame_def)
next
  case False
  obtain rc1 st1 d1 where c: "rr_check_disk_space st d = (rc1, st1, d1)" by (metis prod_cases3)
  have sc: "rr_inv st1 d1" "rc1 = 0 \<Longrightarrow> rr_fd st1 = rr_fd st \<and> rr_path st1 = rr_path st"
  proof -
    show "rr_inv st1 d1"
    proof (cases "rr_space_check_countdown st > 0")
      case True
      with c assms(1) show ?thesis by (auto simp: rr_check_disk_space_def rr_inv_def)
    next
      case False
      obtain free d0 where f: "star6e_recorder_free_space (rr_dir st) d = (free, d0)" by fastforce
      have i0: "rr_inv (st\<lparr>rr_space_check_countdown := RECORDER_SPACE_CHECK_INTERVAL\<rparr>) d0"
        using assms(1) free_space_same [OF f] by (simp add: rr_inv_def same_files_def)
      with c False f rr_stop_inv [OF i0] show ?thesis
        by (auto simp: rr_check_disk_space_def Let_def split: if_splits prod.splits)
    qed
    show "rc1 = 0 \<Longrightarrow> rr_fd st1 = rr_fd st \<and> rr_path st1 = rr_path st"
      using c by (auto simp: rr_check_disk_space_def Let_def split: if_splits prod.splits)
  qed
  show ?thesis
  proof (cases "rc1 = 0")
    case rc: False
    with assms(2) False c sc show ?thesis by (auto simp: star6e_recorder_write_frame_def)
  next
    case rc: True
    obtain w d2 where w: "write_parts (rr_fd st1) (stream_parts stream) [] 0 d1 = (w, d2)" by fastforce
    have fd: "dk_fds d1 (rr_fd st1) = Some (rr_path st1)" using sc rc False by (simp add: rr_inv_def)
    have i2: "rr_inv st1 d2" using write_parts_frame [OF w fd] sc(1) by (simp add: rr_inv_def)
    show ?thesis
    proof (cases w)
      case (Inr e)
      obtain st4 d4 where s: "rr_stop_with_reason (if e = ENOSPC then STOP_DISK_FULL else STOP_WRITE_ERROR) st1 d2 = (st4, d4)"
        by fastforce
      have "rr_last_stop_reason st4 \<noteq> STOP_MANUAL"
        using s sc(2) rc False by (cases "e = ENOSPC") (auto simp: rr_stop_with_reason_def)
      moreover have "st' = st4 \<and> d' = d4"
        using assms(2) False c rc w Inr s by (simp add: star6e_recorder_write_frame_def)
      ultimately show ?thesis using rr_stop_inv [OF i2 s] by blast
    next
      case (Inl n)
      have "disk_sync (rr_fd st1) d2 = d2" using write_parts_frame [OF w fd] fd by (simp add: disk_sync_def)
      with assms(2) False c rc w Inl i2 show ?thesis
        by (auto simp: star6e_recorder_write_frame_def rr_inv_def Let_def split: if_splits)
    qed
  qed
qed

end
