(* ===== verification/TsRecorder.thy ===== *)
theory TsRecorder imports Disk MutexRings TsSession begin

text \<open>
  The transport-stream recorder (\<open>src/star6e_ts_recorder.c\<close>): segments, rotation at key frames,
  interleaving of the audio ring, error and disk-full stops. The multiplexer is TsMux.thy, the
  ring MutexRings.thy, the kernel Disk.thy. The function pointer \<open>request_idr\<close> of the C struct is
  never called and is left out; the ring the struct points to is passed beside the state.
\<close>

subsection \<open>Writing\<close>

text \<open>The loop of \<open>write_all\<close>: \<open>acc\<close> is written already. The count or the error, and what was written.\<close>

fun write_all_loop :: "write_answer list \<Rightarrow> bytes \<Rightarrow> bytes \<Rightarrow> (nat + int) \<times> bytes \<times> write_answer list" where
  "write_all_loop ans acc [] = (Inl (length acc), acc, ans)"
| "write_all_loop [] acc (x # xs) = (Inl (length (acc @ x # xs)), acc @ x # xs, [])"
| "write_all_loop (a # ans) acc (x # xs) = (case a of
     Wrote n \<Rightarrow> if n = 0 then (Inl (length acc), acc, ans)
       else write_all_loop ans (acc @ take n (x # xs)) (drop n (x # xs))
   | Interrupted \<Rightarrow> write_all_loop ans acc (x # xs)
   | Failed e \<Rightarrow> (Inr e, acc, ans))"

definition write_all :: "int \<Rightarrow> bytes \<Rightarrow> disk \<Rightarrow> (nat + int) \<times> disk" where
  "write_all fd data d =
     (case write_all_loop (dk_writes d) [] data of (r, out, ans) \<Rightarrow> (r, disk_append fd out (d\<lparr>dk_writes := ans\<rparr>)))"

subsection \<open>State\<close>

definition TS_RECORDER_DEFAULT_MAX_SECONDS :: u32 where "TS_RECORDER_DEFAULT_MAX_SECONDS = 300"
definition TS_RECORDER_DEFAULT_MAX_BYTES :: u64 where "TS_RECORDER_DEFAULT_MAX_BYTES = 500 * 1024 * 1024"

record ts_recorder =
  tr_fd :: int
  tr_bytes_written :: u64
  tr_frames_written :: u32
  tr_segments :: u32
  tr_sync_interval_frames :: u32
  tr_frames_since_sync :: u32
  tr_space_check_countdown :: u32
  tr_last_stop_reason :: stop_reason
  tr_start_time :: mono_time
  tr_segment_start_time :: mono_time
  tr_dir :: string
  tr_path :: string
  tr_mux :: ts_state
  tr_audio_ring :: bool
  tr_max_seconds :: u32
  tr_max_bytes :: u64
  tr_segment_bytes :: u64

definition star6e_ts_recorder_init :: "u32 \<Rightarrow> u8 \<Rightarrow> ts_recorder" where
  "star6e_ts_recorder_init audio_rate audio_channels =
     \<lparr>tr_fd = -1, tr_bytes_written = 0, tr_frames_written = 0, tr_segments = 0,
      tr_sync_interval_frames = RECORDER_SYNC_DEFAULT_FRAMES, tr_frames_since_sync = 0,
      tr_space_check_countdown = 0, tr_last_stop_reason = STOP_MANUAL,
      tr_start_time = (0, 0), tr_segment_start_time = (0, 0), tr_dir = '''', tr_path = '''',
      tr_mux = ts_mux_init audio_rate audio_channels, tr_audio_ring = False,
      tr_max_seconds = TS_RECORDER_DEFAULT_MAX_SECONDS, tr_max_bytes = TS_RECORDER_DEFAULT_MAX_BYTES,
      tr_segment_bytes = 0\<rparr>"

definition ts_stop_with_reason :: "stop_reason \<Rightarrow> ts_recorder \<Rightarrow> disk \<Rightarrow> ts_recorder \<times> disk" where
  "ts_stop_with_reason reason st d =
     (if tr_fd st < 0 then (st, d)
      else (st\<lparr>tr_fd := -1, tr_last_stop_reason := reason\<rparr>, disk_close (tr_fd st) (disk_sync (tr_fd st) d)))"

definition star6e_ts_recorder_stop :: "ts_recorder \<Rightarrow> disk \<Rightarrow> ts_recorder \<times> disk" where
  "star6e_ts_recorder_stop = ts_stop_with_reason STOP_MANUAL"

definition star6e_ts_recorder_is_active :: "ts_recorder \<Rightarrow> bool" where
  "star6e_ts_recorder_is_active st \<longleftrightarrow> tr_fd st \<ge> 0"

definition build_ts_path :: "string \<Rightarrow> disk \<Rightarrow> string \<times> disk" where
  "build_ts_path dir d = (case disk_now d of (ts, d1) \<Rightarrow> (rec_path ''.ts'' dir ts, d1))"

subsection \<open>Segments\<close>

definition open_new_segment :: "ts_recorder \<Rightarrow> disk \<Rightarrow> int \<times> ts_recorder \<times> disk" where
  "open_new_segment st d =
     (case build_ts_path (tr_dir st) d of (path, d1) \<Rightarrow>
      case disk_open path d1 of (fd, d2) \<Rightarrow>
      let st1 = st\<lparr>tr_path := path, tr_fd := fd\<rparr> in
      if fd < 0 then (-1, st1, d2)
      else case ts_mux_write_pat_pmt
          ((ts_mux_reset_cc (tr_mux st1))\<lparr>ts_video_frames := 0, ts_discontinuity := 1\<rparr>) (2 * TS_PACKET_SIZE) of
        (ps, mux) \<Rightarrow>
        let st2 = st1\<lparr>tr_mux := mux\<rparr>; pat_pmt = concat ps in
        case (if pat_pmt = [] then (Inl None, d2)
              else case write_all fd pat_pmt d2 of (Inl n, d3) \<Rightarrow> (Inl (Some n), d3) | (Inr e, d3) \<Rightarrow> (Inr e, d3)) of
          (Inr e, d3) \<Rightarrow> (-1, st2\<lparr>tr_fd := -1\<rparr>, disk_close fd d3)
        | (Inl w, d3) \<Rightarrow>
            let st3 = (case w of None \<Rightarrow> st2
                  | Some n \<Rightarrow> st2\<lparr>tr_bytes_written := tr_bytes_written st2 + word_of_nat n, tr_segment_bytes := word_of_nat n\<rparr>)
            in case disk_now d3 of (now, d4) \<Rightarrow>
              (0, st3\<lparr>tr_segment_start_time := now, tr_segments := tr_segments st3 + 1\<rparr>, d4))"

definition star6e_ts_recorder_start :: "string \<Rightarrow> bool \<Rightarrow> ts_recorder \<Rightarrow> disk \<Rightarrow> int \<times> ts_recorder \<times> disk" where
  "star6e_ts_recorder_start dir audio_ring st0 d0 =
     (if dir = [] then (-1, st0, d0)
      else case (if tr_fd st0 \<ge> 0 then star6e_ts_recorder_stop st0 d0 else (st0, d0)) of (st, d) \<Rightarrow>
      case star6e_recorder_free_space dir d of (free, d1) \<Rightarrow>
      if space_low free then (-1, st\<lparr>tr_last_stop_reason := STOP_DISK_FULL\<rparr>, d1)
      else
        let st1 = st\<lparr>tr_dir := take 255 dir, tr_audio_ring := audio_ring, tr_bytes_written := 0, tr_frames_written := 0,
              tr_segments := 0, tr_frames_since_sync := 0, tr_space_check_countdown := RECORDER_SPACE_CHECK_INTERVAL,
              tr_last_stop_reason := STOP_MANUAL, tr_segment_bytes := 0\<rparr>
        in case disk_now d1 of (now, d2) \<Rightarrow>
           case open_new_segment (st1\<lparr>tr_start_time := now\<rparr>) d2 of (rc, st2, d3) \<Rightarrow>
             ((if rc \<noteq> 0 then -1 else 0), st2, d3))"

definition check_disk_space :: "ts_recorder \<Rightarrow> disk \<Rightarrow> int \<times> ts_recorder \<times> disk" where
  "check_disk_space st d =
     (if tr_space_check_countdown st > 0
      then (0, st\<lparr>tr_space_check_countdown := tr_space_check_countdown st - 1\<rparr>, d)
      else
        let st1 = st\<lparr>tr_space_check_countdown := RECORDER_SPACE_CHECK_INTERVAL\<rparr> in
        case star6e_recorder_free_space (tr_dir st1) d of (free, d1) \<Rightarrow>
          if space_low free
          then case ts_stop_with_reason STOP_DISK_FULL st1 d1 of (st2, d2) \<Rightarrow> (-1, st2, d2)
          else (0, st1, d1))"

definition check_rotation :: "bool \<Rightarrow> ts_recorder \<Rightarrow> disk \<Rightarrow> int \<times> ts_recorder \<times> disk" where
  "check_rotation is_idr st d =
     (if \<not> is_idr then (0, st, d)
      else case (if tr_max_seconds st > 0
                 then case disk_now d of (now, d1) \<Rightarrow>
                   (word_of_int (fst now - fst (tr_segment_start_time st)) \<ge> tr_max_seconds st, d1)
                 else (False, d)) of (time_up, d1) \<Rightarrow>
      if \<not> (time_up \<or> (tr_max_bytes st > 0 \<and> tr_segment_bytes st \<ge> tr_max_bytes st)) then (0, st, d1)
      else
        let d2 = disk_close (tr_fd st) (disk_sync (tr_fd st) d1) in
        case open_new_segment (st\<lparr>tr_fd := -1, tr_segment_bytes := 0\<rparr>) d2 of (rc, st1, d3) \<Rightarrow>
          if rc \<noteq> 0 then (-1, st1\<lparr>tr_last_stop_reason := STOP_WRITE_ERROR\<rparr>, d3) else (0, st1, d3))"

subsection \<open>One video frame\<close>

definition TS_BUF_SIZE :: nat where "TS_BUF_SIZE = 3000 * TS_PACKET_SIZE"

definition audio_pts :: "audio_entry \<Rightarrow> u64" where
  "audio_pts ae = ts_mux_timespec_to_pts (ucast (ae_timestamp_us ae div 1000000))
     (ucast (ae_timestamp_us ae mod 1000000 * 1000))"

lemma pop_count: "audio_ring_pop r = (Some ae, r') \<Longrightarrow> unat (ar_count r') < unat (ar_count r)"
  by (auto simp: audio_ring_pop_def unat_minus_one unat_gt_0 split: if_splits)

text \<open>Draining the ring while eight packets fit: the packets, the multiplexer, the ring.\<close>

function drain_audio :: "nat \<Rightarrow> ts_state \<Rightarrow> audio_ring \<Rightarrow> bytes list \<times> ts_state \<times> audio_ring" where
  "drain_audio room mux r =
     (if room < 8 * TS_PACKET_SIZE then ([], mux, r)
      else case audio_ring_pop r of
        (None, r1) \<Rightarrow> ([], mux, r1)
      | (Some ae, r1) \<Rightarrow>
          case ts_mux_write_audio mux room (take (unat (ae_length ae)) (ae_pcm ae)) (audio_pts ae) of (ps, mux1) \<Rightarrow>
          case drain_audio (room - TS_PACKET_SIZE * length ps) mux1 r1 of (qs, mux2, r2) \<Rightarrow> (ps @ qs, mux2, r2))"
  by pat_completeness auto
termination
  by (relation "measure (\<lambda>(room, mux, r). unat (ar_count r))") (auto dest: pop_count [OF sym])

declare drain_audio.simps [simp del]

text \<open>The last part of a frame: to the file, with the counters and the periodic sync.\<close>

definition flush_frame :: "bytes \<Rightarrow> ts_recorder \<Rightarrow> disk \<Rightarrow> int \<times> ts_recorder \<times> disk" where
  "flush_frame ts_buf st d =
     (case (if ts_buf = [] then (Inl None, d)
            else case write_all (tr_fd st) ts_buf d of (Inl n, d1) \<Rightarrow> (Inl (Some n), d1) | (Inr e, d1) \<Rightarrow> (Inr e, d1)) of
        (Inr e, d1) \<Rightarrow>
          (case ts_stop_with_reason (if e = ENOSPC then STOP_DISK_FULL else STOP_WRITE_ERROR) st d1 of
             (st1, d2) \<Rightarrow> (-1, st1, d2))
      | (Inl w, d1) \<Rightarrow>
          let st1 = (case w of None \<Rightarrow> st
                | Some n \<Rightarrow> st\<lparr>tr_bytes_written := tr_bytes_written st + word_of_nat n,
                              tr_segment_bytes := tr_segment_bytes st + word_of_nat n\<rparr>);
              st2 = st1\<lparr>tr_frames_written := tr_frames_written st1 + 1, tr_frames_since_sync := tr_frames_since_sync st1 + 1\<rparr>
          in if tr_sync_interval_frames st2 > 0 \<and> tr_frames_since_sync st2 \<ge> tr_sync_interval_frames st2
             then (int (length ts_buf), st2\<lparr>tr_frames_since_sync := 0\<rparr>, disk_sync (tr_fd st2) d1)
             else (int (length ts_buf), st2, d1))"

definition star6e_ts_recorder_write_video ::
  "bytes \<Rightarrow> u64 \<Rightarrow> bool \<Rightarrow> ts_recorder \<Rightarrow> audio_ring \<Rightarrow> disk \<Rightarrow> int \<times> ts_recorder \<times> audio_ring \<times> disk" where
  "star6e_ts_recorder_write_video video pts is_idr st0 r d0 =
     (if tr_fd st0 < 0 \<or> video = [] then (0, st0, r, d0)
      else case check_disk_space st0 d0 of (rc1, st1, d1) \<Rightarrow>
      if rc1 \<noteq> 0 then (0, st1, r, d1)
      else case check_rotation is_idr st1 d1 of (rc2, st2, d2) \<Rightarrow>
      if rc2 \<noteq> 0 then (-1, st2, r, d2)
      else case ts_mux_write_video (tr_mux st2) TS_BUF_SIZE video pts is_idr of (vs, mux1) \<Rightarrow>
      case (if tr_audio_ring st2 then drain_audio (TS_BUF_SIZE - TS_PACKET_SIZE * length vs) mux1 r else ([], mux1, r)) of
        (qs, mux2, r1) \<Rightarrow>
      case flush_frame (concat (vs @ qs)) (st2\<lparr>tr_mux := mux2\<rparr>) d2 of (rc, st3, d3) \<Rightarrow> (rc, st3, r1, d3))"

subsection \<open>From encoder frames\<close>

definition NAL_BUF_SIZE :: nat where "NAL_BUF_SIZE = 512 * 1024"

text \<open>The table of one pack: an entry that does not fit ends the table, not the frame.\<close>

fun fill_infos :: "bytes \<Rightarrow> nat \<Rightarrow> pack_info list \<Rightarrow> bytes \<times> bool \<Rightarrow> bytes \<times> bool" where
  "fill_infos d plen [] acc = acc"
| "fill_infos d plen (i # is) (buf, idr) =
     (case info_bytes d plen i of None \<Rightarrow> fill_infos d plen is (buf, idr)
      | Some x \<Rightarrow>
          let idr1 = (idr \<or> pi_nal_type i = 19 \<or> pi_nal_type i = 20) in
          if length buf + length x > NAL_BUF_SIZE then (buf, idr1)
          else fill_infos d plen is (buf @ x, idr1))"

fun fill_packs :: "venc_pack list \<Rightarrow> bytes \<times> bool \<Rightarrow> bytes \<times> bool" where
  "fill_packs [] acc = acc"
| "fill_packs (p # ps) (buf, idr) =
     (case pk_data p of None \<Rightarrow> fill_packs ps (buf, idr)
      | Some d \<Rightarrow>
          if pk_num p > 0
          then fill_packs ps (fill_infos d (pk_length p) (take (info_count p) (pk_info p)) (buf, idr))
          else (case whole_bytes d p of None \<Rightarrow> fill_packs ps (buf, idr)
                | Some x \<Rightarrow> if length buf + length x > NAL_BUF_SIZE then (buf, idr) else fill_packs ps (buf @ x, idr)))"

definition star6e_ts_recorder_write_stream ::
  "venc_stream \<Rightarrow> ts_recorder \<Rightarrow> audio_ring \<Rightarrow> disk \<Rightarrow> int \<times> ts_recorder \<times> audio_ring \<times> disk" where
  "star6e_ts_recorder_write_stream stream st r d =
     (if tr_fd st < 0 then (0, st, r, d)
      else case fill_packs stream ([], False) of (nal_buf, is_idr) \<Rightarrow>
      if nal_buf = [] then (0, st, r, d)
      else case disk_now d of (now, d1) \<Rightarrow>
        star6e_ts_recorder_write_video nal_buf (ts_mux_timespec_to_pts (word_of_int (fst now)) (word_of_int (snd now)))
          is_idr st r d1)"

definition star6e_ts_recorder_status :: "ts_recorder option \<Rightarrow> u64 \<times> u32 \<times> u32 \<times> string \<times> stop_reason" where
  "star6e_ts_recorder_status st = (case st of None \<Rightarrow> (0, 0, 0, '''', STOP_MANUAL)
     | Some s \<Rightarrow> (tr_bytes_written s, tr_frames_written s, tr_segments s, tr_path s, tr_last_stop_reason s))"

end
