(* ===== verification/TsRecorderProps.thy ===== *)
theory TsRecorderProps imports TsRecorder "HOL-Library.Sublist" begin

text \<open>
  What the transport-stream recorder leaves on the disk: every file is a prefix of a well-formed
  segment (tables first, whole packets, counters from 0 without a gap), the file being written is one
  exactly, and no descriptor leaks, whatever the kernel refuses.
\<close>

subsection \<open>Segments\<close>

definition segment_start :: "ts_state \<Rightarrow> bool" where
  "segment_start m \<longleftrightarrow> cc_pat m = 0 \<and> cc_pmt m = 0 \<and> cc_video m = 0 \<and> cc_audio m = 0"

text \<open>The tables, then calls of the multiplexer.\<close>

definition segment_run :: "ts_state \<Rightarrow> ts_call list \<Rightarrow> bytes list \<times> ts_state" where
  "segment_run m calls = (case ts_mux_write_pat_pmt m 376 of (ps, m1) \<Rightarrow>
     case ts_session m1 calls of (qs, m2) \<Rightarrow> (ps @ qs, m2))"

definition segment_ok :: "bytes list \<Rightarrow> bool" where
  "segment_ok ps \<longleftrightarrow> (\<forall>p \<in> set ps. length p = 188)
     \<and> (\<exists>p q rest s. ps = p # q # rest \<and> section_of p = pat_section @ put_be32 (ts_crc32 pat_section)
          \<and> section_of q = pmt_section s @ put_be32 (ts_crc32 (pmt_section s)))
     \<and> (\<forall>pid. ts_counted pid 0 (filter (\<lambda>p. ts_pid p = pid) ps))"

lemma ts_counted_length: "ts_counted pid c ps \<Longrightarrow> p \<in> set ps \<Longrightarrow> length p = 188"
  by (induction ps arbitrary: c) (auto simp: ts_packet_def TS_PACKET_SIZE_def)

lemma segment_start_counter: "segment_start m \<Longrightarrow> ts_counter m pid = 0"
  by (simp add: segment_start_def ts_counter_def)

lemma segment_run_ok:
  assumes "segment_start m" and "segment_run m calls = (ps, m')"
  shows "segment_ok ps"
proof -
  obtain ts m1 where t: "ts_mux_write_pat_pmt m 376 = (ts, m1)" by fastforce
  obtain qs m2 where q: "ts_session m1 calls = (qs, m2)" by fastforce
  have ps: "ps = ts @ qs" "m' = m2" using assms(2) t q by (auto simp: segment_run_def)
  let ?room = "376 + sum_list (map call_room calls)"
  have "ts_contract m ?room (ts, m1)" using ts_contract_more_room [OF pat_pmt_ok(1) [OF t], of ?room] by simp
  moreover have "ts_contract m1 (?room - 188 * length ts) (qs, m2)"
  proof (rule ts_contract_more_room)
    show "ts_contract m1 (sum_list (map call_room calls)) (qs, m2)" using session_contract [of m1 calls] q by simp
    show "sum_list (map call_room calls) \<le> ?room - 188 * length ts"
      using pat_pmt_ok(1) [OF t] unfolding ts_contract_def fst_conv by linarith
  qed
  ultimately have c: "ts_contract m ?room (ps, m')" using ts_contract_trans ps by blast
  have counted: "ts_counted pid 0 (filter (\<lambda>p. ts_pid p = pid) ps)" for pid
    using c segment_start_counter [OF assms(1), of pid] unfolding ts_contract_def fst_conv by metis
  have len: "length p = 188" if "p \<in> set ps" for p
    using ts_counted_length [OF counted [of "ts_pid p"], of p] that by simp
  show ?thesis
    using counted len pat_pmt_ok(2) [OF t] ps by (auto simp: segment_ok_def)
qed

lemma segment_run_nil: "segment_run m [] = ts_mux_write_pat_pmt m 376"
  by (simp add: segment_run_def split: prod.split)

lemma segment_run_more:
  assumes "segment_run m calls = (ps, m1)" and "ts_session m1 calls2 = (qs, m2)"
  shows "segment_run m (calls @ calls2) = (ps @ qs, m2)"
  using assms by (auto simp: segment_run_def session_append split: prod.splits)

lemma drain_session:
  "drain_audio room mux r = (qs, mux', r') \<Longrightarrow> \<exists>calls. ts_session mux calls = (qs, mux')"
proof (induction room mux r arbitrary: qs mux' r' rule: drain_audio.induct)
  case (1 room mux r)
  show ?case
  proof (cases "room < 8 * TS_PACKET_SIZE \<or> fst (audio_ring_pop r) = None")
    case True
    with "1.prems" have "qs = [] \<and> mux' = mux"
      by (subst (asm) drain_audio.simps) (auto split: if_splits prod.splits)
    then show ?thesis by (intro exI [of _ "[]"]) simp
  next
    case False
    then obtain ae r1 where p: "audio_ring_pop r = (Some ae, r1)" by (cases "audio_ring_pop r") auto
    obtain ps mux1 where w: "ts_mux_write_audio mux room (take (unat (ae_length ae)) (ae_pcm ae)) (audio_pts ae) = (ps, mux1)"
      by fastforce
    obtain qs2 mux2 r2 where d: "drain_audio (room - TS_PACKET_SIZE * length ps) mux1 r1 = (qs2, mux2, r2)"
      by (metis prod_cases3)
    have e: "qs = ps @ qs2" "mux' = mux2"
      using "1.prems" False p w d by (subst (asm) drain_audio.simps, auto)+
    obtain calls where "ts_session mux1 calls = (qs2, mux2)"
      using "1.IH" [OF _ p [symmetric] refl w [symmetric] d] False by auto
    then show ?thesis
      using e w by (intro exI [of _ "Audio room (take (unat (ae_length ae)) (ae_pcm ae)) (audio_pts ae) # calls"]) simp
  qed
qed

subsection \<open>Writing\<close>

lemma write_all_loop_ok:
  assumes "write_all_loop ans acc xs = (r, out, ans')" and "Wrote 0 \<notin> set ans"
  shows "(\<exists>k. out = acc @ take k xs) \<and> set ans' \<subseteq> set ans \<and> (\<forall>n. r = Inl n \<longrightarrow> out = acc @ xs \<and> n = length out)"
  using assms
proof (induction ans acc xs rule: write_all_loop.induct)
  case (2 acc x xs)
  then show ?case by (auto intro: exI [of _ "length (x # xs)"])
next
  case (3 a ans acc x xs)
  show ?case
  proof (cases a)
    case (Wrote n)
    with 3 have n: "n \<noteq> 0" by auto
    have rest: "write_all_loop ans (acc @ take n (x # xs)) (drop n (x # xs)) = (r, out, ans')" and w: "Wrote 0 \<notin> set ans"
      using "3.prems" Wrote n by simp_all
    note ih = "3.IH"(1) [OF Wrote n rest w]
    from ih obtain k where "out = (acc @ take n (x # xs)) @ take k (drop n (x # xs))" by blast
    then have "out = acc @ take (n + k) (x # xs)" by (simp only: append_assoc take_add)
    moreover have "set ans' \<subseteq> set (a # ans)" using ih by auto
    moreover have "(acc @ take n (x # xs)) @ drop n (x # xs) = acc @ x # xs" by simp
    then have "\<forall>m. r = Inl m \<longrightarrow> out = acc @ x # xs \<and> m = length out" using ih by metis
    ultimately show ?thesis by blast
  next
    case Interrupted
    with 3 show ?thesis by auto
  next
    case (Failed e)
    with 3 show ?thesis by (auto intro: exI [of _ 0])
  qed
qed auto
lemma write_all_ok:
  assumes "write_all fd data d = (r, d')" and "Wrote 0 \<notin> set (dk_writes d)"
    and "dk_fds d fd = Some p" and "dk_files d p = Some c"
  shows "dk_fds d' = dk_fds d" and "dk_bad_fd d' = dk_bad_fd d" and "set (dk_writes d') \<subseteq> set (dk_writes d)"
    and "\<exists>k. dk_files d' = (dk_files d)(p \<mapsto> c @ take k data)"
    and "r = Inl n \<Longrightarrow> dk_files d' = (dk_files d)(p \<mapsto> c @ data) \<and> n = length data"
proof -
  obtain r1 out ans where l: "write_all_loop (dk_writes d) [] data = (r1, out, ans)" by (metis prod_cases3)
  have e: "r = r1" "d' = d\<lparr>dk_writes := ans, dk_files := (dk_files d)(p \<mapsto> c @ out)\<rparr>"
    using assms l by (auto simp: write_all_def disk_append_def)
  note ok = write_all_loop_ok [OF l assms(2)]
  show "dk_fds d' = dk_fds d" "dk_bad_fd d' = dk_bad_fd d" "set (dk_writes d') \<subseteq> set (dk_writes d)"
    using e ok by auto
  show "\<exists>k. dk_files d' = (dk_files d)(p \<mapsto> c @ take k data)" using e ok by auto
  show "r = Inl n \<Longrightarrow> dk_files d' = (dk_files d)(p \<mapsto> c @ data) \<and> n = length data" using e ok by auto
qed


subsection \<open>The invariant\<close>

definition good_file :: "bytes \<Rightarrow> bool" where
  "good_file c \<longleftrightarrow> (\<exists>m calls. segment_start m \<and> prefix c (concat (fst (segment_run m calls))))"

definition disk_ok :: "disk \<Rightarrow> bool" where
  "disk_ok d \<longleftrightarrow> dk_bad_fd d = 0 \<and> Wrote 0 \<notin> set (dk_writes d) \<and> (\<forall>p c. dk_files d p = Some c \<longrightarrow> good_file c)"

text \<open>The open file is a whole segment, as far as the multiplexer got.\<close>

definition writing :: "ts_recorder \<Rightarrow> disk \<Rightarrow> bool" where
  "writing st d \<longleftrightarrow> (\<exists>m calls ps. segment_start m \<and> segment_run m calls = (ps, tr_mux st)
     \<and> dk_files d (tr_path st) = Some (concat ps) \<and> tr_segment_bytes st = word_of_nat (length (concat ps)))"

definition rec_inv :: "ts_recorder \<Rightarrow> disk \<Rightarrow> bool" where
  "rec_inv st d \<longleftrightarrow> disk_ok d \<and>
     (if tr_fd st < 0 then dk_fds d = Map.empty else dk_fds d = [tr_fd st \<mapsto> tr_path st] \<and> writing st d)"

lemma good_prefix: "good_file c \<Longrightarrow> prefix c' c \<Longrightarrow> good_file c'"
  by (meson good_file_def prefix_order.trans)

lemma good_nil: "good_file []"
proof -
  have "segment_start (ts_mux_init 0 0)" by (simp add: segment_start_def ts_mux_init_def)
  then show ?thesis unfolding good_file_def by auto
qed

lemma disk_ok_same: "same_files d d' \<Longrightarrow> disk_ok d \<Longrightarrow> disk_ok d'"
  by (simp add: disk_ok_def same_files_def)

lemma rec_inv_same: "same_files d d' \<Longrightarrow> rec_inv st d \<Longrightarrow> rec_inv st d'"
  using disk_ok_same by (auto simp: rec_inv_def writing_def same_files_def split: if_splits)

lemma rec_inv_cong:
  assumes "rec_inv st d" and "tr_fd st' = tr_fd st" and "tr_path st' = tr_path st" and "tr_mux st' = tr_mux st"
    and "tr_segment_bytes st' = tr_segment_bytes st"
  shows "rec_inv st' d"
proof -
  have "writing st' d = writing st d" unfolding writing_def by (simp add: assms)
  with assms show ?thesis by (simp add: rec_inv_def)
qed

lemma stop_inv:
  assumes "disk_ok d" and "tr_fd st \<ge> 0 \<Longrightarrow> dk_fds d = [tr_fd st \<mapsto> p]" and "tr_fd st < 0 \<Longrightarrow> dk_fds d = Map.empty"
    and "ts_stop_with_reason reason st d = (st', d')"
  shows "rec_inv st' d' \<and> tr_fd st' < 0 \<and> dk_files d' = dk_files d"
  using assms
  by (auto simp: ts_stop_with_reason_def rec_inv_def disk_ok_def disk_close_def disk_sync_def split: if_splits)

lemma inv_fds: "rec_inv st d \<Longrightarrow> (tr_fd st \<ge> 0 \<longrightarrow> dk_fds d = [tr_fd st \<mapsto> tr_path st]) \<and> (tr_fd st < 0 \<longrightarrow> dk_fds d = Map.empty) \<and> disk_ok d"
  by (simp add: rec_inv_def)

text \<open>Appending to the open file, completely or until an error.\<close>

lemma append_inv:
  assumes w: "write_all (tr_fd st) (concat qs) d = (r, d')" and ok: "disk_ok d" and fds: "dk_fds d = [tr_fd st \<mapsto> tr_path st]"
    and seg: "segment_start m" "segment_run m calls = (ps, mux)" and content: "dk_files d (tr_path st) = Some (concat ps)"
    and ext: "segment_run m calls' = (ps @ qs, mux')"
  shows "disk_ok d' \<and> dk_fds d' = [tr_fd st \<mapsto> tr_path st]
    \<and> (\<forall>n. r = Inl n \<longrightarrow> n = length (concat qs) \<and> dk_files d' (tr_path st) = Some (concat (ps @ qs)))"
proof -
  have zero: "Wrote 0 \<notin> set (dk_writes d)" using ok by (simp add: disk_ok_def)
  have fd: "dk_fds d (tr_fd st) = Some (tr_path st)" using fds by simp
  note wa = write_all_ok [OF w zero fd content]
  obtain k where k: "dk_files d' = (dk_files d)(tr_path st \<mapsto> concat ps @ take k (concat qs))" using wa(4) by blast
  have "prefix (concat ps @ take k (concat qs)) (concat (ps @ qs))" by (simp add: take_is_prefix)
  with seg ext have "good_file (concat ps @ take k (concat qs))" unfolding good_file_def by (metis fst_conv)
  with ok k wa have "disk_ok d'" by (auto simp: disk_ok_def)
  with wa fds show ?thesis by auto
qed

lemma pat_pmt_present:
  assumes "ts_mux_write_pat_pmt m (2 * TS_PACKET_SIZE) = (ps, m')"
  shows "concat ps \<noteq> []"
proof -
  have "ts_mux_write_pat_pmt m 376 = (ps, m')" using assms by (simp add: TS_PACKET_SIZE_def)
  then obtain p q where "ps = [p, q]" "ts_packet TS_PID_PAT (cc_pat m) True p" using pat_pmt_ok(2) by blast
  then show ?thesis by (auto simp: ts_packet_def TS_PACKET_SIZE_def)
qed

lemma open_segment_inv:
  assumes "open_new_segment st d = (rc, st', d')" and "disk_ok d" and "dk_fds d = Map.empty"
  shows "rec_inv st' d' \<and> (rc = 0 \<longleftrightarrow> tr_fd st' \<ge> 0)"
    and "rc = 0 \<Longrightarrow> \<exists>m ps. segment_start m \<and> segment_run m [] = (ps, tr_mux st') \<and> length ps = 2
      \<and> dk_files d' (tr_path st') = Some (concat ps) \<and> tr_segments st' = tr_segments st + 1"
proof -
  have "rec_inv st' d' \<and> (rc = 0 \<longleftrightarrow> tr_fd st' \<ge> 0)
    \<and> (rc = 0 \<longrightarrow> (\<exists>m ps. segment_start m \<and> segment_run m [] = (ps, tr_mux st') \<and> length ps = 2
      \<and> dk_files d' (tr_path st') = Some (concat ps) \<and> tr_segments st' = tr_segments st + 1))"
  proof -
  obtain path d1 where p: "build_ts_path (tr_dir st) d = (path, d1)" by fastforce
  have s1: "same_files d d1" using p now_same by (auto simp: build_ts_path_def split: prod.splits)
  obtain fd d2 where o: "disk_open path d1 = (fd, d2)" by fastforce
  have d1: "disk_ok d1" "dk_fds d1 = Map.empty" using disk_ok_same [OF s1 assms(2)] s1 assms(3) by (simp_all add: same_files_def)
  show ?thesis
  proof (cases "fd < 0")
    case True
    then have "disk_ok d2" "dk_fds d2 = Map.empty"
      using o d1 by (auto simp: disk_open_def disk_ok_def split: list.splits if_splits)
    with assms(1) p o True show ?thesis by (auto simp: open_new_segment_def Let_def rec_inv_def)
  next
    case False
    then have d2: "disk_ok d2" "dk_fds d2 = [fd \<mapsto> path]" "dk_files d2 path = Some []"
      using o d1 good_nil by (auto simp: disk_open_def disk_ok_def split: list.splits if_splits)
    define m where "m = (ts_mux_reset_cc (tr_mux st))\<lparr>ts_video_frames := 0, ts_discontinuity := 1\<rparr>"
    have start: "segment_start m" by (simp add: m_def segment_start_def ts_mux_reset_cc_def)
    obtain ps mux where t: "ts_mux_write_pat_pmt m (2 * TS_PACKET_SIZE) = (ps, mux)" by fastforce
    obtain r d3 where w: "write_all fd (concat ps) d2 = (r, d3)" by fastforce
    define st2 where "st2 = st\<lparr>tr_path := path, tr_fd := fd, tr_mux := mux\<rparr>"
    have run: "segment_run m [] = (ps, mux)" using t by (simp add: segment_run_nil TS_PACKET_SIZE_def)
    have zero: "Wrote 0 \<notin> set (dk_writes d2)" using d2 by (simp add: disk_ok_def)
    have fd2: "dk_fds d2 fd = Some path" using d2 by simp
    note wa = write_all_ok [OF w zero fd2 d2(3)]
    obtain j where j: "dk_files d3 = (dk_files d2)(path \<mapsto> take j (concat ps))" using wa(4) by auto
    have "good_file (take j (concat ps))"
      unfolding good_file_def using start run take_is_prefix by (metis fst_conv)
    with j wa d2 have out: "disk_ok d3" "dk_fds d3 = [fd \<mapsto> path]" by (auto simp: disk_ok_def)
    have full: "n = length (concat ps) \<and> dk_files d3 path = Some (concat ps)" if "r = Inl n" for n
      using wa(5) [OF that] by simp
    obtain now d4 where n: "disk_now d3 = (now, d4)" by fastforce
    have d4: "disk_ok d4" "dk_fds d4 = dk_fds d3" "dk_files d4 = dk_files d3"
      using disk_ok_same [OF now_same [OF n] out(1)] now_same [OF n] by (simp_all add: same_files_def)
    have closed: "disk_ok (disk_close fd d3)" "dk_fds (disk_close fd d3) = Map.empty"
      using out by (auto simp: disk_close_def disk_ok_def)
    show ?thesis
    proof (cases r)
      case (Inr e)
      with assms(1) p o False t w pat_pmt_present [OF t] closed show ?thesis
        by (auto simp: open_new_segment_def Let_def m_def rec_inv_def simp del: concat_eq_Nil_conv)
    next
      case (Inl n)
      have two: "length ps = 2" using pat_pmt_ok(2) [of m 376 ps mux] t by (auto simp: TS_PACKET_SIZE_def)
      have "rc = 0 \<and> tr_fd st' = fd \<and> tr_path st' = path \<and> tr_mux st' = mux \<and> tr_segment_bytes st' = word_of_nat n \<and> d' = d4
          \<and> tr_segments st' = tr_segments st + 1"
        using assms(1) p o False t w Inl pat_pmt_present [OF t] n
        by (auto simp: open_new_segment_def Let_def m_def simp del: concat_eq_Nil_conv)
      with full [OF Inl] out d4 start run False two show ?thesis
        unfolding rec_inv_def writing_def by auto
    qed
  qed
  qed
  then show "rec_inv st' d' \<and> (rc = 0 \<longleftrightarrow> tr_fd st' \<ge> 0)"
    and "rc = 0 \<Longrightarrow> \<exists>m ps. segment_start m \<and> segment_run m [] = (ps, tr_mux st') \<and> length ps = 2
      \<and> dk_files d' (tr_path st') = Some (concat ps) \<and> tr_segments st' = tr_segments st + 1" by blast+
qed


lemma stopped_inv:
  assumes "rec_inv st d" and "ts_stop_with_reason reason st d = (st', d')"
  shows "rec_inv st' d' \<and> tr_fd st' < 0"
  using stop_inv [of d st "tr_path st" reason st' d'] inv_fds [OF assms(1)] assms(2) by auto

lemma disk_space_inv:
  assumes "rec_inv st d" and "check_disk_space st d = (rc, st', d')" and "tr_fd st \<ge> 0"
  shows "rec_inv st' d' \<and> (rc = 0 \<longrightarrow> tr_fd st' \<ge> 0)"
proof (cases "tr_space_check_countdown st > 0")
  case True
  have "rec_inv (st\<lparr>tr_space_check_countdown := tr_space_check_countdown st - 1\<rparr>) d"
    by (rule rec_inv_cong [OF assms(1)]) simp_all
  with True assms show ?thesis by (auto simp: check_disk_space_def)
next
  case False
  let ?st1 = "st\<lparr>tr_space_check_countdown := RECORDER_SPACE_CHECK_INTERVAL\<rparr>"
  obtain free d1 where f: "star6e_recorder_free_space (tr_dir st) d = (free, d1)" by fastforce
  have "rec_inv ?st1 d" by (rule rec_inv_cong [OF assms(1)]) simp_all
  then have i1: "rec_inv ?st1 d1" by (rule rec_inv_same [OF free_space_same [OF f]])
  obtain st2 d2 where s: "ts_stop_with_reason STOP_DISK_FULL ?st1 d1 = (st2, d2)" by fastforce
  from stopped_inv [OF i1 s] i1 show ?thesis
    using assms(2,3) False f s by (auto simp: check_disk_space_def Let_def split: if_splits)
qed

lemma rotation_inv:
  assumes "rec_inv st d" and "check_rotation idr st d = (rc, st', d')" and "tr_fd st \<ge> 0"
  shows "rec_inv st' d' \<and> (rc = 0 \<longrightarrow> tr_fd st' \<ge> 0)"
proof -
  obtain up d1 where t: "(if tr_max_seconds st > 0
      then case disk_now d of (now, d1) \<Rightarrow> (word_of_int (fst now - fst (tr_segment_start_time st)) \<ge> tr_max_seconds st, d1)
      else (False, d)) = (up, d1)" by fastforce
  have "same_files d d1" using t now_same by (auto split: if_splits prod.splits)
  then have i1: "rec_inv st d1" using rec_inv_same assms(1) by blast
  show ?thesis
  proof (cases "idr \<and> (up \<or> (tr_max_bytes st > 0 \<and> tr_segment_bytes st \<ge> tr_max_bytes st))")
    case False
    then show ?thesis using assms t i1 unfolding check_rotation_def by (auto split: if_splits)
  next
    case True
    let ?d2 = "disk_close (tr_fd st) (disk_sync (tr_fd st) d1)"
    have d2: "disk_ok ?d2" "dk_fds ?d2 = Map.empty"
      using i1 assms(3) by (auto simp: rec_inv_def disk_close_def disk_sync_def disk_ok_def)
    obtain rc1 st1 d3 where o: "open_new_segment (st\<lparr>tr_fd := -1, tr_segment_bytes := 0\<rparr>) ?d2 = (rc1, st1, d3)"
      by (metis prod_cases3)
    note oi = open_segment_inv(1) [OF o d2]
    have "rec_inv (st1\<lparr>tr_last_stop_reason := STOP_WRITE_ERROR\<rparr>) d3"
      by (rule rec_inv_cong) (use oi in auto)
    with oi show ?thesis
      using assms(2) t o True unfolding check_rotation_def by (auto simp: Let_def split: if_splits)
  qed
qed


text \<open>One frame and the audio drained behind it are calls of the multiplexer.\<close>

lemma frame_session:
  assumes "ts_mux_write_video mux TS_BUF_SIZE video pts idr = (vs, mux1)"
    and "(if audio then drain_audio room mux1 r else ([], mux1, r)) = (qs, mux2, r1)"
  shows "\<exists>calls. ts_session mux (Video TS_BUF_SIZE video pts idr # calls) = (vs @ qs, mux2)"
proof -
  have "\<exists>calls. ts_session mux1 calls = (qs, mux2)"
  proof (cases audio)
    case True
    with assms(2) drain_session show ?thesis by simp
  next
    case False
    with assms(2) show ?thesis by (intro exI [of _ "[]"]) simp
  qed
  then obtain calls where "ts_session mux1 calls = (qs, mux2)" by blast
  with assms(1) show ?thesis by (intro exI [of _ calls]) simp
qed

lemma flush_inv:
  assumes run: "flush_frame (concat qs) (st\<lparr>tr_mux := mux'\<rparr>) d = (rc, st', d')" and inv: "rec_inv st d" "tr_fd st \<ge> 0"
    and more: "ts_session (tr_mux st) calls2 = (qs, mux')"
  shows "rec_inv st' d' \<and> (rc \<ge> 0 \<longrightarrow> tr_path st' = tr_path st \<and> tr_segments st' = tr_segments st
    \<and> (\<forall>ps. dk_files d (tr_path st) = Some (concat ps) \<longrightarrow> dk_files d' (tr_path st) = Some (concat (ps @ qs))))"
proof -
  obtain w d3 where wr: "write_all (tr_fd st) (concat qs) d = (w, d3)" by fastforce
  obtain m calls ps where seg: "segment_start m" "segment_run m calls = (ps, tr_mux st)"
    and content: "dk_files d (tr_path st) = Some (concat ps)" "tr_segment_bytes st = word_of_nat (length (concat ps))"
    using inv by (auto simp: rec_inv_def writing_def)
  have fds: "disk_ok d" "dk_fds d = [tr_fd st \<mapsto> tr_path st]" using inv by (auto simp: rec_inv_def)
  have ext: "segment_run m (calls @ calls2) = (ps @ qs, mux')" by (rule segment_run_more [OF seg(2) more])
  note ap = append_inv [OF wr fds seg content(1) ext]
  define ts_buf where "ts_buf = concat qs"
  define st3 where "st3 = st\<lparr>tr_mux := mux'\<rparr>"
  note run' = run [folded ts_buf_def st3_def, unfolded flush_frame_def]
  have wr': "write_all (tr_fd st3) ts_buf d = (w, d3)" using wr by (simp add: ts_buf_def st3_def)
  show ?thesis
  proof (cases w)
    case (Inr e)
    obtain st4 d4 where s: "ts_stop_with_reason (if e = ENOSPC then STOP_DISK_FULL else STOP_WRITE_ERROR) st3 d3 = (st4, d4)"
      by fastforce
    have "rec_inv st4 d4" using stop_inv [OF _ _ _ s, of "tr_path st"] ap inv(2) by (simp add: st3_def)
    moreover have "ts_buf \<noteq> []" using wr' Inr by (auto simp: write_all_def)
    ultimately show ?thesis using run' wr' Inr s by auto
  next
    case (Inl n)
    with ap have n: "n = length ts_buf" "dk_files d3 (tr_path st) = Some (concat (ps @ qs))" by (auto simp: ts_buf_def)
    define d3' where "d3' = (if ts_buf = [] then d else d3)"
    have d3: "disk_ok d3'" "dk_fds d3' = [tr_fd st \<mapsto> tr_path st]" "dk_files d3' (tr_path st) = Some (concat (ps @ qs))"
      using ap n fds content by (auto simp: d3'_def ts_buf_def)
    have sync: "disk_sync (tr_fd st) d3' = d3'" using d3 by (simp add: disk_sync_def)
    have d': "d' = d3'" and st': "tr_fd st' = tr_fd st" "tr_path st' = tr_path st" "tr_mux st' = mux'"
        "tr_segment_bytes st' = tr_segment_bytes st + word_of_nat n" "tr_segments st' = tr_segments st"
      using run' wr' Inl n sync by (auto simp: Let_def st3_def d3'_def split: if_splits)
    have "tr_segment_bytes st' = word_of_nat (length (concat (ps @ qs)))" using st' content n by (simp add: ts_buf_def)
    with d3 st' ext seg(1) have "writing st' d3'"
      unfolding writing_def by (intro exI [of _ m] exI [of _ "calls @ calls2"] exI [of _ "ps @ qs"]) simp
    with d3 st' inv(2) content show ?thesis by (simp add: d' rec_inv_def)
  qed
qed

lemma write_video_inv:
  assumes "rec_inv st d" and run: "star6e_ts_recorder_write_video video pts idr st r d = (rc, st', r', d')"
  shows "rec_inv st' d'"
proof (cases "tr_fd st < 0 \<or> video = []")
  case True
  with assms show ?thesis by (auto simp: star6e_ts_recorder_write_video_def)
next
  case False
  obtain rc1 st1 d1 where c: "check_disk_space st d = (rc1, st1, d1)" by (metis prod_cases3)
  have ci: "rec_inv st1 d1" "rc1 = 0 \<longrightarrow> tr_fd st1 \<ge> 0" using disk_space_inv [OF assms(1) c] False by auto
  obtain rc2 st2 d2 where o: "check_rotation idr st1 d1 = (rc2, st2, d2)" by (metis prod_cases3)
  show ?thesis
  proof (cases "rc1 = 0 \<and> rc2 = 0")
    case ok: False
    then show ?thesis
      using run False c o ci rotation_inv [OF ci(1) o] by (auto simp: star6e_ts_recorder_write_video_def split: if_splits)
  next
    case True
    then have i2: "rec_inv st2 d2" "tr_fd st2 \<ge> 0" using ci rotation_inv [OF ci(1) o] by auto
    obtain vs mux1 where v: "ts_mux_write_video (tr_mux st2) TS_BUF_SIZE video pts idr = (vs, mux1)" by fastforce
    obtain qs mux2 r1 where q: "(if tr_audio_ring st2 then drain_audio (TS_BUF_SIZE - TS_PACKET_SIZE * length vs) mux1 r
        else ([], mux1, r)) = (qs, mux2, r1)" by (metis prod_cases3)
    obtain rc3 st3 d3 where f: "flush_frame (concat (vs @ qs)) (st2\<lparr>tr_mux := mux2\<rparr>) d2 = (rc3, st3, d3)" by (metis prod_cases3)
    obtain calls where "ts_session (tr_mux st2) calls = (vs @ qs, mux2)" using frame_session [OF v q] by blast
    from flush_inv [OF f i2 this] show ?thesis
      using run False c o True v q f by (simp add: star6e_ts_recorder_write_video_def)
  qed
qed


lemma write_stream_inv:
  assumes "rec_inv st d" and "star6e_ts_recorder_write_stream stream st r d = (rc, st', r', d')"
  shows "rec_inv st' d'"
proof -
  obtain now d1 where n: "disk_now d = (now, d1)" by fastforce
  obtain buf idr where b: "fill_packs stream ([], False) = (buf, idr)" by fastforce
  have "rec_inv st d1" by (rule rec_inv_same [OF now_same [OF n] assms(1)])
  from write_video_inv [OF this] show ?thesis
    using assms n b by (auto simp: star6e_ts_recorder_write_stream_def split: if_splits)
qed

lemma start_inv:
  assumes "rec_inv st d" and "star6e_ts_recorder_start dir audio st d = (rc, st', d')"
  shows "rec_inv st' d'"
proof (cases "dir = []")
  case True
  with assms show ?thesis by (simp add: star6e_ts_recorder_start_def)
next
  case False
  obtain st1 d1 where s: "(if tr_fd st \<ge> 0 then star6e_ts_recorder_stop st d else (st, d)) = (st1, d1)" by fastforce
  have i1: "rec_inv st1 d1" "tr_fd st1 < 0"
    using s assms(1) stopped_inv [OF assms(1)] by (auto simp: star6e_ts_recorder_stop_def split: if_splits)
  obtain free d2 where f: "star6e_recorder_free_space dir d1 = (free, d2)" by fastforce
  obtain now d3 where n: "disk_now d2 = (now, d3)" by fastforce
  have i2: "rec_inv st1 d2" by (rule rec_inv_same [OF free_space_same [OF f] i1(1)])
  have i3: "rec_inv st1 d3" by (rule rec_inv_same [OF now_same [OF n] i2])
  show ?thesis
  proof (cases "space_low free")
    case True
    have "rec_inv (st1\<lparr>tr_last_stop_reason := STOP_DISK_FULL\<rparr>) d2" by (rule rec_inv_cong [OF i2]) simp_all
    with assms(2) False s f True show ?thesis by (simp add: star6e_ts_recorder_start_def)
  next
    case ok: False
    have d3: "disk_ok d3" "dk_fds d3 = Map.empty" using i3 i1(2) by (simp_all add: rec_inv_def)
    show ?thesis
      using assms(2) False s f ok n open_segment_inv(1) [OF _ d3]
      by (auto simp: star6e_ts_recorder_start_def Let_def split: prod.splits)
  qed
qed

subsection \<open>Any use of the recorder\<close>

datatype rec_op = Start string bool | Frame venc_stream | Unit bytes u64 bool | Captured audio_frame | Stop

fun rec_step :: "rec_op \<Rightarrow> ts_recorder \<times> audio_ring \<times> disk \<Rightarrow> ts_recorder \<times> audio_ring \<times> disk" where
  "rec_step (Start dir audio) (st, r, d) = (case star6e_ts_recorder_start dir audio st d of (rc, st1, d1) \<Rightarrow> (st1, r, d1))"
| "rec_step (Frame stream) (st, r, d) = snd (star6e_ts_recorder_write_stream stream st r d)"
| "rec_step (Unit video pts idr) (st, r, d) = snd (star6e_ts_recorder_write_video video pts idr st r d)"
| "rec_step (Captured f) (st, r, d) = (st, audio_ring_push f r, d)"
| "rec_step Stop (st, r, d) = (case star6e_ts_recorder_stop st d of (st1, d1) \<Rightarrow> (st1, r, d1))"

lemma rec_step_inv:
  assumes "rec_inv st d" and "rec_step x (st, r, d) = (st', r', d')"
  shows "rec_inv st' d'"
proof (cases x)
  case (Start dir audio)
  with assms start_inv [OF assms(1)] show ?thesis by (auto split: prod.splits)
next
  case (Frame stream)
  with assms write_stream_inv [OF assms(1)] show ?thesis by (metis prod.collapse rec_step.simps(2))
next
  case (Unit video pts idr)
  with assms write_video_inv [OF assms(1)] show ?thesis by (metis prod.collapse rec_step.simps(3))
next
  case (Captured f)
  with assms show ?thesis by simp
next
  case Stop
  with assms stopped_inv [OF assms(1)] show ?thesis by (auto simp: star6e_ts_recorder_stop_def split: prod.splits)
qed

lemma rec_run_inv:
  "rec_inv st d \<Longrightarrow> fold rec_step xs (st, r, d) = (st', r', d') \<Longrightarrow> rec_inv st' d'"
proof (induction xs arbitrary: st r d)
  case (Cons x xs)
  obtain st1 r1 d1 where s: "rec_step x (st, r, d) = (st1, r1, d1)" by (metis prod_cases3)
  from Cons.IH [OF rec_step_inv [OF Cons.prems(1) s]] Cons.prems(2) s show ?case by simp
qed simp


lemma disk_empty_inv:
  "dk_files d = Map.empty \<Longrightarrow> dk_fds d = Map.empty \<Longrightarrow> dk_bad_fd d = 0 \<Longrightarrow> Wrote 0 \<notin> set (dk_writes d)
   \<Longrightarrow> rec_inv (star6e_ts_recorder_init rate ch) d"
  by (simp add: rec_inv_def disk_ok_def star6e_ts_recorder_init_def)

text \<open>Property C8. Whatever is recorded, started and stopped, and whatever the kernel answers (a write of
  nothing without an error apart), every file on the disk is a prefix of a segment: the program tables
  first, then whole 188-byte packets whose continuity counters start at 0 and have no gap for any
  PID. The file being written is exactly such a segment and its size is what the recorder accounts
  for rotation. No descriptor leaks and none is used after it was closed.\<close>

theorem ts_recorder_files_valid:
  assumes "dk_files d = Map.empty" and "dk_fds d = Map.empty" and "dk_bad_fd d = 0" and "Wrote 0 \<notin> set (dk_writes d)"
    and "fold rec_step ops (star6e_ts_recorder_init rate ch, ring, d) = (st, ring', d')"
  shows "(\<forall>p c. dk_files d' p = Some c \<longrightarrow> (\<exists>ps. segment_ok ps \<and> prefix c (concat ps)))
    \<and> dk_bad_fd d' = 0 \<and> (tr_fd st < 0 \<longrightarrow> dk_fds d' = Map.empty)
    \<and> (tr_fd st \<ge> 0 \<longrightarrow> dk_fds d' = [tr_fd st \<mapsto> tr_path st]
         \<and> (\<exists>ps. segment_ok ps \<and> dk_files d' (tr_path st) = Some (concat ps)
              \<and> tr_segment_bytes st = word_of_nat (188 * length ps)))"
proof -
  have inv: "rec_inv st d'" using rec_run_inv [OF disk_empty_inv assms(5)] assms(1-4) by blast
  have files: "\<exists>ps. segment_ok ps \<and> prefix c (concat ps)" if "dk_files d' p = Some c" for p c
  proof -
    have "good_file c" using inv that by (simp add: rec_inv_def disk_ok_def)
    then obtain m calls where mc: "segment_start m" "prefix c (concat (fst (segment_run m calls)))" by (auto simp: good_file_def)
    obtain ps m' where "segment_run m calls = (ps, m')" by fastforce
    with mc segment_run_ok show ?thesis by (metis fst_conv)
  qed
  have cur: "\<exists>ps. segment_ok ps \<and> dk_files d' (tr_path st) = Some (concat ps) \<and> tr_segment_bytes st = word_of_nat (188 * length ps)"
    if "tr_fd st \<ge> 0"
  proof -
    obtain m calls ps where w: "segment_start m" "segment_run m calls = (ps, tr_mux st)"
      "dk_files d' (tr_path st) = Some (concat ps)" "tr_segment_bytes st = word_of_nat (length (concat ps))"
      using inv \<open>tr_fd st \<ge> 0\<close> by (auto simp: rec_inv_def writing_def)
    have ok: "segment_ok ps" by (rule segment_run_ok [OF w(1,2)])
    then have "\<forall>p \<in> set ps. length p = 188" by (simp add: segment_ok_def)
    then have "length (concat ps) = 188 * length ps" by (induction ps) auto
    with ok w(3,4) show ?thesis by metis
  qed
  have "dk_bad_fd d' = 0" "tr_fd st < 0 \<longrightarrow> dk_fds d' = Map.empty"
    "tr_fd st \<ge> 0 \<longrightarrow> dk_fds d' = [tr_fd st \<mapsto> tr_path st]"
    using inv by (auto simp: rec_inv_def disk_ok_def)
  with files cur show ?thesis by blast
qed

text \<open>A disk that opens two files, splits the first write and refuses the third.\<close>

definition demo_disk :: disk where
  "demo_disk = \<lparr>dk_files = Map.empty, dk_fds = Map.empty, dk_writes = [Wrote 100, Interrupted, Wrote 276, Wrote 500, Failed 5],
     dk_opens = [3, 4], dk_space = (\<lambda>_. None), dk_asked = 0, dk_clock = (\<lambda>n. (int n, 0)), dk_ticks = 0, dk_bad_fd = 0\<rparr>"

theorem ts_recorder_files_valid_witness:
  "case fold rec_step [Start ''/mnt'' False, Unit [0, 0, 0, 1, 0x26] 900 True, Stop, Start ''/mnt'' False]
     (star6e_ts_recorder_init 48000 2, audio_ring_init, demo_disk) of
     (st, ring, d') \<Rightarrow> dk_bad_fd d' = 0 \<and> (\<forall>p c. dk_files d' p = Some c \<longrightarrow> (\<exists>ps. segment_ok ps \<and> prefix c (concat ps)))"
proof -
  obtain st ring' d' where r: "fold rec_step [Start ''/mnt'' False, Unit [0, 0, 0, 1, 0x26] 900 True, Stop, Start ''/mnt'' False]
     (star6e_ts_recorder_init 48000 2, audio_ring_init, demo_disk) = (st, ring', d')" by (metis prod_cases3)
  have "dk_files demo_disk = Map.empty" "dk_fds demo_disk = Map.empty" "dk_bad_fd demo_disk = 0"
    "Wrote 0 \<notin> set (dk_writes demo_disk)" by (simp_all add: demo_disk_def)
  from ts_recorder_files_valid [OF this r] r show ?thesis by simp
qed

subsection \<open>A recorded frame\<close>

lemma write_audio_pid: "ts_mux_write_audio s room data pts = (ps, s') \<Longrightarrow> p \<in> set ps \<Longrightarrow> ts_pid p = TS_PID_AUDIO"
  using ts_unit_pid [OF write_pes_ok(1) [OF _ pid_13(2)]]
  by (fastforce simp: ts_mux_write_audio_def split: if_splits prod.splits)

lemma drain_pid: "drain_audio room mux r = (qs, mux', r') \<Longrightarrow> q \<in> set qs \<Longrightarrow> ts_pid q = TS_PID_AUDIO"
proof (induction room mux r arbitrary: qs mux' r' rule: drain_audio.induct)
  case (1 room mux r)
  have np: "\<not> room < 8 * TS_PACKET_SIZE \<and> fst (audio_ring_pop r) \<noteq> None"
    using "1.prems" by (subst (asm) drain_audio.simps) (auto split: if_splits prod.splits option.splits)
  then obtain ae r1 where p: "audio_ring_pop r = (Some ae, r1)" by (cases "audio_ring_pop r") auto
  obtain ps mux1 where w: "ts_mux_write_audio mux room (take (unat (ae_length ae)) (ae_pcm ae)) (audio_pts ae) = (ps, mux1)"
    by fastforce
  obtain qs2 mux2 r2 where d: "drain_audio (room - TS_PACKET_SIZE * length ps) mux1 r1 = (qs2, mux2, r2)"
    by (metis prod_cases3)
  have "qs = ps @ qs2" using "1.prems"(1) np p w d by (subst (asm) drain_audio.simps) auto
  then show ?case using "1.prems"(2) write_audio_pid [OF w] "1.IH" [OF _ p [symmetric] refl w [symmetric] d] np by auto
qed


lemma disk_space_ok:
  "check_disk_space st d = (0, st', d') \<Longrightarrow> same_files d d' \<and> (\<exists>k. st' = st\<lparr>tr_space_check_countdown := k\<rparr>)"
  using free_space_same
  by (auto simp: check_disk_space_def Let_def split: if_splits prod.splits)

lemma rotation_same:
  assumes "check_rotation idr st d = (0, st', d')" and "tr_segments st' = tr_segments st" and "rec_inv st d" and "tr_fd st \<ge> 0"
  shows "st' = st \<and> same_files d d'"
    and "\<not> idr \<Longrightarrow> d' = d"
proof -
  obtain up d1 where t: "(if tr_max_seconds st > 0
      then case disk_now d of (now, d1) \<Rightarrow> (word_of_int (fst now - fst (tr_segment_start_time st)) \<ge> tr_max_seconds st, d1)
      else (False, d)) = (up, d1)" by fastforce
  have s1: "same_files d d1" using t now_same by (auto split: if_splits prod.splits)
  then have i1: "rec_inv st d1" using rec_inv_same assms(3) by blast
  let ?d2 = "disk_close (tr_fd st) (disk_sync (tr_fd st) d1)"
  have d2: "disk_ok ?d2" "dk_fds ?d2 = Map.empty"
    using i1 assms(4) by (auto simp: rec_inv_def disk_close_def disk_sync_def disk_ok_def)
  obtain rc1 st1 d3 where o: "open_new_segment (st\<lparr>tr_fd := -1, tr_segment_bytes := 0\<rparr>) ?d2 = (rc1, st1, d3)"
    by (metis prod_cases3)
  have "rc1 = 0 \<Longrightarrow> tr_segments st1 \<noteq> tr_segments st" using open_segment_inv(2) [OF o d2] by auto
  then show "st' = st \<and> same_files d d'" "\<not> idr \<Longrightarrow> d' = d"
    using assms(1,2) t s1 o unfolding check_rotation_def by (auto simp: Let_def split: if_splits)
qed

lemma rotation_new:
  assumes "check_rotation idr st d = (0, st', d')" and "tr_segments st' \<noteq> tr_segments st" and "rec_inv st d" and "tr_fd st \<ge> 0"
  shows "idr \<and> (\<exists>m ps. segment_start m \<and> segment_run m [] = (ps, tr_mux st') \<and> length ps = 2
      \<and> dk_files d' (tr_path st') = Some (concat ps))"
proof -
  obtain up d1 where t: "(if tr_max_seconds st > 0
      then case disk_now d of (now, d1) \<Rightarrow> (word_of_int (fst now - fst (tr_segment_start_time st)) \<ge> tr_max_seconds st, d1)
      else (False, d)) = (up, d1)" by fastforce
  have "same_files d d1" using t now_same by (auto split: if_splits prod.splits)
  then have i1: "rec_inv st d1" using rec_inv_same assms(3) by blast
  let ?d2 = "disk_close (tr_fd st) (disk_sync (tr_fd st) d1)"
  have d2: "disk_ok ?d2" "dk_fds ?d2 = Map.empty"
    using i1 assms(4) by (auto simp: rec_inv_def disk_close_def disk_sync_def disk_ok_def)
  obtain rc1 st1 d3 where o: "open_new_segment (st\<lparr>tr_fd := -1, tr_segment_bytes := 0\<rparr>) ?d2 = (rc1, st1, d3)"
    by (metis prod_cases3)
  have "idr \<and> rc1 = 0 \<and> st' = st1 \<and> d' = d3"
    using assms(1,2) t o unfolding check_rotation_def by (auto simp: Let_def split: if_splits)
  with open_segment_inv(2) [OF o d2] show ?thesis by auto
qed

text \<open>Property C9. A frame the recorder accepts is in the file: behind what the file held, or in a new file
  behind the program tables, come packets from which a receiver rebuilds exactly the frame and its
  time stamp. A new file is begun only at a key frame, so each file after the first can be decoded
  from its first frame on.\<close>

theorem recorded_frame_recoverable:
  assumes "rec_inv st d" and "length video \<le> NAL_BUF_SIZE"
    and "star6e_ts_recorder_write_video video pts idr st r d = (rc, st', r', d')" and "rc > 0"
  shows "\<exists>ps qs. dk_files d' (tr_path st') = Some (concat (ps @ qs)) \<and> segment_ok (ps @ qs)
    \<and> pes_parse (demux TS_PID_VIDEO qs) = Some (0xE0, take_bit 33 pts, video)
    \<and> (if tr_segments st' = tr_segments st
        then tr_path st' = tr_path st \<and> dk_files d (tr_path st) = Some (concat ps) else idr \<and> length ps = 2)"
proof -
  have act: "tr_fd st \<ge> 0" "video \<noteq> []" using assms(3,4) by (auto simp: star6e_ts_recorder_write_video_def split: if_splits)
  obtain rc1 st1 d1 where c: "check_disk_space st d = (rc1, st1, d1)" by (metis prod_cases3)
  obtain rc2 st2 d2 where o: "check_rotation idr st1 d1 = (rc2, st2, d2)" by (metis prod_cases3)
  have ok: "rc1 = 0" "rc2 = 0"
    using assms(3,4) act c o by (auto simp: star6e_ts_recorder_write_video_def split: if_splits)
  have same: "same_files d d1" "\<exists>k. st1 = st\<lparr>tr_space_check_countdown := k\<rparr>" using disk_space_ok c ok by auto
  have i1: "rec_inv st1 d1" "tr_fd st1 \<ge> 0" using disk_space_inv [OF assms(1) c act(1)] ok by auto
  have i2: "rec_inv st2 d2" "tr_fd st2 \<ge> 0" using rotation_inv [OF i1(1) o i1(2)] ok by auto
  obtain vs mux1 where v: "ts_mux_write_video (tr_mux st2) TS_BUF_SIZE video pts idr = (vs, mux1)" by fastforce
  obtain qs mux2 r1 where q: "(if tr_audio_ring st2 then drain_audio (TS_BUF_SIZE - TS_PACKET_SIZE * length vs) mux1 r
      else ([], mux1, r)) = (qs, mux2, r1)" by (metis prod_cases3)
  have f: "flush_frame (concat (vs @ qs)) (st2\<lparr>tr_mux := mux2\<rparr>) d2 = (rc, st', d')"
    using assms(3) act c o ok v q by (auto simp: star6e_ts_recorder_write_video_def split: prod.splits)
  obtain calls2 where more: "ts_session (tr_mux st2) calls2 = (vs @ qs, mux2)" using frame_session [OF v q] by blast
  note fl = flush_inv [OF f i2 more]
  have f2: "tr_path st' = tr_path st2" "tr_segments st' = tr_segments st2"
    and cont: "\<And>ps. dk_files d2 (tr_path st2) = Some (concat ps) \<Longrightarrow> dk_files d' (tr_path st2) = Some (concat (ps @ (vs @ qs)))"
    using fl assms(4) by auto
  have "\<exists>m calls ps. segment_start m \<and> segment_run m calls = (ps, tr_mux st2) \<and> dk_files d2 (tr_path st2) = Some (concat ps)
      \<and> (if tr_segments st2 = tr_segments st
         then tr_path st2 = tr_path st \<and> dk_files d (tr_path st) = Some (concat ps) else idr \<and> length ps = 2)"
  proof (cases "tr_segments st2 = tr_segments st1")
    case True
    then have s2: "st2 = st1" "dk_files d2 = dk_files d" using rotation_same(1) o ok i1 same(1) by (auto simp: same_files_def)
    obtain m calls ps where "segment_start m" "segment_run m calls = (ps, tr_mux st)" "dk_files d (tr_path st) = Some (concat ps)"
      using assms(1) act(1) by (auto simp: rec_inv_def writing_def)
    with s2 same(2) show ?thesis by (intro exI [of _ m] exI [of _ calls] exI [of _ ps]) auto
  next
    case False
    then have "idr \<and> (\<exists>m ps. segment_start m \<and> segment_run m [] = (ps, tr_mux st2) \<and> length ps = 2
        \<and> dk_files d2 (tr_path st2) = Some (concat ps))" using rotation_new o ok i1 by blast
    then obtain m ps where "idr" "segment_start m" "segment_run m [] = (ps, tr_mux st2)" "length ps = 2"
      "dk_files d2 (tr_path st2) = Some (concat ps)" by blast
    with same(2) False show ?thesis by (intro exI [of _ m] exI [of _ "[]"] exI [of _ ps]) auto
  qed
  then obtain m calls ps where seg: "segment_start m" "segment_run m calls = (ps, tr_mux st2)"
    and content: "dk_files d2 (tr_path st2) = Some (concat ps)"
    and place: "if tr_segments st2 = tr_segments st
         then tr_path st2 = tr_path st \<and> dk_files d (tr_path st) = Some (concat ps) else idr \<and> length ps = 2" by blast
  have "segment_ok (ps @ (vs @ qs))" by (rule segment_run_ok [OF seg(1) segment_run_more [OF seg(2) more]])
  moreover have "pes_parse (demux TS_PID_VIDEO (vs @ qs)) = Some (0xE0, take_bit 33 pts, video)"
  proof -
    have "\<forall>q \<in> set qs. ts_pid q = TS_PID_AUDIO" using q drain_pid by (auto split: if_splits)
    then have "filter (\<lambda>p. ts_pid p = TS_PID_VIDEO) qs = []" using pid_distinct by (auto simp: filter_empty_conv)
    then have "demux TS_PID_VIDEO (vs @ qs) = demux TS_PID_VIDEO vs" by (simp add: demux_def)
    moreover have "length video + 22 \<le> 184 * (TS_BUF_SIZE div 188 - 2)"
      using assms(2) by (simp add: NAL_BUF_SIZE_def TS_BUF_SIZE_def TS_PACKET_SIZE_def)
    ultimately show ?thesis using write_video_ok(2) [OF v act(2)] by simp
  qed
  ultimately show ?thesis using cont [OF content] place f2 by (intro exI [of _ ps] exI [of _ "vs @ qs"]) simp
qed



text \<open>A recorder behind its tables, with a disk that writes everything.\<close>

definition demo_mux :: "bytes list \<times> ts_state" where
  "demo_mux = ts_mux_write_pat_pmt (ts_mux_init 48000 2) 376"

definition demo_recorder :: ts_recorder where
  "demo_recorder = (star6e_ts_recorder_init 48000 2)\<lparr>tr_fd := 3, tr_path := ''/mnt/a.ts'', tr_mux := snd demo_mux,
     tr_segments := 1, tr_space_check_countdown := 300, tr_segment_bytes := word_of_nat (length (concat (fst demo_mux)))\<rparr>"

definition demo_recording :: disk where
  "demo_recording = demo_disk\<lparr>dk_files := [''/mnt/a.ts'' \<mapsto> concat (fst demo_mux)], dk_fds := [3 \<mapsto> ''/mnt/a.ts''], dk_writes := []\<rparr>"

lemma demo_inv: "rec_inv demo_recorder demo_recording"
proof -
  let ?m = "ts_mux_init 48000 2"
  have start: "segment_start ?m" by (simp add: segment_start_def ts_mux_init_def)
  have run: "segment_run ?m [] = (fst demo_mux, snd demo_mux)" by (simp add: segment_run_nil demo_mux_def)
  have "good_file (concat (fst demo_mux))" unfolding good_file_def using start run by (metis fst_conv prefix_order.refl)
  moreover have "writing demo_recorder demo_recording"
    unfolding writing_def using start run
    by (intro exI [of _ ?m] exI [of _ "[]"] exI [of _ "fst demo_mux"]) (simp add: demo_recorder_def demo_recording_def)
  ultimately show ?thesis
    by (auto simp: rec_inv_def disk_ok_def demo_recorder_def demo_recording_def demo_disk_def)
qed

lemma demo_accepts:
  "fst (star6e_ts_recorder_write_video [0, 0, 0, 1, 2] 900 False demo_recorder audio_ring_init demo_recording) > 0"
proof -
  let ?v = "[0, 0, 0, 1, 2] :: bytes"
  obtain vs mux1 where v: "ts_mux_write_video (snd demo_mux) TS_BUF_SIZE ?v 900 False = (vs, mux1)" by fastforce
  have "pes_parse (demux TS_PID_VIDEO vs) = Some (0xE0, take_bit 33 900, ?v)"
    using write_video_ok(2) [OF v] by (simp add: TS_BUF_SIZE_def TS_PACKET_SIZE_def)
  then have ne: "concat vs \<noteq> []"
    using write_video_ok(1) [OF v] by (cases vs) (auto simp: demux_def pes_parse_def ts_contract_def dest!: ts_counted_length)
  then obtain b buf where b: "concat vs = b # buf" by (cases "concat vs") auto
  show ?thesis
    using v
    by (simp add: star6e_ts_recorder_write_video_def check_disk_space_def check_rotation_def demo_recorder_def
        demo_recording_def star6e_ts_recorder_init_def flush_frame_def b write_all_def demo_disk_def Let_def)
qed

theorem recorded_frame_recoverable_witness:
  "\<exists>rc st' r' d'. star6e_ts_recorder_write_video [0, 0, 0, 1, 2] 900 False demo_recorder audio_ring_init demo_recording = (rc, st', r', d')
     \<and> rc > 0 \<and> (\<exists>ps qs. dk_files d' (tr_path st') = Some (concat (ps @ qs)) \<and> segment_ok (ps @ qs)
       \<and> pes_parse (demux TS_PID_VIDEO qs) = Some (0xE0, take_bit 33 900, [0, 0, 0, 1, 2]))"
proof -
  obtain rc st' r' d' where r: "star6e_ts_recorder_write_video [0, 0, 0, 1, 2] 900 False demo_recorder audio_ring_init demo_recording
      = (rc, st', r', d')" by (metis prod_cases4)
  have "rc > 0" using demo_accepts r by simp
  from recorded_frame_recoverable [OF demo_inv _ r this] r this show ?thesis by (auto simp: NAL_BUF_SIZE_def)
qed

subsection \<open>Audio at the end of the buffer\<close>

text \<open>The loop that drains the audio ring goes on while eight packets fit, but a full entry
  of the ring needs 21: a block of more than 1463 bytes that is popped with eight packets of room is
  taken from the ring and written truncated, so that a receiver does not get it back.\<close>

lemma audio_block_truncated:
  assumes "audio_ring_pop r = (Some ae, r1)" and "data = take (unat (ae_length ae)) (ae_pcm ae)" and "1463 < length data"
    and "drain_audio (8 * TS_PACKET_SIZE) mux r = (qs, mux', r')"
  shows "r' = r1 \<and> pes_parse (demux TS_PID_AUDIO qs) \<noteq> Some (sid, p, data)"
proof -
  obtain ps mux1 where w: "ts_mux_write_audio mux (8 * TS_PACKET_SIZE) data (audio_pts ae) = (ps, mux1)" by fastforce
  have len: "length ps \<le> 8" using write_audio_ok(1) [OF w] by (simp add: ts_contract_def TS_PACKET_SIZE_def)
  have "ps \<noteq> []"
    using w assms(3) by (auto simp: ts_mux_write_audio_def write_pes_packets_def TS_PACKET_SIZE_def split: if_splits prod.splits)
  then have "8 * TS_PACKET_SIZE - TS_PACKET_SIZE * length ps < 8 * TS_PACKET_SIZE" by (cases ps) (auto simp: TS_PACKET_SIZE_def)
  then have stop: "drain_audio (8 * TS_PACKET_SIZE - TS_PACKET_SIZE * length ps) mux1 r1 = ([], mux1, r1)"
    by (subst drain_audio.simps) simp
  have r: "qs = ps" "r' = r1"
    using assms(4) by (subst (asm) drain_audio.simps, simp add: assms(1) assms(2) [symmetric] w stop)+
  have "length q = 188" if "q \<in> set ps" for q
    using write_audio_ok(1) [OF w] that ts_counted_length [of "ts_pid q" _ "filter (\<lambda>p. ts_pid p = ts_pid q) ps" q]
    by (auto simp: ts_contract_def)
  then have "length (demux TS_PID_AUDIO ps) \<le> 184 * length ps"
    by (induction ps) (fastforce simp: demux_def ts_payload_def)+
  with len have "length (demux TS_PID_AUDIO ps) \<le> 1472" by linarith
  moreover have "length data + 9 \<le> length xs" if "pes_parse xs = Some (sid, p, data)" for xs
    using that assms(3) by (auto simp: pes_parse_def Let_def split: if_splits)
  ultimately show ?thesis using r assms(3) by force
qed

text \<open>A ring with one full block.\<close>

lemma audio_block_truncated_witness:
  "\<exists>qs mux' r'. drain_audio (8 * TS_PACKET_SIZE) (ts_mux_init 48000 2)
      (audio_ring_push (replicate 3840 7, 3840, 0) audio_ring_init) = (qs, mux', r')
    \<and> pes_parse (demux TS_PID_AUDIO qs) \<noteq> Some (0xBD, 0, replicate 3840 7)"
proof -
  let ?r = "audio_ring_push (replicate 3840 7, 3840, 0) audio_ring_init"
  obtain qs mux' r' where d: "drain_audio (8 * TS_PACKET_SIZE) (ts_mux_init 48000 2) ?r = (qs, mux', r')" by (metis prod_cases3)
  define ae where "ae = \<lparr>ae_pcm = replicate 3840 7, ae_length = 3840, ae_timestamp_us = 0\<rparr>"
  have fill: "fill_entry (replicate 3840 7, 3840, 0) e = ae" if "length (ae_pcm e) = 3840" for e
    using that by (simp add: fill_entry_def ae_def AUDIO_RING_PCM_MAX_def)
  obtain r1 where p: "audio_ring_pop ?r = (Some ae, r1)"
    by (simp add: audio_ring_pop_def audio_ring_push_def audio_ring_init_def AUDIO_RING_CAPACITY_def Let_def fill AUDIO_RING_PCM_MAX_def)
  have "replicate 3840 7 = take (unat (ae_length ae)) (ae_pcm ae)" by (simp add: ae_def)
  from audio_block_truncated [OF p this _ d] d show ?thesis by auto
qed

end
