(* ===== verification/SceneDetect.thy ===== *)
theory SceneDetect imports EncoderStream begin

text \<open>
  The scene detector of \<open>src/star6e_runtime.c\<close>: a state machine over the sizes and kinds of the
  encoded frames that asks for a key frame once after a burst of large frames has settled. A step
  gives the new detector and whether it asked. All arithmetic is that of \<open>uint32_t\<close>.
\<close>

subsection \<open>The code\<close>

definition ENC_FRAME_P :: u8 where "ENC_FRAME_P = 0"
definition ENC_FRAME_IDR :: u8 where "ENC_FRAME_IDR = 2"
definition SCENE_EMA_SHIFT :: nat where "SCENE_EMA_SHIFT = 4"
definition SCENE_WARMUP_FRAMES :: u32 where "SCENE_WARMUP_FRAMES = 8"
definition SCENE_COOLDOWN_AFTER_IDR :: u16 where "SCENE_COOLDOWN_AFTER_IDR = 30"

record scene_detector =
  sd_ema_size_fp8 :: u32
  sd_frame_count :: u32
  sd_last_frame_size :: u32
  sd_last_frame_type :: u8
  sd_cooldown :: u16
  sd_settle_count :: u16
  sd_spike_pending :: bool
  sd_idr_inserted :: bool
  sd_complexity :: u8
  sd_scene_change :: bool
  sd_frames_since_idr :: u16
  sd_threshold :: u16
  sd_holdoff :: u8
  sd_consecutive_spikes :: u8
  sd_idr_enabled :: bool
  sd_warmup_done :: bool

definition scene_frame_size :: "venc_stream \<Rightarrow> u32" where
  "scene_frame_size s = fold (\<lambda>p t. t + of_nat (pk_length p)) s 0"

definition pack_is_idr :: "bool \<Rightarrow> venc_pack \<Rightarrow> bool" where
  "pack_is_idr h264 p = (let key = (if h264 then 5 else 19); n = info_count p in
     if n > 0 then list_ex (\<lambda>i. pi_nal_type i = key) (take n (pk_info p)) else pk_nal_type p = key)"

definition scene_frame_type :: "venc_stream \<Rightarrow> bool \<Rightarrow> u8" where
  "scene_frame_type s h264 = (if list_ex (pack_is_idr h264) s then ENC_FRAME_IDR else ENC_FRAME_P)"

definition scene_init :: "u16 \<Rightarrow> u8 \<Rightarrow> scene_detector" where
  "scene_init threshold holdoff =
     \<lparr>sd_ema_size_fp8 = 0, sd_frame_count = 0, sd_last_frame_size = 0, sd_last_frame_type = 0, sd_cooldown = 0,
      sd_settle_count = 0, sd_spike_pending = False, sd_idr_inserted = False, sd_complexity = 0, sd_scene_change = False,
      sd_frames_since_idr = 0, sd_threshold = (if threshold > 0 then threshold else 150),
      sd_holdoff = (if holdoff > 0 then holdoff else 2), sd_consecutive_spikes = 0, sd_idr_enabled = (threshold > 0),
      sd_warmup_done = False\<rparr>"

text \<open>The running mean moves a sixteenth of the way to the new size.\<close>

definition ema_step :: "u32 \<Rightarrow> u32 \<Rightarrow> u32" where
  "ema_step ema x = (if x > ema then ema + drop_bit SCENE_EMA_SHIFT (x - ema) else ema - drop_bit SCENE_EMA_SHIFT (ema - x))"

definition size_ratio :: "u32 \<Rightarrow> u32 \<Rightarrow> u32" where
  "size_ratio sz ema_fp8 = (let ema = drop_bit 8 ema_fp8 in if ema > 0 then (sz * 100) div ema else 100)"

definition complexity_of :: "u32 \<Rightarrow> u8" where
  "complexity_of ratio = ucast (if ratio \<le> 50 then (ratio * 128) div 100
     else if ratio \<ge> 300 then 255 else 64 + ((ratio - 50) * 191) div 250)"

text \<open>The part that decides on a key frame, after the warm-up and when it is enabled.\<close>

definition scene_decide :: "u32 \<Rightarrow> scene_detector \<Rightarrow> scene_detector \<times> bool" where
  "scene_decide ratio sd =
     (if sd_cooldown sd > 0 then (sd\<lparr>sd_cooldown := sd_cooldown sd - 1\<rparr>, False)
      else if sd_spike_pending sd then
        if ratio \<le> 120 then
          (sd\<lparr>sd_spike_pending := False, sd_settle_count := 0, sd_scene_change := True, sd_idr_inserted := True\<rparr>, True)
        else let n = sd_settle_count sd + 1 in
          if n > 30 then (sd\<lparr>sd_spike_pending := False, sd_settle_count := 0\<rparr>, False)
          else (sd\<lparr>sd_settle_count := n\<rparr>, False)
      else if ratio \<ge> ucast (sd_threshold sd) then
        let n = sd_consecutive_spikes sd + 1 in
        (sd\<lparr>sd_consecutive_spikes := n, sd_spike_pending := (n \<ge> sd_holdoff sd)\<rparr>, False)
      else (sd\<lparr>sd_consecutive_spikes := 0\<rparr>, False))"

text \<open>What a frame changes before the mean is looked at.\<close>

definition scene_note :: "u32 \<Rightarrow> u8 \<Rightarrow> scene_detector \<Rightarrow> scene_detector" where
  "scene_note sz ftype sd =
     (let sd1 = sd\<lparr>sd_last_frame_size := sz, sd_last_frame_type := ftype,
                   sd_frame_count := (if sd_frame_count sd < 0xFFFFFFFF then sd_frame_count sd + 1 else sd_frame_count sd),
                   sd_idr_inserted := False, sd_scene_change := False\<rparr>
      in if ftype = ENC_FRAME_IDR
         then sd1\<lparr>sd_frames_since_idr := 0, sd_spike_pending := False, sd_settle_count := 0,
                  sd_consecutive_spikes := 0, sd_cooldown := SCENE_COOLDOWN_AFTER_IDR\<rparr>
         else sd1\<lparr>sd_frames_since_idr := (if sd_frames_since_idr sd1 < 0xFFFF then sd_frames_since_idr sd1 + 1
                                          else sd_frames_since_idr sd1)\<rparr>)"

definition clamp_size :: "u32 \<Rightarrow> u32" where
  "clamp_size sz = (if sz > 0xFFFFFFFF div 1000 then 0xFFFFFFFF div 1000 else sz)"

definition scene_frame :: "u32 \<Rightarrow> u8 \<Rightarrow> scene_detector \<Rightarrow> scene_detector \<times> bool" where
  "scene_frame sz0 ftype sd =
     (let sz = clamp_size sz0; size_fp8 = push_bit 8 sz; sd2 = scene_note sz ftype sd
      in if sd_frame_count sd2 = 1 then (sd2\<lparr>sd_ema_size_fp8 := size_fp8\<rparr>, False)
      else
        let ema = ema_step (sd_ema_size_fp8 sd2) size_fp8;
            ratio = size_ratio sz ema;
            sd3 = sd2\<lparr>sd_ema_size_fp8 := ema, sd_complexity := complexity_of ratio\<rparr>
        in if \<not> sd_warmup_done sd3 then
             (if sd_frame_count sd3 > SCENE_WARMUP_FRAMES then (sd3\<lparr>sd_warmup_done := True\<rparr>, False) else (sd3, False))
           else if \<not> sd_idr_enabled sd3 then (sd3, False)
           else scene_decide ratio sd3)"

definition scene_update :: "venc_stream \<Rightarrow> bool \<Rightarrow> scene_detector \<Rightarrow> scene_detector \<times> bool" where
  "scene_update stream h264 sd = scene_frame (scene_frame_size stream) (scene_frame_type stream h264) sd"

subsection \<open>Runs\<close>

text \<open>The frames of a session, oldest first, each a size and a kind; what was asked for at each.\<close>

fun scene_run :: "scene_detector \<Rightarrow> (u32 \<times> u8) list \<Rightarrow> bool list" where
  "scene_run sd [] = []"
| "scene_run sd ((n, t) # fs) = (case scene_frame n t sd of (sd', asked) \<Rightarrow> asked # scene_run sd' fs)"


subsection \<open>When a key frame can be asked for\<close>

text \<open>How many frames must still pass before the detector can ask.\<close>

definition frames_to_ask :: "scene_detector \<Rightarrow> nat" where
  "frames_to_ask sd = (if sd_warmup_done sd then 0 else 9 - unat (sd_frame_count sd)) + unat (sd_cooldown sd)
     + (if sd_spike_pending sd then 0 else max 1 (unat (sd_holdoff sd) - unat (sd_consecutive_spikes sd)))"

definition scene_ok :: "scene_detector \<Rightarrow> bool" where
  "scene_ok sd \<longleftrightarrow> sd_holdoff sd > 0 \<and> sd_cooldown sd \<le> 30 \<and> (\<not> sd_warmup_done sd \<longrightarrow> sd_frame_count sd \<le> 8)"

lemma spike_count_step:
  fixes c h :: u8
  shows "max 1 (unat h - unat c) \<le> (if h \<le> c + 1 then 0 else max 1 (unat h - unat (c + 1))) + 1"
proof (cases "unat c = 255")
  case False
  moreover have "unat c < 256" using unsigned_less [of c, where ?'a = nat] by simp
  ultimately have "unat (c + 1) = unat c + 1" by (simp add: unat_word_ariths)
  then show ?thesis by (auto simp: word_le_nat_alt)
next
  case True
  then show ?thesis using unsigned_less [of h, where ?'a = nat] by simp
qed

lemma cooldown_step: "x > 0 \<Longrightarrow> unat (x - 1 :: u16) + 1 = unat x"
proof -
  assume "x > 0"
  then have "0 < unat x" by (simp add: word_less_nat_alt)
  moreover have "unat (x - 1) = unat x - 1" using \<open>x > 0\<close> by (intro unat_minus_one) auto
  ultimately show ?thesis by simp
qed

lemma decide_frames_to_ask:
  assumes "scene_decide ratio sd = (sd', asked)" and "sd_warmup_done sd"
  shows "frames_to_ask sd \<le> frames_to_ask sd' + 1" and "asked \<Longrightarrow> frames_to_ask sd = 0"
    and "sd_holdoff sd' = sd_holdoff sd" and "sd_idr_enabled sd' = sd_idr_enabled sd" and "sd_warmup_done sd'"
    and "sd_frame_count sd' = sd_frame_count sd"
proof -
  show "frames_to_ask sd \<le> frames_to_ask sd' + 1"
    using assms cooldown_step [of "sd_cooldown sd"] spike_count_step [of "sd_holdoff sd" "sd_consecutive_spikes sd"]
    by (auto simp: scene_decide_def frames_to_ask_def Let_def split: if_splits)
qed (use assms in \<open>auto simp: scene_decide_def frames_to_ask_def Let_def word_gt_0 split: if_splits\<close>)

lemma decide_cooldown:
  "scene_decide ratio sd = (sd', asked) \<Longrightarrow> sd_cooldown sd \<le> 30 \<Longrightarrow> sd_cooldown sd' \<le> 30"
proof -
  assume d: "scene_decide ratio sd = (sd', asked)" and c: "sd_cooldown sd \<le> 30"
  have "sd_cooldown sd > 0 \<Longrightarrow> sd_cooldown sd - 1 \<le> 30"
    using c cooldown_step [of "sd_cooldown sd"] by (simp add: word_le_nat_alt)
  with d c show "sd_cooldown sd' \<le> 30" by (auto simp: scene_decide_def Let_def split: if_splits)
qed

lemma note_frames_to_ask:
  assumes "scene_ok sd" and "sd2 = scene_note sz t sd"
  shows "frames_to_ask sd \<le> frames_to_ask sd2 + (if sd_warmup_done sd then 0 else 1)"
    and "t = ENC_FRAME_IDR \<Longrightarrow> 30 + unat (sd_holdoff sd) \<le> frames_to_ask sd2"
    and "sd_holdoff sd2 = sd_holdoff sd" "sd_idr_enabled sd2 = sd_idr_enabled sd" "sd_warmup_done sd2 = sd_warmup_done sd"
    and "sd_cooldown sd2 \<le> 30" and "\<not> sd_warmup_done sd \<Longrightarrow> sd_frame_count sd2 = sd_frame_count sd + 1 \<and> unat (sd_frame_count sd2) = unat (sd_frame_count sd) + 1"
proof -
  have c: "\<not> sd_warmup_done sd \<Longrightarrow> unat (sd_frame_count sd) \<le> 8" using assms(1) by (simp add: scene_ok_def word_le_nat_alt)
  show n: "\<not> sd_warmup_done sd \<Longrightarrow> sd_frame_count sd2 = sd_frame_count sd + 1 \<and> unat (sd_frame_count sd2) = unat (sd_frame_count sd) + 1"
  proof -
    assume w: "\<not> sd_warmup_done sd"
    from c [OF w] have "sd_frame_count sd < 0xFFFFFFFF" by (simp add: word_less_nat_alt)
    then show ?thesis using c [OF w] by (simp add: assms(2) scene_note_def Let_def unat_word_ariths)
  qed
  have cd: "unat (sd_cooldown sd) \<le> 30" using assms(1) by (simp add: scene_ok_def word_le_nat_alt)
  show "frames_to_ask sd \<le> frames_to_ask sd2 + (if sd_warmup_done sd then 0 else 1)"
    using n cd by (auto simp: assms(2) frames_to_ask_def scene_note_def Let_def SCENE_COOLDOWN_AFTER_IDR_def)
  show "t = ENC_FRAME_IDR \<Longrightarrow> 30 + unat (sd_holdoff sd) \<le> frames_to_ask sd2"
    by (simp add: assms(2) frames_to_ask_def scene_note_def Let_def SCENE_COOLDOWN_AFTER_IDR_def)
qed (use assms in \<open>auto simp: scene_note_def Let_def scene_ok_def SCENE_COOLDOWN_AFTER_IDR_def\<close>)

text \<open>One frame: an ordinary one brings asking at most one frame nearer, an IDR frame puts it off.\<close>

lemma scene_frame_to_ask:
  assumes "scene_frame sz t sd = (sd', asked)" and "scene_ok sd"
  shows "frames_to_ask sd \<le> frames_to_ask sd' + 1 \<and> (asked \<longrightarrow> sd_idr_enabled sd \<and> frames_to_ask sd = 0 \<and> t \<noteq> ENC_FRAME_IDR)
    \<and> (t = ENC_FRAME_IDR \<longrightarrow> 29 + unat (sd_holdoff sd) \<le> frames_to_ask sd')
    \<and> sd_holdoff sd' = sd_holdoff sd \<and> sd_idr_enabled sd' = sd_idr_enabled sd \<and> scene_ok sd'"
proof -
  define sd2 where "sd2 = scene_note (clamp_size sz) t sd"
  note n = note_frames_to_ask [OF assms(2) sd2_def]
  have h: "sd_holdoff sd > 0" using assms(2) by (simp add: scene_ok_def)
  define e where "e = ema_step (sd_ema_size_fp8 sd2) (push_bit 8 (clamp_size sz))"
  define sd3 where "sd3 = sd2\<lparr>sd_ema_size_fp8 := e, sd_complexity := complexity_of (size_ratio (clamp_size sz) e)\<rparr>"
  have f3: "frames_to_ask sd3 = frames_to_ask sd2" "sd_holdoff sd3 = sd_holdoff sd" "sd_idr_enabled sd3 = sd_idr_enabled sd"
    "sd_warmup_done sd3 = sd_warmup_done sd" "sd_cooldown sd3 \<le> 30" "sd_frame_count sd3 = sd_frame_count sd2"
    using n by (auto simp: sd3_def frames_to_ask_def)
  have unfolded: "scene_frame sz t sd = (if sd_frame_count sd2 = 1 then (sd2\<lparr>sd_ema_size_fp8 := push_bit 8 (clamp_size sz)\<rparr>, False)
      else if \<not> sd_warmup_done sd then (if sd_frame_count sd2 > 8 then (sd3\<lparr>sd_warmup_done := True\<rparr>, False) else (sd3, False))
      else if \<not> sd_idr_enabled sd then (sd3, False) else scene_decide (size_ratio (clamp_size sz) e) sd3)"
    by (simp only: scene_frame_def Let_def SCENE_WARMUP_FRAMES_def sd2_def [symmetric] e_def [symmetric] sd3_def [symmetric] f3(3,4,6))
  let ?rest = "\<lambda>sd'. sd_holdoff sd' = sd_holdoff sd \<and> sd_idr_enabled sd' = sd_idr_enabled sd \<and> scene_ok sd' \<and> frames_to_ask sd2 \<le> frames_to_ask sd'"
  have quiet: ?thesis if "asked = False" and r: "?rest sd'"
  proof -
    have "frames_to_ask sd \<le> frames_to_ask sd2 + 1" using n(1) by (auto split: if_splits)
    with that n(2) show ?thesis by auto
  qed
  show ?thesis
  proof (cases "sd_frame_count sd2 = 1")
    case True
    with assms(1) unfolded have e: "asked = False" "sd' = sd2\<lparr>sd_ema_size_fp8 := push_bit 8 (clamp_size sz)\<rparr>" by simp_all
    have "?rest sd'" using n(3-6) h True unfolding e(2) scene_ok_def frames_to_ask_def by simp
    with e(1) show ?thesis by (rule quiet)
  next
    case first: False
    show ?thesis
    proof (cases "sd_warmup_done sd")
      case False
      have "8 < sd_frame_count sd2 \<Longrightarrow> 9 - unat (sd_frame_count sd2) = 0" by (simp add: word_less_nat_alt)
      moreover have e: "asked = False" "sd' = (if 8 < sd_frame_count sd2 then sd3\<lparr>sd_warmup_done := True\<rparr> else sd3)"
        using assms(1) unfolded False first by (simp_all split: if_splits)
      ultimately have "frames_to_ask sd' = frames_to_ask sd3" using f3(4,6) False by (auto simp: frames_to_ask_def)
      then have "?rest sd'" using f3 h False unfolding e(2) scene_ok_def by (simp add: not_less)
      with e(1) show ?thesis by (rule quiet)
    next
      case warm: True
      show ?thesis
      proof (cases "sd_idr_enabled sd")
        case False
        with warm first assms(1) unfolded have e: "asked = False" "sd' = sd3" by simp_all
        have "?rest sd'" using f3 h warm unfolding e(2) scene_ok_def by simp
        with e(1) show ?thesis by (rule quiet)
      next
        case True
        with warm first assms(1) unfolded have d: "scene_decide (size_ratio (clamp_size sz) e) sd3 = (sd', asked)" by simp
        note dn = decide_frames_to_ask [OF d] decide_cooldown [OF d f3(5)]
        have w: "sd_warmup_done sd3" using f3(4) warm by simp
        have "asked \<Longrightarrow> frames_to_ask sd2 = 0" using dn(2) w f3(1) by simp
        then have "t = ENC_FRAME_IDR \<Longrightarrow> \<not> asked" using n(2) h by (auto simp: word_less_nat_alt)
        moreover have "scene_ok sd'" using dn w f3(2) h by (simp add: scene_ok_def)
        ultimately show ?thesis using dn(1-4) w f3(1-3) n(1,2) warm True \<open>asked \<Longrightarrow> frames_to_ask sd2 = 0\<close> by auto
      qed
    qed
  qed
qed

lemma scene_init_ok: "scene_ok (scene_init th ho)"
  by (auto simp: scene_ok_def scene_init_def word_gt_0)

lemma scene_run_asks:
  assumes "scene_ok sd" and "i < length fs" and "scene_run sd fs ! i"
  shows "sd_idr_enabled sd \<and> frames_to_ask sd \<le> i
    \<and> (\<forall>j\<le>i. snd (fs ! j) = ENC_FRAME_IDR \<longrightarrow> j + 30 + unat (sd_holdoff sd) \<le> i)"
  using assms
proof (induction fs arbitrary: sd i)
  case (Cons f fs)
  obtain n t where f: "f = (n, t)" by (cases f)
  obtain sd' asked where s: "scene_frame n t sd = (sd', asked)" by fastforce
  note step = scene_frame_to_ask [OF s Cons.prems(1)]
  show ?case
  proof (cases i)
    case 0
    with Cons.prems(3) f s step show ?thesis by auto
  next
    case (Suc k)
    with Cons.prems f s have "k < length fs" "scene_run sd' fs ! k" by auto
    from Cons.IH [OF _ this] step have
      ih: "sd_idr_enabled sd'" "frames_to_ask sd' \<le> k"
        "\<forall>j\<le>k. snd (fs ! j) = ENC_FRAME_IDR \<longrightarrow> j + 30 + unat (sd_holdoff sd') \<le> k" by auto
    have "j + 30 + unat (sd_holdoff sd) \<le> i" if "j \<le> i" "snd ((f # fs) ! j) = ENC_FRAME_IDR" for j
    proof (cases j)
      case 0
      with that f step ih(2) Suc show ?thesis by auto
    next
      case (Suc j')
      with that \<open>i = Suc k\<close> ih(3) step show ?thesis by auto
    qed
    with ih(1,2) step Suc show ?thesis by auto
  qed
qed simp

subsection \<open>The frames behind a request\<close>

fun scene_state :: "scene_detector \<Rightarrow> (u32 \<times> u8) list \<Rightarrow> scene_detector" where
  "scene_state sd [] = sd"
| "scene_state sd ((n, t) # fs) = scene_state (fst (scene_frame n t sd)) fs"

lemma scene_state_append: "scene_state sd (a @ b) = scene_state (scene_state sd a) b"
  by (induction sd a rule: scene_state.induct) simp_all

lemma scene_run_nth:
  "i < length fs \<Longrightarrow> scene_run sd fs ! i = snd (scene_frame (fst (fs ! i)) (snd (fs ! i)) (scene_state sd (take i fs)))"
proof (induction sd fs arbitrary: i rule: scene_run.induct)
  case (2 sd n t fs)
  then show ?case by (cases i) (auto split: prod.splits)
qed simp

text \<open>A frame is large when it reaches the threshold against the running mean as it is after it.\<close>

definition large_at :: "scene_detector \<Rightarrow> (u32 \<times> u8) list \<Rightarrow> nat \<Rightarrow> bool" where
  "large_at sd frames j \<longleftrightarrow> ucast (sd_threshold sd)
     \<le> size_ratio (clamp_size (fst (frames ! j))) (sd_ema_size_fp8 (scene_state sd (take (Suc j) frames)))"

text \<open>Not counting: no spike is being waited for and none has been seen.\<close>

definition not_counting :: "scene_detector \<Rightarrow> bool" where
  "not_counting sd \<longleftrightarrow> sd_cooldown sd > 0 \<or> \<not> sd_warmup_done sd \<or> \<not> sd_idr_enabled sd \<or> sd_frame_count sd = 0"

lemma first_frame: "(if c < 0xFFFFFFFF then c + 1 else c) = 1 \<longleftrightarrow> c = (0 :: u32)"
  by auto

lemma count_up: "c < 0xFFFFFFFF \<Longrightarrow> c + 1 \<noteq> (0 :: u32)"
  by (metis add_eq_0_iff2 max_word_max mask_eq_exp_minus_1 not_le word_order.extremum)

text \<open>What one frame does to the spikes.\<close>

lemma frame_spikes:
  assumes "scene_frame n t sd = (sd', asked)"
  shows "t = ENC_FRAME_IDR \<Longrightarrow> \<not> asked \<and> \<not> sd_spike_pending sd' \<and> sd_consecutive_spikes sd' = 0"
    and "asked \<Longrightarrow> sd_spike_pending sd"
    and "t \<noteq> ENC_FRAME_IDR \<Longrightarrow> \<not> sd_spike_pending sd \<Longrightarrow> not_counting sd \<Longrightarrow>
      \<not> sd_spike_pending sd' \<and> sd_consecutive_spikes sd' = sd_consecutive_spikes sd"
    and "t \<noteq> ENC_FRAME_IDR \<Longrightarrow> \<not> sd_spike_pending sd \<Longrightarrow> \<not> not_counting sd \<Longrightarrow> \<not> not_counting sd'"
    and "t \<noteq> ENC_FRAME_IDR \<Longrightarrow> \<not> sd_spike_pending sd \<Longrightarrow> \<not> not_counting sd \<Longrightarrow>
      (if ucast (sd_threshold sd) \<le> size_ratio (clamp_size n) (sd_ema_size_fp8 sd')
       then sd_consecutive_spikes sd' = sd_consecutive_spikes sd + 1
         \<and> sd_spike_pending sd' = (sd_consecutive_spikes sd + 1 \<ge> sd_holdoff sd)
       else sd_consecutive_spikes sd' = 0 \<and> \<not> sd_spike_pending sd')"
    and "sd_threshold sd' = sd_threshold sd" "sd_holdoff sd' = sd_holdoff sd"
  using assms
  by (auto simp: scene_frame_def scene_note_def scene_decide_def not_counting_def Let_def first_frame ENC_FRAME_IDR_def
      SCENE_COOLDOWN_AFTER_IDR_def split: if_splits dest: count_up)

text \<open>A hold-off's worth of large frames in a row, and no IDR frame since.\<close>

definition burst :: "nat \<Rightarrow> (nat \<Rightarrow> bool) \<Rightarrow> (nat \<Rightarrow> bool) \<Rightarrow> nat \<Rightarrow> bool" where
  "burst h large idr i \<longleftrightarrow> (\<exists>k. k + h \<le> i \<and> (\<forall>j. k \<le> j \<and> j < k + h \<longrightarrow> large j) \<and> (\<forall>j. k \<le> j \<and> j < i \<longrightarrow> \<not> idr j))"

lemma burst_later: "burst h large idr i \<Longrightarrow> \<not> idr i \<Longrightarrow> burst h large idr (Suc i)"
  unfolding burst_def by (metis le_SucI less_Suc_eq)

definition spikes_counted :: "nat \<Rightarrow> (nat \<Rightarrow> bool) \<Rightarrow> (nat \<Rightarrow> bool) \<Rightarrow> nat \<Rightarrow> scene_detector \<Rightarrow> bool" where
  "spikes_counted h large idr i sd \<longleftrightarrow> burst h large idr i
     \<or> (let c = unat (sd_consecutive_spikes sd) in \<not> sd_spike_pending sd \<and> c < h \<and> c \<le> i \<and> (not_counting sd \<longrightarrow> c = 0)
        \<and> (\<forall>j. i - c \<le> j \<and> j < i \<longrightarrow> large j \<and> \<not> idr j))"

lemma spikes_step:
  assumes s: "scene_frame n t sd = (sd', asked)" and k: "spikes_counted h large idr i sd"
    and h: "h = unat (sd_holdoff sd)" "0 < h" and idr: "idr i \<longleftrightarrow> t = ENC_FRAME_IDR"
    and large: "large i \<longleftrightarrow> ucast (sd_threshold sd) \<le> size_ratio (clamp_size n) (sd_ema_size_fp8 sd')"
  shows "spikes_counted h large idr (Suc i) sd'"
proof (cases "t = ENC_FRAME_IDR")
  case True
  then show ?thesis using frame_spikes(1) [OF s] h(2) by (auto simp: spikes_counted_def)
next
  case t: False
  note f = frame_spikes [OF s]
  show ?thesis
  proof (cases "burst h large idr i")
    case True
    then show ?thesis using burst_later t idr by (simp add: spikes_counted_def)
  next
    case nb: False
    define c where "c = unat (sd_consecutive_spikes sd)"
    have c: "\<not> sd_spike_pending sd" "c < h" "c \<le> i" "not_counting sd \<longrightarrow> c = 0" "\<forall>j. i - c \<le> j \<and> j < i \<longrightarrow> large j \<and> \<not> idr j"
      using k nb by (simp_all add: spikes_counted_def c_def Let_def)
    show ?thesis
    proof (cases "not_counting sd")
      case True
      then show ?thesis using f(3) [OF t c(1) True] c h(2) by (simp add: spikes_counted_def c_def [symmetric] Let_def)
    next
      case nc: False
      have h8: "h < 256" using h(1) unsigned_less [of "sd_holdoff sd", where ?'a = nat] by simp
      show ?thesis
      proof (cases "large i")
        case True
        have c1: "unat (sd_consecutive_spikes sd + 1) = c + 1" using c(2) h8 by (simp add: unat_word_ariths c_def)
        have n: "sd_consecutive_spikes sd' = sd_consecutive_spikes sd + 1" "sd_spike_pending sd' \<longleftrightarrow> h \<le> c + 1"
          using f(5) [OF t c(1) nc] True large h(1) c1 by (simp_all add: word_le_nat_alt)
        have run: "\<forall>j. i - c \<le> j \<and> j < Suc i \<longrightarrow> large j \<and> \<not> idr j" using c(5) True idr t by (auto simp: less_Suc_eq)
        show ?thesis
        proof (cases "h \<le> c + 1")
          case True
          then have e: "c + 1 = h" using c(2) by simp
          have "burst h large idr (Suc i)" unfolding burst_def
            by (rule exI [of _ "i - c"]) (use run c(3) e in auto)
          then show ?thesis by (simp add: spikes_counted_def)
        next
          case False
          then show ?thesis using n c1 run c(3) f(4) [OF t c(1) nc] by (simp add: spikes_counted_def Let_def)
        qed
      next
        case False
        then show ?thesis using f(5) [OF t c(1) nc] large h(2) by (auto simp: spikes_counted_def)
      qed
    qed
  qed
qed

lemma state_spikes:
  assumes "sd0 = scene_init threshold holdoff" and "h = unat (sd_holdoff sd0)" and "0 < h" and "i \<le> length frames"
  defines "large \<equiv> large_at sd0 frames" and "idr \<equiv> \<lambda>j. snd (frames ! j) = ENC_FRAME_IDR"
  shows "spikes_counted h large idr i (scene_state sd0 (take i frames))
    \<and> sd_threshold (scene_state sd0 (take i frames)) = sd_threshold sd0 \<and> sd_holdoff (scene_state sd0 (take i frames)) = sd_holdoff sd0"
  using assms(4)
proof (induction i)
  case 0
  then show ?case using assms(1,3) by (simp add: spikes_counted_def scene_init_def Let_def)
next
  case (Suc i)
  define sd where "sd = scene_state sd0 (take i frames)"
  obtain n t where f: "frames ! i = (n, t)" by (cases "frames ! i")
  obtain sd' asked where s: "scene_frame n t sd = (sd', asked)" by fastforce
  have next_state: "scene_state sd0 (take (Suc i) frames) = sd'"
    using Suc.prems f s by (simp add: take_Suc_conv_app_nth scene_state_append sd_def)
  have ih: "spikes_counted h large idr i sd" "sd_threshold sd = sd_threshold sd0" "sd_holdoff sd = sd_holdoff sd0"
    using Suc by (simp_all add: sd_def)
  have "large i \<longleftrightarrow> ucast (sd_threshold sd) \<le> size_ratio (clamp_size n) (sd_ema_size_fp8 sd')"
    by (simp add: large_def large_at_def next_state ih(2) f)
  from spikes_step [OF s ih(1) _ assms(3) _ this] frame_spikes(6,7) [OF s] ih assms(2) show ?case
    unfolding next_state by (simp add: idr_def f)
qed

text \<open>Property C29. The detector asks for a key frame only when it is enabled and only after a burst: since the last
  IDR frame at least \<open>h\<close> frames in a row (the hold-off; a calm frame starts the count anew) were large against the
  running mean. With the warm-up the first request is at frame \<open>9 + h\<close> or later, and one after an IDR frame \<open>30 + h\<close>
  frames or more behind it. (One burst can lead to more than one request when no IDR frame comes: the count outlives
  the wait, shown below.)\<close>

theorem scene_requests_spaced:
  assumes "i < length frames" and "scene_run (scene_init threshold holdoff) frames ! i"
    and "h = (if holdoff = 0 then 2 else unat holdoff)"
  shows "threshold > 0 \<and> 9 + h \<le> i \<and> (\<forall>j\<le>i. snd (frames ! j) = ENC_FRAME_IDR \<longrightarrow> j + 30 + h \<le> i)
    \<and> (\<exists>k. k + h \<le> i \<and> (\<forall>j. k \<le> j \<and> j < k + h \<longrightarrow> large_at (scene_init threshold holdoff) frames j)
         \<and> (\<forall>j. k \<le> j \<and> j < i \<longrightarrow> snd (frames ! j) \<noteq> ENC_FRAME_IDR))"
proof -
  have h: "h = unat (sd_holdoff (scene_init threshold holdoff))" using assms(3) by (auto simp: scene_init_def word_gt_0)
  have "frames_to_ask (scene_init threshold holdoff) = 9 + max 1 (unat (sd_holdoff (scene_init threshold holdoff)))"
    by (simp add: frames_to_ask_def scene_init_def)
  moreover have h0: "0 < h" using assms(3) by (auto simp: unat_eq_0 intro!: gr0I split: if_splits)
  ultimately have "frames_to_ask (scene_init threshold holdoff) = 9 + h" using h by simp
  moreover have "sd_idr_enabled (scene_init threshold holdoff) \<longleftrightarrow> threshold > 0" by (simp add: scene_init_def)
  moreover have "burst h (large_at (scene_init threshold holdoff) frames) (\<lambda>j. snd (frames ! j) = ENC_FRAME_IDR) i"
  proof -
    obtain sd' asked where s: "scene_frame (fst (frames ! i)) (snd (frames ! i)) (scene_state (scene_init threshold holdoff) (take i frames))
        = (sd', asked)" by fastforce
    have "asked" using assms(2) scene_run_nth [OF assms(1)] s by simp
    from frame_spikes(2) [OF s this] state_spikes [OF refl h h0, of i frames] assms(1) show ?thesis
      by (simp add: spikes_counted_def Let_def)
  qed
  ultimately show ?thesis using scene_run_asks [OF scene_init_ok assms(1,2)] h unfolding burst_def by simp
qed

text \<open>A steady picture, one large frame, and back: the request follows it.\<close>

definition demo_frames :: "(u32 \<times> u8) list" where
  "demo_frames = replicate 9 (1000, ENC_FRAME_P) @ [(4000, ENC_FRAME_P), (1000, ENC_FRAME_P)]"

lemma demo_asks: "scene_run (scene_init 150 1) demo_frames = replicate 10 False @ [True]"
  by code_simp

theorem scene_requests_spaced_witness:
  "scene_run (scene_init 150 1) demo_frames ! 10 \<and> (150 :: u16) > 0 \<and> (\<exists>k. k + 1 \<le> 10 \<and> large_at (scene_init 150 1) demo_frames k)"
proof -
  have asked: "scene_run (scene_init 150 1) demo_frames ! 10" unfolding demo_asks by (simp add: nth_append)
  have "10 < length demo_frames" "1 = (if 1 = (0 :: u8) then 2 else unat (1 :: u8))" by (simp_all add: demo_frames_def)
  from scene_requests_spaced [OF this(1) asked this(2)] asked show ?thesis by (metis less_add_one order_refl)
qed

subsection \<open>The mean\<close>

lemma ema_step_between:
  assumes "lo \<le> unat ema" "unat ema \<le> hi" "lo \<le> unat x" "unat x \<le> hi"
  shows "lo \<le> unat (ema_step ema x) \<and> unat (ema_step ema x) \<le> hi"
proof -
  have q: "unat (drop_bit SCENE_EMA_SHIFT d) = unat d div 16" for d :: u32
    by (simp add: SCENE_EMA_SHIFT_def drop_bit_eq_div unat_div)
  show ?thesis
  proof (cases "x > ema")
    case True
    then have d: "unat (x - ema) = unat x - unat ema" by (intro unat_sub) simp
    have lt: "unat x < 2 ^ 32" using unsigned_less [of x, where ?'a = nat] by simp
    have le: "unat ema + (unat x - unat ema) div 16 \<le> unat x" using True by (simp add: word_less_nat_alt)
    with le have "unat (ema_step ema x) = unat ema + (unat x - unat ema) div 16"
      using True lt d q by (simp add: ema_step_def unat_word_ariths)
    moreover have "unat ema \<le> unat ema + (unat x - unat ema) div 16" by simp
    ultimately show ?thesis using le assms by linarith
  next
    case False
    then have d: "unat (ema - x) = unat ema - unat x" by (intro unat_sub) simp
    have "unat (ema_step ema x) = unat ema - (unat ema - unat x) div 16"
      using False d q by (simp add: ema_step_def unat_sub word_le_nat_alt)
    moreover have "unat x \<le> unat ema - (unat ema - unat x) div 16" using False by (simp add: not_less word_le_nat_alt)
    ultimately show ?thesis using assms by linarith
  qed
qed

lemma scene_decide_mean: "sd_ema_size_fp8 (fst (scene_decide r sd)) = sd_ema_size_fp8 sd"
  by (simp add: scene_decide_def Let_def)

lemma scene_note_mean: "sd_ema_size_fp8 (scene_note sz t sd) = sd_ema_size_fp8 sd"
  by (simp add: scene_note_def Let_def)

lemma scene_frame_mean:
  "sd_ema_size_fp8 (fst (scene_frame n t sd)) =
     (if sd_frame_count (scene_note (clamp_size n) t sd) = 1 then push_bit 8 (clamp_size n)
      else ema_step (sd_ema_size_fp8 sd) (push_bit 8 (clamp_size n)))"
  unfolding scene_frame_def Let_def
  by (simp add: scene_note_mean scene_decide_mean)

lemma clamp_unat: "unat (clamp_size n) = min (unat n) 4294967"
  by (simp add: clamp_size_def min_def word_less_nat_alt)

lemma clamp_fp8: "unat (push_bit 8 (clamp_size n)) = 256 * min (unat n) 4294967"
  by (simp add: push_bit_eq_mult unat_word_ariths clamp_unat)

lemma scene_state_mean:
  assumes "lo \<le> unat (sd_ema_size_fp8 sd)" "unat (sd_ema_size_fp8 sd) \<le> hi"
    and "\<forall>(n, t) \<in> set fs. lo \<le> 256 * min (unat n) 4294967 \<and> 256 * min (unat n) 4294967 \<le> hi"
  shows "lo \<le> unat (sd_ema_size_fp8 (scene_state sd fs)) \<and> unat (sd_ema_size_fp8 (scene_state sd fs)) \<le> hi"
  using assms
proof (induction sd fs rule: scene_state.induct)
  case (2 sd n t fs)
  let ?e = "sd_ema_size_fp8 (fst (scene_frame n t sd))"
  have x: "lo \<le> unat (push_bit 8 (clamp_size n))" "unat (push_bit 8 (clamp_size n)) \<le> hi"
    using "2.prems"(3) by (auto simp: clamp_fp8)
  have "lo \<le> unat ?e \<and> unat ?e \<le> hi"
    unfolding scene_frame_mean using ema_step_between [OF "2.prems"(1,2) x] x by presburger
  with 2 show ?case by simp
qed simp

text \<open>Property C30. The running mean of the frame sizes stays between the smallest and the largest frame
  seen (in 256ths of a byte, frames above 4 MB counted as that much): the unsigned updates of its
  32-bit word neither wrap nor overshoot.\<close>

theorem scene_mean_bounded:
  assumes "frames \<noteq> []" and "\<forall>(n, t) \<in> set frames. lo \<le> min (unat n) 4294967 \<and> min (unat n) 4294967 \<le> hi"
  shows "256 * lo \<le> unat (sd_ema_size_fp8 (scene_state (scene_init threshold holdoff) frames))
    \<and> unat (sd_ema_size_fp8 (scene_state (scene_init threshold holdoff) frames)) \<le> 256 * hi"
proof -
  obtain n t fs where f: "frames = (n, t) # fs" using assms(1) by (cases frames) auto
  let ?sd = "fst (scene_frame n t (scene_init threshold holdoff))"
  have "sd_frame_count (scene_note (clamp_size n) t (scene_init threshold holdoff)) = 1"
    by (simp add: scene_note_def scene_init_def Let_def)
  then have e: "unat (sd_ema_size_fp8 ?sd) = 256 * min (unat n) 4294967" by (simp add: scene_frame_mean clamp_fp8)
  have all: "\<forall>(m, u) \<in> set fs. 256 * lo \<le> 256 * min (unat m) 4294967 \<and> 256 * min (unat m) 4294967 \<le> 256 * hi"
    using assms(2) f by auto
  have "256 * lo \<le> unat (sd_ema_size_fp8 ?sd)" "unat (sd_ema_size_fp8 ?sd) \<le> 256 * hi"
    using assms(2) unfolding e f by auto
  from scene_state_mean [OF this all] show ?thesis by (simp add: f)
qed

theorem scene_mean_bounded_witness:
  "256 * 1000 \<le> unat (sd_ema_size_fp8 (scene_state (scene_init 150 1) demo_frames))
    \<and> unat (sd_ema_size_fp8 (scene_state (scene_init 150 1) demo_frames)) \<le> 256 * 4000"
  by (rule scene_mean_bounded) (auto simp: demo_frames_def)

subsection \<open>Waiting for the picture to settle\<close>

text \<open>Once the cool-down is over a pending spike is answered or dropped within 31 frames.\<close>

fun decide_run :: "scene_detector \<Rightarrow> u32 list \<Rightarrow> scene_detector \<times> bool" where
  "decide_run sd [] = (sd, False)"
| "decide_run sd (r # rs) = (case scene_decide r sd of (sd', asked) \<Rightarrow>
     if asked \<or> \<not> sd_spike_pending sd' then (sd', asked) else decide_run sd' rs)"

lemma pending_ends:
  assumes "sd_cooldown sd = 0" "sd_spike_pending sd" "sd_settle_count sd \<le> 30"
    and "length rs + unat (sd_settle_count sd) \<ge> 31"
  shows "\<not> sd_spike_pending (fst (decide_run sd rs))"
  using assms
proof (induction rs arbitrary: sd)
  case Nil
  then show ?case by (simp add: word_le_nat_alt)
next
  case (Cons r rs)
  have u: "unat (sd_settle_count sd + 1) = unat (sd_settle_count sd) + 1"
    using Cons.prems(3) by (simp add: word_le_nat_alt unat_word_ariths)
  show ?case
  proof (cases "120 < r \<and> \<not> 30 < sd_settle_count sd + 1")
    case True
    with Cons.IH [of "sd\<lparr>sd_settle_count := sd_settle_count sd + 1\<rparr>"] Cons.prems u show ?thesis
      by (simp add: scene_decide_def not_less Let_def)
  next
    case False
    with Cons.prems show ?thesis by (auto simp: scene_decide_def not_less Let_def)
  qed
qed

text \<open>When it is dropped the count of large frames stays, so the next single large frame starts the wait
  again, whatever the hold-off.\<close>

lemma holdoff_skipped_after_timeout:
  assumes "sd_cooldown sd = 0" "sd_spike_pending sd" "sd_settle_count sd = 30" "120 < r"
    and "sd_holdoff sd \<le> sd_consecutive_spikes sd" "sd_consecutive_spikes sd < 255"
    and "ucast (sd_threshold sd) \<le> r'"
  defines "sd1 \<equiv> fst (scene_decide r sd)"
  shows "\<not> sd_spike_pending sd1 \<and> sd_spike_pending (fst (scene_decide r' sd1))"
proof -
  have "sd_consecutive_spikes sd \<le> sd_consecutive_spikes sd + 1"
    using assms(6) by (simp add: word_le_nat_alt word_less_nat_alt unat_word_ariths)
  with assms(5) have "sd_holdoff sd \<le> sd_consecutive_spikes sd + 1" by (rule order_trans)
  with assms(1-4,7) show ?thesis by (simp add: sd1_def scene_decide_def not_le Let_def)
qed

end
