(* ===== verification/G711.thy ===== *)
theory G711 imports Prelude begin

text \<open>
  The G.711 encoders of \<open>src/star6e_audio.c\<close>. C's \<open>int\<close> is \<open>int\<close>: all values stay below \<open>2 ^ 16\<close>.
  Against them stand the decoders of the standard, which a receiver runs.
\<close>

subsection \<open>The code\<close>

text \<open>The search for the segment: \<open>low\<close> is where the loop stops at the latest.\<close>

fun find_exponent :: "nat \<Rightarrow> int \<Rightarrow> int \<Rightarrow> nat \<Rightarrow> nat" where
  "find_exponent low pcm exp_mask exponent =
     (if pcm AND exp_mask = 0 \<and> exponent > low then find_exponent low pcm (drop_bit 1 exp_mask) (exponent - 1)
      else exponent)"

declare find_exponent.simps [simp del]

definition pcm16_to_alaw :: "int \<Rightarrow> u8" where
  "pcm16_to_alaw pcm_in =
     (let pcm0 = (if pcm_in < 0 then - pcm_in - 1 else pcm_in);
          sign = (if pcm_in < 0 then 0x80 else 0);
          pcm = (if pcm0 > 32635 then 32635 else pcm0);
          exponent = (if pcm \<ge> 256 then find_exponent 1 pcm 0x4000 7 else 0);
          mantissa = (if pcm \<ge> 256 then drop_bit (exponent + 3) pcm AND 0x0F else drop_bit 4 pcm)
      in word_of_int ((sign OR push_bit 4 (int exponent) OR mantissa) XOR 0xD5))"

definition pcm16_to_ulaw :: "int \<Rightarrow> u8" where
  "pcm16_to_ulaw pcm_in =
     (let pcm0 = (if pcm_in < 0 then - pcm_in else pcm_in) + 132;
          sign = (if pcm_in < 0 then 0x80 else 0);
          pcm = (if pcm0 > 32767 then 32767 else pcm0);
          exponent = find_exponent 0 pcm 0x4000 7;
          mantissa = drop_bit (exponent + 3) pcm AND 0x0F
      in word_of_int (NOT (sign OR push_bit 4 (int exponent) OR mantissa)))"

datatype audio_codec = PCM | G711A | G711U | OPUS

definition star6e_audio_encode_g711 :: "int list \<Rightarrow> audio_codec \<Rightarrow> bytes" where
  "star6e_audio_encode_g711 pcm codec_type =
     map (\<lambda>x. if codec_type = G711A then pcm16_to_alaw x else pcm16_to_ulaw x) pcm"

subsection \<open>The standard's decoders\<close>

definition alaw_decode :: "u8 \<Rightarrow> int" where
  "alaw_decode a =
     (let c = uint (a XOR 0x55); seg = nat (c mod 128 div 16); m = c mod 16;
          t = (if seg = 0 then m * 16 + 8 else (m * 16 + 264) * 2 ^ (seg - 1))
      in if c \<ge> 128 then t else - t)"

definition ulaw_decode :: "u8 \<Rightarrow> int" where
  "ulaw_decode u =
     (let c = uint (NOT u); seg = nat (c mod 128 div 16); m = c mod 16;
          t = (m * 8 + 132) * 2 ^ seg - 132
      in if c \<ge> 128 then - t else t)"

subsection \<open>Segments\<close>

lemma int_and_power:
  fixes p :: int
  assumes "0 \<le> p" "p < 2 ^ Suc k"
  shows "p AND 2 ^ k = 0 \<longleftrightarrow> p < 2 ^ k"
proof -
  have "p div 2 ^ k = (if p < 2 ^ k then 0 else 1)"
    using assms int_div_pos_eq [of p "2 ^ k" 1 "p - 2 ^ k"] by simp
  then show ?thesis by (simp add: and_exp_eq_0_iff_not_bit bit_iff_odd)
qed

text \<open>The loop finds the highest bit, but not below \<open>low\<close>.\<close>

lemma find_exponent_bounds:
  assumes "low \<le> e" "0 \<le> pcm" "pcm < 2 ^ (e + 8)"
  defines "r \<equiv> find_exponent low pcm (2 ^ (e + 7)) e"
  shows "low \<le> r \<and> r \<le> e \<and> pcm < 2 ^ (r + 8) \<and> (low < r \<longrightarrow> 2 ^ (r + 7) \<le> pcm)"
  unfolding r_def using assms(1-3)
proof (induction e)
  case 0
  have "find_exponent 0 pcm 128 0 = 0" by (subst find_exponent.simps) simp
  with 0 show ?case by simp
next
  case (Suc e)
  have a: "pcm AND 2 ^ (Suc e + 7) = 0 \<longleftrightarrow> pcm < 2 ^ (Suc e + 7)"
    using Suc.prems by (intro int_and_power) (simp_all add: algebra_simps)
  show ?case
  proof (cases "pcm < 2 ^ (Suc e + 7) \<and> low < Suc e")
    case True
    moreover have "drop_bit 1 (2 ^ (Suc e + 7)) = (2 :: int) ^ (e + 7)" by (simp only: drop_bit_eq_div add_Suc power_Suc) simp
    ultimately have "find_exponent low pcm (2 ^ (Suc e + 7)) (Suc e) = find_exponent low pcm (2 ^ (e + 7)) e"
      using a by (subst find_exponent.simps) (simp del: power_Suc add_Suc)
    with Suc.IH True Suc.prems show ?thesis by (simp add: algebra_simps)
  next
    case False
    with a have "find_exponent low pcm (2 ^ (Suc e + 7)) (Suc e) = Suc e" by (subst find_exponent.simps) auto
    with False Suc.prems show ?thesis by (auto simp: algebra_simps)
  qed
qed

lemma code_parts:
  "list_all (\<lambda>e. list_all (\<lambda>m. uint ((word_of_int ((0 OR push_bit 4 (int e) OR int m) XOR 0xD5) XOR 0x55) :: u8) = 128 + 16 * int e + int m
     \<and> uint ((word_of_int ((0x80 OR push_bit 4 (int e) OR int m) XOR 0xD5) XOR 0x55) :: u8) = 16 * int e + int m
     \<and> uint (NOT (word_of_int (NOT (0 OR push_bit 4 (int e) OR int m))) :: u8) = 16 * int e + int m
     \<and> uint (NOT (word_of_int (NOT (0x80 OR push_bit 4 (int e) OR int m))) :: u8) = 128 + 16 * int e + int m) [0..<16]) [0..<8]"
  by code_simp


lemma code_parts_at:
  fixes m :: int
  assumes "e < 8" "0 \<le> m" "m < 16"
  shows "uint ((word_of_int ((0 OR push_bit 4 (int e) OR m) XOR 0xD5) XOR 0x55) :: u8) = 128 + 16 * int e + m"
    and "uint ((word_of_int ((0x80 OR push_bit 4 (int e) OR m) XOR 0xD5) XOR 0x55) :: u8) = 16 * int e + m"
    and "uint (NOT (word_of_int (NOT (0 OR push_bit 4 (int e) OR m))) :: u8) = 16 * int e + m"
    and "uint (NOT (word_of_int (NOT (0x80 OR push_bit 4 (int e) OR m))) :: u8) = 128 + 16 * int e + m"
proof -
  obtain n where n: "m = int n" "n < 16" using assms(2,3) by (metis nonneg_int_cases of_nat_less_numeral_iff)
  with code_parts assms(1) show "uint ((word_of_int ((0 OR push_bit 4 (int e) OR m) XOR 0xD5) XOR 0x55) :: u8) = 128 + 16 * int e + m"
    "uint ((word_of_int ((0x80 OR push_bit 4 (int e) OR m) XOR 0xD5) XOR 0x55) :: u8) = 16 * int e + m"
    "uint (NOT (word_of_int (NOT (0 OR push_bit 4 (int e) OR m))) :: u8) = 16 * int e + m"
    "uint (NOT (word_of_int (NOT (0x80 OR push_bit 4 (int e) OR m))) :: u8) = 128 + 16 * int e + m"
    by (simp_all only: list_all_iff set_upt atLeastLessThan_iff) simp_all
qed

lemma mantissa_mod: "x AND 0x0F = (x :: int) mod 16"
  using take_bit_eq_mask [of 4 x] by (simp add: take_bit_eq_mod mask_eq_exp_minus_1)

text \<open>A segment and its sixteen steps.\<close>

lemma in_segment:
  fixes p :: int
  assumes "2 ^ (e + 7) \<le> p" "p < 2 ^ (e + 8)" "m = (p div 2 ^ (e + 3)) mod 16"
  shows "0 \<le> m \<and> m < 16 \<and> 2 ^ (e + 7) + m * 2 ^ (e + 3) \<le> p \<and> p < 2 ^ (e + 7) + (m + 1) * 2 ^ (e + 3)"
proof -
  let ?s = "2 ^ (e + 3) :: int"
  have s: "2 ^ (e + 7) = 16 * ?s" "2 ^ (e + 8) = 32 * ?s" by (simp_all add: power_add)
  have "0 \<le> p mod ?s" "p mod ?s < ?s" by simp_all
  moreover have "(p div ?s + 1) * ?s = p div ?s * ?s + ?s" by (simp add: distrib_right)
  ultimately have b: "p div ?s * ?s \<le> p" "p < (p div ?s + 1) * ?s" using div_mult_mod_eq [of p ?s] by linarith+
  have "16 * ?s < (p div ?s + 1) * ?s" "p div ?s * ?s < 32 * ?s" using b assms(1,2) unfolding s by linarith+
  then have q: "16 \<le> p div ?s" "p div ?s < 32" by (simp_all add: mult_less_cancel_right)
  then have "m = p div ?s - 16" using assms(3) minus_mod_self2 [of "p div ?s" 16] mod_pos_pos_trivial [of "p div ?s - 16" 16] by simp
  then have d: "p div ?s = m + 16" by simp
  from b have "(m + 16) * ?s \<le> p" "p < (m + 16 + 1) * ?s" unfolding d by simp_all
  with q show ?thesis unfolding s d by (simp add: algebra_simps)
qed


lemma top_segment:
  fixes q :: int
  assumes "q < 2 ^ (e + 8)" "16384 \<le> q" "e \<le> 7"
  shows "e = 7"
proof (rule ccontr)
  assume "e \<noteq> 7"
  then have "(2 :: int) ^ (e + 8) \<le> 2 ^ 14" using assms(3) by (intro power_increasing) auto
  also have "(2 :: int) ^ 14 = 16384" by simp
  finally show False using assms(1,2) by simp
qed

lemma code_fields:
  fixes m :: int
  assumes "e < 8" "0 \<le> m" "m < 16"
  shows "nat ((16 * int e + m) mod 128 div 16) = e" "(16 * int e + m) mod 16 = m"
    "nat ((128 + 16 * int e + m) mod 128 div 16) = e" "(128 + 16 * int e + m) mod 16 = m" "16 * int e + m < 128"
proof -
  have c: "0 \<le> 16 * int e + m" "16 * int e + m < 128" using assms by auto
  then have "(16 * int e + m) mod 128 = 16 * int e + m" by simp
  moreover have "(128 + (16 * int e + m)) mod 128 = (16 * int e + m) mod 128" by (rule mod_add_self1)
  moreover have "(16 * int e + m) div 16 = int e" using assms by simp
  moreover show "(16 * int e + m) mod 16 = m" using assms by simp
  moreover have "128 + 16 * int e + m = m + (8 + int e) * 16" by simp
  moreover have "(m + (8 + int e) * 16) mod 16 = m" using assms by (simp only: mod_mult_self1 mod_pos_pos_trivial)
  ultimately show "nat ((16 * int e + m) mod 128 div 16) = e" "nat ((128 + 16 * int e + m) mod 128 div 16) = e"
    "(128 + 16 * int e + m) mod 16 = m" by (simp_all only: add.assoc nat_int)
qed (use assms in auto)

subsection \<open>The error of the round trip\<close>

lemma abs_times: "32 * a \<le> M \<Longrightarrow> 32 * (- a) \<le> M \<Longrightarrow> 32 * \<bar>a\<bar> \<le> (M :: int)"
  by (simp add: abs_if)

lemma alaw_magnitude:
  assumes "0 \<le> p" "p \<le> 32767"
  defines "q \<equiv> (if p > 32635 then 32635 else p)"
  defines "e \<equiv> (if q \<ge> 256 then find_exponent 1 q 0x4000 7 else 0)"
  defines "m \<equiv> (if q \<ge> 256 then drop_bit (e + 3) q AND 0x0F else drop_bit 4 q)"
  defines "t \<equiv> (if e = 0 then m * 16 + 8 else (m * 16 + 264) * 2 ^ (e - 1))"
  shows "e < 8 \<and> 0 \<le> m \<and> m < 16 \<and> 32 * (t - p) \<le> max 256 p \<and> 32 * (p + 1 - t) \<le> max 256 (p + 1)"
proof (cases "q \<ge> 256")
  case False
  then have "q = p" "p < 256" by (auto simp: q_def split: if_splits)
  have m: "m = p div 16" "e = 0" using False by (auto simp: m_def e_def q_def drop_bit_eq_div)
  have "0 \<le> p div 16" "p div 16 < 16" "p div 16 * 16 \<le> p" "p < p div 16 * 16 + 16" using \<open>p < 256\<close> assms(1) by auto
  then show ?thesis using m \<open>p < 256\<close> assms(1) by (auto simp: t_def max_def)
next
  case True
  have e: "e = find_exponent 1 q (2 ^ (7 + 7)) 7" using True by (simp add: e_def)
  have eb: "1 \<le> e" "e \<le> 7" "q < 2 ^ (e + 8)" "2 ^ (e + 7) \<le> q"
    using find_exponent_bounds [of 1 7 q] True assms(1,2) unfolding e [symmetric]
    by (auto simp: q_def le_less)
  have m: "m = (q div 2 ^ (e + 3)) mod 16" using True by (simp add: m_def drop_bit_eq_div mantissa_mod)
  note seg = in_segment [OF eb(4,3) m]
  obtain k where k: "e = Suc k" using eb(1) by (cases e) auto
  let ?u = "2 ^ k :: int"
  have pw: "2 ^ (e + 7) = 256 * ?u" "2 ^ (e + 3) = 16 * ?u" by (simp_all add: k power_add)
  have t: "t = (m * 16 + 264) * ?u" using k by (simp add: t_def)
  have w: "256 * ?u + m * (16 * ?u) \<le> q" "q < 256 * ?u + (m + 1) * (16 * ?u)" using seg unfolding pw by auto
  have tq: "t - q \<le> 8 * ?u" "q + 1 - t \<le> 8 * ?u" using w unfolding t by (simp_all add: algebra_simps)
  have uq: "256 * ?u \<le> q" using eb(4) unfolding pw .
  show ?thesis
  proof (cases "p > 32635")
    case False
    then have "q = p" by (simp add: q_def)
    then have "32 * (t - p) \<le> p" "32 * (p + 1 - t) \<le> p" using tq uq by auto
    with eb seg show ?thesis by auto
  next
    case True
    then have q: "q = 32635" by (simp add: q_def)
    have "e = 7" using top_segment [OF eb(3)] eb(2) q by simp
    then have "?u = 64" using k by simp
    with w q seg have "m = 15" by simp
    with \<open>?u = 64\<close> t True assms(2) eb(2) show ?thesis by auto
  qed
qed


lemma ulaw_magnitude:
  assumes "0 \<le> p" "p \<le> 32768"
  defines "q \<equiv> (if p + 132 > 32767 then 32767 else p + 132)"
  defines "e \<equiv> find_exponent 0 q 0x4000 7"
  defines "m \<equiv> drop_bit (e + 3) q AND 0x0F"
  defines "t \<equiv> (m * 8 + 132) * 2 ^ e - 132"
  shows "e < 8 \<and> 0 \<le> m \<and> m < 16 \<and> 32 * \<bar>t - p\<bar> \<le> p + 132"
proof -
  have e: "e = find_exponent 0 q (2 ^ (7 + 7)) 7" by (simp add: e_def)
  have q: "132 \<le> q" "q \<le> 32767" using assms(1) by (auto simp: q_def)
  have eb: "e \<le> 7" "q < 2 ^ (e + 8)" "0 < e \<longrightarrow> 2 ^ (e + 7) \<le> q"
    using find_exponent_bounds [of 0 7 q] q unfolding e [symmetric] by auto
  have low: "2 ^ (e + 7) \<le> q" using eb(3) q by (cases "e = 0") auto
  have m: "m = (q div 2 ^ (e + 3)) mod 16" by (simp add: m_def drop_bit_eq_div mantissa_mod)
  note seg = in_segment [OF low eb(2) m]
  let ?u = "2 ^ e :: int"
  have pw: "2 ^ (e + 7) = 128 * ?u" "2 ^ (e + 3) = 8 * ?u" by (simp_all add: power_add)
  have w: "128 * ?u + m * (8 * ?u) \<le> q" "q < 128 * ?u + (m + 1) * (8 * ?u)" using seg unfolding pw by auto
  have tq: "\<bar>t - (q - 132)\<bar> \<le> 4 * ?u" using w by (auto simp: t_def algebra_simps abs_le_iff)
  have uq: "128 * ?u \<le> q" using low unfolding pw .
  show ?thesis
  proof (cases "p + 132 > 32767")
    case False
    then have "q = p + 132" by (simp add: q_def)
    with tq uq have "32 * \<bar>t - p\<bar> \<le> p + 132" by simp
    with eb seg show ?thesis by simp
  next
    case True
    then have qq: "q = 32767" by (simp add: q_def)
    have "e = 7" using top_segment [OF eb(2)] eb(1) qq by simp
    with w qq seg have "m = 15" by simp
    with \<open>e = 7\<close> True assms(2) show ?thesis by (auto simp: t_def abs_le_iff)
  qed
qed

text \<open>Property C38. The G.711 encoders and the standard's decoders: a sample that is encoded and decoded
  is off by at most 8 or a thirty-second of its size in A-law, and by at most a thirty-second of
  its size plus 132 in mu-law, over the whole range of a 16-bit sample.\<close>

theorem g711_error_bounded:
  assumes "-32768 \<le> x" "x \<le> 32767"
  shows "32 * \<bar>alaw_decode (pcm16_to_alaw x) - x\<bar> \<le> max 256 \<bar>x\<bar>
    \<and> 32 * \<bar>ulaw_decode (pcm16_to_ulaw x) - x\<bar> \<le> \<bar>x\<bar> + 132"
proof
  show "32 * \<bar>alaw_decode (pcm16_to_alaw x) - x\<bar> \<le> max 256 \<bar>x\<bar>"
  proof -
    define p where "p = (if x < 0 then - x - 1 else x)"
    define q where "q = (if p > 32635 then 32635 else p)"
    define e where "e = (if q \<ge> 256 then find_exponent 1 q 0x4000 7 else 0)"
    define m where "m = (if q \<ge> 256 then drop_bit (e + 3) q AND 0x0F else drop_bit 4 q)"
    define t where "t = (if e = 0 then m * 16 + 8 else (m * 16 + 264) * 2 ^ (e - 1))"
    have p: "0 \<le> p" "p \<le> 32767" using assms by (auto simp: p_def)
    note mag = alaw_magnitude [OF p, folded q_def, folded e_def, folded m_def, folded t_def]
    have enc: "pcm16_to_alaw x = word_of_int (((if x < 0 then 0x80 else 0) OR push_bit 4 (int e) OR m) XOR 0xD5)"
      unfolding pcm16_to_alaw_def Let_def p_def [symmetric] q_def [symmetric] e_def [symmetric] m_def [symmetric] ..
    have "uint (pcm16_to_alaw x XOR 0x55) = (if x < 0 then 0 else 128) + 16 * int e + m"
      unfolding enc using code_parts_at(1,2) [of e m] mag by auto
    moreover note code_fields [of e m]
    ultimately have "alaw_decode (pcm16_to_alaw x) = (if x < 0 then - t else t)"
      using mag by (auto simp: alaw_decode_def Let_def t_def)
    moreover have "max 256 (p + 1) \<le> max 256 p + 1" "max 256 p \<le> max 256 (p + 1)" by simp_all
    moreover have "32 * (t - p) \<le> max 256 p" "32 * (p + 1 - t) \<le> max 256 (p + 1)" using mag by blast+
    ultimately have "alaw_decode (pcm16_to_alaw x) = (if x < 0 then - t else t)"
      "32 * \<bar>t - p\<bar> \<le> max 256 p" "32 * \<bar>p + 1 - t\<bar> \<le> max 256 (p + 1)"
      by (auto intro!: abs_times simp del: max.bounded_iff)
    then show ?thesis by (cases "x < 0") (simp_all add: p_def abs_minus_commute add.commute)
  qed
  show "32 * \<bar>ulaw_decode (pcm16_to_ulaw x) - x\<bar> \<le> \<bar>x\<bar> + 132"
  proof -
    define p where "p = (if x < 0 then - x else x)"
    define q where "q = (if p + 132 > 32767 then 32767 else p + 132)"
    define e where "e = find_exponent 0 q 0x4000 7"
    define m where "m = drop_bit (e + 3) q AND 0x0F"
    define t where "t = (m * 8 + 132) * 2 ^ e - 132"
    have p: "0 \<le> p" "p \<le> 32768" using assms by (auto simp: p_def)
    note mag = ulaw_magnitude [OF p, folded q_def, folded e_def, folded m_def, folded t_def]
    have enc: "pcm16_to_ulaw x = word_of_int (NOT ((if x < 0 then 0x80 else 0) OR push_bit 4 (int e) OR m))"
      unfolding pcm16_to_ulaw_def Let_def p_def [symmetric] q_def [symmetric] e_def [symmetric] m_def [symmetric] ..
    have "uint (NOT (pcm16_to_ulaw x)) = (if x < 0 then 128 else 0) + 16 * int e + m"
      unfolding enc using code_parts_at(3,4) [of e m] mag by auto
    moreover note code_fields [of e m]
    ultimately have "ulaw_decode (pcm16_to_ulaw x) = (if x < 0 then - t else t)"
      using mag by (auto simp: ulaw_decode_def Let_def t_def)
    then have "\<bar>ulaw_decode (pcm16_to_ulaw x) - x\<bar> = \<bar>t - p\<bar>" by (simp add: p_def abs_if)
    moreover have "p = \<bar>x\<bar>" by (simp add: p_def)
    ultimately show ?thesis using mag by simp
  qed
qed

theorem g711_error_bounded_witness:
  "32 * \<bar>alaw_decode (pcm16_to_alaw (-1000)) - (-1000)\<bar> \<le> max 256 \<bar>-1000\<bar>
    \<and> 32 * \<bar>ulaw_decode (pcm16_to_ulaw (-1000)) - (-1000)\<bar> \<le> \<bar>-1000\<bar> + 132"
  using g711_error_bounded [of "-1000"] by simp

end
