(* ===== verification/StarAudio.thy ===== *)
theory StarAudio imports G711 MutexRings Star6eOutput Config begin

text \<open>
  Audio capture of the Star6E backend (\<open>src/star6e_audio.c\<close>): bringing the device up and down, the
  capture thread, the encoding thread and the filter over the standard output. The audio library is
  the list of the results its calls get and the log of the calls; once the results are used up
  calls fail. The ring between the threads is that of MutexRings.thy, the output that of
  Star6eOutput.thy.
\<close>

subsection \<open>The output filter\<close>

text \<open>One character: the line so far, and what is written. A full buffer ends a line.\<close>

definition filter_char :: "string \<Rightarrow> char \<Rightarrow> string \<times> string" where
  "filter_char line c =
     (let l = (if length line < 1023 then line @ [c] else line) in
      if c = CHR 0x0A \<or> length l = 1023
      then ([], if l \<noteq> [] \<and> hd l \<noteq> CHR 0x1B then l else [])
      else (l, []))"

fun filter_chars :: "string \<Rightarrow> string \<Rightarrow> string \<times> string" where
  "filter_chars line [] = (line, [])"
| "filter_chars line (c # cs) =
     (case filter_char line c of (l, out) \<Rightarrow> case filter_chars l cs of (l', out') \<Rightarrow> (l', out @ out'))"

text \<open>The thread: the chunks \<open>read\<close> gives until the pipe is closed, then the partial line.\<close>

fun stdout_filter_fn :: "string \<Rightarrow> string list \<Rightarrow> string" where
  "stdout_filter_fn line [] = (if line \<noteq> [] \<and> hd line \<noteq> CHR 0x1B then line else [])"
| "stdout_filter_fn line (chunk # chunks) =
     (case filter_chars line chunk of (l, out) \<Rightarrow> out @ stdout_filter_fn l chunks)"

text \<open>What it is for: all lines but those that begin with an escape.\<close>

fun text_lines :: "string \<Rightarrow> string list" where
  "text_lines [] = []"
| "text_lines (c # cs) =
     (if c = CHR 0x0A then [c] # text_lines cs
      else case text_lines cs of [] \<Rightarrow> [[c]] | l # ls \<Rightarrow> (c # l) # ls)"

definition plain_lines :: "string \<Rightarrow> string" where
  "plain_lines s = concat (filter (\<lambda>l. hd l \<noteq> CHR 0x1B) (text_lines s))"

subsection \<open>The device\<close>

record dev_config =
  dc_rate :: int
  dc_sound :: int
  dc_frm_num :: nat
  dc_pack_num_per_frm :: u32
  dc_chn_num :: u32
  dc_sync_rx_clk :: bool

datatype ai_op = SetPubAttr dev_config | EnableDevice | PortDepth nat nat | EnableChannel | DisableChannel | DisableDevice
  | SetVolume int | SetMute bool

record ai_dev =
  ad_results :: "int list"
  ad_log :: "(ai_op \<times> int) list"

definition ai_call :: "ai_op \<Rightarrow> ai_dev \<Rightarrow> int \<times> ai_dev" where
  "ai_call op d = (case ad_results d of [] \<Rightarrow> (-1, d\<lparr>ad_log := ad_log d @ [(op, -1)]\<rparr>)
     | r # rs \<Rightarrow> (r, \<lparr>ad_results = rs, ad_log = ad_log d @ [(op, r)]\<rparr>))"

definition star6e_audio_volume_to_db :: "int \<Rightarrow> int" where
  "star6e_audio_volume_to_db volume = (if volume \<le> 0 then -60 else if volume \<ge> 100 then 30 else -60 + (volume * 90) div 100)"

record audio_state =
  au_lib_loaded :: bool
  au_device_enabled :: bool
  au_channel_enabled :: bool
  au_codec :: audio_codec
  au_sample_rate :: u32
  au_channels :: u32
  au_output :: audio_output
  au_rtp :: rtp_state
  au_frame_ticks :: u32
  au_running :: bool
  au_started :: bool
  au_cap_ring :: audio_ring
  au_rec_ring :: "audio_ring option"
  au_opus :: bool

text \<open>What outlives an instance: whether the device was brought up, the device, the descriptors,
  whether the output filter is in place.\<close>

record audio_world =
  aw_persist :: bool
  aw_dev :: ai_dev
  aw_os :: os
  aw_filter :: bool

record audio_env =
  ae_lib_ok :: bool
  ae_opus_ok :: bool
  ae_capture_thread_ok :: bool
  ae_encode_thread_ok :: bool
  ae_rtp_seed :: rtp_state
  ae_opus_encode :: "bytes \<Rightarrow> nat \<Rightarrow> int \<times> bytes"

definition audio_state_zero :: audio_state where
  "audio_state_zero = \<lparr>au_lib_loaded = False, au_device_enabled = False, au_channel_enabled = False, au_codec = G711A,
     au_sample_rate = 0, au_channels = 0, au_output = star6e_audio_output_reset,
     au_rtp = \<lparr>rp_seq = 0, rp_timestamp = 0, rp_ssrc = 0, rp_payload_type = 0\<rparr>, au_frame_ticks = 0, au_running = False,
     au_started = False, au_cap_ring = audio_ring_init, au_rec_ring = None, au_opus = False\<rparr>"

definition configure_ai_device :: "audio_state \<Rightarrow> ai_dev \<Rightarrow> int \<times> ai_dev" where
  "configure_ai_device s d =
     (case ai_call (SetPubAttr \<lparr>dc_rate = sint (au_sample_rate s), dc_sound = (if au_channels s \<ge> 2 then 1 else 0), dc_frm_num = 20,
        dc_pack_num_per_frm = au_sample_rate s div 50, dc_chn_num = au_channels s, dc_sync_rx_clk = True\<rparr>) d of
        (ret, d1) \<Rightarrow> (if ret \<noteq> 0 then -1 else 0, d1))"

definition volume_and_mute :: "cfg_audio \<Rightarrow> ai_dev \<Rightarrow> ai_dev" where
  "volume_and_mute c d =
     (let d1 = snd (ai_call (SetVolume (star6e_audio_volume_to_db (aud_volume c))) d)
      in if aud_mute c then snd (ai_call (SetMute True) d1) else d1)"

definition start_ai_capture :: "cfg_audio \<Rightarrow> audio_state \<times> ai_dev \<Rightarrow> int \<times> audio_state \<times> ai_dev" where
  "start_ai_capture c = (\<lambda>(s, d).
     case ai_call EnableDevice d of (ret, d1) \<Rightarrow>
     if ret \<noteq> 0 then (-1, s, d1)
     else let s1 = s\<lparr>au_device_enabled := True\<rparr> in
     case ai_call (PortDepth 1 2) d1 of (ret2, d2) \<Rightarrow>
     if ret2 \<noteq> 0 then (-1, s1, d2)
     else case ai_call EnableChannel d2 of (ret3, d3) \<Rightarrow>
     if ret3 \<noteq> 0 then (-1, s1, d3)
     else (0, s1\<lparr>au_channel_enabled := True\<rparr>, volume_and_mute c d3))"

text \<open>The payload type and the ticks of a frame.\<close>

definition audio_payload_type :: "audio_codec \<Rightarrow> u32 \<Rightarrow> u8" where
  "audio_payload_type codec rate =
     (if codec = G711U \<and> rate = 8000 then 0 else if codec = G711A \<and> rate = 8000 then 8
      else if codec = G711U then 112 else if codec = G711A then 113 else if codec = OPUS then 120
      else if codec = PCM \<and> rate = 44100 then 11 else 110)"

definition OPUS_RTP_CLOCK_HZ :: u32 where "OPUS_RTP_CLOCK_HZ = 48000"

definition audio_frame_ticks :: "audio_codec \<Rightarrow> u32 \<Rightarrow> u32" where
  "audio_frame_ticks codec rate = (if codec = OPUS then OPUS_RTP_CLOCK_HZ div 50 else rate div 50)"

definition start_audio_output_and_thread ::
  "audio_env \<Rightarrow> out_state \<Rightarrow> u16 \<Rightarrow> u16 \<Rightarrow> audio_state \<times> os \<Rightarrow> int \<times> audio_state \<times> os" where
  "start_audio_output_and_thread env output audio_port max_payload = (\<lambda>(s, w).
     case star6e_audio_output_init audio_port max_payload w of (rc, ao, w1) \<Rightarrow>
     let s0 = s\<lparr>au_output := ao\<rparr> in
     if rc \<noteq> 0 then (-1, s0, w1)
     else let s1 = (if star6e_output_is_rtp output
                    then s0\<lparr>au_rtp := (ae_rtp_seed env)\<lparr>rp_payload_type := audio_payload_type (au_codec s) (au_sample_rate s)\<rparr>,
                            au_frame_ticks := audio_frame_ticks (au_codec s) (au_sample_rate s)\<rparr>
                    else s0\<lparr>au_rtp := \<lparr>rp_seq = 0, rp_timestamp = 0, rp_ssrc = 0, rp_payload_type = 0\<rparr>, au_frame_ticks := 0\<rparr>);
              s2 = s1\<lparr>au_cap_ring := audio_ring_init, au_running := True\<rparr>
          in if \<not> ae_capture_thread_ok env \<or> \<not> ae_encode_thread_ok env then (-1, s2\<lparr>au_running := False\<rparr>, w1)
             else (0, s2\<lparr>au_started := True\<rparr>, w1))"

subsection \<open>Up and down\<close>

definition audio_codec_from_name :: "string \<Rightarrow> audio_codec" where
  "audio_codec_from_name name = (if name = ''g711a'' then G711A else if name = ''g711u'' then G711U
     else if name = ''opus'' then OPUS else PCM)"

text \<open>The way out of a failed start: everything that is up goes down, but a device that outlives
  the instance stays.\<close>

definition audio_shut_device :: "audio_state \<times> ai_dev \<Rightarrow> audio_state \<times> ai_dev" where
  "audio_shut_device = (\<lambda>(s, d).
     let (s1, d1) = (if au_channel_enabled s then (s\<lparr>au_channel_enabled := False\<rparr>, snd (ai_call DisableChannel d)) else (s, d));
         (s2, d2) = (if au_device_enabled s1 then (s1\<lparr>au_device_enabled := False\<rparr>, snd (ai_call DisableDevice d1)) else (s1, d1))
     in (s2\<lparr>au_lib_loaded := False\<rparr>, d2))"

definition audio_init_fail :: "audio_state \<times> audio_world \<Rightarrow> audio_state \<times> audio_world" where
  "audio_init_fail = (\<lambda>(s, w).
     let s0 = s\<lparr>au_opus := False\<rparr>;
         (s1, d1) = (if \<not> aw_persist w then audio_shut_device (s0, aw_dev w) else (s0, aw_dev w));
         (ao, os1) = star6e_audio_output_teardown (au_output s1, aw_os w)
     in (s1\<lparr>au_output := ao\<rparr>, w\<lparr>aw_dev := d1, aw_os := os1, aw_filter := False\<rparr>))"

text \<open>The end of a start: output and threads, with the device up.\<close>

definition finish_audio_init ::
  "audio_env \<Rightarrow> venc_config \<Rightarrow> out_state \<Rightarrow> audio_state \<times> audio_world \<Rightarrow> int \<times> audio_state \<times> audio_world" where
  "finish_audio_init env vcfg ou = (\<lambda>(s, w).
     case start_audio_output_and_thread env ou (out_audio_port (c_outgoing vcfg)) (out_max_payload_size (c_outgoing vcfg))
         (s, aw_os w) of (rc, s1, os1) \<Rightarrow>
       if rc \<noteq> 0 then (0, audio_init_fail (s1, w\<lparr>aw_os := os1\<rparr>)) else (0, s1, w\<lparr>aw_os := os1\<rparr>))"

definition star6e_audio_init ::
  "audio_env \<Rightarrow> venc_config \<Rightarrow> out_state option \<Rightarrow> audio_world \<Rightarrow> int \<times> audio_state \<times> audio_world" where
  "star6e_audio_init env vcfg output w =
     (case output of None \<Rightarrow> (0, audio_state_zero, w) | Some ou \<Rightarrow>
      let c = c_audio vcfg in
      if \<not> aud_enabled c then (0, audio_state_zero, w)
      else
        let wanted = audio_codec_from_name (aud_codec c);
            codec = (if wanted = OPUS \<and> \<not> ae_opus_ok env then PCM else wanted);
            s = audio_state_zero\<lparr>au_sample_rate := aud_sample_rate c, au_channels := aud_channels c, au_codec := codec,
                                 au_opus := (codec = OPUS)\<rparr>;
            w0 = w\<lparr>aw_filter := True\<rparr>
        in if aw_persist w0
           then finish_audio_init env vcfg ou (s\<lparr>au_lib_loaded := True, au_device_enabled := True, au_channel_enabled := True\<rparr>,
                  w0\<lparr>aw_dev := volume_and_mute c (aw_dev w0)\<rparr>)
           else if \<not> ae_lib_ok env then (0, s, w0\<lparr>aw_filter := False\<rparr>)
           else case configure_ai_device s (aw_dev w0) of (rc, d1) \<Rightarrow>
             let s1 = s\<lparr>au_lib_loaded := True\<rparr> in
             if rc \<noteq> 0 then (0, audio_init_fail (s1, w0\<lparr>aw_dev := d1\<rparr>))
             else case start_ai_capture c (s1, d1) of (rc2, s2, d2) \<Rightarrow>
               if rc2 \<noteq> 0 then (0, audio_init_fail (s2, w0\<lparr>aw_dev := d2\<rparr>))
               else finish_audio_init env vcfg ou (s2, w0\<lparr>aw_dev := d2, aw_persist := True\<rparr>))"

definition star6e_audio_apply_mute :: "bool \<Rightarrow> audio_state \<Rightarrow> ai_dev \<Rightarrow> int \<times> ai_dev" where
  "star6e_audio_apply_mute muted s d =
     (if \<not> au_lib_loaded s \<or> \<not> au_channel_enabled s then (-1, d)
      else case ai_call (SetMute muted) d of (ret, d1) \<Rightarrow> (if ret \<noteq> 0 then -1 else 0, d1))"

subsection \<open>The threads\<close>

text \<open>What the device hands the capture thread: an error, or a frame with its time.\<close>

datatype ai_frame = NoFrame | Frame "bytes option" nat u64

definition capture_frame :: "ai_frame \<Rightarrow> audio_ring \<Rightarrow> audio_ring" where
  "capture_frame f r = (case f of NoFrame \<Rightarrow> r
     | Frame None n us \<Rightarrow> r
     | Frame (Some d) n us \<Rightarrow> if n > 0 then audio_ring_push (d, word_of_nat (if n > 0xFFFF then 0xFFFF else n), us) r else r)"

text \<open>Samples are little-endian; an odd last byte is not one.\<close>

fun pcm_samples :: "bytes \<Rightarrow> int list" where
  "pcm_samples (a # b # xs) = sint (word_cat b a :: u16) # pcm_samples xs"
| "pcm_samples _ = []"

text \<open>The bytes to send for a frame; \<open>None\<close> for one the encoder refuses.\<close>

definition encode_audio :: "audio_env \<Rightarrow> audio_state \<Rightarrow> bytes \<Rightarrow> bytes option" where
  "encode_audio env s pcm =
     (if pcm \<noteq> [] \<and> au_codec s = OPUS \<and> au_opus s then
        (case ae_opus_encode env pcm (length pcm div 2 div unat (au_channels s)) of (n, out) \<Rightarrow>
           if n \<le> 0 then None else Some (take (nat n) out))
      else if pcm \<noteq> [] \<and> (au_codec s = G711A \<or> au_codec s = G711U)
      then Some (star6e_audio_encode_g711 (take 4096 (pcm_samples pcm)) (au_codec s))
      else Some pcm)"

text \<open>One frame popped by the encoding thread: recorded as it is, encoded and sent. The video output
  is read at the three moments of the cached lookup.\<close>

definition encode_entry ::
  "audio_env \<Rightarrow> out_state \<times> out_state \<times> out_state \<Rightarrow> audio_entry \<Rightarrow> audio_state \<times> os \<Rightarrow> audio_state \<times> os" where
  "encode_entry env vs e = (\<lambda>(s, w).
     let pcm = take (unat (ae_length e)) (ae_pcm e);
         s1 = s\<lparr>au_rec_ring := map_option (audio_ring_push (ae_pcm e, ae_length e, ae_timestamp_us e)) (au_rec_ring s)\<rparr>
     in case encode_audio env s pcm of None \<Rightarrow> (s1, w)
        | Some data \<Rightarrow> if data = [] then (s1, w)
          else case vs of (v1, v2, v3) \<Rightarrow>
            case star6e_audio_output_send data (au_frame_ticks s1) v1 v2 v3 (au_output s1, au_rtp s1, w) of
              (rc, ao, rtp, w1) \<Rightarrow> (s1\<lparr>au_output := ao, au_rtp := rtp\<rparr>, w1))"

text \<open>The thread's loop once it has been told to stop: it goes on until the ring is empty. The capturing thread is taken
  to have made its last push by then; a push of its last frame that comes later is not part of this function.\<close>

function encode_drain :: "audio_env \<Rightarrow> out_state \<times> out_state \<times> out_state \<Rightarrow> audio_state \<times> os \<Rightarrow> audio_state \<times> os" where
  "encode_drain env vs (s, w) =
     (if audio_ring_count (au_cap_ring s) = 0 then (s, w)
      else case audio_ring_pop (au_cap_ring s) of
        (None, r) \<Rightarrow> (s, w)
      | (Some e, r) \<Rightarrow> encode_drain env vs (encode_entry env vs e (s\<lparr>au_cap_ring := r\<rparr>, w)))"
  by pat_completeness auto

lemma encode_entry_cap_ring: "au_cap_ring (fst (encode_entry env vs e (s, w))) = au_cap_ring s"
  by (simp add: encode_entry_def Let_def split: option.splits prod.splits)

termination encode_drain
proof (relation "measure (\<lambda>(env, vs, s, w). unat (ar_count (au_cap_ring s)))")
  fix env vs oe r e and s :: audio_state and w :: os
  assume n: "audio_ring_count (au_cap_ring s) \<noteq> 0" and p: "(oe, r) = audio_ring_pop (au_cap_ring s)" "oe = Some e"
  then have "ar_count r = ar_count (au_cap_ring s) - 1" by (auto simp: audio_ring_pop_def split: if_splits)
  moreover have "unat (ar_count (au_cap_ring s) - 1) < unat (ar_count (au_cap_ring s))"
  proof -
    have "0 < unat (ar_count (au_cap_ring s))" using n by (auto simp: audio_ring_count_def unat_eq_0 intro!: gr0I)
    moreover have "unat (ar_count (au_cap_ring s) - 1) = unat (ar_count (au_cap_ring s)) - 1"
      using n by (intro unat_minus_one) (simp add: audio_ring_count_def)
    ultimately show ?thesis by simp
  qed
  moreover obtain s' w' where "encode_entry env vs e (s\<lparr>au_cap_ring := r\<rparr>, w) = (s', w')" by fastforce
  moreover from this have "au_cap_ring s' = r" using encode_entry_cap_ring [of env vs e "s\<lparr>au_cap_ring := r\<rparr>" w] by simp
  ultimately show "((env, vs, encode_entry env vs e (s\<lparr>au_cap_ring := r\<rparr>, w)), env, vs, s, w)
      \<in> measure (\<lambda>(env, vs, s, w). unat (ar_count (au_cap_ring s)))" by simp
qed auto

declare encode_drain.simps [simp del]

definition star6e_audio_teardown ::
  "audio_env \<Rightarrow> out_state \<times> out_state \<times> out_state \<Rightarrow> audio_state \<times> audio_world \<Rightarrow> audio_state \<times> audio_world" where
  "star6e_audio_teardown env vs = (\<lambda>(s, w).
     let (s1, os1) = (if au_started s
                      then case encode_drain env vs (s\<lparr>au_running := False\<rparr>, aw_os w) of (s', os') \<Rightarrow> (s'\<lparr>au_started := False\<rparr>, os')
                      else (s, aw_os w));
         s2 = s1\<lparr>au_opus := False\<rparr>;
         (s3, d3) = (if au_lib_loaded s2 \<and> \<not> aw_persist w then audio_shut_device (s2, aw_dev w) else (s2, aw_dev w));
         (ao, os2) = star6e_audio_output_teardown (au_output s3, os1)
     in (s3\<lparr>au_output := ao\<rparr>, w\<lparr>aw_dev := d3, aw_os := os2, aw_filter := False\<rparr>))"


subsection \<open>What the encoding thread leaves\<close>

lemma encode_entry_ring:
  "encode_entry env vs e (s\<lparr>au_cap_ring := r\<rparr>, w) = (case encode_entry env vs e (s, w) of (s', w') \<Rightarrow> (s'\<lparr>au_cap_ring := r\<rparr>, w'))"
proof -
  have "encode_audio env (s\<lparr>au_cap_ring := r\<rparr>) p = encode_audio env s p" for p by (simp add: encode_audio_def)
  then show ?thesis by (simp add: encode_entry_def Let_def split: option.splits prod.splits)
qed

lemma fold_encode_ring:
  "fold (encode_entry env vs) es (s\<lparr>au_cap_ring := r\<rparr>, w) =
     (case fold (encode_entry env vs) es (s, w) of (s', w') \<Rightarrow> (s'\<lparr>au_cap_ring := r\<rparr>, w'))"
  by (induction es arbitrary: s w) (simp_all add: encode_entry_ring split: prod.splits)

lemma fold_encode_cap_ring: "au_cap_ring (fst (fold (encode_entry env vs) es (s, w))) = au_cap_ring s"
proof (induction es arbitrary: s w)
  case (Cons e es)
  obtain s' w' where e: "encode_entry env vs e (s, w) = (s', w')" by fastforce
  with Cons [of s' w'] encode_entry_cap_ring [of env vs e s w] show ?case by simp
qed simp

text \<open>Property C37. After the audio is told to stop and the capturing thread has made its last push the encoding
  thread ends, and before it does every frame still in the ring is handled, oldest first and each once: the state is
  that of encoding the ring's contents in order, and the ring is empty.\<close>

theorem encode_drain_handles_all:
  assumes "audio_wf (au_cap_ring s)"
  shows "case encode_drain env vs (s, w) of (s1, w1) \<Rightarrow>
    audio_contents (au_cap_ring s1) = []
    \<and> (s1\<lparr>au_cap_ring := au_cap_ring s\<rparr>, w1) = fold (encode_entry env vs) (audio_contents (au_cap_ring s)) (s, w)"
  using assms
proof (induction "audio_contents (au_cap_ring s)" arbitrary: s w)
  case Nil
  then have "length (audio_contents (au_cap_ring s)) = 0" by simp
  then have "ar_count (au_cap_ring s) = 0" by (simp add: audio_contents_def unat_eq_0)
  with Nil show ?case by (subst encode_drain.simps) (simp add: audio_ring_count_def)
next
  case (Cons e es)
  obtain r where r: "audio_ring_pop (au_cap_ring s) = (Some e, r)" "audio_contents r = es" "audio_wf r"
    using audio_pop_ok(2) [OF Cons.prems Cons.hyps(2) [symmetric]] by auto
  have "length (audio_contents (au_cap_ring s)) \<noteq> 0" using Cons.hyps(2) [symmetric] by simp
  then have n: "ar_count (au_cap_ring s) \<noteq> 0" by (auto simp: audio_contents_def)
  obtain s2 w2 where e: "encode_entry env vs e (s\<lparr>au_cap_ring := r\<rparr>, w) = (s2, w2)" by fastforce
  have s2: "au_cap_ring s2 = r" using encode_entry_cap_ring [of env vs e "s\<lparr>au_cap_ring := r\<rparr>" w] e by simp
  have d: "encode_drain env vs (s, w) = encode_drain env vs (s2, w2)"
    using n r(1) e by (subst encode_drain.simps) (simp add: audio_ring_count_def)
  have ih: "case encode_drain env vs (s2, w2) of (s1, w1) \<Rightarrow> audio_contents (au_cap_ring s1) = []
      \<and> (s1\<lparr>au_cap_ring := r\<rparr>, w1) = fold (encode_entry env vs) es (s2, w2)"
    using Cons.hyps(1) [of s2 w2] r s2 by simp
  obtain s0 w0 where e0: "encode_entry env vs e (s, w) = (s0, w0)" by fastforce
  with e encode_entry_ring [of env vs e r s w] have "s2 = s0\<lparr>au_cap_ring := r\<rparr>" "w2 = w0" by simp_all
  moreover have c0: "au_cap_ring s0 = au_cap_ring s" using encode_entry_cap_ring [of env vs e s w] e0 by simp
  ultimately have f2: "fold (encode_entry env vs) es (s2, w2) = (case fold (encode_entry env vs) es (s0, w0) of (s', w') \<Rightarrow> (s'\<lparr>au_cap_ring := r\<rparr>, w'))"
    by (simp add: fold_encode_ring)
  obtain s1 w1 where d2: "encode_drain env vs (s2, w2) = (s1, w1)" by fastforce
  obtain s' w' where f0: "fold (encode_entry env vs) es (s0, w0) = (s', w')" by fastforce
  have c: "au_cap_ring s' = au_cap_ring s" using fold_encode_cap_ring [of env vs es s0 w0] f0 c0 by simp
  from ih d2 f2 f0 have ih': "s1\<lparr>au_cap_ring := r\<rparr> = s'\<lparr>au_cap_ring := r\<rparr>" "w1 = w'" "audio_contents (au_cap_ring s1) = []" by simp_all
  have "s1\<lparr>au_cap_ring := au_cap_ring s\<rparr> = s1\<lparr>au_cap_ring := r\<rparr>\<lparr>au_cap_ring := au_cap_ring s\<rparr>" by simp
  also have "\<dots> = s'\<lparr>au_cap_ring := r\<rparr>\<lparr>au_cap_ring := au_cap_ring s\<rparr>" by (simp only: ih'(1))
  also have "\<dots> = s'" using c by (cases s') simp
  finally have "s1\<lparr>au_cap_ring := au_cap_ring s\<rparr> = s'" .
  with d d2 f0 e0 ih'(2,3) show ?case
    by (simp add: Cons.hyps(2) [symmetric])
qed


text \<open>Two G.711 frames left in the ring.\<close>

definition demo_audio :: audio_state where
  "demo_audio = audio_state_zero\<lparr>au_cap_ring := audio_ring_push ([3, 4], 2, 20) (audio_ring_push ([1, 2], 2, 10) audio_ring_init)\<rparr>"

lemma demo_audio_wf: "audio_wf (au_cap_ring demo_audio)"
  unfolding demo_audio_def by (simp add: audio_push_ok(1) audio_init_wf frame_ok_def)

definition demo_audio_env :: audio_env where
  "demo_audio_env = \<lparr>ae_lib_ok = True, ae_opus_ok = False, ae_capture_thread_ok = True, ae_encode_thread_ok = True,
     ae_rtp_seed = example_rtp, ae_opus_encode = (\<lambda>pcm n. (0, []))\<rparr>"

theorem encode_drain_handles_all_witness:
  "case encode_drain demo_audio_env (example_out, example_out, example_out) (demo_audio, example_os [True]) of (s1, w1) \<Rightarrow>
    audio_contents (au_cap_ring s1) = []
    \<and> (s1\<lparr>au_cap_ring := au_cap_ring demo_audio\<rparr>, w1)
        = fold (encode_entry demo_audio_env (example_out, example_out, example_out)) (audio_contents (au_cap_ring demo_audio))
            (demo_audio, example_os [True])"
  by (rule encode_drain_handles_all [OF demo_audio_wf])

subsection \<open>The device is up while it is kept\<close>

text \<open>What the calls that succeeded leave: device, channel, muted.\<close>

fun device_after :: "(ai_op \<times> int) list \<Rightarrow> bool \<times> bool \<times> bool \<Rightarrow> bool \<times> bool \<times> bool" where
  "device_after [] st = st"
| "device_after ((op, r) # ops) (d, c, m) = device_after ops
     (case op of EnableDevice \<Rightarrow> (d \<or> r = 0, c, m) | EnableChannel \<Rightarrow> (d, c \<or> r = 0, m)
      | DisableChannel \<Rightarrow> (d, False, m) | DisableDevice \<Rightarrow> (False, c, m)
      | SetMute b \<Rightarrow> (d, c, if r = 0 then b else m) | _ \<Rightarrow> (d, c, m))"

lemma device_after_append: "device_after (xs @ ys) st = device_after ys (device_after xs st)"
  by (induction xs st rule: device_after.induct) simp_all

definition dev_now :: "ai_dev \<Rightarrow> bool \<times> bool \<times> bool" where
  "dev_now d = device_after (ad_log d) (False, False, False)"

definition dev_up :: "ai_dev \<Rightarrow> bool \<times> bool" where
  "dev_up d = (case dev_now d of (x, y, z) \<Rightarrow> (x, y))"

lemma dev_call:
  "ai_call op d = (r, d') \<Longrightarrow> dev_now d' = device_after [(op, r)] (dev_now d)"
  by (auto simp: ai_call_def dev_now_def device_after_append split: list.splits)


text \<open>One call's effect on device and channel. To disable one is taken to succeed whatever the driver answers, as
  the code does, which looks at no such answer.\<close>

fun up_step :: "ai_op \<Rightarrow> int \<Rightarrow> bool \<times> bool \<Rightarrow> bool \<times> bool" where
  "up_step EnableDevice r (d, c) = (d \<or> r = 0, c)"
| "up_step EnableChannel r (d, c) = (d, c \<or> r = 0)"
| "up_step DisableChannel r (d, c) = (d, False)"
| "up_step DisableDevice r (d, c) = (False, c)"
| "up_step _ r (d, c) = (d, c)"

lemma dev_up_call: "dev_up (snd (ai_call op d)) = up_step op (fst (ai_call op d)) (dev_up d)"
proof -
  obtain r d' where c: "ai_call op d = (r, d')" by fastforce
  from dev_call [OF c] show ?thesis unfolding c by (cases "dev_now d"; cases op) (simp_all add: dev_up_def)
qed

lemma volume_keeps: "dev_up (volume_and_mute c d) = dev_up d"
  by (cases "dev_up d") (simp add: volume_and_mute_def Let_def dev_up_call)

lemma configure_keeps: "dev_up (snd (configure_ai_device s d)) = dev_up d"
  by (cases "dev_up d") (simp add: configure_ai_device_def Let_def dev_up_call case_prod_unfold)

text \<open>The flags of an instance say what is up.\<close>

definition flags_agree :: "audio_state \<Rightarrow> ai_dev \<Rightarrow> bool" where
  "flags_agree s d \<longleftrightarrow> dev_up d = (au_device_enabled s, au_channel_enabled s)"

lemma start_capture_agrees:
  assumes "start_ai_capture c (s, d) = (rc, s1, d1)" and "dev_up d = (False, False)"
    and "\<not> au_device_enabled s" "\<not> au_channel_enabled s"
  shows "flags_agree s1 d1 \<and> (rc = 0 \<longrightarrow> dev_up d1 = (True, True))"
  using assms unfolding start_ai_capture_def flags_agree_def case_prod_unfold
  by (auto simp: Let_def volume_keeps dev_up_call split: if_splits)

lemma shut_device_down:
  assumes "flags_agree s d"
  shows "dev_up (snd (audio_shut_device (s, d))) = (False, False)"
  using assms unfolding audio_shut_device_def flags_agree_def
  by (simp add: Let_def dev_up_call split_beta)

definition kept_iff_up :: "audio_world \<Rightarrow> bool" where
  "kept_iff_up w \<longleftrightarrow> dev_up (aw_dev w) = (aw_persist w, aw_persist w)"

lemma init_fail_kept:
  assumes "if aw_persist w then dev_up (aw_dev w) = (True, True) else flags_agree s (aw_dev w)"
  shows "kept_iff_up (snd (audio_init_fail (s, w)))" and "aw_persist (snd (audio_init_fail (s, w))) = aw_persist w"
    and "\<not> aw_filter (snd (audio_init_fail (s, w)))"
  using assms shut_device_down [of "s\<lparr>au_opus := False\<rparr>" "aw_dev w"]
  by (auto simp: audio_init_fail_def kept_iff_up_def flags_agree_def Let_def split: prod.splits)


lemma audio_start_flags:
  assumes "start_audio_output_and_thread env ou port pay (s, w) = (rc, s1, w1)" and "\<not> au_started s"
  shows "(rc = 0) = au_started s1 \<and> au_channel_enabled s1 = au_channel_enabled s \<and> au_device_enabled s1 = au_device_enabled s"
  using assms by (auto simp: start_audio_output_and_thread_def Let_def split: if_splits prod.splits)

lemma init_fail_started: "au_started (fst (audio_init_fail (s, w))) = au_started s"
  by (auto simp: audio_init_fail_def audio_shut_device_def Let_def split: prod.splits if_splits)

lemma finish_kept:
  assumes "aw_persist w" "dev_up (aw_dev w) = (True, True)" "au_channel_enabled s" "\<not> au_started s"
    and "finish_audio_init env vcfg ou (s, w) = (rc, s1, w1)"
  shows "rc = 0 \<and> kept_iff_up w1 \<and> aw_persist w1 \<and> (au_started s1 \<longrightarrow> au_channel_enabled s1)"
proof -
  obtain rc2 s2 os2 where st: "start_audio_output_and_thread env ou (out_audio_port (c_outgoing vcfg))
      (out_max_payload_size (c_outgoing vcfg)) (s, aw_os w) = (rc2, s2, os2)" by (metis prod_cases3)
  note fl = audio_start_flags [OF st assms(4)]
  show ?thesis
  proof (cases "rc2 = 0")
    case True
    with assms st fl show ?thesis by (auto simp: finish_audio_init_def kept_iff_up_def)
  next
    case False
    with assms st have r: "rc = 0" "(s1, w1) = audio_init_fail (s2, w\<lparr>aw_os := os2\<rparr>)"
      by (auto simp: finish_audio_init_def split: prod.splits)
    have "if aw_persist (w\<lparr>aw_os := os2\<rparr>) then dev_up (aw_dev (w\<lparr>aw_os := os2\<rparr>)) = (True, True) else flags_agree s2 (aw_dev (w\<lparr>aw_os := os2\<rparr>))"
      using assms by simp
    from init_fail_kept(1,2) [OF this] init_fail_started [of s2 "w\<lparr>aw_os := os2\<rparr>"] r assms(1) fl False show ?thesis
      by (cases "audio_init_fail (s2, w\<lparr>aw_os := os2\<rparr>)") auto
  qed
qed

lemma audio_init_kept:
  assumes "kept_iff_up w" and "star6e_audio_init env vcfg output w = (rc, s, w')"
  shows "rc = 0 \<and> kept_iff_up w' \<and> (au_started s \<longrightarrow> aw_persist w' \<and> au_channel_enabled s)"
proof (cases "output = None \<or> \<not> aud_enabled (c_audio vcfg)")
  case True
  with assms show ?thesis by (auto simp: star6e_audio_init_def audio_state_zero_def split: option.splits)
next
  case False
  then obtain ou where ou: "output = Some ou" "aud_enabled (c_audio vcfg)" by auto
  define c where "c = c_audio vcfg"
  define codec where "codec = (if audio_codec_from_name (aud_codec c) = OPUS \<and> \<not> ae_opus_ok env then PCM else audio_codec_from_name (aud_codec c))"
  define s0 where "s0 = audio_state_zero\<lparr>au_sample_rate := aud_sample_rate c, au_channels := aud_channels c, au_codec := codec, au_opus := (codec = OPUS)\<rparr>"
  define w0 where "w0 = w\<lparr>aw_filter := True\<rparr>"
  have s0: "\<not> au_started s0" "\<not> au_device_enabled s0" "\<not> au_channel_enabled s0" by (simp_all add: s0_def audio_state_zero_def)
  have init: "star6e_audio_init env vcfg output w = (if aw_persist w0
      then finish_audio_init env vcfg ou (s0\<lparr>au_lib_loaded := True, au_device_enabled := True, au_channel_enabled := True\<rparr>,
             w0\<lparr>aw_dev := volume_and_mute c (aw_dev w0)\<rparr>)
      else if \<not> ae_lib_ok env then (0, s0, w0\<lparr>aw_filter := False\<rparr>)
      else case configure_ai_device s0 (aw_dev w0) of (rc, d1) \<Rightarrow>
        if rc \<noteq> 0 then (0, audio_init_fail (s0\<lparr>au_lib_loaded := True\<rparr>, w0\<lparr>aw_dev := d1\<rparr>))
        else case start_ai_capture c (s0\<lparr>au_lib_loaded := True\<rparr>, d1) of (rc2, s2, d2) \<Rightarrow>
          if rc2 \<noteq> 0 then (0, audio_init_fail (s2, w0\<lparr>aw_dev := d2\<rparr>))
          else finish_audio_init env vcfg ou (s2, w0\<lparr>aw_dev := d2, aw_persist := True\<rparr>))"
    using ou unfolding star6e_audio_init_def Let_def c_def [symmetric] codec_def [symmetric] s0_def [symmetric] w0_def [symmetric]
    by simp
  have k: "dev_up (aw_dev w0) = (aw_persist w0, aw_persist w0)" using assms(1) by (simp add: kept_iff_up_def w0_def)
  show ?thesis
  proof (cases "aw_persist w0")
    case True
    with assms(2) init have "finish_audio_init env vcfg ou (s0\<lparr>au_lib_loaded := True, au_device_enabled := True, au_channel_enabled := True\<rparr>,
      w0\<lparr>aw_dev := volume_and_mute c (aw_dev w0)\<rparr>) = (rc, s, w')" by simp
    from finish_kept [OF _ _ _ _ this] True k s0 show ?thesis by (simp add: volume_keeps)
  next
    case np: False
    show ?thesis
    proof (cases "ae_lib_ok env")
      case False
      with np init assms s0 show ?thesis by (auto simp: kept_iff_up_def w0_def)
    next
      case True
      obtain rc1 d1 where cf: "configure_ai_device s0 (aw_dev w0) = (rc1, d1)" by fastforce
      have d1: "dev_up d1 = (False, False)" using configure_keeps [of s0 "aw_dev w0"] cf k np by simp
      let ?s1 = "s0\<lparr>au_lib_loaded := True\<rparr>"
      obtain rc2 s2 d2 where st: "start_ai_capture c (?s1, d1) = (rc2, s2, d2)" by (metis prod_cases3)
      have sc: "flags_agree s2 d2 \<and> (rc2 = 0 \<longrightarrow> dev_up d2 = (True, True))"
        using start_capture_agrees [OF st d1] s0 by simp
      have s2: "\<not> au_started s2" using st s0 by (auto simp: start_ai_capture_def Let_def split: prod.splits if_splits)
      have fail: ?thesis if e: "(rc, s, w') = (0, audio_init_fail (t, w0\<lparr>aw_dev := d\<rparr>))" and "flags_agree t d" "\<not> au_started t" for t d
        using that init_fail_kept [of "w0\<lparr>aw_dev := d\<rparr>" t] np init_fail_started [of t "w0\<lparr>aw_dev := d\<rparr>"]
        by (cases "audio_init_fail (t, w0\<lparr>aw_dev := d\<rparr>)") auto
      consider "rc1 \<noteq> 0" | "rc1 = 0" "rc2 \<noteq> 0" | "rc1 = 0" "rc2 = 0" by blast
      then show ?thesis
      proof cases
        case 1
        with np True init cf assms(2) have "(rc, s, w') = (0, audio_init_fail (?s1, w0\<lparr>aw_dev := d1\<rparr>))" by simp
        moreover have "flags_agree ?s1 d1" "\<not> au_started ?s1" using d1 s0 by (simp_all add: flags_agree_def)
        ultimately show ?thesis by (rule fail)
      next
        case 2
        with np True init cf st assms(2) have "(rc, s, w') = (0, audio_init_fail (s2, w0\<lparr>aw_dev := d2\<rparr>))" by simp
        with sc s2 show ?thesis by (intro fail) auto
      next
        case 3
        with np True init cf st assms(2) have
          "finish_audio_init env vcfg ou (s2, w0\<lparr>aw_dev := d2, aw_persist := True\<rparr>) = (rc, s, w')" by simp
        from finish_kept [OF _ _ _ _ this] sc 3 s2 show ?thesis by (auto simp: flags_agree_def)
      qed
    qed
  qed
qed

lemma audio_teardown_kept:
  assumes "kept_iff_up w"
  shows "kept_iff_up (snd (star6e_audio_teardown env vs (s, w))) \<and> \<not> aw_filter (snd (star6e_audio_teardown env vs (s, w)))"
  using assms
  by (auto simp: star6e_audio_teardown_def kept_iff_up_def audio_shut_device_def Let_def dev_up_call
      split: prod.splits if_splits)

text \<open>Starts and tear-downs, one after the other.\<close>

type_synonym audio_session = "audio_env \<times> venc_config \<times> out_state option \<times> out_state \<times> out_state \<times> out_state"

fun audio_sessions :: "audio_session list \<Rightarrow> audio_world \<Rightarrow> audio_world" where
  "audio_sessions [] w = w"
| "audio_sessions ((env, vcfg, ou, vs) # xs) w =
     (case star6e_audio_init env vcfg ou w of (rc, s, w1) \<Rightarrow> audio_sessions xs (snd (star6e_audio_teardown env vs (s, w1))))"

text \<open>Property C36. The audio device is up exactly while it is kept for the next start: whatever the calls
  of the library answer, a start that fails before the device is kept takes down what it had
  brought up, and neither a later failed start nor a tear-down takes a kept device down.\<close>

theorem audio_device_kept:
  assumes "kept_iff_up w"
  shows "kept_iff_up (audio_sessions sessions w)
    \<and> (case star6e_audio_init env vcfg output (audio_sessions sessions w) of (rc, s, w') \<Rightarrow>
         rc = 0 \<and> kept_iff_up w' \<and> (au_started s \<longrightarrow> aw_persist w' \<and> au_channel_enabled s))"
proof -
  have k: "kept_iff_up (audio_sessions sessions w)" using assms
  proof (induction sessions w rule: audio_sessions.induct)
    case (2 env vcfg ou vs xs w)
    obtain rc s w1 where i: "star6e_audio_init env vcfg ou w = (rc, s, w1)" by (metis prod_cases3)
    from audio_init_kept [OF "2.prems" i] audio_teardown_kept [of w1 env vs s] "2.IH" [OF i [symmetric] refl] i show ?case by simp
  qed simp
  then show ?thesis using audio_init_kept [OF k] by (auto split: prod.splits)
qed

text \<open>The channel cannot be enabled at first, then everything works.\<close>

definition demo_audio_world :: audio_world where
  "demo_audio_world = \<lparr>aw_persist = False, aw_dev = \<lparr>ad_results = [0, 0, 0, -1, 0, 0, 0, 0, 0, 0], ad_log = []\<rparr>,
     aw_os = example_os [], aw_filter = False\<rparr>"

definition demo_audio_config :: venc_config where
  "demo_audio_config = c_audio_update (aud_enabled_update (\<lambda>_. True) \<circ> aud_mute_update (\<lambda>_. True)) venc_config_defaults"

theorem audio_device_kept_witness:
  "kept_iff_up (audio_sessions [(demo_audio_env, demo_audio_config, Some example_out, example_out, example_out, example_out)] demo_audio_world)
    \<and> (case star6e_audio_init demo_audio_env demo_audio_config (Some example_out)
           (audio_sessions [(demo_audio_env, demo_audio_config, Some example_out, example_out, example_out, example_out)] demo_audio_world)
         of (rc, s, w') \<Rightarrow> rc = 0 \<and> kept_iff_up w' \<and> (au_started s \<longrightarrow> aw_persist w' \<and> au_channel_enabled s))"
proof (rule audio_device_kept)
  show "kept_iff_up demo_audio_world" by (simp add: kept_iff_up_def demo_audio_world_def dev_up_def dev_now_def)
qed

text \<open>A kept device is never told to unmute: when the configuration that is loaded again no longer asks
  for silence, the device stays silent.\<close>

lemma audio_reinit_stays_muted:
  assumes "aw_persist w" and "snd (snd (dev_now (aw_dev w)))"
    and "aud_enabled (c_audio vcfg)" and "\<not> aud_mute (c_audio vcfg)"
  shows "snd (snd (dev_now (aw_dev (snd (snd (star6e_audio_init env vcfg (Some ou) w))))))"
proof -
  obtain x y z where d: "dev_now (aw_dev w) = (x, y, z)" by (cases "dev_now (aw_dev w)")
  have v: "snd (snd (dev_now (snd (ai_call (SetVolume n) (aw_dev w)))))" for n
    using dev_call [of "SetVolume n" "aw_dev w"] assms(2) d by (cases "ai_call (SetVolume n) (aw_dev w)") simp
  have f: "aw_dev (snd (snd (finish_audio_init env vcfg ou (s, w1)))) = aw_dev w1" if "aw_persist w1" for s w1
    using that by (auto simp: finish_audio_init_def audio_init_fail_def Let_def split: prod.splits)
  show ?thesis using assms(1,3,4) v by (simp add: star6e_audio_init_def Let_def f volume_and_mute_def)
qed

subsection \<open>The filter drops whole lines\<close>

lemma filter_chars_append:
  "filter_chars line (a @ b) = (case filter_chars line a of (l, out) \<Rightarrow> case filter_chars l b of (l', out') \<Rightarrow> (l', out @ out'))"
  by (induction a arbitrary: line) (auto split: prod.splits)

definition filter_whole :: "string \<Rightarrow> string \<Rightarrow> string" where
  "filter_whole line s = (case filter_chars line s of (l, out) \<Rightarrow> out @ (if l \<noteq> [] \<and> hd l \<noteq> CHR 0x1B then l else []))"

lemma filter_chunks: "stdout_filter_fn line chunks = filter_whole line (concat chunks)"
  by (induction chunks arbitrary: line) (auto simp: filter_whole_def filter_chars_append split: prod.splits)

lemma text_lines_start:
  assumes "CHR 0x0A \<notin> set line"
  shows "text_lines (line @ CHR 0x0A # cs) = (line @ [CHR 0x0A]) # text_lines cs"
  using assms by (induction line) auto

lemma text_lines_one: "CHR 0x0A \<notin> set line \<Longrightarrow> line \<noteq> [] \<Longrightarrow> text_lines line = [line]"
proof (induction line)
  case (Cons c cs)
  then show ?case by (cases cs) auto
qed simp

lemma text_lines_nonempty: "l \<in> set (text_lines s) \<Longrightarrow> l \<noteq> []"
  by (induction s rule: text_lines.induct) (auto split: if_splits list.splits)

lemma text_lines_none [simp]: "text_lines cs = [] \<longleftrightarrow> cs = []"
  by (cases cs) (auto split: list.splits)

lemma text_lines_join: "CHR 0x0A \<notin> set l \<Longrightarrow> l \<noteq> [] \<Longrightarrow> cs \<noteq> [] \<Longrightarrow>
    \<exists>x xs. text_lines cs = x # xs \<and> text_lines (l @ cs) = (l @ x) # xs"
proof (induction l)
  case (Cons c l)
  show ?case
  proof (cases "l = []")
    case True
    obtain x xs where "text_lines cs = x # xs" using Cons.prems(3) by (cases "text_lines cs") auto
    then show ?thesis using True Cons.prems by auto
  next
    case False
    then obtain x xs where "text_lines cs = x # xs" "text_lines (l @ cs) = (l @ x) # xs" using Cons by auto
    then show ?thesis using Cons.prems False by auto
  qed
qed simp

text \<open>A buffer holds 1023 characters: longer lines come in pieces.\<close>

fun buffered :: "string \<Rightarrow> string list" where
  "buffered l = (if length l \<le> 1023 then [l] else take 1023 l # buffered (drop 1023 l))"

declare buffered.simps [simp del]

definition buffered_lines :: "string \<Rightarrow> string list" where
  "buffered_lines s = concat (map buffered (text_lines s))"

definition kept :: "string list \<Rightarrow> string" where
  "kept ls = concat (filter (\<lambda>l. hd l \<noteq> CHR 0x1B) ls)"

lemma kept_simps [simp]: "kept [] = []" "kept (l # ls) = (if hd l \<noteq> CHR 0x1B then l else []) @ kept ls"
  by (simp_all add: kept_def)

lemma buffered_short: "length l \<le> 1023 \<Longrightarrow> buffered l = [l]"
  by (simp add: buffered.simps)

lemma buffered_lines_full:
  assumes "CHR 0x0A \<notin> set l" and "length l = 1023"
  shows "buffered_lines (l @ cs) = l # buffered_lines cs"
proof (cases "cs = []")
  case True
  moreover have "l \<noteq> []" using assms(2) by auto
  ultimately show ?thesis using assms text_lines_one [of l] by (simp add: buffered_lines_def buffered_short)
next
  case False
  have "l \<noteq> []" using assms(2) by auto
  with text_lines_join [OF assms(1) _ False] obtain x xs
    where t: "text_lines cs = x # xs" "text_lines (l @ cs) = (l @ x) # xs" by blast
  have "x \<noteq> []" using text_lines_nonempty [of x cs] t(1) by simp
  then have "buffered (l @ x) = l # buffered x" using assms(2) by (subst buffered.simps) simp
  then show ?thesis by (simp add: buffered_lines_def t)
qed

lemma filter_whole_lines:
  assumes "CHR 0x0A \<notin> set line" "length line < 1023"
  shows "filter_whole line s = kept (buffered_lines (line @ s))"
  using assms
proof (induction s arbitrary: line)
  case Nil
  then show ?case by (cases "line = []") (auto simp: filter_whole_def buffered_lines_def text_lines_one buffered_short)
next
  case (Cons c cs)
  let ?l = "line @ [c]"
  have ih: "filter_whole [] cs = kept (buffered_lines cs)" using Cons.IH [of "[]"] by simp
  show ?case
  proof (cases "c = CHR 0x0A")
    case True
    have tl: "text_lines (line @ c # cs) = ?l # text_lines cs" using Cons.prems(1) True by (simp add: text_lines_start)
    have "buffered ?l = [?l]" using Cons.prems(2) by (intro buffered_short) simp
    then show ?thesis using True tl Cons.prems(2) ih
      by (auto simp: filter_whole_def buffered_lines_def filter_char_def split: prod.splits)
  next
    case nl: False
    show ?thesis
    proof (cases "length ?l = 1023")
      case True
      have "buffered_lines (?l @ cs) = ?l # buffered_lines cs"
        using Cons.prems(1) nl True by (intro buffered_lines_full) auto
      then show ?thesis using True nl Cons.prems(2) ih
        by (auto simp: filter_whole_def filter_char_def split: prod.splits)
    next
      case short: False
      have "filter_whole ?l cs = kept (buffered_lines (?l @ cs))" using Cons.prems nl short by (intro Cons.IH) auto
      then show ?thesis using short nl Cons.prems(2) by (auto simp: filter_whole_def filter_char_def split: prod.splits)
    qed
  qed
qed

lemma short_lines_plain: "\<forall>l \<in> set (text_lines s). length l \<le> 1023 \<Longrightarrow> kept (buffered_lines s) = plain_lines s"
proof -
  have "kept (concat (map buffered ls)) = concat (filter (\<lambda>l. hd l \<noteq> CHR 0x1B) ls)" if "\<forall>l \<in> set ls. length l \<le> 1023" for ls
    using that by (induction ls) (auto simp: buffered_short)
  then show "\<forall>l \<in> set (text_lines s). length l \<le> 1023 \<Longrightarrow> kept (buffered_lines s) = plain_lines s"
    by (simp add: buffered_lines_def plain_lines_def)
qed

text \<open>Property C39. The filter over the standard output cuts the text into its lines, and a line that does not fit the buffer
  into pieces of 1023 characters, and passes on, whole and in order, exactly those that do not begin with an escape, however the
  pipe cuts the text. Where every line fits that is all lines but those that begin with an escape; of a longer line
  that begins with one everything behind its first 1023 characters gets through (shown below).\<close>

theorem stdout_filter_lines:
  "stdout_filter_fn [] chunks = kept (buffered_lines (concat chunks))
   \<and> ((\<forall>l \<in> set (text_lines (concat chunks)). length l \<le> 1023) \<longrightarrow> stdout_filter_fn [] chunks = plain_lines (concat chunks))"
  using filter_whole_lines [of "[]" "concat chunks"] short_lines_plain [of "concat chunks"] by (simp add: filter_chunks)

theorem stdout_filter_lines_witness:
  "stdout_filter_fn [] [[CHR 0x1B, CHR ''x''], CHR 0x0A # ''a'', ''b'' @ [CHR 0x0A]]
     = plain_lines (concat [[CHR 0x1B, CHR ''x''], CHR 0x0A # ''a'', ''b'' @ [CHR 0x0A]])
   \<and> plain_lines [CHR 0x1B, CHR ''x'', CHR 0x0A, CHR ''a'', CHR ''b'', CHR 0x0A] = [CHR ''a'', CHR ''b'', CHR 0x0A]"
  using conjunct2 [OF stdout_filter_lines, of "[[CHR 0x1B, CHR ''x''], CHR 0x0A # ''a'', ''b'' @ [CHR 0x0A]]"]
  by (simp add: plain_lines_def del: stdout_filter_fn.simps)

lemma long_escape_line_leaks:
  assumes "length l = 1022" and "CHR 0x0A \<notin> set l"
  shows "stdout_filter_fn [] [CHR 0x1B # l @ [CHR ''x'', CHR 0x0A]] = [CHR ''x'', CHR 0x0A]"
proof -
  have "buffered_lines ((CHR 0x1B # l) @ [CHR ''x'', CHR 0x0A]) = (CHR 0x1B # l) # buffered_lines [CHR ''x'', CHR 0x0A]"
    using assms by (intro buffered_lines_full) auto
  moreover have "buffered_lines [CHR ''x'', CHR 0x0A] = [[CHR ''x'', CHR 0x0A]]" by (simp add: buffered_lines_def buffered_short)
  ultimately show ?thesis using filter_whole_lines [of "[]" "CHR 0x1B # l @ [CHR ''x'', CHR 0x0A]"] by (simp add: filter_chunks)
qed

end
