(* ===== verification/DeviceContract.thy ===== *)
theory DeviceContract imports ApiSet begin

text \<open>
  What the settings API promises a backend about its device: a set request, with whatever groups,
  rollbacks and refusals, only does to the device what the callbacks do. A property that every callback
  keeps is kept by every request.
\<close>

definition keeps :: "('a, 'w) callback \<Rightarrow> ('w \<Rightarrow> bool) \<Rightarrow> bool" where
  "keeps f P \<longleftrightarrow> (case f of None \<Rightarrow> True | Some g \<Rightarrow> \<forall>cfg x w. P w \<longrightarrow> P (snd (g cfg x w)))"

locale settings_contract =
  fixes cb :: "'w callbacks" and P :: "'w \<Rightarrow> bool"
  assumes bitrate: "keeps (cb_bitrate cb) P" and fps: "keeps (cb_fps cb) P" and gop: "keeps (cb_gop cb) P"
    and qp_delta: "keeps (cb_qp_delta cb) P" and roi_qp: "keeps (cb_roi_qp cb) P" and exposure: "keeps (cb_exposure cb) P"
    and gain_max: "keeps (cb_gain_max cb) P" and awb_mode: "keeps (cb_awb_mode cb) P" and verbose: "keeps (cb_verbose cb) P"
    and output_enabled: "keeps (cb_output_enabled cb) P" and server: "keeps (cb_server cb) P" and mute: "keeps (cb_mute cb) P"
begin

lemmas callbacks_keep = bitrate fps gop qp_delta roi_qp exposure gain_max awb_mode verbose output_enabled server mute

lemma call_keeps: "keeps f P \<Longrightarrow> call f x s = (rc, s') \<Longrightarrow> P (a_dev s) \<Longrightarrow> P (a_dev s')"
proof (cases f)
  case (Some g)
  assume k: "keeps f P" and c: "call f x s = (rc, s')" and p: "P (a_dev s)"
  obtain r w where g: "g (a_cfg s) x (a_dev s) = (r, w)" by (metis surj_pair)
  have "P (snd (g (a_cfg s) x (a_dev s)))" using k p by (simp add: keeps_def Some)
  then show ?thesis using c by (auto simp: call_def Some g)
qed (simp add: call_def)

lemma call_both_keeps: "keeps f P \<Longrightarrow> keeps g P \<Longrightarrow> call_both f x g y s = (rc, s') \<Longrightarrow> P (a_dev s) \<Longrightarrow> P (a_dev s')"
  by (auto simp: call_both_def split: prod.splits if_splits dest!: call_keeps [rotated])

lemma apply_keeps:
  assumes "e_cb env = Some cb" and "apply_live_group_for_cfg env cfg g t s = (rc, s')" and "P (a_dev s)"
  shows "P (a_dev s')"
proof -
  have p: "P (a_dev (commit_config_locked cfg s))" using assms(3) by (simp add: commit_config_locked_def)
  show ?thesis
    using assms(2) p
    by (cases g)
      (auto simp: apply_live_group_for_cfg_def assms(1) Let_def split: if_splits prod.splits
        dest: call_keeps [OF callbacks_keep(1)] call_keeps [OF callbacks_keep(2)] call_keeps [OF callbacks_keep(3)]
          call_keeps [OF callbacks_keep(4)] call_keeps [OF callbacks_keep(5)] call_keeps [OF callbacks_keep(6)]
          call_keeps [OF callbacks_keep(7)] call_keeps [OF callbacks_keep(8)] call_keeps [OF callbacks_keep(9)]
          call_keeps [OF callbacks_keep(10)] call_keeps [OF callbacks_keep(11)] call_keeps [OF callbacks_keep(12)]
          call_both_keeps [OF callbacks_keep(10,11)] call_both_keeps [OF callbacks_keep(11,10)])
qed

lemma rollback_group_keeps:
  assumes "e_cb env = Some cb" and "rollback_group env t old g (i, a, s) = (i', a', s')" and "P (a_dev s)"
  shows "P (a_dev s')"
  using assms(2,3) apply_keeps [OF assms(1)]
  by (fastforce simp: rollback_group_def Let_def commit_config_locked_def split: if_splits prod.splits)

lemma rollback_fold_keeps:
  assumes "e_cb env = Some cb" and "fold (rollback_group env t old) gs (i, a, s) = (i', a', s')" and "P (a_dev s)"
  shows "P (a_dev s')"
  using assms(2,3)
proof (induction gs arbitrary: i a s)
  case (Cons g gs)
  obtain i1 a1 s1 where r: "rollback_group env t old g (i, a, s) = (i1, a1, s1)" by (metis prod_cases3)
  with Cons show ?case using rollback_group_keeps [OF assms(1) r] by simp
qed simp

lemma rollback_keeps:
  assumes "e_cb env = Some cb" and "rollback_live_groups env gs (Some g) t old a s = (i', a', s')" and "P (a_dev s)"
  shows "P (a_dev s')"
proof -
  obtain i1 a1 s1 where r: "rollback_group env t old g (False, a, s) = (i1, a1, s1)" by (metis prod_cases3)
  then have "fold (rollback_group env t old) (rev gs) (i1, a1, s1) = (i', a', s')"
    using assms(2) by (simp add: rollback_live_groups_def)
  from rollback_fold_keeps [OF assms(1) this] rollback_group_keeps [OF assms(1) r] assms(3) show ?thesis by simp
qed

lemma sequence_keeps:
  assumes "e_cb env = Some cb"
  shows "apply_live_group_sequence_locked env applied gs t old new actual s = (r, actual', s') \<Longrightarrow> P (a_dev s) \<Longrightarrow> P (a_dev s')"
proof (induction gs arbitrary: applied actual s)
  case (Cons g gs)
  define c where "c = build_live_group_config actual new g t"
  obtain rc s1 where 1: "apply_live_group_for_cfg env c g t s = (rc, s1)" by (metis surj_pair)
  have p1: "P (a_dev s1)" by (rule apply_keeps [OF assms 1 Cons.prems(2)])
  show ?case
  proof (cases "rc = 0")
    case True
    then show ?thesis using Cons.IH [OF _ p1] Cons.prems(1) 1 by (simp add: c_def [symmetric] Let_def)
  next
    case False
    obtain i a s2 where 2: "rollback_live_groups env applied (Some g) t old actual (commit_config_locked actual s1) = (i, a, s2)"
      by (metis prod_cases3)
    have "P (a_dev s2)" using rollback_keeps [OF assms 2] p1 by (simp add: commit_config_locked_def)
    then show ?thesis using False Cons.prems(1) 1 2 by (auto simp: c_def [symmetric] Let_def commit_config_locked_def)
  qed
qed simp

lemma live_set_keeps:
  assumes "e_cb env = Some cb" and "apply_live_set_query env params single s = (r, s')" and "P (a_dev s)"
  shows "P (a_dev s')"
  using assms(2,3)
  by (auto simp: apply_live_set_query_def Let_def commit_config_locked_def dest: sequence_keeps [OF assms(1)]
      split: sum.splits prod.splits option.splits)

lemma restart_keeps: "process_restart_set_query env p s = (r, s') \<Longrightarrow> a_dev s' = a_dev s"
  by (auto simp: process_restart_set_query_def venc_api_request_reinit_def split: sum.splits if_splits)

lemma set_query_keeps:
  assumes "e_cb env = Some cb" and "process_set_query env query s = (r, s')" and "P (a_dev s)"
  shows "P (a_dev s')"
proof -
  have single: "P (a_dev s')" if "process_single_set_query env query s = (r, s')" for r s'
    using that assms(3) live_set_keeps [OF assms(1)]
    by (auto simp: process_single_set_query_def Let_def split: option.splits prod.splits sum.splits if_splits dest!: restart_keeps)
  show ?thesis
    using assms(2,3) single live_set_keeps [OF assms(1)]
    by (auto simp: process_set_query_def process_multi_live_set_query_def split: if_splits sum.splits)
qed

end

end
