(* ===== verification/ServerContract.thy ===== *)
theory ServerContract imports DeviceContract ApiServer begin

text \<open>
  The whole HTTP interface as a client of the backend: besides the settings, the requests for key frames,
  image-quality parameters and the second channel reach the device. A property all of these keep
  is kept by every handler.
\<close>

definition keeps_dev :: "('w \<Rightarrow> 'r \<times> 'w) \<Rightarrow> ('w \<Rightarrow> bool) \<Rightarrow> bool" where
  "keeps_dev f P \<longleftrightarrow> (\<forall>w. P w \<longrightarrow> P (snd (f w)))"

locale server_contract = settings_contract cb P for cb :: "'w callbacks" and P +
  fixes lib :: "'w api_lib"
  assumes idr: "al_idr lib = Some f \<Longrightarrow> keeps_dev f P"
    and iq_param: "al_iq_param lib = Some g \<Longrightarrow> keeps_dev (g k v) P"
    and iq_import: "keeps_dev (al_iq_import lib body) P"
    and get_attr: "keeps_dev (vd_get_attr (al_driver lib) c) P"
    and set_attr: "keeps_dev (vd_set_attr (al_driver lib) c a) P"
    and frame_lost: "keeps_dev (vd_frame_lost (al_driver lib) c on kbps) P"
    and request_idr: "keeps_dev (vd_request_idr (al_driver lib) c) P"
begin

lemma on_device_keeps: "keeps_dev f P \<Longrightarrow> on_device f s = (r, s') \<Longrightarrow> P (a_dev (sv_api s)) \<Longrightarrow> P (a_dev (sv_api s'))"
  by (auto simp: keeps_dev_def on_device_def split: prod.splits)

lemma dual_bitrate_keeps:
  assumes "dual_apply_bitrate (al_driver lib) k s = (r, s')" and "P (a_dev (sv_api s))"
  shows "P (a_dev (sv_api s'))"
proof -
  define kbps where "kbps = (if k > 200000 then 200000 else k)"
  obtain rc a s1 where 1: "on_device (vd_get_attr (al_driver lib) (sv_dual_channel s)) s = ((rc, a), s1)" by (metis surj_pair)
  obtain r2 s2 where 2: "on_device (vd_set_attr (al_driver lib) (sv_dual_channel s1) (a\<lparr>ca_bits := kbps * 1024\<rparr>)) s1 = (r2, s2)"
    by (metis surj_pair)
  obtain r3 s3 where 3: "on_device (vd_frame_lost (al_driver lib) (sv_dual_channel s2) (sv_dual_frame_lost s2) kbps) s2 = (r3, s3)"
    by (metis surj_pair)
  have p1: "P (a_dev (sv_api s1))" by (rule on_device_keeps [OF get_attr 1 assms(2)])
  have p2: "P (a_dev (sv_api s2))" by (rule on_device_keeps [OF set_attr 2 p1])
  have p3: "P (a_dev (sv_api s3))" by (rule on_device_keeps [OF frame_lost 3 p2])
  have "s' = s1 \<or> s' = s2 \<or> s' = s3 \<or> s' = s3\<lparr>sv_dual_bitrate := kbps\<rparr>"
    using assms(1) unfolding dual_apply_bitrate_def Let_def kbps_def [symmetric] 1 prod.case 2 3 by (auto split: if_splits)
  then show ?thesis using p1 p2 p3 by auto
qed

lemma dual_gop_keeps:
  assumes "dual_apply_gop (al_driver lib) g s = (r, s')" and "P (a_dev (sv_api s))"
  shows "P (a_dev (sv_api s'))"
proof -
  obtain rc a s1 where 1: "on_device (vd_get_attr (al_driver lib) (sv_dual_channel s)) s = ((rc, a), s1)" by (metis surj_pair)
  obtain r2 s2 where 2: "on_device (vd_set_attr (al_driver lib) (sv_dual_channel s1) (a\<lparr>ca_gop := g\<rparr>)) s1 = (r2, s2)" by (metis surj_pair)
  have p1: "P (a_dev (sv_api s1))" by (rule on_device_keeps [OF get_attr 1 assms(2)])
  have p2: "P (a_dev (sv_api s2))" by (rule on_device_keeps [OF set_attr 2 p1])
  have "s' = s1 \<or> s' = s2 \<or> s' = s2\<lparr>sv_dual_gop := g\<rparr>"
    using assms(1) unfolding dual_apply_gop_def 1 prod.case 2 by (auto split: if_splits)
  then show ?thesis using p1 p2 by auto
qed

lemma iq_keeps:
  "handle_iq_set lib q s = (r, s') \<Longrightarrow> P (a_dev (sv_api s)) \<Longrightarrow> P (a_dev (sv_api s'))"
  "handle_iq_import lib b s = (r, s') \<Longrightarrow> P (a_dev (sv_api s)) \<Longrightarrow> P (a_dev (sv_api s'))"
  "handle_idr lib s = (r, s') \<Longrightarrow> P (a_dev (sv_api s)) \<Longrightarrow> P (a_dev (sv_api s'))"
  by (auto simp: handle_iq_set_def handle_iq_import_def handle_idr_def Let_def split: prod.splits if_splits option.splits
      dest: on_device_keeps [OF iq_param] on_device_keeps [OF iq_import] on_device_keeps [OF idr])

lemma dual_keeps:
  "handle_dual_set env lib q s = (r, s') \<Longrightarrow> P (a_dev (sv_api s)) \<Longrightarrow> P (a_dev (sv_api s'))"
  "handle_dual_idr lib s = (r, s') \<Longrightarrow> P (a_dev (sv_api s)) \<Longrightarrow> P (a_dev (sv_api s'))"
  by (auto simp: handle_dual_set_def handle_dual_idr_def Let_def split: prod.splits if_splits
      dest: dual_bitrate_keeps dual_gop_keeps on_device_keeps [OF request_idr])

lemma record_keeps:
  "handle_record_start q s = (r, s') \<Longrightarrow> a_dev (sv_api s') = a_dev (sv_api s)"
  "handle_record_stop s = (r, s') \<Longrightarrow> a_dev (sv_api s') = a_dev (sv_api s)"
  by (auto simp: handle_record_start_def handle_record_stop_def venc_api_request_record_start_def venc_api_request_record_stop_def
      Let_def split: prod.splits if_splits option.splits)

lemma handler_keeps:
  assumes "e_cb env = Some cb" and "run_handler env lib h req s = (r, s')" and "P (a_dev (sv_api s))"
  shows "P (a_dev (sv_api s'))"
proof (cases h)
  case A_set
  obtain ans a where p: "process_set_query env (hr_query req) (sv_api s) = (ans, a)" by fastforce
  then show ?thesis using set_query_keeps [OF assms(1) p assms(3)] assms(2) A_set by (auto simp: run_handler_def)
qed (use assms(2,3) in \<open>auto simp: run_handler_def handle_restart_def venc_api_request_reinit_def split: prod.splits if_splits
      dest: iq_keeps dual_keeps record_keeps\<close>)

end

end
