(* ===== verification/MiDevice.thy ===== *)
theory MiDevice imports PipelineCommon H26x begin

text \<open>
  The camera's driver as the program sees it: the calls it makes, in order, with the results they get,
  and what is up after a log of calls. The SDK's code is not in the sources; what is relied on is
  documented behaviour: a call that brings something up does so when it returns 0, and the calls
  that take something down are not checked by the program and take effect.
\<close>

subsection \<open>Calls\<close>

text \<open>The first module of the driver's enumeration is what a zeroed port names.\<close>

datatype mi_module = IVE | VIF | VPE | VENC

type_synonym mi_port = "mi_module \<times> u32 \<times> int"

datatype rate_mode = RATE_CBR | RATE_VBR | RATE_AVBR | RATE_NONE

record venc_attr =
  va_codec :: payload_type
  va_width :: u32
  va_height :: u32
  va_mode :: rate_mode
  va_gop :: u32
  va_fps :: u32
  va_bitrate :: u32
  va_max_qual :: nat
  va_min_qual :: nat

record roi_cfg =
  roi_index :: nat
  roi_enable :: bool
  roi_qp :: int
  roi_left :: u32
  roi_width :: u32
  roi_height :: u32

datatype mi_op =
    SnrDisable int | SnrSetPlane int | SnrCust int u32 u16 u16 int | SnrSetRes int int | SnrSetFps int u32
  | SnrEnable int | SnrPadInfo int | SnrPlaneInfo int
  | VifSetDev | VifEnableDev | VifSetPort precrop_rect | VifEnablePort | VifDisablePort | VifDisableDev
  | VpeGetAttr | VpeCreate u16 u16 int | VpeSetParam int bool bool | VpeStart | VpeSetMode u32 u32
  | VpeEnablePort | VpeDisablePort | VpeStop | VpeDestroy
  | VencCreate int venc_attr | VencStart int | VencStop int | VencDestroy int | VencDevid int | VencLost int u32
  | SysBind mi_port mi_port u32 u32 | SysUnbind mi_port mi_port | SysDepth mi_port nat nat
  | IspWait | IspCap u32 u32 | IspLoad string | IspCus3a | Clocks int
  | AudioUp | AudioDown | ImuInit | ImuStart | ImuStop | ImuDestroy | EisCreate | EisDestroy | EisActive
  | OsdCreate | OsdDestroy | VencDrain int | ThreadJoin | DualUnregister
  | VencGetAttr int | VencSetAttr int venc_attr | VencGetRc int | VencSetRc int int | VencIdr int | VencRoi int roi_cfg
  | VencQuery int | VencGetStream int | VencRelease int
  | IspOpen | IspSymbol string | AwbGet | AwbSet bool | AwbTemperature u32 | Program string

record mi_dev =
  md_results :: "int list"
  md_log :: "(mi_op \<times> int) list"

text \<open>A call gets the next result; when they are used up calls fail.\<close>

definition mi_call :: "mi_op \<Rightarrow> mi_dev \<Rightarrow> int \<times> mi_dev" where
  "mi_call op d = (case md_results d of
     [] \<Rightarrow> (-1, d\<lparr>md_log := md_log d @ [(op, -1)]\<rparr>)
   | r # rs \<Rightarrow> (r, d\<lparr>md_results := rs, md_log := md_log d @ [(op, r)]\<rparr>))"

text \<open>A call whose result is ignored.\<close>

definition mi_do :: "mi_op \<Rightarrow> mi_dev \<Rightarrow> mi_dev" where
  "mi_do op d = snd (mi_call op d)"

definition mi_dos :: "mi_op list \<Rightarrow> mi_dev \<Rightarrow> mi_dev" where
  "mi_dos ops d = fold mi_do ops d"

subsection \<open>What is up\<close>

datatype resource = SensorOn int | VifDev | VifPort | VpeChn | VpeRun | VpePort | Chn int | Recv int
  | Bound mi_port mi_port | ImuUp | EisUp | OsdUp

fun brings :: "mi_op \<Rightarrow> resource option" where
  "brings (SnrEnable p) = Some (SensorOn p)"
| "brings VifEnableDev = Some VifDev"
| "brings VifEnablePort = Some VifPort"
| "brings (VpeCreate w h s) = Some VpeChn"
| "brings VpeStart = Some VpeRun"
| "brings VpeEnablePort = Some VpePort"
| "brings (VencCreate c a) = Some (Chn c)"
| "brings (VencStart c) = Some (Recv c)"
| "brings (SysBind a b sf df) = Some (Bound a b)"
| "brings ImuInit = Some ImuUp"
| "brings EisCreate = Some EisUp"
| "brings OsdCreate = Some OsdUp"
| "brings _ = None"

fun takes :: "mi_op \<Rightarrow> resource option" where
  "takes (SnrDisable p) = Some (SensorOn p)"
| "takes VifDisableDev = Some VifDev"
| "takes VifDisablePort = Some VifPort"
| "takes VpeDestroy = Some VpeChn"
| "takes VpeStop = Some VpeRun"
| "takes VpeDisablePort = Some VpePort"
| "takes (VencDestroy c) = Some (Chn c)"
| "takes (VencStop c) = Some (Recv c)"
| "takes (SysUnbind a b) = Some (Bound a b)"
| "takes ImuDestroy = Some ImuUp"
| "takes EisDestroy = Some EisUp"
| "takes OsdDestroy = Some OsdUp"
| "takes _ = None"

definition up_step :: "mi_op \<times> int \<Rightarrow> resource set \<Rightarrow> resource set" where
  "up_step e R = (case e of (op, rc) \<Rightarrow>
     let R1 = (case takes op of Some r \<Rightarrow> R - {r} | None \<Rightarrow> R)
     in case brings op of Some r \<Rightarrow> if rc = 0 then insert r R1 else R1 | None \<Rightarrow> R1)"

definition ups :: "mi_dev \<Rightarrow> resource set" where
  "ups d = fold up_step (md_log d) {}"

text \<open>Calls as functions on what is up: the lemmas the proofs about the pipeline rest on.\<close>

lemma ups_call: "mi_call op d = (rc, d') \<Longrightarrow> ups d' = up_step (op, rc) (ups d)"
  by (auto simp: mi_call_def ups_def split: list.splits)

lemma call_brings [simp]: "mi_call op d = (rc, d') \<Longrightarrow> takes op = None \<Longrightarrow> brings op = Some r \<Longrightarrow>
    ups d' = (if rc = 0 then insert r (ups d) else ups d)"
  by (simp add: ups_call up_step_def)

lemma do_takes: "takes op = Some r \<Longrightarrow> brings op = None \<Longrightarrow> ups (mi_do op d) = ups d - {r}"
  by (cases "mi_call op d") (simp add: mi_do_def ups_call up_step_def)

lemma do_neutral: "takes op = None \<Longrightarrow> brings op = None \<Longrightarrow> ups (mi_do op d) = ups d"
  by (cases "mi_call op d") (simp add: mi_do_def ups_call up_step_def)

lemma call_neutral: "mi_call op d = (rc, d') \<Longrightarrow> takes op = None \<Longrightarrow> brings op = None \<Longrightarrow> ups d' = ups d"
  by (simp add: ups_call up_step_def)

lemma call_last: "mi_call op d = (rc, d') \<Longrightarrow> last (md_log d') = (op, rc)"
  by (auto simp: mi_call_def split: list.splits)

subsection \<open>Channel attributes\<close>

text \<open>What \<open>MI_VENC_GetChnAttr\<close> answers for a channel: the attributes it was created with or set to last.\<close>

definition attr_zero :: venc_attr where
  "attr_zero = \<lparr>va_codec = PT_H264, va_width = 0, va_height = 0, va_mode = RATE_NONE, va_gop = 0, va_fps = 0,
     va_bitrate = 0, va_max_qual = 0, va_min_qual = 0\<rparr>"

definition attr_step :: "int \<Rightarrow> mi_op \<times> int \<Rightarrow> venc_attr \<Rightarrow> venc_attr" where
  "attr_step c e a = (case e of
     (VencCreate c' x, rc) \<Rightarrow> if c' = c \<and> rc = 0 then x else a
   | (VencSetAttr c' x, rc) \<Rightarrow> if c' = c \<and> rc = 0 then x else a
   | (VencDestroy c', rc) \<Rightarrow> if c' = c then attr_zero else a
   | _ \<Rightarrow> a)"

definition attr_of :: "mi_dev \<Rightarrow> int \<Rightarrow> venc_attr" where
  "attr_of d c = fold (attr_step c) (md_log d) attr_zero"

lemma attr_of_call: "mi_call op d = (rc, d') \<Longrightarrow> attr_of d' c = attr_step c (op, rc) (attr_of d c)"
  by (auto simp: mi_call_def attr_of_def split: list.splits)

lemma dos_simps [simp]: "mi_dos [] d = d" "mi_dos (op # ops) d = mi_dos ops (mi_do op d)"
  by (simp_all add: mi_dos_def)

lemma ups_dos: "\<forall>op \<in> set ops. brings op = None \<Longrightarrow>
    ups (mi_dos ops d) = ups d - {r. \<exists>op \<in> set ops. takes op = Some r}"
proof (induction ops arbitrary: d)
  case (Cons op ops)
  then show ?case by (cases "takes op") (auto simp: do_takes do_neutral)
qed simp

end
