(* ===== verification/SensorSelect.thy ===== *)
theory SensorSelect imports MiDevice begin

text \<open>
  Choosing and starting a sensor mode (\<open>src/sensor_select.c\<close>). What the driver answers to queries (the
  modes of each pad, the pad's and plane's attributes) is an argument; calls that change something go
  through the device of MiDevice.thy. The JSON document of all modes is not modelled.
\<close>

subsection \<open>Modes\<close>

record snr_res =
  res_crop_w :: u32
  res_crop_h :: u32
  res_output_w :: u32
  res_output_h :: u32
  res_min_fps :: u32
  res_max_fps :: u32

text \<open>The attributes of the plane that the pipeline reads; the pad's interface is a number.\<close>

record plane_info =
  pl_capt :: precrop_rect

record sensor_env =
  se_modes :: "int \<Rightarrow> snr_res option list option"
  se_plane :: "int \<Rightarrow> plane_info"

record sensor_cfg =
  sl_forced_pad :: int
  sl_forced_mode :: int
  sl_target_width :: u32
  sl_target_height :: u32
  sl_target_fps :: u32

record sensor_unlock =
  un_enabled :: bool
  un_cmd_id :: u32
  un_reg :: u16
  un_value :: u16
  un_dir :: int

record sensor_result =
  sr_pad_id :: int
  sr_plane :: plane_info
  sr_mode :: snr_res
  sr_fps :: u32
  sr_mode_index :: int

definition sensor_mode_fps_supported :: "snr_res \<Rightarrow> u32 \<Rightarrow> bool" where
  "sensor_mode_fps_supported mode fps =
     (if fps = 0 then True
      else if res_max_fps mode \<noteq> 0 \<and> fps > res_max_fps mode then False
      else if res_min_fps mode \<noteq> 0 \<and> fps < res_min_fps mode then False
      else True)"

definition sensor_mode_clamp_fps :: "snr_res \<Rightarrow> u32 \<Rightarrow> u32" where
  "sensor_mode_clamp_fps mode fps =
     (let o1 = (if fps \<noteq> 0 then fps else 30);
          o2 = (if res_max_fps mode \<noteq> 0 \<and> o1 > res_max_fps mode then res_max_fps mode else o1)
      in if res_min_fps mode \<noteq> 0 \<and> o2 < res_min_fps mode then res_min_fps mode else o2)"

definition sensor_mode_score :: "snr_res \<Rightarrow> u32 \<Rightarrow> u32 \<Rightarrow> u32 \<Rightarrow> int" where
  "sensor_mode_score mode target_w target_h target_fps =
     (let fit = (res_crop_w mode \<ge> target_w \<and> res_crop_h mode \<ge> target_h);
          fps_ok = sensor_mode_fps_supported mode target_fps
      in if fps_ok \<and> fit then 3 else if fps_ok then 2 else if fit then 1 else 0)"

definition sensor_mode_cost :: "snr_res \<Rightarrow> u32 \<Rightarrow> u32 \<Rightarrow> u32 \<Rightarrow> u64" where
  "sensor_mode_cost mode target_w target_h target_fps =
     (let dw = (if res_crop_w mode > target_w then ucast (res_crop_w mode - target_w) else ucast (target_w - res_crop_w mode)) :: u64;
          dh = (if res_crop_h mode > target_h then ucast (res_crop_h mode - target_h) else ucast (target_h - res_crop_h mode)) :: u64;
          res_cost = dw * dw + dh * dh;
          fps_excess = (if target_fps > 0 \<and> res_max_fps mode > target_fps then ucast (res_max_fps mode - target_fps) else 0) :: u64
      in push_bit 32 fps_excess OR (res_cost AND 0xFFFFFFFF))"

subsection \<open>The best mode\<close>

text \<open>The best so far: class, cost, pad, index and mode; before the first candidate the index is -1.\<close>

record best_mode =
  bm_class :: int
  bm_cost :: u64
  bm_pad :: int
  bm_index :: int
  bm_mode :: snr_res

definition res_zero :: snr_res where
  "res_zero = \<lparr>res_crop_w = 0, res_crop_h = 0, res_output_w = 0, res_output_h = 0, res_min_fps = 0, res_max_fps = 0\<rparr>"

definition best_none :: best_mode where
  "best_none = \<lparr>bm_class = -1, bm_cost = NOT 0, bm_pad = 0, bm_index = -1, bm_mode = res_zero\<rparr>"

definition consider_mode :: "sensor_cfg \<Rightarrow> int \<times> nat \<times> snr_res \<Rightarrow> best_mode \<Rightarrow> best_mode" where
  "consider_mode cfg c b = (case c of (p, idx, res) \<Rightarrow>
     let cls = sensor_mode_score res (sl_target_width cfg) (sl_target_height cfg) (sl_target_fps cfg);
         cost = sensor_mode_cost res (sl_target_width cfg) (sl_target_height cfg) (sl_target_fps cfg)
     in if cls > bm_class b \<or> (cls = bm_class b \<and> cost < bm_cost b)
        then \<lparr>bm_class = cls, bm_cost = cost, bm_pad = p, bm_index = int idx, bm_mode = res\<rparr> else b)"

definition sensor_pads :: "sensor_cfg \<Rightarrow> int list" where
  "sensor_pads cfg = (if sl_forced_pad cfg \<ge> 0 \<and> sl_forced_pad cfg \<le> 3 then [sl_forced_pad cfg] else [0, 1, 2, 3])"

text \<open>The modes the loops consider, in their order.\<close>

definition pad_candidates :: "sensor_env \<Rightarrow> sensor_cfg \<Rightarrow> int \<Rightarrow> (int \<times> nat \<times> snr_res) list" where
  "pad_candidates env cfg p = (case se_modes env p of
     None \<Rightarrow> []
   | Some ms \<Rightarrow> concat (map (\<lambda>idx. if sl_forced_mode cfg \<ge> 0 \<and> int idx \<noteq> sl_forced_mode cfg then []
       else case ms ! idx of None \<Rightarrow> [] | Some res \<Rightarrow> [(p, idx, res)]) [0..<length ms]))"

definition candidates :: "sensor_env \<Rightarrow> sensor_cfg \<Rightarrow> (int \<times> nat \<times> snr_res) list" where
  "candidates env cfg = concat (map (pad_candidates env cfg) (sensor_pads cfg))"

definition find_best_mode :: "sensor_env \<Rightarrow> sensor_cfg \<Rightarrow> best_mode option" where
  "find_best_mode env cfg =
     (let b = fold (consider_mode cfg) (candidates env cfg) best_none in if bm_index b < 0 then None else Some b)"

subsection \<open>Starting it\<close>

definition unlock_pre_set_mode :: "sensor_unlock \<Rightarrow> int \<Rightarrow> mi_dev \<Rightarrow> int \<times> mi_dev" where
  "unlock_pre_set_mode un pad d =
     (if \<not> un_enabled un then (0, d)
      else mi_call (SnrCust pad (un_cmd_id un) (un_reg un) (un_value un) (un_dir un)) d)"

text \<open>A failed frame rate is tried again after the mode was set anew.\<close>

definition sensor_try_set_fps :: "sensor_unlock \<Rightarrow> int \<Rightarrow> int \<Rightarrow> u32 \<Rightarrow> mi_dev \<Rightarrow> int \<times> mi_dev" where
  "sensor_try_set_fps un pad mode_index fps d =
     (case mi_call (SnrSetFps pad fps) d of (ret, d1) \<Rightarrow>
      if ret = 0 then (0, d1)
      else
        let d2 = mi_do (SnrSetPlane pad) (mi_do (SnrDisable pad) d1);
            d3 = (if un_enabled un then mi_do (SnrCust pad (un_cmd_id un) (un_reg un) (un_value un) (un_dir un)) d2 else d2);
            d4 = mi_do (SnrSetRes pad mode_index) d3
        in mi_call (SnrSetFps pad fps) d4)"

definition set_sensor_fps ::
  "sensor_unlock \<Rightarrow> int \<Rightarrow> int \<Rightarrow> snr_res \<Rightarrow> u32 \<Rightarrow> mi_dev \<Rightarrow> int \<times> u32 \<times> mi_dev" where
  "set_sensor_fps un pad mode_index mode target_fps d =
     (let requested = (if target_fps \<noteq> 0 then target_fps else 30);
          clamped = (if res_max_fps mode \<noteq> 0 then res_max_fps mode else sensor_mode_clamp_fps mode requested)
      in case sensor_try_set_fps un pad mode_index clamped d of (err, d1) \<Rightarrow>
      if err = 0 then (0, clamped, d1)
      else
        let fallback = sensor_mode_clamp_fps mode 30 in
        if fallback \<noteq> 0 \<and> fallback \<noteq> clamped \<and> sensor_mode_fps_supported mode fallback
        then case sensor_try_set_fps un pad mode_index fallback d1 of (err2, d2) \<Rightarrow>
          if err2 = 0 then (0, fallback, d2) else (err2, 0, d2)
        else (err, 0, d1))"

definition sensor_zero :: sensor_result where
  "sensor_zero = \<lparr>sr_pad_id = 0, sr_plane = \<lparr>pl_capt = \<lparr>pr_x = 0, pr_y = 0, pr_w = 0, pr_h = 0\<rparr>\<rparr>, sr_mode = res_zero,
     sr_fps = 0, sr_mode_index = 0\<rparr>"

text \<open>The result as far as it was filled in.\<close>

definition configure_selected_sensor ::
  "sensor_env \<Rightarrow> sensor_cfg \<Rightarrow> sensor_unlock \<Rightarrow> best_mode \<Rightarrow> mi_dev \<Rightarrow> int \<times> sensor_result \<times> mi_dev" where
  "configure_selected_sensor env cfg un b d =
     (let pad = bm_pad b; r = sensor_zero\<lparr>sr_pad_id := pad, sr_mode := bm_mode b, sr_mode_index := bm_index b\<rparr> in
      case mi_call (SnrSetPlane pad) (mi_do (SnrDisable pad) d) of (r1, d1) \<Rightarrow>
      if r1 \<noteq> 0 then (r1, r, d1)
      else case unlock_pre_set_mode un pad d1 of (r2, d2) \<Rightarrow>
      if r2 \<noteq> 0 then (r2, r, d2)
      else case mi_call (SnrSetRes pad (bm_index b)) d2 of (r3, d3) \<Rightarrow>
      if r3 \<noteq> 0 then (r3, r, d3)
      else case set_sensor_fps un pad (bm_index b) (bm_mode b) (sl_target_fps cfg) d3 of (r4, fps, d4) \<Rightarrow>
      if r4 \<noteq> 0 then (r4, r, d4)
      else case mi_call (SnrEnable pad) d4 of (r5, d5) \<Rightarrow>
      if r5 \<noteq> 0 then (r5, r\<lparr>sr_fps := fps\<rparr>, d5)
      else case mi_call (SnrPadInfo pad) d5 of (r6, d6) \<Rightarrow>
      if r6 \<noteq> 0 then (r6, r\<lparr>sr_fps := fps\<rparr>, d6)
      else case mi_call (SnrPlaneInfo pad) d6 of (r7, d7) \<Rightarrow>
      if r7 \<noteq> 0 then (r7, r\<lparr>sr_fps := fps\<rparr>, d7)
      else (0, r\<lparr>sr_fps := fps, sr_plane := se_plane env pad\<rparr>, d7))"

definition sensor_select :: "sensor_env \<Rightarrow> sensor_cfg \<Rightarrow> sensor_unlock \<Rightarrow> mi_dev \<Rightarrow> int \<times> sensor_result \<times> mi_dev" where
  "sensor_select env cfg un d = (case find_best_mode env cfg of
     None \<Rightarrow> (-1, sensor_zero, d)
   | Some b \<Rightarrow> configure_selected_sensor env cfg un b d)"

subsection \<open>The choice is the best\<close>

definition mode_class :: "sensor_cfg \<Rightarrow> snr_res \<Rightarrow> int" where
  "mode_class cfg m = sensor_mode_score m (sl_target_width cfg) (sl_target_height cfg) (sl_target_fps cfg)"

definition mode_price :: "sensor_cfg \<Rightarrow> snr_res \<Rightarrow> u64" where
  "mode_price cfg m = sensor_mode_cost m (sl_target_width cfg) (sl_target_height cfg) (sl_target_fps cfg)"

text \<open>By how much a mode's highest rate is above the one asked for.\<close>

definition fps_excess :: "sensor_cfg \<Rightarrow> snr_res \<Rightarrow> nat" where
  "fps_excess cfg m = (if sl_target_fps cfg = 0 then 0 else unat (res_max_fps m) - unat (sl_target_fps cfg))"

lemma mode_class_nonneg: "0 \<le> mode_class cfg m"
  by (simp add: mode_class_def sensor_mode_score_def Let_def)

lemma price_high:
  fixes e r :: u64
  assumes "unat e < 2 ^ 32"
  shows "unat (push_bit 32 e OR (r AND 0xFFFFFFFF)) div 2 ^ 32 = unat e"
proof -
  have m: "r AND 0xFFFFFFFF = take_bit 32 r" by (simp add: take_bit_eq_mask mask_eq_exp_minus_1)
  have t: "take_bit 32 e = e"
    using assms by (simp add: word_unat_eq_iff unsigned_take_bit_eq take_bit_nat_eq_self)
  have "drop_bit 32 (push_bit 32 e OR take_bit 32 r) = e"
  proof (rule bit_word_eqI)
    fix n assume "n < LENGTH(64)"
    have "bit e n = (n < 32 \<and> bit e n)" by (subst t [symmetric]) (simp only: bit_take_bit_iff)
    then show "bit (drop_bit 32 (push_bit 32 e OR take_bit 32 r)) n = bit e n" by (auto simp: bit_simps)
  qed
  then have "unat (drop_bit 32 (push_bit 32 e OR take_bit 32 r)) = unat e" by simp
  then show ?thesis by (simp add: m unat_drop_bit drop_bit_eq_div unat_div)
qed

lemma unat_ucast64: "unat (ucast (x :: u32) :: u64) = unat x"
  by (simp add: unat_ucast_widen)

lemma price_excess: "unat (mode_price cfg m) div 2 ^ 32 = fps_excess cfg m"
proof -
  let ?e = "(if sl_target_fps cfg > 0 \<and> res_max_fps m > sl_target_fps cfg then ucast (res_max_fps m - sl_target_fps cfg) else 0) :: u64"
  have lt: "unat ?e < 2 ^ 32" using unsigned_less [of "res_max_fps m - sl_target_fps cfg", where ?'a = nat] by (simp add: unat_ucast64)
  have "unat ?e = fps_excess cfg m"
    by (auto simp: fps_excess_def unat_ucast64 unat_sub word_less_nat_alt word_le_nat_alt unat_gt_0)
  then show ?thesis using price_high [OF lt] by (simp add: mode_price_def sensor_mode_cost_def Let_def)
qed

text \<open>The scan holds the first of the best candidates so far.\<close>

definition no_better :: "sensor_cfg \<Rightarrow> best_mode \<Rightarrow> snr_res \<Rightarrow> bool" where
  "no_better cfg b m \<longleftrightarrow> mode_class cfg m < bm_class b \<or> mode_class cfg m = bm_class b \<and> bm_cost b \<le> mode_price cfg m"

definition best_of :: "sensor_cfg \<Rightarrow> (int \<times> nat \<times> snr_res) list \<Rightarrow> best_mode \<Rightarrow> bool" where
  "best_of cfg cs b \<longleftrightarrow> (cs = [] \<longrightarrow> b = best_none) \<and> (cs \<noteq> [] \<longrightarrow> (\<exists>i. (bm_pad b, i, bm_mode b) \<in> set cs
     \<and> bm_index b = int i \<and> bm_class b = mode_class cfg (bm_mode b) \<and> bm_cost b = mode_price cfg (bm_mode b)))
     \<and> (\<forall>c \<in> set cs. no_better cfg b (snd (snd c)))"

lemma best_of_step:
  assumes "best_of cfg cs b"
  shows "best_of cfg (cs @ [c]) (consider_mode cfg c b)"
proof -
  obtain p i m where c: "c = (p, i, m)" by (metis prod_cases3)
  let ?n = "\<lparr>bm_class = mode_class cfg m, bm_cost = mode_price cfg m, bm_pad = p, bm_index = int i, bm_mode = m\<rparr>"
  have step: "consider_mode cfg c b = (if no_better cfg b m then b else ?n)"
    unfolding consider_mode_def c no_better_def mode_class_def [symmetric] mode_price_def [symmetric] Let_def by auto
  show ?thesis
  proof (cases "no_better cfg b m")
    case False
    then have "no_better cfg ?n m'" if "no_better cfg b m'" for m'
      using that by (auto simp: no_better_def)
    moreover have "no_better cfg ?n m" by (simp add: no_better_def)
    ultimately show ?thesis using False assms unfolding step best_of_def by (simp add: c)
  next
    case True
    have "cs \<noteq> []" using assms True mode_class_nonneg [of cfg m] by (auto simp: best_of_def best_none_def no_better_def)
    then show ?thesis using True assms unfolding step best_of_def by (auto simp: c)
  qed
qed

lemma best_of_fold: "best_of cfg cs (fold (consider_mode cfg) cs best_none)"
proof (induction cs rule: rev_induct)
  case Nil
  show ?case by (simp add: best_of_def)
next
  case (snoc c cs)
  then show ?case using best_of_step by simp
qed

text \<open>Property C28. The sensor mode chosen is among the best. If the pads offer any mode that the configuration allows
  one is found, and no other that is offered is in a better class (right frame rate and large enough,
  right frame rate, large enough, neither) or, in the same class, has a maximal frame rate closer
  above the one asked for, or an equally close one at a lower resolution cost.\<close>

theorem sensor_mode_best:
  assumes "candidates env cfg \<noteq> []"
  shows "\<exists>b i. find_best_mode env cfg = Some b \<and> bm_index b = int i \<and> (bm_pad b, i, bm_mode b) \<in> set (candidates env cfg)
    \<and> (\<forall>(p, j, m) \<in> set (candidates env cfg).
         mode_class cfg m < mode_class cfg (bm_mode b)
         \<or> mode_class cfg m = mode_class cfg (bm_mode b) \<and> fps_excess cfg (bm_mode b) \<le> fps_excess cfg m
           \<and> mode_price cfg (bm_mode b) \<le> mode_price cfg m)"
proof -
  let ?b = "fold (consider_mode cfg) (candidates env cfg) best_none"
  have best: "best_of cfg (candidates env cfg) ?b" by (rule best_of_fold)
  then obtain i where i: "(bm_pad ?b, i, bm_mode ?b) \<in> set (candidates env cfg)" "bm_index ?b = int i"
    "bm_class ?b = mode_class cfg (bm_mode ?b)" "bm_cost ?b = mode_price cfg (bm_mode ?b)"
    using assms unfolding best_of_def by blast
  have excess: "fps_excess cfg m \<le> fps_excess cfg m'" if "mode_price cfg m \<le> mode_price cfg m'" for m m'
    using that by (metis div_le_mono price_excess word_le_nat_alt)
  have "\<forall>(p, j, m) \<in> set (candidates env cfg). mode_class cfg m < mode_class cfg (bm_mode ?b)
      \<or> mode_class cfg m = mode_class cfg (bm_mode ?b) \<and> fps_excess cfg (bm_mode ?b) \<le> fps_excess cfg m
        \<and> mode_price cfg (bm_mode ?b) \<le> mode_price cfg m"
  proof (intro ballI)
    fix c assume c: "c \<in> set (candidates env cfg)"
    obtain p j m where t: "c = (p, j, m)" by (metis prod_cases3)
    have "no_better cfg ?b m" using best c unfolding best_of_def t by force
    then have "mode_class cfg m < mode_class cfg (bm_mode ?b)
      \<or> mode_class cfg m = mode_class cfg (bm_mode ?b) \<and> fps_excess cfg (bm_mode ?b) \<le> fps_excess cfg m
        \<and> mode_price cfg (bm_mode ?b) \<le> mode_price cfg m"
      unfolding no_better_def i(3,4) using excess by blast
    then show "case c of (p, j, m) \<Rightarrow> mode_class cfg m < mode_class cfg (bm_mode ?b)
      \<or> mode_class cfg m = mode_class cfg (bm_mode ?b) \<and> fps_excess cfg (bm_mode ?b) \<le> fps_excess cfg m
        \<and> mode_price cfg (bm_mode ?b) \<le> mode_price cfg m" by (simp add: t)
  qed
  moreover have "find_best_mode env cfg = Some ?b" using i(2) by (simp add: find_best_mode_def Let_def)
  ultimately show ?thesis using i(1,2) by blast
qed

definition demo_res :: "u32 \<Rightarrow> u32 \<Rightarrow> u32 \<Rightarrow> snr_res" where
  "demo_res w h f = \<lparr>res_crop_w = w, res_crop_h = h, res_output_w = w, res_output_h = h, res_min_fps = 3, res_max_fps = f\<rparr>"

text \<open>One pad with three modes; 1080 lines at 90 frames are asked for.\<close>

definition demo_sensor :: sensor_env where
  "demo_sensor = \<lparr>se_modes = (\<lambda>p. if p = 0 then Some [Some (demo_res 2592 1944 30), Some (demo_res 1920 1080 120),
       Some (demo_res 2304 1296 90)] else None),
     se_plane = (\<lambda>p. \<lparr>pl_capt = \<lparr>pr_x = 0, pr_y = 0, pr_w = 2304, pr_h = 1296\<rparr>\<rparr>)\<rparr>"

definition demo_select :: sensor_cfg where
  "demo_select = \<lparr>sl_forced_pad = -1, sl_forced_mode = -1, sl_target_width = 1920, sl_target_height = 1080, sl_target_fps = 90\<rparr>"

lemma demo_candidates: "candidates demo_sensor demo_select =
    [(0, 0, demo_res 2592 1944 30), (0, 1, demo_res 1920 1080 120), (0, 2, demo_res 2304 1296 90)]"
  by (simp add: candidates_def pad_candidates_def sensor_pads_def demo_sensor_def demo_select_def upt_rec)

theorem sensor_mode_best_witness:
  "\<exists>b. find_best_mode demo_sensor demo_select = Some b \<and> bm_index b = 2 \<and> bm_mode b = demo_res 2304 1296 90"
proof -
  obtain b i where b: "find_best_mode demo_sensor demo_select = Some b" "bm_index b = int i"
    "(bm_pad b, i, bm_mode b) \<in> set (candidates demo_sensor demo_select)"
    "\<forall>(p, j, m) \<in> set (candidates demo_sensor demo_select).
       mode_class demo_select m < mode_class demo_select (bm_mode b)
       \<or> mode_class demo_select m = mode_class demo_select (bm_mode b)
         \<and> fps_excess demo_select (bm_mode b) \<le> fps_excess demo_select m
         \<and> mode_price demo_select (bm_mode b) \<le> mode_price demo_select m"
    using sensor_mode_best [of demo_sensor demo_select] by (auto simp: demo_candidates)
  have v: "mode_class demo_select (demo_res 2592 1944 30) = 1" "mode_class demo_select (demo_res 1920 1080 120) = 3"
    "mode_class demo_select (demo_res 2304 1296 90) = 3" "fps_excess demo_select (demo_res 1920 1080 120) = 30"
    "fps_excess demo_select (demo_res 2304 1296 90) = 0"
    by (simp_all add: mode_class_def sensor_mode_score_def sensor_mode_fps_supported_def fps_excess_def demo_select_def demo_res_def)
  show ?thesis using b v by (auto simp: demo_candidates)
qed

subsection \<open>What is up afterwards\<close>

lemma neutral_cust: "takes (SnrCust p c r v e) = None" "brings (SnrCust p c r v e) = None" by simp_all

lemma try_set_fps_ups:
  "sensor_try_set_fps un pad i fps d = (rc, d') \<Longrightarrow> ups d' = ups d \<or> ups d' = ups d - {SensorOn pad}"
  unfolding sensor_try_set_fps_def
  by (auto simp: Let_def do_takes do_neutral call_neutral split: prod.splits if_splits)

lemma unlock_ups: "unlock_pre_set_mode un pad d = (rc, d') \<Longrightarrow> ups d' = ups d"
  by (auto simp: unlock_pre_set_mode_def call_neutral split: if_splits)

lemma set_fps_ups:
  "set_sensor_fps un pad i m f d = (rc, fps, d') \<Longrightarrow> ups d' = ups d \<or> ups d' = ups d - {SensorOn pad}"
  unfolding set_sensor_fps_def
  by (auto simp: Let_def split: prod.splits if_splits dest!: try_set_fps_ups)

lemma configure_ups:
  assumes "configure_selected_sensor env cfg un b d = (rc, r, d')"
  defines "R \<equiv> ups d - {SensorOn (bm_pad b)}"
  shows "sr_pad_id r = bm_pad b \<and> (if rc = 0 then ups d' = insert (SensorOn (bm_pad b)) R
      else ups d' = R \<or> ups d' = insert (SensorOn (bm_pad b)) R \<and> (\<exists>op. last (md_log d') = (op, rc) \<and>
        (op = SnrPadInfo (bm_pad b) \<or> op = SnrPlaneInfo (bm_pad b))))"
proof -
  let ?p = "bm_pad b"
  obtain r1 d1 where 1: "mi_call (SnrSetPlane ?p) (mi_do (SnrDisable ?p) d) = (r1, d1)" by (metis surj_pair)
  then have u1: "ups d1 = R" by (simp add: call_neutral do_takes R_def)
  show ?thesis
  proof (cases "r1 = 0")
    case False
    then show ?thesis using assms(1) 1 u1 by (auto simp: configure_selected_sensor_def Let_def)
  next
    case r1: True
    obtain r2 d2 where 2: "unlock_pre_set_mode un ?p d1 = (r2, d2)" by (metis surj_pair)
    then have u2: "ups d2 = R" using u1 unlock_ups by simp
    obtain r3 d3 where 3: "mi_call (SnrSetRes ?p (bm_index b)) d2 = (r3, d3)" by (metis surj_pair)
    then have u3: "ups d3 = R" using u2 by (simp add: call_neutral)
    obtain r4 fps d4 where 4: "set_sensor_fps un ?p (bm_index b) (bm_mode b) (sl_target_fps cfg) d3 = (r4, fps, d4)"
      by (metis prod_cases3)
    have u4: "ups d4 = R" using set_fps_ups [OF 4] u3 by (auto simp: R_def)
    obtain r5 d5 where 5: "mi_call (SnrEnable ?p) d4 = (r5, d5)" by (metis surj_pair)
    then have u5: "ups d5 = (if r5 = 0 then insert (SensorOn ?p) R else R)" using u4 by simp
    obtain r6 d6 where 6: "mi_call (SnrPadInfo ?p) d5 = (r6, d6)" by (metis surj_pair)
    then have u6: "ups d6 = ups d5" "last (md_log d6) = (SnrPadInfo ?p, r6)" by (simp_all add: call_neutral call_last)
    obtain r7 d7 where 7: "mi_call (SnrPlaneInfo ?p) d6 = (r7, d7)" by (metis surj_pair)
    then have u7: "ups d7 = ups d6" "last (md_log d7) = (SnrPlaneInfo ?p, r7)" by (simp_all add: call_neutral call_last)
    show ?thesis using assms(1) 1 2 3 4 5 6 7 r1 u2 u3 u4 u5 u6 u7
      by (auto simp: configure_selected_sensor_def Let_def split: if_splits)
  qed
qed

end
