(* ===== verification/Sidecar.thy ===== *)
theory Sidecar imports TsMux OutputSocket begin

text \<open>
  The metadata channel beside the RTP stream (\<open>src/rtp_sidecar.c\<close>, \<open>include/rtp_sidecar.h\<close>): a
  probe subscribes, asks for the time, and gets one message per frame. The kernel is the list of
  the answers its calls get, the clock a function of how often it was read; the log holds what was
  heard and sent and each reading of the clock.
\<close>

subsection \<open>The kernel\<close>

datatype arrival = NoDatagram | Arrived bytes sockaddr
datatype send_answer = SendOk | SendAgain | SendFailed

datatype side_event = SideOpened int u16 | SideClosed int | SideClock u64 | SideHeard bytes sockaddr
  | SideSent int sockaddr bytes

record side_os =
  so_sockets :: "int list"
  so_calls :: "bool list"
  so_arrivals :: "arrival list"
  so_answers :: "send_answer list"
  so_time :: "nat \<Rightarrow> u64"
  so_ticks :: nat
  so_log :: "side_event list"

definition side_note :: "side_event \<Rightarrow> side_os \<Rightarrow> side_os" where
  "side_note ev w = w\<lparr>so_log := so_log w @ [ev]\<rparr>"

definition sidecar_now_us :: "side_os \<Rightarrow> u64 \<times> side_os" where
  "sidecar_now_us w =
     (let t = so_time w (so_ticks w) in (t, side_note (SideClock t) (w\<lparr>so_ticks := so_ticks w + 1\<rparr>)))"

text \<open>A call that answers with success or failure: \<open>fcntl\<close>, \<open>bind\<close>.\<close>

definition side_call :: "side_os \<Rightarrow> bool \<times> side_os" where
  "side_call w = (case so_calls w of [] \<Rightarrow> (False, w) | c # cs \<Rightarrow> (c, w\<lparr>so_calls := cs\<rparr>))"

definition side_socket :: "side_os \<Rightarrow> int \<times> side_os" where
  "side_socket w = (case so_sockets w of [] \<Rightarrow> (-1, w) | s # ss \<Rightarrow> (s, w\<lparr>so_sockets := ss\<rparr>))"

text \<open>\<open>recvfrom\<close> into a buffer of 64 bytes: a longer datagram is cut.\<close>

definition side_recvfrom :: "side_os \<Rightarrow> (bytes \<times> sockaddr) option \<times> side_os" where
  "side_recvfrom w = (case so_arrivals w of
     [] \<Rightarrow> (None, w)
   | NoDatagram # as \<Rightarrow> (None, w\<lparr>so_arrivals := as\<rparr>)
   | Arrived b src # as \<Rightarrow> (Some (take 64 b, src), side_note (SideHeard (take 64 b) src) (w\<lparr>so_arrivals := as\<rparr>)))"

definition side_sendto :: "int \<Rightarrow> sockaddr \<Rightarrow> bytes \<Rightarrow> side_os \<Rightarrow> send_answer \<times> side_os" where
  "side_sendto handle dst m w = (case so_answers w of
     [] \<Rightarrow> (SendFailed, w)
   | a # as \<Rightarrow> (a, if a = SendOk then side_note (SideSent handle dst m) (w\<lparr>so_answers := as\<rparr>)
                                else w\<lparr>so_answers := as\<rparr>))"

subsection \<open>The messages\<close>

definition RTP_SIDECAR_MAGIC :: u32 where "RTP_SIDECAR_MAGIC = 0x52545053"
definition RTP_SIDECAR_VERSION :: u8 where "RTP_SIDECAR_VERSION = 1"
definition RTP_SIDECAR_MSG_SUBSCRIBE :: u8 where "RTP_SIDECAR_MSG_SUBSCRIBE = 1"
definition RTP_SIDECAR_MSG_FRAME :: u8 where "RTP_SIDECAR_MSG_FRAME = 2"
definition RTP_SIDECAR_MSG_SYNC_REQ :: u8 where "RTP_SIDECAR_MSG_SYNC_REQ = 3"
definition RTP_SIDECAR_MSG_SYNC_RESP :: u8 where "RTP_SIDECAR_MSG_SYNC_RESP = 4"
definition RTP_SIDECAR_SUB_TTL_US :: u64 where "RTP_SIDECAR_SUB_TTL_US = 5000000"
definition RTP_SIDECAR_FLAG_KEYFRAME :: u8 where "RTP_SIDECAR_FLAG_KEYFRAME = 0x01"
definition RTP_SIDECAR_FLAG_ENC_INFO :: u8 where "RTP_SIDECAR_FLAG_ENC_INFO = 0x02"
definition RTP_SIDECAR_FRAME_P :: u8 where "RTP_SIDECAR_FRAME_P = 0"
definition RTP_SIDECAR_FRAME_I :: u8 where "RTP_SIDECAR_FRAME_I = 1"
definition RTP_SIDECAR_FRAME_IDR :: u8 where "RTP_SIDECAR_FRAME_IDR = 2"

definition sidecar_htobe64 :: "u64 \<Rightarrow> bytes" where
  "sidecar_htobe64 v = [ucast (drop_bit 56 v), ucast (drop_bit 48 v), ucast (drop_bit 40 v), ucast (drop_bit 32 v),
     ucast (drop_bit 24 v), ucast (drop_bit 16 v), ucast (drop_bit 8 v), ucast v]"

text \<open>Reading a field in network order.\<close>

definition rd16 :: "bytes \<Rightarrow> nat \<Rightarrow> u16" where
  "rd16 b i = be16 (b ! i) (b ! (i + 1))"

definition rd32 :: "bytes \<Rightarrow> nat \<Rightarrow> u32" where
  "rd32 b i = be32 (b ! i) (b ! (i + 1)) (b ! (i + 2)) (b ! (i + 3))"

definition rd64 :: "bytes \<Rightarrow> nat \<Rightarrow> u64" where
  "rd64 b i = push_bit 32 (ucast (rd32 b i)) OR ucast (rd32 b (i + 4))"

record enc_info =
  ei_frame_size_bytes :: u32
  ei_frame_type :: u8
  ei_qp :: u8
  ei_complexity :: u8
  ei_scene_change :: u8
  ei_gop_state :: u8
  ei_idr_inserted :: u8
  ei_frames_since_idr :: u16

record sidecar =
  sc_fd :: int
  sc_subscriber :: sockaddr
  sc_sub_expires_us :: u64
  sc_frame_id :: u64

definition sync_resp_msg :: "bytes \<Rightarrow> u64 \<Rightarrow> u64 \<Rightarrow> bytes" where
  "sync_resp_msg t1 t2 t3 = put_be32 RTP_SIDECAR_MAGIC @ [RTP_SIDECAR_VERSION, RTP_SIDECAR_MSG_SYNC_RESP, 0, 0]
     @ t1 @ sidecar_htobe64 t2 @ sidecar_htobe64 t3"

definition enc_flags :: "enc_info option \<Rightarrow> u8" where
  "enc_flags info = (case info of
     None \<Rightarrow> 0
   | Some e \<Rightarrow> RTP_SIDECAR_FLAG_ENC_INFO OR
       (if ei_frame_type e = RTP_SIDECAR_FRAME_I \<or> ei_frame_type e = RTP_SIDECAR_FRAME_IDR
        then RTP_SIDECAR_FLAG_KEYFRAME else 0))"

definition enc_trailer :: "enc_info option \<Rightarrow> bytes" where
  "enc_trailer info = (case info of
     None \<Rightarrow> []
   | Some e \<Rightarrow> put_be32 (ei_frame_size_bytes e)
       @ [ei_frame_type e, ei_qp e, ei_complexity e, ei_scene_change e, ei_gop_state e, ei_idr_inserted e]
       @ put_be16 (ei_frames_since_idr e))"

definition frame_msg ::
  "u32 \<Rightarrow> u32 \<Rightarrow> u16 \<Rightarrow> u16 \<Rightarrow> u64 \<Rightarrow> u64 \<Rightarrow> enc_info option \<Rightarrow> u64 \<Rightarrow> u64 \<Rightarrow> bytes" where
  "frame_msg ssrc rtp_ts seq_first seq_count capture_us frame_ready_us info frame_id last_us =
     put_be32 RTP_SIDECAR_MAGIC @ [RTP_SIDECAR_VERSION, RTP_SIDECAR_MSG_FRAME, 0, enc_flags info]
     @ put_be32 ssrc @ put_be32 rtp_ts @ sidecar_htobe64 frame_id @ sidecar_htobe64 frame_ready_us
     @ put_be16 seq_first @ put_be16 seq_count @ sidecar_htobe64 capture_us @ sidecar_htobe64 last_us
     @ enc_trailer info"

subsection \<open>The life of the channel\<close>

definition sub_active :: "sidecar \<Rightarrow> side_os \<Rightarrow> bool \<times> side_os" where
  "sub_active s w =
     (if sc_sub_expires_us s = 0 then (False, w)
      else case sidecar_now_us w of (t, w') \<Rightarrow> (t < sc_sub_expires_us s, w'))"

definition sub_refresh :: "sockaddr \<Rightarrow> sidecar \<Rightarrow> side_os \<Rightarrow> sidecar \<times> side_os" where
  "sub_refresh src s w = (case sidecar_now_us w of (t, w') \<Rightarrow>
     (s\<lparr>sc_subscriber := src, sc_sub_expires_us := t + RTP_SIDECAR_SUB_TTL_US\<rparr>, w'))"

definition sidecar_off :: sidecar where
  "sidecar_off = \<lparr>sc_fd = -1, sc_subscriber = NoAddr, sc_sub_expires_us = 0, sc_frame_id = 0\<rparr>"

definition rtp_sidecar_sender_init :: "u16 \<Rightarrow> side_os \<Rightarrow> int \<times> sidecar \<times> side_os" where
  "rtp_sidecar_sender_init port w =
     (if port = 0 then (0, sidecar_off, w)
      else case side_socket w of (handle, w1) \<Rightarrow>
      if handle < 0 then (-1, sidecar_off, w1)
      else
        let w2 = side_note (SideOpened handle port) w1 in
        case side_call w2 of (got, w3) \<Rightarrow>
        case (if got then side_call w3 else (False, w3)) of (nonblock, w4) \<Rightarrow>
        if \<not> nonblock then (-1, sidecar_off, side_note (SideClosed handle) w4)
        else case side_call w4 of (bound, w5) \<Rightarrow>
          if \<not> bound then (-1, sidecar_off, side_note (SideClosed handle) w5)
          else (0, sidecar_off\<lparr>sc_fd := handle\<rparr>, w5))"

definition rtp_sidecar_sender_close :: "sidecar \<Rightarrow> side_os \<Rightarrow> sidecar \<times> side_os" where
  "rtp_sidecar_sender_close s w =
     (if sc_fd s < 0 then (s, w) else (s\<lparr>sc_fd := -1\<rparr>, side_note (SideClosed (sc_fd s)) w))"

subsection \<open>Requests\<close>

definition sidecar_request :: "bytes \<Rightarrow> bool" where
  "sidecar_request buf \<longleftrightarrow> 6 \<le> length buf \<and> rd32 buf 0 = RTP_SIDECAR_MAGIC \<and> buf ! 4 = RTP_SIDECAR_VERSION"

definition sidecar_handle :: "bytes \<Rightarrow> sockaddr \<Rightarrow> sidecar \<Rightarrow> side_os \<Rightarrow> sidecar \<times> side_os" where
  "sidecar_handle buf src s w =
     (if \<not> sidecar_request buf then (s, w)
      else if buf ! 5 = RTP_SIDECAR_MSG_SUBSCRIBE then
        case sub_active s w of (active, w1) \<Rightarrow> sub_refresh src s w1
      else if buf ! 5 = RTP_SIDECAR_MSG_SYNC_REQ then
        (if length buf < 16 then (s, w)
         else case sidecar_now_us w of (t2, w1) \<Rightarrow>
           case sidecar_now_us w1 of (t3, w2) \<Rightarrow>
           case side_sendto (sc_fd s) src (sync_resp_msg (take 8 (drop 8 buf)) t2 t3) w2 of (a, w3) \<Rightarrow>
             sub_refresh src s w3)
      else (s, w))"

primrec poll_rounds :: "nat \<Rightarrow> sidecar \<Rightarrow> side_os \<Rightarrow> sidecar \<times> side_os" where
  "poll_rounds 0 s w = (s, w)"
| "poll_rounds (Suc n) s w = (case side_recvfrom w of
     (None, w1) \<Rightarrow> (s, w1)
   | (Some (buf, src), w1) \<Rightarrow> (case sidecar_handle buf src s w1 of (s', w2) \<Rightarrow> poll_rounds n s' w2))"

definition rtp_sidecar_poll :: "sidecar \<Rightarrow> side_os \<Rightarrow> sidecar \<times> side_os" where
  "rtp_sidecar_poll s w = (if sc_fd s < 0 then (s, w) else poll_rounds 8 s w)"

subsection \<open>One message per frame\<close>

definition rtp_sidecar_send_frame ::
  "u32 \<Rightarrow> u32 \<Rightarrow> u16 \<Rightarrow> u16 \<Rightarrow> u64 \<Rightarrow> u64 \<Rightarrow> enc_info option \<Rightarrow> sidecar \<Rightarrow> side_os \<Rightarrow> int \<times> sidecar \<times> side_os" where
  "rtp_sidecar_send_frame ssrc rtp_ts seq_first seq_count capture_us frame_ready_us info s w =
     (if sc_fd s < 0 then (0, s, w)
      else case sub_active s w of (active, w1) \<Rightarrow>
      if \<not> active then (0, s, w1)
      else case sidecar_now_us w1 of (last_us, w2) \<Rightarrow>
      case side_sendto (sc_fd s) (sc_subscriber s)
             (frame_msg ssrc rtp_ts seq_first seq_count capture_us frame_ready_us info (sc_frame_id s) last_us) w2
        of (a, w3) \<Rightarrow>
        (if a = SendFailed then -1 else 0, s\<lparr>sc_frame_id := sc_frame_id s + 1\<rparr>, w3))"

subsection \<open>Fields come back\<close>

lemma be16_bytes [simp]: "be16 (ucast (drop_bit 8 v)) (ucast v) = v"
  unfolding be16_def by (rule bit_word_eqI) (auto simp: bit_simps)

lemma be32_bytes [simp]:
  "be32 (ucast (drop_bit 24 v)) (ucast (drop_bit 16 v)) (ucast (drop_bit 8 v)) (ucast v) = v"
proof (rule bit_word_eqI)
  fix n assume "n < LENGTH(32)"
  then consider "n < 8" | "8 \<le> n" "n < 16" | "16 \<le> n" "n < 24" | "24 \<le> n" "n < 32" by force
  then show "bit (be32 (ucast (drop_bit 24 v)) (ucast (drop_bit 16 v)) (ucast (drop_bit 8 v)) (ucast v)) n = bit v n"
    by cases (auto simp: be32_def bit_simps)
qed

lemma be64_bytes [simp]:
  fixes v :: u64
  shows "push_bit 32 (ucast (be32 (ucast (drop_bit 56 v)) (ucast (drop_bit 48 v)) (ucast (drop_bit 40 v)) (ucast (drop_bit 32 v))))
     OR ucast (be32 (ucast (drop_bit 24 v)) (ucast (drop_bit 16 v)) (ucast (drop_bit 8 v)) (ucast v)) = v"
    (is "push_bit 32 (ucast ?h) OR ucast ?l = v")
proof -
  have part: "(ucast (drop_bit (k + j) v) :: u8) = ucast (drop_bit k (ucast (drop_bit j v) :: u32))" if "k + 8 \<le> 32" for k j
    using that by (intro bit_word_eqI) (auto simp: bit_simps add_ac)
  have h: "?h = ucast (drop_bit 32 v)"
    using be32_bytes [of "ucast (drop_bit 32 v) :: u32"] part [of 24 32] part [of 16 32] part [of 8 32] part [of 0 32]
    by simp
  have l: "?l = ucast v"
    using be32_bytes [of "ucast v :: u32"] part [of 24 0] part [of 16 0] part [of 8 0] part [of 0 0] by simp
  show ?thesis unfolding h l by (rule bit_word_eqI) (auto simp: bit_simps)
qed

lemma frame_msg_length [simp]:
  "length (frame_msg ssrc ts sf sn cap ready info fid last_us) = (if info = None then 52 else 64)"
  by (simp add: frame_msg_def put_be32_def put_be16_def sidecar_htobe64_def enc_trailer_def split: option.split)

lemmas frame_msg_bytes = frame_msg_def put_be32_def put_be16_def sidecar_htobe64_def

lemma frame_msg_fields [simp]:
  fixes ssrc ts sf sn cap ready info fid last_us
  defines "m \<equiv> frame_msg ssrc ts sf sn cap ready info fid last_us"
  shows "rd32 m 0 = RTP_SIDECAR_MAGIC" "m ! 4 = RTP_SIDECAR_VERSION" "m ! 5 = RTP_SIDECAR_MSG_FRAME"
    "m ! 7 = enc_flags info" "rd32 m 8 = ssrc" "rd32 m 12 = ts" "rd64 m 16 = fid" "rd64 m 24 = ready"
    "rd16 m 32 = sf" "rd16 m 34 = sn" "rd64 m 36 = cap" "rd64 m 44 = last_us"
  by (simp_all add: m_def frame_msg_bytes rd16_def rd32_def rd64_def nth_append)

lemma frame_msg_enc_fields [simp]:
  fixes ssrc ts sf sn cap ready e fid last_us
  defines "m \<equiv> frame_msg ssrc ts sf sn cap ready (Some e) fid last_us"
  shows "rd32 m 52 = ei_frame_size_bytes e" "m ! 56 = ei_frame_type e" "m ! 57 = ei_qp e" "m ! 58 = ei_complexity e"
    "m ! 59 = ei_scene_change e" "m ! 60 = ei_gop_state e" "m ! 61 = ei_idr_inserted e"
    "rd16 m 62 = ei_frames_since_idr e"
  by (simp_all add: m_def frame_msg_bytes enc_trailer_def rd16_def rd32_def nth_append)

subsection \<open>Silent unless asked\<close>

text \<open>A request that counts, and what may be sent after a log \<open>pre\<close>.\<close>

definition accepted_request :: "bytes \<Rightarrow> bool" where
  "accepted_request b \<longleftrightarrow> sidecar_request b \<and>
     (b ! 5 = RTP_SIDECAR_MSG_SUBSCRIBE \<or> b ! 5 = RTP_SIDECAR_MSG_SYNC_REQ \<and> 16 \<le> length b)"

fun asks :: "side_event \<Rightarrow> bool" where
  "asks (SideHeard b src) = accepted_request b"
| "asks _ = False"

fun is_heard :: "side_event \<Rightarrow> bool" where
  "is_heard (SideHeard b src) = True"
| "is_heard _ = False"

text \<open>The last request that counts came from \<open>dst\<close>, and the clock read on its arrival gave \<open>e - TTL\<close>.\<close>

definition subscribed :: "side_event list \<Rightarrow> sockaddr \<Rightarrow> u64 \<Rightarrow> bool" where
  "subscribed evs dst e \<longleftrightarrow> (\<exists>p b q t r. evs = p @ [SideHeard b dst] @ q @ [SideClock t] @ r \<and> accepted_request b
     \<and> length q \<le> 3 \<and> (\<forall>x \<in> set q. \<not> is_heard x) \<and> (\<forall>x \<in> set r. \<not> asks x) \<and> e = t + RTP_SIDECAR_SUB_TTL_US)"

definition answers_sync :: "side_event list \<Rightarrow> sockaddr \<Rightarrow> bytes \<Rightarrow> bool" where
  "answers_sync pre dst m \<longleftrightarrow> (\<exists>p b t2 t3. pre = p @ [SideHeard b dst, SideClock t2, SideClock t3]
     \<and> accepted_request b \<and> b ! 5 = RTP_SIDECAR_MSG_SYNC_REQ \<and> m = sync_resp_msg (take 8 (drop 8 b)) t2 t3)"

definition reports_frame :: "side_event list \<Rightarrow> sockaddr \<Rightarrow> bytes \<Rightarrow> bool" where
  "reports_frame pre dst m \<longleftrightarrow> (\<exists>p t last_us e. pre = p @ [SideClock t, SideClock last_us]
     \<and> subscribed p dst e \<and> t < e
     \<and> (\<exists>ssrc ts sf sn cap ready info fid. m = frame_msg ssrc ts sf sn cap ready info fid last_us))"

definition licensed :: "side_event list \<Rightarrow> bool" where
  "licensed evs \<longleftrightarrow> (\<forall>i < length evs. \<forall>h dst m. evs ! i = SideSent h dst m \<longrightarrow>
     answers_sync (take i evs) dst m \<or> reports_frame (take i evs) dst m)"

lemma licensed_snoc:
  "licensed (evs @ [e]) \<longleftrightarrow> licensed evs
     \<and> (\<forall>h dst m. e = SideSent h dst m \<longrightarrow> answers_sync evs dst m \<or> reports_frame evs dst m)"
  by (auto simp: licensed_def less_Suc_eq nth_append)

lemma licensed_clock [simp]: "licensed (evs @ [SideClock t]) = licensed evs"
  "licensed (evs @ [SideHeard b src]) = licensed evs" "licensed (evs @ [SideOpened h p]) = licensed evs"
  "licensed (evs @ [SideClosed h]) = licensed evs"
  by (simp_all add: licensed_snoc)

lemma licensed_clocks: "licensed evs \<Longrightarrow> licensed (evs @ [SideHeard b src, SideClock t2, SideClock t3])"
  "licensed evs \<Longrightarrow> licensed (evs @ [SideHeard b src, SideClock t2])"
  using licensed_clock(1) [of "(evs @ [SideHeard b src]) @ [SideClock t2]" t3] licensed_clock(1) [of "evs @ [SideHeard b src]" t2]
  by simp_all

lemma licensed_opened: "licensed (evs @ [SideOpened h p, SideClosed h']) = licensed evs"
  using licensed_clock(4) [of "evs @ [SideOpened h p]" h'] licensed_clock(3) [of evs h p] by simp

lemma subscribed_append:
  assumes "subscribed evs dst e" and "\<forall>x \<in> set more'. \<not> asks x"
  shows "subscribed (evs @ more') dst e"
proof -
  from assms(1) obtain p b q t r where *: "evs = p @ [SideHeard b dst] @ q @ [SideClock t] @ r" "accepted_request b"
    "length q \<le> 3" "\<forall>x \<in> set q. \<not> is_heard x" "\<forall>x \<in> set r. \<not> asks x" "e = t + RTP_SIDECAR_SUB_TTL_US"
    unfolding subscribed_def by blast
  have "evs @ more' = p @ [SideHeard b dst] @ q @ [SideClock t] @ (r @ more')" using *(1) by simp
  moreover have "\<forall>x \<in> set (r @ more'). \<not> asks x" using *(5) assms(2) by auto
  ultimately show ?thesis unfolding subscribed_def using *(2-4,6) by blast
qed

text \<open>The channel's state agrees with its log.\<close>

definition side_inv :: "sidecar \<Rightarrow> side_event list \<Rightarrow> bool" where
  "side_inv s evs \<longleftrightarrow> licensed evs \<and> (sc_sub_expires_us s \<noteq> 0 \<longrightarrow> subscribed evs (sc_subscriber s) (sc_sub_expires_us s))"

lemmas side_defs = side_note_def sidecar_now_us_def side_sendto_def Let_def

lemma handle_refused: "\<not> accepted_request buf \<Longrightarrow> sidecar_handle buf src s w = (s, w)"
  by (auto simp: accepted_request_def sidecar_handle_def)

lemma handle_log:
  assumes "accepted_request buf" and "sidecar_handle buf src s w = (s', w')"
  shows "\<exists>q t. so_log w' = so_log w @ q @ [SideClock t]
    \<and> s' = s\<lparr>sc_subscriber := src, sc_sub_expires_us := t + RTP_SIDECAR_SUB_TTL_US\<rparr>
    \<and> (q = [] \<or> (\<exists>t1. q = [SideClock t1])
       \<or> (\<exists>t2 t3 out. q = [SideClock t2, SideClock t3] @ out \<and> buf ! 5 = RTP_SIDECAR_MSG_SYNC_REQ
           \<and> (out = [] \<or> out = [SideSent (sc_fd s) src (sync_resp_msg (take 8 (drop 8 buf)) t2 t3)])))"
proof (cases "buf ! 5 = RTP_SIDECAR_MSG_SUBSCRIBE")
  case True
  then show ?thesis using assms
    by (auto simp: accepted_request_def sidecar_handle_def sub_active_def sub_refresh_def side_defs split: if_splits)
next
  case False
  then show ?thesis using assms
    by (auto simp: accepted_request_def sidecar_handle_def sub_refresh_def side_defs split: if_splits list.splits)
qed

lemma handle_inv:
  assumes "side_inv s evs" "so_log w = evs @ [SideHeard buf src]" "sidecar_handle buf src s w = (s', w')"
  shows "side_inv s' (so_log w')"
proof (cases "accepted_request buf")
  case False
  with assms show ?thesis
    by (auto simp: handle_refused side_inv_def intro: subscribed_append)
next
  case True
  from handle_log [OF True assms(3)] obtain q t where q: "so_log w' = so_log w @ q @ [SideClock t]"
    "s' = s\<lparr>sc_subscriber := src, sc_sub_expires_us := t + RTP_SIDECAR_SUB_TTL_US\<rparr>"
    and shape: "q = [] \<or> (\<exists>t1. q = [SideClock t1])
       \<or> (\<exists>t2 t3 out. q = [SideClock t2, SideClock t3] @ out \<and> buf ! 5 = RTP_SIDECAR_MSG_SYNC_REQ
           \<and> (out = [] \<or> out = [SideSent (sc_fd s) src (sync_resp_msg (take 8 (drop 8 buf)) t2 t3)]))" by blast
  have l: "licensed evs" using assms(1) by (simp add: side_inv_def)
  have "subscribed (so_log w') src (t + RTP_SIDECAR_SUB_TTL_US)"
    unfolding subscribed_def
  proof (intro exI conjI)
    show "so_log w' = evs @ [SideHeard buf src] @ q @ [SideClock t] @ []" using q(1) assms(2) by simp
  qed (use True shape in auto)
  moreover have "licensed (so_log w')"
  proof -
    have "answers_sync ((evs @ [SideHeard buf src]) @ [SideClock t2, SideClock t3]) src (sync_resp_msg (take 8 (drop 8 buf)) t2 t3)"
      if "buf ! 5 = RTP_SIDECAR_MSG_SYNC_REQ" for t2 t3
      unfolding answers_sync_def using that True by auto
    with l have sent: "licensed (evs @ [SideHeard buf src, SideClock t2, SideClock t3] @ [SideSent h src (sync_resp_msg (take 8 (drop 8 buf)) t2 t3)])"
      if "buf ! 5 = RTP_SIDECAR_MSG_SYNC_REQ" for t2 t3 h
      using that licensed_snoc [of "evs @ [SideHeard buf src, SideClock t2, SideClock t3]"] licensed_clocks by simp
    have "licensed (so_log w @ q)" using shape l sent licensed_clocks by (auto simp: assms(2))
    then show ?thesis unfolding q(1) by (simp flip: append_assoc)
  qed
  ultimately show ?thesis by (simp add: side_inv_def q(2))
qed

lemma poll_rounds_inv: "side_inv s (so_log w) \<Longrightarrow> poll_rounds n s w = (s', w') \<Longrightarrow> side_inv s' (so_log w')"
proof (induction n arbitrary: s w)
  case (Suc n)
  obtain a w1 where r: "side_recvfrom w = (a, w1)" by (metis surj_pair)
  show ?case
  proof (cases a)
    case None
    then have "so_log w1 = so_log w" using r by (auto simp: side_recvfrom_def split: list.splits arrival.splits)
    with Suc.prems r None show ?thesis by simp
  next
    case (Some p)
    obtain buf src where p: "p = (buf, src)" by (metis surj_pair)
    have e: "so_log w1 = so_log w @ [SideHeard buf src]"
      using r Some p by (auto simp: side_recvfrom_def side_note_def split: list.splits arrival.splits)
    obtain s2 w2 where h: "sidecar_handle buf src s w1 = (s2, w2)" by (metis surj_pair)
    have "side_inv s2 (so_log w2)" by (rule handle_inv [OF Suc.prems(1) e h])
    with Suc.prems(2) r Some p h show ?thesis by (auto intro: Suc.IH)
  qed
qed simp

lemma send_frame_log:
  assumes "rtp_sidecar_send_frame ssrc ts sf sn cap ready info s w = (rc, s', w')"
  shows "sc_fd s' = sc_fd s \<and> sc_subscriber s' = sc_subscriber s \<and> sc_sub_expires_us s' = sc_sub_expires_us s
    \<and> (so_log w' = so_log w \<or> (\<exists>t. so_log w' = so_log w @ [SideClock t])
       \<or> (\<exists>t last_us. so_log w' = so_log w @ [SideClock t, SideClock last_us])
       \<or> (\<exists>t last_us. sc_sub_expires_us s \<noteq> 0 \<and> t < sc_sub_expires_us s
           \<and> so_log w' = so_log w @ [SideClock t, SideClock last_us,
               SideSent (sc_fd s) (sc_subscriber s) (frame_msg ssrc ts sf sn cap ready info (sc_frame_id s) last_us)]))"
  using assms by (auto simp: rtp_sidecar_send_frame_def sub_active_def side_defs split: if_splits list.splits)

lemma send_frame_inv:
  assumes "side_inv s (so_log w)" and "rtp_sidecar_send_frame ssrc ts sf sn cap ready info s w = (rc, s', w')"
  shows "side_inv s' (so_log w')"
proof -
  let ?l = "so_log w"
  have l: "licensed ?l" using assms(1) by (simp add: side_inv_def)
  then have c: "licensed (?l @ [SideClock t])" "licensed (?l @ [SideClock t, SideClock t'])" for t t'
    using licensed_clock(1) [of "?l @ [SideClock t]" t'] by simp_all
  have m: "licensed (?l @ [SideClock t, SideClock u, SideSent h (sc_subscriber s) (frame_msg ssrc ts sf sn cap ready info f u)])"
    if "sc_sub_expires_us s \<noteq> 0" "t < sc_sub_expires_us s" for t u h f
  proof -
    have "reports_frame (?l @ [SideClock t, SideClock u]) (sc_subscriber s) (frame_msg ssrc ts sf sn cap ready info f u)"
      using that assms(1) unfolding reports_frame_def side_inv_def by blast
    then show ?thesis using licensed_snoc [of "?l @ [SideClock t, SideClock u]"] c by simp
  qed
  have "licensed (so_log w')" using send_frame_log [OF assms(2)] l c m by auto
  moreover have "subscribed (so_log w') (sc_subscriber s') (sc_sub_expires_us s')" if "sc_sub_expires_us s' \<noteq> 0"
    using that send_frame_log [OF assms(2)] assms(1) unfolding side_inv_def
    by (auto simp: subscribed_append)
  ultimately show ?thesis by (simp add: side_inv_def)
qed

lemma side_inv_note: "side_inv s (so_log w) \<Longrightarrow> \<not> asks ev \<Longrightarrow> (\<And>h d m. ev \<noteq> SideSent h d m) \<Longrightarrow>
    side_inv s (so_log (side_note ev w))"
  by (auto simp: side_inv_def licensed_snoc side_note_def subscribed_append)

lemma init_inv: "licensed (so_log w) \<Longrightarrow> rtp_sidecar_sender_init port w = (rc, s', w') \<Longrightarrow> side_inv s' (so_log w')"
  unfolding rtp_sidecar_sender_init_def
  by (auto simp: side_inv_def sidecar_off_def licensed_opened side_note_def side_socket_def side_call_def Let_def
      split: if_splits list.splits prod.splits)

text \<open>What the streamer does with the channel.\<close>

datatype side_op = SideInit u16 | SideClose | SidePoll
  | SideFrame u32 u32 u16 u16 u64 u64 "enc_info option"

fun side_step :: "side_op \<Rightarrow> sidecar \<times> side_os \<Rightarrow> sidecar \<times> side_os" where
  "side_step (SideInit port) (s, w) = snd (rtp_sidecar_sender_init port w)"
| "side_step SideClose (s, w) = rtp_sidecar_sender_close s w"
| "side_step SidePoll (s, w) = rtp_sidecar_poll s w"
| "side_step (SideFrame ssrc ts sf sn cap ready info) (s, w) =
     snd (rtp_sidecar_send_frame ssrc ts sf sn cap ready info s w)"

lemma side_step_inv: "side_inv s (so_log w) \<Longrightarrow> side_step op (s, w) = (s', w') \<Longrightarrow> side_inv s' (so_log w')"
proof (cases op)
  case (SideInit port)
  assume "side_inv s (so_log w)" "side_step op (s, w) = (s', w')"
  then show ?thesis using SideInit init_inv [of w port] by (metis prod.collapse side_inv_def side_step.simps(1))
next
  case SideClose
  assume "side_inv s (so_log w)" "side_step op (s, w) = (s', w')"
  then show ?thesis using SideClose
    by (auto simp: rtp_sidecar_sender_close_def side_inv_def licensed_snoc side_note_def
        subscribed_append split: if_splits)
next
  case SidePoll
  assume "side_inv s (so_log w)" "side_step op (s, w) = (s', w')"
  then show ?thesis using SidePoll by (auto simp: rtp_sidecar_poll_def split: if_splits intro: poll_rounds_inv)
next
  case (SideFrame ssrc ts sf sn cap ready info)
  assume a: "side_inv s (so_log w)" "side_step op (s, w) = (s', w')"
  obtain rc where "rtp_sidecar_send_frame ssrc ts sf sn cap ready info s w = (rc, s', w')"
    using a(2) SideFrame by (metis prod.collapse side_step.simps(4))
  then show ?thesis by (rule send_frame_inv [OF a(1)])
qed

lemma side_run_inv: "side_inv s (so_log w) \<Longrightarrow> fold side_step ops (s, w) = (s', w') \<Longrightarrow> side_inv s' (so_log w')"
proof (induction ops arbitrary: s w)
  case (Cons op ops)
  obtain s1 w1 where 1: "side_step op (s, w) = (s1, w1)" by (metis surj_pair)
  then show ?case using Cons side_step_inv by fastforce
qed simp

text \<open>Property C13. The channel is silent unless asked. Over any sequence of initialisations, polls,
  frames and closings, each datagram it sends is either the answer to a time request that came from
  the receiver just before, with the two readings of the clock taken in between, or a frame's
  message to the source of the last request that counts, sent while less than five seconds passed
  on the clock since that request.
\<close>

theorem sidecar_silent:
  assumes "so_log w = []" and "so_log (snd (fold side_step ops (sidecar_off, w))) = pre @ [SideSent h dst m] @ post"
  shows "answers_sync pre dst m \<or> reports_frame pre dst m"
proof -
  obtain s' w' where r: "fold side_step ops (sidecar_off, w) = (s', w')" by (metis surj_pair)
  have "side_inv sidecar_off (so_log w)" by (simp add: side_inv_def sidecar_off_def licensed_def assms(1))
  from side_run_inv [OF this r] have "licensed (so_log w')" by (simp add: side_inv_def)
  then have "licensed (pre @ [SideSent h dst m] @ post)" using assms(2) r by simp
  then have "\<forall>h' d' m'. (pre @ [SideSent h dst m] @ post) ! length pre = SideSent h' d' m' \<longrightarrow>
      answers_sync (take (length pre) (pre @ [SideSent h dst m] @ post)) d' m'
      \<or> reports_frame (take (length pre) (pre @ [SideSent h dst m] @ post)) d' m'"
    unfolding licensed_def by (metis append_is_Nil_conv length_append length_greater_0_conv less_add_same_cancel1 not_Cons_self2)
  then show ?thesis by (simp add: nth_append)
qed

definition demo_probe :: sockaddr where "demo_probe = SinAddr [10, 0, 0, 2] 40000"

definition demo_subscribe :: bytes where
  "demo_subscribe = put_be32 RTP_SIDECAR_MAGIC @ [RTP_SIDECAR_VERSION, RTP_SIDECAR_MSG_SUBSCRIBE, 0, 0]"

text \<open>A probe that subscribes, two frames, and a third after the subscription ran out.\<close>

definition demo_side :: side_os where
  "demo_side = \<lparr>so_sockets = [9], so_calls = [True, True, True], so_arrivals = [Arrived demo_subscribe demo_probe, NoDatagram],
     so_answers = [SendOk, SendOk, SendOk], so_time = (\<lambda>n. if n < 5 then 1000 else 6000000), so_ticks = 0, so_log = []\<rparr>"

definition demo_side_ops :: "side_op list" where
  "demo_side_ops = [SideInit 6666, SidePoll, SideFrame 7 9000 10 3 1 2 None, SideFrame 7 12000 13 2 1 2 None,
     SideFrame 7 15000 15 2 1 2 None]"

lemma demo_side_log:
  "so_log (snd (fold side_step demo_side_ops (sidecar_off, demo_side))) =
     [SideOpened 9 6666, SideHeard demo_subscribe demo_probe, SideClock 1000, SideClock 1000, SideClock 1000]
     @ [SideSent 9 demo_probe (frame_msg 7 9000 10 3 1 2 None 0 1000)]
     @ [SideClock 1000, SideClock 1000, SideSent 9 demo_probe (frame_msg 7 12000 13 2 1 2 None 1 1000),
        SideClock 6000000]"
  by code_simp

theorem sidecar_silent_witness:
  "reports_frame [SideOpened 9 6666, SideHeard demo_subscribe demo_probe, SideClock 1000, SideClock 1000, SideClock 1000]
     demo_probe (frame_msg 7 9000 10 3 1 2 None 0 1000)"
proof -
  have "so_log demo_side = []" by (simp add: demo_side_def)
  note s = sidecar_silent [OF this demo_side_log]
  have "accepted_request demo_subscribe \<and> demo_subscribe ! 5 \<noteq> RTP_SIDECAR_MSG_SYNC_REQ" by code_simp
  then have "\<not> answers_sync [SideOpened 9 6666, SideHeard demo_subscribe demo_probe, SideClock 1000, SideClock 1000, SideClock 1000]
      demo_probe (frame_msg 7 9000 10 3 1 2 None 0 1000)"
    by (auto simp: answers_sync_def append_eq_Cons_conv)
  with s show ?thesis by blast
qed

end
