(* ===== verification/TimingProbe.thy ===== *)
theory TimingProbe imports Sidecar RtpPacketizer "HOL-Library.Signed_Division" begin

text \<open>
  The other end of the metadata channel: \<open>tools/rtp_timing_probe.c\<close>, the program that subscribes,
  estimates the offset of the two clocks and joins the frames' messages with the RTP packets. The
  statistics it prints on exit are left out.
\<close>

subsection \<open>RTP headers\<close>

record rtp_hdr =
  rh_v_p_x_cc :: u8
  rh_m_pt :: u8
  rh_seq :: u16
  rh_timestamp :: u32
  rh_ssrc :: u32

definition probe_rtp_parse :: "bytes \<Rightarrow> rtp_hdr option" where
  "probe_rtp_parse buf =
     (if length buf < 12 \<or> drop_bit 6 (buf ! 0) \<noteq> 2 then None
      else Some \<lparr>rh_v_p_x_cc = buf ! 0, rh_m_pt = buf ! 1, rh_seq = rd16 buf 2, rh_timestamp = rd32 buf 4,
                 rh_ssrc = rd32 buf 8\<rparr>)"

subsection \<open>The messages that wait for their frame\<close>

definition SIDECAR_CACHE_SIZE :: nat where "SIDECAR_CACHE_SIZE = 64"

record cache_entry =
  ce_ssrc :: u32
  ce_rtp_ts :: u32
  ce_frame_id :: u64
  ce_capture_us :: u64
  ce_frame_ready_us :: u64
  ce_last_pkt_send_us :: u64
  ce_seq_first :: u16
  ce_seq_count :: u16
  ce_enc :: "enc_info option"
  ce_meta_recv_us :: u64
  ce_valid :: bool

definition cache_empty_entry :: cache_entry where
  "cache_empty_entry = \<lparr>ce_ssrc = 0, ce_rtp_ts = 0, ce_frame_id = 0, ce_capture_us = 0, ce_frame_ready_us = 0,
     ce_last_pkt_send_us = 0, ce_seq_first = 0, ce_seq_count = 0, ce_enc = None, ce_meta_recv_us = 0, ce_valid = False\<rparr>"

definition cache_index :: "u32 \<Rightarrow> u32 \<Rightarrow> nat" where
  "cache_index ssrc rtp_ts = unat ((ssrc XOR rtp_ts) AND 63)"

definition wire_entry :: "bytes \<Rightarrow> u64 \<Rightarrow> cache_entry" where
  "wire_entry buf recv_us =
     \<lparr>ce_ssrc = rd32 buf 8, ce_rtp_ts = rd32 buf 12, ce_frame_id = rd64 buf 16, ce_capture_us = rd64 buf 36,
      ce_frame_ready_us = rd64 buf 24, ce_last_pkt_send_us = rd64 buf 44, ce_seq_first = rd16 buf 32,
      ce_seq_count = rd16 buf 34,
      ce_enc = (if buf ! 7 AND RTP_SIDECAR_FLAG_ENC_INFO \<noteq> 0 \<and> 64 \<le> length buf
        then Some \<lparr>ei_frame_size_bytes = rd32 buf 52, ei_frame_type = buf ! 56, ei_qp = buf ! 57,
                   ei_complexity = buf ! 58, ei_scene_change = buf ! 59, ei_gop_state = buf ! 60,
                   ei_idr_inserted = buf ! 61, ei_frames_since_idr = rd16 buf 62\<rparr>
        else None),
      ce_meta_recv_us = recv_us, ce_valid = True\<rparr>"

definition cache_store_frame :: "bytes \<Rightarrow> u64 \<Rightarrow> cache_entry list \<Rightarrow> cache_entry list" where
  "cache_store_frame buf recv_us cache = cache[cache_index (rd32 buf 8) (rd32 buf 12) := wire_entry buf recv_us]"

definition cache_lookup :: "u32 \<Rightarrow> u32 \<Rightarrow> cache_entry list \<Rightarrow> cache_entry option" where
  "cache_lookup ssrc rtp_ts cache =
     (let e = cache ! cache_index ssrc rtp_ts in
      if ce_valid e \<and> ce_ssrc e = ssrc \<and> ce_rtp_ts e = rtp_ts then Some e else None)"

subsection \<open>The offset of the clocks\<close>

definition SYNC_FILTER_SIZE :: nat where "SYNC_FILTER_SIZE = 8"

record sync_state =
  ss_rtt_us :: "int list"
  ss_offset_us :: "int list"
  ss_count :: nat
  ss_next :: u32
  ss_best_offset_us :: int
  ss_valid :: bool
  ss_pending_t1 :: u64

definition sync_zero :: sync_state where
  "sync_zero = \<lparr>ss_rtt_us = replicate 8 0, ss_offset_us = replicate 8 0, ss_count = 0, ss_next = 0,
     ss_best_offset_us = 0, ss_valid = False, ss_pending_t1 = 0\<rparr>"

definition sync_rtt :: "u64 \<Rightarrow> u64 \<Rightarrow> u64 \<Rightarrow> u64 \<Rightarrow> int" where
  "sync_rtt t1 t2 t3 t4 = sint (t4 - t1) - sint (t3 - t2)"

definition sync_offset :: "u64 \<Rightarrow> u64 \<Rightarrow> u64 \<Rightarrow> u64 \<Rightarrow> int" where
  "sync_offset t1 t2 t3 t4 = (sint (t2 - t1) + sint (t3 - t4)) sdiv 2"

text \<open>The scan for the sample with the least round trip: entries \<open>j\<close> up to \<open>n\<close>.\<close>

fun best_sample :: "int list \<Rightarrow> int list \<Rightarrow> int \<times> int \<Rightarrow> int \<times> int" where
  "best_sample (r # rs) (c # cs) (min_rtt, best) = best_sample rs cs (if r < min_rtt then (r, c) else (min_rtt, best))"
| "best_sample _ _ acc = acc"

definition sync_record :: "u64 \<Rightarrow> u64 \<Rightarrow> u64 \<Rightarrow> u64 \<Rightarrow> sync_state \<Rightarrow> sync_state" where
  "sync_record t1 t2 t3 t4 ss =
     (let i = unat (ss_next ss AND 7);
          rtts = (ss_rtt_us ss)[i := sync_rtt t1 t2 t3 t4];
          offsets = (ss_offset_us ss)[i := sync_offset t1 t2 t3 t4];
          n = (if ss_count ss < SYNC_FILTER_SIZE then ss_count ss + 1 else ss_count ss)
      in ss\<lparr>ss_rtt_us := rtts, ss_offset_us := offsets, ss_next := ss_next ss + 1, ss_count := n,
            ss_best_offset_us := snd (best_sample (tl (take n rtts)) (tl (take n offsets)) (rtts ! 0, offsets ! 0)),
            ss_valid := True\<rparr>)"

subsection \<open>Requests\<close>

definition send_subscribe_msg :: bytes where
  "send_subscribe_msg = put_be32 RTP_SIDECAR_MAGIC @ [RTP_SIDECAR_VERSION, RTP_SIDECAR_MSG_SUBSCRIBE, 0, 0]"

definition send_sync_req_msg :: "u64 \<Rightarrow> bytes" where
  "send_sync_req_msg t1 = put_be32 RTP_SIDECAR_MAGIC @ [RTP_SIDECAR_VERSION, RTP_SIDECAR_MSG_SYNC_REQ, 0, 0]
     @ sidecar_htobe64 t1"

subsection \<open>The probe\<close>

record frame_accum =
  fa_active :: bool
  fa_ssrc :: u32
  fa_rtp_ts :: u32
  fa_seq_first :: u16
  fa_seq_last :: u16
  fa_gaps :: u32
  fa_recv_first_us :: u64
  fa_recv_last_us :: u64

text \<open>A line of the output: zero stands for a column printed as a dash.\<close>

record probe_row =
  row_frame_no :: nat
  row_accum :: frame_accum
  row_meta :: "cache_entry option"
  row_sender_ivl :: u64
  row_recv_ivl :: u64
  row_encode_dur :: u64
  row_send_spread :: u64
  row_latency :: "int option"

record probe =
  pr_cache :: "cache_entry list"
  pr_fa :: frame_accum
  pr_ss :: sync_state
  pr_frame_no :: nat
  pr_prev_frame_ready :: u64
  pr_prev_recv_first :: u64
  pr_last_subscribe :: u64
  pr_last_sync :: u64
  pr_sent :: "bytes list"
  pr_rows :: "probe_row list"

definition emit_frame :: "nat \<Rightarrow> frame_accum \<Rightarrow> cache_entry option \<Rightarrow> u64 \<Rightarrow> u64 \<Rightarrow> sync_state \<Rightarrow> probe_row" where
  "emit_frame frame_no fa ce prev_ready prev_recv ss =
     \<lparr>row_frame_no = frame_no, row_accum = fa, row_meta = ce,
      row_sender_ivl = (case ce of None \<Rightarrow> 0 | Some e \<Rightarrow> if prev_ready \<noteq> 0 then ce_frame_ready_us e - prev_ready else 0),
      row_recv_ivl = (if prev_recv \<noteq> 0 then fa_recv_first_us fa - prev_recv else 0),
      row_encode_dur = (case ce of None \<Rightarrow> 0 | Some e \<Rightarrow>
        if ce_capture_us e \<noteq> 0 \<and> ce_capture_us e < ce_frame_ready_us e then ce_frame_ready_us e - ce_capture_us e else 0),
      row_send_spread = (case ce of None \<Rightarrow> 0 | Some e \<Rightarrow>
        if ce_last_pkt_send_us e \<noteq> 0 \<and> ce_frame_ready_us e < ce_last_pkt_send_us e
        then ce_last_pkt_send_us e - ce_frame_ready_us e else 0),
      row_latency = (case ce of None \<Rightarrow> None | Some e \<Rightarrow>
        if ss_valid ss then Some (sint (fa_recv_last_us fa) - (sint (ce_frame_ready_us e) - ss_best_offset_us ss)) else None)\<rparr>"

definition probe_sidecar :: "bytes \<Rightarrow> u64 \<Rightarrow> probe \<Rightarrow> probe" where
  "probe_sidecar buf recv_ts pr =
     (if \<not> sidecar_request buf then pr
      else if buf ! 5 = RTP_SIDECAR_MSG_FRAME \<and> 52 \<le> length buf
      then pr\<lparr>pr_cache := cache_store_frame buf recv_ts (pr_cache pr)\<rparr>
      else if buf ! 5 = RTP_SIDECAR_MSG_SYNC_RESP \<and> 32 \<le> length buf \<and> ss_pending_t1 (pr_ss pr) \<noteq> 0
           \<and> rd64 buf 8 = ss_pending_t1 (pr_ss pr)
      then pr\<lparr>pr_ss := (sync_record (rd64 buf 8) (rd64 buf 16) (rd64 buf 24) recv_ts (pr_ss pr))\<lparr>ss_pending_t1 := 0\<rparr>\<rparr>
      else pr)"

definition accum_packet :: "rtp_hdr \<Rightarrow> u64 \<Rightarrow> frame_accum \<Rightarrow> frame_accum" where
  "accum_packet h recv_ts fa =
     (if \<not> fa_active fa
      then \<lparr>fa_active = True, fa_ssrc = rh_ssrc h, fa_rtp_ts = rh_timestamp h, fa_seq_first = rh_seq h,
            fa_seq_last = rh_seq h, fa_gaps = 0, fa_recv_first_us = recv_ts, fa_recv_last_us = recv_ts\<rparr>
      else let expected = fa_seq_last fa + 1 in
        fa\<lparr>fa_gaps := (if rh_seq h \<noteq> expected then fa_gaps fa + ucast (rh_seq h - expected) else fa_gaps fa),
           fa_seq_last := rh_seq h, fa_recv_last_us := recv_ts\<rparr>)"

text \<open>The packet with the marker: the frame's line, joined with the message stored for it.\<close>

definition close_frame :: "frame_accum \<Rightarrow> probe \<Rightarrow> probe" where
  "close_frame fa pr =
     (let ce = cache_lookup (fa_ssrc fa) (fa_rtp_ts fa) (pr_cache pr) in
      pr\<lparr>pr_fa := fa\<lparr>fa_active := False\<rparr>, pr_frame_no := pr_frame_no pr + 1,
         pr_rows := pr_rows pr @ [emit_frame (pr_frame_no pr) fa ce (pr_prev_frame_ready pr) (pr_prev_recv_first pr) (pr_ss pr)],
         pr_prev_frame_ready := (case ce of None \<Rightarrow> pr_prev_frame_ready pr | Some e \<Rightarrow> ce_frame_ready_us e),
         pr_prev_recv_first := fa_recv_first_us fa\<rparr>)"

definition probe_rtp :: "bytes \<Rightarrow> u64 \<Rightarrow> probe \<Rightarrow> probe" where
  "probe_rtp buf recv_ts pr = (case probe_rtp_parse buf of
     None \<Rightarrow> pr
   | Some h \<Rightarrow>
     let fa = accum_packet h recv_ts (pr_fa pr) in
     if bit (rh_m_pt h) 7 then close_frame fa pr else pr\<lparr>pr_fa := fa\<rparr>)"

text \<open>The requests due at a time; \<open>t1\<close> is the clock read when a time request is made.\<close>

definition probe_requests :: "u64 \<Rightarrow> u64 \<Rightarrow> probe \<Rightarrow> probe" where
  "probe_requests now t1 pr =
     (let pr1 = (if now - pr_last_subscribe pr \<ge> 2000000
                 then pr\<lparr>pr_sent := pr_sent pr @ [send_subscribe_msg], pr_last_subscribe := now\<rparr> else pr)
      in if now - pr_last_sync pr1 \<ge> (if ss_count (pr_ss pr1) < 8 then 200000 else 10000000)
         then pr1\<lparr>pr_ss := (pr_ss pr1)\<lparr>ss_pending_t1 := t1\<rparr>, pr_sent := pr_sent pr1 @ [send_sync_req_msg t1],
                  pr_last_sync := now\<rparr>
         else pr1)"

text \<open>One turn of the loop: the clock, and what \<open>select\<close> and \<open>recv\<close> give for the two sockets.\<close>

record probe_turn =
  pt_now :: u64
  pt_t1 :: u64
  pt_side :: "(bytes \<times> u64) option"
  pt_rtp :: "(bytes \<times> u64) option"

definition probe_loop :: "probe_turn \<Rightarrow> probe \<Rightarrow> probe" where
  "probe_loop turn pr =
     (let pr1 = probe_requests (pt_now turn) (pt_t1 turn) pr;
          pr2 = (case pt_side turn of None \<Rightarrow> pr1 | Some (b, ts) \<Rightarrow> probe_sidecar (take 2048 b) ts pr1)
      in case pt_rtp turn of None \<Rightarrow> pr2 | Some (b, ts) \<Rightarrow> probe_rtp (take 2048 b) ts pr2)"

definition probe_init :: probe where
  "probe_init = \<lparr>pr_cache = replicate SIDECAR_CACHE_SIZE cache_empty_entry,
     pr_fa = \<lparr>fa_active = False, fa_ssrc = 0, fa_rtp_ts = 0, fa_seq_first = 0, fa_seq_last = 0, fa_gaps = 0,
              fa_recv_first_us = 0, fa_recv_last_us = 0\<rparr>,
     pr_ss = sync_zero, pr_frame_no = 0, pr_prev_frame_ready = 0, pr_prev_recv_first = 0, pr_last_subscribe = 0,
     pr_last_sync = 0, pr_sent = [], pr_rows = []\<rparr>"

subsection \<open>How far the estimated offset can be off\<close>

text \<open>
  A sample: the request left the probe at \<open>t1\<close> and the answer came at \<open>t4\<close> on its clock; the
  streamer, whose clock is ahead by \<open>d\<close>, got the request at \<open>t2\<close> and answered at \<open>t3\<close>.
\<close>

definition causal :: "int \<Rightarrow> u64 \<times> u64 \<times> u64 \<times> u64 \<Rightarrow> bool" where
  "causal d = (\<lambda>(t1, t2, t3, t4). unat t1 < 2 ^ 62 \<and> unat t2 < 2 ^ 62 \<and> unat t3 < 2 ^ 62 \<and> unat t4 < 2 ^ 62
     \<and> int (unat t1) \<le> int (unat t2) - d \<and> unat t2 \<le> unat t3 \<and> int (unat t3) - d \<le> int (unat t4))"

definition round_trip :: "u64 \<times> u64 \<times> u64 \<times> u64 \<Rightarrow> int" where
  "round_trip = (\<lambda>(t1, t2, t3, t4). (int (unat t4) - int (unat t1)) - (int (unat t3) - int (unat t2)))"

lemma signed_take_bit_diff: "m < 2 ^ 62 \<Longrightarrow> n < 2 ^ 62 \<Longrightarrow> signed_take_bit 63 (int m - int n) = int m - int n"
  by (rule signed_take_bit_int_eq_self) simp_all

lemma sint_diff:
  fixes a b :: u64
  assumes "unat a < 2 ^ 62" "unat b < 2 ^ 62"
  shows "sint (a - b) = int (unat a) - int (unat b)"
proof -
  have "a - b = word_of_int (int (unat a) - int (unat b))" by simp
  then have "sint (a - b) = signed_take_bit 63 (int (unat a) - int (unat b))"
    by (simp only: signed_of_int) simp
  then show ?thesis using signed_take_bit_diff [OF assms] by (rule trans)
qed

lemma sdiv2_near: "\<bar>2 * (x sdiv 2) - x\<bar> \<le> (1 :: int)"
  by (auto simp: signed_divide_int_def sgn_if)

lemma half_off:
  fixes y x d r :: int
  assumes "\<bar>2 * y - x\<bar> \<le> 1" "\<bar>x - 2 * d\<bar> \<le> r"
  shows "2 * \<bar>y - d\<bar> \<le> r + 1"
proof (cases "d \<le> y")
  case True
  then have a: "\<bar>y - d\<bar> = y - d" by simp
  from assms have "2 * y \<le> x + 1" "x \<le> 2 * d + r" by (simp_all only: abs_le_iff) linarith+
  then show ?thesis unfolding a right_diff_distrib by simp
next
  case False
  then have a: "\<bar>y - d\<bar> = d - y" by simp
  from assms have "x \<le> 2 * y + 1" "2 * d \<le> x + r" by (simp_all only: abs_le_iff) linarith+
  then show ?thesis unfolding a right_diff_distrib by simp
qed

lemma sync_sample:
  assumes "causal d (t1, t2, t3, t4)"
  shows "sync_rtt t1 t2 t3 t4 = round_trip (t1, t2, t3, t4)"
    and "2 * \<bar>sync_offset t1 t2 t3 t4 - d\<bar> \<le> sync_rtt t1 t2 t3 t4 + 1"
proof -
  show r: "sync_rtt t1 t2 t3 t4 = round_trip (t1, t2, t3, t4)"
    using assms by (simp add: causal_def sync_rtt_def round_trip_def sint_diff)
  define x where "x = (int (unat t2) - int (unat t1)) + (int (unat t3) - int (unat t4))"
  have o: "sync_offset t1 t2 t3 t4 = x sdiv 2" using assms by (simp add: causal_def sync_offset_def sint_diff x_def)
  have "\<bar>x - 2 * d\<bar> \<le> round_trip (t1, t2, t3, t4)" using assms by (auto simp: causal_def round_trip_def x_def)
  then show "2 * \<bar>sync_offset t1 t2 t3 t4 - d\<bar> \<le> sync_rtt t1 t2 t3 t4 + 1"
    unfolding r o using half_off [OF sdiv2_near] by blast
qed

lemma best_sample_least:
  assumes "length rs = length cs" and "best_sample rs cs (m, b) = (m', b')"
  shows "m' \<le> m \<and> (\<forall>r \<in> set rs. m' \<le> r) \<and> ((m', b') = (m, b) \<or> (m', b') \<in> set (zip rs cs))"
  using assms
proof (induction rs cs "(m, b)" arbitrary: m b rule: best_sample.induct)
  case (1 r rs c cs m b)
  show ?case
  proof (cases "r < m")
    case True
    then show ?thesis using 1(1) [of r c] 1(2,3) by auto
  next
    case False
    then show ?thesis using 1(1) [of m b] 1(2,3) by auto
  qed
qed auto

text \<open>The window holds the last samples, each in the slot its number gives.\<close>

definition window :: "(u64 \<times> u64 \<times> u64 \<times> u64) list \<Rightarrow> sync_state \<Rightarrow> bool" where
  "window xs ss \<longleftrightarrow> length (ss_rtt_us ss) = 8 \<and> length (ss_offset_us ss) = 8 \<and> ss_count ss = min 8 (length xs)
     \<and> ss_next ss = word_of_nat (length xs)
     \<and> (\<forall>j < length xs. length xs \<le> j + 8 \<longrightarrow> (case xs ! j of (t1, t2, t3, t4) \<Rightarrow>
          ss_rtt_us ss ! (j mod 8) = sync_rtt t1 t2 t3 t4 \<and> ss_offset_us ss ! (j mod 8) = sync_offset t1 t2 t3 t4))"

lemma slot_of: "unat ((word_of_nat n :: u32) AND 7) = n mod 8"
proof -
  have "(word_of_nat n :: u32) AND 7 = take_bit 3 (word_of_nat n)"
    by (simp add: take_bit_eq_mask mask_eq_exp_minus_1)
  then have "unat ((word_of_nat n :: u32) AND 7) = take_bit 3 (take_bit 32 n)"
    by (simp add: unsigned_take_bit_eq unsigned_of_nat)
  then show ?thesis by (simp add: take_bit_eq_mod mod_mod_cancel)
qed

lemma window_record:
  assumes "window xs ss"
  shows "window (xs @ [(t1, t2, t3, t4)]) (sync_record t1 t2 t3 t4 ss)"
proof -
  have s: "unat (ss_next ss AND 7) = length xs mod 8" using assms by (simp add: window_def slot_of)
  have "j mod 8 \<noteq> length xs mod 8" if "j < length xs" "length xs \<le> 7 + j" for j
  proof
    assume "j mod 8 = length xs mod 8"
    then have "8 dvd length xs - j" using that(1) by (metis less_imp_le_nat mod_eq_dvd_iff_nat)
    then show False using that by (auto dest: dvd_imp_le)
  qed
  note neq = this
  let ?ss = "sync_record t1 t2 t3 t4 ss" and ?i = "length xs mod 8"
  have r: "ss_rtt_us ?ss = (ss_rtt_us ss)[?i := sync_rtt t1 t2 t3 t4]"
    "ss_offset_us ?ss = (ss_offset_us ss)[?i := sync_offset t1 t2 t3 t4]"
    "ss_next ?ss = ss_next ss + 1" "ss_count ?ss = (if ss_count ss < 8 then ss_count ss + 1 else ss_count ss)"
    using s by (simp_all add: sync_record_def Let_def SYNC_FILTER_SIZE_def)
  note w = assms [unfolded window_def]
  note l = w [THEN conjunct1] w [THEN conjunct2, THEN conjunct1]
  note c = w [THEN conjunct2, THEN conjunct2, THEN conjunct1] w [THEN conjunct2, THEN conjunct2, THEN conjunct2, THEN conjunct1]
  have old: "case xs ! j of (t1, t2, t3, t4) \<Rightarrow>
      ss_rtt_us ss ! (j mod 8) = sync_rtt t1 t2 t3 t4 \<and> ss_offset_us ss ! (j mod 8) = sync_offset t1 t2 t3 t4"
    if "j < length xs" "length xs \<le> j + 8" for j
    by (rule w [THEN conjunct2, THEN conjunct2, THEN conjunct2, THEN conjunct2, rule_format, OF that])
  have new: "case (xs @ [(t1, t2, t3, t4)]) ! j of (t1, t2, t3, t4) \<Rightarrow>
      ss_rtt_us ?ss ! (j mod 8) = sync_rtt t1 t2 t3 t4 \<and> ss_offset_us ?ss ! (j mod 8) = sync_offset t1 t2 t3 t4"
    if "j < Suc (length xs)" "Suc (length xs) \<le> j + 8" for j
  proof (cases "j = length xs")
    case True
    then show ?thesis by (simp add: r l)
  next
    case False
    then have "j < length xs" "length xs \<le> 7 + j" using that by simp_all
    then show ?thesis using neq [of j] old [of j] by (simp add: r nth_append)
  qed
  have "length (ss_rtt_us ?ss) = 8 \<and> length (ss_offset_us ?ss) = 8
      \<and> ss_count ?ss = min 8 (length (xs @ [(t1, t2, t3, t4)])) \<and> ss_next ?ss = word_of_nat (length (xs @ [(t1, t2, t3, t4)]))"
    by (simp add: r l c min_def)
  then show ?thesis using new unfolding window_def by simp
qed

definition sync_run :: "(u64 \<times> u64 \<times> u64 \<times> u64) list \<Rightarrow> sync_state \<Rightarrow> sync_state" where
  "sync_run xs ss = fold (\<lambda>(t1, t2, t3, t4). sync_record t1 t2 t3 t4) xs ss"

lemma window_run: "window xs (sync_run xs sync_zero)"
proof (induction xs rule: rev_induct)
  case Nil
  show ?case by (simp add: window_def sync_run_def sync_zero_def)
next
  case (snoc x xs)
  obtain t1 t2 t3 t4 where "x = (t1, t2, t3, t4)" by (metis prod_cases4)
  then show ?case using window_record [OF snoc] by (simp add: sync_run_def)
qed

lemma record_best:
  assumes "window xs ss" and "window (xs @ [x]) (sync_record t1 t2 t3 t4 ss)"
  defines "ss' \<equiv> sync_record t1 t2 t3 t4 ss"
  shows "ss_valid ss' \<and> (\<exists>k < ss_count ss'. ss_best_offset_us ss' = ss_offset_us ss' ! k
    \<and> (\<forall>j < ss_count ss'. ss_rtt_us ss' ! k \<le> ss_rtt_us ss' ! j))"
proof -
  let ?n = "ss_count ss'" and ?r = "ss_rtt_us ss'" and ?o = "ss_offset_us ss'"
  have len: "length ?r = 8" "length ?o = 8" "?n = min 8 (Suc (length xs))"
    using assms(2) [unfolded window_def] unfolding ss'_def by simp_all
  obtain m b where bs: "best_sample (tl (take ?n ?r)) (tl (take ?n ?o)) (?r ! 0, ?o ! 0) = (m, b)" by (metis surj_pair)
  have best: "ss_valid ss'" "ss_best_offset_us ss' = b"
    using bs by (simp_all add: ss'_def sync_record_def Let_def)
  have lt: "length (tl (take ?n ?r)) = length (tl (take ?n ?o))" by (simp add: len)
  have at: "tl (take ?n ?r) ! i = ?r ! Suc i" "tl (take ?n ?o) ! i = ?o ! Suc i" if "Suc i < ?n" for i
    using that len by (simp_all add: nth_tl)
  note least = best_sample_least [OF lt bs]
  have "\<exists>k < ?n. m = ?r ! k \<and> b = ?o ! k"
  proof (cases "(m, b) = (?r ! 0, ?o ! 0)")
    case True
    then show ?thesis using len(3) by (intro exI [of _ 0]) simp
  next
    case False
    then have "(m, b) \<in> set (zip (tl (take ?n ?r)) (tl (take ?n ?o)))" using least by blast
    then obtain i where "i < length (tl (take ?n ?r))" "m = tl (take ?n ?r) ! i" "b = tl (take ?n ?o) ! i"
      by (auto simp: set_zip)
    then show ?thesis using at [of i] len by (intro exI [of _ "Suc i"]) auto
  qed
  moreover have "m \<le> ?r ! j" if "j < ?n" for j
  proof (cases j)
    case 0
    then show ?thesis using least by simp
  next
    case (Suc i)
    then have "?r ! j \<in> set (tl (take ?n ?r))" using at(1) [of i] that len by (metis Suc_less_eq length_take length_tl less_diff_conv min.absorb4 nth_mem Suc_eq_plus1 min_less_iff_conj)
    then show ?thesis using least by blast
  qed
  ultimately show ?thesis using best by metis
qed

lemma window_slots:
  assumes "window xs ss" and "k < ss_count ss"
  obtains j where "j < length xs" "length xs \<le> j + 8" "j mod 8 = k"
proof -
  have c: "ss_count ss = min 8 (length xs)" using assms(1) [unfolded window_def] by blast
  define j where "j = length xs - 1 - ((length xs - 1 - k) mod 8)"
  have k: "k < 8" "k < length xs" using assms(2) c by simp_all
  have "(length xs - 1 - k) mod 8 \<le> length xs - 1 - k" by simp
  then have jk: "k \<le> j" "j < length xs" using k by (auto simp: j_def)
  have "length xs \<le> j + 8" using mod_less_divisor [of 8 "length xs - 1 - k"] k(2) unfolding j_def by linarith
  moreover have "j - k = (length xs - 1 - k) div 8 * 8"
    using k(2) by (simp add: j_def minus_mod_eq_div_mult [symmetric])
  then have "j mod 8 = k" using jk(1) k(1) by (metis le_add_diff_inverse mod_less mod_mult_self2 mult.commute)
  ultimately show ?thesis using that jk(2) by blast
qed

text \<open>Property C15. The error of the clock offset the probe uses is at most half the shortest round trip
  among its last eight samples, whatever part of the way each direction took, and whatever happened
  before these eight.
\<close>

theorem sync_offset_bound:
  assumes "xs \<noteq> []" and "\<forall>x \<in> set (drop (length xs - 8) xs). causal d x"
    and "x \<in> set (drop (length xs - 8) xs)"
  shows "ss_valid (sync_run xs sync_zero) \<and> 2 * \<bar>ss_best_offset_us (sync_run xs sync_zero) - d\<bar> \<le> round_trip x + 1"
proof -
  obtain ys t1 t2 t3 t4 where ys: "xs = ys @ [(t1, t2, t3, t4)]" using assms(1) by (metis prod_cases4 rev_exhaust)
  let ?ss = "sync_run xs sync_zero"
  have run: "?ss = sync_record t1 t2 t3 t4 (sync_run ys sync_zero)" by (simp add: ys sync_run_def)
  have w: "window xs ?ss" by (rule window_run)
  obtain k where valid: "ss_valid ?ss" and k: "k < ss_count ?ss" "ss_best_offset_us ?ss = ss_offset_us ?ss ! k"
    and least: "\<forall>j < ss_count ?ss. ss_rtt_us ?ss ! k \<le> ss_rtt_us ?ss ! j"
    using record_best [OF window_run [of ys], of "(t1, t2, t3, t4)" t1 t2 t3 t4, folded run ys] w by blast
  have sample: "causal d (xs ! j) \<and> ss_rtt_us ?ss ! (j mod 8) = round_trip (xs ! j)
      \<and> 2 * \<bar>ss_offset_us ?ss ! (j mod 8) - d\<bar> \<le> ss_rtt_us ?ss ! (j mod 8) + 1"
    if j: "j < length xs" "length xs \<le> j + 8" for j
  proof -
    obtain a b c e where x: "xs ! j = (a, b, c, e)" by (metis prod_cases4)
    have "xs ! j = drop (length xs - 8) xs ! (j - (length xs - 8))" using j by simp
    moreover have "j - (length xs - 8) < length (drop (length xs - 8) xs)" using j by auto
    ultimately have "causal d (a, b, c, e)" using assms(2) x by (metis nth_mem)
    then show ?thesis
      using w [unfolded window_def, THEN conjunct2, THEN conjunct2, THEN conjunct2, THEN conjunct2, rule_format, OF j]
        sync_sample by (simp add: x)
  qed
  obtain i where "i < length (drop (length xs - 8) xs)" "x = drop (length xs - 8) xs ! i"
    using assms(3) by (metis in_set_conv_nth)
  then have i: "length xs - 8 + i < length xs" "x = xs ! (length xs - 8 + i)" by auto
  obtain j where j: "j < length xs" "length xs \<le> j + 8" "j mod 8 = k" using window_slots [OF w k(1)] .
  have "ss_count ?ss = min 8 (length xs)" using w [unfolded window_def] by blast
  then have "(length xs - 8 + i) mod 8 < ss_count ?ss" using i(1) by (auto simp: min_def intro: le_less_trans [OF mod_less_eq_dividend])
  then have "ss_rtt_us ?ss ! k \<le> round_trip x" using least sample [OF i(1)] i(2) by force
  then show ?thesis using sample [OF j(1,2)] valid k(2) j(3) by auto
qed

text \<open>Clocks 5000 apart; 80 on the way out and 20 on the way back, then 300 and 500.\<close>

definition demo_samples :: "(u64 \<times> u64 \<times> u64 \<times> u64) list" where
  "demo_samples = [(1000, 6080, 6090, 1110), (2000, 7300, 7310, 2810)]"

theorem sync_offset_bound_witness:
  "2 * \<bar>ss_best_offset_us (sync_run demo_samples sync_zero) - 5000\<bar> \<le> round_trip (1000, 6080, 6090, 1110) + 1
     \<and> ss_best_offset_us (sync_run demo_samples sync_zero) = 5030"
proof -
  have "2 * \<bar>ss_best_offset_us (sync_run demo_samples sync_zero) - 5000\<bar> \<le> round_trip (1000, 6080, 6090, 1110) + 1"
    by (rule sync_offset_bound [THEN conjunct2]) (auto simp: demo_samples_def causal_def)
  moreover have "ss_best_offset_us (sync_run demo_samples sync_zero) = 5030" by code_simp
  ultimately show ?thesis by simp
qed

subsection \<open>Both ends of the channel\<close>

lemma sync_resp_fields:
  assumes "length t1 = 8"
  shows "length (sync_resp_msg t1 t2 t3) = 32" "sidecar_request (sync_resp_msg t1 t2 t3)"
    "sync_resp_msg t1 t2 t3 ! 5 = RTP_SIDECAR_MSG_SYNC_RESP" "rd64 (sync_resp_msg t1 t2 t3) 8 = rd64 t1 0"
    "rd64 (sync_resp_msg t1 t2 t3) 16 = t2" "rd64 (sync_resp_msg t1 t2 t3) 24 = t3"
proof -
  obtain a0 a1 a2 a3 a4 a5 a6 a7 where t: "t1 = [a0, a1, a2, a3, a4, a5, a6, a7]"
    using assms by (auto simp: eval_nat_numeral length_Suc_conv)
  show "length (sync_resp_msg t1 t2 t3) = 32" "sidecar_request (sync_resp_msg t1 t2 t3)"
    "sync_resp_msg t1 t2 t3 ! 5 = RTP_SIDECAR_MSG_SYNC_RESP" "rd64 (sync_resp_msg t1 t2 t3) 8 = rd64 t1 0"
    "rd64 (sync_resp_msg t1 t2 t3) 16 = t2" "rd64 (sync_resp_msg t1 t2 t3) 24 = t3"
    by (simp_all add: t sync_resp_msg_def put_be32_def sidecar_htobe64_def sidecar_request_def rd32_def rd64_def)
qed

lemma sync_req_fields:
  "length (send_sync_req_msg t1) = 16" "sidecar_request (send_sync_req_msg t1)"
  "send_sync_req_msg t1 ! 5 = RTP_SIDECAR_MSG_SYNC_REQ" "rd64 (take 8 (drop 8 (send_sync_req_msg t1))) 0 = t1"
  by (simp_all add: send_sync_req_msg_def put_be32_def sidecar_htobe64_def sidecar_request_def rd32_def rd64_def)

lemmas msg_types = RTP_SIDECAR_MSG_SUBSCRIBE_def RTP_SIDECAR_MSG_FRAME_def RTP_SIDECAR_MSG_SYNC_REQ_def RTP_SIDECAR_MSG_SYNC_RESP_def

lemma sync_exchange:
  assumes "so_answers w = SendOk # rest" and "ss_pending_t1 (pr_ss pr) = t1" "t1 \<noteq> 0"
    and "sidecar_handle (send_sync_req_msg t1) src s w = (s', w')"
  defines "t2 \<equiv> so_time w (so_ticks w)" and "t3 \<equiv> so_time w (so_ticks w + 1)"
  shows "\<exists>m. so_log w' = so_log w @ [SideClock t2, SideClock t3, SideSent (sc_fd s) src m, SideClock (so_time w (so_ticks w + 2))]
    \<and> sc_subscriber s' = src
    \<and> probe_sidecar m t4 pr = pr\<lparr>pr_ss := (sync_record t1 t2 t3 t4 (pr_ss pr))\<lparr>ss_pending_t1 := 0\<rparr>\<rparr>"
proof -
  let ?m = "sync_resp_msg (take 8 (drop 8 (send_sync_req_msg t1))) t2 t3"
  have l: "length (take 8 (drop 8 (send_sync_req_msg t1))) = 8" by (simp add: sync_req_fields)
  have "probe_sidecar ?m t4 pr = pr\<lparr>pr_ss := (sync_record t1 t2 t3 t4 (pr_ss pr))\<lparr>ss_pending_t1 := 0\<rparr>\<rparr>"
    using assms(2,3) by (simp add: probe_sidecar_def sync_resp_fields [OF l] sync_req_fields(4) msg_types)
  moreover have "sc_subscriber s' = src \<and> so_log w' = so_log w @ [SideClock t2, SideClock t3, SideSent (sc_fd s) src ?m, SideClock (so_time w (so_ticks w + 2))]"
    using assms(1,4) by (auto simp: sidecar_handle_def sync_req_fields msg_types sub_refresh_def side_defs t2_def t3_def)
  ultimately show ?thesis by blast
qed

end
