(* ===== verification/ProbeFrames.thy ===== *)
theory ProbeFrames imports TimingProbe begin

text \<open>
  What the lines of \<open>tools/rtp_timing_probe.c\<close> say about the frames of the streamer: losses are counted,
  and when a frame's message is joined with its packets.
\<close>

subsection \<open>A frame's message and its packets\<close>

lemma frame_msg_request: "sidecar_request (frame_msg ssrc ts sf sn cap ready info fid last_us)"
  by (simp add: sidecar_request_def)

lemma enc_flags_some: "enc_flags (Some e) AND RTP_SIDECAR_FLAG_ENC_INFO \<noteq> 0"
  by (simp add: enc_flags_def RTP_SIDECAR_FLAG_ENC_INFO_def RTP_SIDECAR_FLAG_KEYFRAME_def)

lemma enc_flags_none: "enc_flags None = 0"
  by (simp add: enc_flags_def)

lemma wire_entry_frame:
  "wire_entry (frame_msg ssrc ts sf sn cap ready info fid last_us) t =
     \<lparr>ce_ssrc = ssrc, ce_rtp_ts = ts, ce_frame_id = fid, ce_capture_us = cap, ce_frame_ready_us = ready,
      ce_last_pkt_send_us = last_us, ce_seq_first = sf, ce_seq_count = sn, ce_enc = info, ce_meta_recv_us = t,
      ce_valid = True\<rparr>"
  by (cases info) (simp_all add: wire_entry_def enc_flags_some enc_flags_none)

lemma probe_takes_frame:
  "probe_sidecar (frame_msg ssrc ts sf sn cap ready info fid last_us) t pr =
     pr\<lparr>pr_cache := (pr_cache pr)[cache_index ssrc ts :=
       wire_entry (frame_msg ssrc ts sf sn cap ready info fid last_us) t]\<rparr>"
  by (simp add: probe_sidecar_def frame_msg_request cache_store_frame_def)

lemma cache_index_less: "cache_index ssrc ts < 64"
proof -
  have "(ssrc XOR ts) AND 63 \<le> 63" by (rule word_and_le1)
  then show ?thesis by (simp add: cache_index_def word_le_nat_alt)
qed

lemma lookup_stored:
  assumes "length cache = 64"
  shows "cache_lookup ssrc' ts' (cache[cache_index ssrc ts := wire_entry (frame_msg ssrc ts sf sn cap ready info fid last_us) t])
    = (if ssrc' = ssrc \<and> ts' = ts then Some (wire_entry (frame_msg ssrc ts sf sn cap ready info fid last_us) t)
       else if cache_index ssrc' ts' = cache_index ssrc ts then None else cache_lookup ssrc' ts' cache)"
  using cache_index_less [of ssrc ts] assms by (simp add: cache_lookup_def Let_def nth_list_update wire_entry_frame)

lemma probe_parses_header:
  "\<exists>h. probe_rtp_parse (take 2048 (rtp_header st m @ p)) = Some h \<and> rh_seq h = rp_seq st \<and> rh_timestamp h = rp_timestamp st
     \<and> rh_ssrc h = rp_ssrc st \<and> bit (rh_m_pt h) 7 = m"
proof -
  have "bit ((if m then 0x80 else 0) OR (rp_payload_type st AND 0x7F)) 7 = m" by (simp add: byte_simps)
  moreover have "drop_bit 6 (0x80 :: u8) = 2" by (simp add: drop_bit_eq_div)
  ultimately show ?thesis
    by (simp add: probe_rtp_parse_def rtp_header_def rd16_def rd32_def be16_split be32_split)
qed

text \<open>Packets of one frame that arrive, by number and time of arrival.\<close>

definition frame_arrivals :: "rtp_state \<Rightarrow> (bytes \<times> bool) list \<Rightarrow> (nat \<times> u64) list \<Rightarrow> (bytes \<times> u64) list" where
  "frame_arrivals st ps ks = map (\<lambda>(i, t). (rtp_stream st ps ! i, t)) ks"

definition probe_packets :: "(bytes \<times> u64) list \<Rightarrow> probe \<Rightarrow> probe" where
  "probe_packets xs pr = fold (\<lambda>(b, t). probe_rtp (take 2048 b) t) xs pr"

lemma rtp_stream_nth: "i < length ps \<Longrightarrow> rtp_stream st ps ! i = rtp_header (rtp_next i st) (snd (ps ! i)) @ fst (ps ! i)"
proof (induction ps arbitrary: st i)
  case (Cons p ps)
  show ?case
  proof (cases i)
    case (Suc j)
    then show ?thesis using Cons by (simp add: rtp_next_def add_ac)
  qed simp
qed simp

lemma probe_packet:
  assumes "i < length ps"
  shows "\<exists>h. rh_seq h = rp_seq st + word_of_nat i \<and> rh_timestamp h = rp_timestamp st \<and> rh_ssrc h = rp_ssrc st
    \<and> bit (rh_m_pt h) 7 = snd (ps ! i) \<and> probe_rtp_parse (take 2048 (rtp_stream st ps ! i)) = Some h"
  using probe_parses_header [of "rtp_next i st" "snd (ps ! i)" "fst (ps ! i)"] assms
  by (auto simp: rtp_stream_nth rtp_next_def)

text \<open>Between the first packet and the last, \<open>i\<close> being the last one that arrived and \<open>n\<close> how many did.\<close>

definition mid_frame :: "rtp_state \<Rightarrow> u64 \<Rightarrow> nat \<Rightarrow> u64 \<Rightarrow> nat \<Rightarrow> frame_accum" where
  "mid_frame st t0 i t n = \<lparr>fa_active = True, fa_ssrc = rp_ssrc st, fa_rtp_ts = rp_timestamp st,
     fa_seq_first = rp_seq st, fa_seq_last = rp_seq st + word_of_nat i, fa_gaps = word_of_nat (Suc i - n),
     fa_recv_first_us = t0, fa_recv_last_us = t\<rparr>"

lemma ucast_of_nat16: "k < 65536 \<Longrightarrow> (ucast (word_of_nat k :: u16) :: u32) = word_of_nat k"
  by (simp add: unsigned_of_nat take_bit_nat_eq_self)

lemma accum_mid:
  assumes "i < j" "j < 65536" "n \<le> Suc i" "rh_seq h = rp_seq st + word_of_nat j"
  shows "accum_packet h t' (mid_frame st t0 i t n) = mid_frame st t0 j t' (Suc n)"
proof -
  have d: "rh_seq h - (rp_seq st + word_of_nat i + 1) = word_of_nat (j - Suc i)"
    using assms(1,4) by (simp add: of_nat_diff)
  have "(ucast (word_of_nat (j - Suc i) :: u16) :: u32) = word_of_nat (j - Suc i)"
    using assms(1,2) by (intro ucast_of_nat16) simp
  moreover have "(word_of_nat (Suc i - n) + word_of_nat (j - Suc i) :: u32) = word_of_nat (Suc j - Suc n)"
    using assms(1,3) by (simp flip: of_nat_add)
  moreover have "rh_seq h = rp_seq st + word_of_nat i + 1 \<longrightarrow> (word_of_nat (j - Suc i) :: u16) = 0"
    using d by auto
  ultimately show ?thesis using d assms(4)
    by (auto simp: accum_packet_def mid_frame_def Let_def)
qed

lemma frame_arrivals_simps [simp]: "frame_arrivals st ps [] = []"
  "frame_arrivals st ps (k # ks) = (rtp_stream st ps ! fst k, snd k) # frame_arrivals st ps ks"
  "frame_arrivals st ps (ks @ js) = frame_arrivals st ps ks @ frame_arrivals st ps js"
  by (auto simp: frame_arrivals_def split: prod.splits)

lemma probe_packets_simps [simp]: "probe_packets [] pr = pr"
  "probe_packets (x # xs) pr = probe_packets xs (probe_rtp (take 2048 (fst x)) (snd x) pr)"
  "probe_packets (xs @ ys) pr = probe_packets ys (probe_packets xs pr)"
  by (auto simp: probe_packets_def split: prod.splits)

lemma mid_packets:
  assumes "sorted_wrt (<) (i # map fst ks)" "\<forall>k \<in> set ks. fst k < length ps \<and> \<not> snd (ps ! fst k)"
    and "length ps \<le> 65536" "n \<le> Suc i" "pr_fa pr = mid_frame st t0 i t n"
  shows "\<exists>i' t'. i' = last (i # map fst ks) \<and> n + length ks \<le> Suc i'
    \<and> probe_packets (frame_arrivals st ps ks) pr = pr\<lparr>pr_fa := mid_frame st t0 i' t' (n + length ks)\<rparr>"
  using assms
proof (induction ks arbitrary: i t n pr)
  case Nil
  then have "pr\<lparr>pr_fa := mid_frame st t0 i t n\<rparr> = pr" by (cases pr) simp
  then show ?case using Nil by (intro exI [of _ i] exI [of _ t]) simp
next
  case (Cons k ks)
  obtain j u where k: "k = (j, u)" by (metis surj_pair)
  have j: "i < j" "j < length ps" "\<not> snd (ps ! j)" using Cons.prems(1,2) k by auto
  obtain h where h: "rh_seq h = rp_seq st + word_of_nat j" "\<not> bit (rh_m_pt h) 7"
    "probe_rtp_parse (take 2048 (rtp_stream st ps ! j)) = Some h" using probe_packet [OF j(2)] j(3) by blast
  have "accum_packet h u (pr_fa pr) = mid_frame st t0 j u (Suc n)"
    unfolding Cons.prems(5) using j(1,2) Cons.prems(3,4) h(1) by (intro accum_mid) simp_all
  then have p: "probe_rtp (take 2048 (rtp_stream st ps ! j)) u pr = pr\<lparr>pr_fa := mid_frame st t0 j u (Suc n)\<rparr>"
    using h(2,3) by (simp add: probe_rtp_def Let_def)
  have "sorted_wrt (<) (j # map fst ks)" using Cons.prems(1) k by simp
  with Cons.IH [of j "Suc n" "pr\<lparr>pr_fa := mid_frame st t0 j u (Suc n)\<rparr>" u] Cons.prems(2,3,4) j(1)
  show ?case by (auto simp: k p)
qed

lemma close_frame_fa: "close_frame fa (pr\<lparr>pr_fa := x\<rparr>) = close_frame fa pr"
  by (cases "cache_lookup (fa_ssrc fa) (fa_rtp_ts fa) (pr_cache pr)") (simp_all add: close_frame_def)

lemma frame_row:
  assumes "ps \<noteq> []" "length ps \<le> 65536" "\<forall>j < length ps. snd (ps ! j) \<longleftrightarrow> Suc j = length ps"
    and "sorted_wrt (<) (map fst ks)" "ks \<noteq> []" "fst (hd ks) = 0" "fst (last ks) = length ps - 1"
    and "\<not> fa_active (pr_fa pr)"
  shows "probe_packets (frame_arrivals st ps ks) pr
    = close_frame (mid_frame st (snd (hd ks)) (length ps - 1) (snd (last ks)) (length ks)) pr"
proof -
  obtain t0 ks1 where ks: "ks = (0, t0) # ks1" using assms(5,6) by (cases ks) auto
  obtain h0 where h0: "rh_seq h0 = rp_seq st" "rh_timestamp h0 = rp_timestamp st" "rh_ssrc h0 = rp_ssrc st"
    "bit (rh_m_pt h0) 7 = snd (ps ! 0)" "probe_rtp_parse (take 2048 (rtp_stream st ps ! 0)) = Some h0"
    using probe_packet [of 0 ps st] assms(1) by auto
  have first: "accum_packet h0 t0 (pr_fa pr) = mid_frame st t0 0 t0 1"
    using assms(8) h0 by (simp add: accum_packet_def mid_frame_def)
  show ?thesis
  proof (cases "ks1 = []")
    case True
    then have "length ps = 1" using assms(1,7) ks by (cases ps) auto
    then show ?thesis using True ks h0 assms(3) first
      by (simp add: probe_rtp_def Let_def)
  next
    case False
    obtain j u ks2 where ks1: "ks1 = ks2 @ [(j, u)]" using False by (metis rev_exhaust surj_pair)
    have j: "j = length ps - 1" "j < length ps" using assms(1,7) ks ks1 by auto
    have lt: "fst k < j" if "k \<in> set ((0, t0) # ks2)" for k
      using assms(4) that by (auto simp: ks ks1 sorted_wrt_append)
    have unmarked: "\<not> snd (ps ! fst k)" if "k \<in> set ((0, t0) # ks2)" for k
      using assms(3) lt [OF that] j by auto
    have p0: "probe_rtp (take 2048 (rtp_stream st ps ! 0)) t0 pr = pr\<lparr>pr_fa := mid_frame st t0 0 t0 1\<rparr>"
      using unmarked [of "(0, t0)"] h0 first by (simp add: probe_rtp_def Let_def)
    have "\<exists>i' t'. i' = last (0 # map fst ks2) \<and> 1 + length ks2 \<le> Suc i'
      \<and> probe_packets (frame_arrivals st ps ks2) (pr\<lparr>pr_fa := mid_frame st t0 0 t0 1\<rparr>)
        = pr\<lparr>pr_fa := mid_frame st t0 0 t0 1\<rparr>\<lparr>pr_fa := mid_frame st t0 i' t' (1 + length ks2)\<rparr>"
    proof (rule mid_packets)
      show "sorted_wrt (<) (0 # map fst ks2)" using assms(4) by (auto simp: ks ks1 sorted_wrt_append)
      show "\<forall>k \<in> set ks2. fst k < length ps \<and> \<not> snd (ps ! fst k)" using unmarked lt j(2) by (meson less_trans list.set_intros(2))
    qed (use assms(2) in simp_all)
    then obtain i' t' where i: "i' = last (0 # map fst ks2)" "1 + length ks2 \<le> Suc i'"
      "probe_packets (frame_arrivals st ps ks2) (pr\<lparr>pr_fa := mid_frame st t0 0 t0 1\<rparr>)
        = pr\<lparr>pr_fa := mid_frame st t0 i' t' (1 + length ks2)\<rparr>" by auto
    have "i' < j" using i(1) lt by (cases ks2 rule: rev_cases) auto
    obtain h where h: "rh_seq h = rp_seq st + word_of_nat j" "bit (rh_m_pt h) 7"
      "probe_rtp_parse (take 2048 (rtp_stream st ps ! j)) = Some h"
      using probe_packet [OF j(2), of st] assms(3) j by auto
    have a: "accum_packet h u (mid_frame st t0 i' t' (1 + length ks2)) = mid_frame st t0 j u (Suc (1 + length ks2))"
      using \<open>i' < j\<close> j(2) assms(2) i(2) h(1) by (intro accum_mid) simp_all
    have "probe_packets (frame_arrivals st ps ks) pr = probe_rtp (take 2048 (rtp_stream st ps ! j)) u
        (probe_packets (frame_arrivals st ps ks2) (probe_rtp (take 2048 (rtp_stream st ps ! 0)) t0 pr))"
      by (simp add: ks ks1)
    also have "\<dots> = probe_rtp (take 2048 (rtp_stream st ps ! j)) u (pr\<lparr>pr_fa := mid_frame st t0 i' t' (1 + length ks2)\<rparr>)"
      unfolding p0 i(3) ..
    also have "\<dots> = close_frame (mid_frame st t0 j u (Suc (1 + length ks2))) pr"
      by (simp add: probe_rtp_def h(2,3) a [simplified] close_frame_fa)
    finally show ?thesis by (simp add: ks ks1 j(1))
  qed
qed

text \<open>Property C16. A frame's line counts its losses. When some of the packets of a frame are lost, but neither
  the first nor the one with the marker, the line gives the frame's first and last sequence number
  and exactly the number of packets that did not arrive, and it carries the metadata message stored
  for the frame's SSRC and timestamp, whatever the cache held.
\<close>

theorem frame_line_counts_losses:
  assumes "ps \<noteq> []" "length ps \<le> 65536" "\<forall>j < length ps. snd (ps ! j) \<longleftrightarrow> Suc j = length ps"
    and "sorted_wrt (<) (map fst ks)" "ks \<noteq> []" "fst (hd ks) = 0" "fst (last ks) = length ps - 1"
    and "\<not> fa_active (pr_fa pr)"
  shows "\<exists>row. pr_rows (probe_packets (frame_arrivals st ps ks) pr) = pr_rows pr @ [row]
    \<and> fa_seq_first (row_accum row) = rp_seq st \<and> fa_seq_last (row_accum row) = rp_seq st + word_of_nat (length ps - 1)
    \<and> unat (fa_gaps (row_accum row)) = length ps - length ks
    \<and> row_meta row = cache_lookup (rp_ssrc st) (rp_timestamp st) (pr_cache pr)"
proof -
  have "unat (word_of_nat (length ps - length ks) :: u32) = length ps - length ks"
    using assms(2) by (simp add: unsigned_of_nat take_bit_nat_eq_self)
  then show ?thesis using assms(1) unfolding frame_row [OF assms]
    by (simp add: close_frame_def emit_frame_def mid_frame_def Let_def)
qed

definition demo_rtp :: rtp_state where
  "demo_rtp = \<lparr>rp_seq = 65534, rp_timestamp = 9000, rp_ssrc = 7, rp_payload_type = 97\<rparr>"

definition demo_ps :: "(bytes \<times> bool) list" where
  "demo_ps = [([1, 2], False), ([3], False), ([4], False), ([5], True)]"

text \<open>Four packets, the third lost, and sequence numbers that wrap.\<close>

theorem frame_line_counts_losses_witness:
  "\<exists>row. pr_rows (probe_packets (frame_arrivals demo_rtp demo_ps [(0, 100), (1, 110), (3, 130)]) probe_init) = [row]
    \<and> fa_seq_last (row_accum row) = 1 \<and> unat (fa_gaps (row_accum row)) = 1"
proof -
  let ?ks = "[(0, 100), (1, 110), (3, 130)] :: (nat \<times> u64) list"
  have n: "length demo_ps = 4" by (simp add: demo_ps_def)
  have marks: "\<forall>j < length demo_ps. snd (demo_ps ! j) \<longleftrightarrow> Suc j = length demo_ps"
    by (simp add: demo_ps_def less_Suc_eq numeral_eq_Suc)
  have "demo_ps \<noteq> []" "length demo_ps \<le> 65536" "sorted_wrt (<) (map fst ?ks)" "?ks \<noteq> []" "fst (hd ?ks) = 0"
    "fst (last ?ks) = length demo_ps - 1" "\<not> fa_active (pr_fa probe_init)"
    using n by (auto simp: probe_init_def)
  from frame_line_counts_losses [OF this(1,2) marks this(3-7), of demo_rtp]
  obtain row where row: "pr_rows (probe_packets (frame_arrivals demo_rtp demo_ps ?ks) probe_init) = pr_rows probe_init @ [row]"
    "fa_seq_last (row_accum row) = rp_seq demo_rtp + word_of_nat (length demo_ps - 1)"
    "unat (fa_gaps (row_accum row)) = length demo_ps - length ?ks" by blast
  have "pr_rows (probe_packets (frame_arrivals demo_rtp demo_ps ?ks) probe_init) = [row]"
    unfolding row(1) by (simp add: probe_init_def)
  moreover have "fa_seq_last (row_accum row) = 1" "unat (fa_gaps (row_accum row)) = 1"
    using row(2,3) by (simp_all add: n demo_rtp_def)
  ultimately show ?thesis by blast
qed

subsection \<open>Metadata that comes after its frame\<close>

text \<open>
  The streamer sends a frame's message after its last packet. A probe that handles each datagram as it
  arrives, nothing lost or reordered, gets the packets of a frame and then its message.
\<close>

record sent_frame =
  sf_rtp :: rtp_state
  sf_ps :: "(bytes \<times> bool) list"
  sf_times :: "(nat \<times> u64) list"
  sf_meta :: bytes
  sf_meta_us :: u64

definition frame_in_order :: "sent_frame \<Rightarrow> probe \<Rightarrow> probe" where
  "frame_in_order f pr =
     probe_sidecar (sf_meta f) (sf_meta_us f) (probe_packets (frame_arrivals (sf_rtp f) (sf_ps f) (sf_times f)) pr)"

text \<open>A frame as the streamer sends it: one marker at the end, and a message with its identification.\<close>

definition frame_sent_ok :: "sent_frame \<Rightarrow> bool" where
  "frame_sent_ok f \<longleftrightarrow> sf_ps f \<noteq> [] \<and> length (sf_ps f) \<le> 65536
     \<and> (\<forall>j < length (sf_ps f). snd (sf_ps f ! j) \<longleftrightarrow> Suc j = length (sf_ps f))
     \<and> map fst (sf_times f) = [0..<length (sf_ps f)]
     \<and> (\<exists>sf sn cap ready info fid last_us. sf_meta f =
          frame_msg (rp_ssrc (sf_rtp f)) (rp_timestamp (sf_rtp f)) sf sn cap ready info fid last_us)"

definition frame_id_of :: "sent_frame \<Rightarrow> u32 \<times> u32" where
  "frame_id_of f = (rp_ssrc (sf_rtp f), rp_timestamp (sf_rtp f))"

definition unknown_to :: "probe \<Rightarrow> sent_frame \<Rightarrow> bool" where
  "unknown_to pr f \<longleftrightarrow> cache_lookup (fst (frame_id_of f)) (snd (frame_id_of f)) (pr_cache pr) = None"

lemma frame_in_order_step:
  assumes "frame_sent_ok f" "\<not> fa_active (pr_fa pr)" "length (pr_cache pr) = 64" "unknown_to pr f"
  shows "\<exists>row. pr_rows (frame_in_order f pr) = pr_rows pr @ [row] \<and> row_meta row = None"
    and "\<not> fa_active (pr_fa (frame_in_order f pr))" "length (pr_cache (frame_in_order f pr)) = 64"
    and "unknown_to pr g \<Longrightarrow> frame_id_of g \<noteq> frame_id_of f \<Longrightarrow> unknown_to (frame_in_order f pr) g"
proof -
  have m: "map fst (sf_times f) = [0..<length (sf_ps f)]" and n: "sf_ps f \<noteq> []" using assms(1) by (simp_all add: frame_sent_ok_def)
  have ne: "sf_times f \<noteq> []"
  proof
    assume "sf_times f = []"
    with m have "length (sf_ps f) = 0" by (metis length_map length_upt list.size(3) diff_zero)
    with n show False by simp
  qed
  then have ends: "fst (hd (sf_times f)) = 0" "fst (last (sf_times f)) = length (sf_ps f) - 1"
    using m n ne by (simp_all flip: hd_map last_map)
  have sorted: "sorted_wrt (<) (map fst (sf_times f))" unfolding m by (rule sorted_wrt_upt)
  obtain sf sn cap ready info fid last_us where meta: "sf_meta f =
      frame_msg (rp_ssrc (sf_rtp f)) (rp_timestamp (sf_rtp f)) sf sn cap ready info fid last_us"
    using assms(1) unfolding frame_sent_ok_def by blast
  have "probe_packets (frame_arrivals (sf_rtp f) (sf_ps f) (sf_times f)) pr
      = close_frame (mid_frame (sf_rtp f) (snd (hd (sf_times f))) (length (sf_ps f) - 1) (snd (last (sf_times f)))
          (length (sf_times f))) pr"
    using assms(1) by (intro frame_row sorted ne ends assms(2)) (simp_all add: frame_sent_ok_def)
  then have step: "frame_in_order f pr = (close_frame (mid_frame (sf_rtp f) (snd (hd (sf_times f))) (length (sf_ps f) - 1)
        (snd (last (sf_times f))) (length (sf_times f))) pr)
      \<lparr>pr_cache := (pr_cache pr)[cache_index (rp_ssrc (sf_rtp f)) (rp_timestamp (sf_rtp f)) :=
         wire_entry (sf_meta f) (sf_meta_us f)]\<rparr>"
    by (simp add: frame_in_order_def meta probe_takes_frame close_frame_def Let_def)
  show "\<exists>row. pr_rows (frame_in_order f pr) = pr_rows pr @ [row] \<and> row_meta row = None"
    using assms(4) by (simp add: step close_frame_def mid_frame_def emit_frame_def Let_def unknown_to_def frame_id_of_def)
  show "\<not> fa_active (pr_fa (frame_in_order f pr))" "length (pr_cache (frame_in_order f pr)) = 64"
    using assms(3) by (simp_all add: step close_frame_def Let_def)
  show "unknown_to pr g \<Longrightarrow> frame_id_of g \<noteq> frame_id_of f \<Longrightarrow> unknown_to (frame_in_order f pr) g"
    by (simp add: step unknown_to_def frame_id_of_def meta lookup_stored [OF assms(3)])
qed

lemma frames_in_order:
  assumes "\<forall>f \<in> set fs. frame_sent_ok f \<and> unknown_to pr f" "distinct (map frame_id_of fs)"
    and "\<not> fa_active (pr_fa pr)" "length (pr_cache pr) = 64"
  shows "\<exists>rows. pr_rows (fold frame_in_order fs pr) = pr_rows pr @ rows \<and> length rows = length fs
    \<and> (\<forall>r \<in> set rows. row_meta r = None)"
  using assms
proof (induction fs arbitrary: pr)
  case (Cons f fs)
  have f: "frame_sent_ok f" "unknown_to pr f" using Cons.prems(1) by simp_all
  note step = frame_in_order_step [OF f(1) Cons.prems(3,4) f(2)]
  have "\<forall>g \<in> set fs. frame_sent_ok g \<and> unknown_to (frame_in_order f pr) g"
    using Cons.prems(1,2) step(4) by (metis image_eqI list.set_intros(2) list.set_map distinct.simps(2) list.simps(9))
  then obtain rows where r: "pr_rows (fold frame_in_order fs (frame_in_order f pr)) = pr_rows (frame_in_order f pr) @ rows"
    "length rows = length fs" "\<forall>r \<in> set rows. row_meta r = None"
    using Cons.IH [OF _ _ step(2,3)] Cons.prems(2) by auto
  obtain row where "pr_rows (frame_in_order f pr) = pr_rows pr @ [row]" "row_meta row = None" using step(1) by blast
  then show ?case using r by (intro exI [of _ "row # rows"]) auto
qed simp

text \<open>Property C17. A probe that keeps up never joins a frame with its message. When the datagrams are handled in
  the order the streamer sends them, each frame's packets before its message, the probe writes one
  line per frame and every one of them is without metadata, although each message arrived.
\<close>

theorem metadata_always_late:
  assumes "\<forall>f \<in> set fs. frame_sent_ok f" "distinct (map frame_id_of fs)"
  shows "length (pr_rows (fold frame_in_order fs probe_init)) = length fs
    \<and> (\<forall>r \<in> set (pr_rows (fold frame_in_order fs probe_init)). row_meta r = None)"
proof -
  have "unknown_to probe_init f" for f
    using cache_index_less [of "fst (frame_id_of f)" "snd (frame_id_of f)"]
    by (simp add: unknown_to_def cache_lookup_def probe_init_def SIDECAR_CACHE_SIZE_def cache_empty_entry_def)
  then obtain rows where "pr_rows (fold frame_in_order fs probe_init) = pr_rows probe_init @ rows" "length rows = length fs"
    "\<forall>r \<in> set rows. row_meta r = None"
    using frames_in_order [of fs probe_init] assms by (auto simp: probe_init_def SIDECAR_CACHE_SIZE_def)
  then show ?thesis by (simp add: probe_init_def)
qed

definition demo_sent :: sent_frame where
  "demo_sent = \<lparr>sf_rtp = demo_rtp, sf_ps = [([1], False), ([2], True)], sf_times = [(0, 100), (1, 110)],
     sf_meta = frame_msg 7 9000 65534 2 50 60 None 0 90, sf_meta_us = 120\<rparr>"

theorem metadata_always_late_witness:
  "length (pr_rows (fold frame_in_order [demo_sent] probe_init)) = 1
    \<and> row_meta (hd (pr_rows (fold frame_in_order [demo_sent] probe_init))) = None
    \<and> cache_lookup 7 9000 (pr_cache (fold frame_in_order [demo_sent] probe_init)) \<noteq> None"
proof -
  have "\<exists>sf sn cap ready info fid last_us. sf_meta demo_sent
      = frame_msg (rp_ssrc (sf_rtp demo_sent)) (rp_timestamp (sf_rtp demo_sent)) sf sn cap ready info fid last_us"
    by (intro exI) (simp add: demo_sent_def demo_rtp_def)
  then have "frame_sent_ok demo_sent" by (auto simp: frame_sent_ok_def demo_sent_def less_Suc_eq)
  then have "length (pr_rows (fold frame_in_order [demo_sent] probe_init)) = 1
      \<and> (\<forall>r \<in> set (pr_rows (fold frame_in_order [demo_sent] probe_init)). row_meta r = None)"
    using metadata_always_late [of "[demo_sent]"] by simp
  moreover have "cache_lookup 7 9000 (pr_cache (fold frame_in_order [demo_sent] probe_init)) \<noteq> None" by code_simp
  ultimately show ?thesis by (metis hd_in_set length_greater_0_conv zero_less_one)
qed

end
