(* ===== verification/StreamMetrics.thy ===== *)
theory StreamMetrics imports Prelude "HOL-Library.Signed_Division" begin

text \<open>
  The counters behind the verbose lines (\<open>src/stream_metrics.c\<close>). \<open>size_t\<close> has 32 bits on the
  device; seconds and nanoseconds are integers.
\<close>

record timespec =
  tv_sec :: int
  tv_nsec :: int

record stream_metrics =
  sm_interval_frames :: u32
  sm_interval_bytes :: u32
  sm_ts_start :: timespec
  sm_ts_last :: timespec

record metrics_sample =
  ms_uptime_s :: int
  ms_elapsed_ms :: int
  ms_fps :: u32
  ms_kbps :: u32
  ms_avg_bytes :: u32

definition stream_metrics_reset :: stream_metrics where
  "stream_metrics_reset = \<lparr>sm_interval_frames = 0, sm_interval_bytes = 0, sm_ts_start = \<lparr>tv_sec = 0, tv_nsec = 0\<rparr>,
     sm_ts_last = \<lparr>tv_sec = 0, tv_nsec = 0\<rparr>\<rparr>"

definition stream_metrics_start :: "timespec \<Rightarrow> stream_metrics" where
  "stream_metrics_start now = stream_metrics_reset\<lparr>sm_ts_start := now, sm_ts_last := now\<rparr>"

definition stream_metrics_record_frame :: "u32 \<Rightarrow> stream_metrics \<Rightarrow> stream_metrics" where
  "stream_metrics_record_frame frame_bytes s =
     s\<lparr>sm_interval_frames := sm_interval_frames s + 1, sm_interval_bytes := sm_interval_bytes s + frame_bytes\<rparr>"

definition metrics_elapsed_ms :: "timespec \<Rightarrow> stream_metrics \<Rightarrow> int" where
  "metrics_elapsed_ms now s = (tv_sec now - tv_sec (sm_ts_last s)) * 1000
     + (tv_nsec now - tv_nsec (sm_ts_last s)) sdiv 1000000"

definition stream_metrics_sample :: "timespec \<Rightarrow> stream_metrics \<Rightarrow> metrics_sample option \<times> stream_metrics" where
  "stream_metrics_sample now s =
     (let elapsed_ms = metrics_elapsed_ms now s in
      if elapsed_ms < 1000 then (None, s)
      else (Some \<lparr>ms_uptime_s = tv_sec now - tv_sec (sm_ts_start s), ms_elapsed_ms = elapsed_ms,
                  ms_fps = (sm_interval_frames s * 1000) div word_of_int elapsed_ms,
                  ms_kbps = word_of_int ((uint (sm_interval_bytes s) * 8000) div (elapsed_ms * 1024)),
                  ms_avg_bytes = (if sm_interval_frames s > 0 then sm_interval_bytes s div sm_interval_frames s else 0)\<rparr>,
            s\<lparr>sm_ts_last := now, sm_interval_frames := 0, sm_interval_bytes := 0\<rparr>))"

text \<open>Times with nanoseconds below a second; the difference in nanoseconds.\<close>

definition timespec_ok :: "timespec \<Rightarrow> bool" where
  "timespec_ok t \<longleftrightarrow> 0 \<le> tv_nsec t \<and> tv_nsec t < 1000000000"

definition ns_of :: "timespec \<Rightarrow> int" where
  "ns_of t = tv_sec t * 1000000000 + tv_nsec t"

lemma sdiv_million: "\<bar>1000000 * (x sdiv 1000000) - x\<bar> < (1000000 :: int)"
  by (auto simp: signed_divide_int_def sgn_if)

text \<open>The milliseconds are those of the clock, to less than one.\<close>

lemma elapsed_ms_near:
  "\<bar>1000000 * metrics_elapsed_ms now s - (ns_of now - ns_of (sm_ts_last s))\<bar> < 1000000"
proof -
  have "1000000 * metrics_elapsed_ms now s - (ns_of now - ns_of (sm_ts_last s))
      = 1000000 * ((tv_nsec now - tv_nsec (sm_ts_last s)) sdiv 1000000) - (tv_nsec now - tv_nsec (sm_ts_last s))"
    by (simp add: metrics_elapsed_ms_def ns_of_def algebra_simps)
  then show ?thesis using sdiv_million by presburger
qed

lemma sample_spacing:
  assumes "stream_metrics_sample now s = (Some x, s')"
  shows "999000000 < ns_of now - ns_of (sm_ts_last s) \<and> sm_ts_last s' = now"
  using assms elapsed_ms_near [of now s] by (auto simp: stream_metrics_sample_def Let_def split: if_splits)

end
