(* ===== verification/Star6eVideo.thy ===== *)
theory Star6eVideo imports ProbeFrames StreamMetrics SceneDetect Star6eOutput Config begin

text \<open>
  One encoder channel's way out (\<open>src/star6e_video.c\<close>): RTP or compact output, the metadata message
  beside each frame, and the verbose counters; and how the scene detector fills the message
  (\<open>src/star6e_runtime.c\<close>).
\<close>

subsection \<open>The channel\<close>

record video_state =
  vs_rtp :: rtp_state
  vs_frame_ticks :: u32
  vs_params :: param_sets
  vs_sensor_framerate :: u32
  vs_max_frame_size :: u16
  vs_payload_size :: u16
  vs_frame_counter :: u32
  vs_metrics :: stream_metrics
  vs_pkt_interval :: hevc_rtp_stats
  vs_sidecar :: sidecar

definition rtp_zero :: rtp_state where
  "rtp_zero = \<lparr>rp_seq = 0, rp_timestamp = 0, rp_ssrc = 0, rp_payload_type = 0\<rparr>"

text \<open>All bytes zero, as \<open>memset\<close> leaves it: the descriptor is 0, not -1.\<close>

definition video_zero :: video_state where
  "video_zero = \<lparr>vs_rtp = rtp_zero, vs_frame_ticks = 0, vs_params = empty_params, vs_sensor_framerate = 0,
     vs_max_frame_size = 0, vs_payload_size = 0, vs_frame_counter = 0, vs_metrics = stream_metrics_reset,
     vs_pkt_interval = zero_rtp_stats, vs_sidecar = sidecar_off\<lparr>sc_fd := 0\<rparr>\<rparr>"

definition star6e_video_reset :: "video_state \<Rightarrow> side_os \<Rightarrow> video_state \<times> side_os" where
  "star6e_video_reset st w = (video_zero, snd (rtp_sidecar_sender_close (vs_sidecar st) w))"

text \<open>\<open>rnd\<close>: the numbers the RTP session draws; \<open>now\<close>: the time the counters start.\<close>

definition star6e_video_init ::
  "(u32 \<times> u32 \<times> u32 \<times> u32) \<Rightarrow> timespec \<Rightarrow> venc_config \<Rightarrow> u32 \<Rightarrow> out_state option \<Rightarrow> side_os \<Rightarrow> video_state \<times> side_os" where
  "star6e_video_init rnd now cfg sensor_framerate output w =
     (let st1 = video_zero\<lparr>vs_sensor_framerate := sensor_framerate,
            vs_max_frame_size := out_max_payload_size (c_outgoing cfg), vs_payload_size := out_max_payload_size (c_outgoing cfg)\<rparr>;
          st2 = (case output of
              Some ou \<Rightarrow> if star6e_output_is_rtp ou
                then case rnd of (r1, r2, r3, r4) \<Rightarrow>
                  let se = rtp_session_init (rtp_session_payload_type PT_H265) sensor_framerate r1 r2 r3 r4 in
                  st1\<lparr>vs_rtp := \<lparr>rp_seq = se_seq se, rp_timestamp = se_timestamp se, rp_ssrc = se_ssrc se,
                        rp_payload_type = se_payload_type se\<rparr>, vs_frame_ticks := se_frame_ticks se\<rparr>
                else st1
            | None \<Rightarrow> st1);
          st3 = (if sys_verbose (c_system cfg) then st2\<lparr>vs_metrics := stream_metrics_start now\<rparr> else st2)
      in case rtp_sidecar_sender_init (out_sidecar_port (c_outgoing cfg)) w of (rc, s, w') \<Rightarrow> (st3\<lparr>vs_sidecar := s\<rparr>, w'))"

subsection \<open>One frame\<close>

text \<open>The callback for RTP with its context: the RTP state, the parameter sets, the counters.\<close>

definition send_frame_output_rtp ::
  "u32 \<Rightarrow> nat \<Rightarrow> venc_stream \<Rightarrow> rtp_state \<times> param_sets \<times> hevc_rtp_stats \<Rightarrow> out_world
   \<Rightarrow> nat \<times> (rtp_state \<times> param_sets \<times> hevc_rtp_stats) \<times> out_world" where
  "send_frame_output_rtp frame_ticks max_payload stream x ow = (case x of (rtp, params, stats) \<Rightarrow>
     case star6e_hevc_rtp_send_frame star6e_output_send_rtp_parts stream rtp frame_ticks (Some params) max_payload stats ow
       of (n, rtp', params', stats', ow') \<Rightarrow>
       (n, (rtp', case params' of Some p \<Rightarrow> p | None \<Rightarrow> params, stats'), ow'))"

definition capture_time :: "venc_stream \<Rightarrow> u64" where
  "capture_time stream = (case stream of [] \<Rightarrow> 0 | p # ps \<Rightarrow> pk_timestamp p)"

text \<open>The part that sends: what was sent, the channel, the packet counters, the world.\<close>

definition video_send ::
  "venc_stream \<Rightarrow> enc_info option \<Rightarrow> video_state \<Rightarrow> out_world \<Rightarrow> side_os
   \<Rightarrow> nat \<times> video_state \<times> hevc_rtp_stats \<times> out_world \<times> side_os" where
  "video_send stream info st ow w =
     (case rtp_sidecar_poll (vs_sidecar st) w of (s1, w1) \<Rightarrow>
      case sidecar_now_us w1 of (ready_us, w2) \<Rightarrow>
      case star6e_output_send_frame stream (unat (vs_max_frame_size st))
             (Some (send_frame_output_rtp (vs_frame_ticks st) (unat (vs_payload_size st))))
             (vs_rtp st, vs_params st, zero_rtp_stats) ow of (n, (rtp', params', stats'), ow') \<Rightarrow>
      case rtp_sidecar_send_frame (rp_ssrc rtp') (rp_timestamp (vs_rtp st)) (rp_seq (vs_rtp st))
             (rp_seq rtp' - rp_seq (vs_rtp st)) (capture_time stream) ready_us info s1 w2 of (rc, s2, w3) \<Rightarrow>
        (n, st\<lparr>vs_rtp := rtp', vs_params := params', vs_sidecar := s2\<rparr>, stats', ow', w3))"

datatype verbose_line = VerboseLine metrics_sample u32 nat
  | PktzrLine hevc_rtp_stats u32
  | NetLine u32

definition add_stats :: "hevc_rtp_stats \<Rightarrow> hevc_rtp_stats \<Rightarrow> hevc_rtp_stats" where
  "add_stats a b = \<lparr>hs_total_nals = hs_total_nals a + hs_total_nals b,
     hs_single_packets = hs_single_packets a + hs_single_packets b, hs_ap_packets = hs_ap_packets a + hs_ap_packets b,
     hs_ap_nals = hs_ap_nals a + hs_ap_nals b, hs_fu_packets = hs_fu_packets a + hs_fu_packets b,
     hs_rtp_packets = hs_rtp_packets a + hs_rtp_packets b,
     hs_rtp_payload_bytes = hs_rtp_payload_bytes a + hs_rtp_payload_bytes b\<rparr>"

definition avg_rtp_payload :: "hevc_rtp_stats \<Rightarrow> u32" where
  "avg_rtp_payload s = (if hs_rtp_packets s > 0 then hs_rtp_payload_bytes s div hs_rtp_packets s else 0)"

text \<open>The counters and, once a second, the lines.\<close>

definition video_verbose ::
  "nat \<Rightarrow> nat \<Rightarrow> hevc_rtp_stats \<Rightarrow> timespec \<Rightarrow> video_state \<Rightarrow> out_state \<Rightarrow> verbose_line list \<times> video_state \<times> out_state" where
  "video_verbose n packs stats now st ou =
     (let st1 = st\<lparr>vs_metrics := stream_metrics_record_frame (word_of_nat n) (vs_metrics st)\<rparr>;
          st2 = (if star6e_output_is_rtp ou then st1\<lparr>vs_pkt_interval := add_stats (vs_pkt_interval st1) stats\<rparr> else st1)
      in case stream_metrics_sample now (vs_metrics st2) of
        (None, m) \<Rightarrow> ([], st2\<lparr>vs_metrics := m\<rparr>, ou)
      | (Some sample, m) \<Rightarrow> (case star6e_output_drain_send_errors ou of (errs, ou') \<Rightarrow>
          ([VerboseLine sample (vs_frame_counter st2) packs]
           @ (if star6e_output_is_rtp ou then [PktzrLine (vs_pkt_interval st2) (avg_rtp_payload (vs_pkt_interval st2))] else [])
           @ (if errs > 0 then [NetLine errs] else []),
           st2\<lparr>vs_metrics := m, vs_pkt_interval := zero_rtp_stats\<rparr>, ou')))"

definition star6e_video_send_frame ::
  "venc_stream \<Rightarrow> bool \<Rightarrow> bool \<Rightarrow> enc_info option \<Rightarrow> timespec \<Rightarrow> video_state \<Rightarrow> out_world \<Rightarrow> side_os
   \<Rightarrow> nat \<times> verbose_line list \<times> video_state \<times> out_world \<times> side_os" where
  "star6e_video_send_frame stream output_enabled verbose info now st ow w =
     (let st1 = st\<lparr>vs_frame_counter := vs_frame_counter st + 1\<rparr> in
      case (if output_enabled then video_send stream info st1 ow w else (0, st1, zero_rtp_stats, ow, w))
        of (n, st2, stats, ow', w') \<Rightarrow>
      if \<not> verbose then (n, [], st2, ow', w')
      else case video_verbose n (length stream) stats now st2 (fst ow') of (lines, st3, ou') \<Rightarrow>
        (n, lines, st3, (ou', snd ow'), w'))"

definition scene_fill_sidecar :: "scene_detector \<Rightarrow> enc_info" where
  "scene_fill_sidecar sd = \<lparr>ei_frame_size_bytes = sd_last_frame_size sd, ei_frame_type = sd_last_frame_type sd,
     ei_qp = 0, ei_complexity = sd_complexity sd, ei_scene_change = of_bool (sd_scene_change sd), ei_gop_state = 0,
     ei_idr_inserted = of_bool (sd_idr_inserted sd), ei_frames_since_idr = sd_frames_since_idr sd\<rparr>"

subsection \<open>The message fits the packets\<close>

lemma send_frame_rtp_numbered:
  assumes "star6e_output_is_rtp ou" "o_ring ou = None"
    and "star6e_output_send_frame stream mx (Some (send_frame_output_rtp ticks mp)) (rtp, params, stats) (ou, k)
      = (n, (rtp', params', stats'), ow')"
  shows "\<exists>ps. sent_datagrams ow' = sent_datagrams (ou, k) @ rtp_stream rtp ps
    \<and> rtp' = (rtp_next (length ps) rtp)\<lparr>rp_timestamp := rp_timestamp rtp + ticks\<rparr>"
proof -
  obtain q where "star6e_hevc_rtp_send_frame star6e_output_send_rtp_parts stream rtp ticks (Some params) mp stats (ou, k)
      = (n, rtp', q, stats', ow')"
    using assms(1,3) by (auto simp: star6e_output_send_frame_def send_frame_output_rtp_def split: prod.splits)
  from udp.send_frame_numbered [OF _ this] show ?thesis using assms(2) by (simp add: socket_mode_def)
qed

lemma send_frame_active:
  assumes "0 \<le> sc_fd s" "sc_sub_expires_us s \<noteq> 0" "so_time w (so_ticks w) < sc_sub_expires_us s" "so_answers w = SendOk # rest"
  shows "so_log (snd (snd (rtp_sidecar_send_frame ssrc ts sf sn cap ready info s w))) = so_log w
    @ [SideClock (so_time w (so_ticks w)), SideClock (so_time w (so_ticks w + 1)),
       SideSent (sc_fd s) (sc_subscriber s)
         (frame_msg ssrc ts sf sn cap ready info (sc_frame_id s) (so_time w (so_ticks w + 1)))]"
  using assms by (simp add: rtp_sidecar_send_frame_def sub_active_def side_defs)

lemma verbose_keeps: "video_verbose n packs stats now st ou = (lines, st', ou') \<Longrightarrow>
    vs_rtp st' = vs_rtp st \<and> vs_sidecar st' = vs_sidecar st"
  by (auto simp: video_verbose_def Let_def star6e_output_drain_send_errors_def split: option.splits prod.splits if_splits)

text \<open>Property C14. The metadata describes the packets. While a probe is subscribed each frame sent over UDP is followed by
  one message to it, and that message, read by the probe's own code, says which packets the frame
  was: the sequence number of the first, how many the kernel took, their timestamp and SSRC, the
  capture time and the encoder's values, and the probe finds it under that SSRC and timestamp.
\<close>

theorem frame_message_matches:
  assumes "star6e_output_is_rtp ou" "o_ring ou = None"
    and "rtp_sidecar_poll (vs_sidecar st) w = (s1, w1)" "0 \<le> sc_fd s1" "sc_sub_expires_us s1 \<noteq> 0"
    and "so_time w1 (so_ticks w1 + 1) < sc_sub_expires_us s1" "so_answers w1 = SendOk # rest"
    and "star6e_video_send_frame stream True verbose info now st (ou, k) w = (n, lines, st', ow', w')"
  shows "\<exists>ps m. sent_datagrams ow' = sent_datagrams (ou, k) @ rtp_stream (vs_rtp st) ps
    \<and> drop (length (so_log w1) + 3) (so_log w') = [SideSent (sc_fd s1) (sc_subscriber s1) m]
    \<and> (\<forall>pr t. length (pr_cache pr) = 64 \<longrightarrow>
         cache_lookup (rp_ssrc (vs_rtp st)) (rp_timestamp (vs_rtp st)) (pr_cache (probe_sidecar m t pr)) =
           Some \<lparr>ce_ssrc = rp_ssrc (vs_rtp st), ce_rtp_ts = rp_timestamp (vs_rtp st), ce_frame_id = sc_frame_id s1,
             ce_capture_us = capture_time stream, ce_frame_ready_us = so_time w1 (so_ticks w1),
             ce_last_pkt_send_us = so_time w1 (so_ticks w1 + 2), ce_seq_first = rp_seq (vs_rtp st),
             ce_seq_count = word_of_nat (length ps), ce_enc = info, ce_meta_recv_us = t, ce_valid = True\<rparr>)"
proof -
  obtain x ow1 where o: "star6e_output_send_frame stream (unat (vs_max_frame_size st))
      (Some (send_frame_output_rtp (vs_frame_ticks st) (unat (vs_payload_size st)))) (vs_rtp st, vs_params st, zero_rtp_stats) (ou, k)
      = (n, x, ow1)"
    using assms(8) by (auto simp: star6e_video_send_frame_def video_send_def assms(3) Let_def split: prod.splits if_splits)
  obtain rtp' params' stats' where x: "x = (rtp', params', stats')" by (metis prod_cases3)
  obtain ps where ps: "sent_datagrams ow1 = sent_datagrams (ou, k) @ rtp_stream (vs_rtp st) ps"
    "rtp' = (rtp_next (length ps) (vs_rtp st))\<lparr>rp_timestamp := rp_timestamp (vs_rtp st) + vs_frame_ticks st\<rparr>"
    using send_frame_rtp_numbered [OF assms(1,2) o [unfolded x]] by blast
  let ?w2 = "snd (sidecar_now_us w1)"
  let ?m = "frame_msg (rp_ssrc (vs_rtp st)) (rp_timestamp (vs_rtp st)) (rp_seq (vs_rtp st)) (word_of_nat (length ps))
      (capture_time stream) (so_time w1 (so_ticks w1)) info (sc_frame_id s1) (so_time w1 (so_ticks w1 + 2))"
  have r: "rp_ssrc rtp' = rp_ssrc (vs_rtp st)" "rp_seq rtp' - rp_seq (vs_rtp st) = word_of_nat (length ps)"
    by (simp_all add: ps(2) rtp_next_def)
  have log2: "so_log ?w2 = so_log w1 @ [SideClock (so_time w1 (so_ticks w1))]"
    "so_answers ?w2 = so_answers w1" "so_time ?w2 = so_time w1" "so_ticks ?w2 = so_ticks w1 + 1"
    by (simp_all add: side_defs)
  have sent: "so_log (snd (snd (rtp_sidecar_send_frame (rp_ssrc (vs_rtp st)) (rp_timestamp (vs_rtp st)) (rp_seq (vs_rtp st))
       (word_of_nat (length ps)) (capture_time stream) (so_time w1 (so_ticks w1)) info s1 ?w2))) =
      so_log w1 @ [SideClock (so_time w1 (so_ticks w1)), SideClock (so_time w1 (so_ticks w1 + 1)),
        SideClock (so_time w1 (so_ticks w1 + 2)), SideSent (sc_fd s1) (sc_subscriber s1) ?m]"
    using send_frame_active [of s1 ?w2] assms(4-7) log2 by simp
  have now: "sidecar_now_us w1 = (so_time w1 (so_ticks w1), ?w2)" by (simp add: sidecar_now_us_def Let_def)
  have w': "so_log w' = so_log (snd (snd (rtp_sidecar_send_frame (rp_ssrc (vs_rtp st)) (rp_timestamp (vs_rtp st))
      (rp_seq (vs_rtp st)) (word_of_nat (length ps)) (capture_time stream) (so_time w1 (so_ticks w1)) info s1 ?w2)))
      \<and> snd ow' = snd ow1"
    using assms(8) o r now
    by (auto simp: star6e_video_send_frame_def video_send_def assms(3) x Let_def split: prod.splits if_splits)
  have "sent_datagrams ow' = sent_datagrams (ou, k) @ rtp_stream (vs_rtp st) ps"
    using w' ps(1) by (simp add: sent_datagrams_def)
  moreover have "drop (length (so_log w1) + 3) (so_log w') = [SideSent (sc_fd s1) (sc_subscriber s1) ?m]"
    using w' sent by simp
  moreover have "\<forall>pr t. length (pr_cache pr) = 64 \<longrightarrow>
         cache_lookup (rp_ssrc (vs_rtp st)) (rp_timestamp (vs_rtp st)) (pr_cache (probe_sidecar ?m t pr)) =
           Some (wire_entry ?m t)"
    by (simp add: probe_takes_frame lookup_stored)
  ultimately show ?thesis unfolding wire_entry_frame by blast
qed

definition demo_video :: video_state where
  "demo_video = video_zero\<lparr>vs_rtp := example_rtp, vs_frame_ticks := 3000, vs_max_frame_size := 1400, vs_payload_size := 1400,
     vs_sidecar := sidecar_off\<lparr>sc_fd := 9\<rparr>\<rparr>"

definition demo_side_up :: side_os where
  "demo_side_up = demo_side\<lparr>so_sockets := [], so_calls := [], so_answers := [SendOk]\<rparr>"

lemma demo_poll: "rtp_sidecar_poll (vs_sidecar demo_video) demo_side_up =
    (\<lparr>sc_fd = 9, sc_subscriber = demo_probe, sc_sub_expires_us = 5001000, sc_frame_id = 0\<rparr>,
     demo_side_up\<lparr>so_arrivals := [], so_ticks := 1, so_log := [SideHeard demo_subscribe demo_probe, SideClock 1000]\<rparr>)"
proof -
  have "accepted_request demo_subscribe \<and> demo_subscribe ! 5 = RTP_SIDECAR_MSG_SUBSCRIBE \<and> sidecar_request demo_subscribe
      \<and> take 64 demo_subscribe = demo_subscribe" by code_simp
  then show ?thesis
    by (simp add: rtp_sidecar_poll_def demo_video_def sidecar_off_def numeral_eq_Suc side_recvfrom_def demo_side_up_def
        demo_side_def sidecar_handle_def sub_active_def sub_refresh_def side_defs RTP_SIDECAR_SUB_TTL_US_def)
qed

theorem frame_message_matches_witness:
  "\<exists>ps m. sent_datagrams (case star6e_video_send_frame [example_pack] True False None \<lparr>tv_sec = 0, tv_nsec = 0\<rparr> demo_video
         (example_out, example_os [True, True, True]) demo_side_up of (n, lines, st', ow', w') \<Rightarrow> ow') = rtp_stream example_rtp ps
     \<and> drop 5 (so_log (case star6e_video_send_frame [example_pack] True False None \<lparr>tv_sec = 0, tv_nsec = 0\<rparr> demo_video
         (example_out, example_os [True, True, True]) demo_side_up of (n, lines, st', ow', w') \<Rightarrow> w')) = [SideSent 9 demo_probe m]
     \<and> map_option ce_seq_count (cache_lookup 7 1000 (pr_cache (probe_sidecar m 0 probe_init))) = Some (word_of_nat (length ps))"
proof -
  obtain n lines st' ow' w' where r: "star6e_video_send_frame [example_pack] True False None \<lparr>tv_sec = 0, tv_nsec = 0\<rparr> demo_video
      (example_out, example_os [True, True, True]) demo_side_up = (n, lines, st', ow', w')" by (metis prod_cases5)
  have c: "star6e_output_is_rtp example_out" "o_ring example_out = None"
    by (simp_all add: star6e_output_is_rtp_def example_out_def star6e_output_reset_def)
  have "length (pr_cache probe_init) = 64" by (simp add: probe_init_def SIDECAR_CACHE_SIZE_def)
  then obtain ps m where "sent_datagrams ow' = sent_datagrams (example_out, example_os [True, True, True]) @ rtp_stream example_rtp ps"
    "drop 5 (so_log w') = [SideSent 9 demo_probe m]"
    "cache_lookup 7 1000 (pr_cache (probe_sidecar m 0 probe_init)) \<noteq> None"
    "map_option ce_seq_count (cache_lookup 7 1000 (pr_cache (probe_sidecar m 0 probe_init))) = Some (word_of_nat (length ps))"
    using frame_message_matches [OF c demo_poll _ _ _ _ r, of "[]"]
    by (fastforce simp: demo_side_up_def demo_side_def demo_video_def example_rtp_def)
  then show ?thesis unfolding r by (auto simp: sent_datagrams_def example_os_def)
qed

subsection \<open>Zero is a descriptor\<close>

text \<open>
  A state that was reset, or one that \<open>calloc\<close> just made, holds descriptor 0 as its socket: the next
  reset closes the standard input, and a frame sent meanwhile polls it.
\<close>

lemma reset_twice_closes_stdin:
  "star6e_video_reset st w = (st1, w1) \<Longrightarrow> star6e_video_reset st1 w1 = (st2, w2) \<Longrightarrow>
    so_log w2 = so_log w1 @ [SideClosed 0]"
  by (auto simp: star6e_video_reset_def video_zero_def sidecar_off_def rtp_sidecar_sender_close_def side_note_def)

lemma init_resets_descriptor:
  "star6e_video_init rnd now cfg fps output w = (st, w') \<Longrightarrow> sc_fd (vs_sidecar st) = -1 \<or> 0 \<le> sc_fd (vs_sidecar st)"
  by (auto simp: star6e_video_init_def rtp_sidecar_sender_init_def sidecar_off_def Let_def split: prod.splits if_splits)

end
