(* ===== verification/Star6ePipeline.thy ===== *)
theory Star6ePipeline imports SensorSelect Star6eVideo begin

text \<open>
  Bringing the Star6E pipeline up and down (\<open>src/star6e_pipeline.c\<close>, \<open>src/codec_config.c\<close>): the sensor, the
  capture (VIF), the scaler (VPE) and the encoder (VENC), their bindings, and what hangs on them.
  The order of the calls is the code's; attributes of the driver that no other definition reads are
  left out. IMU, stabiliser and overlay are calls that succeed or fail.
\<close>

subsection \<open>State\<close>

record dual_venc =
  du_channel :: int
  du_port :: mi_port
  du_bound :: bool
  du_output :: out_state
  du_video :: video_state
  du_mode :: string
  du_bitrate :: u32
  du_fps :: u32
  du_gop :: u32
  du_server :: string
  du_rec_started :: bool
  du_is_dual_stream :: bool

record pipe_state =
  ps_sensor :: sensor_result
  ps_venc_channel :: int
  ps_venc_port :: mi_port
  ps_bound_vif_vpe :: bool
  ps_bound_vpe_venc :: bool
  ps_output :: out_state
  ps_video :: video_state
  ps_image_width :: u32
  ps_image_height :: u32
  ps_output_enabled :: bool
  ps_imu :: bool
  ps_eis :: bool
  ps_osd :: bool
  ps_dual :: "dual_venc option"

record pipe_world =
  pw_mi :: mi_dev
  pw_os :: os
  pw_side :: side_os
  pw_isp_initialized :: bool

text \<open>What the rest of the system answers: the sensor's tables, rounding, random numbers, the time, shared
  memory and the encoder's device number.\<close>

record pipe_env =
  pe_sensor :: sensor_env
  pe_rnd :: "rat \<Rightarrow> rat"
  pe_rand :: "u32 \<times> u32 \<times> u32 \<times> u32"
  pe_now :: timespec
  pe_ring :: create_env
  pe_devid :: u32

definition vif_port :: mi_port where "vif_port = (VIF, 0, 0)"
definition vpe_port :: mi_port where "vpe_port = (VPE, 0, 0)"

definition pipe_zero :: pipe_state where
  "pipe_zero = \<lparr>ps_sensor = sensor_zero, ps_venc_channel = 0, ps_venc_port = (IVE, 0, 0), ps_bound_vif_vpe = False,
     ps_bound_vpe_venc = False, ps_output = star6e_output_reset, ps_video = video_zero, ps_image_width = 0,
     ps_image_height = 0, ps_output_enabled = False, ps_imu = False, ps_eis = False, ps_osd = False, ps_dual = None\<rparr>"

definition star6e_pipeline_reset :: "pipe_state \<Rightarrow> pipe_world \<Rightarrow> pipe_state \<times> pipe_world" where
  "star6e_pipeline_reset st w = (case star6e_video_reset (ps_video st) (pw_side w) of (v, side) \<Rightarrow>
     (pipe_zero, w\<lparr>pw_side := side\<rparr>))"

definition pw_dos :: "mi_op list \<Rightarrow> pipe_world \<Rightarrow> pipe_world" where
  "pw_dos ops w = w\<lparr>pw_mi := mi_dos ops (pw_mi w)\<rparr>"

definition pw_call :: "mi_op \<Rightarrow> pipe_world \<Rightarrow> int \<times> pipe_world" where
  "pw_call op w = (case mi_call op (pw_mi w) of (rc, d) \<Rightarrow> (rc, w\<lparr>pw_mi := d\<rparr>))"

subsection \<open>The stages\<close>

definition star6e_pipeline_pre_init_teardown :: "mi_dev \<Rightarrow> mi_dev" where
  "star6e_pipeline_pre_init_teardown d =
     (let d1 = mi_dos [SysUnbind vpe_port (VENC, 0, 0), SysUnbind vif_port vpe_port, VencStop 0, VencDestroy 0] d in
      case mi_call VpeGetAttr d1 of (rc, d2) \<Rightarrow>
        let d3 = (if rc = 0 then mi_dos [VpeDisablePort, VpeStop, VpeDestroy] d2 else d2)
        in mi_dos [VifDisablePort, VifDisableDev] d3)"

definition crop_shift :: "plane_info \<Rightarrow> precrop_rect \<Rightarrow> precrop_rect" where
  "crop_shift pl r = r\<lparr>pr_x := pr_x (pl_capt pl) + pr_x r, pr_y := pr_y (pl_capt pl) + pr_y r\<rparr>"

definition star6e_pipeline_start_vif :: "sensor_result \<Rightarrow> precrop_rect \<Rightarrow> mi_dev \<Rightarrow> int \<times> mi_dev" where
  "star6e_pipeline_start_vif sensor precrop d =
     (case mi_call VifSetDev d of (r1, d1) \<Rightarrow>
      if r1 \<noteq> 0 then (r1, d1)
      else case mi_call VifEnableDev d1 of (r2, d2) \<Rightarrow>
      if r2 \<noteq> 0 then (r2, d2)
      else case mi_call (VifSetPort (crop_shift (sr_plane sensor) precrop)) d2 of (r3, d3) \<Rightarrow>
      if r3 \<noteq> 0 then (r3, mi_do VifDisableDev d3)
      else case mi_call VifEnablePort d3 of (r4, d4) \<Rightarrow>
      if r4 \<noteq> 0 then (r4, mi_dos [VifDisablePort, VifDisableDev] d4)
      else (0, d4))"

definition star6e_pipeline_stop_vif :: "mi_dev \<Rightarrow> mi_dev" where
  "star6e_pipeline_stop_vif d = mi_dos [VifDisablePort, VifDisableDev] d"

definition star6e_pipeline_start_vpe ::
  "sensor_result \<Rightarrow> precrop_rect \<Rightarrow> u32 \<Rightarrow> u32 \<Rightarrow> bool \<Rightarrow> bool \<Rightarrow> int \<Rightarrow> mi_dev \<Rightarrow> int \<times> mi_dev" where
  "star6e_pipeline_start_vpe sensor precrop out_w out_h mirror flip level d =
     (case mi_call (VpeCreate (pr_w precrop) (pr_h precrop) (sr_pad_id sensor + 1)) d of (r1, d1) \<Rightarrow>
      if r1 \<noteq> 0 then (r1, d1)
      else case mi_call (VpeSetParam level mirror flip) d1 of (r2, d2) \<Rightarrow>
      if r2 \<noteq> 0 then (r2, mi_do VpeDestroy d2)
      else case mi_call VpeStart d2 of (r3, d3) \<Rightarrow>
      if r3 \<noteq> 0 then (r3, mi_do VpeDestroy d3)
      else case mi_call (VpeSetMode out_w out_h) d3 of (r4, d4) \<Rightarrow>
      if r4 \<noteq> 0 then (r4, mi_dos [VpeStop, VpeDestroy] d4)
      else case mi_call VpeEnablePort d4 of (r5, d5) \<Rightarrow>
      if r5 \<noteq> 0 then (r5, mi_dos [VpeDisablePort, VpeStop, VpeDestroy] d5)
      else (0, d5))"

definition star6e_pipeline_stop_vpe :: "mi_dev \<Rightarrow> mi_dev" where
  "star6e_pipeline_stop_vpe d = mi_dos [VpeDisablePort, VpeStop, VpeDestroy] d"

text \<open>The encoder's attributes for a codec and a rate control mode as \<open>codec_config.c\<close> numbers it.\<close>

definition venc_rate :: "payload_type \<Rightarrow> int \<Rightarrow> rate_mode \<times> nat \<times> nat" where
  "venc_rate codec rc_mode =
     (if codec = PT_H265 then
        (if rc_mode = 4 then (RATE_VBR, 45, 20) else if rc_mode = 5 then (RATE_AVBR, 45, 20)
         else if rc_mode = 6 then (RATE_VBR, 40, 28) else (RATE_CBR, 0, 0))
      else
        (if rc_mode = 2 then (RATE_VBR, 45, 20) else if rc_mode = 0 then (RATE_AVBR, 45, 20)
         else if rc_mode = 1 then (RATE_VBR, 40, 28) else (RATE_CBR, 0, 0)))"

definition star6e_controls_apply_frame_lost_threshold :: "int \<Rightarrow> bool \<Rightarrow> u32 \<Rightarrow> mi_dev \<Rightarrow> int \<times> mi_dev" where
  "star6e_controls_apply_frame_lost_threshold chn enabled kbps d =
     (if \<not> enabled then (0, d)
      else
        let k = (if kbps > 200000 then 200000 else kbps);
            bits = k * 1024;
            margin = (if bits div 5 < 512 * 1024 then 512 * 1024 else bits div 5)
        in case mi_call (VencLost chn (bits + margin)) d of (rc, d') \<Rightarrow> (if rc = 0 then 0 else -1, d'))"

definition star6e_pipeline_start_venc ::
  "u32 \<Rightarrow> u32 \<Rightarrow> u32 \<Rightarrow> u32 \<Rightarrow> u32 \<Rightarrow> payload_type \<Rightarrow> int \<Rightarrow> bool \<Rightarrow> int \<Rightarrow> mi_dev \<Rightarrow> int \<times> mi_dev" where
  "star6e_pipeline_start_venc width height bitrate framerate gop codec rc_mode frame_lost chn d =
     (let rate = (if bitrate > 200000 then 200000 else bitrate) in
      case venc_rate codec rc_mode of (mode, maxq, minq) \<Rightarrow>
      let attr = \<lparr>va_codec = codec, va_width = width, va_height = height, va_mode = mode, va_gop = gop,
            va_fps = framerate, va_bitrate = rate * 1024, va_max_qual = maxq, va_min_qual = minq\<rparr>
      in case mi_call (VencCreate chn attr) d of (r1, d1) \<Rightarrow>
      if r1 \<noteq> 0 then (r1, d1)
      else case mi_call (VencStart chn) d1 of (r2, d2) \<Rightarrow>
      if r2 \<noteq> 0 then (r2, mi_do (VencDestroy chn) d2)
      else (0, snd (star6e_controls_apply_frame_lost_threshold chn frame_lost rate d2)))"

definition star6e_pipeline_stop_venc :: "int \<Rightarrow> mi_dev \<Rightarrow> mi_dev" where
  "star6e_pipeline_stop_venc chn d = mi_dos [VencStop chn, VencDestroy chn] d"

subsection \<open>The configuration of a start\<close>

definition codec_config_resolve_codec_rc :: "string \<Rightarrow> string \<Rightarrow> (payload_type \<times> int) option" where
  "codec_config_resolve_codec_rc codec mode =
     (let is_265 = (codec = ''h265'' \<or> codec = ''265''); is_264 = (codec = ''h264'' \<or> codec = ''264'') in
      if \<not> is_265 \<and> \<not> is_264 then None
      else let c = (if is_265 then PT_H265 else PT_H264) in
        if mode = ''cbr'' then Some (c, 3)
        else if mode = ''vbr'' then Some (c, if is_265 then 4 else 2)
        else if mode = ''avbr'' then Some (c, if is_265 then 5 else 0)
        else if mode = ''qvbr'' then Some (c, if is_265 then 6 else 1)
        else None)"

record pipe_config =
  pc_output_setup :: output_setup
  pc_sensor_cfg :: sensor_cfg
  pc_unlock :: sensor_unlock
  pc_isp_bin :: string
  pc_image_width :: u32
  pc_image_height :: u32
  pc_framerate :: u32
  pc_max_rate :: u32
  pc_gop_size :: u32
  pc_exposure_cap_us :: u32
  pc_precrop :: precrop_rect
  pc_codec :: payload_type
  pc_rc_mode :: int
  pc_mirror :: bool
  pc_flip :: bool
  pc_level_3dnr :: int
  pc_oc_level :: int

definition pipeline_common_build_sensor_select_config :: "int \<Rightarrow> int \<Rightarrow> u32 \<Rightarrow> u32 \<Rightarrow> u32 \<Rightarrow> sensor_cfg" where
  "pipeline_common_build_sensor_select_config pad mode w h fps =
     \<lparr>sl_forced_pad = pad, sl_forced_mode = mode, sl_target_width = w, sl_target_height = h, sl_target_fps = fps\<rparr>"

definition start_exposure_cap :: "venc_config \<Rightarrow> u32" where
  "start_exposure_cap cfg =
     (if isp_exposure (c_isp cfg) > 0 then isp_exposure (c_isp cfg) * 1000
      else if isp_legacy_ae (c_isp cfg) \<and> vid_fps (c_video0 cfg) > 0 then 1000000 div vid_fps (c_video0 cfg)
      else 0)"

definition prepare_pipeline_config :: "venc_config \<Rightarrow> pipe_state \<Rightarrow> pipe_config option \<times> pipe_state" where
  "prepare_pipeline_config cfg st =
     (case codec_config_resolve_codec_rc (vid_codec (c_video0 cfg)) (vid_rc_mode (c_video0 cfg)) of
        None \<Rightarrow> (None, st)
      | Some (codec, rc_mode) \<Rightarrow>
        let ou = c_outgoing cfg; vi = c_video0 cfg; se = c_sensor cfg;
            st1 = st\<lparr>ps_output_enabled := out_enabled ou\<rparr>
        in if out_server ou = '''' \<and> out_enabled ou then (None, st1)
        else case star6e_output_prepare (Some (out_server ou)) (Some (out_stream_mode ou)) (out_max_payload_size ou)
               (out_connected_udp ou) of (rc, setup) \<Rightarrow>
        if rc \<noteq> 0 then (None, st1)
        else if os_stream_mode setup = RTP \<and> codec \<noteq> PT_H265 then (None, st1)
        else (Some \<lparr>pc_output_setup = setup,
            pc_sensor_cfg = pipeline_common_build_sensor_select_config (sen_index se) (sen_mode se) (vid_width vi) (vid_height vi) (vid_fps vi),
            pc_unlock = \<lparr>un_enabled = sen_unlock_enabled se, un_cmd_id = sen_unlock_cmd se, un_reg = sen_unlock_reg se,
              un_value = sen_unlock_value se, un_dir = sen_unlock_dir se\<rparr>,
            pc_isp_bin = isp_sensor_bin (c_isp cfg), pc_image_width = vid_width vi, pc_image_height = vid_height vi,
            pc_framerate = vid_fps vi, pc_max_rate = vid_bitrate vi, pc_gop_size = 0,
            pc_exposure_cap_us = start_exposure_cap cfg, pc_precrop = \<lparr>pr_x = 0, pr_y = 0, pr_w = 0, pr_h = 0\<rparr>,
            pc_codec = codec, pc_rc_mode = rc_mode, pc_mirror = img_mirror (c_image cfg), pc_flip = img_flip (c_image cfg),
            pc_level_3dnr = fpv_noise_level (c_fpv cfg), pc_oc_level = sys_overclock_level (c_system cfg)\<rparr>, st1))"

text \<open>The usable part of a frame whose transport has overscan, and the offset of a centred crop.\<close>

definition capt_size :: "sensor_result \<Rightarrow> u32 \<times> u32" where
  "capt_size s = (ucast (pr_w (pl_capt (sr_plane s))), ucast (pr_h (pl_capt (sr_plane s))))"

definition usable_size :: "sensor_result \<Rightarrow> u32 \<times> u32" where
  "usable_size s = (case capt_size s of (w, h) \<Rightarrow>
     let ow = res_output_w (sr_mode s); oh = res_output_h (sr_mode s)
     in if ow > 0 \<and> oh > 0 then (if ow < w then ow else w, if oh < h then oh else h) else (w, h))"

definition overscan :: "sensor_result \<Rightarrow> u16 \<times> u16" where
  "overscan s = (case (capt_size s, usable_size s) of ((w, h), (uw, uh)) \<Rightarrow>
     (ucast (((w - uw) div 2) AND NOT 1), ucast (((h - uh) div 2) AND NOT 1)))"

definition full_precrop :: "sensor_result \<Rightarrow> u32 \<Rightarrow> u32 \<Rightarrow> precrop_rect" where
  "full_precrop s iw ih = (case (usable_size s, overscan s) of ((uw, uh), (ox, oy)) \<Rightarrow>
     let r = pipeline_common_compute_precrop uw uh iw ih in r\<lparr>pr_x := pr_x r + ox, pr_y := pr_y r + oy\<rparr>)"

definition select_and_configure_sensor ::
  "pipe_env \<Rightarrow> venc_config \<Rightarrow> pipe_config \<Rightarrow> pipe_state \<Rightarrow> pipe_world \<Rightarrow> int \<times> pipe_config \<times> pipe_state \<times> pipe_world" where
  "select_and_configure_sensor env cfg pc st w =
     (case sensor_select (pe_sensor env) (pc_sensor_cfg pc) (pc_unlock pc) (star6e_pipeline_pre_init_teardown (pw_mi w))
        of (rc, s, d) \<Rightarrow>
      let w1 = w\<lparr>pw_mi := d\<rparr> in
      if rc \<noteq> 0 then (rc, pc, st\<lparr>ps_sensor := s\<rparr>, w1)
      else (case usable_size s of (uw, uh) \<Rightarrow>
         case pipeline_common_clamp_image_size uw uh (pc_image_width pc, pc_image_height pc) of (iw, ih) \<Rightarrow>
         (0, pc\<lparr>pc_framerate := sr_fps s,
                pc_gop_size := pipeline_common_gop_frames (pe_rnd env) (vid_gop_size (c_video0 cfg)) (sr_fps s),
                pc_image_width := iw, pc_image_height := ih, pc_precrop := full_precrop s iw ih\<rparr>,
          st\<lparr>ps_sensor := s, ps_image_width := iw, ps_image_height := ih\<rparr>, w1)))"

subsection \<open>Binding and what hangs on the pipeline\<close>

definition output_up :: "pipe_env \<Rightarrow> output_setup \<Rightarrow> pipe_state \<Rightarrow> pipe_world \<Rightarrow> int \<times> pipe_state \<times> pipe_world" where
  "output_up env setup st w = (case star6e_output_init setup (pe_ring env) (pw_os w) of (rc, ou, k) \<Rightarrow>
     (rc, st\<lparr>ps_output := ou\<rparr>, w\<lparr>pw_os := k\<rparr>))"

definition output_down :: "pipe_state \<Rightarrow> pipe_world \<Rightarrow> pipe_state \<times> pipe_world" where
  "output_down st w = (case star6e_output_teardown (ps_output st, pw_os w) of ((ou, k), ops) \<Rightarrow>
     (st\<lparr>ps_output := ou\<rparr>, w\<lparr>pw_os := k\<rparr>))"

text \<open>The encoder's port; \<open>None\<close> when its device number cannot be had.\<close>

definition venc_port_of :: "pipe_env \<Rightarrow> pipe_state \<Rightarrow> pipe_world \<Rightarrow> bool \<times> pipe_state \<times> pipe_world" where
  "venc_port_of env st w = (case pw_call (VencDevid (ps_venc_channel st)) w of (rc, w') \<Rightarrow>
     (rc = 0, if rc = 0 then st\<lparr>ps_venc_port := (VENC, pe_devid env, ps_venc_channel st)\<rparr> else st, w'))"

definition bind_vif_vpe :: "pipe_config \<Rightarrow> pipe_state \<Rightarrow> pipe_world \<Rightarrow> int \<times> pipe_state \<times> pipe_world" where
  "bind_vif_vpe pc st w =
     (if ps_bound_vif_vpe st then (0, st, w)
      else case pw_call (SysBind vif_port vpe_port (pc_framerate pc) (pc_framerate pc)) w of (rc, w') \<Rightarrow>
        if rc \<noteq> 0 then (rc, st, w') else (0, st\<lparr>ps_bound_vif_vpe := True\<rparr>, pw_dos [IspWait] w'))"

definition bind_rates :: "venc_config \<Rightarrow> pipe_config \<Rightarrow> pipe_state \<Rightarrow> u32 \<times> u32" where
  "bind_rates cfg pc st =
     (let src = (if res_max_fps (sr_mode (ps_sensor st)) \<noteq> 0 then res_max_fps (sr_mode (ps_sensor st)) else pc_framerate pc);
          f = vid_fps (c_video0 cfg)
      in (src, if f = 0 \<or> f > src then src else f))"

definition unbind_vif_vpe :: "pipe_state \<Rightarrow> pipe_world \<Rightarrow> pipe_state \<times> pipe_world" where
  "unbind_vif_vpe st w = (st\<lparr>ps_bound_vif_vpe := False\<rparr>, pw_dos [SysUnbind vif_port vpe_port] w)"

text \<open>Sensor-side extras after the video state: image signal processor, clocks, audio.\<close>

definition finalize_isp :: "venc_config \<Rightarrow> pipe_config \<Rightarrow> pipe_state \<Rightarrow> pipe_world \<Rightarrow> pipe_world" where
  "finalize_isp cfg pc st w =
     (let w1 = (if pc_isp_bin pc \<noteq> '''' then pw_dos [IspLoad (pc_isp_bin pc)] w else w);
          w2 = (if \<not> pw_isp_initialized w1 then (pw_dos [IspCus3a] w1)\<lparr>pw_isp_initialized := True\<rparr> else w1);
          w3 = pw_dos [IspCap (pc_framerate pc) (pc_exposure_cap_us pc)] w2;
          w4 = (if isp_legacy_ae (c_isp cfg) \<and> pc_exposure_cap_us pc > 0 \<and> pc_framerate pc > 0
                then pw_dos [SnrSetFps (sr_pad_id (ps_sensor st)) (pc_framerate pc)] w3 else w3);
          w5 = pw_dos [Clocks (pc_oc_level pc)] w4
      in if star6e_output_is_shm (ps_output st) \<and> out_audio_port (c_outgoing cfg) = 0 then w5 else pw_dos [AudioUp] w5)"

definition start_imu :: "venc_config \<Rightarrow> pipe_state \<Rightarrow> pipe_world \<Rightarrow> pipe_state \<times> pipe_world" where
  "start_imu cfg st w =
     (if \<not> imu_enabled (c_imu cfg) then (st, w)
      else case pw_call ImuInit w of (rc, w') \<Rightarrow>
        if rc = 0 then (st\<lparr>ps_imu := True\<rparr>, pw_dos [ImuStart] w') else (st\<lparr>ps_imu := False\<rparr>, w'))"

definition start_eis :: "venc_config \<Rightarrow> pipe_state \<Rightarrow> pipe_world \<Rightarrow> pipe_state \<times> pipe_world" where
  "start_eis cfg st w =
     (if \<not> eis_enabled (c_eis cfg) \<or> \<not> ps_imu st \<and> \<not> eis_test_mode (c_eis cfg) then (st, w)
      else case pw_call EisCreate w of (rc, w') \<Rightarrow>
        if rc = 0 then (st\<lparr>ps_eis := True\<rparr>, if ps_imu st then pw_dos [EisActive] w' else w')
        else (st\<lparr>ps_eis := False\<rparr>, w'))"

definition start_osd :: "venc_config \<Rightarrow> pipe_state \<Rightarrow> pipe_world \<Rightarrow> pipe_state \<times> pipe_world" where
  "start_osd cfg st w =
     (if \<not> c_show_osd cfg then (st, w)
      else case pw_call OsdCreate w of (rc, w') \<Rightarrow> (st\<lparr>ps_osd := (rc = 0)\<rparr>, w'))"

text \<open>Binding the encoder, and what precedes it.\<close>

definition bind_venc ::
  "pipe_env \<Rightarrow> venc_config \<Rightarrow> pipe_config \<Rightarrow> pipe_state \<Rightarrow> pipe_world \<Rightarrow> int \<times> pipe_state \<times> pipe_world" where
  "bind_venc env cfg pc st w =
     (case venc_port_of env st w of (ok, st1, w1) \<Rightarrow>
      if \<not> ok then (-1, st1, w1)
      else case bind_vif_vpe pc st1 w1 of (r2, st2, w2) \<Rightarrow>
      if r2 \<noteq> 0 then (r2, st2, w2)
      else case bind_rates cfg pc st2 of (src, dst) \<Rightarrow>
      case pw_call (SysBind vpe_port (ps_venc_port st2) src dst) (pw_dos [IspCap (pc_framerate pc) (pc_exposure_cap_us pc)] w2)
        of (r3, w3) \<Rightarrow>
      if r3 \<noteq> 0 then (case unbind_vif_vpe st2 w3 of (st', w') \<Rightarrow> (r3, st', w'))
      else (0, st2\<lparr>ps_bound_vpe_venc := True\<rparr>, pw_dos [SysDepth (ps_venc_port st2) 1 3] w3))"

definition bind_and_finalize_pipeline ::
  "pipe_env \<Rightarrow> venc_config \<Rightarrow> pipe_config \<Rightarrow> pipe_state \<Rightarrow> pipe_world \<Rightarrow> int \<times> pipe_state \<times> pipe_world" where
  "bind_and_finalize_pipeline env cfg pc st w =
     (case bind_venc env cfg pc st w of (r3, st3, w3) \<Rightarrow>
      if r3 \<noteq> 0 then (r3, st3, w3)
      else case output_up env (pc_output_setup pc) st3 w3 of (r4, st4, w4) \<Rightarrow>
      if r4 \<noteq> 0 then
        (case output_down st4 w4 of (st5, w5) \<Rightarrow>
         case unbind_vif_vpe (st5\<lparr>ps_bound_vpe_venc := False\<rparr>) (pw_dos [SysUnbind vpe_port (ps_venc_port st5)] w5)
           of (st', w') \<Rightarrow> (-1, st', w'))
      else case star6e_video_init (pe_rand env) (pe_now env) cfg (pc_framerate pc) (Some (ps_output st4)) (pw_side w4)
             of (v, side) \<Rightarrow>
        let st5 = st4\<lparr>ps_video := v\<rparr>; w5 = finalize_isp cfg pc st5 (w4\<lparr>pw_side := side\<rparr>) in
        case start_imu cfg st5 w5 of (st6, w6) \<Rightarrow>
        case start_eis cfg st6 w6 of (st7, w7) \<Rightarrow>
        case start_osd cfg st7 w7 of (st8, w8) \<Rightarrow> (0, st8, w8))"

subsection \<open>Start and stop\<close>

definition start_fps :: "venc_config \<Rightarrow> pipe_config \<Rightarrow> u32" where
  "start_fps cfg pc = (let f = vid_fps (c_video0 cfg) in if f = 0 \<or> f > pc_framerate pc then pc_framerate pc else f)"

definition pw_with :: "(mi_dev \<Rightarrow> int \<times> mi_dev) \<Rightarrow> pipe_world \<Rightarrow> int \<times> pipe_world" where
  "pw_with f w = (case f (pw_mi w) of (rc, d) \<Rightarrow> (rc, w\<lparr>pw_mi := d\<rparr>))"

definition pw_undo :: "(mi_dev \<Rightarrow> mi_dev) \<Rightarrow> pipe_world \<Rightarrow> pipe_world" where
  "pw_undo f w = w\<lparr>pw_mi := f (pw_mi w)\<rparr>"

definition star6e_pipeline_stop_sensor :: "int \<Rightarrow> mi_dev \<Rightarrow> mi_dev" where
  "star6e_pipeline_stop_sensor pad d = mi_do (SnrDisable pad) d"

text \<open>The stages after the sensor, each undone when a later one fails.\<close>

definition start_venc_and_bind ::
  "pipe_env \<Rightarrow> venc_config \<Rightarrow> pipe_config \<Rightarrow> pipe_state \<Rightarrow> pipe_world \<Rightarrow> int \<times> pipe_state \<times> pipe_world" where
  "start_venc_and_bind env cfg pc st w =
     (let st1 = st\<lparr>ps_venc_channel := 0\<rparr> in
      case pw_with (star6e_pipeline_start_venc (pc_image_width pc) (pc_image_height pc) (pc_max_rate pc) (start_fps cfg pc)
             (pc_gop_size pc) (pc_codec pc) (pc_rc_mode pc) (vid_frame_lost (c_video0 cfg)) 0) w of (r1, w1) \<Rightarrow>
      if r1 \<noteq> 0 then (r1, st1, w1)
      else case bind_and_finalize_pipeline env cfg pc st1 w1 of (r2, st2, w2) \<Rightarrow>
      if r2 \<noteq> 0 then (r2, st2, pw_undo (star6e_pipeline_stop_venc (ps_venc_channel st2)) w2)
      else (0, st2, w2))"

definition star6e_pipeline_start :: "pipe_env \<Rightarrow> venc_config \<Rightarrow> pipe_state \<Rightarrow> pipe_world \<Rightarrow> int \<times> pipe_state \<times> pipe_world" where
  "star6e_pipeline_start env cfg st0 w0 =
     (case star6e_pipeline_reset st0 w0 of (st1, w1) \<Rightarrow>
      case prepare_pipeline_config cfg st1 of
        (None, st2) \<Rightarrow> (-1, st2, w1)
      | (Some pc0, st2) \<Rightarrow>
      case select_and_configure_sensor env cfg pc0 st2 w1 of (r3, pc, st3, w3) \<Rightarrow>
      if r3 \<noteq> 0 then (r3, st3, w3)
      else
        let pad = sr_pad_id (ps_sensor st3) in
        case pw_with (star6e_pipeline_start_vif (ps_sensor st3) (pc_precrop pc)) w3 of (r4, w4) \<Rightarrow>
        if r4 \<noteq> 0 then (r4, st3, pw_undo (star6e_pipeline_stop_sensor pad) w4)
        else case pw_with (star6e_pipeline_start_vpe (ps_sensor st3) (pc_precrop pc) (pc_image_width pc) (pc_image_height pc)
               (pc_mirror pc) (pc_flip pc) (pc_level_3dnr pc)) w4 of (r5, w5) \<Rightarrow>
        if r5 \<noteq> 0 then (r5, st3, pw_undo (star6e_pipeline_stop_sensor pad) (pw_undo star6e_pipeline_stop_vif w5))
        else case start_venc_and_bind env cfg pc st3 w5 of (r6, st6, w6) \<Rightarrow>
        if r6 \<noteq> 0
        then (r6, st6, pw_undo (star6e_pipeline_stop_sensor pad) (pw_undo star6e_pipeline_stop_vif (pw_undo star6e_pipeline_stop_vpe w6)))
        else (0, st6, w6))"

text \<open>What stopping and reinitialising have in common: everything above the scaler goes down.\<close>

definition peripherals_down :: "pipe_state \<Rightarrow> pipe_world \<Rightarrow> pipe_state \<times> pipe_world" where
  "peripherals_down st w =
     (let w1 = pw_dos ((if ps_imu st then [ImuStop] else []) @ (if ps_eis st then [EisDestroy] else [])
            @ (if ps_imu st then [ImuDestroy] else []) @ (if ps_osd st then [OsdDestroy] else []) @ [AudioDown]) w
      in output_down (st\<lparr>ps_imu := False, ps_eis := False, ps_osd := False\<rparr>) w1)"

definition dual_output_down :: "pipe_state \<Rightarrow> pipe_world \<Rightarrow> pipe_state \<times> pipe_world" where
  "dual_output_down st w = (case ps_dual st of
     None \<Rightarrow> (st, w)
   | Some du \<Rightarrow> (case star6e_output_teardown (du_output du, pw_os w) of ((ou, k), ops) \<Rightarrow>
       (st\<lparr>ps_dual := Some (du\<lparr>du_output := ou, du_rec_started := False\<rparr>)\<rparr>,
        pw_dos (if du_rec_started du then [ThreadJoin] else []) (w\<lparr>pw_os := k\<rparr>))))"

definition channels_unbound :: "pipe_state \<Rightarrow> pipe_world \<Rightarrow> pipe_state \<times> pipe_world" where
  "channels_unbound st w =
     (let w1 = (case ps_dual st of Some du \<Rightarrow> if du_bound du then pw_dos [SysUnbind vpe_port (du_port du)] w else w | None \<Rightarrow> w);
          st1 = st\<lparr>ps_dual := map_option (du_bound_update (\<lambda>_. False)) (ps_dual st)\<rparr>;
          w2 = (if ps_bound_vpe_venc st1 then pw_dos [SysUnbind vpe_port (ps_venc_port st1)] w1 else w1);
          st2 = st1\<lparr>ps_bound_vpe_venc := False\<rparr>;
          duals = (case ps_dual st2 of Some du \<Rightarrow> [du_channel du] | None \<Rightarrow> [])
      in (st2, pw_dos ([VencDrain (ps_venc_channel st2)] @ map VencDrain duals @ map VencStop duals
            @ [VencStop (ps_venc_channel st2)]) w2))"

definition channels_destroyed :: "pipe_state \<Rightarrow> pipe_world \<Rightarrow> pipe_state \<times> pipe_world" where
  "channels_destroyed st w =
     (st\<lparr>ps_dual := None\<rparr>,
      pw_dos ((case ps_dual st of Some du \<Rightarrow> [DualUnregister, VencDestroy (du_channel du)] | None \<Rightarrow> [])
        @ [VencDestroy (ps_venc_channel st)]) w)"

definition star6e_pipeline_stop :: "pipe_state \<Rightarrow> pipe_world \<Rightarrow> pipe_state \<times> pipe_world" where
  "star6e_pipeline_stop st w =
     (case peripherals_down st w of (st1, w1) \<Rightarrow>
      case dual_output_down st1 w1 of (st2, w2) \<Rightarrow>
      case channels_unbound st2 w2 of (st3, w3) \<Rightarrow>
      case (if ps_bound_vif_vpe st3 then unbind_vif_vpe st3 w3 else (st3, w3)) of (st4, w4) \<Rightarrow>
      case channels_destroyed st4 w4 of (st5, w5) \<Rightarrow>
        (st5, pw_undo (star6e_pipeline_stop_sensor (sr_pad_id (ps_sensor st5)))
           (pw_undo star6e_pipeline_stop_vif (pw_undo star6e_pipeline_stop_vpe w5))))"

definition star6e_pipeline_stop_venc_level :: "pipe_state \<Rightarrow> pipe_world \<Rightarrow> pipe_state \<times> pipe_world" where
  "star6e_pipeline_stop_venc_level st w =
     (case peripherals_down st w of (st1, w1) \<Rightarrow>
      case dual_output_down st1 w1 of (st2, w2) \<Rightarrow>
      case channels_unbound st2 w2 of (st3, w3) \<Rightarrow>
      case channels_destroyed st3 w3 of (st4, w4) \<Rightarrow>
      case star6e_video_reset (ps_video st4) (pw_side w4) of (v, side) \<Rightarrow>
        (st4\<lparr>ps_output := star6e_output_reset, ps_video := v\<rparr>, w4\<lparr>pw_side := side\<rparr>))"

subsection \<open>Reinitialisation\<close>

text \<open>The scaler rebuilt for another crop, or its port resized.\<close>

definition reinit_vpe :: "pipe_config \<Rightarrow> precrop_rect \<Rightarrow> pipe_state \<Rightarrow> pipe_world \<Rightarrow> int \<times> pipe_state \<times> pipe_world" where
  "reinit_vpe pc crop st w =
     (case (if ps_bound_vif_vpe st then unbind_vif_vpe st w else (st, w)) of (st1, w1) \<Rightarrow>
      case pw_call (VifSetPort (crop_shift (sr_plane (ps_sensor st1)) crop))
             (pw_dos [VifDisablePort] (pw_undo star6e_pipeline_stop_vpe w1)) of (r2, w2) \<Rightarrow>
      if r2 \<noteq> 0 then (r2, st1, pw_dos [VifDisableDev] w2)
      else case pw_call VifEnablePort w2 of (r3, w3) \<Rightarrow>
      if r3 \<noteq> 0 then (r3, st1, pw_dos [VifDisableDev] w3)
      else case pw_with (star6e_pipeline_start_vpe (ps_sensor st1) crop (pc_image_width pc) (pc_image_height pc)
             (pc_mirror pc) (pc_flip pc) (pc_level_3dnr pc)) w3 of (r4, w4) \<Rightarrow>
      if r4 \<noteq> 0 then (r4, st1, pw_dos [VifDisablePort, VifDisableDev] w4)
      else (0, st1, w4))"

definition resize_vpe :: "pipe_config \<Rightarrow> pipe_world \<Rightarrow> int \<times> pipe_world" where
  "resize_vpe pc w =
     (case pw_call (VpeSetMode (pc_image_width pc) (pc_image_height pc)) (pw_dos [VpeDisablePort] w) of (r1, w1) \<Rightarrow>
      if r1 \<noteq> 0 then (r1, pw_dos [VpeEnablePort] w1)
      else pw_call VpeEnablePort w1)"

text \<open>The new size is clamped to the transported frame, not to its usable part.\<close>

definition reinit_size :: "pipe_config \<Rightarrow> sensor_result \<Rightarrow> u32 \<times> u32" where
  "reinit_size pc s = (case capt_size s of (cw, ch) \<Rightarrow>
     pipeline_common_clamp_image_size cw ch (pc_image_width pc, pc_image_height pc))"

definition star6e_pipeline_reinit :: "pipe_env \<Rightarrow> venc_config \<Rightarrow> pipe_state \<Rightarrow> pipe_world \<Rightarrow> int \<times> pipe_state \<times> pipe_world" where
  "star6e_pipeline_reinit env cfg st0 w0 =
     (case star6e_pipeline_stop_venc_level st0 w0 of (st1, w1) \<Rightarrow>
      case prepare_pipeline_config cfg st1 of
        (None, st2) \<Rightarrow> (-1, st2, w1)
      | (Some pc0, st2) \<Rightarrow>
      let s = ps_sensor st2; prev_w = ps_image_width st2; prev_h = ps_image_height st2 in
      case reinit_size pc0 s of (iw, ih) \<Rightarrow>
      let pc1 = pc0\<lparr>pc_framerate := sr_fps s,
            pc_gop_size := pipeline_common_gop_frames (pe_rnd env) (vid_gop_size (c_video0 cfg)) (sr_fps s),
            pc_image_width := iw, pc_image_height := ih\<rparr>;
          st3 = st2\<lparr>ps_image_width := iw, ps_image_height := ih\<rparr>
      in if iw = prev_w \<and> ih = prev_h then start_venc_and_bind env cfg pc1 st3 w1
         else if full_precrop s prev_w prev_h \<noteq> full_precrop s iw ih
         then case reinit_vpe pc1 (full_precrop s iw ih) st3 w1 of (r4, st4, w4) \<Rightarrow>
           if r4 \<noteq> 0 then (r4, st4, w4)
           else start_venc_and_bind env cfg (pc1\<lparr>pc_precrop := full_precrop s iw ih\<rparr>) st4 w4
         else case resize_vpe pc1 w1 of (r4, w4) \<Rightarrow>
           if r4 \<noteq> 0 then (r4, st3, w4) else start_venc_and_bind env cfg pc1 st3 w4)"

subsection \<open>The second channel\<close>

definition dual_gop :: "(rat \<Rightarrow> rat) \<Rightarrow> dbl \<Rightarrow> u32 \<Rightarrow> u32" where
  "dual_gop rnd gop_sec fps =
     (let g = dbl_to_u32 (dbl_plus_rat rnd (dbl_times_nat rnd gop_sec (unat fps)) (1 / 2)) in if g < 1 then fps else g)"

definition star6e_pipeline_start_dual ::
  "pipe_env \<Rightarrow> u32 \<Rightarrow> u32 \<Rightarrow> dbl \<Rightarrow> string \<Rightarrow> string \<Rightarrow> bool \<Rightarrow> pipe_state \<Rightarrow> pipe_world \<Rightarrow> int \<times> pipe_state \<times> pipe_world" where
  "star6e_pipeline_start_dual env bitrate fps gop_sec mode server frame_lost st w =
     (let m = res_max_fps (sr_mode (ps_sensor st));
          sensor_fps = (if m = 0 then 30 else m);
          f = (if fps = 0 then sensor_fps else if fps > sensor_fps then sensor_fps else fps);
          rate = (if bitrate = 0 then 8000 else bitrate);
          gop = dual_gop (pe_rnd env) gop_sec f
      in case pw_with (star6e_pipeline_start_venc (ps_image_width st) (ps_image_height st) rate f gop PT_H265 3 frame_lost 1) w
        of (r1, w1) \<Rightarrow>
      if r1 \<noteq> 0 then (-1, st, w1)
      else case pw_call (VencDevid 1) w1 of (r2, w2) \<Rightarrow>
      let port = (VENC, if r2 = 0 then pe_devid env else 0, 1) in
      case pw_call (SysBind vpe_port port sensor_fps f) w2 of (r3, w3) \<Rightarrow>
      if r3 \<noteq> 0 then (-1, st, pw_undo (star6e_pipeline_stop_venc 1) w3)
      else (0, st\<lparr>ps_dual := Some \<lparr>du_channel = 1, du_port = port, du_bound = True, du_output = star6e_output_reset\<lparr>o_sock := (o_sock star6e_output_reset)\<lparr>sk_handle := 0\<rparr>\<rparr>,
              du_video = video_zero, du_mode = take 15 mode, du_bitrate = rate, du_fps = f, du_gop = gop, du_server = take 63 server,
              du_rec_started = False, du_is_dual_stream = False\<rparr>\<rparr>,
            pw_dos [SysDepth port 8 56] w3))"

definition star6e_pipeline_stop_dual :: "pipe_state \<Rightarrow> pipe_world \<Rightarrow> pipe_state \<times> pipe_world" where
  "star6e_pipeline_stop_dual st w = (case ps_dual st of
     None \<Rightarrow> (st, w)
   | Some du \<Rightarrow> (case star6e_output_teardown (du_output du, pw_os w) of ((ou, k), ops) \<Rightarrow>
       (st\<lparr>ps_dual := None\<rparr>,
        pw_dos ([VencStop (du_channel du)] @ (if du_bound du then [SysUnbind vpe_port (du_port du)] else [])
          @ [VencDestroy (du_channel du)]) (w\<lparr>pw_os := k\<rparr>))))"

subsection \<open>What each stage leaves up\<close>

abbreviation wups :: "pipe_world \<Rightarrow> resource set" where
  "wups w \<equiv> ups (pw_mi w)"

lemma wups_simps [simp]:
  "pw_mi (w\<lparr>pw_os := k\<rparr>) = pw_mi w" "pw_mi (w\<lparr>pw_side := s\<rparr>) = pw_mi w" "pw_mi (w\<lparr>pw_isp_initialized := b\<rparr>) = pw_mi w"
  "pw_mi (pw_undo f w) = f (pw_mi w)" "pw_mi (pw_dos ops w) = mi_dos ops (pw_mi w)"
  by (simp_all add: pw_undo_def pw_dos_def)

lemmas ups_do = do_takes do_neutral

definition capture_on :: "resource set" where "capture_on = {VifDev, VifPort}"
definition scaler_on :: "resource set" where "scaler_on = {VpeChn, VpeRun, VpePort}"

lemma stop_vif_ups: "ups (star6e_pipeline_stop_vif d) = ups d - capture_on"
  by (auto simp: star6e_pipeline_stop_vif_def capture_on_def ups_do)

lemma stop_vpe_ups: "ups (star6e_pipeline_stop_vpe d) = ups d - scaler_on"
  by (auto simp: star6e_pipeline_stop_vpe_def scaler_on_def ups_do)

lemma stop_venc_ups: "ups (star6e_pipeline_stop_venc c d) = ups d - {Recv c, Chn c}"
  by (auto simp: star6e_pipeline_stop_venc_def ups_do)

lemma stop_sensor_ups: "ups (star6e_pipeline_stop_sensor p d) = ups d - {SensorOn p}"
  by (simp add: star6e_pipeline_stop_sensor_def ups_do)

lemma start_vif_ups:
  assumes "star6e_pipeline_start_vif s r d = (rc, d')" and "ups d \<inter> capture_on = {}"
  shows "ups d' = (if rc = 0 then ups d \<union> capture_on else ups d)"
  using assms unfolding star6e_pipeline_start_vif_def
  by (auto simp: call_neutral ups_do capture_on_def split: prod.splits if_splits)

lemma start_vpe_ups:
  assumes "star6e_pipeline_start_vpe s r w h m f l d = (rc, d')" and "ups d \<inter> scaler_on = {}"
  shows "ups d' = (if rc = 0 then ups d \<union> scaler_on else ups d)"
  using assms unfolding star6e_pipeline_start_vpe_def
  by (auto simp: call_neutral ups_do scaler_on_def split: prod.splits if_splits)

lemma frame_lost_ups: "star6e_controls_apply_frame_lost_threshold c e k d = (rc, d') \<Longrightarrow> ups d' = ups d"
  by (auto simp: star6e_controls_apply_frame_lost_threshold_def Let_def call_neutral split: prod.splits if_splits)

lemma start_venc_ups:
  assumes "star6e_pipeline_start_venc w h b f g c m l chn d = (rc, d')" and "ups d \<inter> {Chn chn, Recv chn} = {}"
  shows "ups d' = (if rc = 0 then ups d \<union> {Chn chn, Recv chn} else ups d)"
proof -
  have "ups (snd (star6e_controls_apply_frame_lost_threshold c e k d)) = ups d" for c e k d
    using frame_lost_ups by (metis prod.collapse)
  then show ?thesis using assms unfolding star6e_pipeline_start_venc_def
    by (auto simp: Let_def call_neutral ups_do split: prod.splits if_splits)
qed

lemma pre_init_ups:
  "ups (star6e_pipeline_pre_init_teardown d) \<subseteq> ups d"
  by (auto simp: star6e_pipeline_pre_init_teardown_def Let_def call_neutral ups_do split: prod.splits if_splits)

end
