(* ===== verification/PipelineStages.thy ===== *)
theory PipelineStages imports Star6ePipeline begin

text \<open>
  What each stage of \<open>src/star6e_pipeline.c\<close> leaves up in the camera's driver, related to the flags the
  pipeline keeps in its state.
\<close>

subsection \<open>Flags and hardware agree\<close>

definition extras :: "pipe_state \<Rightarrow> resource set" where
  "extras st = (if ps_imu st then {ImuUp} else {}) \<union> (if ps_eis st then {EisUp} else {}) \<union> (if ps_osd st then {OsdUp} else {})"

definition dual_up :: "pipe_state \<Rightarrow> resource set" where
  "dual_up st = (case ps_dual st of None \<Rightarrow> {}
     | Some du \<Rightarrow> {Chn (du_channel du), Recv (du_channel du)} \<union> (if du_bound du then {Bound vpe_port (du_port du)} else {}))"

definition sensor_chain :: "pipe_state \<Rightarrow> resource set" where
  "sensor_chain st = {SensorOn (sr_pad_id (ps_sensor st))} \<union> capture_on \<union> scaler_on"

definition encoder_up :: "pipe_state \<Rightarrow> resource set" where
  "encoder_up st = {Chn (ps_venc_channel st), Recv (ps_venc_channel st), Bound vpe_port (ps_venc_port st)}"

text \<open>Everything a running pipeline has up.\<close>

definition all_up :: "pipe_state \<Rightarrow> resource set" where
  "all_up st = sensor_chain st \<union> encoder_up st \<union> {Bound vif_port vpe_port} \<union> extras st \<union> dual_up st"

definition flags_set :: "pipe_state \<Rightarrow> bool" where
  "flags_set st \<longleftrightarrow> ps_bound_vif_vpe st \<and> ps_bound_vpe_venc st \<and> ps_venc_channel st = 0
     \<and> (\<exists>i. ps_venc_port st = (VENC, i, 0)) \<and> (\<forall>du. ps_dual st = Some du \<longrightarrow> du_channel du = 1 \<and> (\<exists>i. du_port du = (VENC, i, 1)))"

text \<open>All of it and nothing else is up; or all but for the encoder's binding, which a change of the
  frame rate can lose.\<close>

definition running :: "pipe_state \<Rightarrow> pipe_world \<Rightarrow> bool" where
  "running st w \<longleftrightarrow> wups w = all_up st \<and> flags_set st"

definition serving :: "pipe_state \<Rightarrow> pipe_world \<Rightarrow> bool" where
  "serving st w \<longleftrightarrow> insert (Bound vpe_port (ps_venc_port st)) (wups w) = all_up st \<and> flags_set st"

lemma insert_or_minus: "b \<in> F \<Longrightarrow> insert b W = F \<longleftrightarrow> W = F \<or> W = F - {b}"
  by (cases "b \<in> W") (auto simp: insert_absorb)

lemma serving_cases: "serving st w \<longleftrightarrow> flags_set st \<and> (wups w = all_up st \<or> wups w = all_up st - {Bound vpe_port (ps_venc_port st)})"
proof -
  have "Bound vpe_port (ps_venc_port st) \<in> all_up st" by (simp add: all_up_def encoder_up_def)
  from insert_or_minus [OF this] show ?thesis unfolding serving_def by metis
qed

lemma running_serving: "running st w \<Longrightarrow> serving st w"
  by (simp add: running_def serving_cases)

lemma finalize_ups: "wups (finalize_isp cfg pc st w) = wups w"
  by (simp add: finalize_isp_def Let_def ups_do)

lemma output_up_ups: "output_up env setup st w = (rc, st', w') \<Longrightarrow> pw_mi w' = pw_mi w \<and> (\<exists>ou. st' = st\<lparr>ps_output := ou\<rparr>)"
  by (auto simp: output_up_def split: prod.splits)

lemma output_down_ups: "output_down st w = (st', w') \<Longrightarrow> pw_mi w' = pw_mi w \<and> (\<exists>ou. st' = st\<lparr>ps_output := ou\<rparr>)"
  by (auto simp: output_down_def split: prod.splits)

lemma pw_call_ups: "pw_call op w = (rc, w') \<Longrightarrow> \<exists>d. mi_call op (pw_mi w) = (rc, d) \<and> pw_mi w' = d"
  by (auto simp: pw_call_def split: prod.splits)

lemma pw_call_brings: "pw_call op w = (rc, w') \<Longrightarrow> takes op = None \<Longrightarrow> brings op = Some r \<Longrightarrow>
    wups w' = (if rc = 0 then insert r (wups w) else wups w)"
  by (auto dest!: pw_call_ups)

lemma pw_call_neutral: "pw_call op w = (rc, w') \<Longrightarrow> takes op = None \<Longrightarrow> brings op = None \<Longrightarrow> wups w' = wups w"
  by (auto dest!: pw_call_ups simp: call_neutral)

lemma same_flags [simp]: "\<exists>b. st = st\<lparr>ps_imu := b\<rparr>" "\<exists>b. st = st\<lparr>ps_eis := b\<rparr>" "\<exists>b. st = st\<lparr>ps_osd := b\<rparr>"
proof -
  have "st = st\<lparr>ps_imu := ps_imu st\<rparr>" "st = st\<lparr>ps_eis := ps_eis st\<rparr>" "st = st\<lparr>ps_osd := ps_osd st\<rparr>"
    by (cases st, simp)+
  then show "\<exists>b. st = st\<lparr>ps_imu := b\<rparr>" "\<exists>b. st = st\<lparr>ps_eis := b\<rparr>" "\<exists>b. st = st\<lparr>ps_osd := b\<rparr>" by blast+
qed

lemma start_imu_ups:
  assumes "start_imu cfg st w = (st', w')" "\<not> ps_imu st" "ImuUp \<notin> wups w"
  shows "(\<exists>b. st' = st\<lparr>ps_imu := b\<rparr>) \<and> wups w' = wups w \<union> (if ps_imu st' then {ImuUp} else {})"
  using assms by (auto simp: start_imu_def pw_call_brings ups_do split: if_splits prod.splits)

lemma start_eis_ups:
  assumes "start_eis cfg st w = (st', w')" "\<not> ps_eis st" "EisUp \<notin> wups w"
  shows "(\<exists>b. st' = st\<lparr>ps_eis := b\<rparr>) \<and> wups w' = wups w \<union> (if ps_eis st' then {EisUp} else {})"
  using assms by (auto simp: start_eis_def pw_call_brings ups_do split: if_splits prod.splits)

lemma start_osd_ups:
  assumes "start_osd cfg st w = (st', w')" "\<not> ps_osd st" "OsdUp \<notin> wups w"
  shows "(\<exists>b. st' = st\<lparr>ps_osd := b\<rparr>) \<and> wups w' = wups w \<union> (if ps_osd st' then {OsdUp} else {})"
  using assms by (auto simp: start_osd_def pw_call_brings split: if_splits prod.splits)

text \<open>A state that differs only in what the stages above the scaler set.\<close>

definition same_below :: "pipe_state \<Rightarrow> pipe_state \<Rightarrow> bool" where
  "same_below st st' \<longleftrightarrow> ps_sensor st' = ps_sensor st \<and> ps_venc_channel st' = ps_venc_channel st \<and> ps_dual st' = ps_dual st"

definition bare :: "pipe_state \<Rightarrow> pipe_world \<Rightarrow> bool" where
  "bare st w \<longleftrightarrow> \<not> ps_imu st \<and> \<not> ps_eis st \<and> \<not> ps_osd st \<and> wups w \<inter> {ImuUp, EisUp, OsdUp} = {}
     \<and> (\<forall>p. Bound vpe_port p \<notin> wups w) \<and> \<not> ps_bound_vpe_venc st
     \<and> (ps_bound_vif_vpe st \<longleftrightarrow> Bound vif_port vpe_port \<in> wups w)"

lemma ports_differ [simp]: "vif_port \<noteq> vpe_port" "vpe_port \<noteq> vif_port" by (simp_all add: vif_port_def vpe_port_def)

lemma extras_started:
  assumes "start_imu cfg st w = (st6, w6)" "start_eis cfg st6 w6 = (st7, w7)" "start_osd cfg st7 w7 = (st8, w8)"
    and "\<not> ps_imu st" "\<not> ps_eis st" "\<not> ps_osd st" "wups w \<inter> {ImuUp, EisUp, OsdUp} = {}"
  shows "(\<exists>a b c. st8 = st\<lparr>ps_imu := a, ps_eis := b, ps_osd := c\<rparr>) \<and> wups w8 = wups w \<union> extras st8"
proof -
  obtain a where 6: "st6 = st\<lparr>ps_imu := a\<rparr>" "wups w6 = wups w \<union> (if a then {ImuUp} else {})"
    using start_imu_ups [OF assms(1)] assms(4,7) by auto
  obtain b where 7: "st7 = st6\<lparr>ps_eis := b\<rparr>" "wups w7 = wups w6 \<union> (if b then {EisUp} else {})"
    using start_eis_ups [OF assms(2)] assms(5,7) 6 by (auto split: if_splits)
  obtain c where 8: "st8 = st7\<lparr>ps_osd := c\<rparr>" "wups w8 = wups w7 \<union> (if c then {OsdUp} else {})"
    using start_osd_ups [OF assms(3)] assms(6,7) 6 7 by (auto split: if_splits)
  have "wups w8 = wups w \<union> extras st8"
    unfolding 8(2) 7(2) 6(2) by (simp add: extras_def 8(1) 7(1) 6(1) Un_assoc)
  then show ?thesis using 6(1) 7(1) 8(1) by auto
qed

text \<open>The first two steps of binding: the encoder's port, and the sensor's side.\<close>

lemma venc_port_ups:
  assumes "venc_port_of env st w = (ok, st1, w1)"
  shows "wups w1 = wups w \<and> st1 = (if ok then st\<lparr>ps_venc_port := (VENC, pe_devid env, ps_venc_channel st)\<rparr> else st)"
  using assms by (auto simp: venc_port_of_def pw_call_neutral split: prod.splits)

lemma bind_vif_ups:
  assumes "bind_vif_vpe pc st w = (rc, st', w')" and "ps_bound_vif_vpe st \<longleftrightarrow> Bound vif_port vpe_port \<in> wups w"
  shows "if rc = 0 then wups w' = insert (Bound vif_port vpe_port) (wups w) \<and> st' = st\<lparr>ps_bound_vif_vpe := True\<rparr>
    else st' = st \<and> wups w' = wups w"
proof (cases "ps_bound_vif_vpe st")
  case True
  then have "st = st\<lparr>ps_bound_vif_vpe := True\<rparr>" by (cases st) simp
  then show ?thesis using True assms by (auto simp: bind_vif_vpe_def)
next
  case False
  then show ?thesis using assms(1) by (auto simp: bind_vif_vpe_def pw_call_brings ups_do split: prod.splits if_splits)
qed

lemma bind_venc_ups:
  assumes "bind_venc env cfg pc st w = (rc, st', w')" and "bare st w"
  shows "same_below st st' \<and> \<not> ps_imu st' \<and> \<not> ps_eis st' \<and> \<not> ps_osd st' \<and> (if rc = 0
      then ps_venc_port st' = (VENC, pe_devid env, ps_venc_channel st) \<and> ps_bound_vif_vpe st' \<and> ps_bound_vpe_venc st'
        \<and> wups w' = wups w \<union> {Bound vif_port vpe_port, Bound vpe_port (ps_venc_port st')}
      else bare st' w' \<and> (wups w' = wups w \<or> wups w' = wups w - {Bound vif_port vpe_port}))"
proof -
  have b: "\<not> ps_imu st" "\<not> ps_eis st" "\<not> ps_osd st" "wups w \<inter> {ImuUp, EisUp, OsdUp} = {}" "\<forall>p. Bound vpe_port p \<notin> wups w"
    "\<not> ps_bound_vpe_venc st" "ps_bound_vif_vpe st \<longleftrightarrow> Bound vif_port vpe_port \<in> wups w"
    using assms(2) unfolding bare_def by blast+
  obtain ok st1 w1 where 1: "venc_port_of env st w = (ok, st1, w1)" by (metis prod_cases3)
  note u1 = venc_port_ups [OF 1]
  obtain r2 st2 w2 where 2: "bind_vif_vpe pc st1 w1 = (r2, st2, w2)" by (metis prod_cases3)
  have "ps_bound_vif_vpe st1 \<longleftrightarrow> Bound vif_port vpe_port \<in> wups w1" using u1 b(7) by auto
  note u2 = bind_vif_ups [OF 2 this]
  obtain src dst where rates: "bind_rates cfg pc st2 = (src, dst)" by (metis surj_pair)
  obtain r3 w3 where 3: "pw_call (SysBind vpe_port (ps_venc_port st2) src dst)
      (pw_dos [IspCap (pc_framerate pc) (pc_exposure_cap_us pc)] w2) = (r3, w3)" by (metis surj_pair)
  have u3: "wups w3 = (if r3 = 0 then insert (Bound vpe_port (ps_venc_port st2)) (wups w2) else wups w2)"
    using pw_call_brings [OF 3] by (simp add: ups_do)
  note steps = assms(1) [unfolded bind_venc_def 1 prod.case]
  consider (noport) "\<not> ok" | (novif) "ok" "r2 \<noteq> 0" | (novenc) "ok" "r2 = 0" "r3 \<noteq> 0" | (bound) "ok" "r2 = 0" "r3 = 0" by blast
  then show ?thesis
  proof cases
    case noport
    then show ?thesis using steps u1 b by (simp add: same_below_def bare_def)
  next
    case novif
    then show ?thesis using steps 2 u1 u2 b by (auto simp: same_below_def bare_def)
  next
    case novenc
    then have "st' = st2\<lparr>ps_bound_vif_vpe := False\<rparr>" "rc = r3" "wups w' = wups w3 - {Bound vif_port vpe_port}"
      using steps 2 rates 3 by (auto simp: unbind_vif_vpe_def ups_do)
    then show ?thesis using novenc u1 u2 u3 b by (simp add: same_below_def bare_def)
  next
    case bound
    then have "st' = st2\<lparr>ps_bound_vpe_venc := True\<rparr>" "rc = 0" "wups w' = wups w3"
      using steps 2 rates 3 by (auto simp: ups_do)
    then show ?thesis using bound u1 u2 u3 b by (simp add: same_below_def) blast
  qed
qed

lemma bind_and_finalize_ups:
  assumes "bind_and_finalize_pipeline env cfg pc st w = (rc, st', w')" and "bare st w"
  shows "same_below st st' \<and> (if rc = 0
      then ps_venc_port st' = (VENC, pe_devid env, ps_venc_channel st) \<and> ps_bound_vif_vpe st' \<and> ps_bound_vpe_venc st'
        \<and> wups w' = wups w \<union> {Bound vif_port vpe_port, Bound vpe_port (ps_venc_port st')} \<union> extras st'
      else bare st' w' \<and> (wups w' = wups w \<or> wups w' = wups w - {Bound vif_port vpe_port}))"
proof -
  have off: "wups w \<inter> {ImuUp, EisUp, OsdUp} = {}" "\<forall>p. Bound vpe_port p \<notin> wups w" using assms(2) by (simp_all add: bare_def)
  obtain r3 st3 w3 where 3: "bind_venc env cfg pc st w = (r3, st3, w3)" by (metis prod_cases3)
  note u3 = bind_venc_ups [OF 3 assms(2)]
  note steps = assms(1) [unfolded bind_and_finalize_pipeline_def 3 prod.case]
  obtain r4 st4 w4 where 4: "output_up env (pc_output_setup pc) st3 w3 = (r4, st4, w4)" by (metis prod_cases3)
  obtain ou where u4: "wups w4 = wups w3" "st4 = st3\<lparr>ps_output := ou\<rparr>" using output_up_ups [OF 4] by auto
  consider (bind) "r3 \<noteq> 0" | (noout) "r3 = 0" "r4 \<noteq> 0" | (ok) "r3 = 0" "r4 = 0" by blast
  then show ?thesis
  proof cases
    case bind
    then have "rc = r3" "st' = st3" "w' = w3" using steps by simp_all
    then show ?thesis using bind u3 by simp
  next
    case noout
    obtain st5 w5 where 5: "output_down st4 w4 = (st5, w5)" by (metis surj_pair)
    then obtain ou' where u5: "pw_mi w5 = pw_mi w4" "st5 = st4\<lparr>ps_output := ou'\<rparr>" using output_down_ups by blast
    have e: "rc = -1" "st' = st5\<lparr>ps_bound_vpe_venc := False, ps_bound_vif_vpe := False\<rparr>"
      "w' = pw_dos [SysUnbind vif_port vpe_port] (pw_dos [SysUnbind vpe_port (ps_venc_port st5)] w5)"
      using steps noout by (simp_all add: 4 5 unbind_vif_vpe_def)
    have "rc = -1" "st' = st3\<lparr>ps_output := ou', ps_bound_vpe_venc := False, ps_bound_vif_vpe := False\<rparr>"
      "wups w' = wups w3 - {Bound vpe_port (ps_venc_port st3)} - {Bound vif_port vpe_port}"
      using e by (simp_all add: u4 u5 ups_do)
    moreover have "wups w3 = wups w \<union> {Bound vif_port vpe_port, Bound vpe_port (ps_venc_port st3)}" using u3 noout by simp
    moreover have "Bound vpe_port (ps_venc_port st3) \<notin> wups w" using off(2) by blast
    ultimately have r: "rc = -1" "st' = st3\<lparr>ps_output := ou', ps_bound_vpe_venc := False, ps_bound_vif_vpe := False\<rparr>"
      "wups w' = wups w - {Bound vif_port vpe_port}" by auto
    have "same_below st st3" "\<not> ps_imu st3" "\<not> ps_eis st3" "\<not> ps_osd st3" using u3 by simp_all
    then have "same_below st st'" "bare st' w'" using off by (simp_all add: r(2,3) same_below_def bare_def)
    then show ?thesis using r(1,3) by simp
  next
    case ok
    obtain v side where v: "star6e_video_init (pe_rand env) (pe_now env) cfg (pc_framerate pc) (Some (ps_output st4)) (pw_side w4) = (v, side)"
      by (metis surj_pair)
    define st5 where "st5 = st4\<lparr>ps_video := v\<rparr>"
    define w5 where "w5 = finalize_isp cfg pc st5 (w4\<lparr>pw_side := side\<rparr>)"
    obtain st6 w6 where 6: "start_imu cfg st5 w5 = (st6, w6)" by (metis surj_pair)
    obtain st7 w7 where 7: "start_eis cfg st6 w6 = (st7, w7)" by (metis surj_pair)
    obtain st8 w8 where 8: "start_osd cfg st7 w7 = (st8, w8)" by (metis surj_pair)
    have res: "rc = 0" "st' = st8" "w' = w8"
      using steps ok by (simp_all add: 4 v Let_def st5_def [symmetric] w5_def [symmetric] 6 7 8)
    have u5: "wups w5 = wups w3" by (simp add: w5_def finalize_ups u4(1))
    have "\<not> ps_imu st5" "\<not> ps_eis st5" "\<not> ps_osd st5" using u3 by (simp_all add: st5_def u4(2))
    moreover have "wups w5 \<inter> {ImuUp, EisUp, OsdUp} = {}" using off u3 ok u5 by auto
    ultimately have ex: "(\<exists>a b c. st8 = st5\<lparr>ps_imu := a, ps_eis := b, ps_osd := c\<rparr>) \<and> wups w8 = wups w5 \<union> extras st8"
      by (rule extras_started [OF 6 7 8])
    then obtain a b c where st8: "st8 = st5\<lparr>ps_imu := a, ps_eis := b, ps_osd := c\<rparr>" by blast
    then have "same_below st st8" "ps_venc_port st8 = (VENC, pe_devid env, ps_venc_channel st)"
      "ps_bound_vif_vpe st8" "ps_bound_vpe_venc st8" "ps_venc_port st8 = ps_venc_port st3"
      using u3 ok by (simp_all add: st5_def u4(2) same_below_def)
    moreover have "wups w8 = wups w \<union> {Bound vif_port vpe_port, Bound vpe_port (ps_venc_port st3)} \<union> extras st8"
      using ex u5 u3 ok by simp
    ultimately show ?thesis using res by simp
  qed
qed

lemma pw_with_vif:
  assumes "pw_with (star6e_pipeline_start_vif s r) w = (rc, w')" and "wups w \<inter> capture_on = {}"
  shows "wups w' = (if rc = 0 then wups w \<union> capture_on else wups w)"
  using assms by (auto simp: pw_with_def split: prod.splits dest!: start_vif_ups)

lemma pw_with_vpe:
  assumes "pw_with (star6e_pipeline_start_vpe s r iw ih m f l) w = (rc, w')" and "wups w \<inter> scaler_on = {}"
  shows "wups w' = (if rc = 0 then wups w \<union> scaler_on else wups w)"
  using assms by (auto simp: pw_with_def split: prod.splits dest!: start_vpe_ups)

lemma pw_with_venc:
  assumes "pw_with (star6e_pipeline_start_venc iw ih b f g c m l chn) w = (rc, w')" and "wups w \<inter> {Chn chn, Recv chn} = {}"
  shows "wups w' = (if rc = 0 then wups w \<union> {Chn chn, Recv chn} else wups w)"
  using assms by (auto simp: pw_with_def start_venc_ups split: prod.splits)

lemma start_venc_and_bind_ups:
  assumes "start_venc_and_bind env cfg pc st w = (rc, st', w')" and "bare st w" and "wups w \<inter> {Chn 0, Recv 0} = {}"
  shows "ps_sensor st' = ps_sensor st \<and> ps_dual st' = ps_dual st \<and> ps_venc_channel st' = 0 \<and> (if rc = 0
      then (\<exists>i. ps_venc_port st' = (VENC, i, 0)) \<and> ps_bound_vif_vpe st' \<and> ps_bound_vpe_venc st'
        \<and> wups w' = wups w \<union> encoder_up st' \<union> {Bound vif_port vpe_port} \<union> extras st'
      else bare st' w' \<and> (wups w' = wups w \<or> wups w' = wups w - {Bound vif_port vpe_port}))"
proof -
  define st1 where "st1 = st\<lparr>ps_venc_channel := 0\<rparr>"
  obtain r1 w1 where 1: "pw_with (star6e_pipeline_start_venc (pc_image_width pc) (pc_image_height pc) (pc_max_rate pc) (start_fps cfg pc)
      (pc_gop_size pc) (pc_codec pc) (pc_rc_mode pc) (vid_frame_lost (c_video0 cfg)) 0) w = (r1, w1)" by (metis surj_pair)
  have u1: "wups w1 = (if r1 = 0 then wups w \<union> {Chn 0, Recv 0} else wups w)"
    using 1 assms(3) by (auto simp: pw_with_def start_venc_ups split: prod.splits)
  have b1: "bare st1 w1" using assms(2) u1 by (simp add: bare_def st1_def)
  obtain r2 st2 w2 where 2: "bind_and_finalize_pipeline env cfg pc st1 w1 = (r2, st2, w2)" by (metis prod_cases3)
  note u2 = bind_and_finalize_ups [OF 2 b1]
  have c: "ps_venc_channel st2 = 0" using u2 by (simp add: same_below_def st1_def)
  note steps = assms(1) [unfolded start_venc_and_bind_def Let_def st1_def [symmetric] 1 prod.case]
  consider (novenc) "r1 \<noteq> 0" | (nobind) "r1 = 0" "r2 \<noteq> 0" | (ok) "r1 = 0" "r2 = 0" by blast
  then show ?thesis
  proof cases
    case novenc
    then have "rc = r1" "st' = st1" "w' = w1" using steps by simp_all
    then show ?thesis using novenc u1 b1 by (simp add: st1_def)
  next
    case nobind
    then have e: "rc = r2" "st' = st2" "w' = pw_undo (star6e_pipeline_stop_venc (ps_venc_channel st2)) w2"
      using steps by (auto simp: 2)
    then have r: "rc = r2" "st' = st2" "wups w' = wups w2 - {Recv 0, Chn 0}" by (simp_all add: stop_venc_ups c)
    have "wups w - {Recv 0, Chn 0} = wups w" using assms(3) by blast
    moreover have "wups w1 = wups w \<union> {Chn 0, Recv 0}" using u1 nobind by simp
    moreover have f: "bare st2 w2 \<and> (wups w2 = wups w1 \<or> wups w2 = wups w1 - {Bound vif_port vpe_port})"
      using u2 [THEN conjunct2] unfolding if_not_P [OF nobind(2)] .
    ultimately have "wups w' = wups w \<or> wups w' = wups w - {Bound vif_port vpe_port}" unfolding r(3) by blast
    moreover have "bare st2 w2" using f by blast
    then have "bare st' w'" using r by (simp add: bare_def)
    ultimately show ?thesis using r nobind u2 by (simp add: same_below_def st1_def)
  next
    case ok
    then have r: "rc = 0" "st' = st2" "w' = w2" using steps by (simp_all add: 2)
    have "ps_venc_channel st2 = 0" using u2 by (simp add: same_below_def st1_def)
    then have "wups w2 = wups w \<union> encoder_up st2 \<union> {Bound vif_port vpe_port} \<union> extras st2"
      using u2 ok u1 by (simp add: encoder_up_def) blast
    then show ?thesis using r ok u2 \<open>ps_venc_channel st2 = 0\<close> by (simp add: same_below_def st1_def)
  qed
qed

subsection \<open>Start: all or nothing\<close>

lemma prepare_state: "prepare_pipeline_config cfg st = (r, st') \<Longrightarrow> \<exists>b. st' = st\<lparr>ps_output_enabled := b\<rparr>"
proof -
  have "\<exists>b. st = st\<lparr>ps_output_enabled := b\<rparr>" by (intro exI [of _ "ps_output_enabled st"]) (cases st, simp)
  then show "prepare_pipeline_config cfg st = (r, st') \<Longrightarrow> \<exists>b. st' = st\<lparr>ps_output_enabled := b\<rparr>"
    by (auto simp: prepare_pipeline_config_def Let_def split: option.splits prod.splits if_splits)
qed

lemma sensor_select_ups:
  assumes "sensor_select env cfg un d = (rc, s, d')" and "ups d = {}"
  shows "if rc = 0 then ups d' = {SensorOn (sr_pad_id s)}
    else ups d' = {} \<or> (\<exists>op. ups d' = {SensorOn (sr_pad_id s)} \<and> last (md_log d') = (op, rc)
        \<and> (op = SnrPadInfo (sr_pad_id s) \<or> op = SnrPlaneInfo (sr_pad_id s)))"
proof (cases "find_best_mode env cfg")
  case None
  then show ?thesis using assms by (auto simp: sensor_select_def)
next
  case (Some b)
  then have "configure_selected_sensor env cfg un b d = (rc, s, d')" using assms(1) by (simp add: sensor_select_def)
  from configure_ups [OF this] show ?thesis using assms(2) by auto
qed

lemma select_and_configure_ups:
  assumes "select_and_configure_sensor env cfg pc st w = (rc, pc', st', w')" and "wups w = {}"
  shows "(\<exists>s iw ih. st' = st\<lparr>ps_sensor := s, ps_image_width := iw, ps_image_height := ih\<rparr>) \<and>
    (if rc = 0 then wups w' = {SensorOn (sr_pad_id (ps_sensor st'))}
     else wups w' = {} \<or> (\<exists>op p. wups w' = {SensorOn p} \<and> last (md_log (pw_mi w')) = (op, rc)
        \<and> (op = SnrPadInfo p \<or> op = SnrPlaneInfo p)))"
proof -
  obtain r s d where 1: "sensor_select (pe_sensor env) (pc_sensor_cfg pc) (pc_unlock pc) (star6e_pipeline_pre_init_teardown (pw_mi w))
      = (r, s, d)" by (metis prod_cases3)
  have "ups (star6e_pipeline_pre_init_teardown (pw_mi w)) = {}" using pre_init_ups assms(2) by blast
  note u = sensor_select_ups [OF 1 this]
  have keep: "\<exists>iw ih. st\<lparr>ps_sensor := s\<rparr> = st\<lparr>ps_sensor := s, ps_image_width := iw, ps_image_height := ih\<rparr>"
    by (intro exI [of _ "ps_image_width st"] exI [of _ "ps_image_height st"]) (cases st, simp)
  show ?thesis
  proof (cases "r = 0")
    case True
    obtain uw uh where us: "usable_size s = (uw, uh)" by (metis surj_pair)
    obtain iw ih where ci: "pipeline_common_clamp_image_size uw uh (pc_image_width pc, pc_image_height pc) = (iw, ih)" by (metis surj_pair)
    have "rc = 0" "st' = st\<lparr>ps_sensor := s, ps_image_width := iw, ps_image_height := ih\<rparr>" "w' = w\<lparr>pw_mi := d\<rparr>"
      using assms(1) True by (simp_all add: select_and_configure_sensor_def 1 us ci)
    then show ?thesis using u True by auto
  next
    case False
    then have "rc = r" "st' = st\<lparr>ps_sensor := s\<rparr>" "wups w' = ups d" "pw_mi w' = d"
      using assms(1) False by (auto simp: select_and_configure_sensor_def 1)
    then show ?thesis using u keep False by auto
  qed
qed

end
