(* ===== verification/PipelineProps.thy ===== *)
theory PipelineProps imports PipelineStages begin

text \<open>
  The Star6E pipeline goes up whole or not at all, a stop takes everything down, and reinitialising and the
  second channel keep what is up in agreement with the pipeline's state.
\<close>

subsection \<open>Start\<close>

lemma bare_zero:
  assumes "st = pipe_zero\<lparr>ps_output_enabled := b, ps_sensor := s, ps_image_width := iw, ps_image_height := ih\<rparr>"
    and "wups w \<subseteq> {SensorOn p} \<union> capture_on \<union> scaler_on"
  shows "bare st w"
  using assms(2) by (auto simp: bare_def assms(1) pipe_zero_def capture_on_def scaler_on_def)

lemma start_chain_disjoint:
  "{SensorOn p} \<inter> capture_on = {}" "({SensorOn p} \<union> capture_on) \<inter> scaler_on = {}"
  "({SensorOn p} \<union> capture_on \<union> scaler_on) \<inter> {Chn c, Recv c} = {}"
  "Bound a b \<notin> {SensorOn p} \<union> capture_on \<union> scaler_on"
  "{SensorOn p} \<union> capture_on \<union> scaler_on - scaler_on - capture_on - {SensorOn p} = {}"
  "{SensorOn p} \<union> capture_on - capture_on - {SensorOn p} = {}"
  by (auto simp: capture_on_def scaler_on_def)

definition sensor_failed :: "int \<Rightarrow> pipe_world \<Rightarrow> bool" where
  "sensor_failed rc w \<longleftrightarrow> (\<exists>op p. wups w = {SensorOn p} \<and> last (md_log (pw_mi w)) = (op, rc) \<and> (op = SnrPadInfo p \<or> op = SnrPlaneInfo p))"

text \<open>The hardware stages after the sensor.\<close>

lemma start_rest:
  assumes "st = pipe_zero\<lparr>ps_output_enabled := b, ps_sensor := s, ps_image_width := iw, ps_image_height := ih\<rparr>"
    and "wups w = {SensorOn (sr_pad_id s)} \<union> capture_on \<union> scaler_on"
    and "start_venc_and_bind env cfg pc st w = (rc, st', w')"
  shows "if rc = 0 then running st' w' \<and> ps_dual st' = None \<and> ps_sensor st' = s else wups w' = wups w"
proof -
  have b: "bare st w" by (rule bare_zero [OF assms(1), of _ "sr_pad_id s"]) (simp add: assms(2))
  have c: "wups w \<inter> {Chn 0, Recv 0} = {}" unfolding assms(2) by (rule start_chain_disjoint)
  have n: "wups w - {Bound vif_port vpe_port} = wups w" using start_chain_disjoint(4) assms(2) by blast
  have d: "ps_dual st = None" "ps_sensor st = s" by (simp_all add: assms(1) pipe_zero_def)
  note u = start_venc_and_bind_ups [OF assms(3) b c]
  show ?thesis
  proof (cases "rc = 0")
    case True
    then have "wups w' = sensor_chain st' \<union> encoder_up st' \<union> {Bound vif_port vpe_port} \<union> extras st'"
      using u d by (simp add: assms(2) sensor_chain_def Un_assoc Un_left_commute)
    then show ?thesis using True u d by (simp add: running_def all_up_def flags_set_def dual_up_def)
  next
    case False
    then show ?thesis using u n by auto
  qed
qed

text \<open>All or nothing, but for the sensor when reading it back fails.\<close>

lemma start_outcome:
  assumes "star6e_pipeline_start env cfg st w = (rc, st', w')" and "wups w = {}"
  shows "if rc = 0 then running st' w' \<and> ps_dual st' = None else wups w' = {} \<or> sensor_failed rc w'"
proof -
  obtain st1 w1 where 1: "star6e_pipeline_reset st w = (st1, w1)" by (metis surj_pair)
  then have u1: "st1 = pipe_zero" "wups w1 = {}" using assms(2) by (auto simp: star6e_pipeline_reset_def split: prod.splits)
  obtain pco st2 where 2: "prepare_pipeline_config cfg pipe_zero = (pco, st2)" by (metis surj_pair)
  note steps = assms(1) [unfolded star6e_pipeline_start_def 1 u1(1) 2 prod.case]
  show ?thesis
  proof (cases pco)
    case None
    then show ?thesis using steps u1 by simp
  next
    case (Some pc0)
    obtain r3 pc st3 w3 where 3: "select_and_configure_sensor env cfg pc0 st2 w1 = (r3, pc, st3, w3)" by (metis prod_cases4)
    obtain b where b: "st2 = pipe_zero\<lparr>ps_output_enabled := b\<rparr>" using prepare_state [OF 2] by blast
    obtain s iw ih where s3: "st3 = pipe_zero\<lparr>ps_output_enabled := b, ps_sensor := s, ps_image_width := iw, ps_image_height := ih\<rparr>"
      using select_and_configure_ups [OF 3 u1(2)] b by blast
    have s: "ps_sensor st3 = s" by (simp add: s3)
    note u3 = select_and_configure_ups [OF 3 u1(2), THEN conjunct2, unfolded s]
    obtain r4 w4 where 4: "pw_with (star6e_pipeline_start_vif s (pc_precrop pc)) w3 = (r4, w4)" by (metis surj_pair)
    obtain r5 w5 where 5: "pw_with (star6e_pipeline_start_vpe s (pc_precrop pc) (pc_image_width pc) (pc_image_height pc)
        (pc_mirror pc) (pc_flip pc) (pc_level_3dnr pc)) w4 = (r5, w5)" by (metis surj_pair)
    obtain r6 st6 w6 where 6: "start_venc_and_bind env cfg pc st3 w5 = (r6, st6, w6)" by (metis prod_cases3)
    note steps = steps [unfolded Some option.case 3 prod.case Let_def s 4 5 6]
    consider (sensor) "r3 \<noteq> 0" | (vif) "r3 = 0" "r4 \<noteq> 0" | (vpe) "r3 = 0" "r4 = 0" "r5 \<noteq> 0" | (above) "r3 = 0" "r4 = 0" "r5 = 0" by blast
    then show ?thesis
    proof cases
      case sensor
      then have "rc = r3" "w' = w3" using steps by simp_all
      then show ?thesis using sensor u3 by (simp add: sensor_failed_def)
    next
      case vif
      have "wups w4 = {SensorOn (sr_pad_id s)}"
        using pw_with_vif [OF 4] u3 vif start_chain_disjoint(1) by simp
      moreover have "w' = pw_undo (star6e_pipeline_stop_sensor (sr_pad_id s)) w4" "rc \<noteq> 0" using steps vif by simp_all
      ultimately show ?thesis by (simp add: stop_sensor_ups)
    next
      case vpe
      have "wups w4 = {SensorOn (sr_pad_id s)} \<union> capture_on" using pw_with_vif [OF 4] u3 vpe start_chain_disjoint(1) by simp
      then have "wups w5 = {SensorOn (sr_pad_id s)} \<union> capture_on" using pw_with_vpe [OF 5] vpe start_chain_disjoint(2) by simp
      moreover have "w' = pw_undo (star6e_pipeline_stop_sensor (sr_pad_id s)) (pw_undo star6e_pipeline_stop_vif w5)" "rc \<noteq> 0"
        using steps vpe by simp_all
      ultimately show ?thesis using start_chain_disjoint(6) by (simp add: stop_sensor_ups stop_vif_ups)
    next
      case above
      have "wups w4 = {SensorOn (sr_pad_id s)} \<union> capture_on" using pw_with_vif [OF 4] u3 above start_chain_disjoint(1) by simp
      then have w5: "wups w5 = {SensorOn (sr_pad_id s)} \<union> capture_on \<union> scaler_on"
        using pw_with_vpe [OF 5] above start_chain_disjoint(2) by simp
      note u6 = start_rest [OF s3 w5 6]
      show ?thesis
      proof (cases "r6 = 0")
        case True
        then show ?thesis using steps above u6 by simp
      next
        case False
        then have "rc \<noteq> 0" "w' = pw_undo (star6e_pipeline_stop_sensor (sr_pad_id s)) (pw_undo star6e_pipeline_stop_vif (pw_undo star6e_pipeline_stop_vpe w6))"
          using steps above by simp_all
        moreover have "wups w6 = {SensorOn (sr_pad_id s)} \<union> capture_on \<union> scaler_on" using u6 False w5 by simp
        ultimately show ?thesis using start_chain_disjoint(5) by (simp add: stop_sensor_ups stop_vif_ups stop_vpe_ups)
      qed
    qed
  qed
qed

subsection \<open>Stop\<close>

lemma peripherals_down_ups:
  assumes "peripherals_down st w = (st', w')"
  shows "wups w' = wups w - extras st \<and> (\<exists>ou. st' = st\<lparr>ps_imu := False, ps_eis := False, ps_osd := False, ps_output := ou\<rparr>)"
proof -
  define ops where "ops = (if ps_imu st then [ImuStop] else []) @ (if ps_eis st then [EisDestroy] else [])
            @ (if ps_imu st then [ImuDestroy] else []) @ (if ps_osd st then [OsdDestroy] else []) @ [AudioDown]"
  have "\<forall>op \<in> set ops. brings op = None" by (auto simp: ops_def)
  moreover have "{r. \<exists>op \<in> set ops. takes op = Some r} = extras st" by (auto simp: ops_def extras_def)
  ultimately have "ups (mi_dos ops (pw_mi w)) = wups w - extras st" by (simp add: ups_dos)
  moreover have "output_down (st\<lparr>ps_imu := False, ps_eis := False, ps_osd := False\<rparr>) (pw_dos ops w) = (st', w')"
    using assms by (simp add: peripherals_down_def ops_def [symmetric])
  from output_down_ups [OF this] have "pw_mi w' = mi_dos ops (pw_mi w)"
    "\<exists>ou. st' = st\<lparr>ps_imu := False, ps_eis := False, ps_osd := False, ps_output := ou\<rparr>" by auto
  ultimately show ?thesis by simp
qed

lemma dual_output_down_ups:
  assumes "dual_output_down st w = (st', w')"
  shows "wups w' = wups w \<and> (\<exists>d. st' = st\<lparr>ps_dual := d\<rparr> \<and> (case ps_dual st of None \<Rightarrow> d = None
    | Some du \<Rightarrow> \<exists>du'. d = Some du' \<and> du_channel du' = du_channel du \<and> du_port du' = du_port du \<and> du_bound du' = du_bound du))"
proof (cases "ps_dual st")
  case None
  then have "st = st\<lparr>ps_dual := None\<rparr>" by (cases st) simp
  moreover have "st' = st" "w' = w" using None assms by (simp_all add: dual_output_down_def)
  ultimately show ?thesis unfolding None by auto
next
  case (Some du)
  then show ?thesis using assms by (auto simp: dual_output_down_def ups_do split: prod.splits if_splits)
qed

lemma channels_unbound_ups:
  assumes "channels_unbound st w = (st', w')"
  shows "wups w' = wups w - (if ps_bound_vpe_venc st then {Bound vpe_port (ps_venc_port st)} else {}) - {Recv (ps_venc_channel st)}
      - (case ps_dual st of None \<Rightarrow> {} | Some du \<Rightarrow> insert (Recv (du_channel du)) (if du_bound du then {Bound vpe_port (du_port du)} else {}))
    \<and> st' = st\<lparr>ps_bound_vpe_venc := False, ps_dual := map_option (du_bound_update (\<lambda>_. False)) (ps_dual st)\<rparr>"
  using assms by (cases "ps_dual st") (auto simp: channels_unbound_def Let_def ups_do split: if_splits)

lemma channels_destroyed_ups:
  assumes "channels_destroyed st w = (st', w')"
  shows "wups w' = wups w - {Chn (ps_venc_channel st)} - (case ps_dual st of None \<Rightarrow> {} | Some du \<Rightarrow> {Chn (du_channel du)})
    \<and> st' = st\<lparr>ps_dual := None\<rparr>"
  using assms by (cases "ps_dual st") (auto simp: channels_destroyed_def ups_do)

text \<open>The two teardowns share everything above the scaler.\<close>

lemma encoder_down_ups:
  assumes "peripherals_down st w = (st1, w1)" "dual_output_down st1 w1 = (st2, w2)" "channels_unbound st2 w2 = (st3, w3)"
    and "ps_bound_vpe_venc st"
  shows "wups w3 = wups w - extras st - (encoder_up st - {Chn (ps_venc_channel st)})
      - (dual_up st - (case ps_dual st of None \<Rightarrow> {} | Some du \<Rightarrow> {Chn (du_channel du)}))
    \<and> (\<exists>ou d. st3 = st\<lparr>ps_imu := False, ps_eis := False, ps_osd := False, ps_output := ou, ps_bound_vpe_venc := False, ps_dual := d\<rparr>
         \<and> map_option du_channel d = map_option du_channel (ps_dual st))"
proof -
  obtain ou where 1: "wups w1 = wups w - extras st" "st1 = st\<lparr>ps_imu := False, ps_eis := False, ps_osd := False, ps_output := ou\<rparr>"
    using peripherals_down_ups [OF assms(1)] by blast
  obtain d where 2: "wups w2 = wups w1" "st2 = st1\<lparr>ps_dual := d\<rparr>" and u2: "case ps_dual st1 of None \<Rightarrow> d = None
      | Some du \<Rightarrow> \<exists>du'. d = Some du' \<and> du_channel du' = du_channel du \<and> du_port du' = du_port du \<and> du_bound du' = du_bound du"
    using dual_output_down_ups [OF assms(2)] by blast
  have p: "ps_dual st1 = ps_dual st" "ps_bound_vpe_venc st2" "ps_venc_port st2 = ps_venc_port st" "ps_venc_channel st2 = ps_venc_channel st" "ps_dual st2 = d"
    using assms(4) by (simp_all add: 1(2) 2(2))
  note u3 = channels_unbound_ups [OF assms(3), unfolded p(3,4,5)]
  have s3: "st3 = st\<lparr>ps_imu := False, ps_eis := False, ps_osd := False, ps_output := ou, ps_bound_vpe_venc := False,
      ps_dual := map_option (du_bound_update (\<lambda>_. False)) d\<rparr>" using u3 by (simp add: 1(2) 2(2))
  have chan: "map_option du_channel (map_option (du_bound_update (\<lambda>_. False)) d) = map_option du_channel (ps_dual st)"
    using u2 p(1) by (auto split: option.splits)
  have enc: "encoder_up st - {Chn (ps_venc_channel st)} = {Recv (ps_venc_channel st), Bound vpe_port (ps_venc_port st)}"
    by (auto simp: encoder_up_def)
  have du: "dual_up st - (case ps_dual st of None \<Rightarrow> {} | Some du \<Rightarrow> {Chn (du_channel du)})
      = (case d of None \<Rightarrow> {} | Some du \<Rightarrow> insert (Recv (du_channel du)) (if du_bound du then {Bound vpe_port (du_port du)} else {}))"
    using u2 p(1,5) by (auto simp: dual_up_def split: option.splits)
  have "wups w3 = wups w - extras st - (encoder_up st - {Chn (ps_venc_channel st)})
      - (dual_up st - (case ps_dual st of None \<Rightarrow> {} | Some du \<Rightarrow> {Chn (du_channel du)}))"
    using u3 p(2) unfolding enc du by (simp add: 1(1) 2(1)) blast
  then show ?thesis using s3 chan by blast
qed

lemma stop_outcome:
  assumes "serving st w" and "star6e_pipeline_stop st w = (st', w')"
  shows "wups w' = {} \<and> ps_dual st' = None \<and> \<not> ps_bound_vif_vpe st' \<and> \<not> ps_bound_vpe_venc st' \<and> extras st' = {}"
proof -
  have r: "wups w \<subseteq> all_up st" "ps_bound_vif_vpe st" "ps_bound_vpe_venc st"
    using assms(1) by (auto simp: serving_cases flags_set_def)
  obtain st1 w1 where 1: "peripherals_down st w = (st1, w1)" by (metis surj_pair)
  obtain st2 w2 where 2: "dual_output_down st1 w1 = (st2, w2)" by (metis surj_pair)
  obtain st3 w3 where 3: "channels_unbound st2 w2 = (st3, w3)" by (metis surj_pair)
  note u = encoder_down_ups [OF 1 2 3 r(3)]
  then obtain ou d where s3: "st3 = st\<lparr>ps_imu := False, ps_eis := False, ps_osd := False, ps_output := ou, ps_bound_vpe_venc := False, ps_dual := d\<rparr>"
    and d: "map_option du_channel d = map_option du_channel (ps_dual st)" by blast
  define st4 where "st4 = st3\<lparr>ps_bound_vif_vpe := False\<rparr>"
  define w4 where "w4 = pw_dos [SysUnbind vif_port vpe_port] w3"
  obtain st5 w5 where 5: "channels_destroyed st4 w4 = (st5, w5)" by (metis surj_pair)
  note u5 = channels_destroyed_ups [OF 5]
  have b: "ps_bound_vif_vpe st3" using r(2) by (simp add: s3)
  have st': "st' = st5" and w': "w' = pw_undo (star6e_pipeline_stop_sensor (sr_pad_id (ps_sensor st5)))
      (pw_undo star6e_pipeline_stop_vif (pw_undo star6e_pipeline_stop_vpe w5))"
    using assms(2) by (auto simp: star6e_pipeline_stop_def 1 2 3 b unbind_vif_vpe_def st4_def [symmetric] w4_def [symmetric] 5)
  have s: "ps_sensor st5 = ps_sensor st" "ps_venc_channel st4 = ps_venc_channel st" using u5 by (simp_all add: st4_def s3)
  have c: "(case ps_dual st4 of None \<Rightarrow> {} | Some du \<Rightarrow> {Chn (du_channel du)}) = (case ps_dual st of None \<Rightarrow> {} | Some du \<Rightarrow> {Chn (du_channel du)})"
    using d by (cases "ps_dual st"; cases d) (auto simp: st4_def s3)
  have "wups w5 = wups w3 - {Bound vif_port vpe_port} - {Chn (ps_venc_channel st)} - (case ps_dual st of None \<Rightarrow> {} | Some du \<Rightarrow> {Chn (du_channel du)})"
    using u5 c s by (simp add: w4_def ups_do)
  then have "wups w5 \<subseteq> sensor_chain st" using u r(1) unfolding all_up_def by (auto split: option.splits)
  moreover have "wups w' = wups w5 - scaler_on - capture_on - {SensorOn (sr_pad_id (ps_sensor st))}"
    by (simp add: w' stop_sensor_ups stop_vif_ups stop_vpe_ups s)
  ultimately have "wups w' = {}" by (auto simp: sensor_chain_def)
  then show ?thesis using u5 st' by (simp add: st4_def s3 extras_def)
qed

end
