(* ===== verification/PipelineReinit.thy ===== *)
theory PipelineReinit imports PipelineProps begin

text \<open>
  What reinitialising the Star6E pipeline and its second channel leave up.
\<close>

subsection \<open>Reinitialisation\<close>

lemma do_brings: "takes op = None \<Longrightarrow> brings op = Some r \<Longrightarrow> ups (mi_do op d) \<subseteq> insert r (ups d) \<and> ups d \<subseteq> ups (mi_do op d)"
  by (cases "mi_call op d") (auto simp: mi_do_def split: if_splits)

text \<open>Everything above the scaler off: the state the partial teardown leaves.\<close>

definition encoder_off :: "pipe_state \<Rightarrow> pipe_world \<Rightarrow> bool" where
  "encoder_off st w \<longleftrightarrow> bare st w \<and> ps_dual st = None \<and> wups w = sensor_chain st \<union> (if ps_bound_vif_vpe st then {Bound vif_port vpe_port} else {})"

lemma chain_disjoint:
  "sensor_chain st \<inter> {Chn c, Recv c} = {}" "Bound a b \<notin> sensor_chain st" "sensor_chain st \<inter> {ImuUp, EisUp, OsdUp} = {}"
  by (auto simp: sensor_chain_def capture_on_def scaler_on_def)

lemma stop_venc_level_off:
  assumes "serving st w" and "star6e_pipeline_stop_venc_level st w = (st', w')"
  shows "encoder_off st' w' \<and> ps_bound_vif_vpe st' \<and> ps_sensor st' = ps_sensor st"
proof -
  have r: "wups w - encoder_up st = all_up st - encoder_up st"
    "ps_bound_vif_vpe st" "ps_bound_vpe_venc st" using assms(1) by (auto simp: serving_cases flags_set_def encoder_up_def)
  obtain st1 w1 where 1: "peripherals_down st w = (st1, w1)" by (metis surj_pair)
  obtain st2 w2 where 2: "dual_output_down st1 w1 = (st2, w2)" by (metis surj_pair)
  obtain st3 w3 where 3: "channels_unbound st2 w2 = (st3, w3)" by (metis surj_pair)
  note u = encoder_down_ups [OF 1 2 3 r(3)]
  then obtain ou d where s3: "st3 = st\<lparr>ps_imu := False, ps_eis := False, ps_osd := False, ps_output := ou, ps_bound_vpe_venc := False, ps_dual := d\<rparr>"
    and d: "map_option du_channel d = map_option du_channel (ps_dual st)" by blast
  obtain st4 w4 where 4: "channels_destroyed st3 w3 = (st4, w4)" by (metis surj_pair)
  note u4 = channels_destroyed_ups [OF 4]
  obtain v side where v: "star6e_video_reset (ps_video st4) (pw_side w4) = (v, side)" by (metis surj_pair)
  have e: "st' = st4\<lparr>ps_output := star6e_output_reset, ps_video := v\<rparr>" "w' = w4\<lparr>pw_side := side\<rparr>"
    using assms(2) by (auto simp: star6e_pipeline_stop_venc_level_def 1 2 3 4 v)
  have c: "(case ps_dual st3 of None \<Rightarrow> {} | Some du \<Rightarrow> {Chn (du_channel du)}) = (case ps_dual st of None \<Rightarrow> {} | Some du \<Rightarrow> {Chn (du_channel du)})"
    using d by (cases "ps_dual st"; cases d) (auto simp: s3)
  have "ps_venc_channel st3 = ps_venc_channel st" by (simp add: s3)
  then have "wups w4 = wups w3 - {Chn (ps_venc_channel st)} - (case ps_dual st of None \<Rightarrow> {} | Some du \<Rightarrow> {Chn (du_channel du)})"
    using u4 c by simp
  then have "wups w4 = (wups w - encoder_up st) - extras st - dual_up st"
    using u by (auto simp: encoder_up_def dual_up_def split: option.splits)
  then have "wups w4 = (sensor_chain st \<union> {Bound vif_port vpe_port}) - extras st - encoder_up st - dual_up st"
    unfolding r(1) all_up_def by blast
  moreover have "(sensor_chain st \<union> {Bound vif_port vpe_port}) \<inter> (extras st \<union> encoder_up st \<union> dual_up st) = {}"
    using assms(1) by (auto simp: serving_cases flags_set_def sensor_chain_def capture_on_def scaler_on_def extras_def encoder_up_def dual_up_def
        vif_port_def vpe_port_def split: option.splits if_splits)
  ultimately have w: "wups w' = sensor_chain st \<union> {Bound vif_port vpe_port}" unfolding e by auto
  have s': "ps_sensor st' = ps_sensor st" "ps_bound_vif_vpe st'" "ps_dual st' = None" "\<not> ps_bound_vpe_venc st'" "extras st' = {}"
    "\<not> ps_imu st'" "\<not> ps_eis st'" "\<not> ps_osd st'"
    using u4 r(2) by (simp_all add: e s3 extras_def)
  then have "sensor_chain st' = sensor_chain st" by (simp add: sensor_chain_def)
  then show ?thesis using w s' chain_disjoint by (auto simp: encoder_off_def bare_def vif_port_def vpe_port_def)
qed

text \<open>From there the encoder comes up again, or stays off.\<close>

lemma start_from_off:
  assumes "encoder_off st w" and "start_venc_and_bind env cfg pc st w = (rc, st', w')"
  shows "ps_sensor st' = ps_sensor st \<and> ps_dual st' = None \<and> (if rc = 0 then running st' w'
    else wups w' = sensor_chain st \<or> wups w' = sensor_chain st \<union> {Bound vif_port vpe_port})"
proof -
  have o: "bare st w" "ps_dual st = None" "wups w = sensor_chain st \<union> (if ps_bound_vif_vpe st then {Bound vif_port vpe_port} else {})"
    using assms(1) by (simp_all add: encoder_off_def)
  have "wups w \<inter> {Chn 0, Recv 0} = {}" using chain_disjoint(1) o(3) by auto
  note u = start_venc_and_bind_ups [OF assms(2) o(1) this]
  have s: "ps_sensor st' = ps_sensor st" "ps_dual st' = None" "sensor_chain st' = sensor_chain st"
    using u o(2) by (simp_all add: sensor_chain_def)
  show ?thesis
  proof (cases "rc = 0")
    case True
    then have "wups w' = sensor_chain st' \<union> encoder_up st' \<union> {Bound vif_port vpe_port} \<union> extras st'"
      using u o(3) s(3) by auto
    then show ?thesis using True u s by (simp add: running_def all_up_def flags_set_def dual_up_def)
  next
    case False
    moreover have "sensor_chain st \<union> {Bound vif_port vpe_port} - {Bound vif_port vpe_port} = sensor_chain st"
      "sensor_chain st - {Bound vif_port vpe_port} = sensor_chain st" using chain_disjoint(2) by auto
    ultimately show ?thesis using u o(3) s by (cases "ps_bound_vif_vpe st") auto
  qed
qed

definition sensor_only :: "pipe_state \<Rightarrow> resource set" where
  "sensor_only st = {SensorOn (sr_pad_id (ps_sensor st))}"

lemma reinit_vpe_off:
  assumes "encoder_off st w" and "reinit_vpe pc crop st w = (rc, st', w')"
  shows "ps_sensor st' = ps_sensor st \<and> (if rc = 0 then encoder_off st' w'
    else sensor_only st \<subseteq> wups w' \<and> wups w' \<subseteq> sensor_chain st)"
proof -
  have o: "bare st w" "ps_dual st = None" "wups w = sensor_chain st \<union> (if ps_bound_vif_vpe st then {Bound vif_port vpe_port} else {})"
    using assms(1) by (simp_all add: encoder_off_def)
  obtain st1 w1 where 1: "(if ps_bound_vif_vpe st then unbind_vif_vpe st w else (st, w)) = (st1, w1)" by (metis surj_pair)
  have "st = st\<lparr>ps_bound_vif_vpe := False\<rparr>" if "\<not> ps_bound_vif_vpe st" using that by (cases st) simp
  then have s1: "st1 = st\<lparr>ps_bound_vif_vpe := False\<rparr>" using 1 by (auto simp: unbind_vif_vpe_def split: if_splits)
  have u1: "wups w1 = sensor_chain st" using 1 o(3) chain_disjoint(2) [of vif_port vpe_port st] by (auto simp: unbind_vif_vpe_def ups_do split: if_splits)
  define w2' where "w2' = pw_dos [VifDisablePort] (pw_undo star6e_pipeline_stop_vpe w1)"
  have u2': "wups w2' = sensor_only st \<union> {VifDev}"
    by (auto simp: w2'_def ups_do stop_vpe_ups u1 sensor_chain_def sensor_only_def capture_on_def scaler_on_def)
  have bare1: "bare st1 v" if "wups v = sensor_chain st" for v
    using o(1) that chain_disjoint by (auto simp: bare_def s1)
  have sc: "ps_sensor st1 = ps_sensor st" "sensor_chain st1 = sensor_chain st" by (simp_all add: s1 sensor_chain_def)
  obtain r2 w2 where 2: "pw_call (VifSetPort (crop_shift (sr_plane (ps_sensor st1)) crop)) w2' = (r2, w2)" by (metis surj_pair)
  have u2: "wups w2 = sensor_only st \<union> {VifDev}" using pw_call_neutral [OF 2] u2' by simp
  obtain r3 w3 where 3: "pw_call VifEnablePort w2 = (r3, w3)" by (metis surj_pair)
  have u3: "wups w3 = (if r3 = 0 then sensor_only st \<union> capture_on else sensor_only st \<union> {VifDev})"
    using pw_call_brings [OF 3] u2 by (auto simp: capture_on_def)
  obtain r4 w4 where 4: "pw_with (star6e_pipeline_start_vpe (ps_sensor st1) crop (pc_image_width pc) (pc_image_height pc)
             (pc_mirror pc) (pc_flip pc) (pc_level_3dnr pc)) w3 = (r4, w4)" by (metis surj_pair)
  have chain: "sensor_chain st = sensor_only st \<union> capture_on \<union> scaler_on" by (simp add: sensor_chain_def sensor_only_def)
  have "(sensor_only st \<union> capture_on) \<inter> scaler_on = {}" by (auto simp: sensor_only_def capture_on_def scaler_on_def)
  then have u4: "wups w4 = (if r4 = 0 then sensor_chain st else sensor_only st \<union> capture_on)" if "r3 = 0"
    using pw_with_vpe [OF 4] u3 that by (simp add: chain)
  note steps = assms(2) [unfolded reinit_vpe_def 1 prod.case w2'_def [symmetric] 2 3 4]
  consider "r2 \<noteq> 0" | "r2 = 0" "r3 \<noteq> 0" | "r2 = 0" "r3 = 0" "r4 \<noteq> 0" | "r2 = 0" "r3 = 0" "r4 = 0" by blast
  then show ?thesis
  proof cases
    case 1
    then have "rc \<noteq> 0" "st' = st1" "wups w' = wups w2 - {VifDev}" using steps by (auto simp: ups_do)
    then show ?thesis using u2 sc by (auto simp: chain sensor_only_def)
  next
    case 2
    then have "rc \<noteq> 0" "st' = st1" "wups w' = wups w3 - {VifDev}" using steps by (auto simp: ups_do)
    then show ?thesis using u3 2 sc by (auto simp: chain sensor_only_def)
  next
    case 3
    then have "rc \<noteq> 0" "st' = st1" "wups w' = wups w4 - {VifPort} - {VifDev}" using steps by (auto simp: ups_do)
    then show ?thesis using u4 3 sc by (auto simp: chain sensor_only_def)
  next
    case 4
    then have "rc = 0" "st' = st1" "w' = w4" using steps by simp_all
    then show ?thesis using u4 4 sc bare1 o(2) by (simp add: encoder_off_def) (simp add: s1)
  qed
qed

lemma resize_vpe_off:
  assumes "encoder_off st w" and "resize_vpe pc w = (rc, w')"
  shows "(rc = 0 \<longrightarrow> encoder_off st w') \<and> sensor_only st \<subseteq> wups w' \<and> wups w' \<subseteq> sensor_chain st \<union> {Bound vif_port vpe_port}"
proof -
  have o: "bare st w" "ps_dual st = None" "wups w = sensor_chain st \<union> (if ps_bound_vif_vpe st then {Bound vif_port vpe_port} else {})"
    using assms(1) by (simp_all add: encoder_off_def)
  have p: "VpePort \<in> wups w" "sensor_only st \<subseteq> wups w - {VpePort}" "wups w \<subseteq> sensor_chain st \<union> {Bound vif_port vpe_port}"
    using o(3) by (auto simp: sensor_chain_def sensor_only_def scaler_on_def)
  obtain r1 w1 where 1: "pw_call (VpeSetMode (pc_image_width pc) (pc_image_height pc)) (pw_dos [VpeDisablePort] w) = (r1, w1)"
    by (metis surj_pair)
  have u1: "wups w1 = wups w - {VpePort}" using pw_call_neutral [OF 1] by (simp add: ups_do)
  have en: "encoder_off st v" if "wups v = wups w" for v
    using assms(1) unfolding encoder_off_def bare_def that .
  show ?thesis
  proof (cases "r1 = 0")
    case True
    then have 2: "pw_call VpeEnablePort w1 = (rc, w')" using assms(2) by (simp add: resize_vpe_def 1)
    have u: "wups w' = (if rc = 0 then wups w else wups w - {VpePort})"
      using pw_call_brings [OF 2] u1 p(1) by auto
    then show ?thesis using en p by (cases "rc = 0") auto
  next
    case False
    then have "rc = r1" "w' = pw_dos [VpeEnablePort] w1" using assms(2) by (simp_all add: resize_vpe_def 1)
    moreover have "ups (mi_do VpeEnablePort (pw_mi w1)) \<subseteq> insert VpePort (wups w1)" "wups w1 \<subseteq> ups (mi_do VpeEnablePort (pw_mi w1))"
      using do_brings [of VpeEnablePort VpePort] by simp_all
    ultimately show ?thesis using False u1 p by auto
  qed
qed

lemma reinit_outcome:
  assumes "serving st w" and "star6e_pipeline_reinit env cfg st w = (rc, st', w')"
  shows "ps_sensor st' = ps_sensor st \<and> (if rc = 0 then running st' w' \<and> ps_dual st' = None
    else sensor_only st \<subseteq> wups w' \<and> wups w' \<subseteq> sensor_chain st \<union> {Bound vif_port vpe_port})"
proof -
  obtain st1 w1 where 1: "star6e_pipeline_stop_venc_level st w = (st1, w1)" by (metis surj_pair)
  note u1 = stop_venc_level_off [OF assms(1) 1]
  have cov: "sensor_only st \<subseteq> sensor_chain st" "sensor_chain (st\<lparr>ps_output_enabled := b, ps_image_width := iw, ps_image_height := ih\<rparr>) = sensor_chain st"
    for st b iw ih by (auto simp: sensor_only_def sensor_chain_def)
  have "encoder_off (st1\<lparr>ps_output_enabled := b, ps_image_width := iw, ps_image_height := ih\<rparr>) w1 = encoder_off st1 w1" for b iw ih
    by (simp add: encoder_off_def bare_def sensor_chain_def)
  then have off: "encoder_off (st1\<lparr>ps_output_enabled := b, ps_image_width := iw, ps_image_height := ih\<rparr>) w1" for b iw ih
    using u1 by blast
  have sc: "sensor_chain st1 = sensor_chain st" "sensor_only st1 = sensor_only st" using u1 by (simp_all add: sensor_chain_def sensor_only_def)
  obtain pco st2 where 2: "prepare_pipeline_config cfg st1 = (pco, st2)" by (metis surj_pair)
  obtain b where s2: "st2 = st1\<lparr>ps_output_enabled := b\<rparr>" using prepare_state [OF 2] by blast
  show ?thesis
  proof (cases pco)
    case None
    then have "rc \<noteq> 0" "st' = st2" "w' = w1" using assms(2) by (auto simp: star6e_pipeline_reinit_def 1 2)
    moreover have "wups w1 = sensor_chain st \<union> {Bound vif_port vpe_port}" using u1 sc by (simp add: encoder_off_def)
    ultimately show ?thesis using u1 cov(1) [of st] by (auto simp: s2)
  next
    case (Some pc0)
    define s where "s = ps_sensor st2"
    have s: "s = ps_sensor st" using u1 by (simp add: s_def s2)
    obtain iw ih where sz: "reinit_size pc0 s = (iw, ih)" by (metis surj_pair)
    define pc1 where "pc1 = pc0\<lparr>pc_framerate := sr_fps s,
            pc_gop_size := pipeline_common_gop_frames (pe_rnd env) (vid_gop_size (c_video0 cfg)) (sr_fps s),
            pc_image_width := iw, pc_image_height := ih\<rparr>"
    define st3 where "st3 = st2\<lparr>ps_image_width := iw, ps_image_height := ih\<rparr>"
    have off3: "encoder_off st3 w1" "ps_sensor st3 = ps_sensor st" "sensor_chain st3 = sensor_chain st" "sensor_only st3 = sensor_only st"
      using off u1 sc by (simp_all add: st3_def s2 sensor_chain_def sensor_only_def)
    have fin: ?thesis if "encoder_off st4 w4" "ps_sensor st4 = ps_sensor st" "start_venc_and_bind env cfg pc st4 w4 = (rc, st', w')" for pc st4 w4
      using start_from_off [OF that(1,3)] that(2) cov(1) [of st] by (auto simp: sensor_chain_def sensor_only_def)
    note steps = assms(2) [unfolded star6e_pipeline_reinit_def 1 2 Some prod.case option.case Let_def s_def [symmetric] sz
        pc1_def [symmetric] st3_def [symmetric]]
    consider (same) "iw = ps_image_width st2 \<and> ih = ps_image_height st2"
      | (crop) "\<not> (iw = ps_image_width st2 \<and> ih = ps_image_height st2)"
          "full_precrop s (ps_image_width st2) (ps_image_height st2) \<noteq> full_precrop s iw ih"
      | (resize) "\<not> (iw = ps_image_width st2 \<and> ih = ps_image_height st2)"
          "full_precrop s (ps_image_width st2) (ps_image_height st2) = full_precrop s iw ih" by blast
    then show ?thesis
    proof cases
      case same
      then have "start_venc_and_bind env cfg pc1 st3 w1 = (rc, st', w')" using steps by simp
      then show ?thesis by (rule fin [OF off3(1,2)])
    next
      case crop
      obtain r4 st4 w4 where 4: "reinit_vpe pc1 (full_precrop s iw ih) st3 w1 = (r4, st4, w4)" by (metis prod_cases3)
      note u4 = reinit_vpe_off [OF off3(1) 4]
      note steps = steps [unfolded if_not_P [OF crop(1)] if_P [OF crop(2)] 4 prod.case]
      show ?thesis
      proof (cases "r4 = 0")
        case True
        then have "start_venc_and_bind env cfg (pc1\<lparr>pc_precrop := full_precrop s iw ih\<rparr>) st4 w4 = (rc, st', w')" using steps by simp
        then show ?thesis by (rule fin [rotated 2]) (use True u4 off3 in simp_all)
      next
        case False
        then have "rc = r4" "st' = st4" "w' = w4" using steps by simp_all
        then show ?thesis using False u4 off3 by auto
      qed
    next
      case resize
      obtain r4 w4 where 4: "resize_vpe pc1 w1 = (r4, w4)" by (metis surj_pair)
      note u4 = resize_vpe_off [OF off3(1) 4]
      have nc: "\<not> full_precrop s (ps_image_width st2) (ps_image_height st2) \<noteq> full_precrop s iw ih" using resize(2) by simp
      note steps = steps [unfolded if_not_P [OF resize(1)] if_not_P [OF nc] 4 prod.case]
      show ?thesis
      proof (cases "r4 = 0")
        case True
        then have "start_venc_and_bind env cfg pc1 st3 w4 = (rc, st', w')" using steps by simp
        then show ?thesis by (rule fin [rotated 2]) (use True u4 off3 in simp_all)
      next
        case False
        then have "rc = r4" "st' = st3" "w' = w4" using steps by simp_all
        then show ?thesis using False u4 off3 by auto
      qed
    qed
  qed
qed

subsection \<open>The second channel\<close>

lemma start_dual_serving:
  assumes "serving st w" "ps_dual st = None"
    and "star6e_pipeline_start_dual env bitrate fps gop mode server fl st w = (rc, st', w')"
  shows "serving st' w' \<and> ps_sensor st' = ps_sensor st \<and> wups w \<subseteq> wups w' \<and> (if rc = 0 then \<exists>du. ps_dual st' = Some du else st' = st \<and> wups w' = wups w)"
proof -
  have r: "insert (Bound vpe_port (ps_venc_port st)) (wups w) = sensor_chain st \<union> encoder_up st \<union> {Bound vif_port vpe_port} \<union> extras st"
    "ps_venc_channel st = 0" "\<exists>i. ps_venc_port st = (VENC, i, 0)"
    using assms(1,2) by (simp_all add: serving_def all_up_def flags_set_def dual_up_def)
  have "{Chn 1, Recv 1} \<inter> (sensor_chain st \<union> encoder_up st \<union> {Bound vif_port vpe_port} \<union> extras st) = {}"
    using r(2) by (auto simp: sensor_chain_def capture_on_def scaler_on_def extras_def encoder_up_def)
  then have new: "wups w \<inter> {Chn 1, Recv 1} = {}" using r(1) by blast
  define m where "m = res_max_fps (sr_mode (ps_sensor st))"
  define sfps where "sfps = (if m = 0 then 30 else m)"
  define f where "f = (if fps = 0 then sfps else if fps > sfps then sfps else fps)"
  define rate where "rate = (if bitrate = 0 then 8000 else bitrate)"
  define g where "g = dual_gop (pe_rnd env) gop f"
  obtain r1 w1 where 1: "pw_with (star6e_pipeline_start_venc (ps_image_width st) (ps_image_height st) rate f g PT_H265 3 fl 1) w = (r1, w1)"
    by (metis surj_pair)
  note u1 = pw_with_venc [OF 1 new]
  obtain r2 w2 where 2: "pw_call (VencDevid 1) w1 = (r2, w2)" by (metis surj_pair)
  have u2: "wups w2 = wups w1" using pw_call_neutral [OF 2] by simp
  define port where "port = (VENC, if r2 = 0 then pe_devid env else 0, 1::int)"
  obtain r3 w3 where 3: "pw_call (SysBind vpe_port port sfps f) w2 = (r3, w3)" by (metis surj_pair)
  have u3: "wups w3 = (if r3 = 0 then insert (Bound vpe_port port) (wups w2) else wups w2)" using pw_call_brings [OF 3] by simp
  note steps = assms(3) [unfolded star6e_pipeline_start_dual_def Let_def m_def [symmetric] sfps_def [symmetric] f_def [symmetric]
      rate_def [symmetric] g_def [symmetric] 1 prod.case 2 port_def [symmetric] 3]
  consider "r1 \<noteq> 0" | "r1 = 0" "r3 \<noteq> 0" | "r1 = 0" "r3 = 0" by blast
  then show ?thesis
  proof cases
    case 1
    then have "rc = -1" "st' = st" "w' = w1" using steps by simp_all
    moreover have "wups w1 = wups w" using 1 u1 by simp
    ultimately show ?thesis using assms(1) by (simp add: serving_def)
  next
    case 2
    then have e: "rc = -1" "st' = st" "w' = pw_undo (star6e_pipeline_stop_venc 1) w3" using steps by simp_all
    have "wups w' = wups w" using 2 u1 u2 u3 new by (auto simp: e(3) stop_venc_ups)
    then show ?thesis using e assms(1) by (simp add: serving_def)
  next
    case 3
    then have "rc = 0" and st': "\<exists>du. st' = st\<lparr>ps_dual := Some du\<rparr> \<and> du_channel du = 1 \<and> du_port du = port \<and> du_bound du"
      and w': "w' = pw_dos [SysDepth port 8 56] w3" using steps by auto
    from st' obtain du where du: "st' = st\<lparr>ps_dual := Some du\<rparr>" "du_channel du = 1" "du_port du = port" "du_bound du" by blast
    have "wups w' = wups w3" by (simp add: w' ups_do)
    then have "wups w' = wups w \<union> {Chn 1, Recv 1} \<union> {Bound vpe_port port}" using 3 u1 u2 u3 by simp
    then have "insert (Bound vpe_port (ps_venc_port st')) (wups w') = insert (Bound vpe_port (ps_venc_port st)) (wups w) \<union> dual_up st'"
      using du by (auto simp: dual_up_def)
    then have "insert (Bound vpe_port (ps_venc_port st')) (wups w') = all_up st'"
      unfolding r(1) using du by (simp add: all_up_def sensor_chain_def encoder_up_def extras_def)
    then show ?thesis using \<open>rc = 0\<close> assms(1) du \<open>wups w' = wups w \<union> {Chn 1, Recv 1} \<union> {Bound vpe_port port}\<close>
      by (simp add: serving_def flags_set_def port_def) blast
  qed
qed

lemma insert_minus: "W' = W - D \<Longrightarrow> A \<inter> D = {} \<Longrightarrow> insert b W = A \<union> D \<Longrightarrow> b \<in> A \<Longrightarrow> insert b W' = A"
  by (simp add: set_eq_iff) metis

lemma stop_dual_serving:
  assumes "serving st w" and "star6e_pipeline_stop_dual st w = (st', w')"
  shows "serving st' w' \<and> ps_dual st' = None"
proof (cases "ps_dual st")
  case None
  then show ?thesis using assms by (simp add: star6e_pipeline_stop_dual_def)
next
  case (Some du)
  then have d: "du_channel du = 1" "\<exists>i. du_port du = (VENC, i, 1)" using assms(1) by (auto simp: serving_def flags_set_def)
  obtain ou k ops where t: "star6e_output_teardown (du_output du, pw_os w) = ((ou, k), ops)" by (metis surj_pair)
  have st': "st' = st\<lparr>ps_dual := None\<rparr>" using assms(2) Some t by (auto simp: star6e_pipeline_stop_dual_def)
  have "wups w' = wups w - dual_up st"
    using assms(2) Some t by (auto simp: star6e_pipeline_stop_dual_def dual_up_def ups_do)
  moreover have "(sensor_chain st \<union> encoder_up st \<union> {Bound vif_port vpe_port} \<union> extras st) \<inter> dual_up st = {}"
  proof -
    obtain i j where ij: "du_port du = (VENC, i, 1)" "ps_venc_port st = (VENC, j, 0)" "ps_venc_channel st = 0"
      using d assms(1) by (auto simp: serving_def flags_set_def)
    have "dual_up st \<subseteq> {Chn 1, Recv 1, Bound vpe_port (VENC, i, 1)}" by (simp add: dual_up_def Some d(1) ij(1))
    moreover have "r \<notin> sensor_chain st \<union> encoder_up st \<union> {Bound vif_port vpe_port} \<union> extras st"
      if "r \<in> {Chn 1, Recv 1, Bound vpe_port (VENC, i, 1)}" for r
      using that by (elim insertE; simp add: sensor_chain_def capture_on_def scaler_on_def extras_def encoder_up_def ij)
    ultimately show ?thesis by blast
  qed
  moreover have "insert (Bound vpe_port (ps_venc_port st)) (wups w) = sensor_chain st \<union> encoder_up st \<union> {Bound vif_port vpe_port} \<union> extras st \<union> dual_up st"
    using assms(1) by (simp add: serving_def all_up_def)
  moreover have "Bound vpe_port (ps_venc_port st) \<in> sensor_chain st \<union> encoder_up st \<union> {Bound vif_port vpe_port} \<union> extras st"
    by (simp add: encoder_up_def)
  ultimately have "insert (Bound vpe_port (ps_venc_port st)) (wups w') = sensor_chain st \<union> encoder_up st \<union> {Bound vif_port vpe_port} \<union> extras st"
    by (rule insert_minus)
  moreover have "all_up st' = sensor_chain st \<union> encoder_up st \<union> {Bound vif_port vpe_port} \<union> extras st"
    by (simp add: st' all_up_def sensor_chain_def encoder_up_def extras_def dual_up_def)
  moreover have "flags_set st'" using assms(1) by (simp add: serving_def flags_set_def st')
  ultimately show ?thesis by (simp add: serving_def st')
qed

end
