(* ===== verification/PipelineLife.thy ===== *)
theory PipelineLife imports PipelineReinit begin

text \<open>
  The life of a Star6E pipeline: the properties of starting, stopping and reinitialising it, with a camera
  on which everything works.
\<close>

subsection \<open>A camera\<close>

definition demo_pipe_sensor :: sensor_env where
  "demo_pipe_sensor = \<lparr>se_modes = (\<lambda>p. if p = 0 then Some [Some (demo_res 1920 1080 90)] else None),
     se_plane = (\<lambda>p. \<lparr>pl_capt = \<lparr>pr_x = 0, pr_y = 0, pr_w = 1920, pr_h = 1080\<rparr>\<rparr>)\<rparr>"

definition demo_pipe_env :: pipe_env where
  "demo_pipe_env = \<lparr>pe_sensor = demo_pipe_sensor, pe_rnd = id, pe_rand = (1, 2, 3, 4), pe_now = \<lparr>tv_sec = 0, tv_nsec = 0\<rparr>,
     pe_ring = \<lparr>ce_shm_open = True, ce_ftruncate = True, ce_mmap = True, ce_calloc = True, ce_tv_sec = 0, ce_tv_nsec = 0\<rparr>,
     pe_devid = 0\<rparr>"

definition demo_pipe_world :: "int list \<Rightarrow> pipe_world" where
  "demo_pipe_world rs = \<lparr>pw_mi = \<lparr>md_results = rs, md_log = []\<rparr>, pw_os = example_os [],
     pw_side = \<lparr>so_sockets = [], so_calls = [], so_arrivals = [], so_answers = [], so_time = (\<lambda>n. 0), so_ticks = 0, so_log = []\<rparr>,
     pw_isp_initialized = False\<rparr>"

text \<open>A start on it and what comes of it.\<close>

definition demo_started :: "int \<times> pipe_state \<times> pipe_world" where
  "demo_started = star6e_pipeline_start demo_pipe_env venc_config_defaults pipe_zero (demo_pipe_world (replicate 80 0))"

lemma demo_world_dead: "wups (demo_pipe_world rs) = {}"
  by (simp add: demo_pipe_world_def ups_def)

lemma demo_started_rc: "fst demo_started = 0"
  by code_simp

lemma demo_running: "\<exists>st w. demo_started = (0, st, w) \<and> running st w"
proof -
  obtain rc st w where s: "demo_started = (rc, st, w)" by (metis prod_cases3)
  then have "rc = 0" by (metis demo_started_rc fst_conv)
  moreover have "running st w" using start_outcome [OF s [unfolded demo_started_def] demo_world_dead] calculation by simp
  ultimately show ?thesis using s by blast
qed

subsection \<open>Starting\<close>

text \<open>Property C18. Starting the pipeline on a camera with nothing up is all or nothing: when it succeeds
  exactly the running pipeline is up, with its flags set; when it fails everything the start brought up has been taken down
  again, except that the sensor stays enabled when reading its pad or its plane back is what failed.\<close>

theorem pipeline_start_all_or_nothing:
  assumes "star6e_pipeline_start env cfg st w = (rc, st', w')" and "wups w = {}"
  shows "if rc = 0 then running st' w' \<and> ps_dual st' = None else wups w' = {} \<or> sensor_failed rc w'"
  by (rule start_outcome [OF assms])

theorem pipeline_start_all_or_nothing_witness:
  "\<exists>st w. star6e_pipeline_start demo_pipe_env venc_config_defaults pipe_zero (demo_pipe_world (replicate 80 0)) = (0, st, w)
     \<and> running st w"
proof -
  obtain rc st w where s: "demo_started = (rc, st, w)" by (metis prod_cases3)
  then have "rc = 0" by (metis demo_started_rc fst_conv)
  then show ?thesis
    using pipeline_start_all_or_nothing [OF s [unfolded demo_started_def] demo_world_dead] s [unfolded demo_started_def] by auto
qed

subsection \<open>Stopping\<close>

text \<open>Property C19. Stopping a pipeline that is up (all of it, or all but the encoder's binding) takes down everything that was up, the second channel
  included, and clears the flags that say so.\<close>

theorem pipeline_stop_empties:
  assumes "serving st w" and "star6e_pipeline_stop st w = (st', w')"
  shows "wups w' = {} \<and> ps_dual st' = None \<and> \<not> ps_bound_vif_vpe st' \<and> \<not> ps_bound_vpe_venc st' \<and> extras st' = {}"
  by (rule stop_outcome [OF assms])

theorem pipeline_stop_empties_witness:
  "\<exists>st w st' w'. running st w \<and> star6e_pipeline_stop st w = (st', w') \<and> wups w' = {}"
proof -
  obtain st w where r: "running st w" using demo_running by blast
  obtain st' w' where s: "star6e_pipeline_stop st w = (st', w')" by (metis surj_pair)
  then show ?thesis using pipeline_stop_empties [OF running_serving [OF r] s] r by blast
qed

subsection \<open>Reinitialising\<close>

text \<open>Property C20. Reinitialising a pipeline that is up leaves a running one on the same sensor, without the second channel;
  when it fails, no encoder channel, no binding to one, no motion unit, stabiliser or overlay is left up, but the sensor
  still is.\<close>

theorem pipeline_reinit_keeps_sensor:
  assumes "serving st w" and "star6e_pipeline_reinit env cfg st w = (rc, st', w')"
  shows "ps_sensor st' = ps_sensor st \<and> (if rc = 0 then running st' w' \<and> ps_dual st' = None
    else sensor_only st \<subseteq> wups w' \<and> wups w' \<subseteq> sensor_chain st \<union> {Bound vif_port vpe_port})"
  by (rule reinit_outcome [OF assms])

text \<open>A pipeline found running, the calls that brought it up in the log.\<close>

definition demo_up :: pipe_state where
  "demo_up = pipe_zero\<lparr>ps_venc_port := (VENC, 0, 0), ps_bound_vif_vpe := True, ps_bound_vpe_venc := True\<rparr>"

definition demo_up_world :: pipe_world where
  "demo_up_world = (demo_pipe_world (replicate 40 0))\<lparr>pw_mi := \<lparr>md_results = replicate 40 0, md_log = map (\<lambda>op. (op, 0))
     [SnrEnable 0, VifEnableDev, VifEnablePort, VpeCreate 1920 1080 1, VpeStart, VpeEnablePort,
      VencCreate 0 \<lparr>va_codec = PT_H265, va_width = 1920, va_height = 1080, va_mode = RATE_CBR, va_gop = 90, va_fps = 60,
        va_bitrate = 8388608, va_max_qual = 0, va_min_qual = 0\<rparr>, VencStart 0,
      SysBind vif_port vpe_port 90 90, SysBind vpe_port (VENC, 0, 0) 90 60]\<rparr>\<rparr>"

lemma demo_up_running: "running demo_up demo_up_world"
  by (auto simp: running_def all_up_def flags_set_def demo_up_def pipe_zero_def demo_up_world_def ups_def up_step_def sensor_chain_def capture_on_def
      scaler_on_def encoder_up_def extras_def dual_up_def sensor_zero_def)

lemma demo_reinit_rc: "fst (star6e_pipeline_reinit demo_pipe_env venc_config_defaults demo_up demo_up_world) = 0"
  by code_simp

theorem pipeline_reinit_keeps_sensor_witness:
  "\<exists>st' w'. star6e_pipeline_reinit demo_pipe_env venc_config_defaults demo_up demo_up_world = (0, st', w') \<and> running st' w'"
proof -
  obtain rc st' w' where t: "star6e_pipeline_reinit demo_pipe_env venc_config_defaults demo_up demo_up_world = (rc, st', w')"
    by (metis prod_cases3)
  then have "rc = 0" by (metis demo_reinit_rc fst_conv)
  then show ?thesis using pipeline_reinit_keeps_sensor [OF running_serving [OF demo_up_running] t] t by auto
qed

end
