(* ===== verification/Star6eControls.thy ===== *)
theory Star6eControls imports PipelineLife ApiServer StarAudio begin

text \<open>
  The settings that take effect on a running Star6E pipeline (\<open>src/star6e_controls.c\<close>): the callbacks behind the
  settings API, as functions of the configuration on the camera. Queries that only read the image
  processor are not modelled.
\<close>

subsection \<open>The camera\<close>

record control_ctx =
  cx_venc_chn :: int
  cx_vpe_port :: mi_port
  cx_venc_port :: mi_port
  cx_sensor_fps :: u32
  cx_frame_width :: u32
  cx_frame_height :: u32
  cx_bound :: bool

text \<open>The pipeline, the driver behind it and the exposure thread, with the controls' context. \<open>cx_bound\<close>: the context's
  two pointers, which are set and cleared together.\<close>

record camera =
  cam_ctx :: control_ctx
  cam_ps :: pipe_state
  cam_stored_fps :: u32
  cam_world :: pipe_world
  cam_cus3a :: bool
  cam_shutter_max :: u32
  cam_gain_max :: u32
  cam_audio :: audio_state
  cam_ai :: ai_dev

definition no_port :: mi_port where "no_port = (IVE, 0, 0)"

definition ctx_zero :: control_ctx where
  "ctx_zero = \<lparr>cx_venc_chn = 0, cx_vpe_port = no_port, cx_venc_port = no_port, cx_sensor_fps = 0, cx_frame_width = 0,
     cx_frame_height = 0, cx_bound = False\<rparr>"

definition star6e_controls_bind :: "camera \<Rightarrow> camera" where
  "star6e_controls_bind s = (let ps = cam_ps s in s\<lparr>cam_ctx :=
     \<lparr>cx_venc_chn = ps_venc_channel ps, cx_vpe_port = vpe_port, cx_venc_port = ps_venc_port ps,
      cx_sensor_fps = (if res_max_fps (sr_mode (ps_sensor ps)) \<noteq> 0 then res_max_fps (sr_mode (ps_sensor ps))
        else vs_sensor_framerate (ps_video ps)),
      cx_frame_width = ps_image_width ps, cx_frame_height = ps_image_height ps, cx_bound = True\<rparr>\<rparr>)"

definition star6e_controls_reset :: "camera \<Rightarrow> camera" where
  "star6e_controls_reset s = s\<lparr>cam_ctx := ctx_zero\<rparr>"

definition cam_call :: "mi_op \<Rightarrow> camera \<Rightarrow> int \<times> camera" where
  "cam_call op s = (case pw_call op (cam_world s) of (rc, w) \<Rightarrow> (rc, s\<lparr>cam_world := w\<rparr>))"

definition cam_dos :: "mi_op list \<Rightarrow> camera \<Rightarrow> camera" where
  "cam_dos ops s = s\<lparr>cam_world := pw_dos ops (cam_world s)\<rparr>"

definition cam_attr :: "camera \<Rightarrow> int \<Rightarrow> venc_attr" where
  "cam_attr s c = attr_of (pw_mi (cam_world s)) c"

subsection \<open>Encoder settings\<close>

text \<open>Reading a channel's attributes, changing them and writing them back.\<close>

definition set_attr :: "int \<Rightarrow> bool \<Rightarrow> (venc_attr \<Rightarrow> venc_attr) \<Rightarrow> camera \<Rightarrow> int \<times> camera" where
  "set_attr chn known f s =
     (case cam_call (VencGetAttr chn) s of (r1, s1) \<Rightarrow>
      if r1 \<noteq> 0 then (-1, s1)
      else if known \<and> va_mode (cam_attr s1 chn) = RATE_NONE then (-1, s1)
      else let a = cam_attr s1 chn in
        case cam_call (VencSetAttr chn (if va_mode a = RATE_NONE then a else f a)) s1 of (r2, s2) \<Rightarrow>
        (if r2 = 0 then 0 else -1, s2))"

definition apply_bitrate :: "venc_config \<Rightarrow> u32 \<Rightarrow> camera \<Rightarrow> int \<times> camera" where
  "apply_bitrate cfg kbps0 s =
     (let kbps = (if kbps0 > 200000 then 200000 else kbps0); chn = cx_venc_chn (cam_ctx s);
          lost = (if cx_bound (cam_ctx s) then vid_frame_lost (c_video0 cfg) else True)
      in case set_attr chn True (\<lambda>a. a\<lparr>va_bitrate := kbps * 1024\<rparr>) s of (r1, s1) \<Rightarrow>
      if r1 \<noteq> 0 then (-1, s1)
      else case star6e_controls_apply_frame_lost_threshold chn lost kbps (pw_mi (cam_world s1)) of (r2, d) \<Rightarrow>
        (if r2 \<noteq> 0 then -1 else 0, s1\<lparr>cam_world := (cam_world s1)\<lparr>pw_mi := d\<rparr>\<rparr>))"

definition apply_encoder_gop :: "u32 \<Rightarrow> camera \<Rightarrow> int \<times> camera" where
  "apply_encoder_gop gop_size s = set_attr (cx_venc_chn (cam_ctx s)) True (\<lambda>a. a\<lparr>va_gop := gop_size\<rparr>) s"

definition apply_gop :: "u32 \<Rightarrow> camera \<Rightarrow> int \<times> camera" where
  "apply_gop gop_size s = apply_encoder_gop gop_size s"

definition request_idr :: "camera \<Rightarrow> int \<times> camera" where
  "request_idr s = (case cam_call (VencIdr (cx_venc_chn (cam_ctx s))) s of (rc, s') \<Rightarrow> (if rc = 0 then 0 else -1, s'))"

definition apply_qp_delta :: "int \<Rightarrow> camera \<Rightarrow> int \<times> camera" where
  "apply_qp_delta delta s =
     (let chn = cx_venc_chn (cam_ctx s) in
      case cam_call (VencGetAttr chn) s of (r1, s1) \<Rightarrow>
      if r1 \<noteq> 0 then (-1, s1)
      else case cam_call (VencGetRc chn) s1 of (r2, s2) \<Rightarrow>
      if r2 \<noteq> 0 then (-1, s2)
      else if delta < -12 \<or> delta > 12 \<or> va_mode (cam_attr s1 chn) = RATE_NONE then (-1, s2)
      else case cam_call (VencSetRc chn delta) s2 of (r3, s3) \<Rightarrow>
      if r3 \<noteq> 0 then (-1, s3) else request_idr s3)"

text \<open>The frame rate of the attributes; in an unknown mode they are written back unchanged.\<close>

definition apply_encoder_fps :: "u32 \<Rightarrow> camera \<Rightarrow> int \<times> camera" where
  "apply_encoder_fps fps s = set_attr (cx_venc_chn (cam_ctx s)) False (\<lambda>a. a\<lparr>va_fps := fps\<rparr>) s"

text \<open>The frame rate is the rate of the binding: it is made anew, and restored at the full rate when that is refused.\<close>

definition apply_fps :: "u32 \<Rightarrow> camera \<Rightarrow> int \<times> camera" where
  "apply_fps fps0 s =
     (if fps0 = 0 \<or> fps0 > 120 then (-1, s)
      else
        let cx = cam_ctx s; sensor_fps = cx_sensor_fps cx; fps = (if fps0 > sensor_fps then sensor_fps else fps0) in
        case cam_call (SysBind (cx_vpe_port cx) (cx_venc_port cx) sensor_fps fps)
               (cam_dos [SysUnbind (cx_vpe_port cx) (cx_venc_port cx)] s) of (r1, s1) \<Rightarrow>
        if r1 \<noteq> 0 then (-1, cam_dos [SysBind (cx_vpe_port cx) (cx_venc_port cx) sensor_fps sensor_fps] s1)
        else case apply_encoder_fps fps s1 of (r2, s2) \<Rightarrow> (if r2 \<noteq> 0 then -1 else 0, s2))"

definition STAR6E_CONTROLS_IDLE_FPS :: u32 where "STAR6E_CONTROLS_IDLE_FPS = 5"

subsection \<open>Exposure\<close>

text \<open>The limit goes to the exposure thread while it runs, and to the image processor.\<close>

definition apply_exposure :: "u32 \<Rightarrow> camera \<Rightarrow> int \<times> camera" where
  "apply_exposure us s =
     (let fps = (if cx_sensor_fps (cam_ctx s) = 0 then 30 else cx_sensor_fps (cam_ctx s));
          cap = (if us = 0 then 1000000 div fps else us);
          s1 = (if cam_cus3a s \<and> cap > 0 then s\<lparr>cam_shutter_max := cap\<rparr> else s)
      in cam_call (IspCap 0 cap) s1)"

definition apply_gain_max :: "u32 \<Rightarrow> camera \<Rightarrow> int \<times> camera" where
  "apply_gain_max gain s = (0, if cam_cus3a s then s\<lparr>cam_gain_max := gain\<rparr> else s)"

definition apply_verbose :: "bool \<Rightarrow> camera \<Rightarrow> int \<times> camera" where
  "apply_verbose on s = (0, s)"

subsection \<open>Regions of interest\<close>

definition PIPELINE_ROI_MAX_STEPS :: nat where "PIPELINE_ROI_MAX_STEPS = 4"

definition align_down :: "u32 \<Rightarrow> u32 \<Rightarrow> u32" where
  "align_down v a = v div a * a"

text \<open>Conversion to an unsigned integer of a number that fits.\<close>

definition rat_to_u32 :: "rat \<Rightarrow> u32" where
  "rat_to_u32 x = word_of_int \<lfloor>x\<rfloor>"

text \<open>
  The machine's floats: \<open>fu_round\<close> rounds to single precision, which every operation does; \<open>fu_nan_u32\<close> is what
  converting a number that is not one to \<open>uint32_t\<close> gives, which C leaves undefined.
\<close>

record float_unit =
  fu_round :: "rat \<Rightarrow> rat"
  fu_nan_u32 :: u32

definition roi_frac :: "(rat \<Rightarrow> rat) \<Rightarrow> rat \<Rightarrow> nat \<Rightarrow> nat \<Rightarrow> rat" where
  "roi_frac fl center steps level =
     fl (center + fl (fl (fl (1 - center) * of_nat (steps - level)) / of_nat steps))"

text \<open>The width of a band before it is aligned; \<open>None\<close> is a centre that is not a number, with which every step on the
  way is none.\<close>

fun roi_raw_width :: "float_unit \<Rightarrow> u32 \<Rightarrow> rat option \<Rightarrow> nat \<Rightarrow> nat \<Rightarrow> u32" where
  "roi_raw_width fu width None steps level = fu_nan_u32 fu"
| "roi_raw_width fu width (Some center) steps level =
     rat_to_u32 (fu_round fu (roi_frac (fu_round fu) center steps level * fu_round fu (of_nat (unat width))))"

definition compute_horizontal_roi ::
  "float_unit \<Rightarrow> u32 \<Rightarrow> u32 \<Rightarrow> rat option \<Rightarrow> int \<Rightarrow> nat \<Rightarrow> nat \<Rightarrow> roi_cfg option" where
  "compute_horizontal_roi fu width height center qp steps index =
     (if index \<ge> steps then None
      else
        let level = index + 1;
            rw = align_down (roi_raw_width fu width center steps level) 32;
            rh = align_down height 32;
            rx = align_down ((width - rw) div 2) 32
        in if rw = 0 \<or> rh = 0 then None
           else Some \<lparr>roi_index = index, roi_enable = True, roi_qp = pipeline_common_scale_roi_qp qp (int level) (int steps),
             roi_left = rx, roi_width = rw, roi_height = rh\<rparr>)"

text \<open>The centre's share of the width, cut to its range; what is not a number passes both comparisons.\<close>

definition roi_center :: "(rat \<Rightarrow> rat) \<Rightarrow> dbl \<Rightarrow> rat option" where
  "roi_center fl c =
     (let clamp = (\<lambda>r. if r < fl (1 / 10) then fl (1 / 10) else if r > fl (9 / 10) then fl (9 / 10) else r) in
      case c of NaN \<Rightarrow> None | Fin x \<Rightarrow> Some (clamp (fl x)) | PInf \<Rightarrow> Some (fl (9 / 10)) | NInf \<Rightarrow> Some (fl (1 / 10)))"

definition roi_clear :: "nat \<Rightarrow> roi_cfg" where
  "roi_clear i = \<lparr>roi_index = i, roi_enable = False, roi_qp = 0, roi_left = 0, roi_width = 0, roi_height = 0\<rparr>"

text \<open>The bands one after the other; a band that is refused fails the call but not the others.\<close>

fun set_rois :: "int \<Rightarrow> roi_cfg option list \<Rightarrow> camera \<Rightarrow> bool \<times> camera" where
  "set_rois chn [] s = (True, s)"
| "set_rois chn (None # rs) s = set_rois chn rs s"
| "set_rois chn (Some r # rs) s =
     (case cam_call (VencRoi chn r) s of (rc, s1) \<Rightarrow> case set_rois chn rs s1 of (ok, s2) \<Rightarrow> (rc = 0 \<and> ok, s2))"

definition roi_steps_used :: "u16 \<Rightarrow> nat" where
  "roi_steps_used n = (let k = unat n in if k < 1 then 1 else if k > PIPELINE_ROI_MAX_STEPS then PIPELINE_ROI_MAX_STEPS else k)"

definition apply_roi_qp :: "float_unit \<Rightarrow> venc_config \<Rightarrow> int \<Rightarrow> camera \<Rightarrow> int \<times> camera" where
  "apply_roi_qp fu cfg qp0 s =
     (let cx = cam_ctx s; chn = cx_venc_chn cx in
      if cx_frame_width cx = 0 \<or> cx_frame_height cx = 0 then (-1, s)
      else
        let s1 = cam_dos (map (\<lambda>i. VencRoi chn (roi_clear i)) [0..<PIPELINE_ROI_MAX_STEPS]) s in
        if \<not> cx_bound cx \<or> \<not> fpv_roi_enabled (c_fpv cfg) \<or> qp0 = 0 then (0, s1)
        else
          let qp = (if qp0 < -30 then -30 else if qp0 > 30 then 30 else qp0);
              steps = roi_steps_used (fpv_roi_steps (c_fpv cfg));
              center = roi_center (fu_round fu) (fpv_roi_center (c_fpv cfg))
          in case set_rois chn (map (compute_horizontal_roi fu (cx_frame_width cx) (cx_frame_height cx) center qp steps)
                 [0..<steps]) s1 of (ok, s2) \<Rightarrow> (if ok then 0 else -1, s2))"

subsection \<open>Output, destination, mute\<close>

definition set_output_enabled :: "bool \<Rightarrow> camera \<Rightarrow> camera" where
  "set_output_enabled on s = s\<lparr>cam_ps := (cam_ps s)\<lparr>ps_output_enabled := on\<rparr>\<rparr>"

definition apply_output_enabled :: "venc_config \<Rightarrow> bool \<Rightarrow> camera \<Rightarrow> int \<times> camera" where
  "apply_output_enabled cfg on s =
     (if \<not> cx_bound (cam_ctx s) then (-1, s)
      else if on then
        (if out_server (c_outgoing cfg) = '''' then (-1, s)
         else case apply_fps (if cam_stored_fps s \<noteq> 0 then cam_stored_fps s else vid_fps (c_video0 cfg))
                (set_output_enabled True s) of (r1, s1) \<Rightarrow>
           if r1 \<noteq> 0 then (-1, set_output_enabled False s1)
           else case request_idr s1 of (r2, s2) \<Rightarrow>
             if r2 \<noteq> 0 then (-1, set_output_enabled False s2) else (0, s2))
      else case apply_fps STAR6E_CONTROLS_IDLE_FPS (set_output_enabled False (s\<lparr>cam_stored_fps := vid_fps (c_video0 cfg)\<rparr>))
             of (r1, s1) \<Rightarrow>
        if r1 \<noteq> 0 then (-1, set_output_enabled True s1) else (0, s1))"

definition apply_server :: "string \<Rightarrow> camera \<Rightarrow> int \<times> camera" where
  "apply_server uri s =
     (if \<not> cx_bound (cam_ctx s) then (-1, s)
      else case star6e_output_apply_server uri (ps_output (cam_ps s), pw_os (cam_world s)) of (r1, (ou, k)) \<Rightarrow>
        let s1 = s\<lparr>cam_ps := (cam_ps s)\<lparr>ps_output := ou\<rparr>, cam_world := (cam_world s)\<lparr>pw_os := k\<rparr>\<rparr> in
        if r1 \<noteq> 0 then (-1, s1)
        else case request_idr s1 of (r2, s2) \<Rightarrow> (if r2 \<noteq> 0 then -1 else 0, s2))"

definition apply_mute :: "bool \<Rightarrow> camera \<Rightarrow> int \<times> camera" where
  "apply_mute on s =
     (if \<not> cx_bound (cam_ctx s) then (-1, s)
      else if \<not> au_channel_enabled (cam_audio s) then (0, s)
      else case star6e_audio_apply_mute on (cam_audio s) (cam_ai s) of (rc, d) \<Rightarrow>
        (if rc \<noteq> 0 then -1 else 0, s\<lparr>cam_ai := d\<rparr>))"

subsection \<open>White balance\<close>

text \<open>The library's functions are looked up by name; a name that is missing fails the call. \<open>AwbSet True\<close>: automatic,
  with the state cleared.\<close>

fun have_symbols :: "string list \<Rightarrow> camera \<Rightarrow> bool \<times> camera" where
  "have_symbols [] s = (True, s)"
| "have_symbols (n # ns) s = (case cam_call (IspSymbol n) s of (r, s1) \<Rightarrow>
     case have_symbols ns s1 of (ok, s2) \<Rightarrow> (r = 0 \<and> ok, s2))"

definition awb_write :: "bool \<Rightarrow> camera \<Rightarrow> int \<times> camera" where
  "awb_write auto s = (case cam_call AwbGet s of (r1, s1) \<Rightarrow>
     if r1 \<noteq> 0 then (-1, s1)
     else case cam_call (AwbSet auto) s1 of (r2, s2) \<Rightarrow> (if r2 \<noteq> 0 then -1 else 0, s2))"

definition apply_awb_mode :: "int \<Rightarrow> u32 \<Rightarrow> camera \<Rightarrow> int \<times> camera" where
  "apply_awb_mode mode ct s =
     (case cam_call IspOpen s of (r, s0) \<Rightarrow>
      if r \<noteq> 0 then (-1, s0)
      else if mode = 0 then
        (case have_symbols [''MI_ISP_AWB_GetAttr'', ''MI_ISP_AWB_SetAttr''] s0 of (ok, s1) \<Rightarrow>
         if \<not> ok then (-1, s1) else awb_write True s1)
      else
        (case have_symbols [''MI_ISP_AWB_SetCTMwbAttr'', ''MI_ISP_AWB_GetAttr'', ''MI_ISP_AWB_SetAttr''] s0 of (ok, s1) \<Rightarrow>
         if \<not> ok then (-1, s1)
         else case cam_call (AwbTemperature ct) s1 of (r2, s2) \<Rightarrow>
           if r2 \<noteq> 0 then (-1, s2) else awb_write False s2))"

definition g_star6e_apply_callbacks ::
  "float_unit \<Rightarrow> camera callbacks" where
  "g_star6e_apply_callbacks fu =
     \<lparr>cb_bitrate = Some apply_bitrate, cb_fps = Some (\<lambda>cfg. apply_fps), cb_gop = Some (\<lambda>cfg. apply_gop),
      cb_qp_delta = Some (\<lambda>cfg. apply_qp_delta), cb_roi_qp = Some (apply_roi_qp fu), cb_exposure = Some (\<lambda>cfg. apply_exposure),
      cb_gain_max = Some (\<lambda>cfg. apply_gain_max), cb_awb_mode = Some (\<lambda>cfg (mode, ct). apply_awb_mode mode ct), cb_verbose = Some (\<lambda>cfg. apply_verbose),
      cb_output_enabled = Some apply_output_enabled, cb_server = Some (\<lambda>cfg. apply_server), cb_mute = Some (\<lambda>cfg. apply_mute)\<rparr>"

text \<open>The encoder's driver as the second channel's handlers use it.\<close>

definition star6e_driver :: "camera venc_driver" where
  "star6e_driver =
     \<lparr>vd_get_attr = (\<lambda>c s. case cam_call (VencGetAttr c) s of (rc, s1) \<Rightarrow>
        let a = cam_attr s1 c in
        ((rc, \<lparr>ca_mode = (case va_mode a of
              RATE_CBR \<Rightarrow> if va_codec a = PT_H265 then H265CBR else H264CBR
            | RATE_VBR \<Rightarrow> if va_codec a = PT_H265 then H265VBR else H264VBR
            | RATE_AVBR \<Rightarrow> if va_codec a = PT_H265 then H265AVBR else H264AVBR
            | RATE_NONE \<Rightarrow> OTHER_RATE), ca_bits = va_bitrate a, ca_gop = va_gop a\<rparr>), s1)),
      vd_set_attr = (\<lambda>c x s. cam_call (VencSetAttr c ((cam_attr s c)\<lparr>va_bitrate := ca_bits x, va_gop := ca_gop x\<rparr>)) s),
      vd_frame_lost = (\<lambda>c on kbps s. case star6e_controls_apply_frame_lost_threshold c on kbps (pw_mi (cam_world s)) of
         (rc, d) \<Rightarrow> (rc, s\<lparr>cam_world := (cam_world s)\<lparr>pw_mi := d\<rparr>\<rparr>)),
      vd_request_idr = (\<lambda>c s. cam_call (VencIdr c) s)\<rparr>"

end
