(* ===== verification/ControlProps.thy ===== *)
theory ControlProps imports Star6eControls DeviceContract begin

text \<open>
  What the settings do to the running pipeline: a change of the frame rate rebinds the encoder, a
  change of the rate reaches exactly the channel's rate, the bands of interest lie in the frame; and no
  setting takes anything else down.
\<close>

subsection \<open>Calls\<close>

abbreviation cups :: "camera \<Rightarrow> resource set" where
  "cups s \<equiv> wups (cam_world s)"

lemma cam_call_ups: "cam_call op s = (rc, s') \<Longrightarrow> cups s' = MiDevice.up_step (op, rc) (cups s)"
  by (auto simp: cam_call_def pw_call_def ups_call split: prod.splits)

lemma cam_call_frame: "cam_call op s = (rc, s') \<Longrightarrow> \<exists>w. s' = s\<lparr>cam_world := w\<rparr>"
  by (auto simp: cam_call_def split: prod.splits)

lemma cam_call_same: "cam_call op s = (rc, s') \<Longrightarrow> cam_ps s' = cam_ps s \<and> cam_ctx s' = cam_ctx s \<and> cam_stored_fps s' = cam_stored_fps s"
  by (auto dest!: cam_call_frame)

lemma cam_call_neutral: "cam_call op s = (rc, s') \<Longrightarrow> takes op = None \<Longrightarrow> brings op = None \<Longrightarrow> cups s' = cups s"
  by (simp add: cam_call_ups MiDevice.up_step_def)

lemma cam_call_attr: "cam_call op s = (rc, s') \<Longrightarrow> cam_attr s' c = attr_step c (op, rc) (cam_attr s c)"
  by (auto simp: cam_call_def pw_call_def cam_attr_def attr_of_call split: prod.splits)

lemma cam_dos_simps [simp]:
  "cups (cam_dos ops s) = ups (mi_dos ops (pw_mi (cam_world s)))" "cam_ps (cam_dos ops s) = cam_ps s"
  "cam_ctx (cam_dos ops s) = cam_ctx s" "cam_stored_fps (cam_dos ops s) = cam_stored_fps s"
  by (simp_all add: cam_dos_def)

subsection \<open>Attributes\<close>

lemma set_attr_ups: "set_attr chn known f s = (rc, s') \<Longrightarrow> cups s' = cups s \<and> cam_ps s' = cam_ps s \<and> cam_ctx s' = cam_ctx s"
  by (auto simp: set_attr_def Let_def cam_call_neutral cam_call_same split: prod.splits if_splits)

lemma set_attr_effect:
  assumes "set_attr chn known f s = (rc, s')"
  shows "cam_attr s' c = (if c = chn \<and> rc = 0 \<and> va_mode (cam_attr s chn) \<noteq> RATE_NONE then f (cam_attr s chn) else cam_attr s c)"
    and "rc = 0 \<Longrightarrow> known \<Longrightarrow> va_mode (cam_attr s chn) \<noteq> RATE_NONE"
proof -
  obtain r1 s1 where 1: "cam_call (VencGetAttr chn) s = (r1, s1)" by (metis surj_pair)
  have a1: "cam_attr s1 c = cam_attr s c" for c using cam_call_attr [OF 1] by (simp add: attr_step_def)
  define x where "x = (if va_mode (cam_attr s chn) = RATE_NONE then cam_attr s chn else f (cam_attr s chn))"
  obtain r2 s2 where 2: "cam_call (VencSetAttr chn x) s1 = (r2, s2)" by (metis surj_pair)
  have a2: "cam_attr s2 c = (if c = chn \<and> r2 = 0 then x else cam_attr s c)" for c
    using cam_call_attr [OF 2, of c] by (auto simp: attr_step_def a1)
  note steps = assms [unfolded set_attr_def 1 prod.case Let_def a1 x_def [symmetric] 2]
  show "cam_attr s' c = (if c = chn \<and> rc = 0 \<and> va_mode (cam_attr s chn) \<noteq> RATE_NONE then f (cam_attr s chn) else cam_attr s c)"
    using steps a1 a2 by (auto simp: x_def split: if_splits)
  show "rc = 0 \<Longrightarrow> known \<Longrightarrow> va_mode (cam_attr s chn) \<noteq> RATE_NONE"
    using steps by (auto split: if_splits)
qed

subsection \<open>The frame rate\<close>

definition ctx_binding :: "camera \<Rightarrow> resource" where
  "ctx_binding s = Bound (cx_vpe_port (cam_ctx s)) (cx_venc_port (cam_ctx s))"

lemma cam_call_brings: "cam_call op s = (rc, s') \<Longrightarrow> takes op = None \<Longrightarrow> brings op = Some r \<Longrightarrow>
    cups s' = (if rc = 0 then insert r (cups s) else cups s)"
  by (simp add: cam_call_ups MiDevice.up_step_def)

text \<open>The driver's last two answers were refusals to bind the encoder.\<close>

definition bind_refused_twice :: "camera \<Rightarrow> bool" where
  "bind_refused_twice s \<longleftrightarrow> (\<exists>log p q a b r1 r2. md_log (pw_mi (cam_world s)) = log @
     [(SysBind (cx_vpe_port (cam_ctx s)) (cx_venc_port (cam_ctx s)) p a, r1),
      (SysBind (cx_vpe_port (cam_ctx s)) (cx_venc_port (cam_ctx s)) q b, r2)] \<and> r1 \<noteq> 0 \<and> r2 \<noteq> 0)"

lemma cam_dos_bind:
  assumes "cam_dos [SysBind p q a b] s = s'"
  shows "\<exists>r. md_log (pw_mi (cam_world s')) = md_log (pw_mi (cam_world s)) @ [(SysBind p q a b, r)]
    \<and> cups s' = (if r = 0 then insert (Bound p q) (cups s) else cups s)"
proof -
  obtain r d where c: "mi_call (SysBind p q a b) (pw_mi (cam_world s)) = (r, d)" by (metis surj_pair)
  then have "md_log d = md_log (pw_mi (cam_world s)) @ [(SysBind p q a b, r)]" by (auto simp: mi_call_def split: list.splits)
  moreover have "pw_mi (cam_world s') = d" using assms c by (auto simp: cam_dos_def mi_do_def)
  ultimately show ?thesis using call_brings [OF c] by auto
qed

text \<open>Four calls: the encoder is taken off the scaler and put back on it with the given rate out of the sensor's, which the
  driver accepted, and its attributes are rewritten.\<close>

definition rebound :: "u32 \<Rightarrow> camera \<Rightarrow> camera \<Rightarrow> bool" where
  "rebound fps s s' \<longleftrightarrow> (let p = cx_vpe_port (cam_ctx s); q = cx_venc_port (cam_ctx s); full = cx_sensor_fps (cam_ctx s);
       chn = cx_venc_chn (cam_ctx s) in
     \<exists>r a. md_log (pw_mi (cam_world s')) = md_log (pw_mi (cam_world s)) @
       [(SysUnbind p q, r), (SysBind p q full (min fps full), 0), (VencGetAttr chn, 0), (VencSetAttr chn a, 0)])"

lemma cam_call_logs: "cam_call op s = (rc, s') \<Longrightarrow> md_log (pw_mi (cam_world s')) = md_log (pw_mi (cam_world s)) @ [(op, rc)]"
  by (auto simp: cam_call_def pw_call_def mi_call_def split: list.splits prod.splits)

lemma set_attr_logs: "set_attr chn False f s = (0, s') \<Longrightarrow> \<exists>a. md_log (pw_mi (cam_world s'))
    = md_log (pw_mi (cam_world s)) @ [(VencGetAttr chn, 0), (VencSetAttr chn a, 0)]"
  by (auto simp: set_attr_def Let_def split: prod.splits if_splits dest!: cam_call_logs)

lemma set_attr_codes: "set_attr chn known f s = (rc, s') \<Longrightarrow> rc = 0 \<or> rc = -1"
  by (auto simp: set_attr_def Let_def split: prod.splits if_splits)

lemma apply_fps_outcome:
  assumes "apply_fps fps s = (rc, s')"
  defines "b \<equiv> ctx_binding s" and "chn \<equiv> cx_venc_chn (cam_ctx s)"
  shows "cam_ps s' = cam_ps s \<and> cam_ctx s' = cam_ctx s \<and> insert b (cups s') = insert b (cups s)
    \<and> (rc = 0 \<longrightarrow> 0 < fps \<and> fps \<le> 120 \<and> b \<in> cups s' \<and> rebound fps s s'
         \<and> (va_mode (cam_attr s chn) \<noteq> RATE_NONE \<longrightarrow> va_fps (cam_attr s' chn) = min fps (cx_sensor_fps (cam_ctx s))))
    \<and> (b \<in> cups s \<longrightarrow> b \<notin> cups s' \<longrightarrow> bind_refused_twice s')"
proof (cases "fps = 0 \<or> fps > 120")
  case True
  then show ?thesis using assms(1) by (auto simp: apply_fps_def)
next
  case False
  define p where "p = cx_vpe_port (cam_ctx s)"
  define q where "q = cx_venc_port (cam_ctx s)"
  define m where "m = cx_sensor_fps (cam_ctx s)"
  define f where "f = (if fps > m then m else fps)"
  define s0 where "s0 = cam_dos [SysUnbind p q] s"
  have b: "b = Bound p q" by (simp add: b_def ctx_binding_def p_def q_def)
  have s0: "cups s0 = cups s - {b}" "cam_ps s0 = cam_ps s" "cam_ctx s0 = cam_ctx s"
    by (simp_all add: s0_def ups_do b)
  have at0: "cam_attr s0 chn = cam_attr s chn"
    by (cases "mi_call (SysUnbind p q) (pw_mi (cam_world s))") (simp add: s0_def cam_dos_def cam_attr_def mi_do_def attr_of_call attr_step_def)
  obtain r1 s1 where 1: "cam_call (SysBind p q m f) s0 = (r1, s1)" by (metis surj_pair)
  have u1: "cups s1 = (if r1 = 0 then insert b (cups s - {b}) else cups s - {b})" using cam_call_brings [OF 1] s0 b by simp
  have k1: "cam_ps s1 = cam_ps s" "cam_ctx s1 = cam_ctx s" using cam_call_same [OF 1] s0 by simp_all
  have at1: "cam_attr s1 chn = cam_attr s chn" using cam_call_attr [OF 1] at0 by (simp add: attr_step_def)
  note steps = assms(1) [unfolded apply_fps_def if_not_P [OF False] Let_def p_def [symmetric] q_def [symmetric] m_def [symmetric]
      f_def [symmetric] s0_def [symmetric] 1 prod.case]
  show ?thesis
  proof (cases "r1 = 0")
    case True
    obtain r2 s2 where 2: "set_attr chn False (\<lambda>a. a\<lparr>va_fps := f\<rparr>) s1 = (r2, s2)" by (metis surj_pair)
    have e: "s' = s2" "rc = 0 \<longleftrightarrow> r2 = 0" using steps True 2 by (auto simp: apply_encoder_fps_def k1 chn_def split: if_splits)
    have "cups s2 = insert b (cups s)" "cam_ps s2 = cam_ps s" "cam_ctx s2 = cam_ctx s" using set_attr_ups [OF 2] u1 k1 True by auto
    moreover have "va_fps (cam_attr s2 chn) = f" if "r2 = 0" "va_mode (cam_attr s chn) \<noteq> RATE_NONE"
      using set_attr_effect(1) [OF 2, of chn] that at1 by simp
    moreover have f: "f = min fps m" by (auto simp: f_def min_def)
    moreover have "rebound fps s s'" if z: "rc = 0"
    proof -
      obtain r where "md_log (pw_mi (cam_world s0)) = md_log (pw_mi (cam_world s)) @ [(SysUnbind p q, r)]"
        by (cases "mi_call (SysUnbind p q) (pw_mi (cam_world s))")
          (auto simp: s0_def cam_dos_def mi_do_def mi_call_def split: list.splits)
      moreover have "md_log (pw_mi (cam_world s1)) = md_log (pw_mi (cam_world s0)) @ [(SysBind p q m f, 0)]"
        using cam_call_logs [OF 1] True by simp
      moreover obtain a where "md_log (pw_mi (cam_world s2)) = md_log (pw_mi (cam_world s1)) @ [(VencGetAttr chn, 0), (VencSetAttr chn a, 0)]"
        using set_attr_logs [of chn "va_fps_update (\<lambda>_. f)" s1 s2] 2 e z by auto
      ultimately show ?thesis unfolding rebound_def Let_def e(1) p_def [symmetric] q_def [symmetric] m_def [symmetric] chn_def [symmetric] f by simp
    qed
    ultimately show ?thesis using e False by (auto simp: m_def word_neq_0_conv)
  next
    case False
    then have e: "rc = -1" "s' = cam_dos [SysBind p q m m] s1" using steps by simp_all
    obtain r where r: "md_log (pw_mi (cam_world s')) = md_log (pw_mi (cam_world s1)) @ [(SysBind p q m m, r)]"
      "cups s' = (if r = 0 then insert b (cups s1) else cups s1)" using cam_dos_bind [OF e(2) [symmetric]] b by blast
    have l1: "md_log (pw_mi (cam_world s1)) = md_log (pw_mi (cam_world s0)) @ [(SysBind p q m f, r1)]"
      using 1 by (auto simp: cam_call_def pw_call_def mi_call_def split: list.splits prod.splits)
    have "cam_ps s' = cam_ps s" "cam_ctx s' = cam_ctx s" using e(2) k1 by simp_all
    moreover have "insert b (cups s') = insert b (cups s)" using r(2) u1 False by auto
    moreover have "bind_refused_twice s'" if "b \<notin> cups s'"
      unfolding bind_refused_twice_def \<open>cam_ctx s' = cam_ctx s\<close> p_def [symmetric] q_def [symmetric]
      using r l1 False that by (auto split: if_splits)
    ultimately show ?thesis using e(1) by simp
  qed
qed

subsection \<open>Nothing else goes down\<close>

text \<open>The driver has refused to bind something.\<close>

fun failed_bind :: "mi_op \<times> int \<Rightarrow> bool" where
  "failed_bind (SysBind p q a b, r) = (r \<noteq> 0)"
| "failed_bind _ = False"

definition refused :: "mi_dev \<Rightarrow> bool" where
  "refused d \<longleftrightarrow> list_ex failed_bind (md_log d)"

abbreviation bind_refused :: "camera \<Rightarrow> bool" where
  "bind_refused s \<equiv> refused (pw_mi (cam_world s))"

lemma call_log: "mi_call op d = (rc, d') \<Longrightarrow> md_log d' = md_log d @ [(op, rc)]"
  by (auto simp: mi_call_def split: list.splits)

lemma refused_call: "mi_call op d = (rc, d') \<Longrightarrow> refused d \<Longrightarrow> refused d'"
  by (auto simp: refused_def dest!: call_log)

lemma refused_dos: "refused d \<Longrightarrow> refused (mi_dos ops d)"
proof (induction ops arbitrary: d)
  case (Cons op ops)
  then show ?case by (cases "mi_call op d") (auto simp: mi_do_def dest: refused_call)
qed simp

lemma cam_call_refused: "cam_call op s = (rc, s') \<Longrightarrow> bind_refused s \<Longrightarrow> bind_refused s'"
  by (auto simp: cam_call_def pw_call_def split: prod.splits dest: refused_call)

text \<open>All that a setting may change: the output, its flag, and whether the encoder's binding is up, which is
  lost only to a refusal.\<close>

definition steady :: "camera \<Rightarrow> camera \<Rightarrow> bool" where
  "steady s s' \<longleftrightarrow> cam_ctx s' = cam_ctx s \<and> (\<exists>ou en. cam_ps s' = (cam_ps s)\<lparr>ps_output := ou, ps_output_enabled := en\<rparr>)
     \<and> insert (ctx_binding s) (cups s') = insert (ctx_binding s) (cups s)
     \<and> (ctx_binding s \<in> cups s \<longrightarrow> ctx_binding s \<in> cups s' \<or> bind_refused s') \<and> (bind_refused s \<longrightarrow> bind_refused s')"

lemma ps_update_output: "p\<lparr>ps_output := ou\<rparr> = p\<lparr>ps_output := ou, ps_output_enabled := ps_output_enabled p\<rparr>"
  "p\<lparr>ps_output_enabled := en\<rparr> = p\<lparr>ps_output := ps_output p, ps_output_enabled := en\<rparr>" for p :: pipe_state
  by (cases p; simp)+

lemma steady_ps:
  assumes "cam_ctx s' = cam_ctx s" and "cups s' = cups s" and "bind_refused s \<Longrightarrow> bind_refused s'"
    and "cam_ps s' = (cam_ps s)\<lparr>ps_output := ou, ps_output_enabled := en\<rparr>"
  shows "steady s s'"
  using assms unfolding steady_def by auto

lemma steadyI:
  assumes "cam_ctx s' = cam_ctx s" and "cam_ps s' = cam_ps s" and "cups s' = cups s" and "bind_refused s \<Longrightarrow> bind_refused s'"
  shows "steady s s'"
  by (rule steady_ps [where ou = "ps_output (cam_ps s)" and en = "ps_output_enabled (cam_ps s)"])
    (use assms in \<open>simp_all add: ps_update_output [symmetric]\<close>)

lemma steady_refl [simp]: "steady s s" by (rule steadyI) simp_all

lemma steady_trans: "steady s s1 \<Longrightarrow> steady s1 s2 \<Longrightarrow> steady s s2"
proof -
  assume a: "steady s s1" "steady s1 s2"
  then obtain ou en ou2 en2 where p: "cam_ps s1 = (cam_ps s)\<lparr>ps_output := ou, ps_output_enabled := en\<rparr>"
    "cam_ps s2 = (cam_ps s1)\<lparr>ps_output := ou2, ps_output_enabled := en2\<rparr>" by (auto simp: steady_def)
  have c: "ctx_binding s1 = ctx_binding s" using a by (simp add: steady_def ctx_binding_def)
  have "cam_ps s2 = (cam_ps s)\<lparr>ps_output := ou2, ps_output_enabled := en2\<rparr>" by (simp add: p)
  then show "steady s s2" using a unfolding steady_def c by auto
qed

lemma steady_call: "cam_call op s = (rc, s') \<Longrightarrow> takes op = None \<Longrightarrow> brings op = None \<Longrightarrow> steady s s'"
  by (rule steadyI) (simp_all add: cam_call_same cam_call_neutral cam_call_refused)

lemma steady_set_attr:
  assumes "set_attr chn known f s = (rc, s')"
  shows "steady s s'"
proof -
  obtain r1 s1 where 1: "cam_call (VencGetAttr chn) s = (r1, s1)" by (metis surj_pair)
  define x where "x = (if va_mode (cam_attr s1 chn) = RATE_NONE then cam_attr s1 chn else f (cam_attr s1 chn))"
  obtain r2 s2 where 2: "cam_call (VencSetAttr chn x) s1 = (r2, s2)" by (metis surj_pair)
  have a: "steady s s1" using steady_call [OF 1] by simp
  have "steady s s2" using steady_trans [OF a steady_call [OF 2]] by simp
  moreover have "s' = s1 \<or> s' = s2"
    using assms unfolding set_attr_def 1 prod.case Let_def x_def [symmetric] 2 by (auto split: if_splits)
  ultimately show ?thesis using a by blast
qed

lemma steady_lost:
  assumes "star6e_controls_apply_frame_lost_threshold c e k (pw_mi (cam_world s)) = (rc, d)"
  shows "steady s (s\<lparr>cam_world := (cam_world s)\<lparr>pw_mi := d\<rparr>\<rparr>)"
proof (rule steadyI)
  show "bind_refused s \<Longrightarrow> bind_refused (s\<lparr>cam_world := (cam_world s)\<lparr>pw_mi := d\<rparr>\<rparr>)"
    using assms by (auto simp: star6e_controls_apply_frame_lost_threshold_def Let_def split: if_splits prod.splits dest: refused_call)
qed (simp_all add: frame_lost_ups [OF assms])

lemma steady_bitrate: "apply_bitrate cfg k s = (rc, s') \<Longrightarrow> steady s s'"
  by (auto simp: apply_bitrate_def Let_def split: prod.splits if_splits
      dest!: steady_set_attr steady_lost intro: steady_trans)

lemma steady_idr: "request_idr s = (rc, s') \<Longrightarrow> steady s s'"
  by (auto simp: request_idr_def split: prod.splits dest!: steady_call)

lemma apply_fps_refused: "apply_fps fps s = (rc, s') \<Longrightarrow> bind_refused s \<Longrightarrow> bind_refused s'"
proof -
  assume a: "apply_fps fps s = (rc, s')" and r: "bind_refused s"
  have d: "bind_refused x \<Longrightarrow> bind_refused (cam_dos ops x)" for ops x by (auto simp: cam_dos_def refused_dos)
  have e: "apply_encoder_fps f x = (rc, y) \<Longrightarrow> bind_refused x \<Longrightarrow> bind_refused y" for f x rc y
    using steady_set_attr by (auto simp: apply_encoder_fps_def steady_def)
  define p where "p = cx_vpe_port (cam_ctx s)"
  define q where "q = cx_venc_port (cam_ctx s)"
  define m where "m = cx_sensor_fps (cam_ctx s)"
  define g where "g = (if fps > m then m else fps)"
  define s0 where "s0 = cam_dos [SysUnbind p q] s"
  obtain r1 s1 where 1: "cam_call (SysBind p q m g) s0 = (r1, s1)" by (metis surj_pair)
  obtain r2 s2 where 2: "apply_encoder_fps g s1 = (r2, s2)" by (metis surj_pair)
  have r1: "bind_refused s1" by (rule cam_call_refused [OF 1]) (simp add: s0_def d r del: dos_simps)
  have "s' = s \<or> s' = s2 \<or> s' = cam_dos [SysBind p q m m] s1"
    using a unfolding apply_fps_def Let_def p_def [symmetric] q_def [symmetric] m_def [symmetric] g_def [symmetric]
      s0_def [symmetric] 1 prod.case 2 by (auto split: if_splits)
  then show "bind_refused s'" using r e [OF 2 r1] d [OF r1] by blast
qed

lemma steady_fps:
  assumes "apply_fps f s = (rc, s')"
  shows "steady s s'"
proof -
  note o = apply_fps_outcome [OF assms]
  have "cam_ps s = (cam_ps s)\<lparr>ps_output := ps_output (cam_ps s), ps_output_enabled := ps_output_enabled (cam_ps s)\<rparr>"
    by (simp add: ps_update_output [symmetric])
  moreover have "bind_refused s'" if "bind_refused_twice s'"
    using that by (auto simp: bind_refused_twice_def refused_def)
  ultimately show ?thesis using o apply_fps_refused [OF assms] unfolding steady_def by metis
qed

lemma steady_qp: "apply_qp_delta x s = (rc, s') \<Longrightarrow> steady s s'"
  by (auto simp: apply_qp_delta_def Let_def split: prod.splits if_splits
      dest!: steady_call steady_idr intro: steady_trans)

lemma steady_set_rois: "set_rois chn rs s = (ok, s') \<Longrightarrow> steady s s'"
proof (induction chn rs s arbitrary: ok s' rule: set_rois.induct)
  case (3 chn r rs s)
  obtain rc s1 where 1: "cam_call (VencRoi chn r) s = (rc, s1)" by (metis surj_pair)
  obtain ok1 s2 where 2: "set_rois chn rs s1 = (ok1, s2)" by (metis surj_pair)
  have "steady s s1" using steady_call [OF 1] by simp
  moreover have "steady s1 s2" using "3.IH" [OF 1 [symmetric]] 2 by simp
  ultimately show ?case using "3.prems" 1 2 steady_trans by auto
qed simp_all

lemma steady_roi: "apply_roi_qp fl cfg q s = (rc, s') \<Longrightarrow> steady s s'"
proof -
  assume a: "apply_roi_qp fl cfg q s = (rc, s')"
  define chn where "chn = cx_venc_chn (cam_ctx s)"
  define ops where "ops = map (\<lambda>i. VencRoi chn (roi_clear i)) [0..<PIPELINE_ROI_MAX_STEPS]"
  have "\<forall>op \<in> set ops. brings op = None" "{r. \<exists>op \<in> set ops. takes op = Some r} = {}" by (auto simp: ops_def)
  then have c: "steady s (cam_dos ops s)" by (intro steadyI) (simp_all add: ups_dos cam_dos_def refused_dos)
  show "steady s s'"
    using a c unfolding apply_roi_qp_def Let_def chn_def [symmetric] ops_def [symmetric]
    by (auto split: if_splits prod.splits dest!: steady_set_rois intro: steady_trans)
qed

lemma steady_flag: "steady s (set_output_enabled en s)"
  by (rule steady_ps [where ou = "ps_output (cam_ps s)" and en = en]) (simp_all add: set_output_enabled_def ps_update_output(2) [symmetric])

lemma steady_stored: "steady s (s\<lparr>cam_stored_fps := x\<rparr>)"
  by (rule steadyI) simp_all

lemma steady_enabled:
  assumes "apply_output_enabled cfg on s = (rc, s')"
  shows "steady s s'"
proof -
  define f where "f = (if on then if cam_stored_fps s \<noteq> 0 then cam_stored_fps s else vid_fps (c_video0 cfg) else STAR6E_CONTROLS_IDLE_FPS)"
  define s0 where "s0 = set_output_enabled on (if on then s else s\<lparr>cam_stored_fps := vid_fps (c_video0 cfg)\<rparr>)"
  obtain r1 s1 where 1: "apply_fps f s0 = (r1, s1)" by (metis surj_pair)
  obtain r2 s2 where 2: "request_idr s1 = (r2, s2)" by (metis surj_pair)
  have "steady s s0" unfolding s0_def by (auto intro: steady_flag steady_trans [OF steady_stored])
  with steady_fps [OF 1] have a: "steady s s1" by (blast intro: steady_trans)
  with steady_idr [OF 2] have b: "steady s s2" by (blast intro: steady_trans)
  have "s' = s \<or> s' = s1 \<or> s' = s2 \<or> (\<exists>en. s' = set_output_enabled en s1 \<or> s' = set_output_enabled en s2)"
    using assms 1 2 by (auto simp: apply_output_enabled_def f_def s0_def split: if_splits)
  then show ?thesis using a b steady_flag steady_trans by (metis steady_refl)
qed

lemma steady_server:
  assumes "apply_server u s = (rc, s')"
  shows "steady s s'"
proof -
  have o: "steady s (s\<lparr>cam_ps := (cam_ps s)\<lparr>ps_output := ou\<rparr>, cam_world := (cam_world s)\<lparr>pw_os := k\<rparr>\<rparr>)" for ou k
    by (rule steady_ps [where ou = ou and en = "ps_output_enabled (cam_ps s)"]) (simp_all add: ps_update_output(1) [symmetric])
  obtain r1 ou k where 1: "star6e_output_apply_server u (ps_output (cam_ps s), pw_os (cam_world s)) = (r1, (ou, k))" by (metis prod_cases3)
  define s1 where "s1 = s\<lparr>cam_ps := (cam_ps s)\<lparr>ps_output := ou\<rparr>, cam_world := (cam_world s)\<lparr>pw_os := k\<rparr>\<rparr>"
  obtain r2 s2 where 2: "request_idr s1 = (r2, s2)" by (metis surj_pair)
  have "steady s s2" using steady_trans [OF _ steady_idr [OF 2]] o by (simp add: s1_def)
  moreover have "s' = s \<or> s' = s1 \<or> s' = s2"
    using assms unfolding apply_server_def 1 Let_def prod.case s1_def [symmetric] 2 by (auto split: if_splits)
  ultimately show ?thesis using o s1_def steady_refl by blast
qed

lemma steady_exposure: "apply_exposure us s = (rc, s') \<Longrightarrow> steady s s'"
proof -
  assume a: "apply_exposure us s = (rc, s')"
  have s: "steady s (s\<lparr>cam_shutter_max := x\<rparr>)" for x by (rule steadyI) simp_all
  show "steady s s'" using a
    by (auto simp: apply_exposure_def Let_def split: if_splits dest!: steady_call intro: steady_trans [OF s])
qed

lemma steady_rest:
  "apply_gop g s = (rc, s') \<Longrightarrow> steady s s'" "apply_gain_max g s = (rc, s') \<Longrightarrow> steady s s'"
  "apply_verbose b s = (rc, s') \<Longrightarrow> steady s s'" "apply_mute b s = (rc, s') \<Longrightarrow> steady s s'"
  by (auto simp: apply_gop_def apply_encoder_gop_def apply_gain_max_def apply_verbose_def apply_mute_def
      split: if_splits prod.splits dest!: steady_set_attr intro: steadyI)

lemma steady_symbols: "have_symbols ns s = (ok, s') \<Longrightarrow> steady s s'"
proof (induction ns arbitrary: s ok s')
  case (Cons n ns)
  obtain r s1 where 1: "cam_call (IspSymbol n) s = (r, s1)" by (metis surj_pair)
  obtain ok1 s2 where 2: "have_symbols ns s1 = (ok1, s2)" by (metis surj_pair)
  have "steady s s1" using steady_call [OF 1] by simp
  with Cons.IH [OF 2] have "steady s s2" by (blast intro: steady_trans)
  then show ?case using Cons.prems 1 2 by simp
qed simp

lemma steady_awb_write:
  assumes "awb_write auto s = (rc, s')"
  shows "steady s s'"
proof -
  obtain r1 s1 where 1: "cam_call AwbGet s = (r1, s1)" by (metis surj_pair)
  obtain r2 s2 where 2: "cam_call (AwbSet auto) s1 = (r2, s2)" by (metis surj_pair)
  have a: "steady s s1" using steady_call [OF 1] by simp
  have "steady s s2" using steady_trans [OF a steady_call [OF 2]] by simp
  then show ?thesis using assms a 1 2 by (auto simp: awb_write_def split: if_splits)
qed

lemma steady_awb:
  assumes "apply_awb_mode mode ct s = (rc, s')"
  shows "steady s s'"
proof -
  define ns where "ns = (if mode = 0 then [''MI_ISP_AWB_GetAttr'', ''MI_ISP_AWB_SetAttr'']
    else [''MI_ISP_AWB_SetCTMwbAttr'', ''MI_ISP_AWB_GetAttr'', ''MI_ISP_AWB_SetAttr''])"
  obtain r s0 where 0: "cam_call IspOpen s = (r, s0)" by (metis surj_pair)
  obtain ok s1 where 1: "have_symbols ns s0 = (ok, s1)" by (metis surj_pair)
  obtain r2 s2 where 2: "cam_call (AwbTemperature ct) s1 = (r2, s2)" by (metis surj_pair)
  have a: "steady s s0" using steady_call [OF 0] by simp
  have b: "steady s s1" by (rule steady_trans [OF a steady_symbols [OF 1]])
  have c: "steady s s2" using steady_trans [OF b steady_call [OF 2]] by simp
  have "s' = s0 \<or> s' = s1 \<or> s' = s2 \<or> awb_write True s1 = (rc, s') \<or> awb_write False s2 = (rc, s')"
    using assms 1 unfolding apply_awb_mode_def ns_def 0 prod.case by (cases "mode = 0") (auto simp: 2 split: if_splits)
  then show ?thesis using a b c steady_awb_write steady_trans by blast
qed

lemmas steady_callbacks = steady_bitrate steady_fps steady_qp steady_roi steady_enabled steady_server steady_exposure steady_rest steady_awb

subsection \<open>The contract with the settings API\<close>

text \<open>The controls' context names the pipeline's channel and ports, the pipeline serves, and only a refused binding
  keeps it from being up as a whole.\<close>

definition control_ok :: "camera \<Rightarrow> bool" where
  "control_ok s \<longleftrightarrow> serving (cam_ps s) (cam_world s) \<and> (running (cam_ps s) (cam_world s) \<or> bind_refused s)
     \<and> cx_vpe_port (cam_ctx s) = vpe_port \<and> cx_venc_port (cam_ctx s) = ps_venc_port (cam_ps s)"

lemma running_binding: "running st w \<longleftrightarrow> serving st w \<and> Bound vpe_port (ps_venc_port st) \<in> wups w"
  using insert_absorb by (fastforce simp: running_def serving_def all_up_def encoder_up_def)

lemma control_ok_bind: "running (cam_ps s) (cam_world s) \<Longrightarrow> control_ok (star6e_controls_bind s)"
  by (simp add: control_ok_def star6e_controls_bind_def running_serving Let_def)

lemma control_ok_steady:
  assumes k: "control_ok s" and st: "steady s s'"
  shows "control_ok s'"
proof -
  obtain ou en where p: "cam_ps s' = (cam_ps s)\<lparr>ps_output := ou, ps_output_enabled := en\<rparr>" using st by (auto simp: steady_def)
  have up: "all_up (cam_ps s') = all_up (cam_ps s)" "flags_set (cam_ps s') = flags_set (cam_ps s)"
    unfolding p by (simp_all add: all_up_def sensor_chain_def encoder_up_def extras_def dual_up_def flags_set_def)
  have b: "ctx_binding s = Bound vpe_port (ps_venc_port (cam_ps s))" using k by (simp add: control_ok_def ctx_binding_def)
  have q: "ps_venc_port (cam_ps s') = ps_venc_port (cam_ps s)" by (simp add: p)
  have sv: "serving (cam_ps s') (cam_world s')"
    using k st unfolding control_ok_def steady_def serving_def up b q by simp
  moreover have "running (cam_ps s') (cam_world s') \<or> bind_refused s'"
    using k st sv unfolding control_ok_def steady_def running_binding b q by blast
  ultimately show ?thesis using k st by (simp add: control_ok_def steady_def q)
qed

interpretation star6e_up: settings_contract "g_star6e_apply_callbacks fu" control_ok for fu
  by unfold_locales (auto simp: g_star6e_apply_callbacks_def keeps_def intro: control_ok_steady steady_callbacks [OF prod.collapse [symmetric]])

text \<open>More than being up: nothing at all is taken down or added against any camera before.\<close>

interpretation star6e_settings: settings_contract "g_star6e_apply_callbacks fu" "steady c" for fu c
  by unfold_locales (auto simp: g_star6e_apply_callbacks_def keeps_def intro: steady_trans steady_callbacks [OF prod.collapse [symmetric]])

subsection \<open>What the settings do\<close>

text \<open>The frame rate and the binding, as \<open>apply_fps_outcome\<close> has them; the bit rate.\<close>

lemma frame_lost_attr: "star6e_controls_apply_frame_lost_threshold ch e k d = (rc, d') \<Longrightarrow> attr_of d' c = attr_of d c"
  by (auto simp: star6e_controls_apply_frame_lost_threshold_def Let_def attr_of_call attr_step_def split: if_splits prod.splits)

lemma apply_bitrate_effect:
  assumes "apply_bitrate cfg kbps s = (rc, s')"
  defines "chn \<equiv> cx_venc_chn (cam_ctx s)"
  defines "new \<equiv> (cam_attr s chn)\<lparr>va_bitrate := min kbps 200000 * 1024\<rparr>"
  shows "(\<forall>c. c \<noteq> chn \<longrightarrow> cam_attr s' c = cam_attr s c) \<and> cam_attr s' chn \<in> {cam_attr s chn, new} \<and> (rc = 0 \<longrightarrow> cam_attr s' chn = new)"
proof -
  define k where "k = (if kbps > 200000 then 200000 else kbps)"
  define lost where "lost = (if cx_bound (cam_ctx s) then vid_frame_lost (c_video0 cfg) else True)"
  obtain r1 s1 where 1: "set_attr chn True (\<lambda>a. a\<lparr>va_bitrate := k * 1024\<rparr>) s = (r1, s1)" by (metis surj_pair)
  obtain r2 d where 2: "star6e_controls_apply_frame_lost_threshold chn lost k (pw_mi (cam_world s1)) = (r2, d)" by (metis surj_pair)
  have k: "k = min kbps 200000" by (auto simp: k_def min_def)
  note steps = assms(1) [unfolded apply_bitrate_def Let_def chn_def [symmetric] k_def [symmetric] lost_def [symmetric] 1 prod.case 2]
  have e: "cam_attr s' c = cam_attr s1 c" "rc = 0 \<longrightarrow> r1 = 0" for c
    using steps frame_lost_attr [OF 2] by (auto simp: cam_attr_def split: if_splits)
  show ?thesis using set_attr_effect [OF 1] e unfolding new_def k by auto
qed

text \<open>Property C24. When the call accepts a frame rate, the driver has taken the encoder off the scaler and accepted it back
  at exactly that rate, limited to the sensor's, out of the sensor's rate, and in every known rate mode it is the rate of the
  channel's attributes; and after any call whatsoever the encoder's binding is where it was, unless the driver refused it twice
  running, and nothing else has been taken down.\<close>

theorem frame_rate_change:
  assumes "apply_fps fps s = (rc, s')"
  shows "cam_ps s' = cam_ps s \<and> insert (ctx_binding s) (cups s') = insert (ctx_binding s) (cups s)
    \<and> (rc = 0 \<longrightarrow> 0 < fps \<and> fps \<le> 120 \<and> ctx_binding s \<in> cups s' \<and> rebound fps s s'
         \<and> (va_mode (cam_attr s (cx_venc_chn (cam_ctx s))) \<noteq> RATE_NONE
            \<longrightarrow> va_fps (cam_attr s' (cx_venc_chn (cam_ctx s))) = min fps (cx_sensor_fps (cam_ctx s))))
    \<and> (ctx_binding s \<in> cups s \<longrightarrow> ctx_binding s \<notin> cups s' \<longrightarrow> bind_refused_twice s')"
  using apply_fps_outcome [OF assms] by blast

text \<open>A camera with a running pipeline, bound to the controls.\<close>

definition demo_camera :: "int list \<Rightarrow> camera" where
  "demo_camera rs = star6e_controls_bind \<lparr>cam_ctx = ctx_zero, cam_ps = demo_up\<lparr>ps_video := (ps_video demo_up)\<lparr>vs_sensor_framerate := 90\<rparr>\<rparr>,
     cam_stored_fps = 0, cam_world = demo_up_world\<lparr>pw_mi := (pw_mi demo_up_world)\<lparr>md_results := rs\<rparr>\<rparr>, cam_cus3a = False,
     cam_shutter_max = 0, cam_gain_max = 0, cam_audio = audio_state_zero, cam_ai = \<lparr>ad_results = [], ad_log = []\<rparr>\<rparr>"

lemma demo_camera_simps: "cam_ctx (demo_camera rs) = \<lparr>cx_venc_chn = 0, cx_vpe_port = vpe_port, cx_venc_port = (VENC, 0, 0),
    cx_sensor_fps = 90, cx_frame_width = 0, cx_frame_height = 0, cx_bound = True\<rparr>"
  "pw_mi (cam_world (demo_camera rs)) = (pw_mi demo_up_world)\<lparr>md_results := rs\<rparr>"
  by (simp_all add: demo_camera_def star6e_controls_bind_def demo_up_def pipe_zero_def sensor_zero_def res_zero_def Let_def)

lemma demo_camera_ups: "cups (demo_camera rs) = wups demo_up_world"
  by (simp add: demo_camera_simps ups_def)

lemma demo_camera_running: "running (cam_ps (demo_camera rs)) (cam_world (demo_camera rs))"
proof -
  have p: "cam_ps (demo_camera rs) = demo_up\<lparr>ps_video := (ps_video demo_up)\<lparr>vs_sensor_framerate := 90\<rparr>\<rparr>"
    by (simp add: demo_camera_def star6e_controls_bind_def Let_def)
  show ?thesis using demo_up_running unfolding running_def demo_camera_ups p
    by (simp add: all_up_def sensor_chain_def encoder_up_def extras_def dual_up_def flags_set_def)
qed

lemma demo_bound: "ctx_binding (demo_camera rs) \<in> cups (demo_camera rs)"
  unfolding demo_camera_ups ctx_binding_def demo_camera_simps
  by (simp add: demo_up_world_def ups_def MiDevice.up_step_def)

text \<open>Both bindings refused, and all calls accepted.\<close>

theorem frame_rate_change_witness:
  "(\<exists>s'. apply_fps 100 (demo_camera [0, 0, 0, 0]) = (0, s') \<and> va_fps (cam_attr s' 0) = 90)
    \<and> (\<exists>s'. apply_fps 60 (demo_camera [0, -1, -1]) = (-1, s') \<and> bind_refused_twice s')"
proof -
  obtain rc s' where s: "apply_fps 100 (demo_camera [0, 0, 0, 0]) = (rc, s')" by (metis surj_pair)
  have "fst (apply_fps 100 (demo_camera [0, 0, 0, 0])) = 0"
    by (simp add: apply_fps_def Let_def cam_dos_def cam_call_def pw_call_def mi_call_def mi_do_def apply_encoder_fps_def set_attr_def
        demo_camera_simps split: prod.splits)
  then have "rc = 0" by (simp add: s)
  moreover have "va_mode (cam_attr (demo_camera [0, 0, 0, 0]) 0) = RATE_CBR"
    by (simp add: cam_attr_def attr_of_def demo_camera_simps demo_up_world_def attr_step_def)
  ultimately have 1: "apply_fps 100 (demo_camera [0, 0, 0, 0]) = (0, s') \<and> va_fps (cam_attr s' 0) = 90"
    using frame_rate_change [OF s] s by (simp add: demo_camera_simps)
  obtain r2 s2 where 2: "apply_fps 60 (demo_camera [0, -1, -1]) = (r2, s2)" by (metis surj_pair)
  have b: "ctx_binding (demo_camera [0, -1, -1]) = Bound vpe_port (VENC, 0, 0)" by (simp add: ctx_binding_def demo_camera_simps)
  have "fst (apply_fps 60 (demo_camera [0, -1, -1])) = -1"
    "Bound vpe_port (VENC, 0, 0) \<notin> cups (snd (apply_fps 60 (demo_camera [0, -1, -1])))"
    by (simp_all add: apply_fps_def Let_def cam_dos_def cam_call_def pw_call_def mi_call_def mi_do_def
        demo_camera_simps ups_def demo_up_world_def MiDevice.up_step_def)
  then have "r2 = -1" "ctx_binding (demo_camera [0, -1, -1]) \<notin> cups s2" by (simp_all add: 2 b)
  then have "apply_fps 60 (demo_camera [0, -1, -1]) = (-1, s2) \<and> bind_refused_twice s2"
    using frame_rate_change [OF 2] demo_bound 2 by blast
  then show ?thesis using 1 by blast
qed

text \<open>A bit rate the call accepts is the channel's, limited to 200 Mbit/s, and no other attribute of any channel has
  changed; a call that fails changes nothing else either.\<close>

lemma bitrate_change:
  assumes "apply_bitrate cfg kbps s = (rc, s')"
  shows "let chn = cx_venc_chn (cam_ctx s); new = (cam_attr s chn)\<lparr>va_bitrate := min kbps 200000 * 1024\<rparr> in
    (\<forall>c. c \<noteq> chn \<longrightarrow> cam_attr s' c = cam_attr s c) \<and> cam_attr s' chn \<in> {cam_attr s chn, new}
    \<and> (rc = 0 \<longrightarrow> cam_attr s' chn = new) \<and> steady s s'"
  unfolding Let_def using apply_bitrate_effect [OF assms] steady_bitrate [OF assms] by blast

lemma bitrate_change_witness:
  "\<exists>s'. apply_bitrate venc_config_defaults 300000 (demo_camera [0, 0, 0]) = (0, s') \<and> va_bitrate (cam_attr s' 0) = 200000 * 1024"
proof -
  obtain rc s' where s: "apply_bitrate venc_config_defaults 300000 (demo_camera [0, 0, 0]) = (rc, s')" by (metis surj_pair)
  have m: "va_mode (cam_attr (demo_camera rs) 0) = RATE_CBR" for rs
    by (simp add: cam_attr_def attr_of_def demo_camera_simps demo_up_world_def attr_step_def)
  have "fst (apply_bitrate venc_config_defaults 300000 (demo_camera [0, 0, 0])) = 0"
    by (simp add: apply_bitrate_def Let_def cam_call_def pw_call_def mi_call_def set_attr_def cam_attr_def attr_of_def attr_step_def
        demo_camera_simps demo_up_world_def star6e_controls_apply_frame_lost_threshold_def split: prod.splits)
  then have "rc = 0" by (simp add: s)
  then show ?thesis using bitrate_change [OF s] s by (simp add: demo_camera_simps Let_def)
qed

text \<open>Property C23. However the settings are changed over the API while a pipeline is running, with whatever requests, refusals and
  rollbacks, exactly what was up is up afterwards, nothing more and nothing less, with one exception: the encoder's binding can
  be missing, and only after the driver has refused one. Of the pipeline's own state only the output and its flag may differ.\<close>

theorem settings_keep_pipeline_up:
  assumes "e_cb env = Some (g_star6e_apply_callbacks fu)" and "a_dev s = star6e_controls_bind c"
    and "running (cam_ps c) (cam_world c)"
  shows "let c' = a_dev (fold (\<lambda>q s. snd (process_set_query env q s)) qs s); b = Bound vpe_port (ps_venc_port (cam_ps c)) in
    insert b (cups c') = insert b (cups c) \<and> (b \<in> cups c' \<or> bind_refused c')
    \<and> serving (cam_ps c') (cam_world c') \<and> (running (cam_ps c') (cam_world c') \<or> bind_refused c')
    \<and> (\<exists>ou en. cam_ps c' = (cam_ps c)\<lparr>ps_output := ou, ps_output_enabled := en\<rparr>)"
proof -
  let ?c = "star6e_controls_bind c"
  define c' where "c' = a_dev (fold (\<lambda>q s. snd (process_set_query env q s)) qs s)"
  have "steady ?c (a_dev (fold (\<lambda>q s. snd (process_set_query env q s)) qs s))" if "steady ?c (a_dev s)" for s
    using that
  proof (induction qs arbitrary: s)
    case (Cons q qs)
    then show ?case using star6e_settings.set_query_keeps [OF assms(1) prod.collapse [symmetric]] by simp
  qed simp
  from this [of s] have st: "steady ?c c'" unfolding c'_def by (simp add: assms(2))
  have b: "ctx_binding ?c = Bound vpe_port (ps_venc_port (cam_ps c))" "cups ?c = cups c" "cam_ps ?c = cam_ps c"
    by (simp_all add: ctx_binding_def star6e_controls_bind_def Let_def)
  have up: "Bound vpe_port (ps_venc_port (cam_ps c)) \<in> cups c" using assms(3) by (simp add: running_binding)
  have "control_ok c'" by (rule control_ok_steady [OF control_ok_bind [OF assms(3)] st])
  then show ?thesis using st up unfolding steady_def b Let_def c'_def [symmetric] control_ok_def by blast
qed

definition demo_controls_env :: "camera api_env" where
  "demo_controls_env = \<lparr>e_backend = ''star6e'', e_cb = Some (g_star6e_apply_callbacks \<lparr>fu_round = id, fu_nan_u32 = 0\<rparr>), e_rnd = id,
     e_strtod = (\<lambda>s. (NaN, s)), e_f32 = id, e_fmt_g = (\<lambda>d. []), e_print_str = id, e_parse_json = (\<lambda>s. Some JNull), e_print_json = (\<lambda>j. Some [])\<rparr>"

text \<open>Two changes of the frame rate, the first of which the driver refuses.\<close>

theorem settings_keep_pipeline_up_witness:
  "let s = \<lparr>a_cfg = venc_config_defaults, a_dev = demo_camera [0, -1, -1, 0, 0, 0, 0], a_reinit = 0\<rparr>;
       c' = a_dev (fold (\<lambda>q s. snd (process_set_query demo_controls_env q s)) [''video0.fps=30'', ''video0.fps=60''] s)
   in insert (Bound vpe_port (VENC, 0, 0)) (cups c') = insert (Bound vpe_port (VENC, 0, 0)) (wups demo_up_world)
      \<and> serving (cam_ps c') (cam_world c')"
proof -
  have e: "e_cb demo_controls_env = Some (g_star6e_apply_callbacks \<lparr>fu_round = id, fu_nan_u32 = 0\<rparr>)" by (simp add: demo_controls_env_def)
  have r: "running (cam_ps (demo_camera rs)) (cam_world (demo_camera rs))" for rs by (rule demo_camera_running)
  have b: "demo_camera rs = star6e_controls_bind (demo_camera rs)" for rs
    by (simp add: demo_camera_def star6e_controls_bind_def Let_def)
  have q: "ps_venc_port (cam_ps (demo_camera rs)) = (VENC, 0, 0)" for rs
    using demo_camera_simps(1) [of rs] by (simp add: demo_camera_def star6e_controls_bind_def Let_def)
  show ?thesis unfolding Let_def
    using settings_keep_pipeline_up [OF e _ r, of "\<lparr>a_cfg = venc_config_defaults, a_dev = demo_camera [0, -1, -1, 0, 0, 0, 0], a_reinit = 0\<rparr>"
        "[0, -1, -1, 0, 0, 0, 0]" "[''video0.fps=30'', ''video0.fps=60'']"] b
    by (simp add: Let_def q demo_camera_ups)
qed

end
