(* ===== verification/Star6eRunner.thy ===== *)
theory Star6eRunner imports Recorder TsRecorder ServerContract ControlProps begin

text \<open>
  The life of the Star6E streamer (\<open>src/star6e_runtime.c\<close>, \<open>src/backend.c\<close>): start, startup controls, the main loop
  with its frames, recordings and reinitialisations, tear-down. The HTTP thread, the audio thread and the signals
  act between the steps of the main loop; the exposure thread and the second channel's thread are started and
  joined but their work is not modelled, nor are the parts that only print and the watchdogs that kill a process which
  does not end (a second signal, the alarm, the child of the tear-down).
\<close>

subsection \<open>State\<close>

text \<open>The configuration and the camera are those the settings API holds. \<open>rn_rec_on\<close>: the audio thread is given
  the recorder's ring; \<open>rn_handoff\<close>: the exposure algorithm has been handed over.\<close>

record runner =
  rn_api :: "camera server"
  rn_rec :: recorder
  rn_ts :: ts_recorder
  rn_disk :: disk
  rn_ring :: audio_ring
  rn_rec_on :: bool
  rn_scene :: scene_detector
  rn_system :: bool
  rn_httpd :: bool
  rn_started :: bool
  rn_running :: bool
  rn_idle :: u32
  rn_handoff :: bool
  rn_tick :: StreamMetrics.timespec

text \<open>\<open>re_iq\<close>, \<open>re_iq_import\<close>: the image-quality code, as its result and the names of the library functions it calls.\<close>

record runner_env =
  re_fl :: float_unit
  re_api :: "camera api_env"
  re_lib :: "camera api_lib"
  re_iq :: "string \<Rightarrow> string \<Rightarrow> camera \<Rightarrow> int \<times> string list"
  re_iq_import :: "string \<Rightarrow> camera \<Rightarrow> int \<times> string list"
  re_f32 :: "dbl \<Rightarrow> dbl"
  re_parse :: "string \<Rightarrow> json option"

abbreviation rn_cam :: "runner \<Rightarrow> camera" where "rn_cam r \<equiv> a_dev (sv_api (rn_api r))"
abbreviation rn_cfg :: "runner \<Rightarrow> venc_config" where "rn_cfg r \<equiv> a_cfg (sv_api (rn_api r))"
abbreviation rn_ps :: "runner \<Rightarrow> pipe_state" where "rn_ps r \<equiv> cam_ps (rn_cam r)"

text \<open>What happens outside the main loop: a request served, SIGHUP (\<open>True\<close>) or a signal to end.\<close>

datatype outside = Request api_handler http_request | Signal bool

text \<open>One turn of the main loop: what happens before it and during the wait of a reinitialisation, the
  configuration file, the encoder's answer, the memory, the frames the audio thread has captured meanwhile, the clock,
  the channel's socket.\<close>

record turn =
  tn_before :: "outside list"
  tn_during :: "outside list"
  tn_pipe :: pipe_env
  tn_file :: "string option"
  tn_no_file :: bool
  tn_packs :: u32
  tn_mem :: bool
  tn_frame :: venc_stream
  tn_audio :: "audio_frame list"
  tn_now :: StreamMetrics.timespec
  tn_readable :: bool

definition set_cam :: "camera \<Rightarrow> runner \<Rightarrow> runner" where
  "set_cam c r = r\<lparr>rn_api := (rn_api r)\<lparr>sv_api := (sv_api (rn_api r))\<lparr>a_dev := c\<rparr>\<rparr>\<rparr>"

definition on_cam :: "(camera \<Rightarrow> 'r \<times> camera) \<Rightarrow> runner \<Rightarrow> 'r \<times> runner" where
  "on_cam f r = (case f (rn_cam r) of (x, c) \<Rightarrow> (x, set_cam c r))"

definition do_cam :: "(camera \<Rightarrow> camera) \<Rightarrow> runner \<Rightarrow> runner" where
  "do_cam f r = set_cam (f (rn_cam r)) r"

definition set_cfg :: "venc_config \<Rightarrow> runner \<Rightarrow> runner" where
  "set_cfg cfg r = r\<lparr>rn_api := (rn_api r)\<lparr>sv_api := (sv_api (rn_api r))\<lparr>a_cfg := cfg\<rparr>\<rparr>\<rparr>"

definition with_pipe :: "(pipe_state \<Rightarrow> pipe_world \<Rightarrow> 'r \<times> pipe_state \<times> pipe_world) \<Rightarrow> camera \<Rightarrow> 'r \<times> camera" where
  "with_pipe f c = (case f (cam_ps c) (cam_world c) of (x, st, w) \<Rightarrow> (x, c\<lparr>cam_ps := st, cam_world := w\<rparr>))"

subsection \<open>The exposure thread\<close>

definition start_custom_ae :: "venc_config \<Rightarrow> camera \<Rightarrow> camera" where
  "start_custom_ae cfg c =
     (if cam_cus3a c then c
      else case cam_call (Program ''star6e_cus3a_start'') c of (rc, c1) \<Rightarrow>
        c1\<lparr>cam_cus3a := (rc = 0),
           cam_shutter_max := (if isp_exposure (c_isp cfg) > 0 then isp_exposure (c_isp cfg) * 1000 else 0),
           cam_gain_max := (if isp_gain_max (c_isp cfg) > 0 then isp_gain_max (c_isp cfg) else 0)\<rparr>)"

definition star6e_cus3a_request_stop :: "camera \<Rightarrow> camera" where
  "star6e_cus3a_request_stop c = c\<lparr>cam_cus3a := False\<rparr>"

definition star6e_cus3a_join :: "camera \<Rightarrow> camera" where
  "star6e_cus3a_join c = cam_dos [Program ''star6e_cus3a_join''] c"

text \<open>A second after the start the algorithm is handed over, once.\<close>

definition star6e_pipeline_cus3a_tick :: "StreamMetrics.timespec \<Rightarrow> runner \<Rightarrow> runner" where
  "star6e_pipeline_cus3a_tick now r =
     (if rn_handoff r then r
      else if (tv_sec now - tv_sec (rn_tick r)) * 1000 + (tv_nsec now - tv_nsec (rn_tick r)) sdiv 1000000 < 1000 then r
      else (do_cam (cam_dos [IspCus3a]) r)\<lparr>rn_handoff := True\<rparr>)"

subsection \<open>Recording\<close>

definition runtime_request_idr :: "runner \<Rightarrow> int \<times> runner" where
  "runtime_request_idr r = (case on_cam (cam_call (VencIdr (ps_venc_channel (rn_ps r)))) r of (rc, r1) \<Rightarrow> (if rc = 0 then 0 else -1, r1))"

definition stop_recorders :: "runner \<Rightarrow> runner" where
  "stop_recorders r =
     (case star6e_recorder_stop (rn_rec r) (rn_disk r) of (x, d) \<Rightarrow>
      case star6e_ts_recorder_stop (rn_ts r) d of (y, d1) \<Rightarrow> r\<lparr>rn_rec := x, rn_ts := y, rn_disk := d1\<rparr>)"

definition stop_recording :: "runner \<Rightarrow> runner" where
  "stop_recording r = (stop_recorders r)\<lparr>rn_rec_on := False\<rparr>"

definition start_recording :: "string \<Rightarrow> runner \<Rightarrow> runner" where
  "start_recording dir r =
     (if rec_format (c_record (rn_cfg r)) = ''hevc'' then
        (case star6e_recorder_start dir (rn_rec r) (rn_disk r) of (rc, x, d) \<Rightarrow> r\<lparr>rn_rec := x, rn_disk := d\<rparr>)
      else
        let audio = aud_enabled (c_audio (rn_cfg r)) in
        case star6e_ts_recorder_start dir audio (rn_ts r) (rn_disk r) of (rc, y, d) \<Rightarrow>
          r\<lparr>rn_ts := y, rn_disk := d, rn_rec_on := (if audio then True else rn_rec_on r)\<rparr>)"

definition record_control :: "runner \<Rightarrow> runner" where
  "record_control r =
     (let r2 = (case venc_api_get_record_start 256 (rn_api r) of
          (None, s) \<Rightarrow> r\<lparr>rn_api := s\<rparr>
        | (Some dir, s) \<Rightarrow> snd (runtime_request_idr (start_recording dir (stop_recording (r\<lparr>rn_api := s\<rparr>)))))
      in case venc_api_get_record_stop (rn_api r2) of (stop, s) \<Rightarrow>
        if stop then stop_recording (r2\<lparr>rn_api := s\<rparr>) else r2\<lparr>rn_api := s\<rparr>)"

text \<open>What the settings API shows of it.\<close>

definition record_status_callback :: "runner \<Rightarrow> record_status" where
  "record_status_callback r =
     (if star6e_ts_recorder_is_active (rn_ts r) then
        \<lparr>rs_active = True, rs_format = ''ts'', rs_path = tr_path (rn_ts r), rs_frames = tr_frames_written (rn_ts r),
         rs_bytes = tr_bytes_written (rn_ts r), rs_segments = tr_segments (rn_ts r), rs_stop_reason = ''none''\<rparr>
      else if star6e_recorder_is_active (rn_rec r) then
        \<lparr>rs_active = True, rs_format = ''hevc'', rs_path = rr_path (rn_rec r), rs_frames = rr_frames_written (rn_rec r),
         rs_bytes = rr_bytes_written (rn_rec r), rs_segments = 0, rs_stop_reason = ''none''\<rparr>
      else
        let sr = (if tr_last_stop_reason (rn_ts r) = STOP_MANUAL then rr_last_stop_reason (rn_rec r) else tr_last_stop_reason (rn_ts r)) in
        \<lparr>rs_active = False, rs_format = take 15 (rec_format (c_record (rn_cfg r))), rs_path = '''', rs_frames = 0, rs_bytes = 0, rs_segments = 0,
         rs_stop_reason = (case sr of STOP_DISK_FULL \<Rightarrow> ''disk_full'' | STOP_WRITE_ERROR \<Rightarrow> ''write_error'' | STOP_MANUAL \<Rightarrow> ''manual'')\<rparr>)"

subsection \<open>Startup controls\<close>

text \<open>What the configuration asks of a fresh pipeline, at the start and after a reinitialisation.\<close>

definition configured_controls :: "float_unit \<Rightarrow> venc_config \<Rightarrow> camera \<Rightarrow> camera" where
  "configured_controls fl cfg c =
     (let c1 = (if isp_legacy_ae (c_isp cfg) then c else start_custom_ae cfg c);
          c2 = (if fpv_roi_enabled (c_fpv cfg) then snd (apply_roi_qp fl cfg (fpv_roi_qp (c_fpv cfg)) c1) else c1);
          c3 = (if vid_qp_delta (c_video0 cfg) \<noteq> 0 then snd (apply_qp_delta (vid_qp_delta (c_video0 cfg)) c2) else c2)
      in if ps_output_enabled (cam_ps c3) then c3
         else snd (apply_fps STAR6E_CONTROLS_IDLE_FPS (c3\<lparr>cam_stored_fps := vid_fps (c_video0 cfg)\<rparr>)))"

definition recorders_init :: "venc_config \<Rightarrow> runner \<Rightarrow> runner" where
  "recorders_init cfg r =
     (let ts = star6e_ts_recorder_init (if aud_enabled (c_audio cfg) then aud_sample_rate (c_audio cfg) else 0)
            (if aud_enabled (c_audio cfg) then ucast (aud_channels (c_audio cfg)) else 0)
      in r\<lparr>rn_rec := star6e_recorder_init, rn_ring := audio_ring_init,
           rn_ts := ts\<lparr>tr_max_seconds := (if rec_max_seconds (c_record cfg) > 0 then rec_max_seconds (c_record cfg) else tr_max_seconds ts),
             tr_max_bytes := (if rec_max_mb (c_record cfg) > 0 then ucast (rec_max_mb (c_record cfg)) * 1024 * 1024 else tr_max_bytes ts)\<rparr>\<rparr>)"

subsection \<open>The second channel\<close>

definition set_dual :: "dual_venc \<Rightarrow> camera \<Rightarrow> camera" where
  "set_dual du c = c\<lparr>cam_ps := (cam_ps c)\<lparr>ps_dual := Some du\<rparr>\<rparr>"

text \<open>Its own output, for \<open>dual-stream\<close>.\<close>

definition dual_output :: "pipe_env \<Rightarrow> venc_config \<Rightarrow> dual_venc \<Rightarrow> camera \<Rightarrow> camera" where
  "dual_output env cfg du c =
     (case star6e_output_prepare (Some (du_server du)) (Some (out_stream_mode (c_outgoing cfg))) (out_max_payload_size (c_outgoing cfg))
             (out_connected_udp (c_outgoing cfg)) of (r1, setup) \<Rightarrow>
      if r1 \<noteq> 0 then c
      else case star6e_output_init setup (pe_ring env) (pw_os (cam_world c)) of (r2, ou, k) \<Rightarrow>
        let c1 = c\<lparr>cam_world := (cam_world c)\<lparr>pw_os := k\<rparr>\<rparr>; du1 = du\<lparr>du_output := ou\<rparr> in
        if r2 \<noteq> 0 then set_dual du1 c1
        else case star6e_video_init (pe_rand env) (pe_now env) cfg (res_max_fps (sr_mode (ps_sensor (cam_ps c)))) (Some ou)
                    (pw_side (cam_world c1)) of (v, side) \<Rightarrow>
          set_dual (du1\<lparr>du_video := v\<rparr>) (c1\<lparr>cam_world := (cam_world c1)\<lparr>pw_side := side\<rparr>\<rparr>))"

definition dual_rec_thread_start :: "dual_venc \<Rightarrow> camera \<Rightarrow> camera" where
  "dual_rec_thread_start du c =
     (case cam_call (Program ''pthread_create dual_rec_thread_fn'') c of (rc, c1) \<Rightarrow>
        set_dual (if rc \<noteq> 0 then du else du\<lparr>du_rec_started := True\<rparr>) c1)"

text \<open>The second channel with its thread, when the mode asks for one; that it could not be started is ignored.\<close>

definition dual_wanted :: "venc_config \<Rightarrow> bool" where
  "dual_wanted cfg \<longleftrightarrow> rec_enabled (c_record cfg) \<and> rec_mode (c_record cfg) \<in> {''dual'', ''dual-stream''}"

definition dual_up_and_running :: "pipe_env \<Rightarrow> venc_config \<Rightarrow> camera \<Rightarrow> camera" where
  "dual_up_and_running env cfg c =
     (let rc = c_record cfg; stream = (rec_mode rc = ''dual-stream'');
          c1 = snd (with_pipe (star6e_pipeline_start_dual env (rec_bitrate rc) (rec_fps rc) (rec_gop_size rc) (rec_mode rc)
                 (rec_server rc) (vid_frame_lost (c_video0 cfg))) c);
          c2 = (case ps_dual (cam_ps c1) of None \<Rightarrow> c1
                | Some du \<Rightarrow> if stream \<and> du_server du \<noteq> '''' then dual_output env cfg du c1 else c1)
      in case ps_dual (cam_ps c2) of None \<Rightarrow> c2
         | Some du \<Rightarrow> dual_rec_thread_start (du\<lparr>du_is_dual_stream := stream\<rparr>) c2)"

definition start_second_channel :: "pipe_env \<Rightarrow> runner \<Rightarrow> runner" where
  "start_second_channel env r =
     (if \<not> dual_wanted (rn_cfg r) then r
      else let r1 = do_cam (dual_up_and_running env (rn_cfg r)) r in
        case ps_dual (rn_ps r1) of None \<Rightarrow> r1
        | Some du \<Rightarrow> r1\<lparr>rn_api := venc_api_dual_register (du_channel du) (du_bitrate du) (du_fps du) (du_gop du)
            (vid_frame_lost (c_video0 (rn_cfg r1))) (rn_api r1)\<rparr>)"

definition star6e_runtime_apply_startup_controls :: "runner_env \<Rightarrow> pipe_env \<Rightarrow> runner \<Rightarrow> int \<times> runner" where
  "star6e_runtime_apply_startup_controls re env r =
     (let cfg = rn_cfg r;
          r1 = (do_cam star6e_controls_bind r)\<lparr>rn_scene := scene_init (vid_scene_threshold (c_video0 cfg)) (vid_scene_holdoff (c_video0 cfg))\<rparr>;
          r2 = recorders_init cfg (do_cam (configured_controls (re_fl re) cfg) r1);
          r3 = start_second_channel env r2;
          rc = c_record cfg
      in (0, if rec_enabled rc \<and> rec_mode rc \<noteq> ''dual-stream'' \<and> rec_mode rc \<noteq> ''off'' \<and> rec_dir rc \<noteq> ''''
             then start_recording (rec_dir rc) r3 else r3))"

subsection \<open>Reinitialisation\<close>

definition star6e_runtime_restart_pipeline :: "runner_env \<Rightarrow> turn \<Rightarrow> int \<Rightarrow> runner \<Rightarrow> int \<times> runner" where
  "star6e_runtime_restart_pipeline re tn mode r =
     (let prev = res_max_fps (sr_mode (ps_sensor (rn_ps r)));
          r1 = (do_cam (\<lambda>c. star6e_controls_reset (star6e_cus3a_request_stop c)) r)\<lparr>rn_handoff := False\<rparr>;
          r2 = stop_recording (do_cam star6e_cus3a_join r1)
      in case (if mode = 1 then venc_config_load (re_f32 re) (re_parse re) (tn_file tn) (tn_no_file tn) venc_config_defaults
               else (0, rn_cfg r2)) of (lc, cfg) \<Rightarrow>
      if lc \<noteq> 0 then (1, set_cfg cfg r2)
      else
        let cfg1 = (if prev > 0 \<and> vid_fps (c_video0 cfg) > prev then cfg\<lparr>c_video0 := (c_video0 cfg)\<lparr>vid_fps := prev\<rparr>\<rparr> else cfg);
            r3 = set_cfg cfg1 r2
        in case on_cam (with_pipe (star6e_pipeline_reinit (tn_pipe tn) cfg1)) r3 of (rc, r4) \<Rightarrow>
        if rc \<noteq> 0 then (rc, r4\<lparr>rn_started := False\<rparr>)
        else
          let r5 = (do_cam star6e_controls_bind r4)
                \<lparr>rn_scene := scene_init (vid_scene_threshold (c_video0 cfg1)) (vid_scene_holdoff (c_video0 cfg1))\<rparr>
          in (0, do_cam (configured_controls (re_fl re) cfg1) r5))"

text \<open>The settings API as this backend registers it.\<close>

definition star6e_api :: "runner_env \<Rightarrow> camera api_env" where
  "star6e_api re = (re_api re)\<lparr>e_backend := ''star6e'', e_cb := Some (g_star6e_apply_callbacks (re_fl re))\<rparr>"

definition iq_calls :: "(camera \<Rightarrow> int \<times> string list) \<Rightarrow> camera \<Rightarrow> int \<times> camera" where
  "iq_calls f c = (case f c of (rc, names) \<Rightarrow> (rc, cam_dos (map Program names) c))"

definition star6e_lib :: "runner_env \<Rightarrow> record_status \<Rightarrow> camera api_lib" where
  "star6e_lib re st = (re_lib re)\<lparr>al_iq_param := Some (\<lambda>key val. iq_calls (re_iq re key val)),
     al_iq_import := (\<lambda>body. iq_calls (re_iq_import re body)), al_idr := Some request_idr,
     al_record_status := Some (\<lambda>c. st), al_driver := star6e_driver\<rparr>"

text \<open>What comes from outside: SIGHUP asks for a reload, other signals end the main loop.\<close>

definition outside_step :: "runner_env \<Rightarrow> outside \<Rightarrow> runner \<Rightarrow> runner" where
  "outside_step re e r = (case e of
     Request h req \<Rightarrow> r\<lparr>rn_api := snd (run_handler (star6e_api re) (star6e_lib re (record_status_callback r)) h req (rn_api r))\<rparr>
   | Signal True \<Rightarrow> r\<lparr>rn_api := (rn_api r)\<lparr>sv_api := venc_api_request_reinit 1 (sv_api (rn_api r))\<rparr>\<rparr>
   | Signal False \<Rightarrow> r\<lparr>rn_running := False\<rparr>)"

definition star6e_runtime_handle_reinit :: "runner_env \<Rightarrow> turn \<Rightarrow> runner \<Rightarrow> (int \<times> bool) \<times> runner" where
  "star6e_runtime_handle_reinit re tn r =
     (let mode = venc_api_get_reinit (sv_api (rn_api r)) in
      if mode = 0 then ((0, False), r)
      else
        let r1 = fold (outside_step re) (tn_during tn) r;
            updated = venc_api_get_reinit (sv_api (rn_api r1));
            r2 = r1\<lparr>rn_api := (rn_api r1)\<lparr>sv_api := venc_api_clear_reinit (sv_api (rn_api r1))\<rparr>\<rparr>
        in case star6e_runtime_restart_pipeline re tn (if updated \<noteq> 0 then updated else mode) r2 of (rc, r3) \<Rightarrow>
          if rc \<noteq> 0 then ((rc, True), r3) else ((0, True), r3\<lparr>rn_tick := tn_now tn, rn_idle := 0\<rparr>))"

subsection \<open>A frame\<close>

definition idle_wait :: "bool \<Rightarrow> camera \<Rightarrow> camera" where
  "idle_wait readable c =
     (let sc = vs_sidecar (ps_video (cam_ps c)) in
      if sc_fd sc < 0 \<or> \<not> readable then c
      else case rtp_sidecar_poll sc (pw_side (cam_world c)) of (sc1, side) \<Rightarrow>
        c\<lparr>cam_ps := (cam_ps c)\<lparr>ps_video := (ps_video (cam_ps c))\<lparr>vs_sidecar := sc1\<rparr>\<rparr>, cam_world := (cam_world c)\<lparr>pw_side := side\<rparr>\<rparr>)"

definition send_frame :: "venc_stream \<Rightarrow> bool \<Rightarrow> enc_info \<Rightarrow> StreamMetrics.timespec \<Rightarrow> camera \<Rightarrow> camera" where
  "send_frame stream verbose info now c =
     (let ps = cam_ps c; w = cam_world c in
      case star6e_video_send_frame stream (ps_output_enabled ps) verbose (Some info) now (ps_video ps) (ps_output ps, pw_os w) (pw_side w)
        of (n, lines, v, (ou, k), side) \<Rightarrow>
      c\<lparr>cam_ps := ps\<lparr>ps_video := v, ps_output := ou\<rparr>, cam_world := w\<lparr>pw_os := k, pw_side := side\<rparr>\<rparr>)"

text \<open>The scene detector, the network, the recorders of the first channel.\<close>

definition frame_out :: "turn \<Rightarrow> runner \<Rightarrow> runner" where
  "frame_out tn r =
     (let cfg = rn_cfg r in
      case scene_update (tn_frame tn) (vid_codec (c_video0 cfg) = ''h264'') (rn_scene r) of (sd, asked) \<Rightarrow>
      let r1 = (if asked then do_cam (cam_dos [VencIdr (ps_venc_channel (rn_ps r))]) r else r)\<lparr>rn_scene := sd\<rparr>
      in do_cam (send_frame (tn_frame tn) (sys_verbose (c_system cfg)) (scene_fill_sidecar sd) (tn_now tn)) r1)"

definition frame_recorded :: "turn \<Rightarrow> runner \<Rightarrow> runner" where
  "frame_recorded tn r =
     (case star6e_recorder_write_frame (tn_frame tn) (rn_rec r) (rn_disk r) of (r1, x, d) \<Rightarrow>
      case star6e_ts_recorder_write_stream (tn_frame tn) (rn_ts r)
             (if rn_rec_on r then fold audio_ring_push (tn_audio tn) (rn_ring r) else rn_ring r) d of (r2, y, ring, d1) \<Rightarrow>
      r\<lparr>rn_rec := x, rn_ts := y, rn_ring := ring, rn_disk := d1\<rparr>)"

definition EAGAIN :: int where "EAGAIN = 11"

definition star6e_runtime_process_stream :: "turn \<Rightarrow> runner \<Rightarrow> int \<times> runner" where
  "star6e_runtime_process_stream tn r =
     (let chn = ps_venc_channel (rn_ps r) in
      case on_cam (cam_call (VencQuery chn)) r of (q, r1) \<Rightarrow>
      if q \<noteq> 0 \<or> tn_packs tn = 0
      then (0, do_cam (idle_wait (tn_readable tn)) (star6e_pipeline_cus3a_tick (tn_now tn) (r1\<lparr>rn_idle := rn_idle r1 + 1\<rparr>)))
      else if \<not> tn_mem tn then (-1, r1\<lparr>rn_idle := 0\<rparr>)
      else
        let r2 = do_cam (cam_dos ((if ps_imu (rn_ps r1) then [Program ''imu_drain''] else []) @ (if ps_eis (rn_ps r1) then [Program ''eis_update''] else [])))
                   (r1\<lparr>rn_idle := 0\<rparr>)
        in case on_cam (cam_call (VencGetStream chn)) r2 of (g, r3) \<Rightarrow>
        if g = - EAGAIN \<or> g = EAGAIN then (0, do_cam (idle_wait (tn_readable tn)) r3)
        else if g \<noteq> 0 then (g, r3)
        else
          let r4 = frame_out tn r3;
              r5 = (if ps_dual (rn_ps r4) = None then record_control (frame_recorded tn r4) else r4);
              r6 = do_cam (cam_dos ((if ps_osd (rn_ps r5) then [Program ''debug_osd''] else []) @ [VencRelease chn])) r5
          in (0, star6e_pipeline_cus3a_tick (tn_now tn) r6))"

subsection \<open>Start, main loop, tear-down\<close>

definition star6e_prepare :: "runner \<Rightarrow> int \<times> runner" where
  "star6e_prepare r = (0, (do_cam star6e_controls_reset r)\<lparr>rn_running := True\<rparr>)"

definition star6e_runner_init :: "runner_env \<Rightarrow> pipe_env \<Rightarrow> runner \<Rightarrow> int \<times> runner" where
  "star6e_runner_init re env r =
     (case on_cam (cam_call (Program ''star6e_mi_init'')) r of (r1, s1) \<Rightarrow>
      if r1 \<noteq> 0 then (-1, s1)
      else case on_cam (cam_call (Program ''MI_SYS_Init'')) s1 of (r2, s2) \<Rightarrow>
      if r2 \<noteq> 0 then (r2, do_cam (cam_dos [Program ''star6e_mi_deinit'']) s2)
      else
        let s3 = (do_cam (cam_dos [Program ''venc_httpd_start'']) (s2\<lparr>rn_system := True\<rparr>))\<lparr>rn_httpd := True\<rparr> in
        case on_cam (with_pipe (star6e_pipeline_start env (rn_cfg s3))) s3 of (r3, s4) \<Rightarrow>
        if r3 \<noteq> 0 then (r3, s4)
        else star6e_runtime_apply_startup_controls re env (s4\<lparr>rn_started := True\<rparr>))"

text \<open>The turns of the main loop until a signal ends it; a list of turns that runs out is cut off by one.\<close>

fun star6e_runner_run :: "runner_env \<Rightarrow> turn list \<Rightarrow> runner \<Rightarrow> int \<times> runner" where
  "star6e_runner_run re [] r = (0, r\<lparr>rn_running := False\<rparr>)"
| "star6e_runner_run re (tn # tns) r0 =
     (let r = fold (outside_step re) (tn_before tn) r0 in
      if \<not> rn_running r then (0, r)
      else case star6e_runtime_handle_reinit re tn r of ((rc, handled), r1) \<Rightarrow>
        if rc \<noteq> 0 then (rc, r1)
        else if handled then star6e_runner_run re tns r1
        else case star6e_runtime_process_stream tn r1 of (rc2, r2) \<Rightarrow>
          if rc2 \<noteq> 0 then (rc2, r2) else star6e_runner_run re tns r2)"

definition star6e_runner_teardown :: "runner \<Rightarrow> runner" where
  "star6e_runner_teardown r =
     (let r1 = do_cam star6e_cus3a_request_stop r;
          r2 = (if rn_started r1
                then (snd (on_cam (with_pipe (\<lambda>st w. ((), star6e_pipeline_stop st w)))
                        (do_cam (\<lambda>c. star6e_controls_reset (cam_dos [Program ''star6e_iq_cleanup''] c)) r1)))\<lparr>rn_started := False\<rparr>
                else r1);
          r3 = stop_recorders (do_cam star6e_cus3a_join r2);
          r4 = (if rn_httpd r3 then (do_cam (cam_dos [Program ''venc_httpd_stop'']) r3)\<lparr>rn_httpd := False\<rparr> else r3);
          r5 = (if rn_system r4 then (do_cam (cam_dos [Program ''MI_SYS_Exit'', Program ''vpe_scl_preset_shutdown'']) r4)\<lparr>rn_system := False\<rparr> else r4)
      in do_cam (cam_dos [Program ''star6e_mi_deinit'']) r5)"

definition backend_run_pipeline :: "runner_env \<Rightarrow> pipe_env \<Rightarrow> turn list \<Rightarrow> runner \<Rightarrow> int \<times> runner" where
  "backend_run_pipeline re env tns r =
     (case star6e_runner_init re env r of (r1, s1) \<Rightarrow>
      if r1 \<noteq> 0 then (r1, star6e_runner_teardown s1)
      else case star6e_runner_run re tns s1 of (r2, s2) \<Rightarrow> (r2, star6e_runner_teardown s2))"

text \<open>The process: the configuration from its file, \<open>None\<close> in place of the context when there is no memory for it. This
  backend passes the pipeline's result on as it is.\<close>

definition backend_execute :: "runner_env \<Rightarrow> pipe_env \<Rightarrow> string option \<Rightarrow> bool \<Rightarrow> turn list \<Rightarrow> runner option \<Rightarrow> int \<times> runner option" where
  "backend_execute re env file no_file tns ctx =
     (case ctx of None \<Rightarrow> (1, None)
      | Some r \<Rightarrow>
          case venc_config_load (re_f32 re) (re_parse re) file no_file venc_config_defaults of (lc, cfg) \<Rightarrow>
          if lc \<noteq> 0 then (1, Some (set_cfg cfg r))
          else case star6e_prepare (set_cfg cfg r) of (rc, r1) \<Rightarrow>
            if rc \<noteq> 0 then (rc, Some r1)
            else case backend_run_pipeline re env tns r1 of (rc2, r2) \<Rightarrow> (rc2, Some r2))"

end
