(* ===== verification/RunnerProps.thy ===== *)
theory RunnerProps imports Star6eRunner begin

text \<open>
  What holds over the whole life of the streamer: the main loop keeps the pipeline serving through frames, requests,
  recordings and reinitialisations, and the tear-down leaves nothing up and no recording open.
\<close>

subsection \<open>The backend keeps the contract\<close>

lemma cam_dos_neutral: "\<forall>op \<in> set ops. takes op = None \<and> brings op = None \<Longrightarrow> cups (cam_dos ops c) = cups c"
  by (auto simp: ups_dos)

lemma steady_dos: "\<forall>op \<in> set ops. takes op = None \<and> brings op = None \<Longrightarrow> steady c (cam_dos ops c)"
  by (rule steadyI) (auto simp: ups_dos cam_dos_def refused_dos)

lemma steady_iq: "steady c (snd (iq_calls f c))"
  by (auto simp: iq_calls_def split: prod.splits intro!: steady_dos)

lemma steady_snd: "(\<And>rc c'. f c = (rc, c') \<Longrightarrow> steady c c') \<Longrightarrow> steady c (snd (f c))"
  by (metis prod.collapse)

lemma steady_driver:
  "steady c (snd (vd_get_attr star6e_driver ch c))" "steady c (snd (vd_set_attr star6e_driver ch a c))"
  "steady c (snd (vd_frame_lost star6e_driver ch b k c))" "steady c (snd (vd_request_idr star6e_driver ch c))"
  by (rule steady_snd, auto simp: star6e_driver_def Let_def split: prod.splits dest: steady_call intro: steady_lost)+

interpretation star6e_http: server_contract "g_star6e_apply_callbacks fl" control_ok "star6e_lib re st" for fl re st
proof
  show "al_idr (star6e_lib re st) = Some f \<Longrightarrow> keeps_dev f control_ok" for f
    by (auto simp: star6e_lib_def keeps_dev_def intro: control_ok_steady steady_snd steady_idr)
qed (auto simp: star6e_lib_def keeps_dev_def intro: control_ok_steady steady_iq steady_driver)

subsection \<open>Reading and writing the runner's camera\<close>

lemma set_cam_simps [simp]:
  "rn_cam (set_cam c r) = c" "rn_cfg (set_cam c r) = rn_cfg r" "rn_rec (set_cam c r) = rn_rec r" "rn_ts (set_cam c r) = rn_ts r"
  "rn_disk (set_cam c r) = rn_disk r" "rn_started (set_cam c r) = rn_started r" "rn_system (set_cam c r) = rn_system r"
  "rn_httpd (set_cam c r) = rn_httpd r" "rn_running (set_cam c r) = rn_running r"
  by (simp_all add: set_cam_def)

lemma do_cam_simps [simp]:
  "rn_cam (do_cam f r) = f (rn_cam r)" "rn_cfg (do_cam f r) = rn_cfg r" "rn_rec (do_cam f r) = rn_rec r" "rn_ts (do_cam f r) = rn_ts r"
  "rn_disk (do_cam f r) = rn_disk r" "rn_started (do_cam f r) = rn_started r" "rn_system (do_cam f r) = rn_system r"
  "rn_httpd (do_cam f r) = rn_httpd r" "rn_running (do_cam f r) = rn_running r"
  by (simp_all add: do_cam_def)

lemma set_cfg_simps [simp]:
  "rn_cam (set_cfg cfg r) = rn_cam r" "rn_cfg (set_cfg cfg r) = cfg" "rn_rec (set_cfg cfg r) = rn_rec r" "rn_ts (set_cfg cfg r) = rn_ts r"
  "rn_started (set_cfg cfg r) = rn_started r" "rn_system (set_cfg cfg r) = rn_system r" "rn_httpd (set_cfg cfg r) = rn_httpd r"
  by (simp_all add: set_cfg_def)

lemma on_camE:
  assumes "on_cam f r = (x, r')"
  obtains c where "f (rn_cam r) = (x, c)" and "r' = set_cam c r"
  using assms by (auto simp: on_cam_def split: prod.splits)

lemma with_pipeE:
  assumes "with_pipe f c = (x, c')"
  obtains st w where "f (cam_ps c) (cam_world c) = (x, st, w)" and "c' = c\<lparr>cam_ps := st, cam_world := w\<rparr>"
  using assms by (auto simp: with_pipe_def split: prod.splits)

subsection \<open>What a pipeline in service needs\<close>

text \<open>Everything the contract looks at stays as it is.\<close>

definition same_pipe :: "camera \<Rightarrow> camera \<Rightarrow> bool" where
  "same_pipe c c' \<longleftrightarrow> cam_ctx c' = cam_ctx c \<and> all_up (cam_ps c') = all_up (cam_ps c) \<and> flags_set (cam_ps c') = flags_set (cam_ps c)
     \<and> ps_venc_port (cam_ps c') = ps_venc_port (cam_ps c) \<and> pw_mi (cam_world c') = pw_mi (cam_world c)"

lemma control_ok_same: "control_ok c \<Longrightarrow> same_pipe c c' \<Longrightarrow> control_ok c'"
  by (auto simp: control_ok_def same_pipe_def serving_def running_def)

lemmas pipe_parts = all_up_def sensor_chain_def encoder_up_def extras_def dual_up_def flags_set_def

lemma same_pipe_idle: "same_pipe c (idle_wait b c)"
  by (simp add: idle_wait_def same_pipe_def pipe_parts Let_def split: prod.splits)

lemma same_pipe_send: "same_pipe c (send_frame s v i now c)"
  by (auto simp: send_frame_def same_pipe_def pipe_parts Let_def split: prod.splits)

lemma control_ok_idle: "control_ok c \<Longrightarrow> control_ok (idle_wait b c)" by (rule control_ok_same [OF _ same_pipe_idle])
lemma control_ok_send: "control_ok c \<Longrightarrow> control_ok (send_frame s v i now c)" by (rule control_ok_same [OF _ same_pipe_send])

lemma control_ok_call: "control_ok c \<Longrightarrow> cam_call op c = (rc, c') \<Longrightarrow> takes op = None \<Longrightarrow> brings op = None \<Longrightarrow> control_ok c'"
  using control_ok_steady steady_call by blast

lemma control_ok_dos: "control_ok c \<Longrightarrow> \<forall>op \<in> set ops. takes op = None \<and> brings op = None \<Longrightarrow> control_ok (cam_dos ops c)"
  using control_ok_steady steady_dos by blast

lemma control_ok_tick: "control_ok (rn_cam r) \<Longrightarrow> control_ok (rn_cam (star6e_pipeline_cus3a_tick now r))"
  by (auto simp: star6e_pipeline_cus3a_tick_def intro: control_ok_dos)

subsection \<open>One turn\<close>

text \<open>Recording does not touch the pipeline but for a key frame.\<close>

lemma stop_recorders_cam [simp]: "rn_cam (stop_recorders r) = rn_cam r" "rn_cfg (stop_recorders r) = rn_cfg r" "rn_started (stop_recorders r) = rn_started r"
  "rn_system (stop_recorders r) = rn_system r" "rn_httpd (stop_recorders r) = rn_httpd r"
  by (simp_all add: stop_recorders_def split: prod.splits)

lemma stop_recording_cam [simp]: "rn_cam (stop_recording r) = rn_cam r" "rn_cfg (stop_recording r) = rn_cfg r" "rn_started (stop_recording r) = rn_started r"
  "rn_system (stop_recording r) = rn_system r" "rn_httpd (stop_recording r) = rn_httpd r"
  by (simp_all add: stop_recording_def stop_recorders_def split: prod.splits)

lemma start_recording_cam [simp]: "rn_cam (start_recording d r) = rn_cam r" "rn_cfg (start_recording d r) = rn_cfg r" "rn_started (start_recording d r) = rn_started r"
  by (simp_all add: start_recording_def Let_def split: prod.splits)

lemma frame_recorded_cam [simp]: "rn_cam (frame_recorded tn r) = rn_cam r" "rn_started (frame_recorded tn r) = rn_started r"
  by (simp_all add: frame_recorded_def split: prod.splits)

lemma runtime_idr_cam:
  "rn_cam (snd (runtime_request_idr r)) = snd (cam_call (VencIdr (ps_venc_channel (rn_ps r))) (rn_cam r))"
  "rn_started (snd (runtime_request_idr r)) = rn_started r" "rn_rec (snd (runtime_request_idr r)) = rn_rec r" "rn_ts (snd (runtime_request_idr r)) = rn_ts r"
  by (auto simp: runtime_request_idr_def on_cam_def split: prod.splits)

lemma control_ok_snd_call: "control_ok c \<Longrightarrow> takes op = None \<Longrightarrow> brings op = None \<Longrightarrow> control_ok (snd (cam_call op c))"
  by (metis control_ok_call prod.collapse)

lemma record_flags_cam: "venc_api_get_record_start n s = (d, s') \<Longrightarrow> sv_api s' = sv_api s" "venc_api_get_record_stop s = (b, s') \<Longrightarrow> sv_api s' = sv_api s"
  by (auto simp: venc_api_get_record_start_def venc_api_get_record_stop_def)

text \<open>What the record flags make of a runner: nothing, or a recording stopped, or stopped and begun.\<close>

lemma record_control_ok:
  assumes "control_ok (rn_cam r)"
  shows "control_ok (rn_cam (record_control r)) \<and> rn_started (record_control r) = rn_started r"
proof -
  obtain d s where 1: "venc_api_get_record_start 256 (rn_api r) = (d, s)" by (metis surj_pair)
  define r2 where "r2 = (case d of None \<Rightarrow> r\<lparr>rn_api := s\<rparr>
      | Some dir \<Rightarrow> snd (runtime_request_idr (start_recording dir (stop_recording (r\<lparr>rn_api := s\<rparr>)))))"
  obtain b s2 where 2: "venc_api_get_record_stop (rn_api r2) = (b, s2)" by (metis surj_pair)
  have rc: "record_control r = (if b then stop_recording (r2\<lparr>rn_api := s2\<rparr>) else r2\<lparr>rn_api := s2\<rparr>)"
    by (simp add: record_control_def 1 2 r2_def [symmetric] Let_def split: option.splits)
  have "control_ok (rn_cam r2) \<and> rn_started r2 = rn_started r"
    using assms record_flags_cam(1) [OF 1] by (cases d) (auto simp: r2_def runtime_idr_cam intro: control_ok_snd_call)
  then show ?thesis using record_flags_cam(2) [OF 2] by (simp add: rc)
qed

lemma frame_out_ok: "control_ok (rn_cam r) \<Longrightarrow> control_ok (rn_cam (frame_out tn r)) \<and> rn_started (frame_out tn r) = rn_started r"
  by (auto simp: frame_out_def Let_def split: prod.splits intro!: control_ok_send control_ok_dos)

lemma tick_started [simp]: "rn_started (star6e_pipeline_cus3a_tick now r) = rn_started r"
  by (simp add: star6e_pipeline_cus3a_tick_def)

lemma process_stream_ok:
  assumes "star6e_runtime_process_stream tn r = (rc, r')" and k: "control_ok (rn_cam r)"
  shows "control_ok (rn_cam r') \<and> rn_started r' = rn_started r"
proof -
  define chn where "chn = ps_venc_channel (rn_ps r)"
  obtain q r1 where 1: "on_cam (cam_call (VencQuery chn)) r = (q, r1)" by (metis surj_pair)
  have k1: "control_ok (rn_cam r1)" "rn_started r1 = rn_started r"
    using 1 k by (auto elim!: on_camE intro: control_ok_call)
  define r2 where "r2 = do_cam (cam_dos ((if ps_imu (rn_ps r1) then [Program ''imu_drain''] else []) @ (if ps_eis (rn_ps r1) then [Program ''eis_update''] else [])))
                   (r1\<lparr>rn_idle := 0\<rparr>)"
  have k2: "control_ok (rn_cam r2)" "rn_started r2 = rn_started r" using k1 by (auto simp: r2_def intro!: control_ok_dos)
  obtain g r3 where 3: "on_cam (cam_call (VencGetStream chn)) r2 = (g, r3)" by (metis surj_pair)
  have k3: "control_ok (rn_cam r3)" "rn_started r3 = rn_started r"
    using 3 k2 by (auto elim!: on_camE intro: control_ok_call)
  define r4 where "r4 = frame_out tn r3"
  have k4: "control_ok (rn_cam r4)" "rn_started r4 = rn_started r" using frame_out_ok [OF k3(1)] k3 by (simp_all add: r4_def)
  define r5 where "r5 = (if ps_dual (rn_ps r4) = None then record_control (frame_recorded tn r4) else r4)"
  have k5: "control_ok (rn_cam r5)" "rn_started r5 = rn_started r" using record_control_ok [of "frame_recorded tn r4"] k4 by (simp_all add: r5_def)
  have "r' = do_cam (idle_wait (tn_readable tn)) (star6e_pipeline_cus3a_tick (tn_now tn) (r1\<lparr>rn_idle := rn_idle r1 + 1\<rparr>))
    \<or> r' = r1\<lparr>rn_idle := 0\<rparr> \<or> r' = do_cam (idle_wait (tn_readable tn)) r3 \<or> r' = r3
    \<or> r' = star6e_pipeline_cus3a_tick (tn_now tn) (do_cam (cam_dos ((if ps_osd (rn_ps r5) then [Program ''debug_osd''] else []) @ [VencRelease chn])) r5)"
    using assms(1) unfolding star6e_runtime_process_stream_def Let_def chn_def [symmetric] 1 prod.case r2_def [symmetric] 3 r4_def [symmetric]
      r5_def [symmetric] by (auto split: if_splits)
  then show ?thesis
    using k1 k3 k5 by (elim disjE) (auto intro!: control_ok_idle control_ok_tick control_ok_dos)
qed

lemma outside_ok: "control_ok (rn_cam r) \<Longrightarrow> control_ok (rn_cam (outside_step re e r)) \<and> rn_started (outside_step re e r) = rn_started r"
proof (cases e)
  case (Request h req)
  assume k: "control_ok (rn_cam r)"
  have cb: "e_cb (star6e_api re) = Some (g_star6e_apply_callbacks (re_fl re))" by (simp add: star6e_api_def)
  show ?thesis using star6e_http.handler_keeps [OF cb prod.collapse [symmetric] k] by (simp add: outside_step_def Request)
next
  case (Signal b)
  assume "control_ok (rn_cam r)"
  then show ?thesis by (cases b) (simp_all add: outside_step_def Signal venc_api_request_reinit_def)
qed

lemma outside_fold_ok: "control_ok (rn_cam r) \<Longrightarrow> control_ok (rn_cam (fold (outside_step re) es r)) \<and> rn_started (fold (outside_step re) es r) = rn_started r"
  by (induction es arbitrary: r) (simp_all add: outside_ok)

lemma steady_configured: "steady c (configured_controls fl cfg c)"
proof -
  have ae: "steady c (start_custom_ae cfg c)" for c
  proof (cases "cam_cus3a c")
    case False
    obtain rc c1 where 1: "cam_call (Program ''star6e_cus3a_start'') c = (rc, c1)" by (metis surj_pair)
    have "steady c1 (c1\<lparr>cam_cus3a := a, cam_shutter_max := b, cam_gain_max := d\<rparr>)" for a b d by (rule steadyI) simp_all
    then show ?thesis using False steady_trans [OF steady_call [OF 1]] by (simp add: start_custom_ae_def 1)
  qed (simp add: start_custom_ae_def)
  have roi: "steady c (snd (apply_roi_qp fl cfg q c))" for q c by (rule steady_snd) (rule steady_roi)
  have qp: "steady c (snd (apply_qp_delta q c))" for q c by (rule steady_snd) (rule steady_qp)
  have fps: "steady c (snd (apply_fps f (c\<lparr>cam_stored_fps := x\<rparr>)))" for f x c
    by (rule steady_trans [OF steady_stored]) (rule steady_snd, rule steady_fps)
  define c1 where "c1 = (if isp_legacy_ae (c_isp cfg) then c else start_custom_ae cfg c)"
  define c2 where "c2 = (if fpv_roi_enabled (c_fpv cfg) then snd (apply_roi_qp fl cfg (fpv_roi_qp (c_fpv cfg)) c1) else c1)"
  define c3 where "c3 = (if vid_qp_delta (c_video0 cfg) \<noteq> 0 then snd (apply_qp_delta (vid_qp_delta (c_video0 cfg)) c2) else c2)"
  have "steady c c1" using ae by (simp add: c1_def)
  moreover have "steady c1 c2" using roi by (simp add: c2_def)
  moreover have "steady c2 c3" using qp by (simp add: c3_def)
  ultimately have s3: "steady c c3" by (blast intro: steady_trans)
  show ?thesis unfolding configured_controls_def Let_def c1_def [symmetric] c2_def [symmetric] c3_def [symmetric]
    using s3 steady_trans [OF s3 fps] by simp
qed

subsection \<open>Reinitialisation and the main loop\<close>

text \<open>The front end alone: what a failed reinitialisation leaves.\<close>

definition front_end :: "int \<Rightarrow> resource set" where
  "front_end p = {SensorOn p, VifDev, VifPort, VpeChn, VpeRun, VpePort, Bound vif_port vpe_port}"

text \<open>In service; or taken out of it by a failed reinitialisation, with the sensor on.\<close>

definition in_service :: "runner \<Rightarrow> bool" where
  "in_service r \<longleftrightarrow> rn_started r \<and> serving (rn_ps r) (cam_world (rn_cam r))"

definition front_left :: "runner \<Rightarrow> bool" where
  "front_left r \<longleftrightarrow> \<not> rn_started r \<and> (\<exists>p. SensorOn p \<in> cups (rn_cam r) \<and> cups (rn_cam r) \<subseteq> front_end p)"

lemma control_ok_serving: "control_ok (rn_cam r) \<Longrightarrow> rn_started r \<Longrightarrow> in_service r"
  by (simp add: in_service_def control_ok_def)

lemma control_ok_configured: "control_ok c \<Longrightarrow> control_ok (configured_controls fl cfg c)"
  using control_ok_steady steady_configured by blast

lemma restart_outcome:
  assumes "star6e_runtime_restart_pipeline re tn mode r = (rc, r')" and "in_service r"
  shows "if rc = 0 then rn_started r' \<and> control_ok (rn_cam r') else in_service r' \<or> front_left r'"
proof -
  define r1 where "r1 = (do_cam (\<lambda>c. star6e_controls_reset (star6e_cus3a_request_stop c)) r)\<lparr>rn_handoff := False\<rparr>"
  define r2 where "r2 = stop_recording (do_cam star6e_cus3a_join r1)"
  obtain lc cfg where l: "(if mode = 1 then venc_config_load (re_f32 re) (re_parse re) (tn_file tn) (tn_no_file tn) venc_config_defaults
      else (0, rn_cfg r2)) = (lc, cfg)" by (metis surj_pair)
  define prev where "prev = res_max_fps (sr_mode (ps_sensor (rn_ps r)))"
  define cfg1 where "cfg1 = (if prev > 0 \<and> vid_fps (c_video0 cfg) > prev then cfg\<lparr>c_video0 := (c_video0 cfg)\<lparr>vid_fps := prev\<rparr>\<rparr> else cfg)"
  define r3 where "r3 = set_cfg cfg1 r2"
  obtain rc1 r4 where 4: "on_cam (with_pipe (star6e_pipeline_reinit (tn_pipe tn) cfg1)) r3 = (rc1, r4)" by (metis surj_pair)
  have p: "cam_ps (rn_cam r2) = rn_ps r" "cups (rn_cam r2) = cups (rn_cam r)" "rn_started r2"
    using assms(2) by (simp_all add: r2_def r1_def star6e_controls_reset_def star6e_cus3a_request_stop_def star6e_cus3a_join_def in_service_def do_neutral)
  have s: "serving (rn_ps r3) (cam_world (rn_cam r3))" using assms(2) p by (simp add: r3_def serving_def in_service_def)
  note steps = assms(1) [unfolded star6e_runtime_restart_pipeline_def Let_def r1_def [symmetric] r2_def [symmetric] l prod.case
      prev_def [symmetric] cfg1_def [symmetric] r3_def [symmetric] 4]
  show ?thesis
  proof (cases "lc = 0")
    case False
    then have "rc = 1" "r' = set_cfg cfg r2" using steps by simp_all
    then show ?thesis using assms(2) p by (simp add: in_service_def serving_def)
  next
    case True
    obtain c where c: "with_pipe (star6e_pipeline_reinit (tn_pipe tn) cfg1) (rn_cam r3) = (rc1, c)" "r4 = set_cam c r3"
      using 4 by (elim on_camE)
    obtain st w where w: "star6e_pipeline_reinit (tn_pipe tn) cfg1 (rn_ps r3) (cam_world (rn_cam r3)) = (rc1, st, w)"
      "c = (rn_cam r3)\<lparr>cam_ps := st, cam_world := w\<rparr>" using c(1) by (elim with_pipeE)
    note o = reinit_outcome [OF s w(1)]
    show ?thesis
    proof (cases "rc1 = 0")
      case True
      define r5 where "r5 = (do_cam star6e_controls_bind r4)
          \<lparr>rn_scene := scene_init (vid_scene_threshold (c_video0 cfg1)) (vid_scene_holdoff (c_video0 cfg1))\<rparr>"
      have "rc = 0" "r' = do_cam (configured_controls (re_fl re) cfg1) r5"
        using steps True \<open>lc = 0\<close> by (simp_all add: r5_def)
      moreover have "control_ok (rn_cam r5)"
        using o True c(2) w(2) by (simp add: r5_def control_ok_bind)
      moreover have "rn_started r5" using c(2) p by (simp add: r5_def r3_def)
      ultimately show ?thesis by (simp add: control_ok_configured)
    next
      case False
      then have r: "rc = rc1" "r' = r4\<lparr>rn_started := False\<rparr>" using steps \<open>lc = 0\<close> by simp_all
      have "sensor_only (rn_ps r3) \<subseteq> cups (rn_cam r')" "cups (rn_cam r') \<subseteq> sensor_chain (rn_ps r3) \<union> {Bound vif_port vpe_port}"
        using o False r(2) c(2) w(2) by simp_all
      then have "front_left r'"
        unfolding front_left_def using r(2)
        by (intro conjI exI [of _ "sr_pad_id (ps_sensor (rn_ps r3))"])
          (auto simp: front_end_def sensor_only_def sensor_chain_def capture_on_def scaler_on_def)
      then show ?thesis using r False by simp
    qed
  qed
qed

lemma handle_reinit_outcome:
  assumes "star6e_runtime_handle_reinit re tn r = ((rc, handled), r')" and "rn_started r" and "control_ok (rn_cam r)"
  shows "if rc = 0 then rn_started r' \<and> control_ok (rn_cam r') else in_service r' \<or> front_left r'"
proof (cases "venc_api_get_reinit (sv_api (rn_api r)) = 0")
  case True
  then show ?thesis using assms by (simp add: star6e_runtime_handle_reinit_def)
next
  case False
  define r1 where "r1 = fold (outside_step re) (tn_during tn) r"
  define r2 where "r2 = r1\<lparr>rn_api := (rn_api r1)\<lparr>sv_api := venc_api_clear_reinit (sv_api (rn_api r1))\<rparr>\<rparr>"
  define m where "m = (if venc_api_get_reinit (sv_api (rn_api r1)) \<noteq> 0 then venc_api_get_reinit (sv_api (rn_api r1))
      else venc_api_get_reinit (sv_api (rn_api r)))"
  obtain rc1 r3 where 3: "star6e_runtime_restart_pipeline re tn m r2 = (rc1, r3)" by (metis surj_pair)
  have "control_ok (rn_cam r2)" "rn_started r2"
    using outside_fold_ok [OF assms(3), of re "tn_during tn"] assms(2) by (simp_all add: r2_def r1_def venc_api_clear_reinit_def)
  then have o: "if rc1 = 0 then rn_started r3 \<and> control_ok (rn_cam r3) else in_service r3 \<or> front_left r3"
    using restart_outcome [OF 3] control_ok_serving by blast
  have "rc = rc1" "r' = (if rc1 = 0 then r3\<lparr>rn_tick := tn_now tn, rn_idle := 0\<rparr> else r3)"
    using assms(1) False unfolding star6e_runtime_handle_reinit_def Let_def r1_def [symmetric] r2_def [symmetric] m_def [symmetric] 3 prod.case
    by (auto split: if_splits)
  then show ?thesis using o by (cases "rc1 = 0") simp_all
qed

lemma run_outcome:
  assumes "star6e_runner_run re tns r = (rc, r')" and "rn_started r" and "control_ok (rn_cam r)"
  shows "in_service r' \<or> rc \<noteq> 0 \<and> front_left r'"
  using assms
proof (induction tns arbitrary: r)
  case Nil
  then show ?case by (auto simp: in_service_def control_ok_def)
next
  case (Cons tn tns)
  define r0 where "r0 = fold (outside_step re) (tn_before tn) r"
  have k0: "rn_started r0" "control_ok (rn_cam r0)" using outside_fold_ok Cons.prems by (simp_all add: r0_def)
  obtain c h r1 where 1: "star6e_runtime_handle_reinit re tn r0 = ((c, h), r1)" by (metis surj_pair)
  note o = handle_reinit_outcome [OF 1 k0]
  obtain c2 r2 where 2: "star6e_runtime_process_stream tn r1 = (c2, r2)" by (metis surj_pair)
  note steps = Cons.prems(1) [unfolded star6e_runner_run.simps Let_def r0_def [symmetric] 1 prod.case 2]
  consider "\<not> rn_running r0" | "rn_running r0" "c \<noteq> 0" | "rn_running r0" "c = 0" h | "rn_running r0" "c = 0" "\<not> h" "c2 \<noteq> 0"
    | "rn_running r0" "c = 0" "\<not> h" "c2 = 0" by blast
  then show ?case
  proof cases
    case 1
    then show ?thesis using steps k0 control_ok_serving by simp
  next
    case 2
    then show ?thesis using steps o by auto
  next
    case 3
    then show ?thesis using steps o Cons.IH by simp
  next
    case 4
    then show ?thesis using steps o process_stream_ok [OF 2] control_ok_serving by simp
  next
    case 5
    then show ?thesis using steps o process_stream_ok [OF 2] Cons.IH by simp
  qed
qed

subsection \<open>Start and tear-down\<close>

lemma recorders_init_simps [simp]: "rn_api (recorders_init cfg r) = rn_api r" "rn_started (recorders_init cfg r) = rn_started r"
  by (simp_all add: recorders_init_def Let_def)

definition same_dual :: "dual_venc \<Rightarrow> dual_venc \<Rightarrow> bool" where
  "same_dual du du' \<longleftrightarrow> du_channel du' = du_channel du \<and> du_port du' = du_port du \<and> du_bound du' = du_bound du"

lemma set_dual_same:
  assumes "ps_dual (cam_ps c) = Some du0" and "same_dual du0 du"
  shows "same_pipe c (set_dual du c)"
  using assms by (simp add: same_pipe_def set_dual_def pipe_parts same_dual_def)

lemma same_pipe_trans: "same_pipe c c1 \<Longrightarrow> same_pipe c1 c2 \<Longrightarrow> same_pipe c c2"
  by (simp add: same_pipe_def)

lemma same_pipe_world: "pw_mi w = pw_mi (cam_world c) \<Longrightarrow> same_pipe c (c\<lparr>cam_world := w\<rparr>)"
  by (simp add: same_pipe_def)

lemma set_dual_ps [simp]: "ps_dual (cam_ps (set_dual du c)) = Some du" "cam_world (set_dual du c) = cam_world c"
  by (simp_all add: set_dual_def)

lemma dual_output_same:
  assumes d: "ps_dual (cam_ps c) = Some du" and "dual_output env cfg du c = c'"
  shows "same_pipe c c' \<and> (\<exists>du'. ps_dual (cam_ps c') = Some du' \<and> same_dual du du')"
proof -
  obtain r1 su where 1: "star6e_output_prepare (Some (du_server du)) (Some (out_stream_mode (c_outgoing cfg)))
      (out_max_payload_size (c_outgoing cfg)) (out_connected_udp (c_outgoing cfg)) = (r1, su)" by (metis surj_pair)
  obtain r2 ou k where 2: "star6e_output_init su (pe_ring env) (pw_os (cam_world c)) = (r2, ou, k)" by (metis prod_cases3)
  define c1 where "c1 = c\<lparr>cam_world := (cam_world c)\<lparr>pw_os := k\<rparr>\<rparr>"
  define du1 where "du1 = du\<lparr>du_output := ou\<rparr>"
  obtain v side where 3: "star6e_video_init (pe_rand env) (pe_now env) cfg (res_max_fps (sr_mode (ps_sensor (cam_ps c)))) (Some ou)
      (pw_side (cam_world c1)) = (v, side)" by (metis surj_pair)
  define c2 where "c2 = c1\<lparr>cam_world := (cam_world c1)\<lparr>pw_side := side\<rparr>\<rparr>"
  have s1: "same_pipe c c1" unfolding c1_def by (rule same_pipe_world) simp
  have s2: "same_pipe c c2" unfolding c2_def by (rule same_pipe_trans [OF s1 same_pipe_world]) simp
  have "ps_dual (cam_ps c1) = Some du" "ps_dual (cam_ps c2) = Some du" using d by (simp_all add: c1_def c2_def)
  then have t: "same_pipe c (set_dual du1 c1)" "same_pipe c (set_dual (du1\<lparr>du_video := v\<rparr>) c2)"
    by (auto intro!: same_pipe_trans [OF s1 set_dual_same] same_pipe_trans [OF s2 set_dual_same] simp: same_dual_def du1_def)
  have "c' = c \<or> c' = set_dual du1 c1 \<or> c' = set_dual (du1\<lparr>du_video := v\<rparr>) c2"
    using assms(2) unfolding dual_output_def 1 prod.case 2 Let_def c1_def [symmetric] du1_def [symmetric] 3 c2_def [symmetric]
    by (auto split: if_splits)
  then show ?thesis using t d by (auto simp: same_dual_def du1_def same_pipe_def)
qed

lemma thread_start_ok:
  assumes "control_ok c" and "ps_dual (cam_ps c) = Some du0" and "same_dual du0 du"
  shows "control_ok (dual_rec_thread_start du c)"
proof -
  obtain rc c1 where 1: "cam_call (Program ''pthread_create dual_rec_thread_fn'') c = (rc, c1)" by (metis surj_pair)
  have k: "control_ok c1" using control_ok_call [OF assms(1) 1] by simp
  have d: "ps_dual (cam_ps c1) = Some du0" using cam_call_same [OF 1] assms(2) by simp
  have "same_pipe c1 (set_dual (if rc \<noteq> 0 then du else du\<lparr>du_rec_started := True\<rparr>) c1)"
    by (rule set_dual_same [OF d]) (use assms(3) in \<open>simp add: same_dual_def\<close>)
  then show ?thesis using control_ok_same [OF k] by (simp add: dual_rec_thread_start_def 1)
qed

lemma venc_start_refused:
  assumes "star6e_pipeline_start_venc w h b f g c m l chn d = (rc, d')" and "refused d"
  shows "refused d'"
proof -
  have lost: "refused x \<Longrightarrow> refused (snd (star6e_controls_apply_frame_lost_threshold c e k x))" for c e k x
    by (auto simp: star6e_controls_apply_frame_lost_threshold_def Let_def split: prod.splits dest: refused_call)
  have do1: "refused x \<Longrightarrow> refused (mi_do op x)" for op x
    using refused_call [of op x] by (cases "mi_call op x") (auto simp: mi_do_def)
  show ?thesis using assms
    by (auto simp: star6e_pipeline_start_venc_def Let_def split: prod.splits if_splits intro!: lost do1 dest: refused_call)
qed

lemma start_dual_refused:
  assumes "star6e_pipeline_start_dual env b f0 g m s l st w = (rc, st', w')" and "refused (pw_mi w)"
  shows "refused (pw_mi w')"
proof -
  define mf where "mf = res_max_fps (sr_mode (ps_sensor st))"
  define sf where "sf = (if mf = 0 then 30 else mf)"
  define f where "f = (if f0 = 0 then sf else if f0 > sf then sf else f0)"
  define rate where "rate = (if b = 0 then 8000 else b)"
  obtain r1 w1 where 1: "pw_with (star6e_pipeline_start_venc (ps_image_width st) (ps_image_height st) rate f (dual_gop (pe_rnd env) g f)
      PT_H265 3 l 1) w = (r1, w1)" by (metis surj_pair)
  have 11: "refused (pw_mi w1)" using 1 assms(2) by (auto simp: pw_with_def dest: venc_start_refused split: prod.splits)
  obtain r2 w2 where 2: "pw_call (VencDevid 1) w1 = (r2, w2)" by (metis surj_pair)
  have 22: "refused (pw_mi w2)" using 2 11 by (auto simp: pw_call_def dest: refused_call split: prod.splits)
  define port where "port = (VENC, if r2 = 0 then pe_devid env else 0, 1 :: int)"
  obtain r3 w3 where 3: "pw_call (SysBind vpe_port port sf f) w2 = (r3, w3)" by (metis surj_pair)
  have 33: "refused (pw_mi w3)" using 3 22 by (auto simp: pw_call_def dest: refused_call split: prod.splits)
  have "w' = w1 \<or> w' = pw_undo (star6e_pipeline_stop_venc 1) w3 \<or> w' = pw_dos [SysDepth port 8 56] w3"
    using assms(1) unfolding star6e_pipeline_start_dual_def Let_def mf_def [symmetric] sf_def [symmetric] f_def [symmetric]
      rate_def [symmetric] 1 prod.case 2 port_def [symmetric] 3 by (auto split: if_splits)
  then show ?thesis using 11 refused_dos [OF 33] by (auto simp: star6e_pipeline_stop_venc_def simp del: dos_simps)
qed

lemma control_ok_dual:
  assumes "control_ok c" and "ps_dual (cam_ps c) = None"
  shows "control_ok (dual_up_and_running env cfg c)"
proof -
  define rc where "rc = c_record cfg"
  define stream where "stream = (rec_mode rc = ''dual-stream'')"
  obtain r c1 where 1: "with_pipe (star6e_pipeline_start_dual env (rec_bitrate rc) (rec_fps rc) (rec_gop_size rc) (rec_mode rc)
      (rec_server rc) (vid_frame_lost (c_video0 cfg))) c = (r, c1)" by (metis surj_pair)
  then obtain st w where w: "star6e_pipeline_start_dual env (rec_bitrate rc) (rec_fps rc) (rec_gop_size rc) (rec_mode rc)
      (rec_server rc) (vid_frame_lost (c_video0 cfg)) (cam_ps c) (cam_world c) = (r, st, w)" "c1 = c\<lparr>cam_ps := st, cam_world := w\<rparr>"
    by (elim with_pipeE)
  have sv: "serving (cam_ps c) (cam_world c)" using assms(1) by (simp add: control_ok_def)
  note o = start_dual_serving [OF sv assms(2) w(1)]
  have port: "ps_venc_port st = ps_venc_port (cam_ps c)"
    using w(1) by (auto simp: star6e_pipeline_start_dual_def Let_def split: prod.splits if_splits)
  have "running st w \<or> refused (pw_mi w)"
  proof (cases "bind_refused c")
    case True
    then show ?thesis using start_dual_refused [OF w(1)] by simp
  next
    case False
    then have "running (cam_ps c) (cam_world c)" using assms(1) by (simp add: control_ok_def)
    then show ?thesis using o port running_binding by auto
  qed
  then have k1: "control_ok c1" using o assms(1) port by (simp add: control_ok_def w(2))
  define c2 where "c2 = (case ps_dual (cam_ps c1) of None \<Rightarrow> c1
      | Some du \<Rightarrow> if stream \<and> du_server du \<noteq> '''' then dual_output env cfg du c1 else c1)"
  have k2: "control_ok c2"
    using k1 dual_output_same [OF _ refl] control_ok_same by (auto simp: c2_def split: option.splits)
  show ?thesis
    unfolding dual_up_and_running_def Let_def rc_def [symmetric] stream_def [symmetric] 1 snd_conv c2_def [symmetric]
    using k2 by (cases "ps_dual (cam_ps c2)") (auto intro!: thread_start_ok simp: same_dual_def)
qed

lemma configured_dual: "ps_dual (cam_ps (configured_controls fl cfg c)) = ps_dual (cam_ps c)"
  using steady_configured [of c fl cfg] by (auto simp: steady_def)

lemma startup_ok:
  assumes "star6e_runtime_apply_startup_controls re env r = (rc, r')" and "rn_started r"
    and "running (rn_ps r) (cam_world (rn_cam r))" and "ps_dual (rn_ps r) = None"
  shows "rc = 0 \<and> rn_started r' \<and> control_ok (rn_cam r')"
proof -
  define cfg where "cfg = rn_cfg r"
  define r1 where "r1 = (do_cam star6e_controls_bind r)\<lparr>rn_scene := scene_init (vid_scene_threshold (c_video0 cfg)) (vid_scene_holdoff (c_video0 cfg))\<rparr>"
  define r2 where "r2 = recorders_init cfg (do_cam (configured_controls (re_fl re) cfg) r1)"
  define r3 where "r3 = start_second_channel env r2"
  have k1: "control_ok (rn_cam r1)" "rn_started r1" "ps_dual (rn_ps r1) = None"
    using assms control_ok_bind by (simp_all add: r1_def star6e_controls_bind_def Let_def)
  have k2: "control_ok (rn_cam r2)" "rn_started r2" "ps_dual (rn_ps r2) = None"
    using k1 by (simp_all add: r2_def control_ok_configured configured_dual)
  have k3: "control_ok (rn_cam r3)" "rn_started r3"
    using k2 control_ok_dual [OF k2(1,3)]
    by (auto simp: r3_def start_second_channel_def Let_def venc_api_dual_register_def split: option.splits)
  have "rc = 0" "r' = r3 \<or> r' = start_recording (rec_dir (c_record cfg)) r3"
    using assms(1) unfolding star6e_runtime_apply_startup_controls_def Let_def cfg_def [symmetric] r1_def [symmetric]
      r2_def [symmetric] r3_def [symmetric] by (auto split: if_splits)
  then show ?thesis using k3 by auto
qed

lemma on_cam_neutral:
  assumes "on_cam (cam_call op) r = (rc, r')" and "takes op = None" and "brings op = None"
  shows "cups (rn_cam r') = cups (rn_cam r)" and "rn_started r' = rn_started r"
  using assms by (auto elim!: on_camE simp: cam_call_neutral)

lemma init_outcome:
  assumes "star6e_runner_init re env r = (rc, r')" and "\<not> rn_started r" and "cups (rn_cam r) = {}"
  shows "if rc = 0 then rn_started r' \<and> control_ok (rn_cam r')
    else \<not> rn_started r' \<and> (cups (rn_cam r') = {} \<or> (\<exists>p. cups (rn_cam r') = {SensorOn p}))"
proof -
  obtain r1 s1 where 1: "on_cam (cam_call (Program ''star6e_mi_init'')) r = (r1, s1)" by (metis surj_pair)
  have k1: "cups (rn_cam s1) = {}" "\<not> rn_started s1" using on_cam_neutral [OF 1] assms by simp_all
  obtain r2 s2 where 2: "on_cam (cam_call (Program ''MI_SYS_Init'')) s1 = (r2, s2)" by (metis surj_pair)
  have k2: "cups (rn_cam s2) = {}" "\<not> rn_started s2" using on_cam_neutral [OF 2] k1 by simp_all
  define s3 where "s3 = (do_cam (cam_dos [Program ''venc_httpd_start'']) (s2\<lparr>rn_system := True\<rparr>))\<lparr>rn_httpd := True\<rparr>"
  have k3: "cups (rn_cam s3) = {}" "\<not> rn_started s3" using k2 by (simp_all add: s3_def do_neutral)
  obtain r3 s4 where 4: "on_cam (with_pipe (star6e_pipeline_start env (rn_cfg s3))) s3 = (r3, s4)" by (metis surj_pair)
  obtain c where c: "with_pipe (star6e_pipeline_start env (rn_cfg s3)) (rn_cam s3) = (r3, c)" "s4 = set_cam c s3" using 4 by (elim on_camE)
  obtain st w where w: "star6e_pipeline_start env (rn_cfg s3) (rn_ps s3) (cam_world (rn_cam s3)) = (r3, st, w)"
    "c = (rn_cam s3)\<lparr>cam_ps := st, cam_world := w\<rparr>" using c(1) by (elim with_pipeE)
  note o = start_outcome [OF w(1) k3(1)]
  note steps = assms(1) [unfolded star6e_runner_init_def 1 prod.case 2 Let_def s3_def [symmetric] 4]
  consider "r1 \<noteq> 0" | "r1 = 0" "r2 \<noteq> 0" | "r1 = 0" "r2 = 0" "r3 \<noteq> 0" | "r1 = 0" "r2 = 0" "r3 = 0" by blast
  then show ?thesis
  proof cases
    case 1
    then show ?thesis using steps k1 by simp
  next
    case 2
    then show ?thesis using steps k2 by (auto simp: do_neutral)
  next
    case 3
    then have "rc = r3" "r' = s4" using steps by simp_all
    then show ?thesis using 3 o c(2) w(2) k3(2) by (auto simp: sensor_failed_def)
  next
    case 4
    then have s: "star6e_runtime_apply_startup_controls re env (s4\<lparr>rn_started := True\<rparr>) = (rc, r')" using steps by simp
    have "running (rn_ps s4) (cam_world (rn_cam s4))" "ps_dual (rn_ps s4) = None" using o 4 c(2) w(2) by simp_all
    then show ?thesis using startup_ok [OF s] by simp
  qed
qed

lemma teardown_outcome:
  assumes "star6e_runner_teardown r = r'"
  shows "\<not> rn_started r' \<and> \<not> rn_httpd r' \<and> \<not> rn_system r' \<and> rr_fd (rn_rec r') < 0 \<and> tr_fd (rn_ts r') < 0"
    and "in_service r \<Longrightarrow> cups (rn_cam r') = {}"
    and "\<not> rn_started r \<Longrightarrow> cups (rn_cam r') = cups (rn_cam r)"
proof -
  define r1 where "r1 = do_cam star6e_cus3a_request_stop r"
  define r1a where "r1a = do_cam (\<lambda>c. star6e_controls_reset (cam_dos [Program ''star6e_iq_cleanup''] c)) r1"
  obtain u s2 where p: "on_cam (with_pipe (\<lambda>st w. ((), star6e_pipeline_stop st w))) r1a = (u, s2)" by (metis surj_pair)
  define r2 where "r2 = (if rn_started r1 then s2\<lparr>rn_started := False\<rparr> else r1)"
  define r3 where "r3 = stop_recorders (do_cam star6e_cus3a_join r2)"
  define r4 where "r4 = (if rn_httpd r3 then (do_cam (cam_dos [Program ''venc_httpd_stop'']) r3)\<lparr>rn_httpd := False\<rparr> else r3)"
  define r5 where "r5 = (if rn_system r4 then (do_cam (cam_dos [Program ''MI_SYS_Exit'', Program ''vpe_scl_preset_shutdown'']) r4)\<lparr>rn_system := False\<rparr> else r4)"
  have r': "r' = do_cam (cam_dos [Program ''star6e_mi_deinit'']) r5"
    using assms unfolding star6e_runner_teardown_def Let_def r1_def [symmetric] r1a_def [symmetric] p snd_conv r2_def [symmetric]
      r3_def [symmetric] r4_def [symmetric] r5_def [symmetric] by simp
  have rec: "rr_fd (rn_rec (stop_recorders x)) < 0" "tr_fd (rn_ts (stop_recorders x)) < 0" for x
    by (auto simp: stop_recorders_def star6e_recorder_stop_def star6e_ts_recorder_stop_def rr_stop_with_reason_def ts_stop_with_reason_def
        split: prod.splits if_splits)
  have keep: "rn_rec r' = rn_rec r3" "rn_ts r' = rn_ts r3" "rn_started r' = rn_started r2" "cups (rn_cam r') = cups (rn_cam r2)"
    by (simp_all add: r' r5_def r4_def r3_def star6e_cus3a_join_def do_neutral)
  have "\<not> rn_httpd r'" "\<not> rn_system r'" by (simp_all add: r' r5_def r4_def)
  moreover have "\<not> rn_started r2" by (simp add: r2_def)
  ultimately show "\<not> rn_started r' \<and> \<not> rn_httpd r' \<and> \<not> rn_system r' \<and> rr_fd (rn_rec r') < 0 \<and> tr_fd (rn_ts r') < 0"
    using keep rec by (simp add: r3_def)
  show "\<not> rn_started r \<Longrightarrow> cups (rn_cam r') = cups (rn_cam r)"
    using keep by (simp add: r2_def r1_def star6e_cus3a_request_stop_def)
  assume i: "in_service r"
  obtain c where c: "with_pipe (\<lambda>st w. ((), star6e_pipeline_stop st w)) (rn_cam r1a) = (u, c)" "s2 = set_cam c r1a" using p by (elim on_camE)
  obtain st w where w: "star6e_pipeline_stop (rn_ps r1a) (cam_world (rn_cam r1a)) = (st, w)" "c = (rn_cam r1a)\<lparr>cam_ps := st, cam_world := w\<rparr>"
    using c(1) by (elim with_pipeE) auto
  have "serving (rn_ps r1a) (cam_world (rn_cam r1a))"
    using i by (simp add: in_service_def r1a_def r1_def star6e_controls_reset_def star6e_cus3a_request_stop_def serving_def do_neutral)
  from stop_outcome [OF this w(1)] have "cups (rn_cam s2) = {}" by (simp add: c(2) w(2))
  moreover have "rn_started r1" using i by (simp add: in_service_def r1_def)
  ultimately show "cups (rn_cam r') = {}" using keep by (simp add: r2_def)
qed

lemma backend_outcome:
  assumes "backend_run_pipeline re env tns r = (rc, r')" and "\<not> rn_started r" and "cups (rn_cam r) = {}"
  shows "(\<not> rn_started r' \<and> \<not> rn_httpd r' \<and> \<not> rn_system r' \<and> rr_fd (rn_rec r') < 0 \<and> tr_fd (rn_ts r') < 0)
    \<and> (cups (rn_cam r') = {} \<or> rc \<noteq> 0 \<and> (\<exists>p. SensorOn p \<in> cups (rn_cam r') \<and> cups (rn_cam r') \<subseteq> front_end p))"
proof -
  obtain r1 s1 where 1: "star6e_runner_init re env r = (r1, s1)" by (metis surj_pair)
  note i = init_outcome [OF 1 assms(2,3)]
  obtain r2 s2 where 2: "star6e_runner_run re tns s1 = (r2, s2)" by (metis surj_pair)
  show ?thesis
  proof (cases "r1 = 0")
    case False
    then have e: "rc = r1" "star6e_runner_teardown s1 = r'" using assms(1) by (simp_all add: backend_run_pipeline_def 1)
    have "cups (rn_cam s1) = {} \<or> (\<exists>p. SensorOn p \<in> cups (rn_cam s1) \<and> cups (rn_cam s1) \<subseteq> front_end p)"
      using i False by (auto simp: front_end_def)
    then show ?thesis using teardown_outcome [OF e(2)] i False e(1) by auto
  next
    case True
    then have e: "rc = r2" "star6e_runner_teardown s2 = r'" using assms(1) by (simp_all add: backend_run_pipeline_def 1 2)
    have "in_service s2 \<or> r2 \<noteq> 0 \<and> front_left s2" using run_outcome [OF 2] i True by simp
    then show ?thesis using teardown_outcome [OF e(2)] e(1) by (auto simp: front_left_def)
  qed
qed

end
