(* ===== verification/RoiBands.thy ===== *)
theory RoiBands imports Star6eControls begin

text \<open>
  The bands of interest: with a rounding that is monotone, exact on small whole numbers and close
  everywhere, they are aligned, lie in the frame around its middle and one in the other.
\<close>

text \<open>What single precision promises.\<close>

definition rounds :: "(rat \<Rightarrow> rat) \<Rightarrow> bool" where
  "rounds fl \<longleftrightarrow> mono fl \<and> (\<forall>n \<le> 2 ^ 24. fl (of_nat n) = of_nat n) \<and> (\<forall>x \<ge> 0. \<bar>fl x - x\<bar> \<le> x / 2 ^ 20)"

lemma rounds_id: "rounds id"
  by (auto simp: rounds_def mono_def)

lemma rounds_mono: "rounds fl \<Longrightarrow> x \<le> y \<Longrightarrow> fl x \<le> fl y"
  by (simp add: rounds_def monoD)

lemma rounds_nat: "rounds fl \<Longrightarrow> n \<le> 2 ^ 24 \<Longrightarrow> fl (of_nat n) = of_nat n"
  by (simp add: rounds_def)

lemma rounds_one: "rounds fl \<Longrightarrow> fl 1 = 1" "rounds fl \<Longrightarrow> fl 0 = 0"
  using rounds_nat [of fl 1] rounds_nat [of fl 0] by simp_all

lemma rounds_pos: "rounds fl \<Longrightarrow> 0 \<le> x \<Longrightarrow> 0 \<le> fl x"
  using rounds_mono [of fl 0 x] rounds_one(2) [of fl] by simp

lemma rounds_up: "rounds fl \<Longrightarrow> 0 \<le> x \<Longrightarrow> fl x \<le> x * (1 + 1 / 2 ^ 20)"
proof -
  assume "rounds fl" and "0 \<le> x"
  then have "\<bar>fl x - x\<bar> \<le> x / 2 ^ 20" by (simp add: rounds_def)
  then have "fl x - x \<le> x / 2 ^ 20" by (rule abs_le_D1)
  then show ?thesis by (simp add: field_simps)
qed

subsection \<open>The fractions\<close>

definition in_range :: "(rat \<Rightarrow> rat) \<Rightarrow> rat \<Rightarrow> bool" where
  "in_range fl c \<longleftrightarrow> fl (1 / 10) \<le> c \<and> c \<le> fl (9 / 10)"

lemma roi_center_range: "rounds fl \<Longrightarrow> c \<noteq> NaN \<Longrightarrow> \<exists>x. roi_center fl c = Some x \<and> in_range fl x"
  using rounds_mono [of fl "1/10" "9/10"] by (cases c) (auto simp: in_range_def roi_center_def Let_def not_less)

lemma in_range_bounds:
  assumes "rounds fl" and "in_range fl c"
  shows "0 \<le> c" and "c \<le> 1"
  using rounds_pos [OF assms(1), of "1/10"] rounds_mono [OF assms(1), of "9/10" 1] rounds_one [OF assms(1)] assms(2)
  by (auto simp: in_range_def)

lemma frac_bounds:
  assumes fl: "rounds fl" and c: "in_range fl c" and l: "0 < l" "l \<le> n" "n \<le> 4"
  shows "0 \<le> roi_frac fl c n l" and "roi_frac fl c n l \<le> 1"
proof -
  note cb = in_range_bounds [OF fl c]
  define e :: rat where "e = 1 + 1 / 2 ^ 20"
  define a where "a = fl (1 - c)"
  define b where "b = fl (a * of_nat (n - l))"
  define d where "d = fl (b / of_nat n)"
  have n: "0 < (of_nat n :: rat)" using l by simp
  have e: "0 \<le> e" "e * e * e \<le> 4 / 3" by (simp_all add: e_def)
  have a: "0 \<le> a" "a \<le> (1 - c) * e" using rounds_pos [OF fl, of "1 - c"] rounds_up [OF fl, of "1 - c"] cb by (simp_all add: a_def e_def)
  have b: "0 \<le> b" "b \<le> a * of_nat (n - l) * e"
    using rounds_pos [OF fl, of "a * of_nat (n - l)"] rounds_up [OF fl, of "a * of_nat (n - l)"] a by (simp_all add: b_def e_def)
  have d: "0 \<le> d" "d \<le> b / of_nat n * e"
    using rounds_pos [OF fl, of "b / of_nat n"] rounds_up [OF fl, of "b / of_nat n"] b by (simp_all add: d_def e_def)
  have k: "of_nat (n - l) / of_nat n \<le> (3 / 4 :: rat)"
    using l n by (simp add: field_simps of_nat_diff)
  have "d \<le> a * of_nat (n - l) * e / of_nat n * e"
    using d b e n by (meson divide_right_mono less_imp_le mult_right_mono order_trans)
  also have "\<dots> = a * (of_nat (n - l) / of_nat n) * (e * e)" by simp
  also have "\<dots> \<le> (1 - c) * e * (of_nat (n - l) / of_nat n) * (e * e)"
    using a e n by (intro mult_right_mono) simp_all
  also have "\<dots> = (1 - c) * ((of_nat (n - l) / of_nat n) * (e * e * e))" by simp
  also have "\<dots> \<le> (1 - c) * (3 / 4 * (4 / 3))"
    using cb e k n by (intro mult_left_mono mult_mono) simp_all
  finally have "c + d \<le> 1" by simp
  then have "fl (c + d) \<le> 1" using rounds_mono [OF fl] rounds_one [OF fl] by fastforce
  then show "roi_frac fl c n l \<le> 1" by (simp add: roi_frac_def a_def b_def d_def)
  have "0 \<le> fl (c + d)" using rounds_pos [OF fl] cb d by simp
  then show "0 \<le> roi_frac fl c n l" by (simp add: roi_frac_def a_def b_def d_def)
qed

lemma frac_mono:
  assumes fl: "rounds fl" and c: "in_range fl c" and "l \<le> l'"
  shows "roi_frac fl c n l' \<le> roi_frac fl c n l"
proof -
  have a: "0 \<le> fl (1 - c)" using rounds_pos [OF fl] in_range_bounds [OF fl c] by simp
  have "fl (1 - c) * of_nat (n - l') \<le> fl (1 - c) * of_nat (n - l)" using a assms(3) by (intro mult_left_mono) simp_all
  from rounds_mono [OF fl this] show ?thesis
    unfolding roi_frac_def by (intro rounds_mono [OF fl, of "c + _"] rounds_mono [OF fl, of "_ / _"] add_left_mono divide_right_mono) simp_all
qed

subsection \<open>The widths\<close>

definition raw_width :: "(rat \<Rightarrow> rat) \<Rightarrow> u32 \<Rightarrow> rat \<Rightarrow> nat \<Rightarrow> nat \<Rightarrow> nat" where
  "raw_width fl w c n l = nat \<lfloor>fl (roi_frac fl c n l * fl (of_nat (unat w)))\<rfloor>"

lemma raw_width_le:
  assumes fl: "rounds fl" and c: "in_range fl c" and l: "0 < l" "l \<le> n" "n \<le> 4" and w: "unat w \<le> 2 ^ 24"
  shows "raw_width fl w c n l \<le> unat w"
    and "unat (rat_to_u32 (fl (roi_frac fl c n l * fl (of_nat (unat w))))) = raw_width fl w c n l"
proof -
  note f = frac_bounds [OF fl c l]
  define x where "x = fl (roi_frac fl c n l * fl (of_nat (unat w)))"
  have "roi_frac fl c n l * of_nat (unat w) \<le> of_nat (unat w)" using f by (intro mult_left_le_one_le) (simp_all del: of_nat_unat)
  from rounds_mono [OF fl this] have x: "x \<le> of_nat (unat w)" unfolding x_def rounds_nat [OF fl w] .
  have x0: "0 \<le> x" unfolding x_def using f by (intro rounds_pos [OF fl] mult_nonneg_nonneg) (simp_all add: rounds_nat [OF fl w] del: of_nat_unat)
  have i: "0 \<le> \<lfloor>x\<rfloor>" "\<lfloor>x\<rfloor> \<le> int (unat w)" using x x0 by (simp_all add: floor_le_iff)
  then show r: "raw_width fl w c n l \<le> unat w"
    unfolding raw_width_def x_def [symmetric] using nat_mono [OF i(2)] by (simp only: nat_int)
  have "int (unat w) \<le> 2 ^ 24" using w by (metis of_nat_le_iff of_nat_numeral of_nat_power)
  then have "\<lfloor>x\<rfloor> \<le> 2 ^ 24" by (rule order_trans [OF i(2)])
  then have "\<lfloor>x\<rfloor> < 2 ^ 32" by (rule le_less_trans) simp
  then have "unat (word_of_int \<lfloor>x\<rfloor> :: u32) = nat \<lfloor>x\<rfloor>" using i(1) unfolding unat_eq_nat_uint uint_word_of_int_eq by (simp add: take_bit_int_eq_self)
  then show "unat (rat_to_u32 (fl (roi_frac fl c n l * fl (of_nat (unat w))))) = raw_width fl w c n l"
    by (simp add: rat_to_u32_def raw_width_def x_def)
qed

lemma raw_width_mono:
  assumes fl: "rounds fl" and "in_range fl c" and "l \<le> l'" and w: "unat w \<le> 2 ^ 24"
  shows "raw_width fl w c n l' \<le> raw_width fl w c n l"
  unfolding raw_width_def rounds_nat [OF fl w]
  by (intro nat_mono floor_mono rounds_mono [OF fl] mult_right_mono frac_mono [OF assms(1-3)]) (simp del: of_nat_unat)

lemma unat_align: "unat (align_down v 32) = unat v div 32 * 32"
proof -
  have "unat v div 32 * 32 \<le> unat v" by simp
  then have "unat v div 32 * 32 < 2 ^ LENGTH(32)" using unsigned_less [of v] by (meson le_less_trans)
  then show ?thesis unfolding align_down_def by (simp add: unat_mult_lem [symmetric] unat_div unat_word_ariths)
qed

subsection \<open>The bands\<close>

text \<open>A band in the middle of a frame, aligned to the encoder's blocks.\<close>

definition band_ok :: "u32 \<Rightarrow> u32 \<Rightarrow> roi_cfg \<Rightarrow> bool" where
  "band_ok w h r \<longleftrightarrow> 32 dvd unat (roi_left r) \<and> 32 dvd unat (roi_width r) \<and> 0 < unat (roi_width r)
     \<and> unat (roi_left r) + unat (roi_width r) \<le> unat w
     \<and> (let rest = unat w - unat (roi_width r) in unat (roi_left r) \<le> rest div 2 \<and> rest div 2 < unat (roi_left r) + 32)
     \<and> unat (roi_height r) = unat h div 32 * 32 \<and> 0 < unat (roi_height r)"

lemma horizontal_roi:
  assumes fl: "rounds fl" and c: "in_range fl c" and n: "i < n" "n \<le> 4" and w: "unat w \<le> 2 ^ 24"
  defines "rw \<equiv> raw_width fl w c n (i + 1) div 32 * 32"
  shows "compute_horizontal_roi \<lparr>fu_round = fl, fu_nan_u32 = z\<rparr> w h (Some c) qp n i =
    (if rw = 0 \<or> unat h < 32 then None
     else Some \<lparr>roi_index = i, roi_enable = True, roi_qp = pipeline_common_scale_roi_qp qp (int (i + 1)) (int n),
       roi_left = of_nat ((unat w - rw) div 2 div 32 * 32), roi_width = of_nat rw, roi_height = of_nat (unat h div 32 * 32)\<rparr>)"
    and "rw \<le> unat w"
proof -
  have l: "0 < i + 1" "i + 1 \<le> n" "n \<le> 4" using n by simp_all
  note r = raw_width_le [OF fl c l w]
  define v where "v = align_down (rat_to_u32 (fl (roi_frac fl c n (i + 1) * fl (of_nat (unat w))))) 32"
  have v: "unat v = rw" by (simp only: v_def unat_align r rw_def)
  show le: "rw \<le> unat w" using r(1) by (simp add: rw_def)
  then have sub: "unat (w - v) = unat w - rw" using v by (simp add: unat_sub word_le_nat_alt)
  have x: "unat (align_down ((w - v) div 2) 32) = (unat w - rw) div 2 div 32 * 32"
    by (simp only: unat_align unat_div sub) simp
  have w0: "a = (of_nat m :: u32)" if "unat a = m" for a m using that by auto
  have z: "v = 0 \<longleftrightarrow> rw = 0" "align_down h 32 = 0 \<longleftrightarrow> unat h < 32"
    using v unat_align [of h] by (auto simp: unat_eq_0 [symmetric] simp del: unat_eq_0 unsigned_eq_0_iff)
  show "compute_horizontal_roi \<lparr>fu_round = fl, fu_nan_u32 = z\<rparr> w h (Some c) qp n i =
    (if rw = 0 \<or> unat h < 32 then None
     else Some \<lparr>roi_index = i, roi_enable = True, roi_qp = pipeline_common_scale_roi_qp qp (int (i + 1)) (int n),
       roi_left = of_nat ((unat w - rw) div 2 div 32 * 32), roi_width = of_nat rw, roi_height = of_nat (unat h div 32 * 32)\<rparr>)"
    using n(1) unfolding compute_horizontal_roi_def Let_def roi_raw_width.simps float_unit.simps v_def [symmetric] z
      w0 [OF v, symmetric] w0 [OF x, symmetric] w0 [OF unat_align [of h], symmetric] by simp
qed

text \<open>The bands as numbers: what the words of the definition mean.\<close>

lemma horizontal_roi_nat:
  assumes fl: "rounds fl" and c: "in_range fl c" and n: "i < n" "n \<le> 4" and w: "unat w \<le> 2 ^ 24"
    and r: "compute_horizontal_roi \<lparr>fu_round = fl, fu_nan_u32 = z\<rparr> w h (Some c) qp n i = Some r"
  defines "rw \<equiv> raw_width fl w c n (i + 1) div 32 * 32"
  shows "unat (roi_width r) = rw" and "unat (roi_left r) = (unat w - rw) div 2 div 32 * 32"
    and "unat (roi_height r) = unat h div 32 * 32" and "0 < rw" and "32 \<le> unat h" and "rw \<le> unat w"
    and "roi_index r = i" and "roi_qp r = pipeline_common_scale_roi_qp qp (int (i + 1)) (int n)"
proof -
  note h = horizontal_roi(1) [OF fl c n w, of z h qp, folded rw_def] horizontal_roi(2) [OF fl c n w, folded rw_def]
  have small: "unat (of_nat m :: u32) = m" if "m \<le> unat v" for m and v :: u32
    by (rule of_nat_inverse [OF refl]) (rule le_less_trans [OF that unsigned_less])
  show "rw \<le> unat w" by (rule h(2))
  show "0 < rw" "32 \<le> unat h" "roi_index r = i" "roi_qp r = pipeline_common_scale_roi_qp qp (int (i + 1)) (int n)"
    using r h(1) by (auto split: if_splits)
  have e: "roi_width r = of_nat rw" "roi_left r = of_nat ((unat w - rw) div 2 div 32 * 32)" "roi_height r = of_nat (unat h div 32 * 32)"
    using r h(1) by (auto split: if_splits)
  show "unat (roi_width r) = rw" unfolding e by (rule small [OF h(2)])
  have "(unat w - rw) div 2 div 32 * 32 \<le> unat w" by (rule order_trans [OF div_times_less_eq_dividend]) simp
  then show "unat (roi_left r) = (unat w - rw) div 2 div 32 * 32" unfolding e by (rule small)
  show "unat (roi_height r) = unat h div 32 * 32" unfolding e by (rule small [of _ h]) simp
qed

lemma band_ok_nat:
  fixes W A :: nat
  assumes "A * 32 \<le> W"
  shows "(W - A * 32) div 2 div 32 * 32 + A * 32 \<le> W"
    and "(W - A * 32) div 2 div 32 * 32 \<le> (W - A * 32) div 2" and "(W - A * 32) div 2 < (W - A * 32) div 2 div 32 * 32 + 32"
  using assms by linarith+

lemma nested_nat:
  fixes W A B :: nat
  assumes "A * 32 \<le> W" and "B \<le> A"
  shows "(W - A * 32) div 2 div 32 * 32 \<le> (W - B * 32) div 2 div 32 * 32"
    and "(W - B * 32) div 2 div 32 * 32 + B * 32 \<le> (W - A * 32) div 2 div 32 * 32 + A * 32"
proof -
  show "(W - A * 32) div 2 div 32 * 32 \<le> (W - B * 32) div 2 div 32 * 32"
    using assms by (intro mult_right_mono div_le_mono diff_le_mono2) simp_all
  define R where "R = W - A * 32"
  have "W - B * 32 = R + (A - B) * 32" using assms by (simp add: R_def diff_mult_distrib)
  then have "(W - B * 32) div 2 div 32 = (R + (A - B) * 32) div 64" by (simp only: div_mult2_eq [symmetric]) simp
  also have "\<dots> \<le> (R + (A - B) * 64) div 64" by (intro div_le_mono) simp
  also have "\<dots> = R div 2 div 32 + (A - B)" by (simp only: div_mult2_eq [symmetric]) simp
  finally have "(W - B * 32) div 2 div 32 + B \<le> R div 2 div 32 + A" using assms(2) by linarith
  then have "((W - B * 32) div 2 div 32 + B) * 32 \<le> (R div 2 div 32 + A) * 32" by simp
  then show "(W - B * 32) div 2 div 32 * 32 + B * 32 \<le> (W - A * 32) div 2 div 32 * 32 + A * 32"
    by (simp only: R_def add_mult_distrib)
qed

lemma band_ok_roi:
  assumes fl: "rounds fl" and c: "in_range fl c" and n: "i < n" "n \<le> 4" and w: "unat w \<le> 2 ^ 24"
    and r: "compute_horizontal_roi \<lparr>fu_round = fl, fu_nan_u32 = z\<rparr> w h (Some c) qp n i = Some r"
  shows "band_ok w h r"
proof -
  note f = horizontal_roi_nat [OF assms]
  have "0 < unat h div 32" using f(5) by simp
  then show ?thesis using f(4) band_ok_nat [OF f(6)] unfolding band_ok_def Let_def f(1-3) by simp
qed

lemma roi_nested:
  assumes fl: "rounds fl" and c: "in_range fl c" and n: "i \<le> j" "j < n" "n \<le> 4" and w: "unat w \<le> 2 ^ 24"
    and r: "compute_horizontal_roi \<lparr>fu_round = fl, fu_nan_u32 = z\<rparr> w h (Some c) qp n i = Some r" "compute_horizontal_roi \<lparr>fu_round = fl, fu_nan_u32 = z\<rparr> w h (Some c) qp n j = Some r'"
  shows "unat (roi_left r) \<le> unat (roi_left r') \<and> unat (roi_left r') + unat (roi_width r') \<le> unat (roi_left r) + unat (roi_width r)"
proof -
  have i: "i < n" using n by simp
  note f = horizontal_roi_nat [OF fl c i n(3) w r(1)] and g = horizontal_roi_nat [OF fl c n(2,3) w r(2)]
  have "raw_width fl w c n (j + 1) div 32 \<le> raw_width fl w c n (i + 1) div 32"
    using n by (intro div_le_mono raw_width_mono [OF fl c _ w]) simp
  from nested_nat [OF f(6) this] show ?thesis unfolding f(1,2) g(1,2) by simp
qed

subsection \<open>The call\<close>

text \<open>The bands a sequence of driver calls switches on, in order.\<close>

fun band_of :: "mi_op \<times> int \<Rightarrow> roi_cfg option" where
  "band_of (VencRoi c r, x) = (if roi_enable r then Some r else None)"
| "band_of _ = None"

fun bands :: "(mi_op \<times> int) list \<Rightarrow> roi_cfg list" where
  "bands [] = []"
| "bands (e # l) = (case band_of e of None \<Rightarrow> bands l | Some r \<Rightarrow> r # bands l)"

fun somes :: "'a option list \<Rightarrow> 'a list" where
  "somes [] = []"
| "somes (None # xs) = somes xs"
| "somes (Some x # xs) = x # somes xs"

lemma somes_append: "somes (xs @ [x]) = somes xs @ (case x of None \<Rightarrow> [] | Some y \<Rightarrow> [y])"
  by (induction xs rule: somes.induct) (auto split: option.splits)

lemma set_somes: "r \<in> set (somes xs) \<longleftrightarrow> Some r \<in> set xs"
  by (induction xs rule: somes.induct) auto

definition inside :: "roi_cfg \<Rightarrow> roi_cfg \<Rightarrow> bool" where
  "inside r r' \<longleftrightarrow> unat (roi_left r) \<le> unat (roi_left r') \<and> unat (roi_left r') + unat (roi_width r') \<le> unat (roi_left r) + unat (roi_width r)
     \<and> \<bar>roi_qp r\<bar> \<le> \<bar>roi_qp r'\<bar>"

definition cam_log :: "camera \<Rightarrow> (mi_op \<times> int) list" where
  "cam_log s = md_log (pw_mi (cam_world s))"

lemma cam_call_log: "cam_call op s = (rc, s') \<Longrightarrow> cam_log s' = cam_log s @ [(op, rc)]"
  by (auto simp: cam_call_def pw_call_def cam_log_def mi_call_def split: prod.splits list.splits)

lemma cam_dos_log: "\<exists>xs. length xs = length ops \<and> cam_log (cam_dos ops s) = cam_log s @ zip ops xs"
proof -
  have "\<exists>xs. length xs = length ops \<and> md_log (mi_dos ops d) = md_log d @ zip ops xs" for d
  proof (induction ops arbitrary: d)
    case (Cons op ops)
    obtain r d1 where 1: "mi_call op d = (r, d1)" by (metis surj_pair)
    then have l: "md_log d1 = md_log d @ [(op, r)]" by (auto simp: mi_call_def split: list.splits)
    obtain xs where "length xs = length ops" "md_log (mi_dos ops d1) = md_log d1 @ zip ops xs" using Cons.IH by blast
    then have "length (r # xs) = length (op # ops) \<and> md_log (mi_dos (op # ops) d) = md_log d @ zip (op # ops) (r # xs)"
      using 1 l by (simp add: mi_do_def)
    then show ?case by blast
  qed simp
  from this [of "pw_mi (cam_world s)"] show ?thesis by (auto simp: cam_log_def cam_dos_def pw_dos_def)
qed

lemma bands_append [simp]: "bands (a @ b) = bands a @ bands b"
  by (induction a) (auto split: option.splits)

lemma bands_clear: "bands (zip (map (\<lambda>i. VencRoi chn (roi_clear i)) is) xs) = []"
  by (induction "is" xs rule: list_induct2') (simp_all add: roi_clear_def)

lemma set_rois_log:
  "set_rois chn rs s = (ok, s') \<Longrightarrow> \<forall>r \<in> set (somes rs). roi_enable r \<Longrightarrow>
    \<exists>new. cam_log s' = cam_log s @ new \<and> bands new = somes rs \<and> (ok \<longrightarrow> list_all (\<lambda>e. snd e = 0) new)"
proof (induction chn rs s arbitrary: ok s' rule: set_rois.induct)
  case (1 chn s)
  then show ?case by simp
next
  case (2 chn rs s)
  then show ?case by simp
next
  case (3 chn r rs s)
  obtain rc s1 where 1: "cam_call (VencRoi chn r) s = (rc, s1)" by (metis surj_pair)
  obtain ok1 s2 where 2: "set_rois chn rs s1 = (ok1, s2)" by (metis surj_pair)
  have en: "roi_enable r" "\<forall>r \<in> set (somes rs). roi_enable r" using "3.prems"(2) by simp_all
  obtain new where n: "cam_log s2 = cam_log s1 @ new" "bands new = somes rs" "ok1 \<longrightarrow> list_all (\<lambda>e. snd e = 0) new"
    using "3.IH" [OF 1 [symmetric] 2 en(2)] by blast
  have e: "ok = (rc = 0 \<and> ok1)" "s' = s2" using "3.prems"(1) by (auto simp: 1 2)
  have "cam_log s2 = cam_log s @ [(VencRoi chn r, rc)] @ new" using n(1) cam_call_log [OF 1] by simp
  moreover have "bands ([(VencRoi chn r, rc)] @ new) = somes (Some r # rs)" using n(2) en(1) by simp
  moreover have "ok \<longrightarrow> list_all (\<lambda>e. snd e = 0) ([(VencRoi chn r, rc)] @ new)" using n(3) e by simp
  ultimately show ?case unfolding e(2) by blast
qed

lemma somes_upt:
  assumes "\<And>i j r r'. i \<le> j \<Longrightarrow> j < n \<Longrightarrow> f i = Some r \<Longrightarrow> f j = Some r' \<Longrightarrow> R r r'"
  shows "sorted_wrt R (somes (map f [0..<n]))"
  using assms
proof (induction n)
  case (Suc n)
  have "R r r'" if r: "r \<in> set (somes (map f [0..<n]))" and f: "f n = Some r'" for r r'
  proof -
    obtain i where "i < n" "f i = Some r" using r by (auto simp: set_somes)
    then show ?thesis using Suc.prems [of i n] f by simp
  qed
  moreover have "sorted_wrt R (somes (map f [0..<n]))"
    by (rule Suc.IH) (blast intro: Suc.prems less_SucI)
  ultimately show ?case by (auto simp: somes_append sorted_wrt_append split: option.splits)
qed simp

lemma roi_qp_graded:
  assumes "i \<le> j" and "j < n"
  shows "\<bar>pipeline_common_scale_roi_qp qp (int (i + 1)) (int n)\<bar> \<le> \<bar>pipeline_common_scale_roi_qp qp (int (j + 1)) (int n)\<bar>"
  using assms
proof (induction j)
  case (Suc j)
  show ?case
  proof (cases "i = Suc j")
    case False
    then have "\<bar>pipeline_common_scale_roi_qp qp (int (i + 1)) (int n)\<bar> \<le> \<bar>pipeline_common_scale_roi_qp qp (int (j + 1)) (int n)\<bar>"
      using Suc by simp
    also have "\<dots> \<le> \<bar>pipeline_common_scale_roi_qp qp (int (j + 1) + 1) (int n)\<bar>"
      using Suc.prems by (intro scale_roi_qp_graded(3)) simp_all
    finally show ?thesis by (simp add: add.commute)
  qed simp
qed simp

lemma roi_steps_bounds: "0 < roi_steps_used n" "roi_steps_used n \<le> 4"
  by (simp_all add: roi_steps_used_def PIPELINE_ROI_MAX_STEPS_def Let_def)

lemma computed_bands:
  fixes h z :: u32 and qp :: int
  assumes fl: "rounds fl" and c: "in_range fl c" and n: "n \<le> 4" and w: "unat w \<le> 2 ^ 24"
  defines "rs \<equiv> somes (map (compute_horizontal_roi \<lparr>fu_round = fl, fu_nan_u32 = z\<rparr> w h (Some c) qp n) [0..<n])"
  shows "\<forall>r \<in> set rs. band_ok w h r \<and> roi_enable r" and "sorted_wrt inside rs"
proof -
  show "\<forall>r \<in> set rs. band_ok w h r \<and> roi_enable r"
  proof
    fix r assume "r \<in> set rs"
    then obtain i where i: "i < n" "compute_horizontal_roi \<lparr>fu_round = fl, fu_nan_u32 = z\<rparr> w h (Some c) qp n i = Some r" by (auto simp: rs_def set_somes)
    have "roi_enable r" using i(2) by (auto simp: compute_horizontal_roi_def Let_def split: if_splits)
    then show "band_ok w h r \<and> roi_enable r" using band_ok_roi [OF fl c i(1) n w i(2)] by simp
  qed
  show "sorted_wrt inside rs" unfolding rs_def
  proof (rule somes_upt)
    fix i j r r'
    assume i: "i \<le> j" "j < n" and r: "compute_horizontal_roi \<lparr>fu_round = fl, fu_nan_u32 = z\<rparr> w h (Some c) qp n i = Some r" "compute_horizontal_roi \<lparr>fu_round = fl, fu_nan_u32 = z\<rparr> w h (Some c) qp n j = Some r'"
    have "i < n" using i by simp
    then show "inside r r'" unfolding inside_def
      using roi_nested [OF fl c i n w r] roi_qp_graded [OF i] horizontal_roi_nat(8) [OF fl c _ n w r(1)] horizontal_roi_nat(8) [OF fl c i(2) n w r(2)]
      by simp
  qed
qed

text \<open>Property C25. Whatever the configuration asks for, as long as its centre is a number, the bands of interest the
  encoder is given are aligned to its blocks, lie in the frame around its middle, one in the other with QP offsets that
  do not get weaker inwards; and when the call succeeds with the bands on, the driver has taken every one. (The settings
  interface also accepts a centre that is not a number, with which the widths are undefined: shown below.)\<close>

theorem roi_bands_in_frame:
  assumes "apply_roi_qp fu cfg qp s = (rc, s')" and "rounds (fu_round fu)" and "fpv_roi_center (c_fpv cfg) \<noteq> NaN"
    and "unat (cx_frame_width (cam_ctx s)) \<le> 2 ^ 24"
  shows "\<exists>old new. cam_log s' = cam_log s @ old @ new \<and> bands old = [] \<and> (rc = 0 \<longrightarrow> list_all (\<lambda>e. snd e = 0) new)
    \<and> (\<forall>r \<in> set (bands new). band_ok (cx_frame_width (cam_ctx s)) (cx_frame_height (cam_ctx s)) r) \<and> sorted_wrt inside (bands new)"
proof -
  define chn where "chn = cx_venc_chn (cam_ctx s)"
  define w where "w = cx_frame_width (cam_ctx s)"
  define h where "h = cx_frame_height (cam_ctx s)"
  define s1 where "s1 = cam_dos (map (\<lambda>i. VencRoi chn (roi_clear i)) [0..<PIPELINE_ROI_MAX_STEPS]) s"
  define q where "q = (if qp < -30 then -30 else if qp > 30 then 30 else qp)"
  define n where "n = roi_steps_used (fpv_roi_steps (c_fpv cfg))"
  obtain fl z where fu: "fu = \<lparr>fu_round = fl, fu_nan_u32 = z\<rparr>" by (cases fu)
  obtain c where c: "roi_center (fu_round fu) (fpv_roi_center (c_fpv cfg)) = Some c" "in_range fl c"
    using roi_center_range [OF assms(2,3)] by (auto simp: fu)
  have fl: "rounds fl" using assms(2) by (simp add: fu)
  define rs where "rs = map (compute_horizontal_roi fu w h (Some c) q n) [0..<n]"
  obtain ok s2 where 2: "set_rois chn rs s1 = (ok, s2)" by (metis surj_pair)
  obtain old where old: "cam_log s1 = cam_log s @ old" "bands old = []"
    using cam_dos_log bands_clear unfolding s1_def by metis
  note b = computed_bands [where h = h and qp = q and z = z, OF fl c(2)
      roi_steps_bounds(2) [of "fpv_roi_steps (c_fpv cfg)"] assms(4) [folded w_def], folded n_def fu, folded rs_def]
  obtain new where new: "cam_log s2 = cam_log s1 @ new" "bands new = somes rs" "ok \<longrightarrow> list_all (\<lambda>e. snd e = 0) new"
    using set_rois_log [OF 2] b(1) by blast
  have cases: "s' = s \<or> s' = s1 \<or> s' = s2 \<and> (rc = 0 \<longrightarrow> ok)"
    using assms(1) unfolding apply_roi_qp_def Let_def chn_def [symmetric] w_def [symmetric] h_def [symmetric] s1_def [symmetric]
      q_def [symmetric] n_def [symmetric] c(1) rs_def [symmetric] 2 prod.case by (auto split: if_splits)
  show ?thesis using cases
  proof (elim disjE conjE)
    assume "s' = s" then show ?thesis by (intro exI [of _ "[]"]) simp
  next
    assume "s' = s1" then show ?thesis using old by (intro exI [of _ old] exI [of _ "[]"]) simp
  next
    assume "s' = s2" "rc = 0 \<longrightarrow> ok"
    then show ?thesis unfolding w_def [symmetric] h_def [symmetric]
      using old new b by (intro exI [of _ old] exI [of _ new]) auto
  qed
qed

text \<open>A camera with a small frame and two bands.\<close>

definition demo_audio :: audio_state where
  "demo_audio = \<lparr>au_lib_loaded = False, au_device_enabled = False, au_channel_enabled = False, au_codec = G711A,
     au_sample_rate = 0, au_channels = 0, au_output = star6e_audio_output_reset,
     au_rtp = \<lparr>rp_seq = 0, rp_timestamp = 0, rp_ssrc = 0, rp_payload_type = 0\<rparr>, au_frame_ticks = 0, au_running = False,
     au_started = False, au_cap_ring = \<lparr>ar_buf = [], ar_head = 0, ar_tail = 0, ar_count = 0, ar_dropped = 0\<rparr>,
     au_rec_ring = None, au_opus = False\<rparr>"

definition roi_camera :: camera where
  "roi_camera = \<lparr>cam_ctx = ctx_zero\<lparr>cx_frame_width := 192, cx_frame_height := 72, cx_bound := True\<rparr>, cam_ps = demo_up,
     cam_stored_fps = 0, cam_world = demo_pipe_world (replicate 20 0), cam_cus3a = False, cam_shutter_max = 0, cam_gain_max = 0,
     cam_audio = demo_audio, cam_ai = \<lparr>ad_results = [], ad_log = []\<rparr>\<rparr>"

definition roi_cfg_demo :: venc_config where
  "roi_cfg_demo = venc_config_defaults\<lparr>c_fpv := (c_fpv venc_config_defaults)
     \<lparr>fpv_roi_enabled := True, fpv_roi_steps := 2, fpv_roi_center := Fin (1 / 4)\<rparr>\<rparr>"

definition demo_floats :: float_unit where
  "demo_floats = \<lparr>fu_round = id, fu_nan_u32 = 4096\<rparr>"

lemma roi_demo: "fst (apply_roi_qp demo_floats roi_cfg_demo 8 roi_camera) = 0
  \<and> map (\<lambda>r. (roi_left r, roi_width r, roi_qp r)) (bands (cam_log (snd (apply_roi_qp demo_floats roi_cfg_demo 8 roi_camera)))) = [(32, 96, 4), (64, 32, 8)]"
  by code_simp

text \<open>With a centre that is not a number a machine whose conversion gives 4096 asks for bands wider than the frame.\<close>

lemma nan_center_out_of_frame:
  "map (\<lambda>r. (roi_left r, roi_width r)) (bands (cam_log (snd (apply_roi_qp demo_floats
       (c_fpv_update (fpv_roi_center_update (\<lambda>_. NaN)) roi_cfg_demo) 8 roi_camera))))
   = [(2147481696, 4096), (2147481696, 4096)]"
  by code_simp

theorem roi_bands_in_frame_witness:
  "\<exists>s'. apply_roi_qp demo_floats roi_cfg_demo 8 roi_camera = (0, s') \<and> length (bands (cam_log s')) = 2
     \<and> (\<forall>r \<in> set (bands (cam_log s')). band_ok 192 72 r) \<and> sorted_wrt inside (bands (cam_log s'))"
proof -
  obtain rc s' where s: "apply_roi_qp demo_floats roi_cfg_demo 8 roi_camera = (rc, s')" by (metis surj_pair)
  have d: "rc = 0" "map (\<lambda>r. (roi_left r, roi_width r, roi_qp r)) (bands (cam_log s')) = [(32, 96, 4), (64, 32, 8)]"
    using roi_demo by (simp_all add: s)
  have l: "length (bands (cam_log s')) = 2" using arg_cong [OF d(2), of length] by simp
  have w: "unat (cx_frame_width (cam_ctx roi_camera)) \<le> 2 ^ 24" by (simp add: roi_camera_def)
  have z: "bands (cam_log roi_camera) = []" by (simp add: roi_camera_def cam_log_def demo_pipe_world_def)
  have f: "cx_frame_width (cam_ctx roi_camera) = 192" "cx_frame_height (cam_ctx roi_camera) = 72" by (simp_all add: roi_camera_def)
  have u: "rounds (fu_round demo_floats)" "fpv_roi_center (c_fpv roi_cfg_demo) \<noteq> NaN"
    by (simp_all add: demo_floats_def rounds_id roi_cfg_demo_def)
  show ?thesis using roi_bands_in_frame [OF s u w] d(1) l s by (auto simp: z f)
qed

end
