(* ===== verification/RunnerLife.thy ===== *)
theory RunnerLife imports RunnerProps RoiBands begin

text \<open>
  The properties of a session of the streamer: what it leaves up, one recording at a time, every frame's buffer
  given back, what a reinitialisation does.
\<close>

subsection \<open>Recordings\<close>

definition one_open :: "runner \<Rightarrow> bool" where
  "one_open r \<longleftrightarrow> \<not> (star6e_recorder_is_active (rn_rec r) \<and> star6e_ts_recorder_is_active (rn_ts r))"

definition none_open :: "runner \<Rightarrow> bool" where
  "none_open r \<longleftrightarrow> \<not> star6e_recorder_is_active (rn_rec r) \<and> \<not> star6e_ts_recorder_is_active (rn_ts r)"

lemma one_open_cong: "rn_rec r' = rn_rec r \<Longrightarrow> rn_ts r' = rn_ts r \<Longrightarrow> one_open r' = one_open r"
  by (simp add: one_open_def)

lemma stop_none_open: "none_open (stop_recording r)"
  by (auto simp: none_open_def stop_recording_def stop_recorders_def star6e_recorder_stop_def star6e_ts_recorder_stop_def rr_stop_with_reason_def
      ts_stop_with_reason_def star6e_recorder_is_active_def star6e_ts_recorder_is_active_def split: prod.splits if_splits)

lemma none_one_open: "none_open r \<Longrightarrow> one_open r"
  by (simp add: none_open_def one_open_def)

lemma start_one_open: "none_open r \<Longrightarrow> one_open (start_recording d r)"
  by (auto simp: none_open_def one_open_def start_recording_def Let_def split: prod.splits)

lemma closed_write_frame: "star6e_recorder_write_frame s x d = (n, x', d') \<Longrightarrow> rr_fd x < 0 \<Longrightarrow> rr_fd x' < 0"
  by (auto simp: star6e_recorder_write_frame_def)

lemma closed_write_stream: "star6e_ts_recorder_write_stream s y ring d = (n, y', ring', d') \<Longrightarrow> tr_fd y < 0 \<Longrightarrow> tr_fd y' < 0"
  by (auto simp: star6e_ts_recorder_write_stream_def)

lemma frame_one_open: "one_open r \<Longrightarrow> one_open (frame_recorded tn r)"
  by (auto simp: one_open_def frame_recorded_def star6e_recorder_is_active_def star6e_ts_recorder_is_active_def not_le
      split: prod.splits dest: closed_write_frame closed_write_stream)

lemma set_cam_open [simp]: "one_open (set_cam c r) = one_open r" "one_open (do_cam f r) = one_open r"
  by (simp_all add: one_open_def)

lemma api_open [simp]: "one_open (r\<lparr>rn_api := s\<rparr>) = one_open r" "none_open (r\<lparr>rn_api := s\<rparr>) = none_open r"
  by (simp_all add: one_open_def none_open_def)

lemma on_cam_open: "on_cam f r = (x, r') \<Longrightarrow> one_open r' = one_open r"
  by (auto elim!: on_camE)

lemma tick_open [simp]: "one_open (star6e_pipeline_cus3a_tick now r) = one_open r"
  by (simp add: star6e_pipeline_cus3a_tick_def one_open_def)

lemma idr_open: "one_open (snd (runtime_request_idr r)) = one_open r"
  by (rule one_open_cong) (simp_all add: runtime_idr_cam)

lemma record_control_open: "one_open r \<Longrightarrow> one_open (record_control r)"
  by (auto simp: record_control_def Let_def idr_open start_one_open stop_none_open none_one_open split: prod.splits option.splits)

lemma frame_out_open: "one_open (frame_out tn r) = one_open r"
  by (auto simp: frame_out_def Let_def one_open_def split: prod.splits)

lemma process_stream_open:
  assumes "star6e_runtime_process_stream tn r = (rc, r')" and "one_open r"
  shows "one_open r'"
proof -
  define chn where "chn = ps_venc_channel (rn_ps r)"
  obtain q r1 where 1: "on_cam (cam_call (VencQuery chn)) r = (q, r1)" by (metis surj_pair)
  define r2 where "r2 = do_cam (cam_dos ((if ps_imu (rn_ps r1) then [Program ''imu_drain''] else []) @ (if ps_eis (rn_ps r1) then [Program ''eis_update''] else [])))
                   (r1\<lparr>rn_idle := 0\<rparr>)"
  obtain g r3 where 3: "on_cam (cam_call (VencGetStream chn)) r2 = (g, r3)" by (metis surj_pair)
  define r4 where "r4 = frame_out tn r3"
  define r5 where "r5 = (if ps_dual (rn_ps r4) = None then record_control (frame_recorded tn r4) else r4)"
  have idle: "one_open (x\<lparr>rn_idle := n\<rparr>) = one_open x" for x n by (simp add: one_open_def)
  have o: "one_open r1" "one_open r3" "one_open r4" "one_open r5"
    using assms(2) on_cam_open [OF 1] on_cam_open [OF 3]
    by (simp_all add: r2_def r4_def r5_def idle frame_out_open record_control_open frame_one_open)
  have "r' = do_cam (idle_wait (tn_readable tn)) (star6e_pipeline_cus3a_tick (tn_now tn) (r1\<lparr>rn_idle := rn_idle r1 + 1\<rparr>))
    \<or> r' = r1\<lparr>rn_idle := 0\<rparr> \<or> r' = do_cam (idle_wait (tn_readable tn)) r3 \<or> r' = r3
    \<or> r' = star6e_pipeline_cus3a_tick (tn_now tn) (do_cam (cam_dos ((if ps_osd (rn_ps r5) then [Program ''debug_osd''] else []) @ [VencRelease chn])) r5)"
    using assms(1) unfolding star6e_runtime_process_stream_def Let_def chn_def [symmetric] 1 prod.case r2_def [symmetric] 3 r4_def [symmetric]
      r5_def [symmetric] by (auto split: if_splits)
  then show ?thesis using o by (elim disjE) (simp_all add: idle)
qed

lemma outside_open: "one_open (fold (outside_step re) es r) = one_open r"
proof (induction es arbitrary: r)
  case (Cons e es)
  have "one_open (outside_step re e r) = one_open r"
    by (rule one_open_cong; cases e) (auto simp: outside_step_def split: bool.splits)
  then show ?case using Cons.IH [of "outside_step re e r"] by simp
qed simp

text \<open>A reinitialisation ends every recording.\<close>

lemma restart_closes:
  assumes "star6e_runtime_restart_pipeline re tn mode r = (rc, r')"
  shows "none_open r' \<and> a_reinit (sv_api (rn_api r')) = a_reinit (sv_api (rn_api r))"
proof -
  define r1 where "r1 = (do_cam (\<lambda>c. star6e_controls_reset (star6e_cus3a_request_stop c)) r)\<lparr>rn_handoff := False\<rparr>"
  define r2 where "r2 = stop_recording (do_cam star6e_cus3a_join r1)"
  have re: "a_reinit (sv_api (rn_api (set_cam c x))) = a_reinit (sv_api (rn_api x))"
    "a_reinit (sv_api (rn_api (do_cam f x))) = a_reinit (sv_api (rn_api x))"
    "a_reinit (sv_api (rn_api (set_cfg g x))) = a_reinit (sv_api (rn_api x))"
    "rn_api (stop_recording x) = rn_api x" for c f g x
    by (simp_all add: set_cam_def do_cam_def set_cfg_def stop_recording_def stop_recorders_def split: prod.splits)
  have n: "none_open (set_cam c x) = none_open x" "none_open (do_cam f x) = none_open x" "none_open (set_cfg g x) = none_open x" for c f g x
    by (simp_all add: none_open_def)
  have 2: "none_open r2" "a_reinit (sv_api (rn_api r2)) = a_reinit (sv_api (rn_api r))"
    by (simp_all add: r2_def r1_def stop_none_open re)
  obtain lc cfg where l: "(if mode = 1 then venc_config_load (re_f32 re) (re_parse re) (tn_file tn) (tn_no_file tn) venc_config_defaults
      else (0, rn_cfg r2)) = (lc, cfg)" by (metis surj_pair)
  define prev where "prev = res_max_fps (sr_mode (ps_sensor (rn_ps r)))"
  define cfg1 where "cfg1 = (if prev > 0 \<and> vid_fps (c_video0 cfg) > prev then cfg\<lparr>c_video0 := (c_video0 cfg)\<lparr>vid_fps := prev\<rparr>\<rparr> else cfg)"
  obtain rc1 r4 where 4: "on_cam (with_pipe (star6e_pipeline_reinit (tn_pipe tn) cfg1)) (set_cfg cfg1 r2) = (rc1, r4)" by (metis surj_pair)
  have k4: "none_open r4" "a_reinit (sv_api (rn_api r4)) = a_reinit (sv_api (rn_api r))"
    using 4 2 by (auto elim!: on_camE simp: re n)
  have upd: "none_open (x\<lparr>rn_started := b\<rparr>) = none_open x" "none_open (x\<lparr>rn_scene := sc\<rparr>) = none_open x" for x b sc
    by (simp_all add: none_open_def)
  have "r' = set_cfg cfg r2 \<or> r' = r4\<lparr>rn_started := False\<rparr>
    \<or> r' = do_cam (configured_controls (re_fl re) cfg1) ((do_cam star6e_controls_bind r4)
        \<lparr>rn_scene := scene_init (vid_scene_threshold (c_video0 cfg1)) (vid_scene_holdoff (c_video0 cfg1))\<rparr>)"
    using assms unfolding star6e_runtime_restart_pipeline_def Let_def r1_def [symmetric] r2_def [symmetric] l prod.case
      prev_def [symmetric] cfg1_def [symmetric] 4 by (auto split: if_splits)
  then show ?thesis using 2 k4 by (elim disjE) (simp_all add: re n upd)
qed

lemma handle_reinit_effect:
  assumes "star6e_runtime_handle_reinit re tn r = ((rc, h), r')"
  shows "if venc_api_get_reinit (sv_api (rn_api r)) = 0 then \<not> h \<and> rc = 0 \<and> r' = r
    else h \<and> none_open r' \<and> venc_api_get_reinit (sv_api (rn_api r')) = 0"
proof (cases "venc_api_get_reinit (sv_api (rn_api r)) = 0")
  case True
  then show ?thesis using assms by (simp add: star6e_runtime_handle_reinit_def)
next
  case False
  define r1 where "r1 = fold (outside_step re) (tn_during tn) r"
  define r2 where "r2 = r1\<lparr>rn_api := (rn_api r1)\<lparr>sv_api := venc_api_clear_reinit (sv_api (rn_api r1))\<rparr>\<rparr>"
  define m where "m = (if venc_api_get_reinit (sv_api (rn_api r1)) \<noteq> 0 then venc_api_get_reinit (sv_api (rn_api r1))
      else venc_api_get_reinit (sv_api (rn_api r)))"
  obtain rc1 r3 where 3: "star6e_runtime_restart_pipeline re tn m r2 = (rc1, r3)" by (metis surj_pair)
  have "h" "r' = r3 \<or> r' = r3\<lparr>rn_tick := tn_now tn, rn_idle := 0\<rparr>"
    using assms False unfolding star6e_runtime_handle_reinit_def Let_def r1_def [symmetric] r2_def [symmetric] m_def [symmetric] 3 prod.case
    by (auto split: if_splits)
  moreover have "a_reinit (sv_api (rn_api r2)) = 0" by (simp add: r2_def venc_api_clear_reinit_def)
  ultimately show ?thesis using restart_closes [OF 3] False by (auto simp: venc_api_get_reinit_def none_open_def)
qed

lemma run_one_open: "star6e_runner_run re tns r = (rc, r') \<Longrightarrow> one_open r \<Longrightarrow> one_open r'"
proof (induction tns arbitrary: r)
  case Nil
  then show ?case by (auto simp: one_open_def)
next
  case (Cons tn tns)
  define r0 where "r0 = fold (outside_step re) (tn_before tn) r"
  have o0: "one_open r0" using Cons.prems(2) by (simp add: r0_def outside_open)
  obtain c h r1 where 1: "star6e_runtime_handle_reinit re tn r0 = ((c, h), r1)" by (metis surj_pair)
  have o1: "one_open r1" using handle_reinit_effect [OF 1] o0 none_one_open by (auto split: if_splits)
  obtain c2 r2 where 2: "star6e_runtime_process_stream tn r1 = (c2, r2)" by (metis surj_pair)
  have o2: "one_open r2" by (rule process_stream_open [OF 2 o1])
  have "r' = r0 \<or> r' = r1 \<or> r' = r2 \<or> star6e_runner_run re tns r1 = (rc, r') \<or> star6e_runner_run re tns r2 = (rc, r')"
    using Cons.prems(1) unfolding star6e_runner_run.simps Let_def r0_def [symmetric] 1 prod.case 2 by (auto split: if_splits)
  then show ?case using o0 o1 o2 Cons.IH by blast
qed

lemma init_one_open:
  assumes "star6e_runner_init re env r = (0, r')"
  shows "one_open r'"
proof -
  obtain r1 s1 where 1: "on_cam (cam_call (Program ''star6e_mi_init'')) r = (r1, s1)" by (metis surj_pair)
  obtain r2 s2 where 2: "on_cam (cam_call (Program ''MI_SYS_Init'')) s1 = (r2, s2)" by (metis surj_pair)
  define s3 where "s3 = (do_cam (cam_dos [Program ''venc_httpd_start'']) (s2\<lparr>rn_system := True\<rparr>))\<lparr>rn_httpd := True\<rparr>"
  obtain r3 s4 where 4: "on_cam (with_pipe (star6e_pipeline_start env (rn_cfg s3))) s3 = (r3, s4)" by (metis surj_pair)
  have s: "star6e_runtime_apply_startup_controls re env (s4\<lparr>rn_started := True\<rparr>) = (0, r')"
    using assms unfolding star6e_runner_init_def 1 prod.case 2 Let_def s3_def [symmetric] 4 by (auto split: if_splits)
  have i: "none_open (recorders_init cfg x)" for cfg x
    by (simp add: none_open_def recorders_init_def Let_def star6e_recorder_init_def star6e_ts_recorder_init_def
        star6e_recorder_is_active_def star6e_ts_recorder_is_active_def)
  have d: "none_open (start_second_channel env x) = none_open x" for x
    by (simp add: start_second_channel_def none_open_def Let_def split: option.splits)
  show ?thesis using s
    by (auto simp: star6e_runtime_apply_startup_controls_def Let_def i d start_one_open none_one_open split: if_splits)
qed

subsection \<open>Frame buffers\<close>

text \<open>Whether the loop holds a frame of the channel after a sequence of driver calls; \<open>None\<close>: a frame got while one is
  held, or one given back that is not held.\<close>

fun buffer_held :: "int \<Rightarrow> bool \<Rightarrow> (mi_op \<times> int) list \<Rightarrow> bool option" where
  "buffer_held ch h [] = Some h"
| "buffer_held ch h ((VencGetStream c, rc) # l) =
     (if c \<noteq> ch \<or> rc \<noteq> 0 then buffer_held ch h l else if h then None else buffer_held ch True l)"
| "buffer_held ch h ((VencRelease c, rc) # l) =
     (if c \<noteq> ch then buffer_held ch h l else if h then buffer_held ch False l else None)"
| "buffer_held ch h (e # l) = buffer_held ch h l"

lemma buffer_held_append: "buffer_held ch h (a @ b) = (case buffer_held ch h a of None \<Rightarrow> None | Some h' \<Rightarrow> buffer_held ch h' b)"
  by (induction ch h a rule: buffer_held.induct) simp_all

text \<open>Calls that are about no frame.\<close>

fun no_frame_op :: "mi_op \<Rightarrow> bool" where
  "no_frame_op (VencGetStream c) = False"
| "no_frame_op (VencRelease c) = False"
| "no_frame_op _ = True"

lemma buffer_held_skip: "list_all (\<lambda>e. no_frame_op (fst e)) l \<Longrightarrow> buffer_held ch h l = Some h"
  by (induction ch h l rule: buffer_held.induct) simp_all

text \<open>From one camera to another with no call about a frame.\<close>

definition quiet :: "camera \<Rightarrow> camera \<Rightarrow> bool" where
  "quiet c c' \<longleftrightarrow> (\<exists>l. cam_log c' = cam_log c @ l \<and> list_all (\<lambda>e. no_frame_op (fst e)) l)"

lemma quiet_refl [simp]: "quiet c c" by (simp add: quiet_def)

lemma quiet_trans: "quiet c c1 \<Longrightarrow> quiet c1 c2 \<Longrightarrow> quiet c c2"
  by (auto simp: quiet_def)

lemma quiet_same: "pw_mi (cam_world c') = pw_mi (cam_world c) \<Longrightarrow> quiet c c'"
  by (auto simp: quiet_def cam_log_def)

lemma quiet_call: "no_frame_op op \<Longrightarrow> quiet c (snd (cam_call op c))"
  by (cases "cam_call op c") (auto simp: quiet_def dest: cam_call_log)

lemma cam_dos_Cons: "cam_dos (op # ops) c = cam_dos ops (snd (cam_call op c))"
  by (auto simp: cam_dos_def pw_dos_def cam_call_def pw_call_def mi_do_def split: prod.splits)

lemma cam_dos_Nil: "cam_dos [] c = c"
  by (simp add: cam_dos_def pw_dos_def)

lemma quiet_dos: "list_all no_frame_op ops \<Longrightarrow> quiet c (cam_dos ops c)"
proof (induction ops arbitrary: c)
  case Nil
  then show ?case by (simp add: cam_dos_def pw_dos_def quiet_def cam_log_def)
next
  case (Cons op ops)
  have "quiet (snd (cam_call op c)) (cam_dos ops (snd (cam_call op c)))" using Cons by simp
  then show ?case unfolding cam_dos_Cons using quiet_trans [OF quiet_call, of op c] Cons.prems by simp
qed

lemma quiet_tick: "quiet (rn_cam r) (rn_cam (star6e_pipeline_cus3a_tick now r))"
  by (auto simp: star6e_pipeline_cus3a_tick_def intro: quiet_dos)

lemma quiet_idle: "quiet c (idle_wait b c)"
  using same_pipe_idle [of c b] by (auto simp: same_pipe_def intro: quiet_same)

lemma quiet_frame_out: "quiet (rn_cam r) (rn_cam (frame_out tn r))"
proof -
  have s: "quiet c (send_frame a b i n c)" for c a b i n using same_pipe_send [of c a b i n] by (auto simp: same_pipe_def intro: quiet_same)
  show ?thesis by (auto simp: frame_out_def Let_def split: prod.splits intro: s quiet_trans [OF quiet_dos s])
qed

lemma quiet_record_control: "quiet (rn_cam r) (rn_cam (record_control r))"
proof -
  obtain d s where 1: "venc_api_get_record_start 256 (rn_api r) = (d, s)" by (metis surj_pair)
  define r2 where "r2 = (case d of None \<Rightarrow> r\<lparr>rn_api := s\<rparr>
      | Some dir \<Rightarrow> snd (runtime_request_idr (start_recording dir (stop_recording (r\<lparr>rn_api := s\<rparr>)))))"
  obtain b s2 where 2: "venc_api_get_record_stop (rn_api r2) = (b, s2)" by (metis surj_pair)
  have rc: "record_control r = (if b then stop_recording (r2\<lparr>rn_api := s2\<rparr>) else r2\<lparr>rn_api := s2\<rparr>)"
    by (simp add: record_control_def 1 2 r2_def [symmetric] Let_def split: option.splits)
  have "quiet (rn_cam r) (rn_cam r2)"
    using record_flags_cam(1) [OF 1] by (cases d) (auto simp: r2_def runtime_idr_cam intro: quiet_call)
  then show ?thesis using record_flags_cam(2) [OF 2] by (simp add: rc)
qed

lemma held_quiet: "quiet c c' \<Longrightarrow> \<exists>l. cam_log c' = cam_log c @ l \<and> (\<forall>ch h. buffer_held ch h l = Some h)"
  using buffer_held_skip by (auto simp: quiet_def)


lemma held_trans:
  assumes "cam_log c1 = cam_log c @ l1" and "buffer_held ch h l1 = Some h1" and "cam_log c2 = cam_log c1 @ l2" and "buffer_held ch h1 l2 = Some h2"
  shows "\<exists>l. cam_log c2 = cam_log c @ l \<and> buffer_held ch h l = Some h2"
  using assms by (intro exI [of _ "l1 @ l2"]) (simp add: buffer_held_append)

text \<open>Steps that take the loop from holding to holding, with what they log.\<close>

definition moves :: "int \<Rightarrow> bool \<Rightarrow> camera \<Rightarrow> bool \<Rightarrow> camera \<Rightarrow> bool" where
  "moves ch h c h' c' \<longleftrightarrow> (\<exists>l. cam_log c' = cam_log c @ l \<and> buffer_held ch h l = Some h')"

lemma moves_trans: "moves ch h c h1 c1 \<Longrightarrow> moves ch h1 c1 h2 c2 \<Longrightarrow> moves ch h c h2 c2"
  by (auto simp: moves_def dest: held_trans)

lemma moves_quiet: "quiet c c' \<Longrightarrow> moves ch h c h c'"
  by (auto simp: moves_def quiet_def buffer_held_skip)

lemma moves_get: "cam_call (VencGetStream ch) c = (g, c') \<Longrightarrow> moves ch False c (g = 0) c'"
  by (auto simp: moves_def dest!: cam_call_log)

lemma moves_release: "moves ch True c False (cam_dos [VencRelease ch] c)"
  unfolding cam_dos_Cons cam_dos_Nil by (cases "cam_call (VencRelease ch) c") (auto simp: moves_def dest!: cam_call_log)

lemma cam_dos_append: "cam_dos (a @ b) c = cam_dos b (cam_dos a c)"
  by (simp add: cam_dos_def pw_dos_def mi_dos_def)

text \<open>Property C27. Every frame the main loop gets from the encoder is given back exactly once before the turn ends, whatever is sent,
  recorded, started or stopped in between, and nothing is given back that was not got.\<close>

theorem frame_buffer_returned:
  "\<exists>l. cam_log (rn_cam (snd (star6e_runtime_process_stream tn r))) = cam_log (rn_cam r) @ l
    \<and> buffer_held (ps_venc_channel (rn_ps r)) False l = Some False"
proof -
  define chn where "chn = ps_venc_channel (rn_ps r)"
  obtain rc r' where p: "star6e_runtime_process_stream tn r = (rc, r')" by (metis surj_pair)
  obtain q r1 where 1: "on_cam (cam_call (VencQuery chn)) r = (q, r1)" by (metis surj_pair)
  define r2 where "r2 = do_cam (cam_dos ((if ps_imu (rn_ps r1) then [Program ''imu_drain''] else []) @ (if ps_eis (rn_ps r1) then [Program ''eis_update''] else [])))
                   (r1\<lparr>rn_idle := 0\<rparr>)"
  obtain g r3 where 3: "on_cam (cam_call (VencGetStream chn)) r2 = (g, r3)" by (metis surj_pair)
  define r4 where "r4 = frame_out tn r3"
  define r5 where "r5 = (if ps_dual (rn_ps r4) = None then record_control (frame_recorded tn r4) else r4)"
  have q1: "quiet (rn_cam r) (rn_cam r1)" using 1 by (elim on_camE) (metis no_frame_op.simps quiet_call set_cam_simps(1) snd_conv)
  have q2: "quiet (rn_cam r) (rn_cam r2)" by (rule quiet_trans [OF q1]) (auto simp: r2_def intro: quiet_dos)
  have m3: "moves chn False (rn_cam r) (g = 0) (rn_cam r3)"
    by (rule moves_trans [OF moves_quiet [OF q2]]) (use 3 in \<open>auto elim!: on_camE intro: moves_get\<close>)
  have q5: "quiet (rn_cam r3) (rn_cam r5)"
    using quiet_frame_out [of r3 tn] quiet_record_control [of "frame_recorded tn r4"] quiet_trans by (auto simp: r5_def r4_def)
  have m6: "moves chn True (rn_cam r3) False (cam_dos ((if ps_osd (rn_ps r5) then [Program ''debug_osd''] else []) @ [VencRelease chn]) (rn_cam r5))"
    unfolding cam_dos_append by (rule moves_trans [OF moves_quiet [OF quiet_trans [OF q5 quiet_dos]] moves_release]) simp
  have t: "moves chn False (rn_cam r) False c \<Longrightarrow> quiet c c' \<Longrightarrow> moves chn False (rn_cam r) False c'" for c c'
    by (rule moves_trans [OF _ moves_quiet])
  have tk: "quiet (rn_cam x) (rn_cam (star6e_pipeline_cus3a_tick n x))" for x n by (rule quiet_tick)
  consider "r' = do_cam (idle_wait (tn_readable tn)) (star6e_pipeline_cus3a_tick (tn_now tn) (r1\<lparr>rn_idle := rn_idle r1 + 1\<rparr>))"
    | "r' = r1\<lparr>rn_idle := 0\<rparr>" | "g \<noteq> 0" "r' = do_cam (idle_wait (tn_readable tn)) r3 \<or> r' = r3"
    | "g = 0" "r' = star6e_pipeline_cus3a_tick (tn_now tn) (do_cam (cam_dos ((if ps_osd (rn_ps r5) then [Program ''debug_osd''] else []) @ [VencRelease chn])) r5)"
    using p unfolding star6e_runtime_process_stream_def Let_def chn_def [symmetric] 1 prod.case r2_def [symmetric] 3 r4_def [symmetric]
      r5_def [symmetric] by (auto simp: EAGAIN_def split: if_splits)
  then have "moves chn False (rn_cam r) False (rn_cam r')"
  proof cases
    case 1
    then show ?thesis using quiet_trans [OF quiet_trans [OF q1 tk [of "r1\<lparr>rn_idle := rn_idle r1 + 1\<rparr>", simplified]] quiet_idle]
      by (simp add: moves_quiet)
  next
    case 2
    then show ?thesis using moves_quiet [OF q1] by simp
  next
    case 3
    then show ?thesis using t [OF _ quiet_idle] m3 by auto
  next
    case 4
    have m: "moves chn False (rn_cam r) False (rn_cam (do_cam (cam_dos ((if ps_osd (rn_ps r5) then [Program ''debug_osd''] else []) @ [VencRelease chn])) r5))"
      using moves_trans [OF m3] m6 4(1) by simp
    show ?thesis unfolding 4(2) by (rule t [OF m tk])
  qed
  then show ?thesis by (simp add: moves_def p chn_def)
qed

subsection \<open>A session\<close>

text \<open>A camera with nothing up, the default configuration, and one turn that SIGTERM ends.\<close>

definition session_env :: runner_env where
  "session_env = \<lparr>re_fl = demo_floats, re_api = demo_controls_env, re_lib = \<lparr>al_version = [], al_print_json = (\<lambda>j. None), al_fmt_g = (\<lambda>x. []), al_strtod = (\<lambda>s. NaN),
     al_live_fps = None, al_awb = None, al_iq = None, al_ae = None, al_metrics = None, al_iq_param = None, al_iq_import = (\<lambda>b c. (0, c)),
     al_idr = None, al_record_status = None, al_modes = (\<lambda>c. None), al_driver = star6e_driver, al_fmt_2f = (\<lambda>x. [])\<rparr>,
     re_iq = (\<lambda>k v c. (0, [])), re_iq_import = (\<lambda>b c. (0, [])), re_f32 = id, re_parse = (\<lambda>s. None)\<rparr>"

definition session_camera :: camera where
  "session_camera = \<lparr>cam_ctx = ctx_zero, cam_ps = pipe_zero, cam_stored_fps = 0, cam_world = demo_pipe_world (replicate 90 0), cam_cus3a = False,
     cam_shutter_max = 0, cam_gain_max = 0, cam_audio = demo_audio, cam_ai = \<lparr>ad_results = [], ad_log = []\<rparr>\<rparr>"

definition session_server :: "int \<Rightarrow> camera \<Rightarrow> camera server" where
  "session_server reinit c = \<lparr>sv_api = \<lparr>a_cfg = venc_config_defaults, a_dev = c, a_reinit = reinit\<rparr>, sv_record_start = False,
     sv_record_stop = False, sv_record_dir = [], sv_dual_active = False, sv_dual_channel = 0, sv_dual_bitrate = 0, sv_dual_fps = 0,
     sv_dual_gop = 0, sv_dual_frame_lost = False\<rparr>"

definition session_start :: "int \<Rightarrow> bool \<Rightarrow> camera \<Rightarrow> runner" where
  "session_start reinit started c = \<lparr>rn_api = session_server reinit c, rn_rec = star6e_recorder_init, rn_ts = star6e_ts_recorder_init 0 0,
     rn_disk = demo_rec_disk, rn_ring = audio_ring_init, rn_rec_on = False, rn_scene = scene_init 0 0, rn_system = started, rn_httpd = started,
     rn_started = started, rn_running = True, rn_idle = 0, rn_handoff = False, rn_tick = \<lparr>tv_sec = 0, tv_nsec = 0\<rparr>\<rparr>"

definition session_turn :: turn where
  "session_turn = \<lparr>tn_before = [Signal True, Signal False], tn_during = [], tn_pipe = demo_pipe_env, tn_file = None, tn_no_file = True, tn_packs = 0,
     tn_mem = True, tn_frame = [], tn_audio = [], tn_now = \<lparr>tv_sec = 0, tv_nsec = 0\<rparr>, tn_readable = False\<rparr>"

text \<open>The world in which the pipeline is started: three calls have been made.\<close>

definition session_world :: pipe_world where
  "session_world = (demo_pipe_world (replicate 87 0))\<lparr>pw_mi := \<lparr>md_results = replicate 87 0, md_log =
     [(Program ''star6e_mi_init'', 0), (Program ''MI_SYS_Init'', 0), (Program ''venc_httpd_start'', 0)]\<rparr>\<rparr>"

lemma session_pipeline: "fst (star6e_pipeline_start demo_pipe_env venc_config_defaults pipe_zero session_world) = 0"
  by code_simp

lemma session_init: "fst (star6e_runner_init session_env demo_pipe_env (session_start 0 False session_camera)) = 0"
proof -
  define s3 where "s3 = set_cam (session_camera\<lparr>cam_world := session_world\<rparr>) ((session_start 0 False session_camera)\<lparr>rn_system := True, rn_httpd := True\<rparr>)"
  obtain st w where p: "star6e_pipeline_start demo_pipe_env venc_config_defaults pipe_zero session_world = (0, st, w)"
    using session_pipeline by (metis prod.collapse)
  define s4 where "s4 = set_cam ((rn_cam s3)\<lparr>cam_ps := st, cam_world := w\<rparr>) s3"
  obtain rc r' where a: "star6e_runtime_apply_startup_controls session_env demo_pipe_env (s4\<lparr>rn_started := True\<rparr>) = (rc, r')" by (metis surj_pair)
  have ri: "replicate 90 (0::int) = 0 # 0 # 0 # replicate 87 0" by (simp add: numeral_eq_Suc)
  have i: "star6e_runner_init session_env demo_pipe_env (session_start 0 False session_camera)
    = star6e_runtime_apply_startup_controls session_env demo_pipe_env (s4\<lparr>rn_started := True\<rparr>)"
    using p by (simp add: star6e_runner_init_def on_cam_def with_pipe_def do_cam_def set_cam_def session_start_def session_server_def s4_def s3_def
        session_camera_def session_world_def demo_pipe_world_def cam_call_def pw_call_def mi_call_def cam_dos_def pw_dos_def mi_do_def ri)
  have "rc = 0" using a by (auto simp: star6e_runtime_apply_startup_controls_def Let_def split: if_splits)
  then show ?thesis by (simp add: i a)
qed

lemma session_fresh: "\<not> rn_started (session_start 0 False session_camera)" "cups (rn_cam (session_start 0 False session_camera)) = {}"
  by (simp_all add: session_start_def session_server_def session_camera_def demo_world_dead)

lemma session_run: "fst (star6e_runner_run session_env [session_turn] r) = 0"
  by (simp add: session_turn_def outside_step_def)

text \<open>Property C21. However a session of the streamer goes, through any frames, requests, signals, recordings, reinitialisations and failures of
  the driver, in the end no recording is open and nothing of the pipeline is up; except that after a failed start or reinitialisation
  the sensor, with at most the capture and scaler behind it, can be left on, and then the session reports failure.\<close>

theorem session_leaves_nothing_up:
  assumes "backend_run_pipeline re env tns r = (rc, r')" and "\<not> rn_started r" and "cups (rn_cam r) = {}"
  shows "none_open r' \<and> \<not> rn_started r' \<and> \<not> rn_httpd r' \<and> \<not> rn_system r'
    \<and> (cups (rn_cam r') = {} \<or> rc \<noteq> 0 \<and> (\<exists>p. SensorOn p \<in> cups (rn_cam r') \<and> cups (rn_cam r') \<subseteq> front_end p))"
  using backend_outcome [OF assms] by (auto simp: none_open_def star6e_recorder_is_active_def star6e_ts_recorder_is_active_def)

theorem session_leaves_nothing_up_witness:
  "\<exists>r'. backend_run_pipeline session_env demo_pipe_env [session_turn] (session_start 0 False session_camera) = (0, r')
     \<and> cups (rn_cam r') = {} \<and> none_open r'"
proof -
  obtain rc r' where b: "backend_run_pipeline session_env demo_pipe_env [session_turn] (session_start 0 False session_camera) = (rc, r')"
    by (metis surj_pair)
  obtain r1 where 1: "star6e_runner_init session_env demo_pipe_env (session_start 0 False session_camera) = (0, r1)"
    using session_init by (metis prod.collapse)
  obtain r2 where 2: "star6e_runner_run session_env [session_turn] r1 = (0, r2)" using session_run [of r1] by (metis prod.collapse)
  have "rc = 0" using b unfolding backend_run_pipeline_def 1 prod.case 2 by simp
  then show ?thesis using session_leaves_nothing_up [OF b session_fresh] b by simp
qed

text \<open>Property C26. From the startup to any point of the main loop at most one of the two recorders has a file open, whatever is
  configured, requested over the API or refused by the disk.\<close>

theorem one_recording_at_a_time:
  assumes "star6e_runner_init re env r = (0, r1)" and "star6e_runner_run re tns r1 = (rc, r2)"
  shows "\<not> (star6e_recorder_is_active (rn_rec r2) \<and> star6e_ts_recorder_is_active (rn_ts r2))"
  using run_one_open [OF assms(2) init_one_open [OF assms(1)]] by (simp add: one_open_def)

theorem one_recording_at_a_time_witness:
  "\<exists>r1 r2. star6e_runner_init session_env demo_pipe_env (session_start 0 False session_camera) = (0, r1)
     \<and> star6e_runner_run session_env [session_turn] r1 = (0, r2)
     \<and> \<not> (star6e_recorder_is_active (rn_rec r2) \<and> star6e_ts_recorder_is_active (rn_ts r2))"
proof -
  obtain r1 where 1: "star6e_runner_init session_env demo_pipe_env (session_start 0 False session_camera) = (0, r1)"
    using session_init by (metis prod.collapse)
  obtain r2 where 2: "star6e_runner_run session_env [session_turn] r1 = (0, r2)" using session_run [of r1] by (metis prod.collapse)
  show ?thesis using one_recording_at_a_time [OF 1 2] 1 2 by blast
qed



text \<open>The context comes from \<open>calloc\<close>, so before the startup controls have run the recorders' descriptors are 0: a start that fails
  early closes descriptor 0.\<close>

lemma failed_start_closes_stdin:
  assumes "star6e_runner_init re env r = (rc, r1)" and "rc \<noteq> 0" and "rr_fd (rn_rec r) = 0" and "tr_fd (rn_ts r) = -1"
  shows "rn_disk (snd (backend_run_pipeline re env tns r)) = disk_close 0 (disk_sync 0 (rn_disk r))"
proof -
  have same: "rn_rec r1 = rn_rec r \<and> rn_ts r1 = rn_ts r \<and> rn_disk r1 = rn_disk r"
    using assms(1,2) unfolding star6e_runner_init_def
    by (auto simp: Let_def star6e_runtime_apply_startup_controls_def elim!: on_camE split: prod.splits if_splits)
  have stop: "rn_disk (stop_recorders x) = disk_close 0 (disk_sync 0 (rn_disk x))" if "rr_fd (rn_rec x) = 0" "tr_fd (rn_ts x) = -1" for x
    using that by (simp add: stop_recorders_def star6e_recorder_stop_def star6e_ts_recorder_stop_def rr_stop_with_reason_def ts_stop_with_reason_def)
  have oc: "rn_rec (snd (on_cam f x)) = rn_rec x" "rn_ts (snd (on_cam f x)) = rn_ts x" "rn_disk (snd (on_cam f x)) = rn_disk x" for f :: "camera \<Rightarrow> unit \<times> camera" and x
    by (simp_all add: on_cam_def split: prod.splits)
  show ?thesis using assms(1,2) same assms(3,4)
    by (simp add: backend_run_pipeline_def star6e_runner_teardown_def Let_def stop oc)
qed

end
