(* ===== verification/Spec2Isabelle.thy ===== *)
theory Spec2Isabelle
  imports VencRing RingProtocol H26x RtpPacketizer HevcRtp Config OutputSocket Star6eOutput TsMux TsDemux TsSession MutexRings PipelineCommon ApiServerProps Recorder TsRecorderProps SceneDetect StarAudio RunnerLife
begin

section \<open>Verification library of the waybeam video encoder\<close>

text \<open>
  The repository builds \<open>venc\<close>, the streamer of an FPV camera on a SigmaStar chip. The hardware
  encodes a picture; the program takes the encoded frame from the driver, cuts it into RTP packets
  or compact packets and sends them over UDP, a unix socket or a shared-memory ring, records it
  raw or as MPEG-TS on an SD card together with the captured audio, and is steered over HTTP while
  it runs. All paths below are relative to the repository's source directory.

  Parts, theories and what is shown.

  \<^item> Prelude.thy: names of the C types, laws of byte order, lists and words that the rest shares.
  CLib.thy: what the program uses of the C library on text (number parsing and printing, bounded
  copies, the integer/double conversions). Queues.thy: the contracts of bounded and dropping queues as
  locales (\<open>fifo_source\<close>, \<open>lossy_queue\<close>, \<open>rejecting_queue\<close>, \<open>evicting_queue\<close>), with their consequences for runs
  of operations; each ring interprets them.

  \<^item> VencRing.thy, RingProtocol.thy (\<open>include/venc_ring.h\<close>, \<open>src/venc_ring.c\<close>): the ring between the
  streamer and another process. VencRing.thy has create, attach, destroy, write and read as
  functions over the header and the slots and shows that they refine a bounded queue.
  RingProtocol.thy has every atomic load and store of write, read and read-wait as one step of
  a transition system and shows, by an invariant over reachable states, that what the consumer
  gets is what the producer put, in order and whole, for every interleaving under sequential
  consistency; it also shows a lost wake-up.

  \<^item> H26x.thy (\<open>src/h26x_util.c\<close>, \<open>src/h26x_param_sets.c\<close>, \<open>src/rtp_session.c\<close>), PacketSink.thy (the
  writer callback as a locale), RtpPacketizer.thy (\<open>src/rtp_packetizer.c\<close>), EncoderStream.thy
  (the frame layout of \<open>include/sigmastar_types.h\<close>), HevcRtp.thy (\<open>src/star6e_hevc_rtp.c\<close>):
  from the frame in the driver's memory to RTP packets with aggregation and fragmentation. A
  reference receiver reassembles the packets into the NAL units of the frame.

  \<^item> OutputSocket.thy (\<open>src/output_socket.c\<close>), Star6eOutput.thy (\<open>src/star6e_output.c\<close>): destinations,
  descriptors (every call on one is logged), sends, change of server, the audio destination cached beside the video's. The
  packet sink of the packetizers is interpreted on the output, which carries the receiver's
  theorem over to what leaves on the socket and to what a consumer reads from the ring.

  \<^item> Config.thy (\<open>src/venc_config.c\<close>, \<open>include/venc_config.h\<close>): defaults, loading with clamping, saving,
  URIs. Ranges after any load. Saving and loading again gives the configuration back (\<open>config_save_load_roundtrip\<close>)
  when the JSON library parses what it prints and its two decimals keep the floats. URIs survive printing and parsing.

  \<^item> ApiFields.thy, ApiSet.thy, ApiTable.thy, ApiProps.thy, Httpd.thy, HttpdProps.thy, ApiServer.thy,
  ApiServerProps.thy (\<open>src/venc_api.c\<close>, \<open>src/venc_httpd.c\<close>): the settings table as get/put pairs
  on the configuration, the batch of live settings as a transaction with rollback, the documents it is answered
  with, the handlers, the routes and the server below them. Atomicity, ranges, parsing of a request
  independent of how it is cut up, which handler a request gets, and the whole path from the bytes
  of a request to the bytes of the answer.

  \<^item> TsMux.thy (\<open>src/ts_mux.c\<close>), TsDemux.thy (a reference receiver), TsSession.thy: PES packets, tables,
  continuity over whole sessions, round trips.

  \<^item> MutexRings.thy (\<open>include/audio_ring.h\<close>, \<open>include/imu_ring.h\<close>, \<open>include/eis_ring.h\<close>): the rings
  between threads of the process, refinement of a dropping queue, range queries, the wait.

  \<^item> Disk.thy, Recorder.thy (\<open>src/star6e_recorder.c\<close>), TsRecorder.thy, TsRecorderProps.thy
  (\<open>src/star6e_ts_recorder.c\<close>): both recorders over a file system whose answers are given. Every
  file is a valid stream up to where a write stopped, descriptors do not leak, a frame that is
  accepted can be got back.

  \<^item> PipelineCommon.thy (\<open>src/pipeline_common.c\<close>): GOP length, clamping, crop, exposure cap.

  \<^item> SceneDetect.thy (\<open>src/star6e_runtime.c\<close>): the scene detector as a state machine over the sizes and
  kinds of the frames: key frames are asked for only after a burst of large frames and at a distance from the last,
  bounds of the mean, the wait for a settled picture ends.

  \<^item> G711.thy, StarAudio.thy (\<open>src/star6e_audio.c\<close>): the A-law and mu-law encoders against the
  standard's decoders, the device's life cycle over restarts, the capture and encoding threads
  around the audio ring, the output filter against the lines of the text.

  \<^item> Sidecar.thy (\<open>src/rtp_sidecar.c\<close>), TimingProbe.thy, ProbeFrames.thy
  (\<open>tools/rtp_timing_probe.c\<close>): both ends of the metadata channel. The channel is silent unless asked,
  the probe's clock offset is off by at most half a round trip, losses are counted, and messages that
  follow their frame are never joined with it.

  \<^item> StreamMetrics.thy, Star6eVideo.thy (\<open>src/stream_metrics.c\<close>, \<open>src/star6e_video.c\<close>): one frame's way
  through RTP and the metadata channel; the message names exactly the packets that left.

  \<^item> MiDevice.thy, SensorSelect.thy (\<open>src/sensor_select.c\<close>), Star6ePipeline.thy, PipelineStages.thy,
  PipelineProps.thy, PipelineReinit.thy, PipelineLife.thy (\<open>src/star6e_pipeline.c\<close>): the camera's driver as
  a log of calls and what is up after it; the choice of the sensor's mode is the best; the pipeline goes up
  whole or not at all, a stop takes everything down, a reinitialisation keeps the sensor.

  \<^item> Star6eControls.thy, DeviceContract.thy, ControlProps.thy, RoiBands.thy (\<open>src/star6e_controls.c\<close>): the
  settings on a running pipeline. What the settings API promises about its device is a locale, the
  callbacks are its instance: after any request exactly what was up is up, but for the encoder's binding when
  the driver refused it. A frame rate that is accepted is bound and in the channel's attributes; the bands of
  interest lie in the frame for every centre that is a number. The unit's rounding and its conversion of a value
  that is no number, which C leaves undefined, are the record \<open>float_unit\<close>.

  \<^item> ServerContract.thy, Star6eRunner.thy, RunnerProps.thy, RunnerLife.thy (\<open>src/star6e_runtime.c\<close>,
  \<open>src/backend.c\<close>): the life of the process, which ties the parts together: start, startup controls, main loop
  with its frames, recordings, requests and reinitialisations, tear-down. However a session goes, nothing is left up
  but what a reported failure of start or reinitialisation leaves of the front end; one recording at a time; every
  frame goes back to the encoder; a requested reinitialisation is carried out.

  Conventions. C integers are words of their width where they wrap and \<open>nat\<close> or \<open>int\<close> where the
  code keeps them small by a test the model has too. A struct is a record, an array a list, a
  C text a list of characters without its zero. Doubles are rationals with infinities and NaN
  (\<open>dbl\<close>); rounding and the conversion between text and doubles are arguments, and a theorem that needs
  something of them says so.
  What the kernel, the SDK's driver, the JSON library and the clock answer is an argument: a function on a
  state of the device, or a list of the answers successive calls get (sends, reads, writes, opens);
  a list that is used up stands for a call that fails, or a thread that is not scheduled again, and the
  theorems hold for every list unless they say which answers they need. No definition uses fuel: the loops
  are recursions on their data, on a list of answers, or on a measure.

  A thread is a component of its own only where the code synchronises without a lock: the
  shared-memory ring (steps of single loads and stores) and the cached audio destination (three
  snapshots). Operations under a mutex run whole; the HTTP requests, the signals and what the audio thread
  captured come between the steps of the main loop.

  Not modelled. The vendored JSON library, the SDK and its headers, the other tools and
  the sensor probes are not part of the program's own logic. The dashboard's page is data. The second backend (Maruko, \<open>src/maruko_*.c\<close>), which repeats the Star6E parts over
  other driver calls; the offsets of the image-quality parameters (\<open>src/star6e_iq.c\<close>) and the work of the exposure
  thread (\<open>src/star6e_cus3a.c\<close>), whose starts and stops the runtime has; the second channel's recording thread; the
  motion sensor and the stabiliser's filters; the overlay's drawing; the document of sensor modes; loading the vendor
  libraries; starting the HTTP thread; printed messages; the watchdogs that kill a process which does not end. Failed
  allocations are modelled only for the frame's table, the runtime's context and the answer of a settings request.
\<close>

end
